(* ===== verification/Py_Prelude.thy ===== *)
theory Py_Prelude
  imports Complex_Main "HOL-Library.AList" "HOL-Library.List_Lexorder"
    "HOL-Library.Product_Lexorder" "HOL-Library.Char_ord" "HOL-Library.Word"
begin

text \<open>
  The part of Python that every component uses: exceptions as values, strings (\<open>strip\<close>,
  \<open>str\<close>, \<open>repr\<close>, \<open>join\<close>), dynamically typed values with the checks the code makes on
  them (\<open>isinstance\<close>, \<open>math.isfinite\<close>, truth value), and dictionaries. A dictionary is an
  association list with distinct keys, in insertion order: the code iterates over its
  dictionaries, and assigning to an existing key keeps the key's place
  (\<^const>\<open>AList.update\<close>). The generic facts on these, and on the event logs that both
  state machines of the program keep, are collected here for the component theories.

  A Python string is a \<^typ>\<open>string\<close>, a list of code points below 256. A float is an exact
  rational, an infinity or NaN: rounding and overflow of finite arithmetic are not modelled.
\<close>

section \<open>Collections of facts\<close>

named_theorems dict_simps "lookups and key lists of dictionaries after an update"

section \<open>Exceptions\<close>

datatype py_exc = PyExc (exc_type: string) (exc_msg: string)

abbreviation ValueError :: "string \<Rightarrow> py_exc" where
  "ValueError m \<equiv> PyExc ''ValueError'' m"

abbreviation TypeError :: "string \<Rightarrow> py_exc" where
  "TypeError m \<equiv> PyExc ''TypeError'' m"

abbreviation RuntimeError :: "string \<Rightarrow> py_exc" where
  "RuntimeError m \<equiv> PyExc ''RuntimeError'' m"

text \<open>The two renderings the code uses: \<open>f"{type(exc).__name__}: {exc}"\<close> and the one
  without the blank.\<close>

definition show_exc :: "py_exc \<Rightarrow> string" where
  "show_exc e = exc_type e @ '': '' @ exc_msg e"

definition show_exc_tight :: "py_exc \<Rightarrow> string" where
  "show_exc_tight e = exc_type e @ '':'' @ exc_msg e"

section \<open>Strings\<close>

definition py_space :: "char \<Rightarrow> bool" where
  "py_space c = (let n = (of_char c :: nat) in
     n = 32 \<or> (9 \<le> n \<and> n \<le> 13) \<or> (28 \<le> n \<and> n \<le> 31) \<or> n = 133 \<or> n = 160)"

definition strip :: "string \<Rightarrow> string" where
  "strip s = rev (dropWhile py_space (rev (dropWhile py_space s)))"

fun str_join :: "string \<Rightarrow> string list \<Rightarrow> string" where
  "str_join sep [] = []"
| "str_join sep [x] = x"
| "str_join sep (x # y # xs) = x @ sep @ str_join sep (y # xs)"

definition digit_char :: "nat \<Rightarrow> char" where
  "digit_char d = char_of (48 + d)"

fun str_of_nat :: "nat \<Rightarrow> string" where
  "str_of_nat n = (if n < 10 then [digit_char n] else str_of_nat (n div 10) @ [digit_char (n mod 10)])"

declare str_of_nat.simps [simp del]

definition str_of_int :: "int \<Rightarrow> string" where
  "str_of_int i = (if i < 0 then ''-'' @ str_of_nat (nat (- i)) else str_of_nat (nat i))"

text \<open>\<open>repr\<close> of a string: single quotes unless the text holds a single quote and no double
  quote; backslash, the quote and unprintable characters are escaped.\<close>

definition hex_char :: "nat \<Rightarrow> char" where
  "hex_char d = char_of (if d < 10 then 48 + d else 87 + d)"

definition repr_char :: "char \<Rightarrow> char \<Rightarrow> string" where
  "repr_char q c = (let n = (of_char c :: nat) in
     if c = q \<or> n = 92 then [char_of (92::nat), c]
     else if n = 10 then [char_of (92::nat), CHR ''n'']
     else if n = 13 then [char_of (92::nat), CHR ''r'']
     else if n = 9 then [char_of (92::nat), CHR ''t'']
     else if n < 32 \<or> (127 \<le> n \<and> n \<le> 160) \<or> n = 173
       then [char_of (92::nat), CHR ''x'', hex_char (n div 16), hex_char (n mod 16)]
     else [c])"

definition repr_str :: "string \<Rightarrow> string" where
  "repr_str s = (let q = (if CHR 0x27 \<in> set s \<and> CHR 0x22 \<notin> set s then CHR 0x22 else CHR 0x27)
     in [q] @ concat (map (repr_char q) s) @ [q])"

definition repr_str_list :: "string list \<Rightarrow> string" where
  "repr_str_list xs = ''['' @ str_join '', '' (map repr_str xs) @ '']''"

text \<open>\<open>x or y\<close> on an optional string: an absent or empty left side gives the right side.\<close>

definition str_or :: "string option \<Rightarrow> string \<Rightarrow> string" where
  "str_or x y = (case x of Some (c # cs) \<Rightarrow> c # cs | _ \<Rightarrow> y)"

definition str_truthy :: "string option \<Rightarrow> bool" where
  "str_truthy x = (case x of Some (c # cs) \<Rightarrow> True | _ \<Rightarrow> False)"

text \<open>\<open>str.encode("utf-8")\<close> on code points below 256.\<close>

definition utf8_char :: "char \<Rightarrow> 8 word list" where
  "utf8_char c = (let n = (of_char c :: nat) in
     if n < 128 then [of_nat n] else [of_nat (192 + n div 64), of_nat (128 + n mod 64)])"

definition utf8 :: "string \<Rightarrow> 8 word list" where
  "utf8 s = concat (map utf8_char s)"

lemma dropWhile_hd_no: "xs \<noteq> [] \<Longrightarrow> \<not> P (hd xs) \<Longrightarrow> dropWhile P xs = xs"
  by (cases xs) auto

lemma strip_Nil [simp]: "strip [] = []"
  by (simp add: strip_def)

lemma strip_fixed: "s = [] \<or> (\<not> py_space (hd s) \<and> \<not> py_space (last s)) \<Longrightarrow> strip s = s"
  by (cases "s = []") (auto simp: strip_def dropWhile_hd_no hd_rev)

lemma strip_ends: "strip s \<noteq> [] \<Longrightarrow> \<not> py_space (hd (strip s)) \<and> \<not> py_space (last (strip s))"
proof -
  let ?d = "dropWhile py_space s"
  assume ne: "strip s \<noteq> []"
  have last: "\<not> py_space (last (strip s))"
    using ne hd_dropWhile [of py_space "rev ?d"] by (simp add: strip_def last_rev)
  obtain ys where split: "?d = strip s @ ys"
    unfolding strip_def
    by (metis rev_append rev_rev_ident takeWhile_dropWhile_id)
  then have "hd (strip s) = hd ?d" using ne by simp
  moreover have "?d \<noteq> []" using split ne by auto
  ultimately have "\<not> py_space (hd (strip s))" using hd_dropWhile [of py_space s] by simp
  with last show ?thesis by blast
qed

lemma strip_idem [simp]: "strip (strip s) = strip s"
  using strip_ends strip_fixed by blast

lemma length_strip: "length (strip s) \<le> length s"
  unfolding strip_def
  by (metis (no_types, lifting) length_dropWhile_le length_rev order_trans)

lemma str_or_None [simp]: "str_or None y = y"
  by (simp add: str_or_def)

section \<open>Dynamic values\<close>

datatype pyfloat = FFin rat | FInf | FNegInf | FNaN

datatype pyval =
    PNone
  | PBool bool
  | PInt int
  | PFloat pyfloat
  | PStr string
  | PList "pyval list"
  | PDict "(string \<times> pyval) list"

type_synonym pydict = "(string \<times> pyval) list"

abbreviation pnum :: "rat \<Rightarrow> pyval" where
  "pnum r \<equiv> PFloat (FFin r)"

definition popt_str :: "string option \<Rightarrow> pyval" where
  "popt_str x = (case x of None \<Rightarrow> PNone | Some s \<Rightarrow> PStr s)"

definition popt_num :: "rat option \<Rightarrow> pyval" where
  "popt_num x = (case x of None \<Rightarrow> PNone | Some r \<Rightarrow> pnum r)"

definition pstrs :: "string list \<Rightarrow> pyval" where
  "pstrs xs = PList (map PStr xs)"

text \<open>\<open>isinstance(v, (int, float)) and not isinstance(v, bool) and math.isfinite(v)\<close>, with the
  number it reads.\<close>

fun finite_num :: "pyval \<Rightarrow> rat option" where
  "finite_num (PInt i) = Some (of_int i)"
| "finite_num (PFloat (FFin r)) = Some r"
| "finite_num _ = None"

text \<open>\<open>isinstance(v, int) and not isinstance(v, bool)\<close>.\<close>

fun plain_int :: "pyval \<Rightarrow> int option" where
  "plain_int (PInt i) = Some i"
| "plain_int _ = None"

fun truthy :: "pyval \<Rightarrow> bool" where
  "truthy PNone = False"
| "truthy (PBool b) = b"
| "truthy (PInt i) = (i \<noteq> 0)"
| "truthy (PFloat f) = (f \<noteq> FFin 0)"
| "truthy (PStr s) = (s \<noteq> [])"
| "truthy (PList xs) = (xs \<noteq> [])"
| "truthy (PDict d) = (d \<noteq> [])"

text \<open>\<open>v == 0\<close>: true of \<open>False\<close>, \<open>0\<close> and \<open>0.0\<close>.\<close>

fun num_value :: "pyval \<Rightarrow> rat option" where
  "num_value (PBool b) = Some (if b then 1 else 0)"
| "num_value (PInt i) = Some (of_int i)"
| "num_value (PFloat (FFin r)) = Some r"
| "num_value _ = None"

definition eq_num :: "pyval \<Rightarrow> int \<Rightarrow> bool" where
  "eq_num v i = (num_value v = Some (of_int i))"

section \<open>Dictionaries\<close>

definition dget :: "(string \<times> 'v) list \<Rightarrow> string \<Rightarrow> 'v option" where
  "dget d k = map_of d k"

definition dget_or :: "'v \<Rightarrow> (string \<times> 'v) list \<Rightarrow> string \<Rightarrow> 'v" where
  "dget_or v d k = (case map_of d k of None \<Rightarrow> v | Some x \<Rightarrow> x)"

definition dkeys :: "(string \<times> 'v) list \<Rightarrow> string list" where
  "dkeys d = map fst d"

definition dset :: "string \<Rightarrow> 'v \<Rightarrow> (string \<times> 'v) list \<Rightarrow> (string \<times> 'v) list" where
  "dset k v d = AList.update k v d"

definition ddel :: "string \<Rightarrow> (string \<times> 'v) list \<Rightarrow> (string \<times> 'v) list" where
  "ddel k d = filter (\<lambda>(k', v). k' \<noteq> k) d"

text \<open>\<open>d.update(e)\<close> and mutation of the object stored under a key.\<close>

definition dupdate :: "(string \<times> 'v) list \<Rightarrow> (string \<times> 'v) list \<Rightarrow> (string \<times> 'v) list" where
  "dupdate d e = fold (\<lambda>(k, v) acc. dset k v acc) e d"

definition dmod :: "string \<Rightarrow> ('v \<Rightarrow> 'v) \<Rightarrow> (string \<times> 'v) list \<Rightarrow> (string \<times> 'v) list" where
  "dmod k f d = map (\<lambda>(k', v). if k' = k then (k', f v) else (k', v)) d"

definition wf_dict :: "(string \<times> 'v) list \<Rightarrow> bool" where
  "wf_dict d = distinct (map fst d)"

lemma dget_dset [simp, dict_simps]: "dget (dset k v d) k' = (if k' = k then Some v else dget d k')"
  by (simp add: dget_def dset_def update_conv')

lemma dget_Nil [simp]: "dget [] k = None"
  by (simp add: dget_def)

lemma dkeys_dset [dict_simps]: "set (dkeys (dset k v d)) = insert k (set (dkeys d))"
  using dom_update [of k v d] by (simp add: dkeys_def dset_def)

lemma wf_dset [simp]: "wf_dict d \<Longrightarrow> wf_dict (dset k v d)"
  by (simp add: wf_dict_def dset_def distinct_update)

lemma wf_dict_Nil [simp]: "wf_dict []"
  by (simp add: wf_dict_def)

lemma dset_new: "k \<notin> set (dkeys d) \<Longrightarrow> dset k v d = d @ [(k, v)]"
  by (induction d) (auto simp: dset_def dkeys_def)

lemma length_dset: "length (dset k v d) = (if k \<in> set (dkeys d) then length d else Suc (length d))"
  by (induction d) (auto simp: dset_def dkeys_def)

lemma dkeys_dset_old: "k \<in> set (dkeys d) \<Longrightarrow> dkeys (dset k v d) = dkeys d"
  by (induction d) (auto simp: dset_def dkeys_def)

lemma map_of_ddel: "map_of (ddel k d) k' = (if k' = k then None else map_of d k')"
  by (induction d) (auto simp: ddel_def)

lemma dget_ddel [simp, dict_simps]: "dget (ddel k d) k' = (if k' = k then None else dget d k')"
  by (simp add: dget_def map_of_ddel)

lemma wf_ddel [simp]: "wf_dict d \<Longrightarrow> wf_dict (ddel k d)"
  unfolding wf_dict_def ddel_def by (rule distinct_map_filter)

lemma map_of_dmod: "map_of (dmod k f d) k' = (if k' = k then map_option f (map_of d k) else map_of d k')"
  by (induction d) (auto simp: dmod_def)

lemma dget_dmod [simp, dict_simps]: "dget (dmod k f d) k' = (if k' = k then map_option f (dget d k) else dget d k')"
  by (simp add: dget_def map_of_dmod)

lemma dkeys_dmod [simp, dict_simps]: "dkeys (dmod k f d) = dkeys d"
  by (induction d) (auto simp: dkeys_def dmod_def)

lemma length_dmod [simp]: "length (dmod k f d) = length d"
  by (simp add: dmod_def)

lemma wf_dmod [simp]: "wf_dict (dmod k f d) = wf_dict d"
  using dkeys_dmod [of k f d] by (simp add: wf_dict_def dkeys_def)

lemma dget_None_iff: "dget d k = None \<longleftrightarrow> k \<notin> set (dkeys d)"
  by (auto simp: dget_def dkeys_def map_of_eq_None_iff)

lemma dget_Some_key: "dget d k = Some v \<Longrightarrow> k \<in> set (dkeys d)"
  using dget_None_iff [of d k] by auto

lemma dkey_dget: "k \<in> set (dkeys d) \<Longrightarrow> \<exists>v. dget d k = Some v"
  using dget_None_iff [of d k] by auto

lemma dget_in: "wf_dict d \<Longrightarrow> (k, v) \<in> set d \<longleftrightarrow> dget d k = Some v"
  by (simp add: wf_dict_def dget_def)

lemma dmod_split:
  assumes "wf_dict d" "dget d k = Some v"
  shows "\<exists>xs ys. d = xs @ (k, v) # ys \<and> dmod k f d = xs @ (k, f v) # ys"
proof -
  from assms obtain xs ys where d: "d = xs @ (k, v) # ys"
    using dget_in [of d k v] split_list by metis
  with assms(1) have "k \<notin> fst ` set xs" "k \<notin> fst ` set ys"
    by (auto simp: wf_dict_def)
  then have "dmod k f xs = xs" "dmod k f ys = ys"
    by (force simp: dmod_def intro!: map_idI)+
  with d show ?thesis by (auto simp: dmod_def)
qed

section \<open>Interface: a store of keyed entries\<close>

text \<open>
  Several components keep entries under string keys and rely on the same laws: a lookup after
  a store gives the stored entry, other keys are untouched, a removed key is gone. The client
  facts are proved once from the laws.
\<close>

locale keyed_store =
  fixes lookup :: "'s \<Rightarrow> string \<Rightarrow> 'v option"
    and store :: "string \<Rightarrow> 'v \<Rightarrow> 's \<Rightarrow> 's"
    and remove :: "string \<Rightarrow> 's \<Rightarrow> 's"
    and ok :: "'s \<Rightarrow> bool"
  assumes lookup_store: "ok s \<Longrightarrow> lookup (store k v s) k' = (if k' = k then Some v else lookup s k')"
    and lookup_remove: "ok s \<Longrightarrow> lookup (remove k s) k' = (if k' = k then None else lookup s k')"
    and ok_store: "ok s \<Longrightarrow> ok (store k v s)"
    and ok_remove: "ok s \<Longrightarrow> ok (remove k s)"
begin

lemma ok_fold_remove: "ok s \<Longrightarrow> ok (fold remove ks s)"
  by (induction ks arbitrary: s) (auto intro: ok_remove)

lemma lookup_fold_remove:
  "ok s \<Longrightarrow> lookup (fold remove ks s) k = (if k \<in> set ks then None else lookup s k)"
  by (induction ks arbitrary: s) (auto simp: lookup_remove ok_remove)

lemma ok_fold_store: "ok s \<Longrightarrow> ok (fold (\<lambda>(k, v). store k v) kvs s)"
  by (induction kvs arbitrary: s) (auto intro: ok_store)

lemma lookup_fold_store:
  "ok s \<Longrightarrow> k \<notin> fst ` set kvs \<Longrightarrow> lookup (fold (\<lambda>(k, v). store k v) kvs s) k = lookup s k"
  by (induction kvs arbitrary: s) (auto simp: lookup_store ok_store)

lemma lookup_fold_store_in:
  "ok s \<Longrightarrow> distinct (map fst kvs) \<Longrightarrow> (k, v) \<in> set kvs \<Longrightarrow>
   lookup (fold (\<lambda>(k, v). store k v) kvs s) k = Some v"
proof (induction kvs arbitrary: s)
  case (Cons kv kvs)
  show ?case
  proof (cases "kv = (k, v)")
    case True
    with Cons.prems have "k \<notin> fst ` set kvs" by auto
    with True Cons.prems(1) show ?thesis by (simp add: lookup_fold_store lookup_store ok_store)
  next
    case False
    with Cons show ?thesis by (auto simp: ok_store split: prod.splits)
  qed
qed simp

end

interpretation dict: keyed_store dget dset ddel wf_dict
  by unfold_locales simp_all

lemma dget_fold_dset_other:
  "wf_dict d \<Longrightarrow> k \<notin> fst ` set kvs \<Longrightarrow> dget (fold (\<lambda>(k, v). dset k v) kvs d) k = dget d k"
  by (rule dict.lookup_fold_store)

lemma dkeys_fold_dset:
  "set (dkeys (fold (\<lambda>(k, v). dset k v) kvs d)) = set (dkeys d) \<union> fst ` set kvs"
  by (induction kvs arbitrary: d) (auto simp: dkeys_dset)

section \<open>Interface: numbered event logs\<close>

definition numbered :: "('e \<Rightarrow> nat) \<Rightarrow> 'e list \<Rightarrow> bool" where
  "numbered f es = (map f es = [1..<length es + 1])"

lemma numbered_Nil [simp]: "numbered f []"
  by (simp add: numbered_def)

lemma numbered_snoc: "numbered f es \<Longrightarrow> f e = Suc (length es) \<Longrightarrow> numbered f (es @ [e])"
  by (simp add: numbered_def)

lemma numbered_nth: "numbered f es \<Longrightarrow> i < length es \<Longrightarrow> f (es ! i) = i + 1"
proof -
  assume n: "numbered f es" and i: "i < length es"
  have "f (es ! i) = map f es ! i" using i by simp
  also have "\<dots> = [1..<length es + 1] ! i" using n by (simp add: numbered_def)
  also have "\<dots> = i + 1" using i by (simp del: upt_Suc)
  finally show ?thesis .
qed

text \<open>
  Both the loop engine and the task scheduler append events to a log with
  \<open>sequence = len(events) + 1\<close>. What the code relies on is one contract: emitting appends
  exactly one event with the next number. The clients get: logs stay numbered and only grow.
\<close>

locale event_log =
  fixes log_of :: "'s \<Rightarrow> 'e list"
    and seq_of :: "'e \<Rightarrow> nat"
    and emit :: "'a \<Rightarrow> 's \<Rightarrow> 's"
  assumes emit_appends: "\<exists>e. log_of (emit a s) = log_of s @ [e] \<and> seq_of e = length (log_of s) + 1"
begin

lemma emit_numbered: "numbered seq_of (log_of s) \<Longrightarrow> numbered seq_of (log_of (emit a s))"
  using emit_appends [of a s] by (auto intro: numbered_snoc)

lemma emit_prefix: "\<exists>es. log_of (emit a s) = log_of s @ es"
  using emit_appends [of a s] by blast

end

section \<open>Sums over lists\<close>

lemma sum_list_split_less:
  fixes f :: "'a \<Rightarrow> nat"
  shows "f y < f x \<Longrightarrow> sum_list (map f (xs @ y # ys)) < sum_list (map f (xs @ x # ys))"
  by simp

lemma sum_list_map_mono_nat:
  fixes f g :: "'a \<Rightarrow> nat"
  shows "(\<And>x. x \<in> set xs \<Longrightarrow> f x \<le> g x) \<Longrightarrow> sum_list (map f xs) \<le> sum_list (map g xs)"
  by (induction xs) (auto intro: add_mono)

end
