(* ===== verification/Loop_Models.thy ===== *)
theory Loop_Models
  imports Py_Prelude
begin

text \<open>
  The contracts of the loop engine (\<open>loop_engine/models.py\<close>), its event log
  (\<open>loop_engine/events.py\<close>) and its stop policies (\<open>loop_engine/policies.py\<close>). Record
  fields carry a prefix for the class they belong to. Timestamps are the strings the code
  keeps; durations and the wall clock are rational seconds.
\<close>

section \<open>Data\<close>

datatype loop_status = LS_READY | LS_RUNNING | LS_COMPLETED | LS_STOPPED | LS_FAILED

datatype loop_phase =
  LP_READY | LP_PLANNING | LP_EXECUTING | LP_VERIFYING | LP_JUDGING | LP_TERMINAL

datatype decision = CONTINUE | COMPLETE | STOP | REPLAN

record loop_budget =
  lb_max_iterations :: int
  lb_max_actions :: int
  lb_timeout_seconds :: rat
  lb_max_repeated_observations :: int

definition default_loop_budget :: loop_budget where
  "default_loop_budget = \<lparr>lb_max_iterations = 6, lb_max_actions = 12,
     lb_timeout_seconds = 300, lb_max_repeated_observations = 2\<rparr>"

record loop_definition =
  ld_goal :: string
  ld_success_criteria :: "string list"
  ld_constraints :: "string list"
  ld_budget :: loop_budget
  ld_metadata :: pydict

record action =
  ac_tool :: string
  ac_arguments :: pydict
  ac_reason :: string

record plan =
  pl_actions :: "action list"
  pl_rationale :: string
  pl_expected_evidence :: "string list"

record action_result =
  ar_action :: action
  ar_status :: string
  ar_output :: pydict
  ar_error :: "string option"
  ar_duration_seconds :: rat

record verification_result =
  vr_status :: string
  vr_passed :: "string list"
  vr_failed :: "string list"
  vr_evidence :: pydict

record judgement =
  jd_decision :: decision
  jd_reason :: string
  jd_progress_signals :: "string list"
  jd_next_focus :: "string option"

record loop_event =
  le_sequence :: nat
  le_event_type :: string
  le_iteration :: int
  le_payload :: pydict
  le_timestamp :: string

record loop_state =
  ls_run_id :: string
  ls_definition :: loop_definition
  ls_status :: loop_status
  ls_phase :: loop_phase
  ls_iteration :: int
  ls_action_count :: int
  ls_started_at :: "string option"
  ls_finished_at :: "string option"
  ls_current_focus :: string
  ls_latest_plan :: "plan option"
  ls_next_action_index :: int
  ls_iteration_results :: "action_result list"
  ls_action_results :: "action_result list"
  ls_latest_verification :: "verification_result option"
  ls_latest_judgement :: "judgement option"
  ls_observation_signatures :: "string list"
  ls_stop_reason :: "string option"
  ls_events :: "loop_event list"

definition loop_status_str :: "loop_status \<Rightarrow> string" where
  "loop_status_str s = (case s of LS_READY \<Rightarrow> ''ready'' | LS_RUNNING \<Rightarrow> ''running''
     | LS_COMPLETED \<Rightarrow> ''completed'' | LS_STOPPED \<Rightarrow> ''stopped'' | LS_FAILED \<Rightarrow> ''failed'')"

definition loop_phase_str :: "loop_phase \<Rightarrow> string" where
  "loop_phase_str p = (case p of LP_READY \<Rightarrow> ''ready'' | LP_PLANNING \<Rightarrow> ''planning''
     | LP_EXECUTING \<Rightarrow> ''executing'' | LP_VERIFYING \<Rightarrow> ''verifying''
     | LP_JUDGING \<Rightarrow> ''judging'' | LP_TERMINAL \<Rightarrow> ''terminal'')"

definition decision_str :: "decision \<Rightarrow> string" where
  "decision_str d = (case d of CONTINUE \<Rightarrow> ''continue'' | COMPLETE \<Rightarrow> ''complete''
     | STOP \<Rightarrow> ''stop'' | REPLAN \<Rightarrow> ''replan'')"

section \<open>Event payloads: \<open>dataclasses.asdict\<close>\<close>

definition action_dict :: "action \<Rightarrow> pydict" where
  "action_dict a = [(''tool'', PStr (ac_tool a)), (''arguments'', PDict (ac_arguments a)),
     (''reason'', PStr (ac_reason a))]"

definition plan_dict :: "plan \<Rightarrow> pydict" where
  "plan_dict p = [(''actions'', PList (map (\<lambda>a. PDict (action_dict a)) (pl_actions p))),
     (''rationale'', PStr (pl_rationale p)),
     (''expected_evidence'', pstrs (pl_expected_evidence p))]"

definition action_result_dict :: "action_result \<Rightarrow> pydict" where
  "action_result_dict r = [(''action'', PDict (action_dict (ar_action r))),
     (''status'', PStr (ar_status r)), (''output'', PDict (ar_output r)),
     (''error'', popt_str (ar_error r)), (''duration_seconds'', pnum (ar_duration_seconds r))]"

definition verification_dict :: "verification_result \<Rightarrow> pydict" where
  "verification_dict v = [(''status'', PStr (vr_status v)), (''passed'', pstrs (vr_passed v)),
     (''failed'', pstrs (vr_failed v)), (''evidence'', PDict (vr_evidence v))]"

definition judgement_dict :: "judgement \<Rightarrow> pydict" where
  "judgement_dict j = [(''decision'', PStr (decision_str (jd_decision j))),
     (''reason'', PStr (jd_reason j)), (''progress_signals'', pstrs (jd_progress_signals j)),
     (''next_focus'', popt_str (jd_next_focus j))]"

section \<open>Events\<close>

text \<open>The clock's reading is an argument: \<open>utc_now()\<close> is read by the caller.\<close>

definition record_event :: "string \<times> pydict \<times> string \<Rightarrow> loop_state \<Rightarrow> loop_state" where
  "record_event = (\<lambda>(event_type, payload, stamp) s.
     s\<lparr>ls_events := ls_events s @
        [\<lparr>le_sequence = length (ls_events s) + 1, le_event_type = event_type,
          le_iteration = ls_iteration s, le_payload = payload, le_timestamp = stamp\<rparr>]\<rparr>)"

interpretation loop_log: event_log ls_events le_sequence record_event
  by unfold_locales (auto simp: record_event_def)

section \<open>Stop policies\<close>

definition budget_stop_reason ::
  "(string \<Rightarrow> rat) \<Rightarrow> loop_state \<Rightarrow> rat \<Rightarrow> bool \<Rightarrow> string option" where
  "budget_stop_reason fromisoformat s now check_iteration =
     (let budget = ld_budget (ls_definition s) in
      if check_iteration \<and> ls_iteration s \<ge> max 1 (lb_max_iterations budget)
        then Some ''iteration_budget_exhausted''
      else if ls_action_count s \<ge> max 1 (lb_max_actions budget)
        then Some ''action_budget_exhausted''
      else if str_truthy (ls_started_at s)
        \<and> now - fromisoformat (the (ls_started_at s)) \<ge> max (1/10) (lb_timeout_seconds budget)
        then Some ''wall_clock_budget_exhausted''
      else None)"

text \<open>The digest stands for \<open>sha256(json.dumps(..., sort_keys=True))\<close> of the value.\<close>

definition observation_signature :: "(pyval \<Rightarrow> string) \<Rightarrow> verification_result \<Rightarrow> string" where
  "observation_signature digest v = digest (PDict
     [(''status'', PStr (vr_status v)), (''passed'', pstrs (sort (vr_passed v))),
      (''failed'', pstrs (sort (vr_failed v))), (''evidence'', PDict (vr_evidence v))])"

definition last_n :: "nat \<Rightarrow> 'a list \<Rightarrow> 'a list" where
  "last_n n xs = drop (length xs - n) xs"

definition stagnation_stop_reason :: "loop_state \<Rightarrow> string \<Rightarrow> string option" where
  "stagnation_stop_reason s signature =
     (let limit = nat (max 2 (lb_max_repeated_observations (ld_budget (ls_definition s))));
          recent = last_n limit (ls_observation_signatures s @ [signature])
      in if length recent = limit \<and> card (set recent) = 1
         then Some ''repeated_observation_stagnation'' else None)"

lemma budget_stop_action:
  "budget_stop_reason f s now c = None \<Longrightarrow>
   ls_action_count s < max 1 (lb_max_actions (ld_budget (ls_definition s)))"
  by (auto simp: budget_stop_reason_def Let_def split: if_splits)

lemma budget_stop_iteration:
  "budget_stop_reason f s now True = None \<Longrightarrow>
   ls_iteration s < max 1 (lb_max_iterations (ld_budget (ls_definition s)))"
  by (auto simp: budget_stop_reason_def Let_def split: if_splits)

lemma last_n_snoc: "0 < n \<Longrightarrow> last_n n (xs @ [x]) = last_n (n - 1) xs @ [x]"
  by (auto simp: last_n_def)

lemma card_set_one_iff: "card (set xs) = 1 \<longleftrightarrow> xs \<noteq> [] \<and> (\<forall>y\<in>set xs. y = last xs)"
proof
  assume "card (set xs) = 1"
  then obtain z where "set xs = {z}" by (auto simp: card_Suc_eq numeral_eq_Suc card_1_singleton_iff)
  then show "xs \<noteq> [] \<and> (\<forall>y\<in>set xs. y = last xs)" by (cases xs rule: rev_cases) auto
next
  assume "xs \<noteq> [] \<and> (\<forall>y\<in>set xs. y = last xs)"
  then have "set xs = {last xs}" by auto
  then show "card (set xs) = 1" by simp
qed

text \<open>What stagnation means: the last \<open>limit\<close> observations, the new one included, agree.\<close>

lemma stagnation_iff:
  "stagnation_stop_reason s sig \<noteq> None \<longleftrightarrow>
   (let n = nat (max 2 (lb_max_repeated_observations (ld_budget (ls_definition s)))) - 1
    in n \<le> length (ls_observation_signatures s)
       \<and> (\<forall>x\<in>set (last_n n (ls_observation_signatures s)). x = sig))"
proof -
  define m where "m = nat (max 2 (lb_max_repeated_observations (ld_budget (ls_definition s))))"
  then have m: "2 \<le> m" by (simp add: m_def)
  let ?xs = "ls_observation_signatures s"
  have "last_n m (?xs @ [sig]) = last_n (m - 1) ?xs @ [sig]" using m by (simp add: last_n_snoc)
  moreover have "length (last_n (m - 1) ?xs) = min (m - 1) (length ?xs)"
    by (simp add: last_n_def)
  ultimately show ?thesis
    using m unfolding stagnation_stop_reason_def Let_def m_def [symmetric] card_set_one_iff
    by auto
qed

end
