(* ===== verification/Loop_Engine.thy ===== *)
theory Loop_Engine
  imports Loop_Models "HOL-Library.Sublist"
begin

text \<open>
  The deterministic loop orchestrator (\<open>loop_engine/engine.py\<close>): planner, executor, verifier,
  judge, checkpoint store and clocks are the ports of \<open>loop_engine/ports.py\<close>, functions that
  thread an external state \<open>'w\<close> and may raise. Ports read the loop state and do not change
  it. A run is a pair of loop state and external state; each phase of the code's \<open>while\<close> body
  is one definition, and the loop itself is a partial function whose result \<open>None\<close> means that
  it does not return.
\<close>

section \<open>Ports\<close>

record 'w loop_engine =
  eng_planner :: "loop_state \<Rightarrow> 'w \<Rightarrow> (py_exc + plan) \<times> 'w"
  eng_executor :: "action \<Rightarrow> loop_state \<Rightarrow> 'w \<Rightarrow> (py_exc + action_result) \<times> 'w"
  eng_verifier :: "loop_state \<Rightarrow> action_result list \<Rightarrow> 'w \<Rightarrow> (py_exc + verification_result) \<times> 'w"
  eng_judge :: "loop_state \<Rightarrow> verification_result \<Rightarrow> 'w \<Rightarrow> (py_exc + judgement) \<times> 'w"
  eng_checkpoint_store :: "(loop_state \<Rightarrow> 'w \<Rightarrow> 'w) option"
  eng_utc_now :: "'w \<Rightarrow> string \<times> 'w"
  eng_now :: "'w \<Rightarrow> rat \<times> 'w"
  eng_perf_counter :: "'w \<Rightarrow> rat \<times> 'w"
  eng_fromisoformat :: "string \<Rightarrow> rat"
  eng_digest :: "pyval \<Rightarrow> string"

type_synonym 'w run = "loop_state \<times> 'w"

section \<open>The engine's methods\<close>

definition eng_record :: "'w loop_engine \<Rightarrow> string \<Rightarrow> pydict \<Rightarrow> 'w run \<Rightarrow> 'w run" where
  "eng_record E event_type payload r =
     (let (t, w) = eng_utc_now E (snd r) in (record_event (event_type, payload, t) (fst r), w))"

definition eng_checkpoint :: "'w loop_engine \<Rightarrow> 'w run \<Rightarrow> 'w run" where
  "eng_checkpoint E r = (case eng_checkpoint_store E of
      None \<Rightarrow> r | Some save \<Rightarrow> (fst r, save (fst r) (snd r)))"

definition eng_stop :: "'w loop_engine \<Rightarrow> string \<Rightarrow> 'w run \<Rightarrow> 'w run" where
  "eng_stop E reason r =
     (let (t, w) = eng_utc_now E (snd r);
          s = (fst r)\<lparr>ls_status := LS_STOPPED, ls_phase := LP_TERMINAL,
                ls_stop_reason := Some reason, ls_finished_at := Some t\<rparr>
      in eng_checkpoint E (eng_record E ''loop_stopped'' [(''reason'', PStr reason)] (s, w)))"

definition eng_fail :: "'w loop_engine \<Rightarrow> string \<Rightarrow> 'w run \<Rightarrow> 'w run" where
  "eng_fail E reason r =
     (let (t, w) = eng_utc_now E (snd r);
          s = (fst r)\<lparr>ls_status := LS_FAILED, ls_phase := LP_TERMINAL,
                ls_stop_reason := Some reason, ls_finished_at := Some t\<rparr>
      in eng_checkpoint E (eng_record E ''loop_failed'' [(''reason'', PStr reason)] (s, w)))"

definition eng_budget :: "'w loop_engine \<Rightarrow> bool \<Rightarrow> 'w run \<Rightarrow> string option \<times> 'w run" where
  "eng_budget E check_iteration r =
     (let (t, w) = eng_now E (snd r)
      in (budget_stop_reason (eng_fromisoformat E) (fst r) t check_iteration, (fst r, w)))"

text \<open>\<open>create_state\<close>: the caller supplies the run id (\<open>run_id or uuid4().hex\<close>).\<close>

definition create_state :: "loop_definition \<Rightarrow> string \<Rightarrow> py_exc + loop_state" where
  "create_state d run_id =
     (let goal = strip (ld_goal d) in
      if goal = [] then Inl (ValueError ''loop goal is required'')
      else Inr \<lparr>ls_run_id = run_id, ls_definition = d\<lparr>ld_goal := goal\<rparr>,
        ls_status = LS_READY, ls_phase = LP_READY, ls_iteration = 0, ls_action_count = 0,
        ls_started_at = None, ls_finished_at = None, ls_current_focus = goal,
        ls_latest_plan = None, ls_next_action_index = 0, ls_iteration_results = [],
        ls_action_results = [], ls_latest_verification = None, ls_latest_judgement = None,
        ls_observation_signatures = [], ls_stop_reason = None, ls_events = []\<rparr>)"

definition start_iteration :: "'w loop_engine \<Rightarrow> 'w run \<Rightarrow> 'w run" where
  "start_iteration E r =
     (if ls_phase (fst r) \<noteq> LP_READY then r
      else let s = (fst r)\<lparr>ls_iteration := ls_iteration (fst r) + 1, ls_phase := LP_PLANNING,
                  ls_latest_plan := None, ls_next_action_index := 0, ls_iteration_results := []\<rparr>
           in eng_checkpoint E (eng_record E ''iteration_started''
                [(''focus'', PStr (ls_current_focus s))] (s, snd r)))"

definition plan_phase :: "'w loop_engine \<Rightarrow> 'w run \<Rightarrow> 'w run" where
  "plan_phase E r =
     (if ls_phase (fst r) \<noteq> LP_PLANNING then r
      else case eng_planner E (fst r) (snd r) of
        (Inl e, w) \<Rightarrow> eng_fail E (''planner_error:'' @ show_exc_tight e) (fst r, w)
      | (Inr p, w) \<Rightarrow>
          let r1 = eng_record E ''plan_created'' (plan_dict p)
                ((fst r)\<lparr>ls_latest_plan := Some p, ls_next_action_index := 0,
                   ls_iteration_results := []\<rparr>, w)
          in if pl_actions p = [] then eng_stop E ''planner_returned_no_actions'' r1
             else eng_checkpoint E ((fst r1)\<lparr>ls_phase := LP_EXECUTING\<rparr>, snd r1))"

text \<open>One turn of the inner \<open>while\<close>: the action is executed, its result recorded.\<close>

definition execute_action :: "'w loop_engine \<Rightarrow> action \<Rightarrow> 'w run \<Rightarrow> 'w run" where
  "execute_action E a r =
     (let (started, w0) = eng_perf_counter E (snd r);
          (outcome, w1) = eng_executor E a (fst r) w0;
          result = (case outcome of
              Inr x \<Rightarrow> x
            | Inl e \<Rightarrow> \<lparr>ar_action = a, ar_status = ''error'', ar_output = [],
                        ar_error = Some (show_exc e), ar_duration_seconds = 0\<rparr>);
          (ended, w2) = eng_perf_counter E w1;
          timed = result\<lparr>ar_duration_seconds := max (ar_duration_seconds result) (ended - started)\<rparr>;
          s = fst r
      in eng_checkpoint E (eng_record E ''action_finished'' (action_result_dict timed)
           (s\<lparr>ls_action_count := ls_action_count s + 1,
              ls_action_results := ls_action_results s @ [timed],
              ls_iteration_results := ls_iteration_results s @ [timed],
              ls_next_action_index := ls_next_action_index s + 1\<rparr>, w2)))"

text \<open>The inner \<open>while\<close> runs over the actions from \<open>next_action_index\<close> on.\<close>

fun run_actions :: "'w loop_engine \<Rightarrow> action list \<Rightarrow> 'w run \<Rightarrow> 'w run" where
  "run_actions E [] r = r"
| "run_actions E (a # as) r =
     (case eng_budget E False r of
        (Some reason, r1) \<Rightarrow> eng_stop E reason r1
      | (None, r1) \<Rightarrow> run_actions E as (execute_action E a r1))"

definition execute_phase :: "'w loop_engine \<Rightarrow> 'w run \<Rightarrow> 'w run" where
  "execute_phase E r =
     (if ls_phase (fst r) \<noteq> LP_EXECUTING then r
      else case ls_latest_plan (fst r) of
        None \<Rightarrow> eng_fail E ''invalid_checkpoint:executing_without_plan'' r
      | Some p \<Rightarrow>
          let actions = pl_actions p; i = ls_next_action_index (fst r) in
          if i < 0 \<or> i > int (length actions)
          then eng_fail E ''invalid_checkpoint:action_index_out_of_range'' r
          else let r1 = run_actions E (drop (nat i) actions) r in
               if ls_status (fst r1) \<noteq> LS_RUNNING then r1
               else eng_checkpoint E ((fst r1)\<lparr>ls_phase := LP_VERIFYING\<rparr>, snd r1))"

definition verify_phase :: "'w loop_engine \<Rightarrow> 'w run \<Rightarrow> 'w run" where
  "verify_phase E r =
     (if ls_phase (fst r) \<noteq> LP_VERIFYING then r
      else case eng_verifier E (fst r) (ls_iteration_results (fst r)) (snd r) of
        (Inl e, w) \<Rightarrow> eng_fail E (''verifier_error:'' @ show_exc_tight e) (fst r, w)
      | (Inr v, w) \<Rightarrow>
          let signature = observation_signature (eng_digest E) v;
              r1 = eng_record E ''verification_finished'' (verification_dict v)
                     ((fst r)\<lparr>ls_latest_verification := Some v\<rparr>, w);
              stagnation = stagnation_stop_reason (fst r1) signature;
              s2 = (fst r1)\<lparr>ls_observation_signatures :=
                      ls_observation_signatures (fst r1) @ [signature]\<rparr>
          in case stagnation of
               Some reason \<Rightarrow> eng_stop E reason (s2, snd r1)
             | None \<Rightarrow> eng_checkpoint E (s2\<lparr>ls_phase := LP_JUDGING\<rparr>, snd r1))"

definition apply_judgement :: "'w loop_engine \<Rightarrow> judgement \<Rightarrow> 'w run \<Rightarrow> 'w run" where
  "apply_judgement E j r =
     (if jd_decision j = COMPLETE then
        let (t, w) = eng_utc_now E (snd r) in
        eng_record E ''loop_completed'' [(''reason'', PStr (jd_reason j))]
          ((fst r)\<lparr>ls_status := LS_COMPLETED, ls_phase := LP_TERMINAL,
             ls_stop_reason := Some (jd_reason j), ls_finished_at := Some t\<rparr>, w)
      else if jd_decision j = STOP then
        eng_stop E (if jd_reason j = [] then ''judge_requested_stop'' else jd_reason j) r
      else
        let s = (fst r)\<lparr>ls_current_focus := str_or (jd_next_focus j) (ls_current_focus (fst r)),
                   ls_phase := LP_READY\<rparr>
        in eng_record E ''loop_continues''
             [(''decision'', PStr (decision_str (jd_decision j))),
              (''focus'', PStr (ls_current_focus s)),
              (''progress_signals'', pstrs (jd_progress_signals j))] (s, snd r))"

definition judge_phase :: "'w loop_engine \<Rightarrow> 'w run \<Rightarrow> 'w run" where
  "judge_phase E r =
     (if ls_phase (fst r) \<noteq> LP_JUDGING then r
      else case ls_latest_verification (fst r) of
        None \<Rightarrow> eng_fail E ''invalid_checkpoint:judging_without_verification'' r
      | Some v \<Rightarrow> (case eng_judge E (fst r) v (snd r) of
            (Inl e, w) \<Rightarrow> eng_fail E (''judge_error:'' @ show_exc_tight e) (fst r, w)
          | (Inr j, w) \<Rightarrow>
              eng_checkpoint E (apply_judgement E j
                (eng_record E ''judgement_created'' (judgement_dict j)
                   ((fst r)\<lparr>ls_latest_judgement := Some j\<rparr>, w)))))"

text \<open>One turn of the outer \<open>while\<close>. A stopped or failed run is in phase \<open>TERMINAL\<close>, which no
  later phase of the same turn accepts, as after the code's \<open>break\<close>.\<close>

definition loop_pass :: "'w loop_engine \<Rightarrow> 'w run \<Rightarrow> 'w run" where
  "loop_pass E r =
     (case eng_budget E (ls_phase (fst r) = LP_READY) r of
        (Some reason, r1) \<Rightarrow> eng_stop E reason r1
      | (None, r1) \<Rightarrow>
          judge_phase E (verify_phase E (execute_phase E (plan_phase E (start_iteration E r1)))))"

partial_function (option) run_loop :: "'w loop_engine \<Rightarrow> 'w run \<Rightarrow> 'w run option" where
  "run_loop E r = (if ls_status (fst r) = LS_RUNNING then run_loop E (loop_pass E r) else Some r)"

declare run_loop.simps [code]

definition loop_terminal :: "loop_state \<Rightarrow> bool" where
  "loop_terminal s = (ls_status s \<in> {LS_COMPLETED, LS_STOPPED, LS_FAILED})"

definition begin_run :: "'w loop_engine \<Rightarrow> 'w run \<Rightarrow> 'w run" where
  "begin_run E r =
     (let is_new = (ls_started_at (fst r) = None);
          r1 = (if is_new then let (t, w) = eng_utc_now E (snd r)
                               in ((fst r)\<lparr>ls_started_at := Some t\<rparr>, w) else r);
          s = (fst r1)\<lparr>ls_status := LS_RUNNING\<rparr>
      in eng_checkpoint E (eng_record E (if is_new then ''loop_started'' else ''loop_resumed'')
           [(''goal'', PStr (ld_goal (ls_definition s))),
            (''phase'', PStr (loop_phase_str (ls_phase s)))] (s, snd r1)))"

definition resume :: "'w loop_engine \<Rightarrow> 'w run \<Rightarrow> 'w run option" where
  "resume E r = (if loop_terminal (fst r) then Some r else run_loop E (begin_run E r))"

definition run_engine ::
  "'w loop_engine \<Rightarrow> loop_definition \<Rightarrow> string \<Rightarrow> 'w \<Rightarrow> py_exc + 'w run option" where
  "run_engine E d run_id w = (case create_state d run_id of
      Inl e \<Rightarrow> Inl e | Inr s \<Rightarrow> Inr (resume E (s, w)))"

section \<open>What the small operations change\<close>

lemma fst_eng_checkpoint [simp]: "fst (eng_checkpoint E r) = fst r"
  by (simp add: eng_checkpoint_def split: option.split)

lemma eng_record_fst:
  "fst (eng_record E ty p r) = record_event (ty, p, fst (eng_utc_now E (snd r))) (fst r)"
  by (simp add: eng_record_def split: prod.split)

lemma record_event_fields [simp]:
  "ls_run_id (record_event x s) = ls_run_id s"
  "ls_definition (record_event x s) = ls_definition s"
  "ls_status (record_event x s) = ls_status s"
  "ls_phase (record_event x s) = ls_phase s"
  "ls_iteration (record_event x s) = ls_iteration s"
  "ls_action_count (record_event x s) = ls_action_count s"
  "ls_started_at (record_event x s) = ls_started_at s"
  "ls_finished_at (record_event x s) = ls_finished_at s"
  "ls_current_focus (record_event x s) = ls_current_focus s"
  "ls_latest_plan (record_event x s) = ls_latest_plan s"
  "ls_next_action_index (record_event x s) = ls_next_action_index s"
  "ls_iteration_results (record_event x s) = ls_iteration_results s"
  "ls_action_results (record_event x s) = ls_action_results s"
  "ls_latest_verification (record_event x s) = ls_latest_verification s"
  "ls_latest_judgement (record_event x s) = ls_latest_judgement s"
  "ls_observation_signatures (record_event x s) = ls_observation_signatures s"
  "ls_stop_reason (record_event x s) = ls_stop_reason s"
  by (cases x; simp add: record_event_def)+

lemma eng_budget_state [simp]: "fst (snd (eng_budget E c r)) = fst r"
  by (simp add: eng_budget_def split: prod.split)

lemma eng_budget_None:
  "eng_budget E c r = (None, r1) \<Longrightarrow> fst r1 = fst r \<and>
   (\<exists>t. budget_stop_reason (eng_fromisoformat E) (fst r) t c = None)"
  by (auto simp: eng_budget_def split: prod.splits)

definition stopped_as :: "loop_status \<Rightarrow> string \<Rightarrow> string \<Rightarrow> loop_state \<Rightarrow> loop_state" where
  "stopped_as st reason t s = s\<lparr>ls_status := st, ls_phase := LP_TERMINAL,
     ls_stop_reason := Some reason, ls_finished_at := Some t\<rparr>"

lemma eng_stop_fst:
  "\<exists>t x. fst (eng_stop E reason r) = record_event x (stopped_as LS_STOPPED reason t (fst r))"
  by (auto simp: eng_stop_def Let_def eng_record_fst stopped_as_def split: prod.splits)

lemma eng_fail_fst:
  "\<exists>t x. fst (eng_fail E reason r) = record_event x (stopped_as LS_FAILED reason t (fst r))"
  by (auto simp: eng_fail_def Let_def eng_record_fst stopped_as_def split: prod.splits)

section \<open>The engine's invariant\<close>

text \<open>
  Between any two operations: events are numbered, a terminal status goes with the terminal
  phase, action bookkeeping agrees, the budgets hold, a completed run carries the judgement
  that completed it, and each phase has the data it needs (so a checkpoint of a run never
  leads to one of the \<open>invalid_checkpoint\<close> failures).
\<close>

definition max_iterations :: "loop_state \<Rightarrow> int" where
  "max_iterations s = max 1 (lb_max_iterations (ld_budget (ls_definition s)))"

definition max_actions :: "loop_state \<Rightarrow> int" where
  "max_actions s = max 1 (lb_max_actions (ld_budget (ls_definition s)))"

definition counts_ok :: "loop_state \<Rightarrow> bool" where
  "counts_ok s \<longleftrightarrow> ls_action_count s = int (length (ls_action_results s)) \<and>
     ls_action_count s \<le> max_actions s \<and> 0 \<le> ls_iteration s \<and> ls_iteration s \<le> max_iterations s \<and>
     (\<exists>before. ls_action_results s = before @ ls_iteration_results s)"

definition phase_data_ok :: "loop_state \<Rightarrow> bool" where
  "phase_data_ok s \<longleftrightarrow>
     (ls_phase s = LP_EXECUTING \<longrightarrow> (\<exists>p. ls_latest_plan s = Some p \<and>
        ls_next_action_index s = int (length (ls_iteration_results s)) \<and>
        length (ls_iteration_results s) \<le> length (pl_actions p))) \<and>
     (ls_phase s = LP_JUDGING \<longrightarrow> ls_latest_verification s \<noteq> None)"

definition invalid_checkpoint :: "string \<Rightarrow> bool" where
  "invalid_checkpoint reason = (take 19 reason = ''invalid_checkpoint:'')"

definition verdict_ok :: "loop_state \<Rightarrow> bool" where
  "verdict_ok s \<longleftrightarrow> (ls_phase s = LP_TERMINAL \<longleftrightarrow> loop_terminal s) \<and>
     (ls_status s = LS_COMPLETED \<longrightarrow> (\<exists>j. ls_latest_judgement s = Some j \<and>
        jd_decision j = COMPLETE \<and> ls_stop_reason s = Some (jd_reason j) \<and>
        ls_latest_verification s \<noteq> None)) \<and>
     (ls_status s = LS_FAILED \<longrightarrow> (\<exists>reason. ls_stop_reason s = Some reason \<and> \<not> invalid_checkpoint reason))"

definition loop_inv :: "loop_state \<Rightarrow> bool" where
  "loop_inv s \<longleftrightarrow> numbered le_sequence (ls_events s) \<and> counts_ok s \<and> phase_data_ok s \<and> verdict_ok s"

lemmas inv_defs = counts_ok_def phase_data_ok_def verdict_ok_def loop_terminal_def
  max_iterations_def max_actions_def

lemma loop_inv_record [simp]: "loop_inv s \<Longrightarrow> loop_inv (record_event x s)"
  by (auto simp: loop_inv_def inv_defs intro: loop_log.emit_numbered)

lemma loop_inv_stopped:
  assumes "loop_inv s" "st = LS_STOPPED \<or> (st = LS_FAILED \<and> \<not> invalid_checkpoint reason)"
  shows "loop_inv (stopped_as st reason t s)"
  using assms by (auto simp: loop_inv_def inv_defs stopped_as_def)

lemma loop_inv_stop: "loop_inv (fst r) \<Longrightarrow> loop_inv (fst (eng_stop E reason r))"
  by (metis eng_stop_fst loop_inv_record loop_inv_stopped)

lemma loop_inv_fail:
  "loop_inv (fst r) \<Longrightarrow> \<not> invalid_checkpoint reason \<Longrightarrow> loop_inv (fst (eng_fail E reason r))"
  by (metis eng_fail_fst loop_inv_record loop_inv_stopped)

lemma error_reasons_valid [simp]:
  "\<not> invalid_checkpoint (''planner_error:'' @ x)"
  "\<not> invalid_checkpoint (''verifier_error:'' @ x)"
  "\<not> invalid_checkpoint (''judge_error:'' @ x)"
  by (simp_all add: invalid_checkpoint_def)

lemma create_state_inv: "create_state d i = Inr s \<Longrightarrow> loop_inv s \<and> ls_status s = LS_READY \<and> ls_phase s = LP_READY"
  by (auto simp: create_state_def Let_def loop_inv_def inv_defs split: if_splits)

section \<open>Each phase keeps the invariant and moves on\<close>

text \<open>\<open>advances q s s'\<close>: from state \<open>s\<close> the engine reached \<open>s'\<close>, which satisfies the
  invariant; it either stopped there or goes on in phase \<open>q\<close> of the same iteration.\<close>

text \<open>Results and events are only ever appended.\<close>

definition grows :: "loop_state \<Rightarrow> loop_state \<Rightarrow> bool" where
  "grows s s' \<longleftrightarrow> prefix (ls_action_results s) (ls_action_results s') \<and> prefix (ls_events s) (ls_events s')"

lemma grows_refl [simp]: "grows s s"
  by (simp add: grows_def)

lemma grows_trans: "grows s1 s2 \<Longrightarrow> grows s2 s3 \<Longrightarrow> grows s1 s3"
  unfolding grows_def by (meson prefix_order.trans)

lemma grows_record: "grows s s' \<Longrightarrow> grows s (record_event x s')"
  unfolding grows_def using loop_log.emit_prefix [of x s'] by auto

definition advances :: "loop_phase \<Rightarrow> loop_state \<Rightarrow> loop_state \<Rightarrow> bool" where
  "advances q s s' \<longleftrightarrow> loop_inv s' \<and> ls_definition s' = ls_definition s \<and> grows s s' \<and>
     (if ls_status s' = LS_RUNNING then ls_phase s' = q \<and> ls_iteration s' = ls_iteration s
      else loop_terminal s')"

lemma eng_stop_keeps:
  "ls_definition (fst (eng_stop E reason r)) = ls_definition (fst r)"
  "ls_status (fst (eng_stop E reason r)) = LS_STOPPED"
  "ls_stop_reason (fst (eng_stop E reason r)) = Some reason"
  "grows (fst r) (fst (eng_stop E reason r))"
  using eng_stop_fst [of E reason r] by (auto simp: stopped_as_def intro!: grows_record) (auto simp: grows_def)

lemma eng_fail_keeps:
  "ls_definition (fst (eng_fail E reason r)) = ls_definition (fst r)"
  "ls_status (fst (eng_fail E reason r)) = LS_FAILED"
  "grows (fst r) (fst (eng_fail E reason r))"
  using eng_fail_fst [of E reason r] by (auto simp: stopped_as_def intro!: grows_record) (auto simp: grows_def)

lemma advances_stop: "loop_inv (fst r) \<Longrightarrow> advances q (fst r) (fst (eng_stop E reason r))"
  by (simp add: advances_def loop_inv_stop eng_stop_keeps loop_terminal_def)

lemma advances_fail:
  "loop_inv (fst r) \<Longrightarrow> \<not> invalid_checkpoint reason \<Longrightarrow> advances q (fst r) (fst (eng_fail E reason r))"
  by (simp add: advances_def loop_inv_fail eng_fail_keeps loop_terminal_def)

lemma advances_from:
  "advances q s1 s2 \<Longrightarrow> ls_definition s1 = ls_definition s \<Longrightarrow> ls_iteration s1 = ls_iteration s
   \<Longrightarrow> grows s s1 \<Longrightarrow> advances q s s2"
  by (auto simp: advances_def intro: grows_trans)

lemma advances_same_iteration:
  "loop_inv s' \<Longrightarrow> ls_definition s' = ls_definition s \<Longrightarrow> ls_status s' = LS_RUNNING \<Longrightarrow>
   ls_phase s' = q \<Longrightarrow> ls_iteration s' = ls_iteration s \<Longrightarrow> grows s s' \<Longrightarrow> advances q s s'"
  by (simp add: advances_def)

definition in_phase :: "loop_phase \<Rightarrow> loop_state \<Rightarrow> bool" where
  "in_phase p s \<longleftrightarrow> loop_inv s \<and> ls_status s = LS_RUNNING \<and> ls_phase s = p"

lemma start_iteration_running:
  assumes "in_phase LP_READY (fst r)" "ls_iteration (fst r) < max_iterations (fst r)"
  shows "in_phase LP_PLANNING (fst (start_iteration E r)) \<and>
    ls_definition (fst (start_iteration E r)) = ls_definition (fst r) \<and>
    ls_iteration (fst (start_iteration E r)) = ls_iteration (fst r) + 1 \<and>
    grows (fst r) (fst (start_iteration E r))"
  using assms by (auto simp: start_iteration_def Let_def eng_record_fst in_phase_def
      intro!: loop_inv_record grows_record)
    (auto simp: loop_inv_def inv_defs grows_def)

lemma plan_phase_advances:
  assumes "in_phase LP_PLANNING (fst r)"
  shows "advances LP_EXECUTING (fst r) (fst (plan_phase E r))"
proof -
  obtain x w where port: "eng_planner E (fst r) (snd r) = (x, w)" by fastforce
  show ?thesis
  proof (cases x)
    case (Inl e)
    with port assms show ?thesis
      using advances_fail [of "(fst r, w)"]
      by (simp add: plan_phase_def in_phase_def del: append.simps)
  next
    case (Inr p)
    define r1 where "r1 = eng_record E ''plan_created'' (plan_dict p)
       ((fst r)\<lparr>ls_latest_plan := Some p, ls_next_action_index := 0, ls_iteration_results := []\<rparr>, w)"
    have "loop_inv ((fst r)\<lparr>ls_latest_plan := Some p, ls_next_action_index := 0, ls_iteration_results := []\<rparr>)"
      using assms by (auto simp: loop_inv_def inv_defs in_phase_def)
    then have r1: "loop_inv (fst r1)" by (simp add: r1_def eng_record_fst)
    have same: "ls_definition (fst r1) = ls_definition (fst r)" "ls_iteration (fst r1) = ls_iteration (fst r)"
      "ls_status (fst r1) = LS_RUNNING"
      using assms by (simp_all add: r1_def eng_record_fst in_phase_def)
    have g: "grows (fst r) (fst r1)" unfolding r1_def eng_record_fst
      by (rule grows_record) (simp add: grows_def)
    then have g2: "grows (fst r) ((fst r1)\<lparr>ls_phase := LP_EXECUTING\<rparr>)" by (simp add: grows_def)
    have "loop_inv ((fst r1)\<lparr>ls_phase := LP_EXECUTING\<rparr>)"
      using r1 assms by (auto simp: loop_inv_def inv_defs r1_def eng_record_fst in_phase_def)
    with r1 assms port Inr same g g2 show ?thesis
      by (auto simp: plan_phase_def Let_def r1_def [symmetric] in_phase_def
          intro: advances_from [OF advances_stop] advances_same_iteration)
  qed
qed

lemma execute_action_fst:
  "\<exists>x timed. fst (execute_action E a r) = record_event x
     ((fst r)\<lparr>ls_action_count := ls_action_count (fst r) + 1,
        ls_action_results := ls_action_results (fst r) @ [timed],
        ls_iteration_results := ls_iteration_results (fst r) @ [timed],
        ls_next_action_index := ls_next_action_index (fst r) + 1\<rparr>)"
  by (auto simp: execute_action_def Let_def eng_record_fst split: prod.splits)

text \<open>The inner loop's state: an index into the plan, the rest of the plan still to run.\<close>

definition executing :: "plan \<Rightarrow> action list \<Rightarrow> loop_state \<Rightarrow> bool" where
  "executing p rest s \<longleftrightarrow> in_phase LP_EXECUTING s \<and> ls_latest_plan s = Some p \<and>
     length (ls_iteration_results s) + length rest = length (pl_actions p)"

lemma execute_action_executing:
  assumes "executing p (a # as) (fst r)" "ls_action_count (fst r) < max_actions (fst r)"
  shows "executing p as (fst (execute_action E a r)) \<and>
    ls_definition (fst (execute_action E a r)) = ls_definition (fst r) \<and>
    ls_iteration (fst (execute_action E a r)) = ls_iteration (fst r) \<and>
    grows (fst r) (fst (execute_action E a r))"
proof -
  obtain x timed where e: "fst (execute_action E a r) = record_event x
     ((fst r)\<lparr>ls_action_count := ls_action_count (fst r) + 1,
        ls_action_results := ls_action_results (fst r) @ [timed],
        ls_iteration_results := ls_iteration_results (fst r) @ [timed],
        ls_next_action_index := ls_next_action_index (fst r) + 1\<rparr>)"
    using execute_action_fst by blast
  show ?thesis
    using assms unfolding e by (auto simp: executing_def in_phase_def intro!: loop_inv_record grows_record)
      (auto simp: loop_inv_def inv_defs grows_def)
qed

lemma run_actions_executing:
  "executing p as (fst r) \<Longrightarrow>
   (let s' = fst (run_actions E as r) in loop_inv s' \<and> ls_definition s' = ls_definition (fst r) \<and> grows (fst r) s' \<and>
     (if ls_status s' = LS_RUNNING then executing p [] s' \<and> ls_iteration s' = ls_iteration (fst r)
      else loop_terminal s'))"
proof (induction as arbitrary: r)
  case Nil
  then show ?case by (auto simp: executing_def in_phase_def)
next
  case (Cons a as)
  obtain b r1 where b: "eng_budget E False r = (b, r1)" by (metis surj_pair)
  then have r1: "fst r1 = fst r" by (metis eng_budget_state snd_conv)
  show ?case
  proof (cases b)
    case None
    with b have "ls_action_count (fst r1) < max_actions (fst r1)"
      by (auto simp: max_actions_def dest!: eng_budget_None budget_stop_action)
    with Cons.prems r1 have "executing p as (fst (execute_action E a r1)) \<and>
      ls_definition (fst (execute_action E a r1)) = ls_definition (fst r1) \<and>
      ls_iteration (fst (execute_action E a r1)) = ls_iteration (fst r1) \<and>
      grows (fst r1) (fst (execute_action E a r1))"
      by (intro execute_action_executing) auto
    with Cons.IH [of "execute_action E a r1"] b None r1 show ?thesis
      by (auto simp: Let_def intro: grows_trans)
  next
    case (Some reason)
    with b r1 Cons.prems show ?thesis
      using eng_stop_keeps(4) [of r1 E reason]
      by (simp add: Let_def eng_stop_keeps loop_inv_stop executing_def in_phase_def loop_terminal_def)
  qed
qed

lemma execute_phase_advances:
  assumes "in_phase LP_EXECUTING (fst r)"
  shows "advances LP_VERIFYING (fst r) (fst (execute_phase E r))"
proof -
  from assms obtain p where p: "ls_latest_plan (fst r) = Some p"
    and i: "ls_next_action_index (fst r) = int (length (ls_iteration_results (fst r)))"
    and le: "length (ls_iteration_results (fst r)) \<le> length (pl_actions p)"
    by (auto simp: in_phase_def loop_inv_def phase_data_ok_def)
  define as where "as = drop (length (ls_iteration_results (fst r))) (pl_actions p)"
  define r1 where "r1 = run_actions E as r"
  have "executing p as (fst r)" using assms p le by (simp add: executing_def as_def)
  from run_actions_executing [OF this, of E] have r1: "loop_inv (fst r1)"
    "ls_definition (fst r1) = ls_definition (fst r)" "grows (fst r) (fst r1)"
    "if ls_status (fst r1) = LS_RUNNING then executing p [] (fst r1) \<and> ls_iteration (fst r1) = ls_iteration (fst r)
      else loop_terminal (fst r1)"
    by (simp_all add: Let_def r1_def)
  have eq: "execute_phase E r = (if ls_status (fst r1) \<noteq> LS_RUNNING then r1
     else eng_checkpoint E ((fst r1)\<lparr>ls_phase := LP_VERIFYING\<rparr>, snd r1))"
    using assms p i le by (simp add: execute_phase_def Let_def r1_def as_def in_phase_def)
  have "ls_status (fst r1) = LS_RUNNING \<Longrightarrow> loop_inv ((fst r1)\<lparr>ls_phase := LP_VERIFYING\<rparr>)"
    using r1 by (auto simp: loop_inv_def inv_defs)
  moreover have "grows (fst r) ((fst r1)\<lparr>ls_phase := LP_VERIFYING\<rparr>)"
    using r1(3) by (simp add: grows_def)
  ultimately show ?thesis unfolding eq using r1 by (auto simp: advances_def)
qed

lemma verify_phase_advances:
  assumes "in_phase LP_VERIFYING (fst r)"
  shows "advances LP_JUDGING (fst r) (fst (verify_phase E r))"
proof -
  obtain x w where port: "eng_verifier E (fst r) (ls_iteration_results (fst r)) (snd r) = (x, w)"
    by fastforce
  show ?thesis
  proof (cases x)
    case (Inl e)
    with port assms show ?thesis
      using advances_fail [of "(fst r, w)"]
      by (simp add: verify_phase_def in_phase_def del: append.simps)
  next
    case (Inr v)
    define r1 where "r1 = eng_record E ''verification_finished'' (verification_dict v)
                     ((fst r)\<lparr>ls_latest_verification := Some v\<rparr>, w)"
    define sig where "sig = observation_signature (eng_digest E) v"
    define s2 where "s2 = (fst r1)\<lparr>ls_observation_signatures :=
                      ls_observation_signatures (fst r1) @ [sig]\<rparr>"
    have "loop_inv ((fst r)\<lparr>ls_latest_verification := Some v\<rparr>)"
      using assms by (auto simp: loop_inv_def inv_defs in_phase_def)
    then have "loop_inv (fst r1)" by (simp add: r1_def eng_record_fst)
    then have s2: "loop_inv s2" by (auto simp: loop_inv_def inv_defs s2_def)
    have same: "ls_definition s2 = ls_definition (fst r)" "ls_iteration s2 = ls_iteration (fst r)"
      "ls_status s2 = LS_RUNNING" "ls_latest_verification s2 = Some v" "ls_phase s2 = LP_VERIFYING"
      using assms by (simp_all add: s2_def r1_def eng_record_fst in_phase_def)
    have eq: "verify_phase E r = (case stagnation_stop_reason (fst r1) sig of
        Some reason \<Rightarrow> eng_stop E reason (s2, snd r1)
      | None \<Rightarrow> eng_checkpoint E (s2\<lparr>ls_phase := LP_JUDGING\<rparr>, snd r1))"
      unfolding verify_phase_def Let_def r1_def sig_def s2_def
      using assms port Inr by (simp add: in_phase_def)
    have "grows (fst r) (fst r1)" unfolding r1_def eng_record_fst
      by (rule grows_record) (simp add: grows_def)
    then have g: "grows (fst r) s2" "grows (fst r) (s2\<lparr>ls_phase := LP_JUDGING\<rparr>)"
      by (simp_all add: grows_def s2_def)
    have "loop_inv (s2\<lparr>ls_phase := LP_JUDGING\<rparr>)"
      using s2 same by (auto simp: loop_inv_def inv_defs)
    moreover have "advances LP_JUDGING (fst r) (fst (eng_stop E reason (s2, snd r1)))" for reason
      using advances_from [OF advances_stop [of "(s2, snd r1)"]] s2 same g by simp
    ultimately show ?thesis
      unfolding eq using same g by (auto split: option.split intro: advances_same_iteration)
  qed
qed

lemma apply_judgement_advances:
  assumes "in_phase LP_JUDGING (fst r)" "ls_latest_judgement (fst r) = Some j"
    "ls_latest_verification (fst r) \<noteq> None"
  shows "advances LP_READY (fst r) (fst (apply_judgement E j r))"
proof (cases "jd_decision j")
  case COMPLETE
  have "loop_inv ((fst r)\<lparr>ls_status := LS_COMPLETED, ls_phase := LP_TERMINAL,
             ls_stop_reason := Some (jd_reason j), ls_finished_at := Some t\<rparr>)" for t
    using assms COMPLETE by (auto simp: loop_inv_def inv_defs in_phase_def)
  moreover have "grows (fst r) (record_event x ((fst r)\<lparr>ls_status := LS_COMPLETED, ls_phase := LP_TERMINAL,
             ls_stop_reason := Some (jd_reason j), ls_finished_at := Some t\<rparr>))" for x t
    by (rule grows_record) (simp add: grows_def)
  ultimately show ?thesis using COMPLETE
    by (auto simp: apply_judgement_def eng_record_fst advances_def loop_terminal_def split: prod.split)
next
  case STOP
  with assms show ?thesis by (simp add: apply_judgement_def advances_stop in_phase_def)
qed (use assms in \<open>auto simp: apply_judgement_def eng_record_fst advances_def in_phase_def Let_def
    loop_inv_def inv_defs intro: loop_log.emit_numbered intro!: grows_record, auto simp: grows_def\<close>)

lemma judge_phase_advances:
  assumes "in_phase LP_JUDGING (fst r)"
  shows "advances LP_READY (fst r) (fst (judge_phase E r))"
proof -
  from assms obtain v where v: "ls_latest_verification (fst r) = Some v"
    by (auto simp: in_phase_def loop_inv_def phase_data_ok_def)
  obtain x w where port: "eng_judge E (fst r) v (snd r) = (x, w)" by fastforce
  show ?thesis
  proof (cases x)
    case (Inl e)
    with port assms v show ?thesis
      using advances_fail [of "(fst r, w)"]
      by (simp add: judge_phase_def in_phase_def del: append.simps)
  next
    case (Inr j)
    define r1 where "r1 = eng_record E ''judgement_created'' (judgement_dict j)
                   ((fst r)\<lparr>ls_latest_judgement := Some j\<rparr>, w)"
    have "loop_inv ((fst r)\<lparr>ls_latest_judgement := Some j\<rparr>)"
      using assms by (auto simp: loop_inv_def inv_defs in_phase_def)
    then have "in_phase LP_JUDGING (fst r1)"
      using assms by (simp add: r1_def eng_record_fst in_phase_def)
    then have "advances LP_READY (fst r1) (fst (apply_judgement E j r1))"
      by (rule apply_judgement_advances) (simp_all add: r1_def eng_record_fst v)
    then have "advances LP_READY (fst r) (fst (apply_judgement E j r1))"
    proof (rule advances_from)
      show "grows (fst r) (fst r1)" unfolding r1_def eng_record_fst
        by (rule grows_record) (simp add: grows_def)
    qed (simp_all add: r1_def eng_record_fst)
    with assms port Inr v show ?thesis
      by (simp add: judge_phase_def in_phase_def r1_def [symmetric])
  qed
qed

section \<open>A turn of the loop\<close>

lemma phase_skip:
  "ls_phase (fst r) \<noteq> LP_READY \<Longrightarrow> start_iteration E r = r"
  "ls_phase (fst r) \<noteq> LP_PLANNING \<Longrightarrow> plan_phase E r = r"
  "ls_phase (fst r) \<noteq> LP_EXECUTING \<Longrightarrow> execute_phase E r = r"
  "ls_phase (fst r) \<noteq> LP_VERIFYING \<Longrightarrow> verify_phase E r = r"
  "ls_phase (fst r) \<noteq> LP_JUDGING \<Longrightarrow> judge_phase E r = r"
  by (simp_all add: start_iteration_def plan_phase_def execute_phase_def verify_phase_def judge_phase_def)

lemma advances_terminal_phase:
  "advances q s s' \<Longrightarrow> ls_status s' \<noteq> LS_RUNNING \<Longrightarrow> ls_phase s' = LP_TERMINAL"
  by (auto simp: advances_def loop_inv_def verdict_ok_def)

lemma advances_in_phase: "advances q s s' \<Longrightarrow> ls_status s' = LS_RUNNING \<Longrightarrow> in_phase q s'"
  by (auto simp: advances_def in_phase_def)

lemma terminal_skips:
  assumes "ls_phase (fst r) = LP_TERMINAL"
  shows "plan_phase E r = r" "execute_phase E r = r" "verify_phase E r = r" "judge_phase E r = r"
  using assms by (simp_all add: phase_skip)

lemma advances_step:
  assumes "advances q (fst r0) (fst r)"
    and "\<And>r. in_phase q (fst r) \<Longrightarrow> advances q' (fst r) (fst (f r))"
    and "ls_phase (fst r) = LP_TERMINAL \<Longrightarrow> f r = r"
  shows "advances q' (fst r0) (fst (f r))"
proof (cases "ls_status (fst r) = LS_RUNNING")
  case True
  with assms(1) have "advances q' (fst r) (fst (f r))"
    by (intro assms(2) advances_in_phase)
  with assms(1) True show ?thesis by (auto simp: advances_def intro: grows_trans)
next
  case False
  with assms(1,3) have "f r = r" using advances_terminal_phase by blast
  with assms(1) False show ?thesis by (auto simp: advances_def)
qed

lemma judge_step: "advances LP_JUDGING (fst r0) (fst r) \<Longrightarrow> advances LP_READY (fst r0) (fst (judge_phase E r))"
  by (rule advances_step [where q = LP_JUDGING]) (auto intro: judge_phase_advances simp: terminal_skips)

lemma verify_step: "advances LP_VERIFYING (fst r0) (fst r) \<Longrightarrow> advances LP_JUDGING (fst r0) (fst (verify_phase E r))"
  by (rule advances_step [where q = LP_VERIFYING]) (auto intro: verify_phase_advances simp: terminal_skips)

lemma execute_step: "advances LP_EXECUTING (fst r0) (fst r) \<Longrightarrow> advances LP_VERIFYING (fst r0) (fst (execute_phase E r))"
  by (rule advances_step [where q = LP_EXECUTING]) (auto intro: execute_phase_advances simp: terminal_skips)

text \<open>The rest of a turn, from any phase: the phases before the current one are skipped.\<close>

definition rest_of_pass :: "'w loop_engine \<Rightarrow> 'w run \<Rightarrow> 'w run" where
  "rest_of_pass E r = judge_phase E (verify_phase E (execute_phase E (plan_phase E r)))"

lemma rest_of_pass_advances:
  assumes "in_phase q (fst r)" "q \<noteq> LP_READY"
  shows "advances LP_READY (fst r) (fst (rest_of_pass E r))"
proof -
  have inv: "loop_inv (fst r)" "ls_status (fst r) = LS_RUNNING" "ls_phase (fst r) = q"
    using assms(1) by (simp_all add: in_phase_def)
  have here: "advances q (fst r) (fst r)" using inv by (simp add: advances_def)
  show ?thesis
  proof (cases q)
    case LP_PLANNING
    then show ?thesis unfolding rest_of_pass_def using assms(1)
      by (auto intro: judge_step verify_step execute_step plan_phase_advances)
  next
    case LP_EXECUTING
    with here inv show ?thesis unfolding rest_of_pass_def
      by (auto intro: judge_step verify_step execute_step simp: phase_skip)
  next
    case LP_VERIFYING
    with here inv show ?thesis unfolding rest_of_pass_def
      by (auto intro: judge_step verify_step simp: phase_skip)
  next
    case LP_JUDGING
    with here inv show ?thesis unfolding rest_of_pass_def
      by (auto intro: judge_step simp: phase_skip)
  next
    case LP_TERMINAL
    with inv show ?thesis by (auto simp: loop_inv_def inv_defs)
  qed (use assms in simp)
qed

definition turn_ok :: "loop_state \<Rightarrow> loop_state \<Rightarrow> bool" where
  "turn_ok s s' \<longleftrightarrow> loop_inv s' \<and> ls_definition s' = ls_definition s \<and> grows s s' \<and>
     (if ls_status s' = LS_RUNNING then ls_phase s' = LP_READY \<and>
        (if ls_phase s = LP_READY
         then ls_iteration s < max_iterations s \<and> ls_iteration s' = ls_iteration s + 1
         else ls_iteration s' = ls_iteration s)
      else loop_terminal s')"

lemma loop_pass_turn:
  assumes "loop_inv (fst r)" "ls_status (fst r) = LS_RUNNING"
  shows "turn_ok (fst r) (fst (loop_pass E r))"
proof -
  obtain b r1 where b: "eng_budget E (ls_phase (fst r) = LP_READY) r = (b, r1)" by (metis surj_pair)
  then have r1: "fst r1 = fst r" by (metis eng_budget_state snd_conv)
  show ?thesis
  proof (cases b)
    case (Some reason)
    with b have "loop_pass E r = eng_stop E reason r1" by (simp add: loop_pass_def)
    with assms r1 show ?thesis
      using eng_stop_keeps(4) [of r1 E reason]
      by (simp add: turn_ok_def loop_inv_stop eng_stop_keeps loop_terminal_def)
  next
    case None
    with b have eq: "loop_pass E r = rest_of_pass E (start_iteration E r1)"
      by (simp add: loop_pass_def rest_of_pass_def)
    show ?thesis
    proof (cases "ls_phase (fst r) = LP_READY")
      case True
      with b None have lt: "ls_iteration (fst r1) < max_iterations (fst r1)"
        by (auto simp: max_iterations_def dest!: eng_budget_None budget_stop_iteration)
      have "in_phase LP_READY (fst r1)" using assms True r1 by (simp add: in_phase_def)
      from start_iteration_running [OF this lt, of E] rest_of_pass_advances [of LP_PLANNING]
      have "advances LP_READY (fst (start_iteration E r1)) (fst (loop_pass E r))"
        unfolding eq by blast
      with start_iteration_running [OF \<open>in_phase LP_READY (fst r1)\<close> lt, of E] True r1 lt
      show ?thesis by (auto simp: advances_def turn_ok_def intro: grows_trans)
    next
      case False
      have "advances LP_READY (fst r1) (fst (rest_of_pass E r1))"
        using assms False r1 by (intro rest_of_pass_advances) (simp_all add: in_phase_def)
      with False r1 show ?thesis unfolding eq
        by (auto simp: advances_def turn_ok_def phase_skip)
    qed
  qed
qed

section \<open>The whole run\<close>

definition loop_measure :: "loop_state \<Rightarrow> nat" where
  "loop_measure s = 2 * nat (max_iterations s - ls_iteration s) + (if ls_phase s = LP_READY then 0 else 1)"

lemma turn_decreases:
  assumes "turn_ok s s'" "ls_status s' = LS_RUNNING"
  shows "loop_measure s' < loop_measure s"
  using assms by (auto simp: turn_ok_def loop_measure_def max_iterations_def split: if_splits)

lemma run_loop_result:
  assumes "loop_inv (fst r)" "ls_status (fst r) = LS_RUNNING \<or> loop_terminal (fst r)"
  shows "\<exists>r'. run_loop E r = Some r' \<and> loop_inv (fst r') \<and> loop_terminal (fst r') \<and>
    ls_definition (fst r') = ls_definition (fst r) \<and> grows (fst r) (fst r')"
  using assms
proof (induction "loop_measure (fst r)" arbitrary: r rule: less_induct)
  case less
  show ?case
  proof (cases "ls_status (fst r) = LS_RUNNING")
    case False
    with less.prems show ?thesis by (auto simp: run_loop.simps [of E r])
  next
    case True
    let ?r' = "loop_pass E r"
    have t: "turn_ok (fst r) (fst ?r')" using less.prems(1) True by (rule loop_pass_turn)
    then have inv: "loop_inv (fst ?r')" "ls_definition (fst ?r') = ls_definition (fst r)"
      and g: "grows (fst r) (fst ?r')"
      and st: "ls_status (fst ?r') = LS_RUNNING \<or> loop_terminal (fst ?r')"
      by (auto simp: turn_ok_def split: if_splits)
    show ?thesis
    proof (cases "ls_status (fst ?r') = LS_RUNNING")
      case True': True
      from less.hyps [OF turn_decreases [OF t True'] inv(1) st] obtain r'' where
        "run_loop E ?r' = Some r''" "loop_inv (fst r'')" "loop_terminal (fst r'')"
        "ls_definition (fst r'') = ls_definition (fst ?r')" "grows (fst ?r') (fst r'')" by blast
      moreover have "run_loop E r = run_loop E ?r'" using True by (simp add: run_loop.simps [of E r])
      ultimately show ?thesis using inv(2) g by (auto intro: grows_trans)
    next
      case False
      have "run_loop E r = run_loop E ?r'" using True by (simp add: run_loop.simps [of E r])
      also have "\<dots> = Some ?r'" using False by (simp add: run_loop.simps [of E ?r'])
      finally show ?thesis using False inv st g by blast
    qed
  qed
qed

end
