(* ===== verification/Loop_Adapters.thy ===== *)
theory Loop_Adapters
  imports Loop_Engine
begin

text \<open>
  Executors, verifiers and judges that the repository supplies for the engine's ports: the
  bounded tool registry (\<open>adapters/tools.py\<close>), the criteria judge (\<open>adapters/scripted.py\<close>),
  the coding-check and repair profiles' verifiers and judges (\<open>profiles/coding.py\<close>,
  \<open>profiles/repair.py\<close>) and the counter demo (\<open>demo.py\<close>).
\<close>

section \<open>Named tools\<close>

type_synonym 'w tool = "pydict \<Rightarrow> loop_state \<Rightarrow> 'w \<Rightarrow> (py_exc + pyval) \<times> 'w"

type_synonym 'w tool_registry = "(string \<times> 'w tool) list"

definition register_tool :: "string \<Rightarrow> 'w tool \<Rightarrow> 'w tool_registry \<Rightarrow> py_exc + 'w tool_registry" where
  "register_tool name t tools =
     (let normalized = strip name in
      if normalized = [] then Inl (ValueError ''tool name is required'')
      else if dget tools normalized \<noteq> None
        then Inl (ValueError (''tool already registered: '' @ normalized))
      else Inr (dset normalized t tools))"

definition error_result :: "action \<Rightarrow> string \<Rightarrow> rat \<Rightarrow> action_result" where
  "error_result a msg duration = \<lparr>ar_action = a, ar_status = ''error'', ar_output = [],
     ar_error = Some msg, ar_duration_seconds = duration\<rparr>"

definition execute_tool ::
  "('w \<Rightarrow> rat \<times> 'w) \<Rightarrow> 'w tool_registry \<Rightarrow> action \<Rightarrow> loop_state \<Rightarrow> 'w \<Rightarrow> (py_exc + action_result) \<times> 'w"
where
  "execute_tool perf tools a s w = (case dget tools (ac_tool a) of
      None \<Rightarrow> (Inr (error_result a (''unknown tool: '' @ ac_tool a) 0), w)
    | Some t \<Rightarrow>
        let (started, w1) = perf w;
            (outcome, w2) = t (ac_arguments a) s w1;
            (ended, w3) = perf w2
        in (Inr (case outcome of
              Inl e \<Rightarrow> error_result a (show_exc e) (ended - started)
            | Inr (PDict output) \<Rightarrow> \<lparr>ar_action = a, ar_status = ''ok'', ar_output = output,
                  ar_error = None, ar_duration_seconds = ended - started\<rparr>
            | Inr _ \<Rightarrow> error_result a ''tool output must be a JSON object'' (ended - started)), w3))"

lemma register_tool_ok:
  assumes "register_tool name t tools = Inr tools'" "wf_dict tools"
  shows "wf_dict tools' \<and> dget tools (strip name) = None \<and> strip name \<noteq> [] \<and>
    (\<forall>k. dget tools' k = (if k = strip name then Some t else dget tools k))"
  using assms by (auto simp: register_tool_def Let_def split: if_splits)

text \<open>The registry executor never raises, and an action only succeeds through its own tool.\<close>

lemma execute_tool_total:
  "\<exists>r w'. execute_tool perf tools a s w = (Inr r, w') \<and> ar_action r = a \<and>
    (ar_status r = ''ok'' \<or> (ar_status r = ''error'' \<and> ar_error r \<noteq> None \<and> ar_output r = [])) \<and>
    (dget tools (ac_tool a) = None \<longrightarrow> ar_status r = ''error'')"
  by (auto simp: execute_tool_def error_result_def Let_def
      split: option.split prod.split sum.split pyval.split)

section \<open>Judges\<close>

definition criteria_judge :: "loop_state \<Rightarrow> verification_result \<Rightarrow> judgement" where
  "criteria_judge s v =
     (if vr_status v = ''passed'' \<and> vr_failed v = [] then
        \<lparr>jd_decision = COMPLETE, jd_reason = ''success criteria satisfied'',
         jd_progress_signals = vr_passed v, jd_next_focus = None\<rparr>
      else if vr_status v = ''blocked'' then
        \<lparr>jd_decision = STOP, jd_reason = ''verification reported an external block'',
         jd_progress_signals = [], jd_next_focus = None\<rparr>
      else
        \<lparr>jd_decision = REPLAN, jd_reason = ''success criteria not yet satisfied'',
         jd_progress_signals = vr_passed v,
         jd_next_focus = Some (case vr_failed v of f # fs \<Rightarrow> f | [] \<Rightarrow> ls_current_focus s)\<rparr>)"

definition first_failed :: "verification_result \<Rightarrow> string option" where
  "first_failed v = (case vr_failed v of f # fs \<Rightarrow> Some f | [] \<Rightarrow> None)"

definition coding_check_judge :: "loop_state \<Rightarrow> verification_result \<Rightarrow> judgement" where
  "coding_check_judge s v =
     (if vr_status v = ''passed'' then
        \<lparr>jd_decision = COMPLETE, jd_reason = ''verification command passed'',
         jd_progress_signals = vr_passed v, jd_next_focus = None\<rparr>
      else
        \<lparr>jd_decision = STOP, jd_reason = ''verification command did not pass'',
         jd_progress_signals = vr_passed v, jd_next_focus = first_failed v\<rparr>)"

definition patch_count :: "loop_state \<Rightarrow> int" where
  "patch_count s = (case dget (ld_metadata (ls_definition s)) ''patches'' of
      Some (PList ps) \<Rightarrow> int (length ps) | _ \<Rightarrow> 0)"

definition scripted_repair_judge :: "loop_state \<Rightarrow> verification_result \<Rightarrow> judgement" where
  "scripted_repair_judge s v =
     (if vr_status v = ''passed'' then
        \<lparr>jd_decision = COMPLETE, jd_reason = ''repair passed verification'',
         jd_progress_signals = vr_passed v, jd_next_focus = None\<rparr>
      else if vr_status v = ''failed'' \<and> ls_iteration s < patch_count s then
        \<lparr>jd_decision = REPLAN, jd_reason = ''verification failed; try next bounded patch'',
         jd_progress_signals = [],
         jd_next_focus = Some (case vr_failed v of f # fs \<Rightarrow> f | [] \<Rightarrow> ''next patch'')\<rparr>
      else
        \<lparr>jd_decision = STOP, jd_reason = ''repair attempts exhausted or blocked'',
         jd_progress_signals = [], jd_next_focus = first_failed v\<rparr>)"

section \<open>Verifiers\<close>

definition process_verdict :: "string \<Rightarrow> string \<Rightarrow> pydict \<Rightarrow> verification_result" where
  "process_verdict ok_text bad_text process =
     (if truthy (dget_or PNone process ''timed_out'') then
        \<lparr>vr_status = ''blocked'', vr_passed = [], vr_failed = [''verification command timed out''],
         vr_evidence = process\<rparr>
      else let exit_code = dget_or PNone process ''exit_code'' in
        \<lparr>vr_status = (if eq_num exit_code 0 then ''passed'' else ''failed''),
         vr_passed = (if eq_num exit_code 0 then [ok_text] else []),
         vr_failed = (if eq_num exit_code 0 then [] else [bad_text @
            (case exit_code of PInt i \<Rightarrow> str_of_int i | _ \<Rightarrow> ''None'')]),
         vr_evidence = process\<rparr>)"

definition coding_verify :: "action_result list \<Rightarrow> verification_result" where
  "coding_verify results =
     (case results of
        [] \<Rightarrow> \<lparr>vr_status = ''blocked'', vr_passed = [],
               vr_failed = [''verification action produced no result''], vr_evidence = []\<rparr>
      | r # rs \<Rightarrow>
          if ar_status r \<noteq> ''ok'' then
            \<lparr>vr_status = ''blocked'', vr_passed = [], vr_failed = [str_or (ar_error r) ''tool error''],
             vr_evidence = []\<rparr>
          else process_verdict ''verification command exited with code 0''
                 ''verification command exited with code '' (ar_output r))"

definition result_error :: "action_result \<Rightarrow> string" where
  "result_error r = ac_tool (ar_action r) @ '': '' @ (case ar_error r of None \<Rightarrow> ''None'' | Some e \<Rightarrow> e)"

definition verify_repair_results :: "action_result list \<Rightarrow> verification_result" where
  "verify_repair_results results =
     (let errors = map result_error (filter (\<lambda>r. ar_status r \<noteq> ''ok'') results);
          processes = map ar_output (filter (\<lambda>r. ac_tool (ar_action r) = ''run_verification'') results)
      in if errors \<noteq> [] then
           \<lparr>vr_status = ''blocked'', vr_passed = [], vr_failed = errors, vr_evidence = []\<rparr>
         else if processes = [] then
           \<lparr>vr_status = ''incomplete'', vr_passed = [],
            vr_failed = [''verification has not been run yet''],
            vr_evidence = [(''completed_tools'', pstrs (map (\<lambda>r. ac_tool (ar_action r)) results))]\<rparr>
         else process_verdict ''repair verification exited with code 0''
                ''repair verification exited with code '' (last processes))"

lemma process_verdict_passed:
  "vr_status (process_verdict a b p) = ''passed'' \<longleftrightarrow>
     \<not> truthy (dget_or PNone p ''timed_out'') \<and> eq_num (dget_or PNone p ''exit_code'') 0"
  by (simp add: process_verdict_def Let_def)

text \<open>A repair only passes when no action failed and its last verification run exited with 0.\<close>

lemma repair_passed_iff:
  "vr_status (verify_repair_results rs) = ''passed'' \<longleftrightarrow>
     (\<forall>r\<in>set rs. ar_status r = ''ok'') \<and>
     (\<exists>xs r ys. rs = xs @ r # ys \<and> ac_tool (ar_action r) = ''run_verification'' \<and>
        (\<forall>y\<in>set ys. ac_tool (ar_action y) \<noteq> ''run_verification'') \<and>
        \<not> truthy (dget_or PNone (ar_output r) ''timed_out'') \<and>
        eq_num (dget_or PNone (ar_output r) ''exit_code'') 0)"
proof -
  let ?Q = "\<lambda>r. ac_tool (ar_action r) = ''run_verification''"
  let ?good = "\<lambda>p. \<not> truthy (dget_or PNone p ''timed_out'') \<and> eq_num (dget_or PNone p ''exit_code'') 0"
  have last_split: "(filter ?Q rs \<noteq> [] \<and> ?good (ar_output (last (filter ?Q rs)))) \<longleftrightarrow>
      (\<exists>xs r ys. rs = xs @ r # ys \<and> ?Q r \<and> (\<forall>y\<in>set ys. \<not> ?Q y) \<and> ?good (ar_output r))"
  proof
    assume l: "filter ?Q rs \<noteq> [] \<and> ?good (ar_output (last (filter ?Q rs)))"
    then have "\<exists>x\<in>set rs. ?Q x" by (simp add: filter_empty_conv)
    from split_list_last_prop [OF this] obtain xs r ys where "rs = xs @ r # ys" "?Q r" "\<forall>y\<in>set ys. \<not> ?Q y"
      by blast
    with l show "\<exists>xs r ys. rs = xs @ r # ys \<and> ?Q r \<and> (\<forall>y\<in>set ys. \<not> ?Q y) \<and> ?good (ar_output r)"
      by auto
  qed (auto simp: filter_empty_conv)
  show ?thesis
    unfolding last_split [symmetric]
    by (auto simp: verify_repair_results_def Let_def process_verdict_passed filter_empty_conv last_map)
qed

section \<open>The counter demo\<close>

definition result_value :: "action_result \<Rightarrow> int" where
  "result_value r = (case dget (ar_output r) ''value'' of Some (PInt i) \<Rightarrow> i | _ \<Rightarrow> 0)"

definition increment :: "'w tool" where
  "increment args s w =
     (let current = (case ls_action_results s of [] \<Rightarrow> 0 | rs \<Rightarrow> result_value (last rs));
          amount = (case dget args ''amount'' of Some (PInt i) \<Rightarrow> i | _ \<Rightarrow> 1)
      in (Inr (PDict [(''value'', PInt (current + amount))]), w))"

definition counter_plan :: plan where
  "counter_plan = \<lparr>pl_actions = [\<lparr>ac_tool = ''increment'', ac_arguments = [(''amount'', PInt 1)],
      ac_reason = ''move toward target''\<rparr>],
     pl_rationale = ''increment once and verify'', pl_expected_evidence = [''counter value'']\<rparr>"

definition counter_verify :: "loop_state \<Rightarrow> action_result list \<Rightarrow> verification_result" where
  "counter_verify s results =
     (let v = (if results = [] then 0 else result_value (last results));
          target = (case dget (ld_metadata (ls_definition s)) ''target'' of Some (PInt i) \<Rightarrow> i | _ \<Rightarrow> 3)
      in \<lparr>vr_status = (if v \<ge> target then ''passed'' else ''failed''),
          vr_passed = (if v \<ge> target then [''value='' @ str_of_int v] else []),
          vr_failed = (if v \<ge> target then []
             else [''value '' @ str_of_int v @ '' is below target '' @ str_of_int target]),
          vr_evidence = [(''value'', PInt v), (''target'', PInt target)]\<rparr>)"

definition counter_engine ::
  "('w \<Rightarrow> string \<times> 'w) \<Rightarrow> ('w \<Rightarrow> rat \<times> 'w) \<Rightarrow> ('w \<Rightarrow> rat \<times> 'w) \<Rightarrow> (string \<Rightarrow> rat) \<Rightarrow> (pyval \<Rightarrow> string)
   \<Rightarrow> (loop_state \<Rightarrow> 'w \<Rightarrow> 'w) option \<Rightarrow> 'w loop_engine" where
  "counter_engine utc now perf fromiso digest store =
     \<lparr>eng_planner = (\<lambda>s w. (Inr counter_plan, w)),
      eng_executor = execute_tool perf [(''increment'', increment)],
      eng_verifier = (\<lambda>s rs w. (Inr (counter_verify s rs), w)),
      eng_judge = (\<lambda>s v w. (Inr (criteria_judge s v), w)),
      eng_checkpoint_store = store, eng_utc_now = utc, eng_now = now, eng_perf_counter = perf,
      eng_fromisoformat = fromiso, eng_digest = digest\<rparr>"

definition counter_definition :: "int \<Rightarrow> loop_definition" where
  "counter_definition target = \<lparr>ld_goal = ''Reach the requested counter value'',
     ld_success_criteria = [''counter value is at least target''],
     ld_constraints = [''one increment per iteration''],
     ld_budget = \<lparr>lb_max_iterations = 6, lb_max_actions = 6, lb_timeout_seconds = 30,
        lb_max_repeated_observations = 2\<rparr>,
     ld_metadata = [(''target'', PInt target)]\<rparr>"

text \<open>The demo with clocks that stand still and a store that keeps every checkpoint.\<close>

definition still_counter_engine :: "loop_state list loop_engine" where
  "still_counter_engine = counter_engine (\<lambda>w. (''t0'', w)) (\<lambda>w. (0, w)) (\<lambda>w. (0, w)) (\<lambda>s. 0)
     (\<lambda>v. case v of PDict d \<Rightarrow> (case dget d ''failed'' of Some (PList (PStr x # xs)) \<Rightarrow> x | _ \<Rightarrow> []) | _ \<Rightarrow> [])
     (Some (\<lambda>s w. w @ [s]))"

end
