(* ===== verification/Loop_Provenance.thy ===== *)
theory Loop_Provenance
  imports Loop_Engine
begin

text \<open>
  Where the data of a run comes from, and what holds of the outside world meanwhile. Every plan,
  verification and result in the state of a run was returned by the port that is responsible for
  it, on the data of this run; a completed run was completed by its judge on its last
  verification. Profiles and executors use this to carry what their ports guarantee over to whole
  runs.
\<close>

section \<open>Sources\<close>

definition planned :: "'w loop_engine \<Rightarrow> action \<Rightarrow> bool" where
  "planned E a \<longleftrightarrow> (\<exists>s w p. fst (eng_planner E s w) = Inr p \<and> a \<in> set (pl_actions p))"

definition executed :: "'w loop_engine \<Rightarrow> action_result \<Rightarrow> bool" where
  "executed E r \<longleftrightarrow> (\<exists>a. planned E a \<and> ((\<exists>s w x d. fst (eng_executor E a s w) = Inr x \<and> r = x\<lparr>ar_duration_seconds := d\<rparr>) \<or>
     (ar_action r = a \<and> ar_status r = ''error'')))"

definition verified :: "'w loop_engine \<Rightarrow> loop_state \<Rightarrow> verification_result \<Rightarrow> bool" where
  "verified E s v \<longleftrightarrow> (\<exists>s0 w. ls_definition s0 = ls_definition s \<and>
     prefix (ls_action_results s0) (ls_action_results s) \<and>
     suffix (ls_iteration_results s0) (ls_action_results s0) \<and>
     fst (eng_verifier E s0 (ls_iteration_results s0) w) = Inr v)"

definition just_verified :: "'w loop_engine \<Rightarrow> loop_state \<Rightarrow> verification_result \<Rightarrow> bool" where
  "just_verified E s v \<longleftrightarrow> (\<exists>s0 w. ls_definition s0 = ls_definition s \<and> ls_action_results s0 = ls_action_results s \<and>
     ls_iteration_results s0 = ls_iteration_results s \<and>
     suffix (ls_iteration_results s0) (ls_action_results s0) \<and>
     fst (eng_verifier E s0 (ls_iteration_results s0) w) = Inr v)"

text \<open>The results of an iteration answer the actions of its plan, in their order; before the verification all of them.\<close>

definition answered :: "'w loop_engine \<Rightarrow> action \<Rightarrow> action_result \<Rightarrow> bool" where
  "answered E a r \<longleftrightarrow> (\<exists>s w x d. fst (eng_executor E a s w) = Inr x \<and> r = x\<lparr>ar_duration_seconds := d\<rparr>) \<or>
     (ar_action r = a \<and> ar_status r = ''error'')"

definition carried_out :: "'w loop_engine \<Rightarrow> loop_state \<Rightarrow> bool" where
  "carried_out E s \<longleftrightarrow>
     (ls_phase s = LP_EXECUTING \<longrightarrow> (\<forall>p. ls_latest_plan s = Some p \<longrightarrow>
        list_all2 (answered E) (take (length (ls_iteration_results s)) (pl_actions p)) (ls_iteration_results s))) \<and>
     (ls_phase s = LP_VERIFYING \<or> ls_phase s = LP_JUDGING \<or> ls_status s = LS_COMPLETED \<longrightarrow>
        (\<exists>p. ls_latest_plan s = Some p \<and> list_all2 (answered E) (pl_actions p) (ls_iteration_results s)))"

definition sourced :: "'w loop_engine \<Rightarrow> loop_state \<Rightarrow> bool" where
  "sourced E s \<longleftrightarrow>
     (\<forall>p. ls_latest_plan s = Some p \<longrightarrow> (\<exists>s0 w. fst (eng_planner E s0 w) = Inr p)) \<and>
     (\<forall>r\<in>set (ls_action_results s). executed E r) \<and>
     suffix (ls_iteration_results s) (ls_action_results s) \<and> carried_out E s \<and>
     (\<forall>v. ls_latest_verification s = Some v \<longrightarrow> verified E s v \<and> (ls_phase s = LP_JUDGING \<longrightarrow> just_verified E s v)) \<and>
     (ls_status s = LS_COMPLETED \<longrightarrow> (\<exists>v j s0 w. ls_latest_verification s = Some v \<and> ls_latest_judgement s = Some j \<and>
        jd_decision j = COMPLETE \<and> just_verified E s v \<and> ls_definition s0 = ls_definition s \<and> fst (eng_judge E s0 v w) = Inr j))"

lemma sourced_plan: "sourced E s \<Longrightarrow> ls_latest_plan s = Some p \<Longrightarrow> a \<in> set (pl_actions p) \<Longrightarrow> planned E a"
  unfolding sourced_def planned_def by blast

lemma verified_later:
  "verified E s v \<Longrightarrow> ls_definition s' = ls_definition s \<Longrightarrow> prefix (ls_action_results s) (ls_action_results s') \<Longrightarrow>
   verified E s' v"
  unfolding verified_def by (metis prefix_order.trans)

lemma just_verified_verified: "just_verified E s v \<Longrightarrow> verified E s v"
  unfolding just_verified_def verified_def by (metis prefix_order.refl)

lemma sourced_record [simp]: "sourced E (record_event x s) = sourced E s"
  by (simp add: sourced_def verified_def just_verified_def carried_out_def)

lemma sourced_stopped: "sourced E s \<Longrightarrow> st \<noteq> LS_COMPLETED \<Longrightarrow> sourced E (stopped_as st reason t s)"
  by (simp add: sourced_def verified_def just_verified_def carried_out_def stopped_as_def)

lemma sourced_stop [simp]: "sourced E (fst r) \<Longrightarrow> sourced E (fst (eng_stop E reason r))"
  using eng_stop_fst [of E reason r] by (auto intro: sourced_stopped)

lemma sourced_fail [simp]: "sourced E (fst r) \<Longrightarrow> sourced E (fst (eng_fail E reason r))"
  using eng_fail_fst [of E reason r] by (auto intro: sourced_stopped)

lemma created_sourced: "create_state d i = Inr s \<Longrightarrow> sourced E s"
  by (auto simp: create_state_def Let_def sourced_def carried_out_def split: if_splits)

lemma sourced_start: "in_phase LP_READY (fst r) \<Longrightarrow> sourced E (fst r) \<Longrightarrow> sourced E (fst (start_iteration E r))"
  by (simp add: start_iteration_def Let_def eng_record_fst in_phase_def)
    (simp add: sourced_def verified_def just_verified_def carried_out_def)

lemma sourced_running:
  "sourced E s \<Longrightarrow> q \<noteq> LP_JUDGING \<Longrightarrow> carried_out E (s\<lparr>ls_phase := q\<rparr>) \<Longrightarrow> sourced E (s\<lparr>ls_phase := q\<rparr>)"
  "sourced E s \<Longrightarrow> sourced E (s\<lparr>ls_observation_signatures := xs\<rparr>)"
  by (simp_all add: sourced_def verified_def just_verified_def carried_out_def)

lemma sourced_plan_phase:
  assumes "in_phase LP_PLANNING (fst r)" "sourced E (fst r)"
  shows "sourced E (fst (plan_phase E r))"
proof -
  obtain x w where port: "eng_planner E (fst r) (snd r) = (x, w)" by fastforce
  then have "fst (eng_planner E (fst r) (snd r)) = x" by simp
  then have "sourced E ((fst r)\<lparr>ls_latest_plan := Some p, ls_next_action_index := 0, ls_iteration_results := []\<rparr>)"
    if "x = Inr p" for p
    using assms that unfolding sourced_def verified_def just_verified_def by (auto simp: in_phase_def carried_out_def)
  with port assms show ?thesis
    by (cases x) (auto simp: plan_phase_def Let_def in_phase_def eng_record_fst carried_out_def intro!: sourced_running)
qed

lemma sourced_execute_action:
  assumes "sourced E (fst r)" "planned E a" "ls_status (fst r) = LS_RUNNING" "ls_phase (fst r) = LP_EXECUTING"
    and plan: "ls_latest_plan (fst r) = Some p" "drop (length (ls_iteration_results (fst r))) (pl_actions p) = a # as"
  shows "sourced E (fst (execute_action E a r)) \<and> ls_status (fst (execute_action E a r)) = LS_RUNNING \<and>
    ls_phase (fst (execute_action E a r)) = LP_EXECUTING \<and> ls_latest_plan (fst (execute_action E a r)) = Some p \<and>
    drop (length (ls_iteration_results (fst (execute_action E a r)))) (pl_actions p) = as"
proof -
  obtain t0 w0 where 1: "eng_perf_counter E (snd r) = (t0, w0)" by fastforce
  obtain x w1 where 2: "eng_executor E a (fst r) w0 = (x, w1)" by fastforce
  obtain t1 w2 where 3: "eng_perf_counter E w1 = (t1, w2)" by fastforce
  define timed where "timed = (case x of Inr y \<Rightarrow> y | Inl e \<Rightarrow> \<lparr>ar_action = a, ar_status = ''error'', ar_output = [],
     ar_error = Some (show_exc e), ar_duration_seconds = 0\<rparr>)"
  define res where "res = timed\<lparr>ar_duration_seconds := max (ar_duration_seconds timed) (t1 - t0)\<rparr>"
  have ans: "answered E a res"
  proof (cases x)
    case (Inr y)
    then have "fst (eng_executor E a (fst r) w0) = Inr y" "\<exists>d. res = y\<lparr>ar_duration_seconds := d\<rparr>"
      using 2 by (auto simp: res_def timed_def)
    then show ?thesis unfolding answered_def by blast
  qed (auto simp: answered_def res_def timed_def)
  then have ex: "executed E res" using assms(2) unfolding answered_def executed_def by blast
  define s where "s = (fst r)\<lparr>ls_action_count := ls_action_count (fst r) + 1,
              ls_action_results := ls_action_results (fst r) @ [res],
              ls_iteration_results := ls_iteration_results (fst r) @ [res],
              ls_next_action_index := ls_next_action_index (fst r) + 1\<rparr>"
  have "verified E s v" if "verified E (fst r) v" for v
    using that by (rule verified_later) (simp_all add: s_def)
  moreover have "carried_out E s"
  proof -
    let ?n = "length (ls_iteration_results (fst r))"
    have "list_all2 (answered E) (take ?n (pl_actions p)) (ls_iteration_results (fst r))"
      using assms(1,4) plan(1) by (simp add: sourced_def carried_out_def)
    moreover have "take (Suc ?n) (pl_actions p) = take ?n (pl_actions p) @ [a]" using take_add [of ?n 1 "pl_actions p"] plan(2) by simp
    ultimately show ?thesis using assms(3,4) plan(1) ans by (auto simp: carried_out_def s_def list_all2_appendI)
  qed
  ultimately have "sourced E s" using assms(1,3,4) ex by (auto simp: sourced_def s_def)
  moreover obtain ty payload where "execute_action E a r = eng_checkpoint E (eng_record E ty payload (s, w2))"
    using 1 2 3 by (simp add: execute_action_def Let_def s_def res_def timed_def)
  moreover have "drop (Suc (length (ls_iteration_results (fst r)))) (pl_actions p) = as"
    using plan(2) by (metis drop_Suc list.sel(3) tl_drop)
  ultimately show ?thesis using assms(3,4) plan(1) by (simp add: eng_record_fst s_def)
qed

lemma sourced_run_actions:
  "sourced E (fst r) \<Longrightarrow> \<forall>a\<in>set as. planned E a \<Longrightarrow> ls_status (fst r) = LS_RUNNING \<Longrightarrow>
   ls_phase (fst r) = LP_EXECUTING \<Longrightarrow> ls_latest_plan (fst r) = Some p \<Longrightarrow>
   drop (length (ls_iteration_results (fst r))) (pl_actions p) = as \<Longrightarrow>
   sourced E (fst (run_actions E as r)) \<and> (ls_status (fst (run_actions E as r)) = LS_RUNNING \<longrightarrow>
     ls_phase (fst (run_actions E as r)) = LP_EXECUTING \<and> ls_latest_plan (fst (run_actions E as r)) = Some p \<and>
     length (pl_actions p) \<le> length (ls_iteration_results (fst (run_actions E as r))))"
proof (induction as arbitrary: r)
  case (Cons a as)
  obtain b r1 where b: "eng_budget E False r = (b, r1)" by (metis surj_pair)
  have s1: "fst r1 = fst r" using b eng_budget_state [of E False r] by simp
  note step = sourced_execute_action [of E r1 a p as, unfolded s1, OF Cons.prems(1) _ Cons.prems(3-6)]
  show ?case
  proof (cases b)
    case None
    with Cons.IH [of "execute_action E a r1"] step Cons.prems(2) b show ?thesis by simp
  qed (use b s1 Cons.prems(1) in \<open>simp add: eng_stop_keeps\<close>)
qed simp

lemma sourced_execute:
  assumes "in_phase LP_EXECUTING (fst r)" "sourced E (fst r)"
  shows "sourced E (fst (execute_phase E r))"
proof -
  obtain p where p: "ls_latest_plan (fst r) = Some p"
    using assms(1) by (auto simp: in_phase_def loop_inv_def phase_data_ok_def)
  let ?r1 = "run_actions E (drop (length (ls_iteration_results (fst r))) (pl_actions p)) r"
  have run: "sourced E (fst ?r1)" "ls_status (fst ?r1) = LS_RUNNING \<Longrightarrow>
     ls_phase (fst ?r1) = LP_EXECUTING \<and> ls_latest_plan (fst ?r1) = Some p \<and>
     length (pl_actions p) \<le> length (ls_iteration_results (fst ?r1))"
    using assms sourced_plan [OF assms(2) p] p sourced_run_actions [of E r "drop (length (ls_iteration_results (fst r))) (pl_actions p)" p]
    by (auto simp: in_phase_def dest: in_set_dropD)
  then have "ls_status (fst ?r1) = LS_RUNNING \<Longrightarrow> carried_out E ((fst ?r1)\<lparr>ls_phase := LP_VERIFYING\<rparr>)"
    by (auto simp: sourced_def carried_out_def)
  with run have "ls_status (fst ?r1) = LS_RUNNING \<Longrightarrow> sourced E ((fst ?r1)\<lparr>ls_phase := LP_VERIFYING\<rparr>)"
    by (intro sourced_running) simp_all
  moreover have "ls_next_action_index (fst r) = int (length (ls_iteration_results (fst r)))"
    using assms(1) p by (auto simp: in_phase_def loop_inv_def phase_data_ok_def)
  ultimately show ?thesis using assms p run(1) by (auto simp: execute_phase_def Let_def in_phase_def)
qed

lemma sourced_verify:
  assumes "in_phase LP_VERIFYING (fst r)" "sourced E (fst r)"
  shows "sourced E (fst (verify_phase E r))"
proof -
  obtain x w where port: "eng_verifier E (fst r) (ls_iteration_results (fst r)) (snd r) = (x, w)" by fastforce
  then have fst: "fst (eng_verifier E (fst r) (ls_iteration_results (fst r)) (snd r)) = x" by simp
  show ?thesis
  proof (cases x)
    case (Inl e)
    with port assms show ?thesis by (simp add: verify_phase_def in_phase_def)
  next
    case (Inr v)
    define s where "s = (fst r)\<lparr>ls_latest_verification := Some v\<rparr>"
    have jv: "just_verified E (fst r) v"
      using fst Inr assms(2) unfolding just_verified_def sourced_def by blast
    then have s: "sourced E s" "just_verified E s v"
      using assms just_verified_verified [OF jv] unfolding sourced_def verified_def just_verified_def s_def
      by (auto simp: in_phase_def carried_out_def)
    moreover have "ls_phase s = LP_VERIFYING" using assms(1) by (simp add: s_def in_phase_def)
    ultimately have "sourced E (s\<lparr>ls_observation_signatures := xs\<rparr>)" "sourced E (s\<lparr>ls_observation_signatures := xs, ls_phase := LP_JUDGING\<rparr>)" for xs
      by (auto simp: s_def sourced_def verified_def just_verified_def carried_out_def)
    then have "sourced E ((record_event y s)\<lparr>ls_observation_signatures := xs\<rparr>)"
      "sourced E ((record_event y s)\<lparr>ls_observation_signatures := xs, ls_phase := LP_JUDGING\<rparr>)" for y xs
      by (simp_all add: sourced_def verified_def just_verified_def carried_out_def)
    with port assms Inr show ?thesis
      by (auto simp: verify_phase_def Let_def in_phase_def eng_record_fst s_def split: option.split)
  qed
qed

lemma sourced_judge:
  assumes "in_phase LP_JUDGING (fst r)" "sourced E (fst r)"
  shows "sourced E (fst (judge_phase E r))"
proof -
  obtain v where v: "ls_latest_verification (fst r) = Some v"
    using assms(1) by (auto simp: in_phase_def loop_inv_def phase_data_ok_def)
  obtain x w where port: "eng_judge E (fst r) v (snd r) = (x, w)" by fastforce
  show ?thesis
  proof (cases x)
    case (Inl e)
    with port assms v show ?thesis by (simp add: judge_phase_def in_phase_def)
  next
    case (Inr j)
    define r1 where "r1 = eng_record E ''judgement_created'' (judgement_dict j)
                   ((fst r)\<lparr>ls_latest_judgement := Some j\<rparr>, w)"
    have j: "fst (eng_judge E (fst r) v (snd r)) = Inr j" using port Inr by simp
    have r1: "sourced E (fst r1)" "ls_latest_judgement (fst r1) = Some j" "ls_latest_verification (fst r1) = Some v"
      "ls_definition (fst r1) = ls_definition (fst r)" "ls_phase (fst r1) = LP_JUDGING"
      using assms v by (simp_all add: r1_def eng_record_fst in_phase_def)
        (simp add: sourced_def verified_def just_verified_def carried_out_def)
    have fin: "sourced E ((fst r1)\<lparr>ls_status := LS_COMPLETED, ls_phase := LP_TERMINAL, ls_stop_reason := x,
        ls_finished_at := y\<rparr>)" if "jd_decision j = COMPLETE" for x y
      using r1 that j unfolding sourced_def verified_def just_verified_def carried_out_def by auto
    have running: "ls_status (fst r1) = LS_RUNNING" using assms(1) by (simp add: r1_def eng_record_fst in_phase_def)
    have on: "sourced E ((fst r1)\<lparr>ls_current_focus := x, ls_phase := LP_READY\<rparr>)" for x
      using r1(1) running by (simp add: sourced_def verified_def just_verified_def carried_out_def)
    have "judge_phase E r = eng_checkpoint E (apply_judgement E j r1)"
      using assms(1) port v Inr by (simp add: judge_phase_def in_phase_def r1_def)
    moreover have "sourced E (fst (apply_judgement E j r1))"
      using r1 fin on by (auto simp: apply_judgement_def Let_def eng_record_fst split: prod.split)
    ultimately show ?thesis by simp
  qed
qed

section \<open>What holds of the outside world\<close>

text \<open>
  A predicate on the external state that every port keeps holds throughout a run, where the
  executor has to keep it only for actions that the planner has proposed, and the store only for
  states that satisfy the invariant: so whatever is saved satisfies the invariant, and what the
  planner never proposes is never done.
\<close>

definition ports_keep :: "'w loop_engine \<Rightarrow> ('w \<Rightarrow> bool) \<Rightarrow> bool" where
  "ports_keep E P \<longleftrightarrow>
     (\<forall>s w. P w \<longrightarrow> P (snd (eng_planner E s w))) \<and>
     (\<forall>a s w. planned E a \<longrightarrow> P w \<longrightarrow> P (snd (eng_executor E a s w))) \<and>
     (\<forall>s rs w. P w \<longrightarrow> P (snd (eng_verifier E s rs w))) \<and>
     (\<forall>s v w. P w \<longrightarrow> P (snd (eng_judge E s v w))) \<and>
     (\<forall>w. P w \<longrightarrow> P (snd (eng_utc_now E w))) \<and>
     (\<forall>w. P w \<longrightarrow> P (snd (eng_now E w))) \<and>
     (\<forall>w. P w \<longrightarrow> P (snd (eng_perf_counter E w))) \<and>
     (\<forall>save s w. eng_checkpoint_store E = Some save \<longrightarrow> loop_inv s \<longrightarrow> P w \<longrightarrow> P (save s w))"

lemma keep_checkpoint:
  "ports_keep E P \<Longrightarrow> loop_inv (fst r) \<Longrightarrow> P (snd r) \<Longrightarrow> P (snd (eng_checkpoint E r))"
  by (auto simp: ports_keep_def eng_checkpoint_def split: option.split)

lemma keep_record: "ports_keep E P \<Longrightarrow> P (snd r) \<Longrightarrow> P (snd (eng_record E ty p r))"
  by (auto simp: ports_keep_def eng_record_def split: prod.split)

lemma keep_budget: "ports_keep E P \<Longrightarrow> P (snd r) \<Longrightarrow> P (snd (snd (eng_budget E c r)))"
  by (auto simp: ports_keep_def eng_budget_def split: prod.split)

lemma keep_utc: "ports_keep E P \<Longrightarrow> eng_utc_now E w = (t, w') \<Longrightarrow> P w \<Longrightarrow> P w'"
  by (auto simp: ports_keep_def)

lemma keep_planner: "ports_keep E P \<Longrightarrow> eng_planner E s w = (x, w') \<Longrightarrow> P w \<Longrightarrow> P w'"
  by (auto simp: ports_keep_def) (metis snd_conv)

lemma keep_verifier: "ports_keep E P \<Longrightarrow> eng_verifier E s rs w = (x, w') \<Longrightarrow> P w \<Longrightarrow> P w'"
  by (auto simp: ports_keep_def) (metis snd_conv)

lemma keep_judge: "ports_keep E P \<Longrightarrow> eng_judge E s v w = (x, w') \<Longrightarrow> P w \<Longrightarrow> P w'"
  by (auto simp: ports_keep_def) (metis snd_conv)

lemma keep_executor: "ports_keep E P \<Longrightarrow> planned E a \<Longrightarrow> eng_executor E a s w = (x, w') \<Longrightarrow> P w \<Longrightarrow> P w'"
  by (auto simp: ports_keep_def) (metis snd_conv)

lemma keep_perf: "ports_keep E P \<Longrightarrow> eng_perf_counter E w = (x, w') \<Longrightarrow> P w \<Longrightarrow> P w'"
  by (auto simp: ports_keep_def)

lemmas keep_ports = keep_utc keep_planner keep_verifier keep_judge keep_executor keep_perf

lemma keep_stop:
  assumes "ports_keep E P" "loop_inv (fst r)" "P (snd r)"
  shows "P (snd (eng_stop E reason r))"
proof -
  obtain t w where t: "eng_utc_now E (snd r) = (t, w)" by fastforce
  define r1 where "r1 = eng_record E ''loop_stopped'' [(''reason'', PStr reason)] (stopped_as LS_STOPPED reason t (fst r), w)"
  have "P w" using keep_utc [OF assms(1) t assms(3)] .
  then have P1: "P (snd r1)" unfolding r1_def by (intro keep_record [OF assms(1)]) simp
  have inv1: "loop_inv (fst r1)"
    unfolding r1_def eng_record_fst using assms by (simp add: loop_inv_stopped)
  have "eng_stop E reason r = eng_checkpoint E r1"
    using t by (simp add: eng_stop_def stopped_as_def r1_def)
  then show ?thesis using keep_checkpoint [where P = P, OF assms(1) inv1 P1] by simp
qed

lemma keep_fail:
  assumes "ports_keep E P" "loop_inv (fst r)" "P (snd r)" "\<not> invalid_checkpoint reason"
  shows "P (snd (eng_fail E reason r))"
proof -
  obtain t w where t: "eng_utc_now E (snd r) = (t, w)" by fastforce
  define r1 where "r1 = eng_record E ''loop_failed'' [(''reason'', PStr reason)] (stopped_as LS_FAILED reason t (fst r), w)"
  have "P w" using keep_utc [OF assms(1) t assms(3)] .
  then have P1: "P (snd r1)" unfolding r1_def by (intro keep_record [OF assms(1)]) simp
  have inv1: "loop_inv (fst r1)"
    unfolding r1_def eng_record_fst using assms by (simp add: loop_inv_stopped)
  have "eng_fail E reason r = eng_checkpoint E r1"
    using t by (simp add: eng_fail_def stopped_as_def r1_def)
  then show ?thesis using keep_checkpoint [where P = P, OF assms(1) inv1 P1] by simp
qed

text \<open>In each phase the state handed to the store is the state the phase returns.\<close>

lemma keep_result:
  assumes "ports_keep E P" "r' = eng_checkpoint E r1" "loop_inv (fst r')" "P (snd r1)"
  shows "P (snd r')"
  using assms keep_checkpoint [of E P r1] by simp

lemma keep_start:
  assumes "ports_keep E P" "in_phase LP_READY (fst r)" "ls_iteration (fst r) < max_iterations (fst r)" "P (snd r)"
  shows "P (snd (start_iteration E r))"
proof -
  let ?s = "(fst r)\<lparr>ls_iteration := ls_iteration (fst r) + 1, ls_phase := LP_PLANNING,
                  ls_latest_plan := None, ls_next_action_index := 0, ls_iteration_results := []\<rparr>"
  have "start_iteration E r = eng_checkpoint E (eng_record E ''iteration_started''
                [(''focus'', PStr (ls_current_focus ?s))] (?s, snd r))"
    using assms(2) by (simp add: start_iteration_def in_phase_def Let_def)
  then show ?thesis
    by (rule keep_result [OF assms(1)])
      (use assms start_iteration_running [OF assms(2,3), of E] in \<open>auto simp: in_phase_def intro: keep_record\<close>)
qed

lemma keep_plan:
  assumes "ports_keep E P" "in_phase LP_PLANNING (fst r)" "P (snd r)"
  shows "P (snd (plan_phase E r))"
proof -
  obtain x w where port: "eng_planner E (fst r) (snd r) = (x, w)" by fastforce
  with assms have w: "P w" by (auto intro: keep_planner)
  have inv': "loop_inv (fst (plan_phase E r))" using plan_phase_advances [OF assms(2)] by (simp add: advances_def)
  show ?thesis
  proof (cases x)
    case (Inl e)
    with port assms w show ?thesis
      using keep_fail [of E P "(fst r, w)"] by (simp add: plan_phase_def in_phase_def del: append.simps)
  next
    case (Inr p)
    define r1 where "r1 = eng_record E ''plan_created'' (plan_dict p)
       ((fst r)\<lparr>ls_latest_plan := Some p, ls_next_action_index := 0, ls_iteration_results := []\<rparr>, w)"
    have P1: "P (snd r1)" unfolding r1_def using assms(1) w by (auto intro: keep_record)
    have "loop_inv (fst r1)" using assms(2)
      by (auto simp: r1_def eng_record_fst in_phase_def intro!: loop_inv_record) (auto simp: loop_inv_def inv_defs)
    moreover have "plan_phase E r = (if pl_actions p = [] then eng_stop E ''planner_returned_no_actions'' r1
             else eng_checkpoint E ((fst r1)\<lparr>ls_phase := LP_EXECUTING\<rparr>, snd r1))"
      using assms(2) port Inr by (simp add: plan_phase_def Let_def r1_def in_phase_def)
    ultimately show ?thesis
      using inv' assms(1) P1 keep_stop [of E P r1]
        keep_checkpoint [of E P "((fst r1)\<lparr>ls_phase := LP_EXECUTING\<rparr>, snd r1)"] by (auto split: if_splits)
  qed
qed

lemma keep_execute_action:
  assumes "ports_keep E P" "loop_inv (fst (execute_action E a r))" "P (snd r)" "planned E a"
  shows "P (snd (execute_action E a r))"
proof -
  obtain t0 w0 where 1: "eng_perf_counter E (snd r) = (t0, w0)" by fastforce
  obtain x w1 where 2: "eng_executor E a (fst r) w0 = (x, w1)" by fastforce
  obtain t1 w2 where 3: "eng_perf_counter E w1 = (t1, w2)" by fastforce
  have w2: "P w2" using assms(1,3,4) 1 2 3 keep_perf keep_executor by metis
  obtain ty p s where eq: "execute_action E a r = eng_checkpoint E (eng_record E ty p (s, w2))"
    using 1 2 3 by (simp add: execute_action_def Let_def)
  show ?thesis
    by (rule keep_result [OF assms(1) eq assms(2)]) (use assms(1) w2 in \<open>auto intro: keep_record\<close>)
qed

lemma keep_run_actions:
  "ports_keep E P \<Longrightarrow> executing p as (fst r) \<Longrightarrow> P (snd r) \<Longrightarrow> \<forall>a\<in>set as. planned E a \<Longrightarrow>
   P (snd (run_actions E as r))"
proof (induction as arbitrary: r)
  case (Cons a as)
  obtain b r1 where b: "eng_budget E False r = (b, r1)" by (metis surj_pair)
  have s1: "fst r1 = fst r" using b eng_budget_state [of E False r] by simp
  have P1: "P (snd r1)" using keep_budget [of E P r False] Cons.prems b by simp
  show ?case
  proof (cases b)
    case None
    with b have lt: "ls_action_count (fst r1) < max_actions (fst r1)"
      by (auto simp: max_actions_def dest!: eng_budget_None budget_stop_action)
    have e: "executing p as (fst (execute_action E a r1))"
      using execute_action_executing [of p a as r1 E] Cons.prems(2) s1 lt by simp
    then have "loop_inv (fst (execute_action E a r1))" by (simp add: executing_def in_phase_def)
    from Cons.IH [OF Cons.prems(1) e keep_execute_action [of E P, OF Cons.prems(1) this P1]] Cons.prems(4) b None
    show ?thesis by simp
  next
    case (Some reason)
    have "loop_inv (fst r1)" using Cons.prems(2) s1 by (simp add: executing_def in_phase_def)
    from keep_stop [of E P, OF Cons.prems(1) this P1, of reason] b Some show ?thesis by simp
  qed
qed simp

lemma keep_execute:
  assumes "ports_keep E P" "in_phase LP_EXECUTING (fst r)" "P (snd r)" "sourced E (fst r)"
  shows "P (snd (execute_phase E r))"
proof -
  from assms(2) obtain p where p: "ls_latest_plan (fst r) = Some p"
    and i: "ls_next_action_index (fst r) = int (length (ls_iteration_results (fst r)))"
    and le: "length (ls_iteration_results (fst r)) \<le> length (pl_actions p)"
    by (auto simp: in_phase_def loop_inv_def phase_data_ok_def)
  define as where "as = drop (length (ls_iteration_results (fst r))) (pl_actions p)"
  define r1 where "r1 = run_actions E as r"
  have "\<forall>a\<in>set as. planned E a" using sourced_plan [OF assms(4) p] by (auto simp: as_def dest: in_set_dropD)
  moreover have "executing p as (fst r)" using assms p le by (simp add: executing_def as_def)
  ultimately have r1: "P (snd r1)" unfolding r1_def using assms by (auto intro: keep_run_actions)
  have eq: "execute_phase E r = (if ls_status (fst r1) \<noteq> LS_RUNNING then r1
     else eng_checkpoint E ((fst r1)\<lparr>ls_phase := LP_VERIFYING\<rparr>, snd r1))"
    using assms p i le by (simp add: execute_phase_def Let_def r1_def as_def in_phase_def)
  have "loop_inv (fst (execute_phase E r))"
    using execute_phase_advances [OF assms(2)] by (simp add: advances_def)
  with eq r1 assms(1) show ?thesis
    using keep_checkpoint [of E P "((fst r1)\<lparr>ls_phase := LP_VERIFYING\<rparr>, snd r1)"] by (auto split: if_splits)
qed

lemma keep_verify:
  assumes "ports_keep E P" "in_phase LP_VERIFYING (fst r)" "P (snd r)"
  shows "P (snd (verify_phase E r))"
proof -
  obtain x w where port: "eng_verifier E (fst r) (ls_iteration_results (fst r)) (snd r) = (x, w)"
    by fastforce
  then have w: "P w" using keep_verifier [OF assms(1)] assms(3) by blast
  have inv': "loop_inv (fst (verify_phase E r))"
    using verify_phase_advances [OF assms(2)] by (simp add: advances_def)
  show ?thesis
  proof (cases x)
    case (Inl e)
    with port assms w show ?thesis
      using keep_fail [of E P "(fst r, w)"] by (simp add: verify_phase_def in_phase_def del: append.simps)
  next
    case (Inr v)
    define r1 where "r1 = eng_record E ''verification_finished'' (verification_dict v)
                     ((fst r)\<lparr>ls_latest_verification := Some v\<rparr>, w)"
    define s2 where "s2 = (fst r1)\<lparr>ls_observation_signatures :=
                      ls_observation_signatures (fst r1) @ [observation_signature (eng_digest E) v]\<rparr>"
    have P1: "P (snd r1)" unfolding r1_def by (rule keep_record [OF assms(1)]) (simp add: w)
    have "loop_inv ((fst r)\<lparr>ls_latest_verification := Some v\<rparr>)"
      using assms(2) by (auto simp: loop_inv_def inv_defs in_phase_def)
    then have "loop_inv (fst r1)" by (simp add: r1_def eng_record_fst)
    then have inv2: "loop_inv s2" by (auto simp: loop_inv_def inv_defs s2_def)
    have "verify_phase E r = (case stagnation_stop_reason (fst r1) (observation_signature (eng_digest E) v) of
        Some reason \<Rightarrow> eng_stop E reason (s2, snd r1)
      | None \<Rightarrow> eng_checkpoint E (s2\<lparr>ls_phase := LP_JUDGING\<rparr>, snd r1))"
      unfolding verify_phase_def Let_def r1_def s2_def
      using assms port Inr by (simp add: in_phase_def)
    then show ?thesis
      using inv' P1 inv2 assms(1) keep_stop [of E P "(s2, snd r1)"]
        keep_checkpoint [of E P "(s2\<lparr>ls_phase := LP_JUDGING\<rparr>, snd r1)"]
      by (auto split: option.splits)
  qed
qed

lemma keep_judge_phase:
  assumes "ports_keep E P" "in_phase LP_JUDGING (fst r)" "P (snd r)"
  shows "P (snd (judge_phase E r))"
proof -
  from assms(2) obtain v where v: "ls_latest_verification (fst r) = Some v"
    by (auto simp: in_phase_def loop_inv_def phase_data_ok_def)
  obtain x w where port: "eng_judge E (fst r) v (snd r) = (x, w)" by fastforce
  then have w: "P w" using keep_judge [OF assms(1)] assms(3) by blast
  have inv': "loop_inv (fst (judge_phase E r))"
    using judge_phase_advances [OF assms(2)] by (simp add: advances_def)
  show ?thesis
  proof (cases x)
    case (Inl e)
    with port assms v w show ?thesis
      using keep_fail [of E P "(fst r, w)"] by (simp add: judge_phase_def in_phase_def del: append.simps)
  next
    case (Inr j)
    define r1 where "r1 = eng_record E ''judgement_created'' (judgement_dict j)
                   ((fst r)\<lparr>ls_latest_judgement := Some j\<rparr>, w)"
    have P1: "P (snd r1)" unfolding r1_def by (rule keep_record [OF assms(1)]) (simp add: w)
    have "loop_inv ((fst r)\<lparr>ls_latest_judgement := Some j\<rparr>)"
      using assms(2) by (auto simp: loop_inv_def inv_defs in_phase_def)
    then have inv1: "loop_inv (fst r1)" by (simp add: r1_def eng_record_fst)
    obtain t w' where t: "eng_utc_now E (snd r1) = (t, w')" by fastforce
    have Pw': "P w'" by (rule keep_utc [OF assms(1) t P1])
    have "P (snd (apply_judgement E j r1))"
    proof (cases "jd_decision j = STOP")
      case True
      then show ?thesis using keep_stop [of E P r1, OF assms(1) inv1 P1] by (simp add: apply_judgement_def)
    next
      case False
      with t Pw' P1 show ?thesis
        by (auto simp: apply_judgement_def Let_def intro!: keep_record [OF assms(1)])
    qed
    moreover have "judge_phase E r = eng_checkpoint E (apply_judgement E j r1)"
      using assms(2) port v Inr by (simp add: judge_phase_def in_phase_def r1_def)
    ultimately show ?thesis using keep_result [of E P _ "apply_judgement E j r1"] assms(1) inv' by blast
  qed
qed

text \<open>A run together with the predicate: what a phase hands to the next one.\<close>

definition carries :: "'w loop_engine \<Rightarrow> ('w \<Rightarrow> bool) \<Rightarrow> loop_phase \<Rightarrow> 'w run \<Rightarrow> bool" where
  "carries E P q r \<longleftrightarrow> P (snd r) \<and> sourced E (fst r) \<and> (in_phase q (fst r) \<or> ls_phase (fst r) = LP_TERMINAL)"

lemma carries_advance:
  assumes "carries E P q r" "\<And>r. in_phase q (fst r) \<Longrightarrow> advances q' (fst r) (fst (f r))"
    "\<And>r. in_phase q (fst r) \<Longrightarrow> P (snd r) \<Longrightarrow> sourced E (fst r) \<Longrightarrow> P (snd (f r))"
    "\<And>r. in_phase q (fst r) \<Longrightarrow> sourced E (fst r) \<Longrightarrow> sourced E (fst (f r))"
    "ls_phase (fst r) = LP_TERMINAL \<Longrightarrow> f r = r"
  shows "carries E P q' (f r)"
proof (cases "in_phase q (fst r)")
  case True
  with assms(1-4) have "advances q' (fst r) (fst (f r))" "P (snd (f r))" "sourced E (fst (f r))"
    by (auto simp: carries_def)
  then show ?thesis
    using advances_in_phase advances_terminal_phase unfolding carries_def by blast
qed (use assms in \<open>auto simp: carries_def\<close>)

lemma carries_judge: "ports_keep E P \<Longrightarrow> carries E P LP_JUDGING r \<Longrightarrow> carries E P LP_READY (judge_phase E r)"
  by (rule carries_advance) (auto intro: judge_phase_advances keep_judge_phase sourced_judge simp: terminal_skips)

lemma carries_verify: "ports_keep E P \<Longrightarrow> carries E P LP_VERIFYING r \<Longrightarrow> carries E P LP_JUDGING (verify_phase E r)"
  by (rule carries_advance) (auto intro: verify_phase_advances keep_verify sourced_verify simp: terminal_skips)

lemma carries_execute: "ports_keep E P \<Longrightarrow> carries E P LP_EXECUTING r \<Longrightarrow> carries E P LP_VERIFYING (execute_phase E r)"
  by (rule carries_advance) (auto intro: execute_phase_advances keep_execute sourced_execute simp: terminal_skips)

lemma carries_plan: "ports_keep E P \<Longrightarrow> carries E P LP_PLANNING r \<Longrightarrow> carries E P LP_EXECUTING (plan_phase E r)"
  by (rule carries_advance) (auto intro: plan_phase_advances keep_plan sourced_plan_phase simp: terminal_skips)

lemma keep_rest:
  assumes "ports_keep E P" "in_phase q (fst r)" "q \<noteq> LP_READY" "P (snd r)" "sourced E (fst r)"
  shows "P (snd (rest_of_pass E r)) \<and> sourced E (fst (rest_of_pass E r))"
proof -
  have c: "carries E P q r" using assms by (simp add: carries_def)
  have ph: "ls_phase (fst r) = q" "loop_inv (fst r)" "ls_status (fst r) = LS_RUNNING"
    using assms(2) by (simp_all add: in_phase_def)
  have "carries E P LP_READY (rest_of_pass E r)"
  proof (cases q)
    case LP_PLANNING
    with c show ?thesis unfolding rest_of_pass_def
      by (intro carries_judge carries_verify carries_execute carries_plan assms(1)) simp
  next
    case LP_EXECUTING
    with c have "carries E P LP_READY (judge_phase E (verify_phase E (execute_phase E r)))"
      by (intro carries_judge carries_verify carries_execute assms(1)) simp
    with LP_EXECUTING ph show ?thesis by (simp add: rest_of_pass_def phase_skip)
  next
    case LP_VERIFYING
    with c have "carries E P LP_READY (judge_phase E (verify_phase E r))"
      by (intro carries_judge carries_verify assms(1)) simp
    with LP_VERIFYING ph show ?thesis by (simp add: rest_of_pass_def phase_skip)
  next
    case LP_JUDGING
    with c have "carries E P LP_READY (judge_phase E r)"
      by (intro carries_judge assms(1)) simp
    with LP_JUDGING ph show ?thesis by (simp add: rest_of_pass_def phase_skip)
  next
    case LP_TERMINAL
    with ph show ?thesis by (auto simp: loop_inv_def inv_defs)
  qed (use assms in simp)
  then show ?thesis by (simp add: carries_def)
qed

lemma keep_pass:
  assumes "ports_keep E P" "loop_inv (fst r)" "ls_status (fst r) = LS_RUNNING" "P (snd r)" "sourced E (fst r)"
  shows "P (snd (loop_pass E r)) \<and> sourced E (fst (loop_pass E r))"
proof -
  obtain b r1 where b: "eng_budget E (ls_phase (fst r) = LP_READY) r = (b, r1)" by (metis surj_pair)
  then have s1: "fst r1 = fst r" by (metis eng_budget_state snd_conv)
  have P1: "P (snd r1)" using keep_budget [OF assms(1,4)] b by (metis snd_conv)
  show ?thesis
  proof (cases b)
    case (Some reason)
    with b s1 P1 assms keep_stop [of E P r1] show ?thesis by (simp add: loop_pass_def)
  next
    case None
    with b have eq: "loop_pass E r = rest_of_pass E (start_iteration E r1)"
      by (simp add: loop_pass_def rest_of_pass_def)
    show ?thesis
    proof (cases "ls_phase (fst r) = LP_READY")
      case True
      with b None have lt: "ls_iteration (fst r1) < max_iterations (fst r1)"
        by (auto simp: max_iterations_def dest!: eng_budget_None budget_stop_iteration)
      have ph: "in_phase LP_READY (fst r1)" using assms True s1 by (simp add: in_phase_def)
      have "in_phase LP_PLANNING (fst (start_iteration E r1))" "sourced E (fst (start_iteration E r1))"
        using start_iteration_running [OF ph lt, of E] sourced_start [OF ph, of E] assms(5) s1 by simp_all
      with keep_rest [OF assms(1), of LP_PLANNING] keep_start [OF assms(1) ph lt P1] show ?thesis
        unfolding eq by simp
    next
      case False
      then have "start_iteration E r1 = r1" using s1 by (simp add: phase_skip)
      moreover have "in_phase (ls_phase (fst r)) (fst r1)"
        using assms s1 by (simp add: in_phase_def)
      ultimately show ?thesis unfolding eq using keep_rest [OF assms(1) _ False P1] assms(5) s1 by simp
    qed
  qed
qed

lemma keep_loop:
  assumes "run_loop E r = Some r'" "ports_keep E P" "loop_inv (fst r)" "P (snd r)" "sourced E (fst r)"
  shows "P (snd r') \<and> sourced E (fst r')"
proof -
  let ?I = "\<lambda>E r. loop_inv (fst r) \<and> P (snd r) \<and> sourced E (fst r)"
  have "?I E r \<longrightarrow> ports_keep E P \<longrightarrow> P (snd r') \<and> sourced E (fst r')"
  proof (rule run_loop.raw_induct [where P = "\<lambda>E r r'. ?I E r \<longrightarrow> ports_keep E P \<longrightarrow> P (snd r') \<and> sourced E (fst r')",
      OF _ assms(1)], intro impI)
    fix f E r r'
    assume IH: "\<And>E r r'. f E r = Some r' \<Longrightarrow> ?I E r \<longrightarrow> ports_keep E P \<longrightarrow> P (snd r') \<and> sourced E (fst r')"
      and eq: "(if ls_status (fst r) = LS_RUNNING then f E (loop_pass E r) else Some r) = Some r'"
      and pre: "?I E r" "ports_keep E P"
    show "P (snd r') \<and> sourced E (fst r')"
    proof (cases "ls_status (fst r) = LS_RUNNING")
      case True
      with eq have f: "f E (loop_pass E r) = Some r'" by simp
      have "loop_inv (fst (loop_pass E r))"
        using loop_pass_turn [of r E] pre(1) True by (simp add: turn_ok_def)
      moreover have "P (snd (loop_pass E r)) \<and> sourced E (fst (loop_pass E r))"
        using keep_pass [OF pre(2) _ True] pre(1) by blast
      ultimately show ?thesis using IH [OF f] pre(2) by blast
    qed (use eq pre in simp)
  qed
  with assms show ?thesis by blast
qed

section \<open>Starting a run\<close>

lemma loop_log_prefix: "prefix (ls_events s) (ls_events (record_event x s'))" if "ls_events s' = ls_events s"
  using loop_log.emit_prefix [of x s'] that by auto

lemma begin_run_in:
  assumes "loop_inv (fst r)" "\<not> loop_terminal (fst r)"
  shows "loop_inv (fst (begin_run E r)) \<and> ls_status (fst (begin_run E r)) = LS_RUNNING \<and>
    ls_definition (fst (begin_run E r)) = ls_definition (fst r) \<and>
    grows (fst r) (fst (begin_run E r))"
proof -
  have "loop_inv (s\<lparr>ls_status := LS_RUNNING\<rparr>)" if "loop_inv s" "\<not> loop_terminal s" for s
    using that by (auto simp: loop_inv_def inv_defs)
  moreover have "loop_inv ((fst r)\<lparr>ls_started_at := Some t\<rparr>)" "\<not> loop_terminal ((fst r)\<lparr>ls_started_at := Some t\<rparr>)" for t
    using assms by (auto simp: loop_inv_def inv_defs)
  ultimately show ?thesis
    using assms by (auto simp: begin_run_def Let_def eng_record_fst grows_def split: prod.split
        intro!: loop_log_prefix)
qed

lemma begin_run_keeps:
  assumes "ports_keep E P" "loop_inv (fst r)" "\<not> loop_terminal (fst r)" "P (snd r)"
  shows "P (snd (begin_run E r))"
proof -
  obtain t w where t: "eng_utc_now E (snd r) = (t, w)" by fastforce
  define r1 where "r1 = (if ls_started_at (fst r) = None then ((fst r)\<lparr>ls_started_at := Some t\<rparr>, w) else r)"
  have P1: "P (snd r1)" using keep_utc [OF assms(1) t assms(4)] assms(4) by (simp add: r1_def)
  have "\<exists>ty p. begin_run E r = eng_checkpoint E
      (eng_record E ty p ((fst r1)\<lparr>ls_status := LS_RUNNING\<rparr>, snd r1))"
    using t by (cases "ls_started_at (fst r) = None") (auto simp: begin_run_def Let_def r1_def)
  then obtain ty p where eq: "begin_run E r = eng_checkpoint E
      (eng_record E ty p ((fst r1)\<lparr>ls_status := LS_RUNNING\<rparr>, snd r1))" by blast
  show ?thesis
    by (rule keep_result [OF assms(1) eq])
      (use begin_run_in [OF assms(2,3), of E] P1 in \<open>auto intro!: keep_record [OF assms(1)]\<close>)
qed

lemma resume_result:
  assumes "loop_inv (fst r)"
  shows "\<exists>r'. resume E r = Some r' \<and> loop_inv (fst r') \<and> loop_terminal (fst r') \<and>
    ls_definition (fst r') = ls_definition (fst r) \<and> grows (fst r) (fst r')"
proof (cases "loop_terminal (fst r)")
  case True
  with assms show ?thesis by (auto simp: resume_def)
next
  case False
  from begin_run_in [OF assms False, of E] run_loop_result [of "begin_run E r" E] False
  show ?thesis by (auto simp: resume_def intro: grows_trans)
qed

lemma create_state_definition:
  "create_state d i = Inr s \<Longrightarrow> ls_definition s = d\<lparr>ld_goal := strip (ld_goal d)\<rparr>"
  by (auto simp: create_state_def Let_def split: if_splits)

lemma run_engine_result:
  assumes "run_engine E d i w = Inr res"
  shows "\<exists>s w'. res = Some (s, w') \<and> loop_inv s \<and> loop_terminal s \<and>
    ls_definition s = d\<lparr>ld_goal := strip (ld_goal d)\<rparr>"
proof -
  from assms obtain s0 where s0: "create_state d i = Inr s0" and res: "res = resume E (s0, w)"
    by (auto simp: run_engine_def split: sum.splits)
  from resume_result [of "(s0, w)" E] create_state_inv [OF s0] create_state_definition [OF s0] res
  show ?thesis by fastforce
qed

lemma run_engine_Inr: "strip (ld_goal d) \<noteq> [] \<Longrightarrow> \<exists>res. run_engine E d i w = Inr res"
  by (simp add: run_engine_def create_state_def Let_def)

lemma begin_run_sourced: "\<not> loop_terminal (fst r) \<Longrightarrow> sourced E (fst r) \<Longrightarrow> sourced E (fst (begin_run E r))"
  by (auto simp: begin_run_def Let_def eng_record_fst sourced_def verified_def just_verified_def carried_out_def split: prod.split)

text \<open>What every port keeps holds after a run, and the data of the final state has its sources.\<close>

lemma run_engine_keeps:
  assumes "run_engine E d i w = Inr (Some (s, w'))" "ports_keep E P" "P w"
  shows "P w' \<and> sourced E s"
proof -
  from assms(1) obtain s0 where s0: "create_state d i = Inr s0" and res: "resume E (s0, w) = Some (s, w')"
    by (auto simp: run_engine_def split: sum.splits)
  have new: "loop_inv s0" "\<not> loop_terminal s0" "sourced E s0"
    using create_state_inv [OF s0] created_sourced [OF s0] by (auto simp: loop_terminal_def)
  then have run: "run_loop E (begin_run E (s0, w)) = Some (s, w')" using res by (simp add: resume_def)
  have "P (snd (begin_run E (s0, w)))"
    using begin_run_keeps [OF assms(2), of "(s0, w)"] new assms(3) by simp
  with keep_loop [OF run assms(2)] begin_run_in [of "(s0, w)" E] begin_run_sourced [of "(s0, w)" E] new
  show ?thesis by simp
qed

lemma run_engine_sourced: "run_engine E d i w = Inr (Some (s, w')) \<Longrightarrow> sourced E s"
  using run_engine_keeps [of E d i w s w' "\<lambda>_. True"] by (simp add: ports_keep_def)

end
