(* ===== verification/Loop_Resumption.thy ===== *)
theory Loop_Resumption
  imports Loop_Provenance
begin

text \<open>
  Which actions a resumed run executes. The outside world keeps a log of the actions that the executor was
  asked for; a run that continues a state in the middle of a plan first executes exactly what is left of this plan, and
  anything else only in a later iteration.
\<close>

section \<open>A log of the executed actions\<close>

definition logs_actions :: "'w loop_engine \<Rightarrow> ('w \<Rightarrow> action list) \<Rightarrow> bool" where
  "logs_actions E acts \<longleftrightarrow>
     (\<forall>a s w. acts (snd (eng_executor E a s w)) = acts w @ [a]) \<and>
     (\<forall>s w. acts (snd (eng_planner E s w)) = acts w) \<and>
     (\<forall>s rs w. acts (snd (eng_verifier E s rs w)) = acts w) \<and>
     (\<forall>s v w. acts (snd (eng_judge E s v w)) = acts w) \<and>
     (\<forall>w. acts (snd (eng_utc_now E w)) = acts w) \<and>
     (\<forall>w. acts (snd (eng_now E w)) = acts w) \<and>
     (\<forall>w. acts (snd (eng_perf_counter E w)) = acts w) \<and>
     (\<forall>save s w. eng_checkpoint_store E = Some save \<longrightarrow> acts (save s w) = acts w)"

text \<open>The actions of the plan that have no result yet.\<close>

definition pending :: "loop_state \<Rightarrow> action list" where
  "pending s = (case ls_latest_plan s of
      Some p \<Rightarrow> if ls_phase s = LP_EXECUTING then drop (length (ls_iteration_results s)) (pl_actions p) else []
    | None \<Rightarrow> [])"

text \<open>A part of a turn that executes the given actions.\<close>

definition did :: "('w \<Rightarrow> action list) \<Rightarrow> action list \<Rightarrow> 'w run \<Rightarrow> 'w run \<Rightarrow> bool" where
  "did acts as r r' \<longleftrightarrow> acts (snd r') = acts (snd r) @ as \<and>
     ls_action_count (fst r') = ls_action_count (fst r) + int (length as)"

lemma did_trans: "did acts as r r1 \<Longrightarrow> did acts bs r1 r2 \<Longrightarrow> did acts (as @ bs) r r2"
  by (simp add: did_def)

lemma did_nothing: "did acts [] r r"
  by (simp add: did_def)

section \<open>What each phase executes\<close>

lemma quiet_logs:
  assumes "logs_actions E acts"
  shows "acts (snd (eng_checkpoint E r)) = acts (snd r)" "acts (snd (eng_record E ty p r)) = acts (snd r)"
    "acts (snd (snd (eng_budget E c r))) = acts (snd r)" "acts (snd (eng_stop E reason r)) = acts (snd r)"
    "acts (snd (eng_fail E reason r)) = acts (snd r)"
proof -
  have utc: "acts (snd (eng_utc_now E w)) = acts w" and now: "acts (snd (eng_now E w)) = acts w" for w
    using assms by (simp_all add: logs_actions_def)
  have check: "acts (snd (eng_checkpoint E r)) = acts (snd r)" for r
    using assms by (auto simp: logs_actions_def eng_checkpoint_def split: option.split)
  have rec: "acts (snd (eng_record E ty p r)) = acts (snd r)" for ty p r
    by (simp add: eng_record_def case_prod_beta utc)
  show "acts (snd (eng_checkpoint E r)) = acts (snd r)" "acts (snd (eng_record E ty p r)) = acts (snd r)"
    "acts (snd (snd (eng_budget E c r))) = acts (snd r)" "acts (snd (eng_stop E reason r)) = acts (snd r)"
    "acts (snd (eng_fail E reason r)) = acts (snd r)"
    by (simp_all add: check rec eng_budget_def eng_stop_def eng_fail_def case_prod_beta Let_def utc now)
qed

lemma stop_counts:
  "ls_action_count (fst (eng_stop E reason r)) = ls_action_count (fst r)" "ls_iteration (fst (eng_stop E reason r)) = ls_iteration (fst r)"
  "ls_action_count (fst (eng_fail E reason r)) = ls_action_count (fst r)" "ls_iteration (fst (eng_fail E reason r)) = ls_iteration (fst r)"
  using eng_stop_fst [of E reason r] eng_fail_fst [of E reason r] by (auto simp: stopped_as_def)

lemma ports_log:
  assumes "logs_actions E acts"
  shows "eng_planner E s w = (x, w') \<Longrightarrow> acts w' = acts w" "eng_verifier E s rs w = (y, w') \<Longrightarrow> acts w' = acts w"
    "eng_judge E s v w = (z, w') \<Longrightarrow> acts w' = acts w" "eng_utc_now E w = (t, w') \<Longrightarrow> acts w' = acts w"
    "eng_perf_counter E w = (u, w') \<Longrightarrow> acts w' = acts w" "eng_executor E a s w = (v', w') \<Longrightarrow> acts w' = acts w @ [a]"
  using assms unfolding logs_actions_def by (metis snd_conv)+

lemmas calm = quiet_logs stop_counts eng_record_fst Let_def did_def

lemma start_does: "logs_actions E acts \<Longrightarrow> did acts [] r (start_iteration E r)"
  by (simp add: start_iteration_def calm)

lemma plan_does: "logs_actions E acts \<Longrightarrow> did acts [] r (plan_phase E r) \<and> ls_iteration (fst (plan_phase E r)) = ls_iteration (fst r)"
  using ports_log(1) [of E acts "fst r" "snd r"]
  by (auto simp: plan_phase_def calm split: prod.split sum.split)

lemma verify_does: "logs_actions E acts \<Longrightarrow> did acts [] r (verify_phase E r) \<and> ls_iteration (fst (verify_phase E r)) = ls_iteration (fst r)"
  using ports_log(2) [of E acts "fst r" "ls_iteration_results (fst r)" "snd r"]
  by (auto simp: verify_phase_def calm split: prod.split sum.split option.split)

lemma judgement_does: "logs_actions E acts \<Longrightarrow> did acts [] r (apply_judgement E j r) \<and> ls_iteration (fst (apply_judgement E j r)) = ls_iteration (fst r)"
  using ports_log(4) [of E acts "snd r"]
  by (auto simp: apply_judgement_def calm split: prod.split)

lemma judge_does:
  assumes "logs_actions E acts"
  shows "did acts [] r (judge_phase E r) \<and> ls_iteration (fst (judge_phase E r)) = ls_iteration (fst r)"
proof (cases "ls_latest_verification (fst r)")
  case (Some v)
  obtain x w where port: "eng_judge E (fst r) v (snd r) = (x, w)" by fastforce
  note w = ports_log(3) [OF assms port]
  have "did acts [] r (apply_judgement E j (eng_record E ty p (s, w))) \<and>
      ls_iteration (fst (apply_judgement E j (eng_record E ty p (s, w)))) = ls_iteration (fst r)"
    if "ls_action_count s = ls_action_count (fst r)" "ls_iteration s = ls_iteration (fst r)" for j ty p s
    using judgement_does [OF assms, of "eng_record E ty p (s, w)" j] that w by (simp add: calm assms)
  with port w Some show ?thesis by (cases x) (auto simp: judge_phase_def calm assms)
qed (auto simp: judge_phase_def calm assms)

lemma action_does:
  assumes "logs_actions E acts"
  shows "did acts [a] r (execute_action E a r) \<and> ls_iteration (fst (execute_action E a r)) = ls_iteration (fst r)"
proof -
  obtain t0 w0 where 1: "eng_perf_counter E (snd r) = (t0, w0)" by fastforce
  obtain x w1 where 2: "eng_executor E a (fst r) w0 = (x, w1)" by fastforce
  obtain t1 w2 where 3: "eng_perf_counter E w1 = (t1, w2)" by fastforce
  have "acts w2 = acts (snd r) @ [a]"
    using ports_log(5) [OF assms 1] ports_log(6) [OF assms 2] ports_log(5) [OF assms 3] by simp
  with 1 2 3 show ?thesis by (simp add: execute_action_def calm assms)
qed

lemma actions_do:
  assumes "logs_actions E acts"
  shows "\<exists>bs. did acts bs r (run_actions E as r) \<and> ls_iteration (fst (run_actions E as r)) = ls_iteration (fst r) \<and>
    prefix bs as \<and> (ls_status (fst (run_actions E as r)) = LS_RUNNING \<longrightarrow> bs = as)"
proof (induction as arbitrary: r)
  case Nil
  show ?case using did_nothing [of acts r] by auto
next
  case (Cons a as)
  obtain b r1 where b: "eng_budget E False r = (b, r1)" by (metis surj_pair)
  then have r1: "did acts [] r r1" "ls_iteration (fst r1) = ls_iteration (fst r)"
    using quiet_logs(3) [OF assms, of False r] eng_budget_state [of E False r] by (simp_all add: did_def)
  show ?case
  proof (cases b)
    case None
    from Cons.IH [of "execute_action E a r1"] obtain bs where
      bs: "did acts bs (execute_action E a r1) (run_actions E as (execute_action E a r1))"
        "ls_iteration (fst (run_actions E as (execute_action E a r1))) = ls_iteration (fst (execute_action E a r1))"
        "prefix bs as" "ls_status (fst (run_actions E as (execute_action E a r1))) = LS_RUNNING \<longrightarrow> bs = as" by blast
    have "did acts (a # bs) r (run_actions E as (execute_action E a r1))"
      using did_trans [OF did_trans [OF r1(1) conjunct1 [OF action_does [OF assms]]] bs(1)] by simp
    with None b bs r1 action_does [OF assms, of a r1] show ?thesis
      by (intro exI [of _ "a # bs"]) simp
  next
    case (Some reason)
    with b r1 show ?thesis
      by (intro exI [of _ "[]"]) (simp add: calm assms eng_stop_keeps)
  qed
qed

lemma execute_does:
  assumes "logs_actions E acts" "loop_inv (fst r)"
  shows "\<exists>bs. did acts bs r (execute_phase E r) \<and> ls_iteration (fst (execute_phase E r)) = ls_iteration (fst r) \<and>
    prefix bs (pending (fst r)) \<and> (ls_status (fst (execute_phase E r)) = LS_RUNNING \<longrightarrow> bs = pending (fst r))"
proof (cases "ls_phase (fst r) = LP_EXECUTING")
  case True
  then obtain p where p: "ls_latest_plan (fst r) = Some p"
    "ls_next_action_index (fst r) = int (length (ls_iteration_results (fst r)))"
    "length (ls_iteration_results (fst r)) \<le> length (pl_actions p)"
    using assms(2) by (auto simp: loop_inv_def phase_data_ok_def)
  from actions_do [OF assms(1), of r "pending (fst r)"] obtain bs where
    bs: "did acts bs r (run_actions E (pending (fst r)) r)"
      "ls_iteration (fst (run_actions E (pending (fst r)) r)) = ls_iteration (fst r)" "prefix bs (pending (fst r))"
      "ls_status (fst (run_actions E (pending (fst r)) r)) = LS_RUNNING \<longrightarrow> bs = pending (fst r)" by blast
  with True p show ?thesis
    by (intro exI [of _ bs]) (simp add: execute_phase_def pending_def calm assms(1))
next
  case False
  then show ?thesis using did_nothing [of acts r]
    by (auto simp: execute_phase_def pending_def split: option.split)
qed

section \<open>Turns and runs\<close>

lemma pending_other: "ls_phase s \<noteq> LP_EXECUTING \<Longrightarrow> pending s = []"
  by (simp add: pending_def split: option.split)

lemma rest_does:
  assumes "logs_actions E acts" "in_phase q (fst r)" "q \<noteq> LP_READY"
  shows "\<exists>bs. did acts bs r (rest_of_pass E r) \<and> ls_iteration (fst (rest_of_pass E r)) = ls_iteration (fst r) \<and>
    (q \<noteq> LP_PLANNING \<longrightarrow> prefix bs (pending (fst r)) \<and>
       (ls_status (fst (rest_of_pass E r)) = LS_RUNNING \<longrightarrow> bs = pending (fst r)))"
proof -
  let ?r1 = "plan_phase E r"
  let ?r2 = "execute_phase E ?r1"
  let ?r3 = "verify_phase E ?r2"
  have inv: "loop_inv (fst ?r1)"
    using assms(2) plan_phase_advances [of r E] by (cases "q = LP_PLANNING") (auto simp: advances_def in_phase_def phase_skip)
  from execute_does [OF assms(1) this] obtain bs where bs: "did acts bs ?r1 ?r2" "ls_iteration (fst ?r2) = ls_iteration (fst ?r1)"
    "prefix bs (pending (fst ?r1))" "ls_status (fst ?r2) = LS_RUNNING \<longrightarrow> bs = pending (fst ?r1)" by blast
  note parts = plan_does [OF assms(1), of r] verify_does [OF assms(1), of ?r2] judge_does [OF assms(1), of ?r3]
  have "did acts bs r (rest_of_pass E r)"
    using did_trans [OF conjunct1 [OF parts(1)] did_trans [OF bs(1) did_trans [OF conjunct1 [OF parts(2)] conjunct1 [OF parts(3)]]]]
    by (simp add: rest_of_pass_def)
  moreover have "ls_iteration (fst (rest_of_pass E r)) = ls_iteration (fst r)"
    using parts bs(2) by (simp add: rest_of_pass_def)
  moreover have "prefix bs (pending (fst r)) \<and> (ls_status (fst (rest_of_pass E r)) = LS_RUNNING \<longrightarrow> bs = pending (fst r))"
    if "q \<noteq> LP_PLANNING"
  proof -
    have r1: "?r1 = r" using that assms(2) by (simp add: phase_skip in_phase_def)
    have "?r2 = rest_of_pass E r" if stop: "ls_status (fst ?r2) \<noteq> LS_RUNNING"
    proof -
      have "ls_phase (fst ?r2) = LP_TERMINAL"
      proof (cases "q = LP_EXECUTING")
        case True
        then show ?thesis
          using execute_phase_advances [of r E] assms(2) stop unfolding r1 by (auto dest: advances_terminal_phase)
      next
        case False
        then show ?thesis using stop assms(2) unfolding r1 by (simp add: phase_skip in_phase_def)
      qed
      then show ?thesis by (simp add: rest_of_pass_def terminal_skips)
    qed
    with bs(3,4) show ?thesis unfolding r1 by metis
  qed
  ultimately show ?thesis by blast
qed

lemma pass_does:
  assumes "logs_actions E acts" "loop_inv (fst r)" "ls_status (fst r) = LS_RUNNING"
  shows "\<exists>bs. did acts bs r (loop_pass E r) \<and> ls_iteration (fst r) \<le> ls_iteration (fst (loop_pass E r)) \<and>
    (ls_iteration (fst (loop_pass E r)) = ls_iteration (fst r) \<longrightarrow> ls_phase (fst r) \<noteq> LP_PLANNING \<longrightarrow> prefix bs (pending (fst r))) \<and>
    (ls_phase (fst r) \<noteq> LP_READY \<longrightarrow> ls_iteration (fst (loop_pass E r)) = ls_iteration (fst r)) \<and>
    (ls_phase (fst r) = LP_EXECUTING \<longrightarrow> ls_status (fst (loop_pass E r)) = LS_RUNNING \<longrightarrow> bs = pending (fst r))"
proof -
  obtain b r1 where b: "eng_budget E (ls_phase (fst r) = LP_READY) r = (b, r1)" by (metis surj_pair)
  then have s1: "fst r1 = fst r" and r1: "did acts [] r r1"
    using quiet_logs(3) [OF assms(1), of "ls_phase (fst r) = LP_READY" r] eng_budget_state [of E "ls_phase (fst r) = LP_READY" r]
    by (simp_all add: did_def)
  show ?thesis
  proof (cases b)
    case (Some reason)
    with b have "loop_pass E r = eng_stop E reason r1" by (simp add: loop_pass_def)
    with r1 s1 show ?thesis
      by (intro exI [of _ "[]"]) (simp add: calm assms(1) eng_stop_keeps)
  next
    case None
    with b have eq: "loop_pass E r = rest_of_pass E (start_iteration E r1)"
      by (simp add: loop_pass_def rest_of_pass_def)
    show ?thesis
    proof (cases "ls_phase (fst r) = LP_READY")
      case True
      with b None have lt: "ls_iteration (fst r1) < max_iterations (fst r1)"
        by (auto simp: max_iterations_def dest!: eng_budget_None budget_stop_iteration)
      have "in_phase LP_READY (fst r1)" using assms True s1 by (simp add: in_phase_def)
      note start = start_iteration_running [OF this lt, of E]
      from rest_does [OF assms(1) conjunct1 [OF start]] obtain bs where
        bs: "did acts bs (start_iteration E r1) (loop_pass E r)"
          "ls_iteration (fst (loop_pass E r)) = ls_iteration (fst (start_iteration E r1))" unfolding eq by blast
      have "did acts bs r (loop_pass E r)"
        using did_trans [OF did_trans [OF r1 start_does [OF assms(1)]] bs(1)] by simp
      with bs(2) start s1 True show ?thesis by auto
    next
      case False
      then have "start_iteration E r1 = r1" using s1 by (simp add: phase_skip)
      moreover have "in_phase (ls_phase (fst r)) (fst r1)" using assms s1 by (simp add: in_phase_def)
      from rest_does [OF assms(1) this False] obtain bs where
        bs: "did acts bs r1 (rest_of_pass E r1)" "ls_iteration (fst (rest_of_pass E r1)) = ls_iteration (fst r1)"
        "ls_phase (fst r) \<noteq> LP_PLANNING \<longrightarrow> prefix bs (pending (fst r1)) \<and>
           (ls_status (fst (rest_of_pass E r1)) = LS_RUNNING \<longrightarrow> bs = pending (fst r1))" by blast
      moreover have "did acts bs r (rest_of_pass E r1)" using did_trans [OF r1 bs(1)] by simp
      ultimately show ?thesis using False s1 unfolding eq by auto
    qed
  qed
qed

text \<open>What a run from a state executes, compared with what is pending in that state.\<close>

definition continues :: "('w \<Rightarrow> action list) \<Rightarrow> 'w run \<Rightarrow> 'w run \<Rightarrow> action list \<Rightarrow> bool" where
  "continues acts r r' bs \<longleftrightarrow> did acts bs r r' \<and> ls_iteration (fst r) \<le> ls_iteration (fst r') \<and>
     (ls_iteration (fst r') = ls_iteration (fst r) \<longrightarrow> ls_phase (fst r) \<noteq> LP_PLANNING \<longrightarrow> prefix bs (pending (fst r))) \<and>
     (ls_iteration (fst r') \<noteq> ls_iteration (fst r) \<longrightarrow> prefix (pending (fst r)) bs)"

lemma continues_refl: "continues acts r r []"
  by (simp add: continues_def did_nothing)

lemma continues_turn:
  assumes "logs_actions E acts" "loop_inv (fst r)" "ls_status (fst r) = LS_RUNNING"
    "\<exists>cs. continues acts (loop_pass E r) r' cs" "ls_status (fst (loop_pass E r)) \<noteq> LS_RUNNING \<Longrightarrow> r' = loop_pass E r"
  shows "\<exists>bs. continues acts r r' bs"
proof -
  let ?r1 = "loop_pass E r"
  from pass_does [OF assms(1-3)] obtain bs where bs: "did acts bs r ?r1" "ls_iteration (fst r) \<le> ls_iteration (fst ?r1)"
    "ls_iteration (fst ?r1) = ls_iteration (fst r) \<Longrightarrow> ls_phase (fst r) \<noteq> LP_PLANNING \<Longrightarrow> prefix bs (pending (fst r))"
    "ls_phase (fst r) \<noteq> LP_READY \<Longrightarrow> ls_iteration (fst ?r1) = ls_iteration (fst r)"
    "ls_phase (fst r) = LP_EXECUTING \<Longrightarrow> ls_status (fst ?r1) = LS_RUNNING \<Longrightarrow> bs = pending (fst r)" by blast
  show ?thesis
  proof (cases "ls_status (fst ?r1) = LS_RUNNING")
    case False
    with assms(5) have "r' = ?r1" by simp
    moreover have "prefix (pending (fst r)) bs" if "ls_iteration (fst ?r1) \<noteq> ls_iteration (fst r)"
      using that bs(4) pending_other [of "fst r"] by (metis Nil_prefix loop_phase.distinct(3))
    ultimately show ?thesis using bs by (intro exI [of _ bs]) (auto simp: continues_def)
  next
    case True
    with loop_pass_turn [OF assms(2,3), of E] have ready: "ls_phase (fst ?r1) = LP_READY"
      "ls_phase (fst r) = LP_READY \<Longrightarrow> ls_iteration (fst ?r1) = ls_iteration (fst r) + 1"
      by (simp_all add: turn_ok_def)
    from assms(4) obtain cs where cs: "did acts cs ?r1 r'" "ls_iteration (fst ?r1) \<le> ls_iteration (fst r')"
      "ls_iteration (fst r') = ls_iteration (fst ?r1) \<Longrightarrow> cs = []"
      using ready(1) pending_other [of "fst ?r1"] by (auto simp: continues_def)
    have "prefix (bs @ cs) (pending (fst r))"
      if "ls_iteration (fst r') = ls_iteration (fst r)" "ls_phase (fst r) \<noteq> LP_PLANNING"
      using that bs(2,3) cs(2,3) by simp
    moreover have "prefix (pending (fst r)) (bs @ cs)"
      using bs(5) [OF _ True] pending_other [of "fst r"] by (cases "ls_phase (fst r) = LP_EXECUTING") auto
    ultimately show ?thesis
      using did_trans [OF bs(1) cs(1)] bs(2) cs(2) by (intro exI [of _ "bs @ cs"]) (simp add: continues_def)
  qed
qed

lemma loop_continues:
  assumes "run_loop E r = Some r'" "logs_actions E acts" "loop_inv (fst r)"
  shows "\<exists>bs. continues acts r r' bs"
proof -
  let ?G = "\<lambda>E r r'. logs_actions E acts \<longrightarrow> loop_inv (fst r) \<longrightarrow>
    (\<exists>bs. continues acts r r' bs) \<and> (ls_status (fst r) \<noteq> LS_RUNNING \<longrightarrow> r' = r)"
  have "?G E r r'"
  proof (rule run_loop.raw_induct [where P = ?G, OF _ assms(1)], intro impI)
    fix f E r r'
    assume IH: "\<And>E r r'. f E r = Some r' \<Longrightarrow> ?G E r r'"
      and eq: "(if ls_status (fst r) = LS_RUNNING then f E (loop_pass E r) else Some r) = Some r'"
      and pre: "logs_actions E acts" "loop_inv (fst r)"
    show "(\<exists>bs. continues acts r r' bs) \<and> (ls_status (fst r) \<noteq> LS_RUNNING \<longrightarrow> r' = r)"
    proof (cases "ls_status (fst r) = LS_RUNNING")
      case True
      with eq have f: "f E (loop_pass E r) = Some r'" by simp
      have "loop_inv (fst (loop_pass E r))" using loop_pass_turn [OF pre(2) True] by (simp add: turn_ok_def)
      with IH [OF f] pre(1) continues_turn [OF pre True] True show ?thesis by blast
    qed (use eq continues_refl [of acts r] in auto)
  qed
  with assms(2,3) show ?thesis by blast
qed

lemma begin_does:
  "logs_actions E acts \<Longrightarrow> did acts [] r (begin_run E r) \<and> ls_iteration (fst (begin_run E r)) = ls_iteration (fst r) \<and>
     ls_phase (fst (begin_run E r)) = ls_phase (fst r) \<and> pending (fst (begin_run E r)) = pending (fst r)"
  using ports_log(4) [of E acts "snd r"]
  by (auto simp: begin_run_def calm pending_def split: prod.split option.split)

lemma resume_continues:
  assumes "resume E r = Some r'" "logs_actions E acts" "loop_inv (fst r)"
  shows "\<exists>bs. continues acts r r' bs"
proof (cases "loop_terminal (fst r)")
  case True
  with assms(1) continues_refl [of acts r] show ?thesis by (auto simp: resume_def)
next
  case False
  with assms(1) have run: "run_loop E (begin_run E r) = Some r'" by (simp add: resume_def)
  have "loop_inv (fst (begin_run E r))" using begin_run_in [OF assms(3) False] by simp
  from loop_continues [OF run assms(2) this] begin_does [OF assms(2), of r] show ?thesis
    by (auto simp: continues_def did_def)
qed

end
