(* ===== verification/Loop_Properties.thy ===== *)
theory Loop_Properties
  imports Loop_Adapters Loop_Resumption
begin

text \<open>
  The properties of the loop engine: it returns, within its budgets; what a completed run
  means; its event log; recovery from checkpoints; stagnation; and the one state on which it
  does not return.
\<close>

section \<open>Properties\<close>

text \<open>
  C1: for every goal that is not blank, and whatever its ports answer or raise, a run of the
  engine returns; it ends in a terminal status, and it never takes more iterations or actions
  than the budgets allow (each at least 1).
\<close>

theorem engine_returns_within_budget:
  assumes "strip (ld_goal d) \<noteq> []"
  shows "\<exists>s w'. run_engine E d i w = Inr (Some (s, w')) \<and> loop_terminal s \<and>
    ls_iteration s \<le> max 1 (lb_max_iterations (ld_budget d)) \<and>
    ls_action_count s \<le> max 1 (lb_max_actions (ld_budget d)) \<and>
    ls_action_count s = int (length (ls_action_results s))"
proof -
  from run_engine_Inr [OF assms, of E i w] obtain res where res: "run_engine E d i w = Inr res" ..
  from run_engine_result [OF res] obtain s w' where "res = Some (s, w')" "loop_inv s" "loop_terminal s"
    "ls_definition s = d\<lparr>ld_goal := strip (ld_goal d)\<rparr>" by blast
  with res show ?thesis by (auto simp: loop_inv_def inv_defs)
qed

lemma strip_A: "strip ''A'' = ''A''"
  by (rule strip_fixed) (simp add: py_space_def)

lemma counter_goal: "strip (ld_goal (counter_definition 3)) \<noteq> []"
proof -
  have "strip (ld_goal (counter_definition 3)) = ld_goal (counter_definition 3)"
    by (rule strip_fixed) (simp add: py_space_def counter_definition_def)
  then show ?thesis by (simp add: counter_definition_def)
qed

theorem engine_returns_within_budget_witness:
  "\<exists>s w'. run_engine still_counter_engine (counter_definition 3) ''run'' [] = Inr (Some (s, w')) \<and>
    loop_terminal s \<and> ls_iteration s \<le> 6 \<and> ls_action_count s \<le> 6"
  using engine_returns_within_budget [OF counter_goal, of still_counter_engine "''run''" "[]"]
  by (auto simp: counter_definition_def)

text \<open>
  C2: a run that ends COMPLETED was completed by its judge on what its verifier found: the last
  judgement is COMPLETE, its reason is the stop reason, the judge gave it on the last
  verification, and the verifier gave that one on the last results of this run, after which nothing was
  executed. Planner, executor and verifier cannot complete a run.
\<close>

theorem completed_only_by_judge:
  assumes "run_engine E d i w = Inr (Some (s, w'))" "ls_status s = LS_COMPLETED"
  shows "\<exists>j v s1 w1. ls_latest_judgement s = Some j \<and> jd_decision j = COMPLETE \<and>
    ls_stop_reason s = Some (jd_reason j) \<and> ls_latest_verification s = Some v \<and>
    ls_definition s1 = ls_definition s \<and> fst (eng_judge E s1 v w1) = Inr j \<and> just_verified E s v"
proof -
  have "verdict_ok s" using run_engine_result [OF assms(1)] by (auto simp: loop_inv_def)
  with assms(2) have "ls_latest_judgement s = Some j \<Longrightarrow> ls_stop_reason s = Some (jd_reason j)" for j
    by (auto simp: verdict_ok_def)
  with run_engine_sourced [OF assms(1)] assms(2) show ?thesis unfolding sourced_def by blast
qed

text \<open>A run of the counter demo for target 1, evaluated: it completes in one iteration.\<close>

definition quiet_counter_engine :: "unit loop_engine" where
  "quiet_counter_engine = counter_engine (\<lambda>w. (''t0'', w)) (\<lambda>w. (0, w)) (\<lambda>w. (0, w)) (\<lambda>s. 0)
     (\<lambda>v. []) None"

definition quiet_definition :: loop_definition where
  "quiet_definition = (counter_definition 1)\<lparr>ld_goal := ''g'', ld_success_criteria := [],
     ld_constraints := []\<rparr>"

lemma quiet_run:
  "(case run_engine quiet_counter_engine quiet_definition ''r'' () of
      Inr (Some (s, w)) \<Rightarrow> ls_status s = LS_COMPLETED | _ \<Rightarrow> False)"
  by code_simp

lemma quiet_run_result:
  "\<exists>s w. run_engine quiet_counter_engine quiet_definition ''r'' () = Inr (Some (s, w)) \<and>
     ls_status s = LS_COMPLETED"
  using quiet_run by (auto split: sum.splits option.splits prod.splits)

theorem completed_only_by_judge_witness:
  "\<exists>s w j v. run_engine quiet_counter_engine quiet_definition ''r'' () = Inr (Some (s, w)) \<and>
     ls_latest_judgement s = Some j \<and> jd_decision j = COMPLETE \<and> ls_stop_reason s = Some (jd_reason j) \<and>
     just_verified quiet_counter_engine s v"
proof -
  obtain s w where r: "run_engine quiet_counter_engine quiet_definition ''r'' () = Inr (Some (s, w))"
    "ls_status s = LS_COMPLETED" using quiet_run_result by blast
  from completed_only_by_judge [OF this] r show ?thesis by blast
qed

text \<open>
  The event log of a run is numbered 1, 2, 3, ... without gaps, in the order the events were
  recorded.
\<close>

theorem run_events_numbered:
  assumes "run_engine E d i w = Inr (Some (s, w'))" "k < length (ls_events s)"
  shows "le_sequence (ls_events s ! k) = k + 1"
proof -
  have "numbered le_sequence (ls_events s)"
    using run_engine_result [OF assms(1)] by (auto simp: loop_inv_def)
  from numbered_nth [OF this assms(2)] show ?thesis .
qed

lemma begin_run_event: "ls_events (fst (begin_run E r)) \<noteq> []"
  by (auto simp: begin_run_def Let_def eng_record_fst record_event_def split: prod.split)

lemma run_engine_has_event:
  assumes "run_engine E d i w = Inr (Some (s, w'))" shows "ls_events s \<noteq> []"
proof -
  from assms obtain s0 where s0: "create_state d i = Inr s0" and res: "resume E (s0, w) = Some (s, w')"
    by (auto simp: run_engine_def split: sum.splits)
  have inv: "loop_inv s0" "\<not> loop_terminal s0"
    using create_state_inv [OF s0] by (auto simp: loop_terminal_def)
  let ?r = "begin_run E (s0, w)"
  have "run_loop E ?r = Some (s, w')" using res inv(2) by (simp add: resume_def)
  with begin_run_in [of "(s0, w)" E] run_loop_result [of ?r E] inv
  have "grows (fst ?r) s" by fastforce
  with begin_run_event [of E "(s0, w)"] show ?thesis by (auto simp: grows_def)
qed

theorem run_events_numbered_witness:
  "\<exists>s w. run_engine quiet_counter_engine quiet_definition ''r'' () = Inr (Some (s, w)) \<and>
     le_sequence (ls_events s ! 0) = 1"
proof -
  obtain s w where r: "run_engine quiet_counter_engine quiet_definition ''r'' () = Inr (Some (s, w))"
    using quiet_run_result by blast
  with run_events_numbered [OF r, of 0] run_engine_has_event [OF r] show ?thesis by auto
qed

text \<open>A store that logs every checkpoint, and ports that leave the log alone.\<close>

definition logs_checkpoints :: "'w loop_engine \<Rightarrow> ('w \<Rightarrow> loop_state list) \<Rightarrow> bool" where
  "logs_checkpoints E saved \<longleftrightarrow>
     (\<forall>s w. saved (snd (eng_planner E s w)) = saved w) \<and>
     (\<forall>a s w. saved (snd (eng_executor E a s w)) = saved w) \<and>
     (\<forall>s rs w. saved (snd (eng_verifier E s rs w)) = saved w) \<and>
     (\<forall>s v w. saved (snd (eng_judge E s v w)) = saved w) \<and>
     (\<forall>w. saved (snd (eng_utc_now E w)) = saved w) \<and>
     (\<forall>w. saved (snd (eng_now E w)) = saved w) \<and>
     (\<forall>w. saved (snd (eng_perf_counter E w)) = saved w) \<and>
     (\<exists>save. eng_checkpoint_store E = Some save \<and> (\<forall>s w. saved (save s w) = saved w @ [s]))"

text \<open>
  C5: every checkpoint a run writes can be resumed, by any engine whose executor logs the actions it is asked
  for: resuming it returns, ends in a terminal status, keeps every action result already recorded, and never fails as
  an invalid checkpoint. The actions it executes are exactly those counted. As long as the iteration of the checkpoint
  lasts, they are the actions of its plan that had no result yet, in their order, from the first of them on: none
  that is recorded is executed again and none is skipped; only a checkpoint that has no plan yet (phase
  \<open>PLANNING\<close>) gets a new one in the same iteration. The run reaches a later iteration only after all of them.
\<close>

theorem every_checkpoint_resumes:
  assumes "run_engine E d i w = Inr (Some (s, w'))" "logs_checkpoints E saved" "saved w = []" "logs_actions E2 executions"
  shows "\<forall>c\<in>set (saved w'). \<exists>c' v' bs. resume E2 (c, v) = Some (c', v') \<and> loop_terminal c' \<and>
    prefix (ls_action_results c) (ls_action_results c') \<and>
    (ls_status c' = LS_FAILED \<longrightarrow> (\<exists>reason. ls_stop_reason c' = Some reason \<and> \<not> invalid_checkpoint reason)) \<and>
    executions v' = executions v @ bs \<and> ls_action_count c' = ls_action_count c + int (length bs) \<and>
    ls_iteration c \<le> ls_iteration c' \<and>
    (ls_iteration c' = ls_iteration c \<longrightarrow> ls_phase c \<noteq> LP_PLANNING \<longrightarrow> prefix bs (pending c)) \<and>
    (ls_iteration c < ls_iteration c' \<longrightarrow> prefix (pending c) bs)"
proof
  fix c assume c: "c \<in> set (saved w')"
  let ?P = "\<lambda>w. \<forall>c\<in>set (saved w). loop_inv c"
  have ports: "ports_keep E ?P" using assms(2) by (auto simp: ports_keep_def logs_checkpoints_def)
  from run_engine_keeps [OF assms(1) ports] assms(3) have "?P w'" by simp
  with c have inv: "loop_inv c" by blast
  with resume_result [of "(c, v)" E2] obtain c' v' where r: "resume E2 (c, v) = Some (c', v')" "loop_inv c'" "loop_terminal c'"
    "grows c c'" by auto
  from resume_continues [OF r(1) assms(4)] inv obtain bs where "continues executions (c, v) (c', v') bs" by auto
  with r show "\<exists>c' v' bs. resume E2 (c, v) = Some (c', v') \<and> loop_terminal c' \<and>
    prefix (ls_action_results c) (ls_action_results c') \<and>
    (ls_status c' = LS_FAILED \<longrightarrow> (\<exists>reason. ls_stop_reason c' = Some reason \<and> \<not> invalid_checkpoint reason)) \<and>
    executions v' = executions v @ bs \<and> ls_action_count c' = ls_action_count c + int (length bs) \<and>
    ls_iteration c \<le> ls_iteration c' \<and>
    (ls_iteration c' = ls_iteration c \<longrightarrow> ls_phase c \<noteq> LP_PLANNING \<longrightarrow> prefix bs (pending c)) \<and>
    (ls_iteration c < ls_iteration c' \<longrightarrow> prefix (pending c) bs)"
    by (intro exI [of _ c'] exI [of _ v'] exI [of _ bs])
      (auto simp: continues_def did_def grows_def loop_inv_def verdict_ok_def)
qed

lemma still_logs: "logs_checkpoints still_counter_engine (\<lambda>w. w)"
  by (auto simp: logs_checkpoints_def still_counter_engine_def counter_engine_def execute_tool_def
      dget_def increment_def Let_def)

text \<open>The counter demo, with a log of the executed actions as its world.\<close>

definition tracing_engine :: "action list loop_engine" where
  "tracing_engine = (counter_engine (\<lambda>w. (''t0'', w)) (\<lambda>w. (0, w)) (\<lambda>w. (0, w)) (\<lambda>s. 0) (\<lambda>v. []) None)
     \<lparr>eng_executor := \<lambda>a s w. (fst (eng_executor quiet_counter_engine a s ()), w @ [a])\<rparr>"

lemma tracing_logs: "logs_actions tracing_engine (\<lambda>w. w)"
  by (simp add: logs_actions_def tracing_engine_def counter_engine_def)

theorem every_checkpoint_resumes_witness:
  "\<exists>s w'. run_engine still_counter_engine (counter_definition 3) ''run'' [] = Inr (Some (s, w')) \<and>
     (\<forall>c\<in>set w'. \<exists>c' bs. resume tracing_engine (c, []) = Some (c', bs) \<and> loop_terminal c' \<and>
        ls_action_count c' = ls_action_count c + int (length bs) \<and>
        (ls_iteration c < ls_iteration c' \<longrightarrow> prefix (pending c) bs))"
proof -
  from run_engine_Inr [OF counter_goal, of still_counter_engine "''run''" "[]"] obtain res where
    "run_engine still_counter_engine (counter_definition 3) ''run'' [] = Inr res" by blast
  with run_engine_result [OF this] obtain s w' where
    r: "run_engine still_counter_engine (counter_definition 3) ''run'' [] = Inr (Some (s, w'))" by blast
  from every_checkpoint_resumes [OF r still_logs _ tracing_logs, of "[]"] r show ?thesis by fastforce
qed

text \<open>
  The verifying phase stops a run for stagnation exactly when the new observation and the
  last \<open>limit - 1\<close> recorded ones have the same signature, where \<open>limit\<close> is the budget's
  \<open>max_repeated_observations\<close>, at least 2; otherwise the run goes on to its judge.
\<close>

theorem stagnation_stops_exactly:
  assumes "ls_phase (fst r) = LP_VERIFYING" "ls_status (fst r) = LS_RUNNING"
    and "eng_verifier E (fst r) (ls_iteration_results (fst r)) (snd r) = (Inr v, w)"
  shows "(let n = nat (max 2 (lb_max_repeated_observations (ld_budget (ls_definition (fst r))))) - 1;
              sigs = ls_observation_signatures (fst r); s' = fst (verify_phase E r)
          in if n \<le> length sigs \<and> (\<forall>x\<in>set (last_n n sigs). x = observation_signature (eng_digest E) v)
             then ls_status s' = LS_STOPPED \<and> ls_stop_reason s' = Some ''repeated_observation_stagnation''
             else ls_status s' = LS_RUNNING \<and> ls_phase s' = LP_JUDGING \<and>
               ls_latest_verification s' = Some v)"
proof -
  define r1 where "r1 = eng_record E ''verification_finished'' (verification_dict v)
                     ((fst r)\<lparr>ls_latest_verification := Some v\<rparr>, w)"
  define sig where "sig = observation_signature (eng_digest E) v"
  have st: "stagnation_stop_reason (fst r1) sig \<noteq> None \<longleftrightarrow>
      (let n = nat (max 2 (lb_max_repeated_observations (ld_budget (ls_definition (fst r))))) - 1
       in n \<le> length (ls_observation_signatures (fst r)) \<and>
          (\<forall>x\<in>set (last_n n (ls_observation_signatures (fst r))). x = sig))"
    using stagnation_iff [of "fst r1" sig] by (simp add: r1_def eng_record_fst)
  have val: "stagnation_stop_reason (fst r1) sig \<in> {None, Some ''repeated_observation_stagnation''}"
    by (simp add: stagnation_stop_reason_def Let_def)
  have eq: "verify_phase E r = (case stagnation_stop_reason (fst r1) sig of
        Some reason \<Rightarrow> eng_stop E reason ((fst r1)\<lparr>ls_observation_signatures :=
                      ls_observation_signatures (fst r1) @ [sig]\<rparr>, snd r1)
      | None \<Rightarrow> eng_checkpoint E ((fst r1)\<lparr>ls_observation_signatures :=
                      ls_observation_signatures (fst r1) @ [sig], ls_phase := LP_JUDGING\<rparr>, snd r1))"
    unfolding verify_phase_def Let_def r1_def sig_def using assms by simp
  show ?thesis
  proof (cases "stagnation_stop_reason (fst r1) sig")
    case None
    with st eq assms(2) show ?thesis
      by (simp add: Let_def sig_def [symmetric]) (simp add: r1_def eng_record_fst)
  next
    case (Some reason)
    with val have reason: "reason = ''repeated_observation_stagnation''" by simp
    define r2 where "r2 = ((fst r1)\<lparr>ls_observation_signatures :=
                      ls_observation_signatures (fst r1) @ [sig]\<rparr>, snd r1)"
    have "verify_phase E r = eng_stop E reason r2" using eq Some by (simp add: r2_def)
    then have "ls_status (fst (verify_phase E r)) = LS_STOPPED"
      "ls_stop_reason (fst (verify_phase E r)) = Some reason"
      by (simp_all add: eng_stop_keeps)
    with Some st reason show ?thesis by (simp add: Let_def sig_def [symmetric])
  qed
qed

text \<open>A demo state about to be verified, whose last observation had the empty signature.\<close>

definition verifying_state :: loop_state where
  "verifying_state = \<lparr>ls_run_id = ''r'', ls_definition = quiet_definition, ls_status = LS_RUNNING,
     ls_phase = LP_VERIFYING, ls_iteration = 2, ls_action_count = 2, ls_started_at = Some ''t'',
     ls_finished_at = None, ls_current_focus = ''g'', ls_latest_plan = Some counter_plan,
     ls_next_action_index = 1, ls_iteration_results = [], ls_action_results = [],
     ls_latest_verification = None, ls_latest_judgement = None,
     ls_observation_signatures = [[]], ls_stop_reason = None, ls_events = []\<rparr>"

theorem stagnation_stops_exactly_witness:
  "ls_stop_reason (fst (verify_phase quiet_counter_engine (verifying_state, ()))) =
     Some ''repeated_observation_stagnation''"
proof -
  have "eng_verifier quiet_counter_engine (fst (verifying_state, ()))
      (ls_iteration_results (fst (verifying_state, ()))) (snd (verifying_state, ())) =
    (Inr (counter_verify verifying_state []), ())"
    by (simp add: quiet_counter_engine_def counter_engine_def verifying_state_def)
  from stagnation_stops_exactly [OF _ _ this] show ?thesis
    by (simp add: verifying_state_def quiet_definition_def counter_definition_def last_n_def
        observation_signature_def quiet_counter_engine_def counter_engine_def Let_def)
qed

text \<open>
  A repair only passes its verification when every action of the iteration succeeded and the
  last \<open>run_verification\<close> among them neither timed out nor exited with a code other than 0;
  earlier verification runs do not count.
\<close>

theorem repair_passes_exactly:
  "vr_status (verify_repair_results rs) = ''passed'' \<longleftrightarrow>
     (\<forall>r\<in>set rs. ar_status r = ''ok'') \<and>
     (\<exists>xs r ys. rs = xs @ r # ys \<and> ac_tool (ar_action r) = ''run_verification'' \<and>
        (\<forall>y\<in>set ys. ac_tool (ar_action y) \<noteq> ''run_verification'') \<and>
        \<not> truthy (dget_or PNone (ar_output r) ''timed_out'') \<and>
        eq_num (dget_or PNone (ar_output r) ''exit_code'') 0)"
  by (rule repair_passed_iff)

definition verification_run :: "int \<Rightarrow> action_result" where
  "verification_run code = \<lparr>ar_action = \<lparr>ac_tool = ''run_verification'', ac_arguments = [], ac_reason = []\<rparr>,
     ar_status = ''ok'', ar_output = [(''exit_code'', PInt code), (''timed_out'', PBool False)],
     ar_error = None, ar_duration_seconds = 0\<rparr>"

theorem repair_passes_exactly_witness:
  "vr_status (verify_repair_results [verification_run 1, verification_run 0]) = ''passed''"
  unfolding repair_passes_exactly
proof (intro conjI exI)
  show "[verification_run 1, verification_run 0] = [verification_run 1] @ verification_run 0 # []" by simp
qed (simp_all add: verification_run_def dget_or_def eq_num_def)

end
