(* ===== verification/Json_Files.thy ===== *)
theory Json_Files
  imports Py_Prelude "HOL-Library.Countable"
begin

text \<open>
  What the program's JSON files have in common. \<open>json.dumps\<close> and \<open>json.loads\<close> are a pair of functions
  (\<open>None\<close> where \<open>loads\<close> raises), and a directory is a dictionary from file names to texts. The readers below are the conversions that the
  \<open>from_dict\<close> functions make. Every store of the program relies on one contract, that loading
  gives back what was saved up to the order in which it was written; it is the locale
  \<open>saved_file\<close>, interpreted by each store.
\<close>

section \<open>Files\<close>

record json_codec =
  jc_dumps :: "pyval \<Rightarrow> string"
  jc_loads :: "string \<Rightarrow> pyval option"

type_synonym directory = "(string \<times> string) list"

text \<open>A target is replaced by a temporary file, which is written beside it and then moved onto it. Checkpoints
  and task graphs are saved so; in the other stores replacing the target is one step.\<close>

definition replace_by_move :: "string \<Rightarrow> string \<Rightarrow> string \<Rightarrow> directory \<Rightarrow> directory" where
  "replace_by_move temporary target text files = dset target text (ddel temporary (dset temporary text files))"

lemma dget_replace_by_move [simp]:
  "dget (replace_by_move temporary target text files) k =
    (if k = target then Some text else if k = temporary then None else dget files k)"
  by (simp add: replace_by_move_def)

text \<open>What the stores rely on: \<open>loads\<close> reads what \<open>dumps\<close> writes, with or without a final newline.\<close>

definition codec_ok :: "json_codec \<Rightarrow> bool" where
  "codec_ok J \<longleftrightarrow> (\<forall>v. jc_loads J (jc_dumps J v) = Some v \<and> jc_loads J (jc_dumps J v @ [CHR 0x0A]) = Some v)"

lemma codec_loads: "codec_ok J \<Longrightarrow> jc_loads J (jc_dumps J v) = Some v"
  by (simp add: codec_ok_def)

lemma codec_loads_line: "codec_ok J \<Longrightarrow> jc_loads J (jc_dumps J v @ [CHR 0x0A]) = Some v"
  by (simp add: codec_ok_def)

text \<open>There is such a codec: values are countable.\<close>

instance pyfloat :: countable by countable_datatype
instance pyval :: countable by countable_datatype

definition tally_codec :: json_codec where
  "tally_codec = \<lparr>jc_dumps = (\<lambda>v. replicate (to_nat v) CHR ''x''),
     jc_loads = (\<lambda>s. Some (from_nat (length (filter (\<lambda>c. c = CHR ''x'') s))))\<rparr>"

lemma tally_codec_ok: "codec_ok tally_codec"
  by (simp add: codec_ok_def tally_codec_def)

text \<open>\<open>hexdigest()\<close>.\<close>

definition hex_byte :: "8 word \<Rightarrow> string" where
  "hex_byte b = [hex_char (unat b div 16), hex_char (unat b mod 16)]"

definition hexdigest :: "8 word list \<Rightarrow> string" where
  "hexdigest bs = concat (map hex_byte bs)"

section \<open>Reading values\<close>

fun as_str :: "pyval \<Rightarrow> string option" where
  "as_str (PStr s) = Some s"
| "as_str _ = None"

fun as_opt_str :: "pyval \<Rightarrow> string option option" where
  "as_opt_str PNone = Some None"
| "as_opt_str (PStr s) = Some (Some s)"
| "as_opt_str _ = None"

fun as_nat :: "pyval \<Rightarrow> nat option" where
  "as_nat (PInt i) = (if i < 0 then None else Some (nat i))"
| "as_nat _ = None"

fun as_dict :: "pyval \<Rightarrow> pydict option" where
  "as_dict (PDict d) = Some d"
| "as_dict _ = None"

fun as_list :: "pyval \<Rightarrow> pyval list option" where
  "as_list (PList xs) = Some xs"
| "as_list _ = None"

text \<open>\<open>[f(x) for x in xs]\<close> where \<open>f\<close> may raise.\<close>

fun map_all :: "('a \<Rightarrow> 'b option) \<Rightarrow> 'a list \<Rightarrow> 'b list option" where
  "map_all f [] = Some []"
| "map_all f (x # xs) = (case f x of None \<Rightarrow> None | Some y \<Rightarrow> map_option (Cons y) (map_all f xs))"

definition as_strs :: "pyval \<Rightarrow> string list option" where
  "as_strs v = Option.bind (as_list v) (map_all as_str)"

text \<open>A keyword argument with its default, and one without.\<close>

definition opt_arg :: "pydict \<Rightarrow> string \<Rightarrow> 'a \<Rightarrow> (pyval \<Rightarrow> 'a option) \<Rightarrow> 'a option" where
  "opt_arg d k dflt f = (case dget d k of None \<Rightarrow> Some dflt | Some v \<Rightarrow> f v)"

definition req_arg :: "pydict \<Rightarrow> string \<Rightarrow> (pyval \<Rightarrow> 'a option) \<Rightarrow> 'a option" where
  "req_arg d k f = Option.bind (dget d k) f"

text \<open>\<open>C(**d)\<close> raises on a key that is no field.\<close>

definition only_keys :: "string list \<Rightarrow> pydict \<Rightarrow> bool" where
  "only_keys ks d \<longleftrightarrow> set (dkeys d) \<subseteq> set ks"

section \<open>Operations that may raise\<close>

definition exc_bind :: "py_exc + 'a \<Rightarrow> ('a \<Rightarrow> py_exc + 'b) \<Rightarrow> py_exc + 'b" where
  "exc_bind x f = (case x of Inl e \<Rightarrow> Inl e | Inr v \<Rightarrow> f v)"

fun map_exc :: "('a \<Rightarrow> py_exc + 'b) \<Rightarrow> 'a list \<Rightarrow> py_exc + 'b list" where
  "map_exc f [] = Inr []"
| "map_exc f (x # xs) = exc_bind (f x) (\<lambda>y. exc_bind (map_exc f xs) (\<lambda>ys. Inr (y # ys)))"

text \<open>What the interpreter raises on a JSON value that does not have the shape the code expects
  stands for every exception it may raise there; \<open>d[k]\<close> on a missing key is a \<open>KeyError\<close>.\<close>

definition malformed :: "string \<Rightarrow> py_exc" where
  "malformed what = TypeError (''malformed '' @ what)"

definition field_exc :: "pydict \<Rightarrow> string \<Rightarrow> (pyval \<Rightarrow> 'a option) \<Rightarrow> py_exc + 'a" where
  "field_exc d k f = (case dget d k of
      None \<Rightarrow> Inl (PyExc ''KeyError'' (repr_str k))
    | Some v \<Rightarrow> (case f v of None \<Rightarrow> Inl (malformed k) | Some x \<Rightarrow> Inr x))"

lemma exc_bind_simps [simp]: "exc_bind (Inl e) f = Inl e" "exc_bind (Inr x) f = f x"
  by (simp_all add: exc_bind_def)

lemma exc_bind_Inr: "exc_bind x f = Inr y \<longleftrightarrow> (\<exists>v. x = Inr v \<and> f v = Inr y)"
  by (cases x) simp_all

lemma map_exc_Inr: "(\<And>x. x \<in> set xs \<Longrightarrow> f (g x) = Inr x) \<Longrightarrow> map_exc f (map g xs) = Inr xs"
  by (induction xs) auto

section \<open>Facts on the readers\<close>

lemma as_opt_str_popt [simp]: "as_opt_str (popt_str x) = Some x"
  by (cases x) (simp_all add: popt_str_def)

lemma map_all_Some: "(\<And>x. x \<in> set xs \<Longrightarrow> f (g x) = Some x) \<Longrightarrow> map_all f (map g xs) = Some xs"
  by (induction xs) auto

lemma as_strs_pstrs [simp]: "as_strs (pstrs xs) = Some xs"
  by (simp add: as_strs_def pstrs_def map_all_Some)

lemma dget_Cons [simp]: "dget ((k', v) # d) k = (if k' = k then Some v else dget d k)"
  by (auto simp: dget_def)

lemma distinct_map_sort_key [simp]: "distinct (map f (sort_key g xs)) = distinct (map f xs)"
  by (metis distinct_map distinct_sort set_sort)

lemma wf_sort_key [simp]: "wf_dict (sort_key g d) = wf_dict d"
  by (simp add: wf_dict_def)

section \<open>Interface: a file that gives back what was saved\<close>

text \<open>
  A store saves a value to its file and loads it again. What its clients rely on: a valid value is
  read back, in the order it was written, and that order is stable. Hence the last of a sequence
  of saves is what is loaded, and saving what was loaded changes nothing.
\<close>

locale saved_file =
  fixes load :: "directory \<Rightarrow> py_exc + 'r"
    and save :: "'r \<Rightarrow> directory \<Rightarrow> directory"
    and ok :: "'r \<Rightarrow> bool"
    and norm :: "'r \<Rightarrow> 'r"
  assumes load_save: "ok r \<Longrightarrow> load (save r d) = Inr (norm r)"
    and ok_norm: "ok r \<Longrightarrow> ok (norm r)"
    and norm_norm: "ok r \<Longrightarrow> norm (norm r) = norm r"
begin

lemma load_last_save:
  "rs \<noteq> [] \<Longrightarrow> \<forall>r\<in>set rs. ok r \<Longrightarrow> load (fold save rs d) = Inr (norm (last rs))"
  by (induction rs arbitrary: d rule: rev_induct) (auto simp: load_save)

lemma load_resave:
  "ok r \<Longrightarrow> load (save r d) = Inr r' \<Longrightarrow> load (save r' d') = Inr r' \<and> ok r'"
  using load_save [of r d] load_save [of "norm r" d'] by (auto simp: ok_norm norm_norm)

end

end
