(* ===== verification/Checkpoint_Store.thy ===== *)
theory Checkpoint_Store
  imports Loop_Provenance Json_Files
begin

text \<open>
  JSON checkpoints of loop states: \<open>LoopState.to_dict\<close> / \<open>from_dict\<close> (\<open>loop_engine/models.py\<close>) and
  \<open>JsonCheckpointStore\<close> (\<open>loop_engine/checkpoint.py\<close>). Directory and codec are those of
  \<open>Json_Files\<close>. Reading a dictionary back gives \<open>None\<close> where the code raises, and also for a
  field whose JSON value is not of the declared type, which the code would convert or keep.
\<close>

section \<open>Writing\<close>

definition loop_budget_dict :: "loop_budget \<Rightarrow> pydict" where
  "loop_budget_dict b = [(''max_iterations'', PInt (lb_max_iterations b)), (''max_actions'', PInt (lb_max_actions b)),
     (''timeout_seconds'', pnum (lb_timeout_seconds b)),
     (''max_repeated_observations'', PInt (lb_max_repeated_observations b))]"

definition loop_definition_dict :: "loop_definition \<Rightarrow> pydict" where
  "loop_definition_dict d = [(''goal'', PStr (ld_goal d)), (''success_criteria'', pstrs (ld_success_criteria d)),
     (''constraints'', pstrs (ld_constraints d)), (''budget'', PDict (loop_budget_dict (ld_budget d))),
     (''metadata'', PDict (ld_metadata d))]"

definition loop_event_dict :: "loop_event \<Rightarrow> pydict" where
  "loop_event_dict e = [(''sequence'', PInt (int (le_sequence e))), (''event_type'', PStr (le_event_type e)),
     (''iteration'', PInt (le_iteration e)), (''payload'', PDict (le_payload e)), (''timestamp'', PStr (le_timestamp e))]"

definition popt_dict :: "('a \<Rightarrow> pydict) \<Rightarrow> 'a option \<Rightarrow> pyval" where
  "popt_dict f x = (case x of None \<Rightarrow> PNone | Some v \<Rightarrow> PDict (f v))"

definition pdicts :: "('a \<Rightarrow> pydict) \<Rightarrow> 'a list \<Rightarrow> pyval" where
  "pdicts f xs = PList (map (\<lambda>x. PDict (f x)) xs)"

definition loop_state_dict :: "loop_state \<Rightarrow> pydict" where
  "loop_state_dict s = [(''run_id'', PStr (ls_run_id s)), (''definition'', PDict (loop_definition_dict (ls_definition s))),
     (''status'', PStr (loop_status_str (ls_status s))), (''phase'', PStr (loop_phase_str (ls_phase s))),
     (''iteration'', PInt (ls_iteration s)), (''action_count'', PInt (ls_action_count s)),
     (''started_at'', popt_str (ls_started_at s)), (''finished_at'', popt_str (ls_finished_at s)),
     (''current_focus'', PStr (ls_current_focus s)), (''latest_plan'', popt_dict plan_dict (ls_latest_plan s)),
     (''next_action_index'', PInt (ls_next_action_index s)),
     (''iteration_results'', pdicts action_result_dict (ls_iteration_results s)),
     (''action_results'', pdicts action_result_dict (ls_action_results s)),
     (''latest_verification'', popt_dict verification_dict (ls_latest_verification s)),
     (''latest_judgement'', popt_dict judgement_dict (ls_latest_judgement s)),
     (''observation_signatures'', pstrs (ls_observation_signatures s)), (''stop_reason'', popt_str (ls_stop_reason s)),
     (''events'', pdicts loop_event_dict (ls_events s))]"

section \<open>Reading\<close>

fun as_rat :: "pyval \<Rightarrow> rat option" where
  "as_rat (PFloat (FFin r)) = Some r"
| "as_rat (PInt i) = Some (of_int i)"
| "as_rat _ = None"

definition as_one_of :: "('a \<Rightarrow> string) \<Rightarrow> 'a list \<Rightarrow> pyval \<Rightarrow> 'a option" where
  "as_one_of str members v = Option.bind (as_str v) (\<lambda>s. find (\<lambda>m. str m = s) members)"

definition as_loop_status :: "pyval \<Rightarrow> loop_status option" where
  "as_loop_status = as_one_of loop_status_str [LS_READY, LS_RUNNING, LS_COMPLETED, LS_STOPPED, LS_FAILED]"

definition as_loop_phase :: "pyval \<Rightarrow> loop_phase option" where
  "as_loop_phase = as_one_of loop_phase_str
     [LP_READY, LP_PLANNING, LP_EXECUTING, LP_VERIFYING, LP_JUDGING, LP_TERMINAL]"

definition as_decision :: "pyval \<Rightarrow> decision option" where
  "as_decision = as_one_of decision_str [CONTINUE, COMPLETE, STOP, REPLAN]"

definition as_dicts :: "(pydict \<Rightarrow> 'a option) \<Rightarrow> pyval \<Rightarrow> 'a list option" where
  "as_dicts f v = Option.bind (as_list v) (map_all (\<lambda>x. Option.bind (as_dict x) f))"

definition as_opt_dict :: "(pydict \<Rightarrow> 'a option) \<Rightarrow> pyval \<Rightarrow> 'a option option" where
  "as_opt_dict f v = (case v of PNone \<Rightarrow> Some None | _ \<Rightarrow> map_option Some (Option.bind (as_dict v) f))"

definition loop_budget_from :: "pydict \<Rightarrow> loop_budget option" where
  "loop_budget_from d =
     (if \<not> only_keys [''max_iterations'', ''max_actions'', ''timeout_seconds'', ''max_repeated_observations''] d then None
      else Option.bind (opt_arg d ''max_iterations'' 6 plain_int) (\<lambda>iterations.
        Option.bind (opt_arg d ''max_actions'' 12 plain_int) (\<lambda>actions.
        Option.bind (opt_arg d ''timeout_seconds'' 300 as_rat) (\<lambda>timeout.
        Option.bind (opt_arg d ''max_repeated_observations'' 2 plain_int) (\<lambda>repeated.
          Some \<lparr>lb_max_iterations = iterations, lb_max_actions = actions, lb_timeout_seconds = timeout,
            lb_max_repeated_observations = repeated\<rparr>)))))"

definition loop_definition_from :: "pydict \<Rightarrow> loop_definition option" where
  "loop_definition_from d =
     (if \<not> only_keys [''goal'', ''success_criteria'', ''constraints'', ''budget'', ''metadata''] d then None
      else Option.bind (Option.bind (opt_arg d ''budget'' [] as_dict) loop_budget_from) (\<lambda>budget.
        Option.bind (req_arg d ''goal'' as_str) (\<lambda>goal.
        Option.bind (opt_arg d ''success_criteria'' [] as_strs) (\<lambda>criteria.
        Option.bind (opt_arg d ''constraints'' [] as_strs) (\<lambda>constraints.
        Option.bind (opt_arg d ''metadata'' [] as_dict) (\<lambda>metadata.
          Some \<lparr>ld_goal = goal, ld_success_criteria = criteria, ld_constraints = constraints, ld_budget = budget,
            ld_metadata = metadata\<rparr>))))))"

definition action_from :: "pydict \<Rightarrow> action option" where
  "action_from d =
     (if \<not> only_keys [''tool'', ''arguments'', ''reason''] d then None
      else Option.bind (req_arg d ''tool'' as_str) (\<lambda>tool.
        Option.bind (opt_arg d ''arguments'' [] as_dict) (\<lambda>args.
        Option.bind (opt_arg d ''reason'' [] as_str) (\<lambda>reason.
          Some \<lparr>ac_tool = tool, ac_arguments = args, ac_reason = reason\<rparr>))))"

definition plan_from :: "pydict \<Rightarrow> plan option" where
  "plan_from d =
     (if \<not> only_keys [''actions'', ''rationale'', ''expected_evidence''] d then None
      else Option.bind (opt_arg d ''actions'' [] (as_dicts action_from)) (\<lambda>actions.
        Option.bind (opt_arg d ''rationale'' [] as_str) (\<lambda>rationale.
        Option.bind (opt_arg d ''expected_evidence'' [] as_strs) (\<lambda>expected.
          Some \<lparr>pl_actions = actions, pl_rationale = rationale, pl_expected_evidence = expected\<rparr>))))"

definition action_result_from :: "pydict \<Rightarrow> action_result option" where
  "action_result_from d =
     (if \<not> only_keys [''action'', ''status'', ''output'', ''error'', ''duration_seconds''] d then None
      else Option.bind (Option.bind (req_arg d ''action'' as_dict) action_from) (\<lambda>a.
        Option.bind (req_arg d ''status'' as_str) (\<lambda>status.
        Option.bind (opt_arg d ''output'' [] as_dict) (\<lambda>out.
        Option.bind (opt_arg d ''error'' None as_opt_str) (\<lambda>error.
        Option.bind (opt_arg d ''duration_seconds'' 0 as_rat) (\<lambda>duration.
          Some \<lparr>ar_action = a, ar_status = status, ar_output = out, ar_error = error,
            ar_duration_seconds = duration\<rparr>))))))"

definition verification_from :: "pydict \<Rightarrow> verification_result option" where
  "verification_from d =
     (if \<not> only_keys [''status'', ''passed'', ''failed'', ''evidence''] d then None
      else Option.bind (req_arg d ''status'' as_str) (\<lambda>status.
        Option.bind (opt_arg d ''passed'' [] as_strs) (\<lambda>passed.
        Option.bind (opt_arg d ''failed'' [] as_strs) (\<lambda>failed.
        Option.bind (opt_arg d ''evidence'' [] as_dict) (\<lambda>evidence.
          Some \<lparr>vr_status = status, vr_passed = passed, vr_failed = failed, vr_evidence = evidence\<rparr>)))))"

definition judgement_from :: "pydict \<Rightarrow> judgement option" where
  "judgement_from d =
     (if \<not> only_keys [''decision'', ''reason'', ''progress_signals'', ''next_focus''] d then None
      else Option.bind (req_arg d ''decision'' as_decision) (\<lambda>decision.
        Option.bind (req_arg d ''reason'' as_str) (\<lambda>reason.
        Option.bind (opt_arg d ''progress_signals'' [] as_strs) (\<lambda>signals.
        Option.bind (opt_arg d ''next_focus'' None as_opt_str) (\<lambda>focus.
          Some \<lparr>jd_decision = decision, jd_reason = reason, jd_progress_signals = signals, jd_next_focus = focus\<rparr>)))))"

definition loop_event_from :: "pydict \<Rightarrow> loop_event option" where
  "loop_event_from d =
     (if \<not> only_keys [''sequence'', ''event_type'', ''iteration'', ''payload'', ''timestamp''] d then None
      else Option.bind (req_arg d ''sequence'' as_nat) (\<lambda>sequence.
        Option.bind (req_arg d ''event_type'' as_str) (\<lambda>event_type.
        Option.bind (req_arg d ''iteration'' plain_int) (\<lambda>iteration.
        Option.bind (req_arg d ''payload'' as_dict) (\<lambda>payload.
        Option.bind (req_arg d ''timestamp'' as_str) (\<lambda>timestamp.
          Some \<lparr>le_sequence = sequence, le_event_type = event_type, le_iteration = iteration,
            le_payload = payload, le_timestamp = timestamp\<rparr>))))))"

text \<open>
  \<open>from_dict\<close>. A state of a running loop without a phase comes from a version that did not record phases: its plan,
  position and results of the iteration are dropped, and it starts the next iteration afresh.
\<close>

definition default_phase :: "loop_status \<Rightarrow> loop_phase" where
  "default_phase st = (if st \<in> {LS_COMPLETED, LS_STOPPED, LS_FAILED} then LP_TERMINAL else LP_READY)"

definition loop_state_from :: "pydict \<Rightarrow> loop_state option" where
  "loop_state_from d =
     Option.bind (Option.bind (req_arg d ''definition'' as_dict) loop_definition_from) (\<lambda>definition.
     Option.bind (opt_arg d ''status'' LS_READY as_loop_status) (\<lambda>status.
     let legacy = (''phase'' \<notin> set (dkeys d) \<and> status = LS_RUNNING) in
     Option.bind (req_arg d ''run_id'' as_str) (\<lambda>run_id.
     Option.bind (opt_arg d ''phase'' (default_phase status) as_loop_phase) (\<lambda>phase.
     Option.bind (opt_arg d ''iteration'' 0 plain_int) (\<lambda>iteration.
     Option.bind (opt_arg d ''action_count'' 0 plain_int) (\<lambda>action_count.
     Option.bind (opt_arg d ''started_at'' None as_opt_str) (\<lambda>started_at.
     Option.bind (opt_arg d ''finished_at'' None as_opt_str) (\<lambda>finished_at.
     Option.bind (opt_arg d ''current_focus'' [] as_str) (\<lambda>focus.
     Option.bind (if legacy then Some None else opt_arg d ''latest_plan'' None (as_opt_dict plan_from)) (\<lambda>plan.
     Option.bind (if legacy then Some 0 else opt_arg d ''next_action_index'' 0 plain_int) (\<lambda>index.
     Option.bind (if legacy then Some [] else opt_arg d ''iteration_results'' [] (as_dicts action_result_from)) (\<lambda>iteration_results.
     Option.bind (opt_arg d ''action_results'' [] (as_dicts action_result_from)) (\<lambda>action_results.
     Option.bind (opt_arg d ''latest_verification'' None (as_opt_dict verification_from)) (\<lambda>verification.
     Option.bind (opt_arg d ''latest_judgement'' None (as_opt_dict judgement_from)) (\<lambda>judgement.
     Option.bind (opt_arg d ''observation_signatures'' [] as_strs) (\<lambda>signatures.
     Option.bind (opt_arg d ''stop_reason'' None as_opt_str) (\<lambda>stop_reason.
     Option.bind (opt_arg d ''events'' [] (as_dicts loop_event_from)) (\<lambda>events.
       Some \<lparr>ls_run_id = run_id, ls_definition = definition, ls_status = status, ls_phase = phase,
         ls_iteration = iteration, ls_action_count = action_count, ls_started_at = started_at,
         ls_finished_at = finished_at, ls_current_focus = focus, ls_latest_plan = plan, ls_next_action_index = index,
         ls_iteration_results = iteration_results, ls_action_results = action_results,
         ls_latest_verification = verification, ls_latest_judgement = judgement,
         ls_observation_signatures = signatures, ls_stop_reason = stop_reason, ls_events = events\<rparr>))))))))))))))))))"

section \<open>The store\<close>

definition run_id_char :: "char \<Rightarrow> bool" where
  "run_id_char c = (let n = (of_char c :: nat) in
     (65 \<le> n \<and> n \<le> 90) \<or> (97 \<le> n \<and> n \<le> 122) \<or> (48 \<le> n \<and> n \<le> 57) \<or> n = 95 \<or> n = 45)"

definition checkpoint_target :: "string \<Rightarrow> py_exc + string" where
  "checkpoint_target run_id = (if run_id \<noteq> [] \<and> list_all run_id_char run_id then Inr (run_id @ ''.json'')
     else Inl (ValueError ''run_id may contain only letters, digits, underscore, and hyphen''))"

definition checkpoint_save :: "json_codec \<Rightarrow> loop_state \<Rightarrow> directory \<Rightarrow> py_exc + directory" where
  "checkpoint_save J s files = exc_bind (checkpoint_target (ls_run_id s)) (\<lambda>target.
     Inr (replace_by_move (target @ ''.tmp'') target (jc_dumps J (PDict [(''schema_version'', PInt 1), (''state'', PDict (loop_state_dict s))])) files))"

definition checkpoint_load :: "json_codec \<Rightarrow> string \<Rightarrow> directory \<Rightarrow> py_exc + loop_state" where
  "checkpoint_load J run_id files = exc_bind (checkpoint_target run_id) (\<lambda>target.
     case dget files target of
       None \<Rightarrow> Inl (PyExc ''FileNotFoundError'' target)
     | Some text \<Rightarrow> (case Option.bind (jc_loads J text) as_dict of
         None \<Rightarrow> Inl (malformed ''checkpoint'')
       | Some payload \<Rightarrow> (case dget payload ''schema_version'' of
           None \<Rightarrow> (case loop_state_from payload of None \<Rightarrow> Inl (malformed ''state'') | Some s \<Rightarrow> Inr s)
         | Some version \<Rightarrow>
             if \<not> eq_num version 1 then Inl (ValueError ''unsupported checkpoint schema version'')
             else (case Option.bind (req_arg payload ''state'' as_dict) loop_state_from of
                 None \<Rightarrow> Inl (malformed ''state'') | Some s \<Rightarrow> Inr s))))"

section \<open>Round trip\<close>

lemma as_loop_status_str [simp]: "as_loop_status (PStr (loop_status_str s)) = Some s"
  by (cases s) (simp_all add: as_loop_status_def as_one_of_def loop_status_str_def)

lemma as_loop_phase_str [simp]: "as_loop_phase (PStr (loop_phase_str p)) = Some p"
  by (cases p) (simp_all add: as_loop_phase_def as_one_of_def loop_phase_str_def)

lemma as_decision_str [simp]: "as_decision (PStr (decision_str d)) = Some d"
  by (cases d) (simp_all add: as_decision_def as_one_of_def decision_str_def)

lemma as_dicts_pdicts: "(\<And>x. f (g x) = Some x) \<Longrightarrow> as_dicts f (pdicts g xs) = Some xs"
  by (simp add: as_dicts_def pdicts_def map_all_Some)

lemma as_opt_dict_popt: "(\<And>x. f (g x) = Some x) \<Longrightarrow> as_opt_dict f (popt_dict g x) = Some x"
  by (cases x) (simp_all add: as_opt_dict_def popt_dict_def)

lemmas reading = only_keys_def dkeys_def req_arg_def opt_arg_def

lemma budget_round_trip [simp]: "loop_budget_from (loop_budget_dict b) = Some b"
  by (simp add: loop_budget_from_def loop_budget_dict_def reading)

lemma definition_round_trip [simp]: "loop_definition_from (loop_definition_dict d) = Some d"
  by (simp add: loop_definition_from_def loop_definition_dict_def reading)

lemma action_round_trip [simp]: "action_from (action_dict a) = Some a"
  by (simp add: action_from_def action_dict_def reading)

lemma plan_round_trip [simp]: "plan_from (plan_dict p) = Some p"
  using as_dicts_pdicts [of action_from action_dict "pl_actions p"]
  by (simp add: plan_from_def plan_dict_def reading pdicts_def)

lemma action_result_round_trip [simp]: "action_result_from (action_result_dict r) = Some r"
  by (simp add: action_result_from_def action_result_dict_def reading)

lemma verification_round_trip [simp]: "verification_from (verification_dict v) = Some v"
  by (simp add: verification_from_def verification_dict_def reading)

lemma judgement_round_trip [simp]: "judgement_from (judgement_dict j) = Some j"
  by (simp add: judgement_from_def judgement_dict_def reading)

lemma event_round_trip [simp]: "loop_event_from (loop_event_dict e) = Some e"
  by (simp add: loop_event_from_def loop_event_dict_def reading)

lemma state_round_trip: "loop_state_from (loop_state_dict s) = Some s"
  by (simp add: loop_state_from_def loop_state_dict_def reading Let_def as_dicts_pdicts as_opt_dict_popt)

lemma checkpoint_round_trip:
  assumes "codec_ok J" "checkpoint_save J s files = Inr files'"
  shows "checkpoint_load J (ls_run_id s) files' = Inr s"
  using assms(2) by (auto simp: checkpoint_save_def checkpoint_load_def exc_bind_Inr codec_loads [OF assms(1)] req_arg_def
      eq_num_def state_round_trip)

interpretation checkpoint_file: saved_file "checkpoint_load J i"
  "\<lambda>s files. case checkpoint_save J s files of Inl e \<Rightarrow> files | Inr files' \<Rightarrow> files'"
  "\<lambda>s. codec_ok J \<and> ls_run_id s = i \<and> (\<exists>target. checkpoint_target i = Inr target)" "\<lambda>s. s" for J i
proof unfold_locales
  show "checkpoint_load J i (case checkpoint_save J s files of Inl e \<Rightarrow> files | Inr files' \<Rightarrow> files') = Inr s"
    if "codec_ok J \<and> ls_run_id s = i \<and> (\<exists>target. checkpoint_target i = Inr target)" for s files
  proof -
    from that obtain files' where save: "checkpoint_save J s files = Inr files'"
      by (auto simp: checkpoint_save_def)
    with checkpoint_round_trip [OF _ save] that show ?thesis by simp
  qed
qed simp_all

end
