(* ===== verification/Checkpoint_Properties.thy ===== *)
theory Checkpoint_Properties
  imports Checkpoint_Store Loop_Adapters
begin

text \<open>
  The loop engine on its JSON checkpoint store: what is on disk after a run is the state the run returned.
  The world of these engines is a pair of the directory and whatever else there is.
\<close>

section \<open>An engine that saves to a directory\<close>

definition file_store :: "json_codec \<Rightarrow> loop_state \<Rightarrow> 'w \<times> directory \<Rightarrow> 'w \<times> directory" where
  "file_store J s w = (fst w, case checkpoint_save J s (snd w) of Inl e \<Rightarrow> snd w | Inr files \<Rightarrow> files)"

text \<open>Its other ports leave the files alone.\<close>

definition leaves_files :: "('w \<times> directory) loop_engine \<Rightarrow> bool" where
  "leaves_files E \<longleftrightarrow> (\<forall>s w. snd (snd (eng_planner E s w)) = snd w) \<and> (\<forall>a s w. snd (snd (eng_executor E a s w)) = snd w) \<and>
     (\<forall>s rs w. snd (snd (eng_verifier E s rs w)) = snd w) \<and> (\<forall>s v w. snd (snd (eng_judge E s v w)) = snd w) \<and>
     (\<forall>w. snd (snd (eng_utc_now E w)) = snd w) \<and> (\<forall>w. snd (snd (eng_now E w)) = snd w) \<and>
     (\<forall>w. snd (snd (eng_perf_counter E w)) = snd w)"

definition saves_files :: "json_codec \<Rightarrow> ('w \<times> directory) loop_engine \<Rightarrow> bool" where
  "saves_files J E \<longleftrightarrow> eng_checkpoint_store E = Some (file_store J) \<and> leaves_files E"

definition checkpoint_text :: "json_codec \<Rightarrow> loop_state \<Rightarrow> string" where
  "checkpoint_text J s = jc_dumps J (PDict [(''schema_version'', PInt 1), (''state'', PDict (loop_state_dict s))])"

text \<open>A run with its id whose other files are as they were, save for the temporary one; and one that is saved.\<close>

definition in_run :: "string \<Rightarrow> directory \<Rightarrow> ('w \<times> directory) run \<Rightarrow> bool" where
  "in_run i files r \<longleftrightarrow> ls_run_id (fst r) = i \<and>
     (\<forall>k. k \<noteq> i @ ''.json'' \<longrightarrow> k \<noteq> i @ ''.json.tmp'' \<longrightarrow> dget (snd (snd r)) k = dget files k)"

definition is_saved :: "json_codec \<Rightarrow> string \<Rightarrow> directory \<Rightarrow> ('w \<times> directory) run \<Rightarrow> bool" where
  "is_saved J i files r \<longleftrightarrow> in_run i files r \<and> dget (snd (snd r)) (i @ ''.json'') = Some (checkpoint_text J (fst r)) \<and>
     dget (snd (snd r)) (i @ ''.json.tmp'') = None"

lemma is_saved_in_run: "is_saved J i files r \<Longrightarrow> in_run i files r"
  by (simp add: is_saved_def)

lemma in_run_step:
  "in_run i files r \<Longrightarrow> ls_run_id s = ls_run_id (fst r) \<Longrightarrow> snd w = snd (snd r) \<Longrightarrow> in_run i files (s, w)"
  by (simp add: in_run_def)

text \<open>An engine that saves to files, and a run id that names one.\<close>

definition saving :: "json_codec \<Rightarrow> ('w \<times> directory) loop_engine \<Rightarrow> string \<Rightarrow> bool" where
  "saving J E i \<longleftrightarrow> saves_files J E \<and> checkpoint_target i = Inr (i @ ''.json'')"

lemma quiet_ports:
  assumes "saving J E i"
  shows "snd (snd (eng_planner E s w)) = snd w" "snd (snd (eng_executor E a s w)) = snd w"
    "snd (snd (eng_verifier E s rs w)) = snd w" "snd (snd (eng_judge E s v w)) = snd w"
    "snd (snd (eng_utc_now E w)) = snd w" "snd (snd (eng_now E w)) = snd w" "snd (snd (eng_perf_counter E w)) = snd w"
  using assms unfolding saving_def saves_files_def leaves_files_def by metis+

lemma checkpoint_saves: "saving J E i \<Longrightarrow> in_run i files r \<Longrightarrow> is_saved J i files (eng_checkpoint E r)"
  by (auto simp: saving_def eng_checkpoint_def saves_files_def file_store_def checkpoint_save_def is_saved_def in_run_def
      checkpoint_text_def)

lemma record_in_run: "saving J E i \<Longrightarrow> in_run i files r \<Longrightarrow> in_run i files (eng_record E ty p r)"
  by (simp add: in_run_def eng_record_def case_prod_beta quiet_ports)

lemma checkpointed_record: "saving J E i \<Longrightarrow> in_run i files r \<Longrightarrow> is_saved J i files (eng_checkpoint E (eng_record E ty p r))"
  by (intro checkpoint_saves record_in_run)

lemma budget_saved: "saving J E i \<Longrightarrow> is_saved J i files r \<Longrightarrow> is_saved J i files (snd (eng_budget E c r))"
  by (simp add: eng_budget_def case_prod_beta is_saved_def in_run_def quiet_ports)

lemma stop_saves: "saving J E i \<Longrightarrow> in_run i files r \<Longrightarrow> is_saved J i files (eng_stop E reason r)"
  unfolding eng_stop_def Let_def case_prod_beta
  by (intro checkpointed_record in_run_step [where r = r]) (simp_all add: quiet_ports)

lemma fail_saves: "saving J E i \<Longrightarrow> in_run i files r \<Longrightarrow> is_saved J i files (eng_fail E reason r)"
  unfolding eng_fail_def Let_def case_prod_beta
  by (intro checkpointed_record in_run_step [where r = r]) (simp_all add: quiet_ports)

section \<open>Every phase ends with a checkpoint\<close>

lemma start_saves: "saving J E i \<Longrightarrow> is_saved J i files r \<Longrightarrow> is_saved J i files (start_iteration E r)"
  unfolding start_iteration_def Let_def
  by (simp, intro impI checkpointed_record in_run_step [where r = r] is_saved_in_run) simp_all

lemma execute_action_saves: "saving J E i \<Longrightarrow> is_saved J i files r \<Longrightarrow> is_saved J i files (execute_action E a r)"
  unfolding execute_action_def Let_def case_prod_beta
  by (intro checkpointed_record in_run_step [where r = r] is_saved_in_run) (simp_all add: quiet_ports)

lemma run_actions_saves: "saving J E i \<Longrightarrow> is_saved J i files r \<Longrightarrow> is_saved J i files (run_actions E as r)"
proof (induction as arbitrary: r)
  case (Cons a as)
  obtain b r1 where b: "eng_budget E False r = (b, r1)" by (metis surj_pair)
  then have "is_saved J i files r1" using budget_saved [OF Cons.prems, of False] by simp
  with b stop_saves [OF Cons.prems(1) is_saved_in_run] execute_action_saves [OF Cons.prems(1)] Cons.IH [OF Cons.prems(1)]
  show ?case by (cases b) simp_all
qed simp

lemma plan_saves:
  assumes "saving J E i" "is_saved J i files r"
  shows "is_saved J i files (plan_phase E r)"
proof -
  obtain x w where port: "eng_planner E (fst r) (snd r) = (x, w)" by (metis prod.collapse)
  have step: "in_run i files (s, w)" if "ls_run_id s = ls_run_id (fst r)" for s
    using in_run_step [OF is_saved_in_run [OF assms(2)] that] quiet_ports(1) [OF assms(1), of "fst r" "snd r"] port by simp
  show ?thesis
  proof (cases "ls_phase (fst r) = LP_PLANNING")
    case True
    show ?thesis
    proof (cases x)
      case (Inl e)
      then show ?thesis using True port fail_saves [OF assms(1) step] by (simp add: plan_phase_def)
    next
      case (Inr p)
      define r1 where "r1 = eng_record E ''plan_created'' (plan_dict p)
          ((fst r)\<lparr>ls_latest_plan := Some p, ls_next_action_index := 0, ls_iteration_results := []\<rparr>, w)"
      have r1: "in_run i files r1" unfolding r1_def by (intro record_in_run [OF assms(1)] step) simp
      have "in_run i files ((fst r1)\<lparr>ls_phase := LP_EXECUTING\<rparr>, snd r1)" by (rule in_run_step [OF r1]) simp_all
      with True port Inr show ?thesis
        using stop_saves [OF assms(1) r1] checkpoint_saves [OF assms(1)]
        by (simp add: plan_phase_def Let_def r1_def [symmetric])
    qed
  qed (use assms(2) in \<open>simp add: plan_phase_def\<close>)
qed

lemma execute_saves:
  assumes "saving J E i" "is_saved J i files r"
  shows "is_saved J i files (execute_phase E r)"
proof -
  note fails = fail_saves [OF assms(1) is_saved_in_run [OF assms(2)]]
  have "is_saved J i files (if ls_status (fst r1) \<noteq> LS_RUNNING then r1
      else eng_checkpoint E ((fst r1)\<lparr>ls_phase := LP_VERIFYING\<rparr>, snd r1))" if "r1 = run_actions E as r" for as r1
  proof -
    have r1: "is_saved J i files r1" unfolding that by (rule run_actions_saves [OF assms])
    have "in_run i files ((fst r1)\<lparr>ls_phase := LP_VERIFYING\<rparr>, snd r1)"
      by (rule in_run_step [OF is_saved_in_run [OF r1]]) simp_all
    with r1 show ?thesis using checkpoint_saves [OF assms(1)] by simp
  qed
  with fails assms(2) show ?thesis by (simp add: execute_phase_def Let_def split: option.split)
qed

lemma verify_saves:
  assumes "saving J E i" "is_saved J i files r"
  shows "is_saved J i files (verify_phase E r)"
proof -
  obtain x w where port: "eng_verifier E (fst r) (ls_iteration_results (fst r)) (snd r) = (x, w)" by (metis prod.collapse)
  have step: "in_run i files (s, w)" if "ls_run_id s = ls_run_id (fst r)" for s
    using in_run_step [OF is_saved_in_run [OF assms(2)] that]
      quiet_ports(3) [OF assms(1), of "fst r" "ls_iteration_results (fst r)" "snd r"] port by simp
  show ?thesis
  proof (cases "ls_phase (fst r) = LP_VERIFYING")
    case True
    show ?thesis
    proof (cases x)
      case (Inl e)
      then show ?thesis using True port fail_saves [OF assms(1) step] by (simp add: verify_phase_def)
    next
      case (Inr v)
      define r1 where "r1 = eng_record E ''verification_finished'' (verification_dict v)
                     ((fst r)\<lparr>ls_latest_verification := Some v\<rparr>, w)"
      have r1: "in_run i files r1" unfolding r1_def by (intro record_in_run [OF assms(1)] step) simp
      have "in_run i files (s, snd r1)" if "ls_run_id s = ls_run_id (fst r1)" for s by (rule in_run_step [OF r1 that]) simp
      then show ?thesis
        using True port Inr stop_saves [OF assms(1)] checkpoint_saves [OF assms(1)]
        by (simp add: verify_phase_def Let_def r1_def [symmetric] split: option.split)
    qed
  qed (use assms(2) in \<open>simp add: verify_phase_def\<close>)
qed

lemma judgement_in_run:
  assumes "saving J E i" "in_run i files r"
  shows "in_run i files (apply_judgement E j r)"
proof -
  obtain t w where t: "eng_utc_now E (snd r) = (t, w)" by (metis prod.collapse)
  then have "snd w = snd (snd r)" using quiet_ports(5) [OF assms(1), of "snd r"] by simp
  then have "in_run i files (s, w) \<and> in_run i files (s, snd r)" if "ls_run_id s = ls_run_id (fst r)" for s
    using in_run_step [OF assms(2) that] by blast
  then show ?thesis
    using t is_saved_in_run [OF stop_saves [OF assms]] record_in_run [OF assms(1)]
    by (simp add: apply_judgement_def Let_def)
qed

lemma judge_saves:
  assumes "saving J E i" "is_saved J i files r"
  shows "is_saved J i files (judge_phase E r)"
proof (cases "ls_phase (fst r) = LP_JUDGING")
  case True
  note fails = fail_saves [OF assms(1) is_saved_in_run [OF assms(2)]]
  show ?thesis
  proof (cases "ls_latest_verification (fst r)")
    case (Some v)
    obtain x w where port: "eng_judge E (fst r) v (snd r) = (x, w)" by (metis prod.collapse)
    have step: "in_run i files (s, w)" if "ls_run_id s = ls_run_id (fst r)" for s
      using in_run_step [OF is_saved_in_run [OF assms(2)] that] quiet_ports(4) [OF assms(1), of "fst r" v "snd r"] port by simp
    then have "in_run i files (apply_judgement E j
        (eng_record E ''judgement_created'' (judgement_dict j) ((fst r)\<lparr>ls_latest_judgement := Some j\<rparr>, w)))" for j
      by (intro judgement_in_run [OF assms(1)] record_in_run [OF assms(1)]) simp
    then show ?thesis using True Some port fail_saves [OF assms(1) step] checkpoint_saves [OF assms(1)]
      by (cases x) (simp_all add: judge_phase_def)
  qed (use True fails in \<open>simp add: judge_phase_def\<close>)
qed (use assms(2) in \<open>simp add: judge_phase_def\<close>)

lemmas phases_save = judge_saves verify_saves execute_saves plan_saves start_saves

lemma pass_saves:
  assumes "saving J E i" "is_saved J i files r"
  shows "is_saved J i files (loop_pass E r)"
proof -
  obtain b r1 where b: "eng_budget E (ls_phase (fst r) = LP_READY) r = (b, r1)" by (metis surj_pair)
  then have r1: "is_saved J i files r1" using budget_saved [OF assms, of "ls_phase (fst r) = LP_READY"] by simp
  show ?thesis
  proof (cases b)
    case None
    have "is_saved J i files (judge_phase E (verify_phase E (execute_phase E (plan_phase E (start_iteration E r1)))))"
      by (intro phases_save assms(1) r1)
    with b None show ?thesis by (simp add: loop_pass_def)
  qed (use b stop_saves [OF assms(1) is_saved_in_run [OF r1]] in \<open>simp add: loop_pass_def\<close>)
qed

lemma loop_saves:
  assumes "run_loop E r = Some r'" "saving J E i" "is_saved J i files r"
  shows "is_saved J i files r'"
proof -
  let ?G = "\<lambda>E r r'. saving J E i \<longrightarrow> is_saved J i files r \<longrightarrow> is_saved J i files r'"
  have "?G E r r'"
  proof (rule run_loop.raw_induct [where P = ?G, OF _ assms(1)], intro impI)
    fix f E r r'
    assume IH: "\<And>E r r'. f E r = Some r' \<Longrightarrow> ?G E r r'"
      and eq: "(if ls_status (fst r) = LS_RUNNING then f E (loop_pass E r) else Some r) = Some r'"
      and pre: "saving J E i" "is_saved J i files r"
    show "is_saved J i files r'"
    proof (cases "ls_status (fst r) = LS_RUNNING")
      case True
      with eq have "f E (loop_pass E r) = Some r'" by simp
      from IH [OF this] pre pass_saves [OF pre] show ?thesis by blast
    qed (use eq pre in simp)
  qed
  with assms(2,3) show ?thesis by blast
qed

lemma begin_saves:
  assumes "saving J E i" "in_run i files r"
  shows "is_saved J i files (begin_run E r)"
proof -
  obtain t w where t: "eng_utc_now E (snd r) = (t, w)" by (metis prod.collapse)
  define r1 where "r1 = (if ls_started_at (fst r) = None then ((fst r)\<lparr>ls_started_at := Some t\<rparr>, w) else r)"
  have "in_run i files r1"
    using assms(2) in_run_step [OF assms(2), of "(fst r)\<lparr>ls_started_at := Some t\<rparr>" w] quiet_ports(5) [OF assms(1), of "snd r"] t
    by (simp add: r1_def)
  then have "in_run i files ((fst r1)\<lparr>ls_status := LS_RUNNING\<rparr>, snd r1)" by (rule in_run_step) simp_all
  moreover have "\<exists>ty p. begin_run E r = eng_checkpoint E (eng_record E ty p ((fst r1)\<lparr>ls_status := LS_RUNNING\<rparr>, snd r1))"
    using t by (cases "ls_started_at (fst r) = None") (auto simp: begin_run_def Let_def r1_def)
  ultimately show ?thesis using checkpointed_record [OF assms(1)] by fastforce
qed

section \<open>Property\<close>

text \<open>
  C26: with a codec that reads what it writes, the file of a run holds, when the run returns, exactly the state
  that it returned: loading it by the run id gives that state back. Every checkpoint is written to the run's
  temporary file and moved: a file of that name is overwritten and gone at the end; no file of any other name has
  changed. This is for a run id that the store accepts, and an engine whose other ports leave the directory alone.
\<close>

theorem run_ends_checkpointed:
  assumes "codec_ok J" "saves_files J E" "checkpoint_target i = Inr (i @ ''.json'')"
    "run_engine E d i (u, files) = Inr (Some (s, (u', files')))"
  shows "checkpoint_load J i files' = Inr s \<and> dget files' (i @ ''.json.tmp'') = None \<and>
    (\<forall>k. k \<noteq> i @ ''.json'' \<longrightarrow> k \<noteq> i @ ''.json.tmp'' \<longrightarrow> dget files' k = dget files k)"
proof -
  have saving: "saving J E i" using assms(2,3) by (simp add: saving_def)
  from assms(4) obtain s0 where s0: "create_state d i = Inr s0" and res: "resume E (s0, (u, files)) = Some (s, (u', files'))"
    by (auto simp: run_engine_def split: sum.splits)
  have "\<not> loop_terminal s0" "ls_run_id s0 = i"
    using s0 by (auto simp: create_state_def Let_def loop_terminal_def split: if_splits)
  then have "run_loop E (begin_run E (s0, (u, files))) = Some (s, (u', files'))" "in_run i files (s0, (u, files))"
    using res by (simp_all add: resume_def in_run_def)
  then have "is_saved J i files (s, (u', files'))"
    using loop_saves [OF _ saving] begin_saves [OF saving] by blast
  then show ?thesis
    by (auto simp: is_saved_def in_run_def checkpoint_load_def assms(3) checkpoint_text_def codec_loads [OF assms(1)]
        req_arg_def eq_num_def state_round_trip)
qed

text \<open>The counter demo on such a store.\<close>

definition saved_counter :: "(unit \<times> directory) loop_engine" where
  "saved_counter = counter_engine (\<lambda>w. (''t'', w)) (\<lambda>w. (0, w)) (\<lambda>w. (0, w)) (\<lambda>t. 0) (\<lambda>v. []) (Some (file_store tally_codec))"

theorem run_ends_checkpointed_witness:
  "\<exists>s files'. run_engine saved_counter (counter_definition 2) ''run'' ((), [(''other.json'', ''x''), (''run.json.tmp'', ''old'')]) = Inr (Some (s, ((), files'))) \<and>
     checkpoint_load tally_codec ''run'' files' = Inr s \<and> dget files' ''other.json'' = Some ''x'' \<and> dget files' ''run.json.tmp'' = None"
proof -
  have "strip (ld_goal (counter_definition 2)) \<noteq> []" by code_simp
  from run_engine_Inr [OF this, of saved_counter "''run''" "((), [(''other.json'', ''x''), (''run.json.tmp'', ''old'')])"] obtain res where
    "run_engine saved_counter (counter_definition 2) ''run'' ((), [(''other.json'', ''x''), (''run.json.tmp'', ''old'')]) = Inr res" by blast
  with run_engine_result [OF this] obtain s and w' :: "unit \<times> directory" where
    "run_engine saved_counter (counter_definition 2) ''run'' ((), [(''other.json'', ''x''), (''run.json.tmp'', ''old'')]) = Inr (Some (s, w'))" by blast
  then obtain files' where
    run: "run_engine saved_counter (counter_definition 2) ''run'' ((), [(''other.json'', ''x''), (''run.json.tmp'', ''old'')]) = Inr (Some (s, ((), files')))"
    by (cases w') simp
  have "saves_files tally_codec saved_counter"
    by (simp add: saves_files_def leaves_files_def saved_counter_def counter_engine_def execute_tool_def
        increment_def Let_def split: option.split)
  moreover have "checkpoint_target ''run'' = Inr (''run'' @ ''.json'')" by code_simp
  ultimately show ?thesis using run_ends_checkpointed [OF tally_codec_ok _ _ run] run by simp
qed

end
