(* ===== verification/Task_Models.thy ===== *)
theory Task_Models
  imports Py_Prelude
begin

text \<open>
  The contracts of the task runtime (\<open>loop_engine/tasks/models.py\<close>) and its event log
  (\<open>loop_engine/tasks/events.py\<close>). A graph keeps its nodes in a dictionary, in insertion order;
  a node object of the code is addressed by its key. Counters that start at 0 and are only
  incremented are naturals, budgets (which the code checks for being positive) are integers.
\<close>

section \<open>Data\<close>

datatype task_status =
  TS_PENDING | TS_READY | TS_RUNNING | TS_WAITING | TS_COMPLETED | TS_FAILED | TS_BLOCKED

definition task_status_str :: "task_status \<Rightarrow> string" where
  "task_status_str s = (case s of TS_PENDING \<Rightarrow> ''pending'' | TS_READY \<Rightarrow> ''ready''
     | TS_RUNNING \<Rightarrow> ''running'' | TS_WAITING \<Rightarrow> ''waiting'' | TS_COMPLETED \<Rightarrow> ''completed''
     | TS_FAILED \<Rightarrow> ''failed'' | TS_BLOCKED \<Rightarrow> ''blocked'')"

record task_budget =
  tb_max_nodes :: int
  tb_max_depth :: int
  tb_max_leaf_executions :: int

definition default_task_budget :: task_budget where
  "default_task_budget = \<lparr>tb_max_nodes = 32, tb_max_depth = 5, tb_max_leaf_executions = 16\<rparr>"

record child_task_spec =
  cs_key :: string
  cs_goal :: string
  cs_success_criteria :: "string list"
  cs_required_capabilities :: "string list"
  cs_depends_on :: "string list"
  cs_metadata :: pydict

record atomic_leaf_spec =
  al_goal :: string
  al_success_criteria :: "string list"
  al_required_capabilities :: "string list"
  al_metadata :: pydict

record atomicity_decision =
  ad_is_atomic :: bool
  ad_reason :: string
  ad_children :: "child_task_spec list"
  ad_leaf :: "atomic_leaf_spec option"

record capability_resolution =
  cr_available :: "string list"
  cr_missing :: "string list"

record leaf_result =
  lr_status :: string
  lr_summary :: string
  lr_evidence :: pydict
  lr_error :: "string option"
  lr_retryable :: bool
  lr_retry_code :: "string option"
  lr_idempotency_key :: "string option"

record task_node =
  nd_id :: string
  nd_goal :: string
  nd_parent_id :: "string option"
  nd_success_criteria :: "string list"
  nd_required_capabilities :: "string list"
  nd_dependencies :: "string list"
  nd_children :: "string list"
  nd_status :: task_status
  nd_depth :: nat
  nd_attempts :: nat
  nd_retries :: nat
  nd_retry_started_at :: pyval
  nd_result :: "leaf_result option"
  nd_error :: "string option"
  nd_metadata :: pydict

record task_event =
  te_sequence :: nat
  te_event_type :: string
  te_node_id :: string
  te_payload :: pydict
  te_timestamp :: string

record task_graph =
  tg_id :: string
  tg_root_id :: string
  tg_nodes :: "(string \<times> task_node) list"
  tg_budget :: task_budget
  tg_leaf_executions :: nat
  tg_events :: "task_event list"
  tg_stop_reason :: "string option"

section \<open>Leaf results\<close>

text \<open>\<open>LeafExecutionResult.__post_init__\<close>, on a \<open>retryable\<close> argument of any type.\<close>

definition mk_leaf_result ::
  "string \<Rightarrow> string \<Rightarrow> pydict \<Rightarrow> string option \<Rightarrow> pyval \<Rightarrow> string option \<Rightarrow> string option
   \<Rightarrow> py_exc + leaf_result" where
  "mk_leaf_result status summary evidence error retryable retry_code idempotency_key =
     (case retryable of
        PBool True \<Rightarrow>
          let code = strip (str_or retry_code []); key = strip (str_or idempotency_key []) in
          if status \<notin> {''failed'', ''blocked''}
            then Inl (ValueError ''retryable leaf result must be failed or blocked'')
          else if code = [] \<or> key = []
            then Inl (ValueError ''retryable leaf result requires retry code and idempotency key'')
          else Inr \<lparr>lr_status = status, lr_summary = summary, lr_evidence = evidence,
             lr_error = error, lr_retryable = True, lr_retry_code = Some code,
             lr_idempotency_key = Some key\<rparr>
      | PBool False \<Rightarrow>
          if retry_code \<noteq> None \<or> idempotency_key \<noteq> None
            then Inl (ValueError ''non-retryable leaf result cannot carry retry fields'')
          else Inr \<lparr>lr_status = status, lr_summary = summary, lr_evidence = evidence,
             lr_error = error, lr_retryable = False, lr_retry_code = None,
             lr_idempotency_key = None\<rparr>
      | _ \<Rightarrow> Inl (TypeError ''leaf retryable must be boolean''))"

text \<open>The invariant the constructor establishes.\<close>

definition leaf_result_ok :: "leaf_result \<Rightarrow> bool" where
  "leaf_result_ok r =
     (if lr_retryable r then lr_status r \<in> {''failed'', ''blocked''} \<and>
        (\<exists>c k. lr_retry_code r = Some c \<and> lr_idempotency_key r = Some k \<and> c \<noteq> [] \<and> k \<noteq> [] \<and>
           strip c = c \<and> strip k = k)
      else lr_retry_code r = None \<and> lr_idempotency_key r = None)"

lemma mk_leaf_result_ok: "mk_leaf_result st sm ev er rt rc ik = Inr r \<Longrightarrow> leaf_result_ok r"
  by (auto simp: mk_leaf_result_def leaf_result_ok_def Let_def split: pyval.splits bool.splits if_splits)

text \<open>Constructing a result again from the fields of one, as loading a checkpoint does, gives
  the same result.\<close>

lemma mk_leaf_result_again:
  "leaf_result_ok r \<Longrightarrow> mk_leaf_result (lr_status r) (lr_summary r) (lr_evidence r) (lr_error r)
     (PBool (lr_retryable r)) (lr_retry_code r) (lr_idempotency_key r) = Inr r"
  by (cases "lr_retryable r") (auto simp: mk_leaf_result_def leaf_result_ok_def Let_def str_or_def
      split: list.splits)

text \<open>\<open>LeafExecutionResult(status=..., summary=..., error=...)\<close> without retry fields.\<close>

definition plain_result :: "string \<Rightarrow> string \<Rightarrow> string option \<Rightarrow> leaf_result" where
  "plain_result status summary error = \<lparr>lr_status = status, lr_summary = summary, lr_evidence = [],
     lr_error = error, lr_retryable = False, lr_retry_code = None, lr_idempotency_key = None\<rparr>"

lemma plain_result_made:
  "mk_leaf_result status summary [] error (PBool False) None None = Inr (plain_result status summary error)"
  by (simp add: mk_leaf_result_def plain_result_def)

section \<open>Graphs\<close>

definition new_node :: "string \<Rightarrow> string \<Rightarrow> task_node" where
  "new_node node_id goal = \<lparr>nd_id = node_id, nd_goal = goal, nd_parent_id = None, nd_success_criteria = [],
     nd_required_capabilities = [], nd_dependencies = [], nd_children = [],
     nd_status = TS_PENDING, nd_depth = 0, nd_attempts = 0, nd_retries = 0,
     nd_retry_started_at = PNone, nd_result = None, nd_error = None, nd_metadata = []\<rparr>"

text \<open>\<open>TaskGraph.create\<close>: the caller supplies the graph id (\<open>graph_id or uuid4().hex\<close>).\<close>

definition create_graph ::
  "string \<Rightarrow> string list \<Rightarrow> string list \<Rightarrow> task_budget option \<Rightarrow> string \<Rightarrow> py_exc + task_graph" where
  "create_graph goal criteria capabilities budget graph_id =
     (let normalized = strip goal in
      if normalized = [] then Inl (ValueError ''task graph goal is required'')
      else Inr \<lparr>tg_id = graph_id, tg_root_id = ''root'',
        tg_nodes = [(''root'', (new_node ''root'' normalized)\<lparr>nd_success_criteria := criteria,
           nd_required_capabilities := capabilities\<rparr>)],
        tg_budget = (case budget of None \<Rightarrow> default_task_budget | Some b \<Rightarrow> b),
        tg_leaf_executions = 0, tg_events = [], tg_stop_reason = None\<rparr>)"

definition node_at :: "task_graph \<Rightarrow> string \<Rightarrow> task_node option" where
  "node_at g k = dget (tg_nodes g) k"

text \<open>\<open>graph.nodes[k].status\<close>; a missing key, the code's \<open>KeyError\<close>, is \<open>None\<close>
  (validation excludes it before a run).\<close>

definition status_at :: "task_graph \<Rightarrow> string \<Rightarrow> task_status option" where
  "status_at g k = map_option nd_status (node_at g k)"

definition root_node :: "task_graph \<Rightarrow> task_node option" where
  "root_node g = node_at g (tg_root_id g)"

text \<open>Mutation of the node object stored under a key.\<close>

definition upd_node :: "string \<Rightarrow> (task_node \<Rightarrow> task_node) \<Rightarrow> task_graph \<Rightarrow> task_graph" where
  "upd_node k f g = g\<lparr>tg_nodes := dmod k f (tg_nodes g)\<rparr>"

definition terminal_status :: "task_status \<Rightarrow> bool" where
  "terminal_status s = (s \<in> {TS_COMPLETED, TS_FAILED, TS_BLOCKED})"

lemma terminal_status_simps [simp]:
  "terminal_status TS_COMPLETED" "terminal_status TS_FAILED" "terminal_status TS_BLOCKED"
  "\<not> terminal_status TS_PENDING" "\<not> terminal_status TS_READY" "\<not> terminal_status TS_RUNNING"
  "\<not> terminal_status TS_WAITING"
  by (simp_all add: terminal_status_def)

lemma node_at_upd [simp]:
  "node_at (upd_node k f g) k' = (if k' = k then map_option f (node_at g k) else node_at g k')"
  by (simp add: node_at_def upd_node_def)

lemma upd_node_fields [simp]:
  "tg_id (upd_node k f g) = tg_id g" "tg_root_id (upd_node k f g) = tg_root_id g"
  "tg_budget (upd_node k f g) = tg_budget g"
  "tg_leaf_executions (upd_node k f g) = tg_leaf_executions g"
  "tg_events (upd_node k f g) = tg_events g" "tg_stop_reason (upd_node k f g) = tg_stop_reason g"
  "dkeys (tg_nodes (upd_node k f g)) = dkeys (tg_nodes g)"
  "length (tg_nodes (upd_node k f g)) = length (tg_nodes g)"
  by (simp_all add: upd_node_def)

section \<open>Events\<close>

definition record_task_event :: "string \<times> string \<times> pydict \<times> string \<Rightarrow> task_graph \<Rightarrow> task_graph" where
  "record_task_event = (\<lambda>(event_type, node_id, payload, stamp) g.
     g\<lparr>tg_events := tg_events g @
        [\<lparr>te_sequence = length (tg_events g) + 1, te_event_type = event_type,
          te_node_id = node_id, te_payload = payload, te_timestamp = stamp\<rparr>]\<rparr>)"

interpretation task_log: event_log tg_events te_sequence record_task_event
  by unfold_locales (auto simp: record_task_event_def)

lemma record_task_event_fields [simp]:
  "tg_id (record_task_event x g) = tg_id g" "tg_root_id (record_task_event x g) = tg_root_id g"
  "tg_nodes (record_task_event x g) = tg_nodes g" "tg_budget (record_task_event x g) = tg_budget g"
  "tg_leaf_executions (record_task_event x g) = tg_leaf_executions g"
  "tg_stop_reason (record_task_event x g) = tg_stop_reason g"
  "node_at (record_task_event x g) k = node_at g k"
  by (simp_all add: record_task_event_def node_at_def split: prod.split)

lemma reason_node_at [simp]:
  "node_at (g\<lparr>tg_stop_reason := r\<rparr>) k = node_at g k"
  "node_at (g\<lparr>tg_leaf_executions := n\<rparr>) k = node_at g k"
  by (simp_all add: node_at_def)

lemma status_at_fields [simp]:
  "status_at (record_task_event x g) k = status_at g k"
  "status_at (g\<lparr>tg_stop_reason := r\<rparr>) k = status_at g k"
  "status_at (g\<lparr>tg_leaf_executions := n\<rparr>) k = status_at g k"
  by (simp_all add: status_at_def)

lemma status_at_upd [simp]:
  "status_at (upd_node k f g) k' =
     (if k' = k then map_option (nd_status \<circ> f) (node_at g k) else status_at g k')"
  by (simp add: status_at_def option.map_comp)

end
