(* ===== verification/Task_Decomposition.thy ===== *)
theory Task_Decomposition
  imports Task_Models
begin

text \<open>
  Validation of a graph before a run and the mutation of one decomposition decision
  (\<open>loop_engine/tasks/decomposition_graph.py\<close>). The depth-first cycle check is the code's
  recursion with the sets \<open>visiting\<close> and \<open>visited\<close> threaded through.
\<close>

section \<open>Validation\<close>

definition missing_references :: "task_graph \<Rightarrow> task_node \<Rightarrow> string list" where
  "missing_references g n =
     filter (\<lambda>k. k \<notin> set (dkeys (tg_nodes g))) (nd_dependencies n @ nd_children n)"

fun first_missing :: "task_graph \<Rightarrow> task_node list \<Rightarrow> py_exc option" where
  "first_missing g [] = None"
| "first_missing g (n # ns) = (if missing_references g n = [] then first_missing g ns
     else Some (ValueError (''task node '' @ nd_id n @ '' has missing references: '' @
       repr_str_list (missing_references g n))))"

definition validate_task_graph :: "task_graph \<Rightarrow> py_exc option" where
  "validate_task_graph g =
     (if tg_root_id g \<notin> set (dkeys (tg_nodes g)) then Some (ValueError ''task graph root is missing'')
      else if tb_max_nodes (tg_budget g) \<le> 0 \<or> tb_max_depth (tg_budget g) < 0
        then Some (ValueError ''invalid task graph budget'')
      else if tb_max_leaf_executions (tg_budget g) \<le> 0
        then Some (ValueError ''max_leaf_executions must be positive'')
      else if int (length (tg_nodes g)) > tb_max_nodes (tg_budget g)
        then Some (ValueError ''task graph already exceeds max_nodes'')
      else first_missing g (map snd (tg_nodes g)))"

section \<open>Dependencies among new children\<close>

text \<open>
  \<open>visit\<close> and the loop over its dependencies. The nested function of the code recurses until
  it meets \<open>visiting\<close> or \<open>visited\<close>; the fuel bounds the depth of the recursion by the number of
  keys, which \<open>visiting\<close> (a set of distinct keys) cannot exceed. \<open>None\<close> is the code's
  \<open>ValueError\<close> for a cycle, \<open>Some visited\<close> the set after the call.
\<close>

type_synonym dependency_table = "(string \<times> string list) list"

fun visit :: "nat \<Rightarrow> dependency_table \<Rightarrow> string set \<Rightarrow> string \<Rightarrow> string set \<Rightarrow> string set option"
  and visit_all :: "nat \<Rightarrow> dependency_table \<Rightarrow> string set \<Rightarrow> string list \<Rightarrow> string set \<Rightarrow> string set option"
where
  "visit 0 deps visiting key visited = None"
| "visit (Suc n) deps visiting key visited =
     (if key \<in> visiting then None
      else if key \<in> visited then Some visited
      else map_option (insert key)
             (visit_all n deps (insert key visiting) (dget_or [] deps key) visited))"
| "visit_all n deps visiting [] visited = Some visited"
| "visit_all n deps visiting (d # ds) visited =
     (case visit n deps visiting d visited of
        None \<Rightarrow> None
      | Some visited' \<Rightarrow> visit_all n deps visiting ds visited')"

definition dependency_table :: "child_task_spec list \<Rightarrow> dependency_table" where
  "dependency_table specs = fold (\<lambda>s d. dset (cs_key s) (cs_depends_on s) d) specs []"

definition validate_dependency_graph :: "child_task_spec list \<Rightarrow> py_exc option" where
  "validate_dependency_graph specs =
     (let deps = dependency_table specs in
      case visit_all (Suc (length deps)) deps {} (dkeys deps) {} of
        None \<Rightarrow> Some (ValueError ''child task dependencies contain a cycle'')
      | Some visited \<Rightarrow> None)"

section \<open>Adding children\<close>

definition child_id :: "string \<Rightarrow> string \<Rightarrow> string" where
  "child_id parent key = parent @ ''.'' @ key"

definition child_node :: "task_node \<Rightarrow> child_task_spec \<Rightarrow> task_node" where
  "child_node parent spec =
     (new_node (child_id (nd_id parent) (cs_key spec)) (cs_goal spec))
       \<lparr>nd_parent_id := Some (nd_id parent), nd_success_criteria := cs_success_criteria spec,
        nd_required_capabilities := cs_required_capabilities spec,
        nd_dependencies := map (child_id (nd_id parent)) (cs_depends_on spec),
        nd_depth := nd_depth parent + 1, nd_metadata := cs_metadata spec\<rparr>"

fun unknown_dependency :: "string set \<Rightarrow> child_task_spec list \<Rightarrow> py_exc option" where
  "unknown_dependency keys [] = None"
| "unknown_dependency keys (s # ss) =
     (if set (cs_depends_on s) - keys = {} then unknown_dependency keys ss
      else Some (ValueError (''unknown child dependencies for '' @ cs_key s @ '': '' @
        repr_str_list (sort (remdups (filter (\<lambda>k. k \<notin> keys) (cs_depends_on s)))))))"

definition add_child :: "string \<Rightarrow> task_node \<Rightarrow> child_task_spec \<Rightarrow> task_graph \<Rightarrow> task_graph" where
  "add_child k parent spec g =
     (let cid = child_id (nd_id parent) (cs_key spec);
          g1 = g\<lparr>tg_nodes := dset cid (child_node parent spec) (tg_nodes g)\<rparr>
      in upd_node k (\<lambda>n. n\<lparr>nd_children := nd_children n @ [cid]\<rparr>) g1)"

definition child_specs_error :: "child_task_spec list \<Rightarrow> py_exc option" where
  "child_specs_error specs =
     (let keys = map cs_key specs in
      if \<not> distinct keys \<or> (\<exists>key\<in>set keys. strip key = [])
        then Some (ValueError ''child task keys must be unique and non-empty'')
      else case unknown_dependency (set keys) specs of
          Some e \<Rightarrow> Some e
        | None \<Rightarrow> validate_dependency_graph specs)"

definition add_child_tasks ::
  "string \<Rightarrow> task_node \<Rightarrow> child_task_spec list \<Rightarrow> task_graph \<Rightarrow> py_exc + task_graph" where
  "add_child_tasks k parent specs g = (case child_specs_error specs of
      Some e \<Rightarrow> Inl e
    | None \<Rightarrow> Inr (fold (add_child k parent) specs g))"

section \<open>The cycle check\<close>

definition depends :: "dependency_table \<Rightarrow> (string \<times> string) set" where
  "depends deps = {(k, d). d \<in> set (dget_or [] deps k)}"

text \<open>A list of keys in which the dependencies of every key come before it.\<close>

inductive topo :: "dependency_table \<Rightarrow> string list \<Rightarrow> bool" for deps where
  topo_Nil: "topo deps []"
| topo_snoc: "topo deps xs \<Longrightarrow> k \<notin> set xs \<Longrightarrow> set (dget_or [] deps k) \<subseteq> set xs \<Longrightarrow> topo deps (xs @ [k])"

lemma topo_closed: "topo deps xs \<Longrightarrow> k \<in> set xs \<Longrightarrow> (k, d) \<in> depends deps \<Longrightarrow> d \<in> set xs"
  by (induction rule: topo.induct) (auto simp: depends_def)

lemma topo_reaches: "(k, d) \<in> (depends deps)\<^sup>+ \<Longrightarrow> topo deps xs \<Longrightarrow> k \<in> set xs \<Longrightarrow> d \<in> set xs"
  by (induction rule: trancl_induct) (auto intro: topo_closed)

lemma topo_no_cycle: "topo deps xs \<Longrightarrow> k \<in> set xs \<Longrightarrow> (k, k) \<notin> (depends deps)\<^sup>+"
proof (induction arbitrary: k rule: topo.induct)
  case (topo_snoc xs j)
  show ?case
  proof (cases "k \<in> set xs")
    case False
    with topo_snoc.prems have k: "k = j" by simp
    show ?thesis
    proof
      assume "(k, k) \<in> (depends deps)\<^sup>+"
      then obtain d where d: "(k, d) \<in> depends deps" "d = k \<or> (d, k) \<in> (depends deps)\<^sup>+"
        by (metis tranclD rtranclD)
      with k topo_snoc.hyps(3) have "d \<in> set xs" by (auto simp: depends_def)
      with d topo_reaches [OF _ topo_snoc.hyps(1)] False show False by blast
    qed
  qed (use topo_snoc in simp)
qed simp

lemma visit_topo:
  "visit n deps V k vis = Some vis' \<Longrightarrow> topo deps xs \<Longrightarrow> set xs = vis \<Longrightarrow>
     \<exists>ys. topo deps ys \<and> set ys = vis' \<and> vis \<subseteq> vis' \<and> k \<in> vis'"
  "visit_all n deps V ks vis = Some vis' \<Longrightarrow> topo deps xs \<Longrightarrow> set xs = vis \<Longrightarrow>
     \<exists>ys. topo deps ys \<and> set ys = vis' \<and> vis \<subseteq> vis' \<and> set ks \<subseteq> vis'"
proof (induction n deps V k vis and n deps V ks vis arbitrary: vis' xs and vis' xs
    rule: visit_visit_all.induct)
  case (2 n deps V k vis)
  show ?case
  proof (cases "k \<in> vis")
    case True
    with 2 show ?thesis by (auto split: if_splits)
  next
    case False
    with 2(2) have V: "k \<notin> V" by (auto split: if_splits)
    with False 2(2) obtain v1 where v1: "visit_all n deps (insert k V) (dget_or [] deps k) vis = Some v1"
      and vis': "vis' = insert k v1" by auto
    from 2(1) [OF V False v1 2(3,4)] obtain ys where ys: "topo deps ys" "set ys = v1" "vis \<subseteq> v1"
      "set (dget_or [] deps k) \<subseteq> v1" by blast
    show ?thesis
    proof (cases "k \<in> v1")
      case True
      with ys vis' show ?thesis by (intro exI [of _ ys]) auto
    next
      case False
      with ys vis' show ?thesis by (intro exI [of _ "ys @ [k]"]) (auto intro: topo_snoc)
    qed
  qed
next
  case (4 n deps V d ds vis)
  then obtain v1 where v1: "visit n deps V d vis = Some v1" and rest: "visit_all n deps V ds v1 = Some vis'"
    by (auto split: option.splits)
  from 4(1) [OF v1 4(4,5)] obtain ys where ys: "topo deps ys" "set ys = v1" "vis \<subseteq> v1" "d \<in> v1" by blast
  from 4(2) [OF v1 rest ys(1,2)] ys show ?case by auto
qed auto

lemma visit_finds_cycle:
  "visit n deps V k vis = None \<Longrightarrow> finite V \<Longrightarrow> V \<subseteq> K \<Longrightarrow> k \<in> K \<Longrightarrow> finite K \<Longrightarrow>
     card K < n + card V \<Longrightarrow> \<forall>j\<in>K. set (dget_or [] deps j) \<subseteq> K \<Longrightarrow>
     \<forall>v\<in>V. (v, k) \<in> (depends deps)\<^sup>+ \<Longrightarrow> \<not> acyclic (depends deps)"
  "visit_all n deps V ks vis = None \<Longrightarrow> finite V \<Longrightarrow> V \<subseteq> K \<Longrightarrow> set ks \<subseteq> K \<Longrightarrow> finite K \<Longrightarrow>
     card K < n + card V \<Longrightarrow> \<forall>j\<in>K. set (dget_or [] deps j) \<subseteq> K \<Longrightarrow>
     \<forall>v\<in>V. \<forall>k\<in>set ks. (v, k) \<in> (depends deps)\<^sup>+ \<Longrightarrow> \<not> acyclic (depends deps)"
proof (induction n deps V k vis and n deps V ks vis rule: visit_visit_all.induct)
  case (1 deps V k vis)
  then have "card V \<le> card K" by (intro card_mono) auto
  with 1 show ?case by simp
next
  case (2 n deps V k vis)
  show ?case
  proof (cases "k \<in> V")
    case True
    with 2 show ?thesis by (auto simp: acyclic_def)
  next
    case False
    with 2(2) have "k \<notin> vis" "visit_all n deps (insert k V) (dget_or [] deps k) vis = None"
      by (auto split: if_splits)
    moreover have "\<forall>v\<in>insert k V. \<forall>d\<in>set (dget_or [] deps k). (v, d) \<in> (depends deps)\<^sup>+"
    proof (intro ballI)
      fix v d assume v: "v \<in> insert k V" and d: "d \<in> set (dget_or [] deps k)"
      then have "(k, d) \<in> depends deps" by (simp add: depends_def)
      with v 2(9) show "(v, d) \<in> (depends deps)\<^sup>+" by (auto intro: trancl_into_trancl)
    qed
    ultimately show ?thesis using 2 False by (intro 2(1)) auto
  qed
next
  case (4 n deps V d ds vis)
  show ?case
  proof (cases "visit n deps V d vis")
    case None
    with 4 show ?thesis by (intro 4(1)) auto
  next
    case (Some v1)
    with 4 show ?thesis by (intro 4(2)) auto
  qed
qed simp

lemma visit_all_iff_acyclic:
  assumes "\<forall>j\<in>set (dkeys deps). set (dget_or [] deps j) \<subseteq> set (dkeys deps)"
  shows "visit_all (Suc (length deps)) deps {} (dkeys deps) {} \<noteq> None \<longleftrightarrow> acyclic (depends deps)"
proof
  assume "visit_all (Suc (length deps)) deps {} (dkeys deps) {} \<noteq> None"
  then obtain vis where "visit_all (Suc (length deps)) deps {} (dkeys deps) {} = Some vis" by blast
  from visit_topo(2) [OF this topo_Nil] obtain ys where ys: "topo deps ys" "set (dkeys deps) \<subseteq> set ys" by auto
  show "acyclic (depends deps)"
    unfolding acyclic_def
  proof (intro allI)
    fix k
    show "(k, k) \<notin> (depends deps)\<^sup>+"
    proof (cases "k \<in> set (dkeys deps)")
      case True
      with ys show ?thesis by (auto dest: topo_no_cycle)
    next
      case False
      then have "map_of deps k = None" by (simp add: dkeys_def map_of_eq_None_iff)
      then have "dget_or [] deps k = []" by (simp add: dget_or_def)
      then have "\<And>d. (k, d) \<notin> depends deps" by (simp add: depends_def)
      then show ?thesis by (metis tranclD)
    qed
  qed
next
  have "card (set (dkeys deps)) \<le> length deps"
    by (metis card_length dkeys_def length_map)
  then show "acyclic (depends deps) \<Longrightarrow> visit_all (Suc (length deps)) deps {} (dkeys deps) {} \<noteq> None"
    using visit_finds_cycle(2) [of "Suc (length deps)" deps "{}" "dkeys deps" "{}" "set (dkeys deps)"] assms
    by auto
qed

section \<open>What adding children changes\<close>

lemma unknown_dependency_None:
  "unknown_dependency keys specs = None \<longleftrightarrow> (\<forall>s\<in>set specs. set (cs_depends_on s) \<subseteq> keys)"
  by (induction specs) auto

lemma dependency_table_keys:
  "dkeys (dependency_table specs) = map cs_key specs"
  "\<forall>s\<in>set specs. dget_or [] (dependency_table specs) (cs_key s) = cs_depends_on s"
  if "distinct (map cs_key specs)"
proof -
  have "distinct (map cs_key specs) \<Longrightarrow> cs_key ` set specs \<inter> set (dkeys d) = {} \<Longrightarrow>
    fold (\<lambda>s d. dset (cs_key s) (cs_depends_on s) d) specs d = d @ map (\<lambda>s. (cs_key s, cs_depends_on s)) specs" for d
    by (induction specs arbitrary: d) (auto simp: dset_new dkeys_def)
  from this [OF that, of "[]"] have eq: "dependency_table specs = map (\<lambda>s. (cs_key s, cs_depends_on s)) specs"
    by (simp add: dependency_table_def dkeys_def)
  then show "dkeys (dependency_table specs) = map cs_key specs" by (simp add: dkeys_def)
  have "map_of (map (\<lambda>s. (cs_key s, cs_depends_on s)) specs) (cs_key s) = Some (cs_depends_on s)"
    if "s \<in> set specs" for s
    using \<open>distinct (map cs_key specs)\<close> that by (intro map_of_is_SomeI) (auto simp: comp_def)
  then show "\<forall>s\<in>set specs. dget_or [] (dependency_table specs) (cs_key s) = cs_depends_on s"
    by (simp add: eq dget_or_def)
qed

lemma dependency_graph_acyclic:
  assumes "distinct (map cs_key specs)" "\<forall>s\<in>set specs. set (cs_depends_on s) \<subseteq> cs_key ` set specs"
  shows "validate_dependency_graph specs = None \<longleftrightarrow>
    acyclic {(cs_key s, d) | s d. s \<in> set specs \<and> d \<in> set (cs_depends_on s)}"
proof -
  note keys = dependency_table_keys [OF assms(1)]
  have "set (dget_or [] (dependency_table specs) j) \<subseteq> set (dkeys (dependency_table specs))"
    if "j \<in> set (dkeys (dependency_table specs))" for j
  proof -
    from that keys(1) obtain s where "s \<in> set specs" "j = cs_key s" by auto
    with keys assms(2) show ?thesis by simp
  qed
  moreover have "depends (dependency_table specs) =
      {(cs_key s, d) | s d. s \<in> set specs \<and> d \<in> set (cs_depends_on s)}" (is "?R = ?S")
  proof
    show "?S \<subseteq> ?R" using keys(2) by (auto simp: depends_def)
    show "?R \<subseteq> ?S"
    proof
      fix kd assume "kd \<in> ?R"
      then obtain k d where kd: "kd = (k, d)" "d \<in> set (dget_or [] (dependency_table specs) k)"
        by (auto simp: depends_def)
      then have "map_of (dependency_table specs) k \<noteq> None"
        by (cases "map_of (dependency_table specs) k") (auto simp: dget_or_def)
      then have "k \<in> set (dkeys (dependency_table specs))"
        by (simp add: dkeys_def map_of_eq_None_iff)
      then obtain s where "s \<in> set specs" "k = cs_key s" using keys(1) by auto
      with kd keys(2) show "kd \<in> ?S" by auto
    qed
  qed
  ultimately show ?thesis
    using visit_all_iff_acyclic [of "dependency_table specs"]
    by (auto simp: validate_dependency_graph_def Let_def split: option.splits)
qed

lemma child_specs_ok:
  assumes "child_specs_error specs = None"
  shows "distinct (map cs_key specs)" "\<forall>s\<in>set specs. strip (cs_key s) \<noteq> []"
    "\<forall>s\<in>set specs. set (cs_depends_on s) \<subseteq> cs_key ` set specs"
  using assms by (auto simp: child_specs_error_def Let_def unknown_dependency_None
      split: if_splits option.splits)

lemma child_id_inj [simp]: "child_id p k = child_id p k' \<longleftrightarrow> k = k'"
  by (simp add: child_id_def)

lemma child_id_not_parent [simp]: "child_id p k \<noteq> p" "p \<noteq> child_id p k"
  by (simp_all add: child_id_def)

lemma add_child_fields [simp]:
  "tg_id (add_child k p s g) = tg_id g" "tg_root_id (add_child k p s g) = tg_root_id g"
  "tg_budget (add_child k p s g) = tg_budget g"
  "tg_leaf_executions (add_child k p s g) = tg_leaf_executions g"
  "tg_events (add_child k p s g) = tg_events g" "tg_stop_reason (add_child k p s g) = tg_stop_reason g"
  by (simp_all add: add_child_def Let_def)

lemma add_children_fields [simp]:
  "tg_id (fold (add_child k p) ss g) = tg_id g" "tg_root_id (fold (add_child k p) ss g) = tg_root_id g"
  "tg_budget (fold (add_child k p) ss g) = tg_budget g"
  "tg_leaf_executions (fold (add_child k p) ss g) = tg_leaf_executions g"
  "tg_events (fold (add_child k p) ss g) = tg_events g"
  "tg_stop_reason (fold (add_child k p) ss g) = tg_stop_reason g"
  by (induction ss arbitrary: g) simp_all

lemma node_at_add_child:
  assumes "nd_id p = k"
  shows "node_at (add_child k p s g) k' =
    (if k' = k then map_option (\<lambda>n. n\<lparr>nd_children := nd_children n @ [child_id k (cs_key s)]\<rparr>) (node_at g k)
     else if k' = child_id k (cs_key s) then Some (child_node p s) else node_at g k')"
  using assms by (simp add: add_child_def Let_def upd_node_def node_at_def)

lemma node_at_add_children:
  assumes "nd_id p = k" "distinct (map cs_key ss)"
  shows "node_at (fold (add_child k p) ss g) k' =
    (if k' = k then map_option (\<lambda>n. n\<lparr>nd_children := nd_children n @ map (child_id k \<circ> cs_key) ss\<rparr>) (node_at g k)
     else case find (\<lambda>s. child_id k (cs_key s) = k') ss of
       Some s \<Rightarrow> Some (child_node p s) | None \<Rightarrow> node_at g k')"
  using assms(2)
proof (induction ss arbitrary: g)
  case Nil
  show ?case by (cases "node_at g k") simp_all
next
  case (Cons s ss)
  have no: "find (\<lambda>s'. child_id k (cs_key s') = child_id k (cs_key s)) ss = None"
    using Cons.prems unfolding find_None_iff by (auto dest: image_eqI [OF sym])
  show ?case
  proof (cases "k' = k")
    case True
    with Cons assms(1) show ?thesis
      by (simp add: node_at_add_child option.map_comp) (simp add: comp_def)
  next
    case False
    with Cons assms(1) no show ?thesis
      by (auto simp: node_at_add_child split: option.split)
  qed
qed

lemma dkeys_add_children:
  "set (dkeys (tg_nodes (fold (add_child k p) ss g))) =
     set (dkeys (tg_nodes g)) \<union> (child_id (nd_id p) \<circ> cs_key) ` set ss"
  by (induction ss arbitrary: g) (auto simp: add_child_def Let_def upd_node_def dkeys_dset)

lemma wf_add_children:
  "wf_dict (tg_nodes g) \<Longrightarrow> wf_dict (tg_nodes (fold (add_child k p) ss g))"
  by (induction ss arbitrary: g) (auto simp: add_child_def Let_def upd_node_def)

lemma length_add_children:
  "length (tg_nodes g) \<le> length (tg_nodes (fold (add_child k p) ss g)) \<and>
   length (tg_nodes (fold (add_child k p) ss g)) \<le> length (tg_nodes g) + length ss"
proof (induction ss arbitrary: g)
  case (Cons s ss)
  from Cons [of "add_child k p s g"] show ?case
    by (auto simp: add_child_def Let_def upd_node_def length_dset split: if_splits)
qed simp

end
