(* ===== verification/Task_Retry.thy ===== *)
theory Task_Retry
  imports Task_Models
begin

text \<open>
  Bounded retry authority (\<open>loop_engine/tasks/retry.py\<close>): the validated policy, the decision
  whether one leaf may run again, its deterministic jitter and the event payloads. The policy's
  constructor takes the dynamic values Python hands to it. SHA-256 is an argument.
\<close>

section \<open>Policy\<close>

record retry_decision =
  rd_retry :: bool
  rd_reason :: string
  rd_delay_seconds :: rat
  rd_base_delay_seconds :: rat
  rd_jitter_seconds :: rat
  rd_elapsed_seconds :: rat
  rd_remaining_seconds :: "rat option"

definition no_retry :: "string \<Rightarrow> retry_decision" where
  "no_retry reason = \<lparr>rd_retry = False, rd_reason = reason, rd_delay_seconds = 0,
     rd_base_delay_seconds = 0, rd_jitter_seconds = 0, rd_elapsed_seconds = 0,
     rd_remaining_seconds = None\<rparr>"

record retry_policy =
  rp_max_attempts :: nat
  rp_codes :: "string set"
  rp_keys :: "(string \<times> string) list"
  rp_backoff :: "rat list"
  rp_window :: "rat option"
  rp_max_jitter :: rat
  rp_jitter_seed :: "string option"

text \<open>\<open>isinstance(v, (int, float)) ... isfinite(v)\<close> and a range check, for every value of a list.\<close>

fun numbers_between :: "rat \<Rightarrow> rat \<Rightarrow> pyval list \<Rightarrow> rat list option" where
  "numbers_between lo hi [] = Some []"
| "numbers_between lo hi (v # vs) = (case finite_num v of
      None \<Rightarrow> None
    | Some r \<Rightarrow> if r < lo \<or> r > hi then None
        else map_option (Cons r) (numbers_between lo hi vs))"

definition mk_retry_policy ::
  "pyval \<Rightarrow> string list \<Rightarrow> (string \<times> string) list \<Rightarrow> pyval list \<Rightarrow> pyval \<Rightarrow> pyval \<Rightarrow> string option
   \<Rightarrow> py_exc + retry_policy" where
  "mk_retry_policy max_attempts retryable_codes idempotency_keys backoff window jitter jitter_seed =
     (case plain_int max_attempts of
        None \<Rightarrow> Inl (ValueError ''retry max attempts must be between 2 and 10'')
      | Some attempts \<Rightarrow>
        if attempts < 2 \<or> attempts > 10
          then Inl (ValueError ''retry max attempts must be between 2 and 10'')
        else
          let codes = set (map strip retryable_codes);
              keys = fold (\<lambda>(n, k) d. dset (strip n) (strip k) d) idempotency_keys []
          in if codes = {} \<or> [] \<in> codes then Inl (ValueError ''retryable codes must be non-empty'')
          else if keys = [] \<or> (\<exists>kv\<in>set keys. fst kv = [] \<or> snd kv = [])
            then Inl (ValueError ''retry idempotency keys must be non-empty'')
          else if length keys \<noteq> length idempotency_keys
            then Inl (ValueError ''retry idempotency node ids must be unique'')
          else if int (length backoff) > attempts - 1
            then Inl (ValueError ''retry backoff schedule exceeds retry budget'')
          else (case numbers_between 0 3600 backoff of
              None \<Rightarrow> Inl (ValueError ''retry backoff delays must be between 0 and 3600 seconds'')
            | Some delays \<Rightarrow>
              if window \<noteq> PNone \<and> (case finite_num window of None \<Rightarrow> True | Some r \<Rightarrow> r \<le> 0 \<or> r > 86400)
                then Inl (ValueError ''retry elapsed deadline must be between 0 and 86400 seconds'')
              else (case finite_num jitter of
                  None \<Rightarrow> Inl (ValueError ''retry jitter must be between 0 and 3600 seconds'')
                | Some j \<Rightarrow>
                  let seed = strip (str_or jitter_seed []) in
                  if j < 0 \<or> j > 3600
                    then Inl (ValueError ''retry jitter must be between 0 and 3600 seconds'')
                  else if j > 0 \<and> seed = []
                    then Inl (ValueError ''retry jitter requires a non-empty seed'')
                  else if j = 0 \<and> jitter_seed \<noteq> None
                    then Inl (ValueError ''retry jitter seed requires positive jitter'')
                  else Inr \<lparr>rp_max_attempts = nat attempts, rp_codes = codes, rp_keys = keys,
                     rp_backoff = delays, rp_window = finite_num window, rp_max_jitter = j,
                     rp_jitter_seed = (if seed = [] then None else Some seed)\<rparr>)))"

definition retry_policy_ok :: "retry_policy \<Rightarrow> bool" where
  "retry_policy_ok p \<longleftrightarrow> 2 \<le> rp_max_attempts p \<and> rp_max_attempts p \<le> 10 \<and>
     rp_codes p \<noteq> {} \<and> [] \<notin> rp_codes p \<and> (\<forall>kv\<in>set (rp_keys p). fst kv \<noteq> [] \<and> snd kv \<noteq> []) \<and>
     length (rp_backoff p) < rp_max_attempts p \<and> (\<forall>d\<in>set (rp_backoff p). 0 \<le> d \<and> d \<le> 3600) \<and>
     (\<forall>w. rp_window p = Some w \<longrightarrow> 0 < w \<and> w \<le> 86400) \<and>
     0 \<le> rp_max_jitter p \<and> rp_max_jitter p \<le> 3600 \<and>
     (rp_max_jitter p > 0 \<longleftrightarrow> rp_jitter_seed p \<noteq> None)"

definition idempotency_key_for :: "retry_policy \<Rightarrow> string \<Rightarrow> string option" where
  "idempotency_key_for p node_id = dget (rp_keys p) node_id"

section \<open>Decisions\<close>

definition bytes_to_nat :: "8 word list \<Rightarrow> nat" where
  "bytes_to_nat bs = foldl (\<lambda>a b. a * 256 + unat b) 0 bs"

definition jitter_for ::
  "(8 word list \<Rightarrow> 8 word list) \<Rightarrow> retry_policy \<Rightarrow> string \<Rightarrow> string \<Rightarrow> nat \<Rightarrow> rat" where
  "jitter_for sha256 p graph_id node_id retries =
     (if rp_max_jitter p \<le> 0 then 0
      else let value = utf8 ((case rp_jitter_seed p of None \<Rightarrow> ''None'' | Some s \<Rightarrow> s) @ [CHR 0x00] @
                 graph_id @ [CHR 0x00] @ node_id @ [CHR 0x00] @ str_of_nat retries);
               sample = of_nat (bytes_to_nat (take 8 (sha256 value))) / of_nat (2 ^ 64 - 1)
           in sample * rp_max_jitter p)"

text \<open>The first half of \<open>decide\<close>: the reason for which the request is refused before any delay
  is computed.\<close>

definition retry_refusal :: "retry_policy \<Rightarrow> task_node \<Rightarrow> leaf_result \<Rightarrow> pyval \<Rightarrow> string option" where
  "retry_refusal p n result now =
     (if finite_num now = None then Some ''retry_clock_invalid''
      else if \<not> lr_retryable result then Some ''retry_not_requested''
      else if (case lr_retry_code result of None \<Rightarrow> True | Some c \<Rightarrow> c \<notin> rp_codes p)
        then Some ''retry_code_not_allowed''
      else case idempotency_key_for p (nd_id n) of
          None \<Rightarrow> Some ''retry_node_not_authorized''
        | Some expected \<Rightarrow>
          if lr_idempotency_key result \<noteq> Some expected then Some ''retry_idempotency_key_mismatch''
          else if nd_retries n \<ge> rp_max_attempts p - 1 then Some ''retry_attempt_budget_exhausted''
          else None)"

text \<open>The elapsed time a decision works with: 0 before the first retry, \<open>None\<close> when the node's
  start is no finite number.\<close>

definition retry_elapsed :: "task_node \<Rightarrow> rat \<Rightarrow> rat option" where
  "retry_elapsed n t = (if nd_retry_started_at n = PNone then Some 0
     else map_option (\<lambda>s. t - s) (finite_num (nd_retry_started_at n)))"

definition past_deadline :: "rat option \<Rightarrow> bool" where
  "past_deadline remaining = (case remaining of None \<Rightarrow> False | Some r \<Rightarrow> r \<le> 0)"

definition exceeds :: "rat \<Rightarrow> rat option \<Rightarrow> bool" where
  "exceeds delay remaining = (case remaining of None \<Rightarrow> False | Some r \<Rightarrow> delay > r)"

text \<open>The second half: delay, elapsed time and deadline.\<close>

definition retry_timing :: "rat \<Rightarrow> rat \<Rightarrow> rat option \<Rightarrow> rat option \<Rightarrow> retry_decision" where
  "retry_timing base jitter window elapsed_opt = (case elapsed_opt of
      None \<Rightarrow> no_retry ''retry_clock_invalid''
    | Some elapsed \<Rightarrow>
      if elapsed < 0 then no_retry ''retry_clock_regressed''
      else
        let delay = base + jitter; remaining = map_option (\<lambda>w. w - elapsed) window in
        if past_deadline remaining
          then (no_retry ''retry_elapsed_budget_exhausted'')
            \<lparr>rd_elapsed_seconds := elapsed, rd_remaining_seconds := map_option (max 0) remaining\<rparr>
        else \<lparr>rd_retry = \<not> exceeds delay remaining,
            rd_reason = (if exceeds delay remaining then ''retry_delay_exceeds_deadline''
               else ''retry_authorized''),
            rd_delay_seconds = delay, rd_base_delay_seconds = base, rd_jitter_seconds = jitter,
            rd_elapsed_seconds = elapsed, rd_remaining_seconds = remaining\<rparr>)"

definition base_delay :: "retry_policy \<Rightarrow> task_node \<Rightarrow> rat" where
  "base_delay p n =
     (if nd_retries n < length (rp_backoff p) then rp_backoff p ! nd_retries n else 0)"

definition retry_decide ::
  "(8 word list \<Rightarrow> 8 word list) \<Rightarrow> retry_policy \<Rightarrow> task_node \<Rightarrow> leaf_result \<Rightarrow> string \<Rightarrow> pyval \<Rightarrow> retry_decision"
where
  "retry_decide sha256 p n result graph_id now = (case retry_refusal p n result now of
      Some reason \<Rightarrow> no_retry reason
    | None \<Rightarrow> retry_timing (base_delay p n)
        (jitter_for sha256 p graph_id (nd_id n) (nd_retries n)) (rp_window p)
        (Option.bind (finite_num now) (retry_elapsed n)))"

definition evaluate_retry ::
  "(8 word list \<Rightarrow> 8 word list) \<Rightarrow> retry_policy option \<Rightarrow> task_node \<Rightarrow> leaf_result \<Rightarrow> string \<Rightarrow> pyval
   \<Rightarrow> retry_decision" where
  "evaluate_retry sha256 policy n result graph_id now = (case policy of
      None \<Rightarrow> no_retry ''retry_policy_missing''
    | Some p \<Rightarrow> retry_decide sha256 p n result graph_id now)"

definition retry_scheduled_payload ::
  "retry_policy \<Rightarrow> task_node \<Rightarrow> leaf_result \<Rightarrow> retry_decision \<Rightarrow> pydict" where
  "retry_scheduled_payload p n result d =
     [(''attempt'', PInt (int (nd_attempts n))), (''retry'', PInt (int (nd_retries n))),
      (''max_attempts'', PInt (int (rp_max_attempts p))),
      (''retry_code'', popt_str (lr_retry_code result)),
      (''idempotency_key'', popt_str (lr_idempotency_key result)),
      (''delay_seconds'', pnum (rd_delay_seconds d)),
      (''base_delay_seconds'', pnum (rd_base_delay_seconds d)),
      (''jitter_seconds'', pnum (rd_jitter_seconds d)),
      (''elapsed_seconds'', pnum (rd_elapsed_seconds d)),
      (''remaining_seconds'', popt_num (rd_remaining_seconds d))]"

definition retry_rejected_payload :: "retry_decision \<Rightarrow> leaf_result \<Rightarrow> pydict" where
  "retry_rejected_payload d result =
     [(''reason'', PStr (rd_reason d)), (''retry_code'', popt_str (lr_retry_code result)),
      (''elapsed_seconds'', pnum (rd_elapsed_seconds d)),
      (''remaining_seconds'', popt_num (rd_remaining_seconds d))]"

section \<open>The policy's constructor\<close>

lemma numbers_between_ok: "numbers_between lo hi vs = Some rs \<Longrightarrow>
    length rs = length vs \<and> (\<forall>r\<in>set rs. lo \<le> r \<and> r \<le> hi)"
  by (induction vs arbitrary: rs) (auto split: option.splits if_splits)

lemma finite_num_PNone [simp]: "finite_num v = Some r \<Longrightarrow> v \<noteq> PNone"
  by (cases v) auto

lemma mk_retry_policy_ok:
  assumes "mk_retry_policy ma codes keys backoff window jitter seed = Inr p"
  shows "retry_policy_ok p"
  using assms numbers_between_ok [of 0 3600 backoff]
  unfolding mk_retry_policy_def Let_def retry_policy_ok_def
  by (auto simp del: set_map split: option.split_asm if_split_asm)

section \<open>What a decision means\<close>

lemma bytes_to_nat_bound: "bytes_to_nat bs < 256 ^ length bs"
proof (induction bs rule: rev_induct)
  case (snoc b bs)
  have "unat b < 256" using unsigned_less [of b, where ?'a = nat] by simp
  with snoc show ?case by (simp add: bytes_to_nat_def)
qed (simp add: bytes_to_nat_def)

lemma jitter_bounds:
  assumes "0 \<le> rp_max_jitter p"
  shows "0 \<le> jitter_for sha p g n r \<and> jitter_for sha p g n r \<le> rp_max_jitter p"
proof (cases "rp_max_jitter p \<le> 0")
  case True
  with assms show ?thesis by (simp add: jitter_for_def)
next
  case False
  have le: "bytes_to_nat (take 8 bs) \<le> 2 ^ 64 - 1" for bs
  proof -
    have "bytes_to_nat (take 8 bs) < 256 ^ length (take 8 bs)" by (rule bytes_to_nat_bound)
    also have "\<dots> \<le> (256::nat) ^ 8" by (rule power_increasing) simp_all
    finally show ?thesis by simp
  qed
  have "(of_nat (bytes_to_nat (take 8 bs)) :: rat) / of_nat (2 ^ 64 - 1) \<le> 1" for bs
    using le [of bs] by (simp only: divide_le_eq_1 of_nat_le_iff) simp
  then show ?thesis
    using False assms mult_right_mono [of _ 1 "rp_max_jitter p"]
    by (simp add: jitter_for_def Let_def)
qed

definition retry_delay :: "(8 word list \<Rightarrow> 8 word list) \<Rightarrow> retry_policy \<Rightarrow> task_node \<Rightarrow> string \<Rightarrow> rat" where
  "retry_delay sha p n graph_id = base_delay p n + jitter_for sha p graph_id (nd_id n) (nd_retries n)"

lemma no_retry_False [simp]: "\<not> rd_retry (no_retry reason)"
  by (simp add: no_retry_def)

lemma retry_timing_iff:
  "rd_retry (retry_timing b j win e) \<longleftrightarrow> (\<exists>x. e = Some x \<and> 0 \<le> x \<and>
     (\<forall>w. win = Some w \<longrightarrow> x < w \<and> x + (b + j) \<le> w))"
  by (cases e; cases win) (auto simp: retry_timing_def Let_def past_deadline_def exceeds_def)

lemma retry_timing_delay:
  "rd_retry (retry_timing b j win e) \<Longrightarrow> rd_delay_seconds (retry_timing b j win e) = b + j"
  by (cases e) (auto simp: retry_timing_def Let_def split: if_splits)

lemma retry_refusal_None:
  "retry_refusal p n r now = None \<longleftrightarrow> finite_num now \<noteq> None \<and> lr_retryable r \<and>
     (\<exists>c. lr_retry_code r = Some c \<and> c \<in> rp_codes p) \<and>
     (\<exists>k. idempotency_key_for p (nd_id n) = Some k \<and> lr_idempotency_key r = Some k) \<and>
     nd_retries n < rp_max_attempts p - 1"
  by (auto simp: retry_refusal_def split: option.splits if_splits)

lemma retry_decide_iff:
  "rd_retry (retry_decide sha p n r gid now) \<longleftrightarrow>
     lr_retryable r \<and> (\<exists>c. lr_retry_code r = Some c \<and> c \<in> rp_codes p) \<and>
     (\<exists>k. idempotency_key_for p (nd_id n) = Some k \<and> lr_idempotency_key r = Some k) \<and>
     nd_retries n < rp_max_attempts p - 1 \<and>
     (\<exists>t e. finite_num now = Some t \<and> retry_elapsed n t = Some e \<and> 0 \<le> e \<and>
        (\<forall>w. rp_window p = Some w \<longrightarrow> e < w \<and> e + retry_delay sha p n gid \<le> w))"
proof (cases "retry_refusal p n r now")
  case None
  then show ?thesis
    using None unfolding retry_refusal_None
    by (auto simp: retry_decide_def None retry_timing_iff retry_delay_def)
next
  case (Some reason)
  then have "retry_refusal p n r now \<noteq> None" by simp
  then show ?thesis unfolding retry_refusal_None using Some by (auto simp: retry_decide_def)
qed

lemma retry_decide_delay:
  "rd_retry (retry_decide sha p n r gid now) \<Longrightarrow>
     rd_delay_seconds (retry_decide sha p n r gid now) = retry_delay sha p n gid"
  by (cases "retry_refusal p n r now")
    (simp_all add: retry_decide_def retry_delay_def retry_timing_delay)

lemma evaluate_retry_budget:
  "rd_retry (evaluate_retry sha (Some p) n r gid now) \<Longrightarrow> nd_retries n < rp_max_attempts p - 1"
  by (simp add: evaluate_retry_def retry_decide_iff)

lemma evaluate_retry_None [simp]: "\<not> rd_retry (evaluate_retry sha None n r gid now)"
  by (simp add: evaluate_retry_def no_retry_def)

lemma retry_delay_bounds:
  assumes "retry_policy_ok p"
  shows "0 \<le> retry_delay sha p n gid \<and> retry_delay sha p n gid \<le> 7200"
proof -
  have "0 \<le> base_delay p n \<and> base_delay p n \<le> 3600"
    using assms by (auto simp: retry_policy_ok_def base_delay_def)
  with jitter_bounds [of p sha gid "nd_id n" "nd_retries n"] assms show ?thesis
    unfolding retry_delay_def retry_policy_ok_def by linarith
qed

end
