(* ===== verification/Task_Parallel.thy ===== *)
theory Task_Parallel
  imports Task_Models
begin

text \<open>
  The execution policy for independent leaves (\<open>loop_engine/tasks/parallel.py\<close>): resource
  claims, the validated policy, the choice of a batch and its execution. The thread pool of
  \<open>execute_leaf_batch\<close> runs every leaf on its own copy of the graph, so a leaf sees the graph
  as it was when the batch started; the effects on the outside world are taken in submission
  order.
\<close>

section \<open>Resource claims\<close>

record resource_claim =
  rc_resource :: string
  rc_mode :: string

definition lower_char :: "char \<Rightarrow> char" where
  "lower_char c = (let n = (of_char c :: nat) in
     if (65 \<le> n \<and> n \<le> 90) \<or> (192 \<le> n \<and> n \<le> 222 \<and> n \<noteq> 215) then char_of (n + 32) else c)"

definition str_lower :: "string \<Rightarrow> string" where
  "str_lower s = map lower_char s"

definition mk_resource_claim :: "string \<Rightarrow> string \<Rightarrow> py_exc + resource_claim" where
  "mk_resource_claim resource mode =
     (let r = strip resource; m = str_lower (strip mode) in
      if r = [] then Inl (ValueError ''resource claim name is required'')
      else if m \<notin> {''read'', ''write''} then Inl (ValueError ''resource claim mode must be read or write'')
      else Inr \<lparr>rc_resource = r, rc_mode = m\<rparr>)"

text \<open>\<open>ResourceClaim.workspace\<close>: resolving the path is the operating system's part.\<close>

definition workspace_claim :: "(string \<Rightarrow> string) \<Rightarrow> string \<Rightarrow> string \<Rightarrow> py_exc + resource_claim" where
  "workspace_claim resolve path mode = mk_resource_claim (''workspace:'' @ resolve path) mode"

definition is_write :: "resource_claim \<Rightarrow> bool" where
  "is_write c = (rc_mode c = ''write'')"

text \<open>\<open>_claims_conflict\<close>: the dictionary of the left claims keeps the last mode of a resource.\<close>

definition claims_conflict :: "resource_claim list \<Rightarrow> resource_claim list \<Rightarrow> bool" where
  "claims_conflict left right =
     (let left_by_resource = fold (\<lambda>c d. dset (rc_resource c) (rc_mode c) d) left [] in
      \<exists>c\<in>set right. (case dget left_by_resource (rc_resource c) of
         None \<Rightarrow> False
       | Some mode \<Rightarrow> is_write c \<or> mode = ''write''))"

section \<open>Policy\<close>

record scheduler_policy =
  sp_max_parallel :: int
  sp_safe :: "string set"
  sp_mutation :: "string set"
  sp_claims :: "(string \<times> resource_claim list) list"

text \<open>\<open>_normalize_claims\<close>; a value that is no \<open>ResourceClaim\<close> is \<open>None\<close>.\<close>

fun normalize_claims ::
  "(string \<times> resource_claim option list) list \<Rightarrow> (string \<times> resource_claim list) list
   \<Rightarrow> py_exc + (string \<times> resource_claim list) list" where
  "normalize_claims [] acc = Inr acc"
| "normalize_claims ((node_id, vals) # rest) acc =
     (let key = strip node_id; cs = map the vals in
      if key = [] then Inl (ValueError ''resource claim node id is required'')
      else if dget acc key \<noteq> None
        then Inl (ValueError (''duplicate resource claim node id: '' @ key))
      else if None \<in> set vals then Inl (TypeError ''resource claims must contain ResourceClaim values'')
      else if \<not> distinct (map rc_resource cs)
        then Inl (ValueError (''resource claims must be unique for node: '' @ key))
      else normalize_claims rest (dset key cs acc))"

definition mk_scheduler_policy ::
  "int \<Rightarrow> string list \<Rightarrow> string list \<Rightarrow> (string \<times> resource_claim option list) list
   \<Rightarrow> py_exc + scheduler_policy" where
  "mk_scheduler_policy max_parallel safe_capabilities mutation_capabilities claims =
     (let safe = set (map strip safe_capabilities); mutations = set (map strip mutation_capabilities) in
      if max_parallel \<le> 0 then Inl (ValueError ''max_parallel_leaves must be positive'')
      else if [] \<in> safe then Inl (ValueError ''parallel-safe capability names must be non-empty'')
      else if max_parallel > 1 \<and> safe = {}
        then Inl (ValueError ''parallel_safe_capabilities are required for parallel execution'')
      else if [] \<in> mutations then Inl (ValueError ''mutation capability names must be non-empty'')
      else if \<not> mutations \<subseteq> safe
        then Inl (ValueError ''mutation_capabilities must be parallel-safe capabilities'')
      else case normalize_claims claims [] of
          Inl e \<Rightarrow> Inl e
        | Inr cs \<Rightarrow> Inr \<lparr>sp_max_parallel = max_parallel, sp_safe = safe, sp_mutation = mutations,
            sp_claims = cs\<rparr>)"

definition default_policy :: scheduler_policy where
  "default_policy = \<lparr>sp_max_parallel = 1, sp_safe = {}, sp_mutation = {}, sp_claims = []\<rparr>"

definition claims_for :: "scheduler_policy \<Rightarrow> task_node \<Rightarrow> resource_claim list" where
  "claims_for p n = dget_or [] (sp_claims p) (nd_id n)"

definition allows_parallel :: "scheduler_policy \<Rightarrow> task_node \<Rightarrow> bool" where
  "allows_parallel p n =
     (let capabilities = set (nd_required_capabilities n);
          admitted = sp_max_parallel p > 1 \<and> capabilities \<noteq> {} \<and> capabilities \<subseteq> sp_safe p
      in if \<not> admitted then False
         else if capabilities \<inter> sp_mutation p \<noteq> {} then list_ex is_write (claims_for p n)
         else True)"

section \<open>Choosing what runs next\<close>

text \<open>The loop over \<open>ready[1:]\<close> with its accumulators \<open>selected\<close> and \<open>selected_claims\<close>.\<close>

fun extend_batch ::
  "scheduler_policy \<Rightarrow> task_node list \<Rightarrow> task_node list \<Rightarrow> resource_claim list \<Rightarrow> task_node list" where
  "extend_batch p [] selected claims = selected"
| "extend_batch p (n # ns) selected claims =
     (if int (length selected) = sp_max_parallel p then selected
      else if allows_parallel p n \<and> \<not> claims_conflict claims (claims_for p n)
        then extend_batch p ns (selected @ [n]) (claims @ claims_for p n)
      else extend_batch p ns selected claims)"

text \<open>An empty \<open>ready\<close>, on which the code's \<open>ready[0]\<close> would raise, gives the empty batch;
  the scheduler never calls it so.\<close>

definition select_leaf_batch :: "task_node list \<Rightarrow> scheduler_policy \<Rightarrow> task_node list" where
  "select_leaf_batch candidates p =
     (case filter (\<lambda>n. nd_status n = TS_READY) candidates of
        [] \<Rightarrow> []
      | first # rest \<Rightarrow> if \<not> allows_parallel p first then [first]
          else extend_batch p rest [first] (claims_for p first))"

definition select_pending_candidate :: "task_node list \<Rightarrow> scheduler_policy \<Rightarrow> task_node option" where
  "select_pending_candidate candidates p =
     (if sp_max_parallel p = 1
      then (case candidates of first # rest \<Rightarrow>
              if nd_status first = TS_PENDING then Some first else None | [] \<Rightarrow> None)
      else find (\<lambda>n. nd_status n = TS_PENDING) candidates)"

section \<open>Executing a batch\<close>

type_synonym 'w leaf_executor = "task_node \<Rightarrow> task_graph \<Rightarrow> 'w \<Rightarrow> (py_exc + leaf_result) \<times> 'w"

definition execute_one ::
  "'w leaf_executor \<Rightarrow> task_node \<Rightarrow> task_graph \<Rightarrow> 'w \<Rightarrow> leaf_result \<times> 'w" where
  "execute_one executor n g w = (case executor n g w of
      (Inr r, w') \<Rightarrow> (r, w')
    | (Inl e, w') \<Rightarrow> (plain_result ''failed'' ''leaf executor raised an exception''
                       (Some (show_exc e)), w'))"

fun execute_all ::
  "'w leaf_executor \<Rightarrow> task_node list \<Rightarrow> task_graph \<Rightarrow> 'w \<Rightarrow> (string \<times> leaf_result) list \<times> 'w" where
  "execute_all executor [] g w = ([], w)"
| "execute_all executor (n # ns) g w =
     (let (r, w1) = execute_one executor n g w;
          (rs, w2) = execute_all executor ns g w1
      in ((nd_id n, r) # rs, w2))"

text \<open>\<open>snapshot\<close> is \<open>deepcopy\<close> of the nodes and the graph, which may raise.\<close>

definition execute_leaf_batch ::
  "'w leaf_executor \<Rightarrow> (task_graph \<Rightarrow> 'w \<Rightarrow> py_exc option \<times> 'w) \<Rightarrow> task_node list \<Rightarrow> task_graph \<Rightarrow> 'w
   \<Rightarrow> (string \<times> leaf_result) list \<times> 'w" where
  "execute_leaf_batch executor snapshot ns g w =
     (case ns of
        [] \<Rightarrow> ([], w)
      | [n] \<Rightarrow> execute_all executor [n] g w
      | _ \<Rightarrow> (case snapshot g w of
            (Some e, w1) \<Rightarrow> (map (\<lambda>n. (nd_id n, plain_result ''failed''
                ''parallel leaf snapshot failed'' (Some (show_exc e)))) ns, w1)
          | (None, w1) \<Rightarrow> execute_all executor ns g w1))"

section \<open>A validated policy\<close>

definition claims_unique :: "scheduler_policy \<Rightarrow> bool" where
  "claims_unique p \<longleftrightarrow> (\<forall>kc\<in>set (sp_claims p). distinct (map rc_resource (snd kc)))"

lemma normalize_claims_ok:
  "normalize_claims cs acc = Inr out \<Longrightarrow> wf_dict acc \<Longrightarrow>
   \<forall>kc\<in>set acc. fst kc \<noteq> [] \<and> distinct (map rc_resource (snd kc)) \<Longrightarrow>
   wf_dict out \<and> (\<forall>kc\<in>set out. fst kc \<noteq> [] \<and> distinct (map rc_resource (snd kc)))"
proof (induction cs acc rule: normalize_claims.induct)
  case (2 node_id vals rest acc)
  then have new: "strip node_id \<notin> set (dkeys acc)"
    by (auto simp: Let_def dget_None_iff [symmetric] split: if_splits)
  have "wf_dict (acc @ [(strip node_id, map the vals)])"
    using new 2(3) by (simp add: wf_dict_def dkeys_def)
  moreover have "\<forall>kc\<in>set (acc @ [(strip node_id, map the vals)]). fst kc \<noteq> [] \<and> distinct (map rc_resource (snd kc))"
    using 2(2,4) by (auto simp: Let_def split: if_split_asm)
  ultimately show ?case
    using 2(1) [OF refl refl] 2(2) new by (simp add: Let_def dset_new split: if_split_asm)
qed simp

definition policy_ok :: "scheduler_policy \<Rightarrow> bool" where
  "policy_ok p \<longleftrightarrow> 0 < sp_max_parallel p \<and> [] \<notin> sp_safe p \<and> sp_mutation p \<subseteq> sp_safe p \<and>
     (1 < sp_max_parallel p \<longrightarrow> sp_safe p \<noteq> {}) \<and> wf_dict (sp_claims p) \<and> claims_unique p"

lemma mk_scheduler_policy_ok: "mk_scheduler_policy m safe muts claims = Inr p \<Longrightarrow> policy_ok p"
  using normalize_claims_ok [of claims "[]"]
  by (auto simp: mk_scheduler_policy_def Let_def policy_ok_def claims_unique_def
      split: if_split_asm sum.split_asm) blast+

lemma default_policy_ok: "policy_ok default_policy"
  by (simp add: policy_ok_def default_policy_def claims_unique_def)

section \<open>Conflicts\<close>

text \<open>Two claims conflict when they name the same resource and one of them writes.\<close>

definition conflicting :: "resource_claim \<Rightarrow> resource_claim \<Rightarrow> bool" where
  "conflicting c d \<longleftrightarrow> rc_resource c = rc_resource d \<and> (is_write c \<or> is_write d)"

lemma claims_for_distinct: "policy_ok p \<Longrightarrow> distinct (map rc_resource (claims_for p n))"
  by (auto simp: policy_ok_def claims_unique_def claims_for_def dget_or_def
      split: option.split dest!: map_of_SomeD)

text \<open>A list of claims in which every resource has one mode: what \<open>selected_claims\<close> is.\<close>

definition one_mode :: "resource_claim list \<Rightarrow> bool" where
  "one_mode cs \<longleftrightarrow> (\<forall>c\<in>set cs. \<forall>d\<in>set cs. rc_resource c = rc_resource d \<longrightarrow> rc_mode c = rc_mode d)"

lemma last_mode:
  "dget (fold (\<lambda>c d. dset (rc_resource c) (rc_mode c) d) cs d0) r =
     (case find (\<lambda>c. rc_resource c = r) (rev cs) of Some c \<Rightarrow> Some (rc_mode c) | None \<Rightarrow> dget d0 r)"
proof (induction cs rule: rev_induct)
  case (snoc c cs)
  then show ?case by simp
qed simp

lemma claims_conflict_iff:
  assumes "one_mode left"
  shows "claims_conflict left right \<longleftrightarrow> (\<exists>c\<in>set left. \<exists>d\<in>set right. conflicting c d)"
proof -
  have mode: "dget (fold (\<lambda>c d. dset (rc_resource c) (rc_mode c) d) left []) r = Some m \<longleftrightarrow>
      (\<exists>c\<in>set left. rc_resource c = r \<and> rc_mode c = m)" for r m
  proof (cases "find (\<lambda>c. rc_resource c = r) (rev left)")
    case None
    then have "dget (fold (\<lambda>c d. dset (rc_resource c) (rc_mode c) d) left []) r = None"
      by (simp add: last_mode)
    moreover from None have "\<forall>c\<in>set left. rc_resource c \<noteq> r" by (auto simp: find_None_iff)
    ultimately show ?thesis by auto
  next
    case (Some c)
    then have c: "c \<in> set left" "rc_resource c = r"
      by (auto simp: find_Some_iff) (metis length_rev nth_mem set_rev)
    from Some have "dget (fold (\<lambda>c d. dset (rc_resource c) (rc_mode c) d) left []) r = Some (rc_mode c)"
      by (simp add: last_mode)
    with assms c show ?thesis unfolding one_mode_def by (metis option.inject)
  qed
  let ?D = "fold (\<lambda>c d. dset (rc_resource c) (rc_mode c) d) left []"
  have one: "(case dget ?D (rc_resource d) of None \<Rightarrow> False | Some m \<Rightarrow> is_write d \<or> m = ''write'') \<longleftrightarrow>
      (\<exists>c\<in>set left. conflicting c d)" for d
  proof (cases "dget ?D (rc_resource d)")
    case None
    with mode [of "rc_resource d"] have "\<forall>c\<in>set left. rc_resource c \<noteq> rc_resource d"
      by (metis option.distinct(1))
    with None show ?thesis by (simp add: conflicting_def)
  next
    case (Some m)
    with mode obtain c where c: "c \<in> set left" "rc_resource c = rc_resource d" "rc_mode c = m" by blast
    have same: "rc_mode c' = m" if "c' \<in> set left" "rc_resource c' = rc_resource d" for c'
      using assms c that unfolding one_mode_def by metis
    have "(\<exists>c\<in>set left. conflicting c d) \<longleftrightarrow> is_write d \<or> m = ''write''"
      using c same unfolding conflicting_def is_write_def by metis
    with Some show ?thesis by simp
  qed
  show ?thesis unfolding claims_conflict_def Let_def one by blast
qed

lemma one_mode_append:
  assumes "one_mode cs" "distinct (map rc_resource ds)" "\<not> claims_conflict cs ds"
    "\<forall>c\<in>set cs \<union> set ds. rc_mode c \<in> {''read'', ''write''}"
  shows "one_mode (cs @ ds)"
  unfolding one_mode_def
proof (intro ballI impI)
  have cross: "rc_mode c = rc_mode d" if "c \<in> set cs" "d \<in> set ds" "rc_resource c = rc_resource d" for c d
    using that assms(4) assms(3) [unfolded claims_conflict_iff [OF assms(1)]]
    unfolding conflicting_def is_write_def by (metis UnI1 UnI2 empty_iff insert_iff)
  fix c d assume "c \<in> set (cs @ ds)" "d \<in> set (cs @ ds)" and r: "rc_resource c = rc_resource d"
  then consider "c \<in> set cs" "d \<in> set cs" | "c \<in> set cs" "d \<in> set ds"
    | "c \<in> set ds" "d \<in> set cs" | "c \<in> set ds" "d \<in> set ds" by auto
  then show "rc_mode c = rc_mode d"
  proof cases
    case 1
    with assms(1) r show ?thesis unfolding one_mode_def by blast
  next
    case 2
    with cross r show ?thesis by blast
  next
    case 3
    with cross [of d c] r show ?thesis by simp
  next
    case 4
    with assms(2) r have "c = d" by (auto simp: distinct_map dest: inj_onD)
    then show ?thesis by simp
  qed
qed

section \<open>Batches\<close>

text \<open>All modes are the two the claim constructor admits.\<close>

definition modes_ok :: "scheduler_policy \<Rightarrow> bool" where
  "modes_ok p \<longleftrightarrow> (\<forall>kc\<in>set (sp_claims p). \<forall>c\<in>set (snd kc). rc_mode c \<in> {''read'', ''write''})"

lemma mk_resource_claim_mode: "mk_resource_claim r m = Inr c \<Longrightarrow> rc_mode c \<in> {''read'', ''write''}"
  by (auto simp: mk_resource_claim_def Let_def split: if_splits)

lemma claims_for_modes: "modes_ok p \<Longrightarrow> c \<in> set (claims_for p n) \<Longrightarrow> rc_mode c \<in> {''read'', ''write''}"
  by (cases "map_of (sp_claims p) (nd_id n)")
    (fastforce simp: modes_ok_def claims_for_def dget_or_def dest: map_of_SomeD)+

definition independent :: "scheduler_policy \<Rightarrow> task_node \<Rightarrow> task_node \<Rightarrow> bool" where
  "independent p m n \<longleftrightarrow>
     (\<forall>c\<in>set (claims_for p m). \<forall>d\<in>set (claims_for p n). \<not> conflicting c d)"

definition batch_ok :: "scheduler_policy \<Rightarrow> task_node list \<Rightarrow> bool" where
  "batch_ok p ns \<longleftrightarrow> (\<forall>i<length ns. \<forall>j<length ns. i \<noteq> j \<longrightarrow> independent p (ns ! i) (ns ! j)) \<and>
     (\<forall>n\<in>set ns. length ns = 1 \<or> allows_parallel p n) \<and> int (length ns) \<le> max 1 (sp_max_parallel p)"

lemma independent_sym: "independent p m n \<Longrightarrow> independent p n m"
  by (auto simp: independent_def conflicting_def)

lemma batch_snoc:
  assumes "\<forall>i<length ns. \<forall>j<length ns. i \<noteq> j \<longrightarrow> independent p (ns ! i) (ns ! j)"
    "\<forall>m\<in>set ns. independent p m n"
  shows "\<forall>i<length (ns @ [n]). \<forall>j<length (ns @ [n]). i \<noteq> j \<longrightarrow>
    independent p ((ns @ [n]) ! i) ((ns @ [n]) ! j)"
proof (intro allI impI)
  fix i j assume "i < length (ns @ [n])" "j < length (ns @ [n])" "i \<noteq> j"
  with assms show "independent p ((ns @ [n]) ! i) ((ns @ [n]) ! j)"
    by (cases "i < length ns"; cases "j < length ns") (auto simp: nth_append intro: independent_sym)
qed

lemma extend_batch_ok:
  "policy_ok p \<Longrightarrow> modes_ok p \<Longrightarrow> one_mode claims \<Longrightarrow> set claims = (\<Union>n\<in>set sel. set (claims_for p n)) \<Longrightarrow>
    \<forall>n\<in>set sel. allows_parallel p n \<Longrightarrow> sel \<noteq> [] \<Longrightarrow> int (length sel) \<le> sp_max_parallel p \<Longrightarrow>
    \<forall>i<length sel. \<forall>j<length sel. i \<noteq> j \<longrightarrow> independent p (sel ! i) (sel ! j) \<Longrightarrow>
    batch_ok p (extend_batch p ns sel claims)"
proof (induction p ns sel claims rule: extend_batch.induct)
  case (1 p sel claims)
  then show ?case by (simp add: batch_ok_def)
next
  case (2 p n ns sel claims)
  show ?case
  proof (cases "int (length sel) = sp_max_parallel p")
    case True
    with 2 show ?thesis by (simp add: batch_ok_def)
  next
    case False
    show ?thesis
    proof (cases "allows_parallel p n \<and> \<not> claims_conflict claims (claims_for p n)")
      case True
      have one: "one_mode (claims @ claims_for p n)"
      proof (rule one_mode_append [OF 2(5)])
        show "distinct (map rc_resource (claims_for p n))"
          using 2(3) by (rule claims_for_distinct)
        show "\<forall>c\<in>set claims \<union> set (claims_for p n). rc_mode c \<in> {''read'', ''write''}"
          unfolding 2(6) using claims_for_modes [OF 2(4)] by blast
      qed (use True in simp)
      have ind: "\<forall>m\<in>set sel. independent p m n"
        using True claims_conflict_iff [OF 2(5)] 2(6) by (auto simp: independent_def)
      show ?thesis
        using False True 2 one batch_snoc [OF 2(10) ind] by (simp add: Un_commute)
    next
      case other: False
      with False have "extend_batch p (n # ns) sel claims = extend_batch p ns sel claims" by auto
      with 2(2) [OF False other 2(3-10)] show ?thesis by simp
    qed
  qed
qed

end
