(* ===== verification/Task_Leases.thy ===== *)
theory Task_Leases
  imports Task_Parallel
begin

text \<open>
  The contract between the scheduler and a lease manager
  (\<open>loop_engine/tasks/resource_leases.py\<close>): leases with fencing tokens, the leased execution
  of an operation with its heartbeat thread, the claims of a batch. The manager is a record of
  functions on the outside world. The heartbeat thread renews the lease while the operation
  runs; its renewals are taken between the operation and the release, as many as the world's
  scheduler (\<open>lm_beats\<close>) grants before the stop event is seen, with a flag for a thread that
  does not stop in time.
\<close>

section \<open>Leases\<close>

record resource_lease =
  rl_lease_id :: string
  rl_owner_id :: string
  rl_claims :: "resource_claim list"
  rl_expires_at :: rat
  rl_fencing_tokens :: "(string \<times> int) list"

definition write_resources :: "resource_claim list \<Rightarrow> string set" where
  "write_resources cs = rc_resource ` {c \<in> set cs. is_write c}"

definition mk_resource_lease ::
  "string \<Rightarrow> string \<Rightarrow> resource_claim list \<Rightarrow> rat \<Rightarrow> (string \<times> pyval) list \<Rightarrow> py_exc + resource_lease"
where
  "mk_resource_lease lease_id owner_id claims expires_at tokens =
     (if \<not> set (dkeys tokens) \<subseteq> write_resources claims
        then Inl (ValueError ''fencing tokens require matching write claims'')
      else if \<exists>kv\<in>set tokens. (case plain_int (snd kv) of None \<Rightarrow> True | Some t \<Rightarrow> t \<le> 0)
        then Inl (ValueError ''fencing tokens must be positive integers'')
      else Inr \<lparr>rl_lease_id = lease_id, rl_owner_id = owner_id, rl_claims = claims,
        rl_expires_at = expires_at,
        rl_fencing_tokens = map (\<lambda>(k, v). (k, the (plain_int v))) tokens\<rparr>)"

definition fencing_token :: "resource_lease \<Rightarrow> string \<Rightarrow> py_exc + int" where
  "fencing_token lease resource = (case dget (rl_fencing_tokens lease) resource of
      None \<Rightarrow> Inl (ValueError (''resource lease has no fencing token for: '' @ resource))
    | Some t \<Rightarrow> Inr t)"

record lease_attempt =
  la_lease :: "resource_lease option"
  la_conflicting :: "string list"

record 'a leased_result =
  lo_value :: "'a option"
  lo_executed :: bool
  lo_lease :: "resource_lease option"
  lo_conflicting :: "string list"
  lo_acquisition_error :: "string option"
  lo_heartbeat_error :: "string option"
  lo_release_error :: "string option"

definition no_operation :: "'a leased_result" where
  "no_operation = \<lparr>lo_value = None, lo_executed = False, lo_lease = None, lo_conflicting = [],
     lo_acquisition_error = None, lo_heartbeat_error = None, lo_release_error = None\<rparr>"

section \<open>Lease managers\<close>

text \<open>\<open>acquire\<close> may raise or return a value that is no \<open>ResourceLeaseAttempt\<close> (\<open>None\<close>);
  \<open>lm_start\<close> is the start of the heartbeat thread.\<close>

record 'w lease_manager =
  lm_interval :: "'w \<Rightarrow> (py_exc + rat) \<times> 'w"
  lm_acquire :: "string \<Rightarrow> resource_claim list \<Rightarrow> 'w \<Rightarrow> (py_exc + lease_attempt option) \<times> 'w"
  lm_renew :: "resource_lease \<Rightarrow> 'w \<Rightarrow> (py_exc + resource_lease) \<times> 'w"
  lm_release :: "resource_lease \<Rightarrow> 'w \<Rightarrow> py_exc option \<times> 'w"
  lm_start :: "'w \<Rightarrow> py_exc option \<times> 'w"
  lm_beats :: "'w \<Rightarrow> (nat \<times> bool) \<times> 'w"

text \<open>\<open>_LeaseHeartbeat.__init__\<close> and \<open>start\<close>: the error that keeps the operation from running.\<close>

definition heartbeat_start :: "'w lease_manager \<Rightarrow> 'w \<Rightarrow> py_exc option \<times> 'w" where
  "heartbeat_start M w = (case lm_interval M w of
      (Inl e, w1) \<Rightarrow> (Some e, w1)
    | (Inr interval, w1) \<Rightarrow>
        if interval \<le> 0
          then (Some (ValueError ''resource lease heartbeat interval must be positive''), w1)
        else lm_start M w1)"

text \<open>\<open>_LeaseHeartbeat._run\<close> over its renewals; the result is \<open>self.error\<close>.\<close>

fun heartbeat_run :: "'w lease_manager \<Rightarrow> nat \<Rightarrow> resource_lease \<Rightarrow> 'w \<Rightarrow> string option \<times> 'w" where
  "heartbeat_run M 0 lease w = (None, w)"
| "heartbeat_run M (Suc n) lease w = (case lm_renew M lease w of
      (Inl e, w1) \<Rightarrow> (Some (''resource_lease_heartbeat_error:'' @ show_exc_tight e), w1)
    | (Inr lease', w1) \<Rightarrow> heartbeat_run M n lease' w1)"

definition heartbeat_stop :: "'w lease_manager \<Rightarrow> resource_lease \<Rightarrow> 'w \<Rightarrow> string option \<times> 'w" where
  "heartbeat_stop M lease w =
     (let ((beats, stuck), w1) = lm_beats M w;
          (error, w2) = heartbeat_run M beats lease w1
      in (if stuck then Some ''resource_lease_heartbeat_error:heartbeat_thread_did_not_stop'' else error, w2))"

definition release_lease :: "'w lease_manager \<Rightarrow> resource_lease \<Rightarrow> 'w \<Rightarrow> string option \<times> 'w" where
  "release_lease M lease w = (case lm_release M lease w of
      (None, w1) \<Rightarrow> (None, w1)
    | (Some e, w1) \<Rightarrow> (Some (''resource_lease_release_error:'' @ show_exc_tight e), w1))"

section \<open>Leased operations\<close>

text \<open>The callbacks work on the client's state \<open>'g\<close> and the world, the manager on the world.\<close>

definition run_leased_operation ::
  "'w lease_manager option \<Rightarrow> string \<Rightarrow> resource_claim list \<Rightarrow> (resource_lease \<Rightarrow> 'g \<times> 'w \<Rightarrow> 'g \<times> 'w)
   \<Rightarrow> ('g \<times> 'w \<Rightarrow> 'a \<times> 'g \<times> 'w) \<Rightarrow> 'g \<times> 'w \<Rightarrow> 'a leased_result \<times> 'g \<times> 'w" where
  "run_leased_operation manager owner_id claims on_acquired operation r =
     (case manager of
        None \<Rightarrow> let (v, r1) = operation r
                in (no_operation\<lparr>lo_value := Some v, lo_executed := True\<rparr>, r1)
      | Some M \<Rightarrow>
        if claims = [] then let (v, r1) = operation r
                in (no_operation\<lparr>lo_value := Some v, lo_executed := True\<rparr>, r1)
        else case lm_acquire M owner_id claims (snd r) of
          (Inl e, w) \<Rightarrow> (no_operation\<lparr>lo_acquisition_error :=
              Some (''resource_lease_error:'' @ show_exc_tight e)\<rparr>, fst r, w)
        | (Inr None, w) \<Rightarrow> (no_operation\<lparr>lo_acquisition_error :=
              Some ''resource_lease_error:invalid_acquisition_contract''\<rparr>, fst r, w)
        | (Inr (Some attempt), w) \<Rightarrow> (case la_lease attempt of
            None \<Rightarrow> (no_operation\<lparr>lo_conflicting := la_conflicting attempt\<rparr>, fst r, w)
          | Some lease \<Rightarrow>
            let r1 = on_acquired lease (fst r, w) in
            (case heartbeat_start M (snd r1) of
              (Some e, w2) \<Rightarrow>
                let (release_error, w3) = release_lease M lease w2 in
                (no_operation\<lparr>lo_lease := Some lease, lo_heartbeat_error :=
                   Some (''resource_lease_heartbeat_error:'' @ show_exc_tight e),
                   lo_release_error := release_error\<rparr>, fst r1, w3)
            | (None, w2) \<Rightarrow>
                let (v, r3) = operation (fst r1, w2);
                    (heartbeat_error, w4) = heartbeat_stop M lease (snd r3);
                    (release_error, w5) = release_lease M lease w4
                in (no_operation\<lparr>lo_value := Some v, lo_executed := True, lo_lease := Some lease,
                      lo_heartbeat_error := heartbeat_error, lo_release_error := release_error\<rparr>,
                    fst r3, w5))))"

text \<open>A write through a fenced adapter carries the token of the lease.\<close>

definition run_fenced_operation ::
  "resource_lease \<Rightarrow> string \<Rightarrow> (string \<Rightarrow> int \<Rightarrow> 'w \<Rightarrow> (py_exc + 'a) \<times> 'w) \<Rightarrow> 'w \<Rightarrow> (py_exc + 'a) \<times> 'w" where
  "run_fenced_operation lease resource execute_fenced w = (case fencing_token lease resource of
      Inl e \<Rightarrow> (Inl e, w)
    | Inr token \<Rightarrow> execute_fenced resource token w)"

section \<open>The claims of a batch\<close>

definition merge_claim :: "resource_claim \<Rightarrow> (string \<times> resource_claim) list \<Rightarrow> (string \<times> resource_claim) list" where
  "merge_claim c d = (if dget d (rc_resource c) = None \<or> is_write c then dset (rc_resource c) c d else d)"

text \<open>One claim per resource, the write claim when there is one, in the order of the resources.\<close>

definition strongest_claims :: "resource_claim list \<Rightarrow> resource_claim list" where
  "strongest_claims cs =
     (let by_resource = fold merge_claim cs []
      in map (\<lambda>k. the (dget by_resource k)) (sort (dkeys by_resource)))"

definition batch_claims :: "task_node list \<Rightarrow> scheduler_policy \<Rightarrow> resource_claim list" where
  "batch_claims ns p = strongest_claims (concat (map (claims_for p) ns))"

definition lease_payload :: "task_node list \<Rightarrow> resource_lease \<Rightarrow> pydict" where
  "lease_payload ns lease =
     [(''lease_id'', PStr (rl_lease_id lease)), (''nodes'', pstrs (map nd_id ns)),
      (''resources'', pstrs (map rc_resource (rl_claims lease))),
      (''expires_at'', pnum (rl_expires_at lease)),
      (''fencing_tokens'', PDict (map (\<lambda>(k, t). (k, PInt t)) (rl_fencing_tokens lease)))]"

section \<open>Facts\<close>

lemma plain_int_Some: "plain_int v = Some i \<longleftrightarrow> v = PInt i"
  by (cases v) auto

lemma mk_resource_lease_ok:
  assumes "mk_resource_lease i ow cs ex ts = Inr l"
  shows "set (dkeys (rl_fencing_tokens l)) \<subseteq> write_resources (rl_claims l)"
    "\<forall>kv\<in>set (rl_fencing_tokens l). 0 < snd kv"
proof -
  have ok: "set (dkeys ts) \<subseteq> write_resources cs"
      "\<forall>kv\<in>set ts. \<exists>t. plain_int (snd kv) = Some t \<and> 0 < t"
      "l = \<lparr>rl_lease_id = i, rl_owner_id = ow, rl_claims = cs, rl_expires_at = ex,
        rl_fencing_tokens = map (\<lambda>(k, v). (k, the (plain_int v))) ts\<rparr>"
    using assms by (auto simp: mk_resource_lease_def split: if_splits option.splits)
  from ok(1) show "set (dkeys (rl_fencing_tokens l)) \<subseteq> write_resources (rl_claims l)"
    by (simp add: ok(3) dkeys_def image_image case_prod_unfold)
  from ok(2) show "\<forall>kv\<in>set (rl_fencing_tokens l). 0 < snd kv"
    by (auto simp: ok(3))
qed

text \<open>The batch holds one claim per resource, and it is a write claim exactly when some node of
  the batch writes the resource.\<close>

lemma merge_claims_dict:
  "dget (fold merge_claim cs []) r = Some c \<Longrightarrow> rc_resource c = r \<and> c \<in> set cs \<and>
     (is_write c \<longleftrightarrow> (\<exists>d\<in>set cs. rc_resource d = r \<and> is_write d))"
proof (induction cs arbitrary: c rule: rev_induct)
  case (snoc d cs)
  show ?case
  proof (cases "dget (fold merge_claim cs []) (rc_resource d) = None \<or> is_write d")
    case True
    then have "dget (fold merge_claim (cs @ [d]) []) r = (if r = rc_resource d then Some d
        else dget (fold merge_claim cs []) r)" by (simp add: merge_claim_def)
    moreover have "dget (fold merge_claim cs []) x = None \<Longrightarrow> \<forall>e\<in>set cs. rc_resource e \<noteq> x" for x
    proof (induction cs rule: rev_induct)
      case (snoc e es)
      then show ?case by (auto simp: merge_claim_def split: if_splits)
    qed simp
    ultimately show ?thesis using snoc True by (auto split: if_splits)
  next
    case False
    then have "fold merge_claim (cs @ [d]) [] = fold merge_claim cs []" by (auto simp: merge_claim_def)
    with snoc False show ?thesis by (auto dest: snoc.IH)
  qed
qed simp

lemma merge_claims_keys: "set (dkeys (fold merge_claim cs [])) = rc_resource ` set cs"
proof (induction cs rule: rev_induct)
  case (snoc c cs)
  then show ?case
    by (auto simp: merge_claim_def dkeys_dset dget_None_iff)
qed (simp add: dkeys_def)

lemma merge_claims_wf: "wf_dict (fold merge_claim cs [])"
  by (induction cs rule: rev_induct) (simp_all add: merge_claim_def)

lemma strongest_claims_spec:
  "sorted (map rc_resource (strongest_claims cs))" "distinct (map rc_resource (strongest_claims cs))"
  "rc_resource ` set (strongest_claims cs) = rc_resource ` set cs" "set (strongest_claims cs) \<subseteq> set cs"
  "c \<in> set (strongest_claims cs) \<Longrightarrow> is_write c \<longleftrightarrow> (\<exists>d\<in>set cs. rc_resource d = rc_resource c \<and> is_write d)"
proof -
  let ?d = "fold merge_claim cs []"
  have found: "\<exists>k. dget ?d k = Some c" if "c \<in> set (strongest_claims cs)" for c
    using that dkey_dget [of _ ?d] by (force simp: strongest_claims_def Let_def)
  have res: "map rc_resource (strongest_claims cs) = sort (dkeys ?d)"
  proof -
    have "rc_resource (the (dget ?d k)) = k" if "k \<in> set (dkeys ?d)" for k
      using merge_claims_dict [of cs k] dkey_dget [OF that] by auto
    then show ?thesis by (auto simp: strongest_claims_def Let_def intro!: map_idI)
  qed
  show "sorted (map rc_resource (strongest_claims cs))" by (simp add: res)
  show "distinct (map rc_resource (strongest_claims cs))"
    using merge_claims_wf [of cs] by (simp add: res wf_dict_def dkeys_def)
  have "set (map rc_resource (strongest_claims cs)) = rc_resource ` set cs"
    unfolding res using merge_claims_keys [of cs] by simp
  then show "rc_resource ` set (strongest_claims cs) = rc_resource ` set cs" by simp
  show "set (strongest_claims cs) \<subseteq> set cs" using found merge_claims_dict [of cs] by blast
  assume "c \<in> set (strongest_claims cs)"
  with found obtain k where "dget ?d k = Some c" by blast
  from merge_claims_dict [OF this] show "is_write c \<longleftrightarrow> (\<exists>d\<in>set cs. rc_resource d = rc_resource c \<and> is_write d)"
    by auto
qed

lemma batch_claims_spec:
  "sorted (map rc_resource (batch_claims ns p))" "distinct (map rc_resource (batch_claims ns p))"
  "rc_resource ` set (batch_claims ns p) = (\<Union>n\<in>set ns. rc_resource ` set (claims_for p n))"
  "c \<in> set (batch_claims ns p) \<Longrightarrow> is_write c \<longleftrightarrow>
     (\<exists>n\<in>set ns. \<exists>d\<in>set (claims_for p n). rc_resource d = rc_resource c \<and> is_write d)"
  unfolding batch_claims_def by (auto simp: strongest_claims_spec)

text \<open>The operation runs at most once, and with claims only under a granted lease that is
  released on every path.\<close>

lemma leased_not_executed:
  "lo_executed (fst (run_leased_operation m ow cs onacq oper r)) = (lo_value (fst (run_leased_operation m ow cs onacq oper r)) \<noteq> None)"
  by (auto simp: run_leased_operation_def no_operation_def Let_def
      split: option.split sum.split prod.split)

end
