(* ===== verification/Task_Scheduler.thy ===== *)
theory Task_Scheduler
  imports Task_Decomposition Task_Retry Task_Leases
begin

text \<open>
  The scheduler of atomic task graphs: \<open>loop_engine/tasks/scheduler.py\<close> with its two mixins
  \<open>scheduler_propagation.py\<close> and \<open>scheduler_retry.py\<close>. The ports of \<open>tasks/ports.py\<close>, the
  retry waiter and the clocks are functions on an external state that may raise; they read the
  graph and do not change it. A run is a pair of graph and external state. Where the code holds
  a node object, the model holds its id and reads the node from the graph.
\<close>

section \<open>Ports\<close>

record 'w scheduler =
  sc_decomposer :: "task_node \<Rightarrow> task_graph \<Rightarrow> 'w \<Rightarrow> (py_exc + atomicity_decision) \<times> 'w"
  sc_resolver :: "task_node \<Rightarrow> task_graph \<Rightarrow> 'w \<Rightarrow> (py_exc + capability_resolution) \<times> 'w"
  sc_acquirer :: "(string \<Rightarrow> task_node \<Rightarrow> task_graph \<Rightarrow> 'w \<Rightarrow> (py_exc + bool) \<times> 'w) option"
  sc_executor :: "'w leaf_executor"
  sc_snapshot :: "task_graph \<Rightarrow> 'w \<Rightarrow> py_exc option \<times> 'w"
  sc_verifier :: "task_node \<Rightarrow> task_graph \<Rightarrow> 'w \<Rightarrow> (py_exc + leaf_result) \<times> 'w"
  sc_store :: "(task_graph \<Rightarrow> 'w \<Rightarrow> 'w) option"
  sc_policy :: scheduler_policy
  sc_leases :: "'w lease_manager option"
  sc_retry_policy :: "retry_policy option"
  sc_waiter :: "(rat \<Rightarrow> task_node \<Rightarrow> task_graph \<Rightarrow> 'w \<Rightarrow> (py_exc + bool) \<times> 'w) option"
  sc_clock :: "'w \<Rightarrow> (py_exc + pyval) \<times> 'w"
  sc_utc_now :: "'w \<Rightarrow> string \<times> 'w"
  sc_sha256 :: "8 word list \<Rightarrow> 8 word list"

type_synonym 'w trun = "task_graph \<times> 'w"

definition sch_emit :: "'w scheduler \<Rightarrow> string \<Rightarrow> string \<Rightarrow> pydict \<Rightarrow> 'w trun \<Rightarrow> 'w trun" where
  "sch_emit E event_type node_id payload r =
     (let (t, w) = sc_utc_now E (snd r)
      in (record_task_event (event_type, node_id, payload, t) (fst r), w))"

definition sch_save :: "'w scheduler \<Rightarrow> 'w trun \<Rightarrow> 'w trun" where
  "sch_save E r = (case sc_store E of None \<Rightarrow> r | Some save \<Rightarrow> (fst r, save (fst r) (snd r)))"

definition sch_upd :: "string \<Rightarrow> (task_node \<Rightarrow> task_node) \<Rightarrow> 'w trun \<Rightarrow> 'w trun" where
  "sch_upd k f r = (upd_node k f (fst r), snd r)"

definition nodes_of :: "task_graph \<Rightarrow> string list \<Rightarrow> task_node list" where
  "nodes_of g ks = List.map_filter (node_at g) ks"

section \<open>Propagation (\<open>scheduler_propagation.py\<close>)\<close>

definition any_failed :: "task_graph \<Rightarrow> string list \<Rightarrow> bool" where
  "any_failed g ks = list_ex (\<lambda>k. status_at g k \<in> {Some TS_FAILED, Some TS_BLOCKED}) ks"

definition all_completed :: "task_graph \<Rightarrow> string list \<Rightarrow> bool" where
  "all_completed g ks = list_all (\<lambda>k. status_at g k = Some TS_COMPLETED) ks"

definition propagate_parent :: "'w scheduler \<Rightarrow> string \<Rightarrow> task_node \<Rightarrow> 'w trun \<Rightarrow> bool \<times> 'w trun" where
  "propagate_parent E k n r =
     (if any_failed (fst r) (nd_children n) then
        (True, sch_save E (sch_emit E ''task_blocked'' k [(''reason'', PStr ''child_failed_or_blocked'')]
           (sch_upd k (\<lambda>n. n\<lparr>nd_status := TS_BLOCKED, nd_error := Some ''child_failed_or_blocked''\<rparr>) r)))
      else if \<not> all_completed (fst r) (nd_children n) then (False, r)
      else
        let (outcome, w) = sc_verifier E n (fst r) (snd r);
            result = (case outcome of
                Inr x \<Rightarrow> x
              | Inl e \<Rightarrow> plain_result ''failed'' ''integration verifier raised an exception'' (Some (show_exc e)));
            r1 = sch_upd k (\<lambda>n. n\<lparr>nd_result := Some result\<rparr>) (fst r, w)
        in if lr_status result = ''completed'' then
             (True, sch_save E (sch_emit E ''integration_completed'' k
                [(''summary'', PStr (lr_summary result))]
                (sch_upd k (\<lambda>n. n\<lparr>nd_status := TS_COMPLETED\<rparr>) r1)))
           else
             let error = str_or (lr_error result) (lr_summary result) in
             (True, sch_save E (sch_emit E ''integration_failed'' k [(''error'', PStr error)]
                (sch_upd k (\<lambda>n. n\<lparr>nd_status := (if lr_status result = ''blocked'' then TS_BLOCKED else TS_FAILED),
                   nd_error := Some error\<rparr>) r1))))"

definition propagate_node :: "'w scheduler \<Rightarrow> string \<Rightarrow> 'w trun \<Rightarrow> bool \<times> 'w trun" where
  "propagate_node E k r = (case node_at (fst r) k of
      None \<Rightarrow> (False, r)
    | Some n \<Rightarrow>
      if terminal_status (nd_status n) then (False, r)
      else if any_failed (fst r) (nd_dependencies n) then
        (True, sch_save E (sch_emit E ''task_blocked'' k [(''reason'', PStr ''dependency_failed_or_blocked'')]
           (sch_upd k (\<lambda>n. n\<lparr>nd_status := TS_BLOCKED, nd_error := Some ''dependency_failed_or_blocked''\<rparr>) r)))
      else if nd_children n \<noteq> [] then propagate_parent E k n r
      else (False, r))"

fun propagate_all :: "'w scheduler \<Rightarrow> string list \<Rightarrow> 'w trun \<Rightarrow> bool \<times> 'w trun" where
  "propagate_all E [] r = (False, r)"
| "propagate_all E (k # ks) r =
     (let (c, r1) = propagate_node E k r; (cs, r2) = propagate_all E ks r1 in (c \<or> cs, r2))"

text \<open>\<open>sorted(..., key=depth, reverse=True)\<close> keeps the insertion order of equal depths.\<close>

definition propagation_order :: "task_graph \<Rightarrow> string list" where
  "propagation_order g = map nd_id (sort_key (\<lambda>n. - int (nd_depth n)) (map snd (tg_nodes g)))"

definition propagate :: "'w scheduler \<Rightarrow> 'w trun \<Rightarrow> bool \<times> 'w trun" where
  "propagate E r = propagate_all E (propagation_order (fst r)) r"

section \<open>Retries (\<open>scheduler_retry.py\<close>)\<close>

definition finish_leaf_blocked :: "'w scheduler \<Rightarrow> string \<Rightarrow> leaf_result \<Rightarrow> 'w trun \<Rightarrow> 'w trun" where
  "finish_leaf_blocked E k result r =
     (let error = str_or (lr_error result) (lr_summary result) in
      sch_emit E ''leaf_blocked'' k [(''error'', PStr error)]
        (sch_upd k (\<lambda>n. n\<lparr>nd_status := TS_BLOCKED, nd_error := Some error\<rparr>) r))"

definition finish_leaf_failed :: "'w scheduler \<Rightarrow> string \<Rightarrow> leaf_result \<Rightarrow> 'w trun \<Rightarrow> 'w trun" where
  "finish_leaf_failed E k result r =
     (let error = str_or (lr_error result) (lr_summary result) in
      sch_emit E ''leaf_failed'' k [(''error'', PStr error)]
        (sch_upd k (\<lambda>n. n\<lparr>nd_status := TS_FAILED, nd_error := Some error\<rparr>) r))"

definition is_number :: "pyval \<Rightarrow> bool" where
  "is_number v = (case v of PBool b \<Rightarrow> True | PInt i \<Rightarrow> True | PFloat f \<Rightarrow> True | _ \<Rightarrow> False)"

text \<open>The check on \<open>elapsed = now - retry_started_at\<close>; a subtraction that raises is a clock
  error.\<close>

definition deadline_rejection :: "rat \<Rightarrow> pyval \<Rightarrow> py_exc + pyval \<Rightarrow> string option" where
  "deadline_rejection window started outcome = (case outcome of
      Inl e \<Rightarrow> Some ''retry_clock_error''
    | Inr now \<Rightarrow>
      if \<not> is_number now \<or> \<not> is_number started then Some ''retry_clock_error''
      else (case finite_num now of
          None \<Rightarrow> Some ''retry_clock_invalid''
        | Some t \<Rightarrow> (case num_value started of
            None \<Rightarrow> Some ''retry_clock_invalid''
          | Some s \<Rightarrow> if t - s < 0 then Some ''retry_clock_regressed''
              else if t - s > window then Some ''retry_elapsed_budget_exhausted''
              else None)))"

definition retry_deadline_rejection :: "'w scheduler \<Rightarrow> task_node \<Rightarrow> 'w \<Rightarrow> string option \<times> 'w" where
  "retry_deadline_rejection E n w =
     (case Option.bind (sc_retry_policy E) rp_window of
        None \<Rightarrow> (None, w)
      | Some window \<Rightarrow>
        if nd_retry_started_at n = PNone then (None, w)
        else let (outcome, w1) = sc_clock E w
             in (deadline_rejection window (nd_retry_started_at n) outcome, w1))"

definition wait_for_retry ::
  "'w scheduler \<Rightarrow> string \<Rightarrow> leaf_result \<Rightarrow> retry_decision \<Rightarrow> 'w trun \<Rightarrow> string option \<times> 'w trun" where
  "wait_for_retry E k result d r =
     (let delay = rd_delay_seconds d in
      if delay \<le> 0 then (None, r)
      else case sc_waiter E of
        None \<Rightarrow> (Some ''retry_wait_cancelled'', r)
      | Some wait \<Rightarrow> (case node_at (fst r) k of
          None \<Rightarrow> (Some ''retry_wait_cancelled'', r)
        | Some n \<Rightarrow>
          let payload = [(''delay_seconds'', pnum delay), (''retry_code'', popt_str (lr_retry_code result))];
              r1 = sch_save E (sch_emit E ''leaf_retry_wait_started'' k payload r);
              (outcome, w) = wait delay n (fst r1) (snd r1);
              waited = (outcome = Inr True);
              payload1 = (case outcome of
                  Inl e \<Rightarrow> payload @ [(''error'', PStr (show_exc_tight e))] | Inr _ \<Rightarrow> payload);
              (rejection, w1) = (if waited then retry_deadline_rejection E n w else (None, w));
              payload2 = (case rejection of
                  None \<Rightarrow> payload1 | Some x \<Rightarrow> payload1 @ [(''deadline_rejection'', PStr x)]);
              completed = (waited \<and> rejection = None);
              r2 = sch_emit E ''leaf_retry_wait_completed'' k
                     (payload2 @ [(''completed'', PBool completed)]) (fst r1, w1)
          in (if completed then None
              else Some (case rejection of Some x \<Rightarrow> x | None \<Rightarrow> ''retry_wait_cancelled''), r2)))"

definition finish_leaf :: "'w scheduler \<Rightarrow> string \<Rightarrow> leaf_result \<Rightarrow> 'w trun \<Rightarrow> 'w trun" where
  "finish_leaf E k result r = (if lr_status result = ''blocked'' then finish_leaf_blocked E k result r
     else finish_leaf_failed E k result r)"

definition apply_retry_result :: "'w scheduler \<Rightarrow> string \<Rightarrow> leaf_result \<Rightarrow> 'w trun \<Rightarrow> 'w trun" where
  "apply_retry_result E k result r = (case node_at (fst r) k of
      None \<Rightarrow> r
    | Some n \<Rightarrow>
      let (clock, w) = sc_clock E (snd r);
          decision = (case clock of
              Inl e \<Rightarrow> no_retry ''retry_clock_error''
            | Inr now \<Rightarrow> evaluate_retry (sc_sha256 E) (sc_retry_policy E) n result (tg_id (fst r)) now);
          r1 = (fst r, w);
          r2 = (if rd_retry decision \<and> nd_retry_started_at n = PNone
                then sch_upd k (\<lambda>n. n\<lparr>nd_retry_started_at := (case clock of Inr now \<Rightarrow> now | Inl e \<Rightarrow> pnum 0)\<rparr>) r1
                else r1);
          (rejection, r3) = (if rd_retry decision then wait_for_retry E k result decision r2 else (None, r2));
          final = (case rejection of None \<Rightarrow> decision | Some x \<Rightarrow> no_retry x)
      in if rd_retry final then
           let r4 = sch_upd k (\<lambda>n. n\<lparr>nd_retries := nd_retries n + 1, nd_status := TS_READY, nd_error := None\<rparr>) r3
           in (case (node_at (fst r4) k, sc_retry_policy E) of
                (Some n', Some p) \<Rightarrow>
                  sch_emit E ''leaf_retry_scheduled'' k (retry_scheduled_payload p n' result final) r4
              | _ \<Rightarrow> r4)
         else finish_leaf E k result
                (sch_emit E ''leaf_retry_rejected'' k (retry_rejected_payload final result) r3))"

definition apply_leaf_result :: "'w scheduler \<Rightarrow> string \<Rightarrow> leaf_result \<Rightarrow> bool \<Rightarrow> 'w trun \<Rightarrow> 'w trun" where
  "apply_leaf_result E k result save r =
     (let r1 = sch_upd k (\<lambda>n. n\<lparr>nd_result := Some result\<rparr>) r;
          r2 = (if lr_status result = ''completed'' then
                  sch_emit E ''leaf_completed'' k [(''summary'', PStr (lr_summary result))]
                    (sch_upd k (\<lambda>n. n\<lparr>nd_status := TS_COMPLETED\<rparr>) r1)
                else if lr_retryable result then apply_retry_result E k result r1
                else finish_leaf E k result r1)
      in if save then sch_save E r2 else r2)"

definition contention_result :: "string \<Rightarrow> string \<Rightarrow> leaf_result" where
  "contention_result error key = \<lparr>lr_status = ''blocked'', lr_summary = error, lr_evidence = [],
     lr_error = Some error, lr_retryable = True, lr_retry_code = Some ''resource_lease_contention'',
     lr_idempotency_key = Some (strip key)\<rparr>"

definition block_one_for_lease :: "'w scheduler \<Rightarrow> string \<Rightarrow> bool \<Rightarrow> string \<Rightarrow> 'w trun \<Rightarrow> 'w trun" where
  "block_one_for_lease E error contention k r =
     (case (if contention then Option.bind (sc_retry_policy E) (\<lambda>p. idempotency_key_for p k) else None) of
        None \<Rightarrow> sch_emit E ''task_blocked'' k [(''error'', PStr error)]
          (sch_upd k (\<lambda>n. n\<lparr>nd_status := TS_BLOCKED, nd_error := Some error\<rparr>) r)
      | Some key \<Rightarrow> apply_leaf_result E k (contention_result error key) False r)"

definition block_for_resource_lease ::
  "'w scheduler \<Rightarrow> string list \<Rightarrow> string \<Rightarrow> bool \<Rightarrow> 'w trun \<Rightarrow> 'w trun" where
  "block_for_resource_lease E ks error contention r =
     sch_save E (fold (block_one_for_lease E error contention) ks r)"

section \<open>Decomposition and admission (\<open>scheduler.py\<close>)\<close>

definition fail_node :: "string \<Rightarrow> task_status \<Rightarrow> string \<Rightarrow> 'w trun \<Rightarrow> 'w trun" where
  "fail_node k status error r = sch_upd k (\<lambda>n. n\<lparr>nd_status := status, nd_error := Some error\<rparr>) r"

text \<open>\<open>node.goal = ...\<close> and the other fields of an atomic leaf contract.\<close>

definition apply_leaf_contract :: "'w scheduler \<Rightarrow> string \<Rightarrow> atomic_leaf_spec \<Rightarrow> 'w trun \<Rightarrow> 'w trun" where
  "apply_leaf_contract E k leaf r =
     sch_emit E ''atomic_leaf_contract_applied'' k
       [(''success_criteria'', pstrs (al_success_criteria leaf)),
        (''required_capabilities'', pstrs (al_required_capabilities leaf))]
       (sch_upd k (\<lambda>n. n\<lparr>nd_goal := al_goal leaf, nd_success_criteria := al_success_criteria leaf,
          nd_required_capabilities := al_required_capabilities leaf,
          nd_metadata := dupdate (nd_metadata n) (al_metadata leaf)\<rparr>) r)"

definition assess_atomic :: "'w scheduler \<Rightarrow> string \<Rightarrow> atomicity_decision \<Rightarrow> 'w trun \<Rightarrow> 'w trun" where
  "assess_atomic E k d r =
     (if ad_children d \<noteq> [] then sch_save E (fail_node k TS_FAILED ''atomic_task_has_children'' r)
      else sch_save E (sch_upd k (\<lambda>n. n\<lparr>nd_status := TS_READY\<rparr>)
        (case ad_leaf d of None \<Rightarrow> r | Some leaf \<Rightarrow> apply_leaf_contract E k leaf r)))"

definition assess_composite :: "'w scheduler \<Rightarrow> string \<Rightarrow> task_node \<Rightarrow> atomicity_decision \<Rightarrow> 'w trun \<Rightarrow> 'w trun" where
  "assess_composite E k n d r =
     (if ad_leaf d \<noteq> None then sch_save E (fail_node k TS_FAILED ''non_atomic_task_has_leaf_contract'' r)
      else if ad_children d = [] then sch_save E (fail_node k TS_BLOCKED ''non_atomic_task_has_no_children'' r)
      else if int (nd_depth n) \<ge> tb_max_depth (tg_budget (fst r))
        then sch_save E (fail_node k TS_BLOCKED ''task_depth_budget_exhausted'' r)
      else if int (length (tg_nodes (fst r)) + length (ad_children d)) > tb_max_nodes (tg_budget (fst r))
        then sch_save E (fail_node k TS_BLOCKED ''task_node_budget_exhausted'' r)
      else case add_child_tasks k n (ad_children d) (fst r) of
          Inl e \<Rightarrow>
            let error = ''decomposition_contract_error:'' @ exc_msg e in
            sch_save E (sch_emit E ''task_failed'' k [(''error'', PStr error)] (fail_node k TS_FAILED error r))
        | Inr g \<Rightarrow>
            let r1 = sch_upd k (\<lambda>n. n\<lparr>nd_status := TS_WAITING\<rparr>) (g, snd r) in
            sch_save E (sch_emit E ''task_decomposed'' k
              [(''children'', pstrs (case node_at (fst r1) k of Some n' \<Rightarrow> nd_children n' | None \<Rightarrow> []))] r1))"

definition assess_node :: "'w scheduler \<Rightarrow> string \<Rightarrow> 'w trun \<Rightarrow> 'w trun" where
  "assess_node E k r = (case node_at (fst r) k of
      None \<Rightarrow> r
    | Some n \<Rightarrow> (case sc_decomposer E n (fst r) (snd r) of
        (Inl e, w) \<Rightarrow>
          let error = ''decomposer_error:'' @ show_exc_tight e in
          sch_save E (sch_emit E ''task_failed'' k [(''error'', PStr error)]
            (fail_node k TS_FAILED error (fst r, w)))
      | (Inr d, w) \<Rightarrow>
          let r1 = sch_emit E ''atomicity_assessed'' k
                [(''is_atomic'', PBool (ad_is_atomic d)), (''reason'', PStr (ad_reason d))] (fst r, w)
          in if ad_is_atomic d then assess_atomic E k d r1 else assess_composite E k n d r1))"

text \<open>The loop over the missing capabilities.\<close>

fun acquire_all ::
  "'w scheduler \<Rightarrow> (string \<Rightarrow> task_node \<Rightarrow> task_graph \<Rightarrow> 'w \<Rightarrow> (py_exc + bool) \<times> 'w) \<Rightarrow> string
   \<Rightarrow> task_node \<Rightarrow> string list \<Rightarrow> 'w trun \<Rightarrow> 'w trun" where
  "acquire_all E acquire k n [] r = r"
| "acquire_all E acquire k n (c # cs) r =
     (let r1 = sch_emit E ''capability_acquisition_requested'' k [(''capability'', PStr c)] r
      in case acquire c n (fst r1) (snd r1) of
          (Inl e, w) \<Rightarrow> acquire_all E acquire k n cs
             (sch_emit E ''capability_acquisition_failed'' k
                [(''capability'', PStr c), (''error'', PStr (show_exc e))] (fst r1, w))
        | (Inr b, w) \<Rightarrow> acquire_all E acquire k n cs (fst r1, w))"

definition block_missing :: "'w scheduler \<Rightarrow> string \<Rightarrow> string list \<Rightarrow> 'w trun \<Rightarrow> bool \<times> 'w trun" where
  "block_missing E k missing r =
     (if missing = [] then (True, r)
      else (False, sch_save E (sch_emit E ''task_blocked'' k [(''missing'', pstrs missing)]
        (fail_node k TS_BLOCKED (''missing_capabilities:'' @ str_join '','' (sort missing)) r))))"

definition admit_leaf :: "'w scheduler \<Rightarrow> string \<Rightarrow> 'w trun \<Rightarrow> bool \<times> 'w trun" where
  "admit_leaf E k r = (case node_at (fst r) k of
      None \<Rightarrow> (False, r)
    | Some n \<Rightarrow> (case sc_resolver E n (fst r) (snd r) of
        (Inl e, w) \<Rightarrow>
          let error = ''capability_resolver_error:'' @ show_exc_tight e in
          (False, sch_save E (sch_emit E ''task_blocked'' k [(''error'', PStr error)]
             (fail_node k TS_BLOCKED error (fst r, w))))
      | (Inr resolution, w) \<Rightarrow>
          (case (if cr_missing resolution = [] then None else sc_acquirer E) of
            None \<Rightarrow> block_missing E k (cr_missing resolution) (fst r, w)
          | Some acquire \<Rightarrow>
              let r1 = acquire_all E acquire k n (cr_missing resolution) (fst r, w) in
              (case sc_resolver E n (fst r1) (snd r1) of
                (Inl e, w1) \<Rightarrow> (False, sch_save E (fail_node k TS_BLOCKED
                   (''capability_resolver_error:'' @ show_exc_tight e) (fst r1, w1)))
              | (Inr again, w1) \<Rightarrow> block_missing E k (cr_missing again) (fst r1, w1)))))"

definition start_leaf :: "'w scheduler \<Rightarrow> string \<Rightarrow> 'w trun \<Rightarrow> bool \<times> 'w trun" where
  "start_leaf E k r =
     (if int (tg_leaf_executions (fst r)) \<ge> tb_max_leaf_executions (tg_budget (fst r))
      then (False, sch_save E (fail_node k TS_BLOCKED ''leaf_execution_budget_exhausted'' r))
      else
        let r1 = sch_upd k (\<lambda>n. n\<lparr>nd_status := TS_RUNNING, nd_attempts := nd_attempts n + 1\<rparr>) r;
            r2 = ((fst r1)\<lparr>tg_leaf_executions := tg_leaf_executions (fst r1) + 1\<rparr>, snd r1)
        in (True, sch_save E (sch_emit E ''leaf_execution_started'' k [] r2)))"

text \<open>\<open>[node for node in nodes if operation(graph, node)]\<close>.\<close>

fun keep_if :: "(string \<Rightarrow> 'w trun \<Rightarrow> bool \<times> 'w trun) \<Rightarrow> string list \<Rightarrow> 'w trun \<Rightarrow> string list \<times> 'w trun" where
  "keep_if f [] r = ([], r)"
| "keep_if f (k # ks) r =
     (let (b, r1) = f k r; (rest, r2) = keep_if f ks r1 in (if b then k # rest else rest, r2))"

section \<open>Running leaves\<close>

definition run_batch ::
  "'w scheduler \<Rightarrow> string list \<Rightarrow> 'w trun \<Rightarrow> (string list \<times> (string \<times> leaf_result) list) \<times> 'w trun" where
  "run_batch E admitted r =
     (let (prepared, r1) = keep_if (start_leaf E) admitted r;
          (results, w) = execute_leaf_batch (sc_executor E) (sc_snapshot E)
             (nodes_of (fst r1) prepared) (fst r1) (snd r1)
      in ((prepared, results), (fst r1, w)))"

definition record_lease :: "'w scheduler \<Rightarrow> string list \<Rightarrow> resource_lease \<Rightarrow> 'w trun \<Rightarrow> 'w trun" where
  "record_lease E admitted lease r =
     sch_save E (sch_emit E ''resource_lease_acquired'' (tg_root_id (fst r))
       (lease_payload (nodes_of (fst r) admitted) lease) r)"

fun apply_results :: "'w scheduler \<Rightarrow> (string \<times> leaf_result) list \<Rightarrow> string list \<Rightarrow> 'w trun \<Rightarrow> 'w trun" where
  "apply_results E results [] r = r"
| "apply_results E results (k # ks) r = apply_results E results ks
     (case dget results k of None \<Rightarrow> r | Some result \<Rightarrow> apply_leaf_result E k result True r)"

definition lease_refusal_error :: "'a leased_result \<Rightarrow> string" where
  "lease_refusal_error out = (case lo_acquisition_error out of
      Some e \<Rightarrow> e
    | None \<Rightarrow> (case lo_heartbeat_error out of
        Some e \<Rightarrow> e
      | None \<Rightarrow> ''resource_lease_unavailable:'' @
          (if str_join '','' (lo_conflicting out) = [] then ''unknown''
           else str_join '','' (lo_conflicting out))))"

definition lease_contention :: "'a leased_result \<Rightarrow> bool" where
  "lease_contention out \<longleftrightarrow> lo_acquisition_error out = None \<and> lo_heartbeat_error out = None \<and>
     lo_conflicting out \<noteq> []"

definition execute_ready_leaves :: "'w scheduler \<Rightarrow> task_node list \<Rightarrow> 'w trun \<Rightarrow> 'w trun" where
  "execute_ready_leaves E candidates r =
     (let selected = map nd_id (select_leaf_batch candidates (sc_policy E));
          (admitted, r1) = keep_if (admit_leaf E) selected r;
          claims = batch_claims (nodes_of (fst r1) admitted) (sc_policy E);
          owner = tg_id (fst r1) @ '':'' @ str_join '','' admitted;
          (out, r2) = run_leased_operation (sc_leases E) owner claims (record_lease E admitted)
             (run_batch E admitted) r1
      in case lo_value out of
          None \<Rightarrow> block_for_resource_lease E admitted (lease_refusal_error out) (lease_contention out) r2
        | Some (prepared, results) \<Rightarrow>
            let lease_error = (case lo_heartbeat_error out of
                  Some e \<Rightarrow> Some e | None \<Rightarrow> lo_release_error out);
                final = (case lease_error of
                  None \<Rightarrow> results
                | Some e \<Rightarrow> map (\<lambda>k. (k, plain_result ''failed'' ''resource lease lifecycle failed'' (Some e)))
                    prepared)
            in apply_results E final (sort prepared) r2)"

section \<open>The loop\<close>

definition dependencies_met :: "task_graph \<Rightarrow> task_node \<Rightarrow> bool" where
  "dependencies_met g n = all_completed g (nd_dependencies n)"

definition candidate_nodes :: "task_graph \<Rightarrow> task_node list" where
  "candidate_nodes g = sort_key (\<lambda>n. (nd_depth n, nd_id n))
     (filter (\<lambda>n. nd_status n \<in> {TS_PENDING, TS_READY} \<and> dependencies_met g n) (map snd (tg_nodes g)))"

definition root_terminal :: "task_graph \<Rightarrow> bool" where
  "root_terminal g = (case root_node g of None \<Rightarrow> False | Some n \<Rightarrow> terminal_status (nd_status n))"

definition deadlock :: "'w scheduler \<Rightarrow> 'w trun \<Rightarrow> 'w trun" where
  "deadlock E r =
     (let r1 = fail_node (tg_root_id (fst r)) TS_BLOCKED ''task_graph_deadlock'' r
      in sch_save E (sch_emit E ''task_graph_blocked'' (tg_root_id (fst r)) []
           ((fst r1)\<lparr>tg_stop_reason := Some ''task_graph_deadlock''\<rparr>, snd r1)))"

text \<open>One turn of the \<open>while\<close>; a \<open>break\<close> leaves a terminal root, on which the loop ends.\<close>

definition sched_pass :: "'w scheduler \<Rightarrow> 'w trun \<Rightarrow> 'w trun" where
  "sched_pass E r =
     (let (changed, r1) = propagate E r in
      if root_terminal (fst r1) then r1
      else
        let candidates = candidate_nodes (fst r1) in
        if candidates = [] then (if changed then r1 else deadlock E r1)
        else case select_pending_candidate candidates (sc_policy E) of
            Some n \<Rightarrow> assess_node E (nd_id n) r1
          | None \<Rightarrow> execute_ready_leaves E candidates r1)"

partial_function (option) sched_loop :: "'w scheduler \<Rightarrow> 'w trun \<Rightarrow> 'w trun option" where
  "sched_loop E r = (if root_terminal (fst r) then Some r else sched_loop E (sched_pass E r))"

declare sched_loop.simps [code]

definition begin_graph :: "'w scheduler \<Rightarrow> 'w trun \<Rightarrow> 'w trun" where
  "begin_graph E r = sch_save E (sch_emit E
     (if tg_events (fst r) \<noteq> [] then ''task_graph_resumed'' else ''task_graph_started'')
     (tg_root_id (fst r)) [] r)"

text \<open>\<open>graph.root.error or (graph.root.result.summary if ... else graph.stop_reason)\<close>.\<close>

definition final_reason :: "task_graph \<Rightarrow> string option" where
  "final_reason g = (case root_node g of
      None \<Rightarrow> tg_stop_reason g
    | Some n \<Rightarrow> if str_truthy (nd_error n) then nd_error n
        else (case nd_result n of Some x \<Rightarrow> Some (lr_summary x) | None \<Rightarrow> tg_stop_reason g))"

definition finish_graph :: "'w scheduler \<Rightarrow> 'w trun \<Rightarrow> 'w trun" where
  "finish_graph E r =
     (let g = (fst r)\<lparr>tg_stop_reason := final_reason (fst r)\<rparr>;
          status = (case root_node g of Some n \<Rightarrow> PStr (task_status_str (nd_status n)) | None \<Rightarrow> PNone)
      in sch_save E (sch_emit E ''task_graph_finished'' (tg_root_id g)
           [(''status'', status), (''reason'', popt_str (tg_stop_reason g))] (g, snd r)))"

definition run_scheduler :: "'w scheduler \<Rightarrow> 'w trun \<Rightarrow> py_exc + 'w trun option" where
  "run_scheduler E r = (case validate_task_graph (fst r) of
      Some e \<Rightarrow> Inl e
    | None \<Rightarrow> Inr (map_option (finish_graph E) (sched_loop E (begin_graph E r))))"

end
