(* ===== verification/Task_Steps.thy ===== *)
theory Task_Steps
  imports Task_Scheduler "HOL-Library.Multiset"
begin

text \<open>
  The abstract specification of the scheduler: which changes of a task graph are legal. A step
  \<open>gstep K D strict g g'\<close> is one legal change of the graph, where \<open>K\<close> bounds the retries of a leaf,
  \<open>D\<close> says that child keys hold no dot, and \<open>strict\<close> tells the steps that advance a task from
  those that only annotate. A step of a run also lets the outside world move. The component
  theory that follows shows that every operation of the scheduler is a sequence of such steps;
  here the consequences are proved once, by rule induction: a measure that strict steps
  decrease, and the invariants of reachable graphs.
\<close>

section \<open>Steps\<close>

text \<open>What no step changes of a node, and the part that only annotates.\<close>

definition same_place :: "task_node \<Rightarrow> task_node \<Rightarrow> bool" where
  "same_place n n' \<longleftrightarrow> nd_id n' = nd_id n \<and> nd_parent_id n' = nd_parent_id n \<and>
     nd_dependencies n' = nd_dependencies n \<and> nd_children n' = nd_children n \<and>
     nd_depth n' = nd_depth n"

definition advance_to :: "task_status \<Rightarrow> task_node \<Rightarrow> task_node \<Rightarrow> bool" where
  "advance_to s n n' \<longleftrightarrow> same_place n n' \<and> nd_status n' = s \<and> nd_attempts n' = nd_attempts n \<and>
     nd_retries n' = nd_retries n"

definition dot_free :: "string \<Rightarrow> bool" where
  "dot_free s \<longleftrightarrow> CHR ''.'' \<notin> set s"

definition live :: "task_node \<Rightarrow> bool" where
  "live n \<longleftrightarrow> \<not> terminal_status (nd_status n)"

inductive gstep :: "nat \<Rightarrow> bool \<Rightarrow> bool \<Rightarrow> task_graph \<Rightarrow> task_graph \<Rightarrow> bool" for K D where
  g_emit: "gstep K D False g (record_task_event x g)"
| g_reason: "gstep K D False g (g\<lparr>tg_stop_reason := reason\<rparr>)"
| g_note: "node_at g k = Some n \<Longrightarrow> live n \<Longrightarrow> advance_to (nd_status n) n (f n) \<Longrightarrow>
    gstep K D False g (upd_node k f g)"
| g_ready: "node_at g k = Some n \<Longrightarrow> nd_status n = TS_PENDING \<Longrightarrow> dependencies_met g n \<Longrightarrow>
    advance_to TS_READY n (f n) \<Longrightarrow> gstep K D True g (upd_node k f g)"
| g_start: "node_at g k = Some n \<Longrightarrow> nd_status n = TS_READY \<Longrightarrow> dependencies_met g n \<Longrightarrow>
    int (tg_leaf_executions g) < tb_max_leaf_executions (tg_budget g) \<Longrightarrow>
    same_place n (f n) \<Longrightarrow> nd_status (f n) = TS_RUNNING \<Longrightarrow> nd_attempts (f n) = nd_attempts n + 1 \<Longrightarrow>
    nd_retries (f n) = nd_retries n \<Longrightarrow>
    gstep K D True g ((upd_node k f g)\<lparr>tg_leaf_executions := tg_leaf_executions g + 1\<rparr>)"
| g_retry: "node_at g k = Some n \<Longrightarrow> nd_status n = TS_RUNNING \<or> nd_status n = TS_READY \<Longrightarrow>
    nd_retries n < K \<Longrightarrow> same_place n (f n) \<Longrightarrow> nd_status (f n) = TS_READY \<Longrightarrow>
    nd_attempts (f n) = nd_attempts n \<Longrightarrow> nd_retries (f n) = nd_retries n + 1 \<Longrightarrow>
    gstep K D True g (upd_node k f g)"
| g_done: "node_at g k = Some n \<Longrightarrow> live n \<Longrightarrow>
    nd_status n = TS_RUNNING \<or> (nd_children n \<noteq> [] \<and> all_completed g (nd_children n)) \<Longrightarrow>
    advance_to TS_COMPLETED n (f n) \<Longrightarrow> gstep K D True g (upd_node k f g)"
| g_fail: "node_at g k = Some n \<Longrightarrow> live n \<Longrightarrow> s = TS_FAILED \<or> s = TS_BLOCKED \<Longrightarrow>
    advance_to s n (f n) \<Longrightarrow> nd_error (f n) \<noteq> None \<Longrightarrow> gstep K D True g (upd_node k f g)"
| g_split: "node_at g k = Some n \<Longrightarrow> nd_id n = k \<Longrightarrow> nd_status n = TS_PENDING \<Longrightarrow>
    dependencies_met g n \<Longrightarrow> specs \<noteq> [] \<Longrightarrow> int (nd_depth n) < tb_max_depth (tg_budget g) \<Longrightarrow>
    int (length (tg_nodes g) + length specs) \<le> tb_max_nodes (tg_budget g) \<Longrightarrow>
    child_specs_error specs = None \<Longrightarrow> (D \<longrightarrow> (\<forall>s\<in>set specs. dot_free (cs_key s))) \<Longrightarrow>
    g' = upd_node k (\<lambda>n. n\<lparr>nd_status := TS_WAITING\<rparr>) (fold (add_child k n) specs g) \<Longrightarrow>
    gstep K D True g g'"

text \<open>Well-formed graphs: keys are the ids of the nodes, references stay inside, the graph fits its
  node budget.\<close>

definition refs_ok :: "task_graph \<Rightarrow> task_node \<Rightarrow> bool" where
  "refs_ok g n \<longleftrightarrow> set (nd_dependencies n) \<union> set (nd_children n) \<subseteq> set (dkeys (tg_nodes g))"

definition graph_wf :: "task_graph \<Rightarrow> bool" where
  "graph_wf g \<longleftrightarrow> wf_dict (tg_nodes g) \<and> (\<forall>k n. node_at g k = Some n \<longrightarrow> nd_id n = k \<and> refs_ok g n) \<and>
     node_at g (tg_root_id g) \<noteq> None \<and> int (length (tg_nodes g)) \<le> tb_max_nodes (tg_budget g)"

section \<open>Lookups after a split\<close>

lemma split_node_at:
  assumes "node_at g k = Some n" "nd_id n = k" "child_specs_error specs = None"
  shows "node_at (upd_node k (\<lambda>n. n\<lparr>nd_status := TS_WAITING\<rparr>) (fold (add_child k n) specs g)) k' =
    (if k' = k then Some (n\<lparr>nd_children := nd_children n @ map (child_id k \<circ> cs_key) specs, nd_status := TS_WAITING\<rparr>)
     else case find (\<lambda>s. child_id k (cs_key s) = k') specs of
       Some s \<Rightarrow> Some (child_node n s) | None \<Rightarrow> node_at g k')"
  using assms child_specs_ok [OF assms(3)] by (simp add: node_at_add_children)

lemma find_child:
  "find (\<lambda>s. child_id k (cs_key s) = k') specs = Some s \<Longrightarrow> s \<in> set specs \<and> k' = child_id k (cs_key s)"
  by (auto simp: find_Some_iff)

section \<open>Structure is preserved\<close>

lemma same_place_refs: "same_place n n' \<Longrightarrow> refs_ok g n' = refs_ok g n"
  by (simp add: same_place_def refs_ok_def)

lemma refs_ok_upd [simp]: "refs_ok (upd_node k f g) n = refs_ok g n"
  "refs_ok (g\<lparr>tg_leaf_executions := m\<rparr>) n = refs_ok g n"
  "refs_ok (g\<lparr>tg_stop_reason := x\<rparr>) n = refs_ok g n"
  "refs_ok (record_task_event e g) n = refs_ok g n"
  by (simp_all add: refs_ok_def)

lemma graph_wf_upd:
  assumes "graph_wf g" "node_at g k = Some n" "same_place n (f n)"
  shows "graph_wf (upd_node k f g)"
  using assms same_place_refs [of n "f n" g]
  by (auto simp: graph_wf_def same_place_def upd_node_def [of k f g] dict_simps node_at_def
      refs_ok_def split: if_splits)

lemma graph_wf_split:
  assumes "graph_wf g" "node_at g k = Some n" "nd_id n = k" "child_specs_error specs = None"
    "int (length (tg_nodes g) + length specs) \<le> tb_max_nodes (tg_budget g)"
  shows "graph_wf (upd_node k (\<lambda>n. n\<lparr>nd_status := TS_WAITING\<rparr>) (fold (add_child k n) specs g))"
proof -
  let ?g = "upd_node k (\<lambda>n. n\<lparr>nd_status := TS_WAITING\<rparr>) (fold (add_child k n) specs g)"
  note at = split_node_at [OF assms(2-4)]
  have "nd_id m = k' \<and> refs_ok ?g m" if m: "node_at ?g k' = Some m" for k' m
  proof (cases "k' = k")
    case True
    from m [unfolded at] True have "m = n\<lparr>nd_children := nd_children n @ map (child_id k \<circ> cs_key) specs, nd_status := TS_WAITING\<rparr>"
      by simp
    moreover have "refs_ok g n" using assms(1,2) by (auto simp: graph_wf_def)
    ultimately show ?thesis using True assms(3) by (auto simp: refs_ok_def dkeys_add_children)
  next
    case False
    show ?thesis
    proof (cases "find (\<lambda>s. child_id k (cs_key s) = k') specs")
      case None
      from m [unfolded at] False None have "node_at g k' = Some m" by simp
      with assms(1) have "nd_id m = k' \<and> refs_ok g m" by (auto simp: graph_wf_def)
      then show ?thesis by (auto simp: refs_ok_def dkeys_add_children)
    next
      case (Some s)
      from m [unfolded at] False Some have "m = child_node n s" by simp
      moreover have "s \<in> set specs" "k' = child_id k (cs_key s)" using find_child [OF Some] by auto
      moreover have "set (cs_depends_on s) \<subseteq> cs_key ` set specs"
        using child_specs_ok(3) [OF assms(4)] \<open>s \<in> set specs\<close> by blast
      ultimately show ?thesis using assms(3)
        by (auto simp: refs_ok_def dkeys_add_children child_node_def new_node_def)
    qed
  qed
  moreover have "wf_dict (tg_nodes ?g)"
    using assms(1) wf_add_children [of g k n specs] by (simp add: graph_wf_def upd_node_def)
  moreover have "node_at ?g (tg_root_id ?g) \<noteq> None"
    unfolding at using assms(1) by (auto simp: graph_wf_def split: option.splits)
  moreover have "int (length (tg_nodes ?g)) \<le> tb_max_nodes (tg_budget ?g)"
    using assms(5) length_add_children [of g k n specs] by simp
  ultimately show ?thesis by (simp add: graph_wf_def)
qed

lemma graph_wf_fields [simp]:
  "graph_wf (record_task_event x g) = graph_wf g"
  "graph_wf (g\<lparr>tg_stop_reason := r\<rparr>) = graph_wf g"
  "graph_wf (g\<lparr>tg_leaf_executions := m\<rparr>) = graph_wf g"
  by (simp_all add: graph_wf_def)

lemma gstep_wf: "gstep K D c g g' \<Longrightarrow> graph_wf g \<Longrightarrow> graph_wf g'"
  by (induction rule: gstep.induct)
    (auto simp: advance_to_def intro: graph_wf_upd graph_wf_split)

lemma gstep_constants:
  "gstep K D c g g' \<Longrightarrow> tg_id g' = tg_id g \<and> tg_root_id g' = tg_root_id g \<and> tg_budget g' = tg_budget g"
  by (induction rule: gstep.induct) auto

section \<open>A measure that strict steps decrease\<close>

text \<open>
  A task's rank falls with every advance, a retry included; a split resets no rank but those of
  nodes with longer ids, and adds nodes only within the node budget. So the pair of free node
  slots and the multiset of (missing id length, rank) decreases lexicographically. The argument
  also covers child keys whose ids collide with existing nodes.
\<close>

definition task_rank :: "nat \<Rightarrow> task_node \<Rightarrow> nat" where
  "task_rank K n = (case nd_status n of
      TS_PENDING \<Rightarrow> 3 + 2 * (K - nd_retries n)
    | TS_READY \<Rightarrow> 2 + 2 * (K - nd_retries n)
    | TS_RUNNING \<Rightarrow> 1 + 2 * (K - nd_retries n)
    | TS_WAITING \<Rightarrow> 1
    | _ \<Rightarrow> 0)"

definition rank_at :: "nat \<Rightarrow> task_graph \<Rightarrow> string \<Rightarrow> nat" where
  "rank_at K g k = (case node_at g k of None \<Rightarrow> 0 | Some n \<Rightarrow> task_rank K n)"

definition key_bound :: "task_graph \<Rightarrow> nat" where
  "key_bound g = sum_list (map length (dkeys (tg_nodes g)))"

definition task_measure :: "nat \<Rightarrow> task_graph \<Rightarrow> nat \<times> (nat \<times> nat) multiset" where
  "task_measure K g = (nat (tb_max_nodes (tg_budget g)) - length (tg_nodes g),
     image_mset (\<lambda>k. (key_bound g - length k, rank_at K g k)) (mset_set (set (dkeys (tg_nodes g)))))"

definition measure_order :: "((nat \<times> (nat \<times> nat) multiset) \<times> (nat \<times> (nat \<times> nat) multiset)) set" where
  "measure_order = less_than <*lex*> mult (less_than <*lex*> less_than)"

lemma wf_measure_order: "wf measure_order"
  unfolding measure_order_def by (intro wf_lex_prod wf_mult wf_less_than)

lemma trans_measure_order: "trans measure_order"
  unfolding measure_order_def by (intro trans_lex_prod trans_mult trans_less_than)

lemma mult_change:
  assumes "finite S" "T \<subseteq> S" "k \<in> T" "\<forall>x\<in>S - T. f' x = f x" "\<forall>x\<in>T. (f' x, f k) \<in> r"
  shows "(image_mset f' (mset_set S), image_mset f (mset_set S)) \<in> mult r"
proof -
  have fin: "finite T" "finite (S - T)" using assms(1,2) finite_subset by auto
  have "S = (S - T) \<union> T" using assms(2) by auto
  then have S: "mset_set S = mset_set (S - T) + mset_set T"
    using mset_set_Union [of "S - T" T] fin by auto
  have same: "image_mset f' (mset_set (S - T)) = image_mset f (mset_set (S - T))"
    using assms(4) fin by (intro image_mset_cong) simp
  have "(image_mset f (mset_set (S - T)) + image_mset f' (mset_set T),
      image_mset f (mset_set (S - T)) + image_mset f (mset_set T)) \<in> mult r"
  proof (rule one_step_implies_mult)
    show "image_mset f (mset_set T) \<noteq> {#}" using assms(3) fin by (auto simp: mset_set_empty_iff)
    show "\<forall>x\<in>set_mset (image_mset f' (mset_set T)). \<exists>y\<in>set_mset (image_mset f (mset_set T)). (x, y) \<in> r"
      using assms(3,5) fin by auto
  qed
  then show ?thesis unfolding S by (simp add: same)
qed

lemma key_le_bound: "k \<in> set (dkeys (tg_nodes g)) \<Longrightarrow> length k \<le> key_bound g"
  unfolding key_bound_def by (rule member_le_sum_list) auto

lemma node_at_key: "node_at g k = Some n \<Longrightarrow> k \<in> set (dkeys (tg_nodes g))"
  unfolding node_at_def by (rule dget_Some_key)

lemma upd_rank_decreases:
  assumes "node_at g k = Some n" "task_rank K (f n) < task_rank K n"
  shows "(task_measure K (upd_node k f g), task_measure K g) \<in> measure_order"
  unfolding measure_order_def task_measure_def
  using assms node_at_key [OF assms(1)]
  by (auto simp: key_bound_def rank_at_def intro!: mult_change [where T = "{k}"])

lemma upd_rank_same:
  assumes "node_at g k = Some n" "task_rank K (f n) = task_rank K n"
  shows "task_measure K (upd_node k f g) = task_measure K g"
  using assms by (auto simp: task_measure_def key_bound_def rank_at_def intro!: image_mset_cong)

lemma task_measure_fields [simp]:
  "task_measure K (record_task_event x g) = task_measure K g"
  "task_measure K (g\<lparr>tg_stop_reason := r\<rparr>) = task_measure K g"
  "task_measure K (g\<lparr>tg_leaf_executions := m\<rparr>) = task_measure K g"
  by (simp_all add: task_measure_def key_bound_def rank_at_def)

lemma dkeys_add_children_same:
  "length (tg_nodes (fold (add_child k p) ss g)) = length (tg_nodes g) \<Longrightarrow>
   dkeys (tg_nodes (fold (add_child k p) ss g)) = dkeys (tg_nodes g)"
proof (induction ss arbitrary: g)
  case (Cons s ss)
  let ?g = "add_child k p s g"
  have "length (tg_nodes ?g) \<le> length (tg_nodes (fold (add_child k p) ss ?g))"
    "length (tg_nodes g) \<le> length (tg_nodes ?g)"
    using length_add_children [of ?g k p ss] length_add_children [of g k p "[s]"] by simp_all
  with Cons.prems have eq: "length (tg_nodes ?g) = length (tg_nodes g)"
    "length (tg_nodes (fold (add_child k p) ss ?g)) = length (tg_nodes ?g)" by simp_all
  have "dkeys (tg_nodes ?g) = dkeys (tg_nodes g)"
    using eq(1) by (auto simp: add_child_def Let_def upd_node_def length_dset dkeys_dset_old split: if_splits)
  with Cons.IH [OF eq(2)] show ?case by simp
qed simp

lemma split_decreases:
  assumes "graph_wf g" "node_at g k = Some n" "nd_id n = k" "nd_status n = TS_PENDING"
    "child_specs_error specs = None" "int (length (tg_nodes g) + length specs) \<le> tb_max_nodes (tg_budget g)"
  defines "g' \<equiv> upd_node k (\<lambda>n. n\<lparr>nd_status := TS_WAITING\<rparr>) (fold (add_child k n) specs g)"
  shows "(task_measure K g', task_measure K g) \<in> measure_order"
proof (cases "length (tg_nodes g') = length (tg_nodes g)")
  case False
  with length_add_children [of g k n specs] assms(6) show ?thesis
    by (auto simp: measure_order_def task_measure_def g'_def)
next
  case True
  then have keys: "dkeys (tg_nodes g') = dkeys (tg_nodes g)"
    using dkeys_add_children_same [of k n specs g] by (simp add: g'_def)
  let ?C = "(child_id k \<circ> cs_key) ` set specs"
  let ?S = "set (dkeys (tg_nodes g))"
  let ?f = "\<lambda>g x. (key_bound g - length x, rank_at K g x)"
  have bound: "key_bound g' = key_bound g" by (simp add: key_bound_def keys)
  have kS: "k \<in> ?S" using assms(2) by (rule node_at_key)
  have CS: "?C \<subseteq> ?S" using keys dkeys_add_children [of k n specs g] assms(3) by (auto simp: g'_def)
  note at = split_node_at [OF assms(2,3,5), folded g'_def]
  have other: "rank_at K g' x = rank_at K g x" if "x \<notin> insert k ?C" for x
  proof -
    have "find (\<lambda>s. child_id k (cs_key s) = x) specs = None" using that by (auto simp: find_None_iff)
    with that at [of x] show ?thesis by (simp add: rank_at_def)
  qed
  have "(image_mset (?f g') (mset_set ?S), image_mset (?f g) (mset_set ?S)) \<in> mult (less_than <*lex*> less_than)"
  proof (rule mult_change [where T = "insert k ?C" and k = k])
    show "\<forall>x\<in>?S - insert k ?C. ?f g' x = ?f g x" using other bound by auto
    show "\<forall>x\<in>insert k ?C. (?f g' x, ?f g k) \<in> less_than <*lex*> less_than"
    proof
      fix x assume "x \<in> insert k ?C"
      then consider "x = k" | s where "s \<in> set specs" "x = child_id k (cs_key s)" by auto
      then show "(?f g' x, ?f g k) \<in> less_than <*lex*> less_than"
      proof cases
        case 1
        with at [of k] assms(2,4) bound show ?thesis by (simp add: rank_at_def task_rank_def)
      next
        case 2
        then have "x \<in> ?S" using CS by auto
        then have "length x \<le> key_bound g" by (rule key_le_bound)
        moreover have "length k < length x" using 2 by (simp add: child_id_def)
        ultimately have "key_bound g' - length x < key_bound g - length k" using bound by linarith
        then show ?thesis by simp
      qed
    qed
  qed (use kS CS in auto)
  then show ?thesis
    using True keys by (simp add: measure_order_def task_measure_def g'_def)
qed

lemma gstep_measure:
  assumes "gstep K D c g g'" "graph_wf g"
  shows "(if c then (task_measure K g', task_measure K g) \<in> measure_order
          else task_measure K g' = task_measure K g)"
  using assms
proof (induction rule: gstep.induct)
  case (g_note g k n f)
  then have "task_rank K (f n) = task_rank K n" by (simp add: advance_to_def task_rank_def cong: task_status.case_cong)
  with g_note(1) show ?case by (simp add: upd_rank_same)
next
  case (g_ready g k n f)
  then show ?case by (simp add: upd_rank_decreases advance_to_def task_rank_def)
next
  case (g_start g k n f)
  then show ?case by (simp add: upd_rank_decreases task_rank_def)
next
  case (g_retry g k n f)
  have "task_rank K (f n) < task_rank K n" using g_retry by (auto simp: task_rank_def)
  with g_retry(1) show ?case by (simp add: upd_rank_decreases)
next
  case (g_done g k n f)
  have "task_rank K (f n) < task_rank K n"
    using g_done by (cases "nd_status n") (auto simp: task_rank_def advance_to_def live_def)
  with g_done(1) show ?case by (simp add: upd_rank_decreases)
next
  case (g_fail g k n s f)
  have "task_rank K (f n) < task_rank K n"
    using g_fail by (cases "nd_status n") (auto simp: task_rank_def advance_to_def live_def)
  with g_fail(1) show ?case by (simp add: upd_rank_decreases)
next
  case (g_split g k n specs g')
  then show ?case by (simp add: split_decreases)
qed simp_all

section \<open>Invariants of reachable graphs\<close>

lemma child_id_unique:
  assumes "child_id p s = child_id p' s'" "dot_free s" "dot_free s'"
  shows "p = p' \<and> s = s'"
proof -
  have tw: "takeWhile (\<lambda>c. c \<noteq> CHR ''.'') (rev (child_id q t)) = rev t" if "dot_free t" for q t
    using that by (auto simp: child_id_def dot_free_def takeWhile_append)
  from assms tw [of s p] tw [of s' p'] have "rev s = rev s'" by simp
  with assms(1) show ?thesis by (simp add: child_id_def)
qed

lemma child_id_not_dot_free: "\<not> dot_free (child_id p s)"
  by (simp add: child_id_def dot_free_def)

text \<open>A node hangs below the parent whose id is its own without the last component.\<close>

definition placed :: "task_graph \<Rightarrow> task_node \<Rightarrow> bool" where
  "placed g n \<longleftrightarrow> nd_id n = tg_root_id g \<or> (\<exists>p s pn. nd_id n = child_id p s \<and> dot_free s \<and>
     node_at g p = Some pn \<and> nd_id n \<in> set (nd_children pn))"

lemma placedI:
  "nd_id n = child_id p s \<Longrightarrow> dot_free s \<Longrightarrow> node_at g p = Some pn \<Longrightarrow>
     nd_id n \<in> set (nd_children pn) \<Longrightarrow> placed g n"
  by (auto simp: placed_def)

definition node_ok :: "nat \<Rightarrow> task_graph \<Rightarrow> task_node \<Rightarrow> bool" where
  "node_ok K g n \<longleftrightarrow>
     (nd_status n \<in> {TS_PENDING, TS_READY, TS_RUNNING} \<longrightarrow> nd_children n = []) \<and>
     (nd_status n \<notin> {TS_PENDING, TS_FAILED, TS_BLOCKED} \<longrightarrow> dependencies_met g n) \<and>
     (nd_status n = TS_COMPLETED \<longrightarrow> all_completed g (nd_children n)) \<and>
     (nd_status n \<in> {TS_FAILED, TS_BLOCKED} \<longrightarrow> nd_error n \<noteq> None) \<and>
     nd_retries n \<le> K \<and> int (nd_depth n) \<le> tb_max_depth (tg_budget g) \<and> placed g n"

definition graph_good :: "nat \<Rightarrow> task_graph \<Rightarrow> bool" where
  "graph_good K g \<longleftrightarrow> graph_wf g \<and> dot_free (tg_root_id g) \<and> numbered te_sequence (tg_events g) \<and>
     int (tg_leaf_executions g) \<le> tb_max_leaf_executions (tg_budget g) \<and>
     (\<forall>k n. node_at g k = Some n \<longrightarrow> node_ok K g n)"

lemma all_completed_fields [simp]:
  "all_completed (record_task_event x g) ks = all_completed g ks"
  "all_completed (g\<lparr>tg_stop_reason := r\<rparr>) ks = all_completed g ks"
  "all_completed (g\<lparr>tg_leaf_executions := m\<rparr>) ks = all_completed g ks"
  by (simp_all add: all_completed_def)

lemma dependencies_met_fields [simp]:
  "dependencies_met (record_task_event x g) n = dependencies_met g n"
  "dependencies_met (g\<lparr>tg_stop_reason := r\<rparr>) n = dependencies_met g n"
  "dependencies_met (g\<lparr>tg_leaf_executions := m\<rparr>) n = dependencies_met g n"
  by (simp_all add: dependencies_met_def)

lemma node_ok_fields [simp]:
  "node_ok K (record_task_event x g) n = node_ok K g n"
  "node_ok K (g\<lparr>tg_stop_reason := r\<rparr>) n = node_ok K g n"
  "node_ok K (g\<lparr>tg_leaf_executions := m\<rparr>) n = node_ok K g n"
  by (simp_all add: node_ok_def placed_def)

lemma graph_good_fields [simp]:
  "graph_good K (g\<lparr>tg_stop_reason := r\<rparr>) = graph_good K g"
  by (simp add: graph_good_def)

lemma graph_good_emit: "graph_good K g \<Longrightarrow> graph_good K (record_task_event x g)"
  by (simp add: graph_good_def task_log.emit_numbered)

lemma graph_good_start:
  "graph_good K g \<Longrightarrow> int m \<le> tb_max_leaf_executions (tg_budget g) \<Longrightarrow>
     graph_good K (g\<lparr>tg_leaf_executions := m\<rparr>)"
  by (simp add: graph_good_def)

text \<open>Completed tasks stay completed when a live node is updated.\<close>

lemma all_completed_upd:
  assumes "node_at g k = Some n" "live n" "all_completed g ks"
  shows "all_completed (upd_node k f g) ks"
  using assms by (auto simp: all_completed_def list_all_iff status_at_def live_def)

lemma placed_upd:
  assumes "node_at g k = Some n" "same_place n (f n)" "placed g m"
  shows "placed (upd_node k f g) m"
proof (cases "nd_id m = tg_root_id g")
  case False
  with assms(3) obtain p s pn where p: "nd_id m = child_id p s" "dot_free s" "node_at g p = Some pn"
    "nd_id m \<in> set (nd_children pn)" by (auto simp: placed_def)
  obtain qn where "node_at (upd_node k f g) p = Some qn" "nd_id m \<in> set (nd_children qn)"
    using p assms(1,2) by (cases "p = k") (auto simp: same_place_def)
  with p(1,2) show ?thesis by (rule placedI)
qed (simp add: placed_def)

lemma graph_good_upd:
  assumes "graph_good K g" "node_at g k = Some n" "live n" "same_place n (f n)"
    and "nd_status (f n) \<in> {TS_PENDING, TS_READY, TS_RUNNING} \<longrightarrow> nd_children n = []"
    and "nd_status (f n) \<notin> {TS_PENDING, TS_FAILED, TS_BLOCKED} \<longrightarrow> dependencies_met g n"
    and "nd_status (f n) = TS_COMPLETED \<longrightarrow> all_completed g (nd_children n)"
    and "nd_status (f n) \<in> {TS_FAILED, TS_BLOCKED} \<longrightarrow> nd_error (f n) \<noteq> None"
    and "nd_retries (f n) \<le> K"
  shows "graph_good K (upd_node k f g)"
proof -
  note sp = assms(4) [unfolded same_place_def]
  have wf: "graph_wf (upd_node k f g)"
    using assms(1,2,4) by (intro graph_wf_upd) (auto simp: graph_good_def)
  have ok: "node_ok K g m" if "node_at g k' = Some m" for k' m
    using assms(1) that by (auto simp: graph_good_def)
  have keep: "node_ok K (upd_node k f g) m" if m: "node_ok K g m" for m
    using m all_completed_upd [where f = f, OF assms(2,3)] placed_upd [where f = f, OF assms(2,4)]
    unfolding node_ok_def dependencies_met_def by auto
  have "node_ok K (upd_node k f g) (f n)"
  proof -
    have "placed (upd_node k f g) (f n)"
      using placed_upd [where f = f, OF assms(2,4), of n] ok [OF assms(2)] sp by (simp add: node_ok_def placed_def)
    then show ?thesis
      using assms(5-9) ok [OF assms(2)] all_completed_upd [where f = f, OF assms(2,3)] sp
      unfolding node_ok_def dependencies_met_def by auto
  qed
  then have "\<forall>k' m. node_at (upd_node k f g) k' = Some m \<longrightarrow> node_ok K (upd_node k f g) m"
    using assms(2) keep ok by (auto split: if_splits)
  with wf assms(1) show ?thesis by (simp add: graph_good_def)
qed

text \<open>With dot-free keys a split only adds nodes.\<close>

lemma split_fresh:
  assumes "graph_good K g" "node_at g k = Some n" "nd_status n = TS_PENDING" "dot_free s"
  shows "node_at g (child_id k s) = None"
proof (rule ccontr)
  assume "node_at g (child_id k s) \<noteq> None"
  then obtain m where m: "node_at g (child_id k s) = Some m" by blast
  have "nd_id m = child_id k s" using assms(1) m by (auto simp: graph_good_def graph_wf_def)
  moreover have "placed g m" "node_ok K g n"
    using assms(1,2) m by (auto simp: graph_good_def node_ok_def)
  moreover have "child_id k s \<noteq> tg_root_id g"
    using assms(1) child_id_not_dot_free [of k s] by (auto simp: graph_good_def)
  ultimately obtain p t pn where p: "child_id k s = child_id p t" "dot_free t" "node_at g p = Some pn"
    "child_id k s \<in> set (nd_children pn)" by (auto simp: placed_def)
  from child_id_unique [OF p(1) assms(4) p(2)] p(3) assms(2) have "pn = n" by simp
  with p(4) \<open>node_ok K g n\<close> assms(3) show False by (simp add: node_ok_def)
qed

lemma graph_good_split:
  assumes good: "graph_good K g" and n: "node_at g k = Some n" "nd_id n = k" "nd_status n = TS_PENDING"
    and "dependencies_met g n" "int (nd_depth n) < tb_max_depth (tg_budget g)"
    and bound: "int (length (tg_nodes g) + length specs) \<le> tb_max_nodes (tg_budget g)"
    and specs: "child_specs_error specs = None" "\<forall>s\<in>set specs. dot_free (cs_key s)"
  defines "g' \<equiv> upd_node k (\<lambda>n. n\<lparr>nd_status := TS_WAITING\<rparr>) (fold (add_child k n) specs g)"
  shows "graph_good K g'"
proof -
  note at = split_node_at [OF n(1,2) specs(1), folded g'_def]
  let ?n' = "n\<lparr>nd_children := nd_children n @ map (child_id k \<circ> cs_key) specs, nd_status := TS_WAITING\<rparr>"
  have fields: "tg_root_id g' = tg_root_id g" "tg_budget g' = tg_budget g" "tg_events g' = tg_events g"
    "tg_leaf_executions g' = tg_leaf_executions g" by (simp_all add: g'_def)
  have wf: "graph_wf g'"
    unfolding g'_def using good n specs bound by (intro graph_wf_split) (auto simp: graph_good_def)
  have old: "node_at g' x = node_at g x" if x: "node_at g x \<noteq> None" "x \<noteq> k" for x
  proof -
    have "find (\<lambda>s. child_id k (cs_key s) = x) specs = None"
      using split_fresh [OF good n(1,3)] specs(2) x(1) by (fastforce simp: find_None_iff)
    with at [of x] x(2) show ?thesis by simp
  qed
  have comp: "all_completed g' ks" if "all_completed g ks" for ks
    unfolding all_completed_def list_all_iff
  proof
    fix x assume "x \<in> set ks"
    with that have x: "status_at g x = Some TS_COMPLETED" by (auto simp: all_completed_def list_all_iff)
    then have "node_at g x \<noteq> None" "x \<noteq> k" using n by (auto simp: status_at_def)
    from old [OF this] x show "status_at g' x = Some TS_COMPLETED" by (simp add: status_at_def)
  qed
  have place: "placed g' m" if "placed g m" for m
  proof (cases "nd_id m = tg_root_id g")
    case False
    with that obtain p s pn where p: "nd_id m = child_id p s" "dot_free s" "node_at g p = Some pn"
      "nd_id m \<in> set (nd_children pn)" by (auto simp: placed_def)
    obtain qn where "node_at g' p = Some qn" "nd_id m \<in> set (nd_children qn)"
      using p n(1) old [of p] at [of k] by (cases "p = k") auto
    with p(1,2) show ?thesis by (rule placedI)
  qed (simp add: placed_def fields)
  have ok: "node_ok K g m" if "node_at g x = Some m" for x m
    using good that by (auto simp: graph_good_def)
  have keep: "node_ok K g' m" if "node_ok K g m" for m
    using that comp place unfolding node_ok_def dependencies_met_def by (auto simp: fields)
  have parent: "node_ok K g' ?n'"
    using ok [OF n(1)] comp place [of n] assms(5)
    by (auto simp: node_ok_def dependencies_met_def fields placed_def)
  have child: "node_ok K g' (child_node n s)" if s: "s \<in> set specs" for s
  proof -
    have "placed g' (child_node n s)"
      by (rule placedI [of _ k "cs_key s" _ ?n'])
        (use s specs(2) n(2) at [of k] in \<open>auto simp: child_node_def new_node_def\<close>)
    then show ?thesis using assms(6) by (auto simp: node_ok_def child_node_def new_node_def fields)
  qed
  have "node_ok K g' m" if m: "node_at g' x = Some m" for x m
  proof (cases "x = k")
    case True
    with m at [of k] parent show ?thesis by simp
  next
    case False
    show ?thesis
    proof (cases "find (\<lambda>s. child_id k (cs_key s) = x) specs")
      case None
      with m False at [of x] have "node_at g x = Some m" by simp
      with ok keep show ?thesis by blast
    next
      case (Some s)
      with m False at [of x] have "m = child_node n s" by simp
      with child find_child [OF Some] show ?thesis by simp
    qed
  qed
  with wf good show ?thesis by (simp add: graph_good_def fields)
qed

lemma gstep_good: "gstep K True c g g' \<Longrightarrow> graph_good K g \<Longrightarrow> graph_good K g'"
proof (induction rule: gstep.induct)
  case (g_emit g x)
  then show ?case by (simp add: graph_good_emit)
next
  case (g_note g k n f)
  then have "node_ok K g n" by (auto simp: graph_good_def)
  then show ?case
    by (intro graph_good_upd [of K g k n f])
      (use g_note in \<open>simp_all add: advance_to_def node_ok_def live_def terminal_status_def\<close>)
next
  case (g_ready g k n f)
  then have "node_ok K g n" by (auto simp: graph_good_def)
  then show ?case
    by (intro graph_good_upd [of K g k n f])
      (use g_ready in \<open>simp_all add: advance_to_def node_ok_def live_def\<close>)
next
  case (g_start g k n f)
  then have "node_ok K g n" by (auto simp: graph_good_def)
  then have "graph_good K (upd_node k f g)"
    by (intro graph_good_upd [of K g k n f]) (use g_start in \<open>simp_all add: node_ok_def live_def\<close>)
  with g_start show ?case by (intro graph_good_start) auto
next
  case (g_retry g k n f)
  then have "node_ok K g n" by (auto simp: graph_good_def)
  then show ?case
    by (intro graph_good_upd [of K g k n f])
      (use g_retry in \<open>auto simp: node_ok_def live_def\<close>)
next
  case (g_done g k n f)
  then have ok: "node_ok K g n" by (auto simp: graph_good_def)
  have "all_completed g (nd_children n) \<and> dependencies_met g n"
    using ok g_done by (auto simp: node_ok_def live_def all_completed_def)
  with ok show ?case
    by (intro graph_good_upd [of K g k n f])
      (use g_done in \<open>simp_all add: advance_to_def node_ok_def\<close>)
next
  case (g_fail g k n s f)
  then have "node_ok K g n" by (auto simp: graph_good_def)
  then show ?case
    by (intro graph_good_upd [of K g k n f])
      (use g_fail in \<open>auto simp: advance_to_def node_ok_def\<close>)
next
  case (g_split g k n specs g')
  then show ?case by (simp add: graph_good_split)
qed simp

lemma upd_keeps_terminal:
  "node_at g k = Some n \<Longrightarrow> live n \<Longrightarrow> node_at g j = Some m \<Longrightarrow> \<not> live m \<Longrightarrow> node_at (upd_node k f g) j = Some m"
  by auto

text \<open>A terminal task never changes again, and events are only appended.\<close>

lemma gstep_terminal:
  assumes "gstep K True c g g'" "graph_good K g" "node_at g j = Some m" "\<not> live m"
  shows "node_at g' j = Some m"
  using assms
proof (induction rule: gstep.induct)
  case (g_split g k n specs g')
  have "j \<noteq> k" using g_split by (auto simp: live_def)
  moreover have "find (\<lambda>s. child_id k (cs_key s) = j) specs = None"
    using split_fresh [OF g_split(11,1,3)] g_split(9,12) by (fastforce simp: find_None_iff)
  ultimately show ?case
    unfolding g_split(10) split_node_at [OF g_split(1,2,8)] using g_split(12) by simp
next
  case (g_start g k n f)
  then have "live n" by (simp add: live_def)
  with g_start upd_keeps_terminal [of g k n j m f] show ?case by simp
next
  case (g_retry g k n f)
  then have "live n" by (auto simp: live_def)
  with g_retry show ?case by (intro upd_keeps_terminal) auto
next
  case (g_ready g k n f)
  then have "live n" by (simp add: live_def)
  with g_ready show ?case by (intro upd_keeps_terminal) auto
qed (auto intro: upd_keeps_terminal)

lemma gstep_events: "gstep K D c g g' \<Longrightarrow> \<exists>es. tg_events g' = tg_events g @ es"
  by (induction rule: gstep.induct) (auto simp: record_task_event_def split: prod.splits)

text \<open>When the root is completed, so is every task below it.\<close>

lemma root_completed_all:
  assumes "graph_good K g" "status_at g (tg_root_id g) = Some TS_COMPLETED" "node_at g k = Some n"
  shows "nd_status n = TS_COMPLETED"
  using assms(3)
proof (induction "length k" arbitrary: k n rule: less_induct)
  case less
  have idk: "nd_id n = k" and pl: "placed g n"
    using assms(1) less(2) by (auto simp: graph_good_def graph_wf_def node_ok_def)
  show ?case
  proof (cases "k = tg_root_id g")
    case True
    with assms(2) less(2) show ?thesis by (simp add: status_at_def)
  next
    case False
    with pl idk obtain p s pn where p: "k = child_id p s" "node_at g p = Some pn" "k \<in> set (nd_children pn)"
      by (auto simp: placed_def)
    have "length p < length k" using p(1) by (simp add: child_id_def)
    from less(1) [OF this p(2)] have "nd_status pn = TS_COMPLETED" .
    with assms(1) p have "all_completed g (nd_children pn)"
      by (auto simp: graph_good_def node_ok_def)
    with p(3) less(2) show ?thesis by (auto simp: all_completed_def list_all_iff status_at_def)
  qed
qed

section \<open>Runs\<close>

text \<open>What a port call may do to the outside world, saving apart.\<close>

inductive world_step :: "'w scheduler \<Rightarrow> 'w \<Rightarrow> 'w \<Rightarrow> bool" for E where
  "sc_decomposer E n g w = (x1, w') \<Longrightarrow> world_step E w w'"
| "sc_resolver E n g w = (x2, w') \<Longrightarrow> world_step E w w'"
| "sc_acquirer E = Some f \<Longrightarrow> f c n g w = (x3, w') \<Longrightarrow> world_step E w w'"
| "sc_executor E n g w = (x4, w') \<Longrightarrow> world_step E w w'"
| "sc_snapshot E g w = (x5, w') \<Longrightarrow> world_step E w w'"
| "sc_verifier E n g w = (x6, w') \<Longrightarrow> world_step E w w'"
| "sc_waiter E = Some h \<Longrightarrow> h d n g w = (x7, w') \<Longrightarrow> world_step E w w'"
| "sc_clock E w = (x8, w') \<Longrightarrow> world_step E w w'"
| "sc_utc_now E w = (x9, w') \<Longrightarrow> world_step E w w'"
| "sc_leases E = Some M \<Longrightarrow> lm_interval M w = (y1, w') \<Longrightarrow> world_step E w w'"
| "sc_leases E = Some M \<Longrightarrow> lm_acquire M ow cs w = (y2, w') \<Longrightarrow> world_step E w w'"
| "sc_leases E = Some M \<Longrightarrow> lm_renew M l w = (y3, w') \<Longrightarrow> world_step E w w'"
| "sc_leases E = Some M \<Longrightarrow> lm_release M l w = (y4, w') \<Longrightarrow> world_step E w w'"
| "sc_leases E = Some M \<Longrightarrow> lm_start M w = (y4, w') \<Longrightarrow> world_step E w w'"
| "sc_leases E = Some M \<Longrightarrow> lm_beats M w = (y5, w') \<Longrightarrow> world_step E w w'"

definition retry_bound :: "'w scheduler \<Rightarrow> nat" where
  "retry_bound E = (case sc_retry_policy E of None \<Rightarrow> 0 | Some p \<Rightarrow> rp_max_attempts p - 1)"

definition dot_free_keys :: "'w scheduler \<Rightarrow> bool" where
  "dot_free_keys E \<longleftrightarrow> (\<forall>n g w d w'. sc_decomposer E n g w = (Inr d, w') \<longrightarrow>
     (\<forall>s\<in>set (ad_children d). dot_free (cs_key s)))"

text \<open>Sequences of steps, with a flag that tells whether some step was strict.\<close>

inductive rsteps :: "'w scheduler \<Rightarrow> bool \<Rightarrow> bool \<Rightarrow> 'w trun \<Rightarrow> 'w trun \<Rightarrow> bool" for E D where
  rs_refl: "rsteps E D False r r"
| rs_graph: "rsteps E D b r (g, w) \<Longrightarrow> gstep (retry_bound E) D c g g' \<Longrightarrow> rsteps E D (b \<or> c) r (g', w)"
| rs_world: "rsteps E D b r (g, w) \<Longrightarrow> world_step E w w' \<Longrightarrow> rsteps E D b r (g, w')"
| rs_save: "rsteps E D b r (g, w) \<Longrightarrow> sc_store E = Some save \<Longrightarrow> rsteps E D b r (g, save g w)"

lemma rsteps_trans: "rsteps E D c r' r'' \<Longrightarrow> rsteps E D b r r' \<Longrightarrow> rsteps E D (b \<or> c) r r''"
proof (induction rule: rsteps.induct)
  case (rs_graph b' r' g w c' g')
  then show ?case using rsteps.rs_graph [of E D "b \<or> b'" r g w c' g'] by (simp add: disj_assoc)
qed (auto intro: rsteps.intros)

lemma rsteps_wf: "rsteps E D b r r' \<Longrightarrow> graph_wf (fst r) \<Longrightarrow> graph_wf (fst r')"
  by (induction rule: rsteps.induct) (auto intro: gstep_wf)

lemma rsteps_good:
  "rsteps E True b r r' \<Longrightarrow> graph_good (retry_bound E) (fst r) \<Longrightarrow> graph_good (retry_bound E) (fst r')"
  by (induction rule: rsteps.induct) (auto intro: gstep_good)

lemma rsteps_constants:
  "rsteps E D b r r' \<Longrightarrow> tg_id (fst r') = tg_id (fst r) \<and> tg_root_id (fst r') = tg_root_id (fst r) \<and>
     tg_budget (fst r') = tg_budget (fst r)"
  by (induction rule: rsteps.induct) (auto dest: gstep_constants)

lemma rsteps_events: "rsteps E D b r r' \<Longrightarrow> \<exists>es. tg_events (fst r') = tg_events (fst r) @ es"
  by (induction rule: rsteps.induct) (auto dest!: gstep_events)

lemma rsteps_terminal:
  "rsteps E True b r r' \<Longrightarrow> graph_good (retry_bound E) (fst r) \<Longrightarrow> node_at (fst r) j = Some m \<Longrightarrow> \<not> live m \<Longrightarrow>
     node_at (fst r') j = Some m"
proof (induction rule: rsteps.induct)
  case (rs_graph b r g w c g')
  then show ?case using rsteps_good [OF rs_graph(1)] gstep_terminal [OF rs_graph(2)] by simp
qed simp_all

lemma rsteps_measure:
  assumes "rsteps E D b r r'" "graph_wf (fst r)"
  shows "(if b then (task_measure (retry_bound E) (fst r'), task_measure (retry_bound E) (fst r)) \<in> measure_order
     else task_measure (retry_bound E) (fst r') = task_measure (retry_bound E) (fst r))"
  using assms
proof (induction rule: rsteps.induct)
  case (rs_graph b r g w c g')
  have "graph_wf g" using rsteps_wf [OF rs_graph(1,4)] by simp
  from gstep_measure [OF rs_graph(2) this] rs_graph(3) [OF rs_graph(4)] show ?case
    using transD [OF trans_measure_order] by (auto split: if_splits)
qed (auto split: if_splits)

text \<open>Whatever the ports keep of the world and every save of a good graph establishes is kept.\<close>

lemma rsteps_world:
  assumes world: "\<And>w w'. world_step E w w' \<Longrightarrow> P w \<Longrightarrow> P w'"
    and save: "\<And>save g w. sc_store E = Some save \<Longrightarrow> graph_good (retry_bound E) g \<Longrightarrow>
      tg_root_id g = rid \<Longrightarrow> tg_budget g = bud \<Longrightarrow> P w \<Longrightarrow> P (save g w)"
  shows "rsteps E True b r r' \<Longrightarrow> graph_good (retry_bound E) (fst r) \<Longrightarrow> tg_root_id (fst r) = rid \<Longrightarrow>
    tg_budget (fst r) = bud \<Longrightarrow> P (snd r) \<Longrightarrow> P (snd r')"
proof (induction rule: rsteps.induct)
  case (rs_save b r g w st)
  have "graph_good (retry_bound E) g" using rsteps_good [OF rs_save(1,4)] by simp
  moreover have "tg_root_id g = rid" "tg_budget g = bud"
    using rsteps_constants [OF rs_save(1)] rs_save(5,6) by simp_all
  ultimately show ?case using save [OF rs_save(2)] rs_save by simp
next
  case (rs_world b r g w w')
  then show ?case using world by fastforce
qed simp_all

end
