(* ===== verification/Task_Refinement.thy ===== *)
theory Task_Refinement
  imports Task_Steps
begin

text \<open>
  The scheduler implements the specification of \<open>Task_Steps\<close>: every operation is a sequence of
  legal steps, and a turn of the loop on a graph whose root is not terminal holds at least one
  that advances a task. Hence the loop ends, whatever the ports do.
\<close>

section \<open>Basic operations\<close>

lemma fst_sch_save [simp]: "fst (sch_save E r) = fst r"
  by (simp add: sch_save_def split: option.split)

lemma fst_sch_emit: "\<exists>x. fst (sch_emit E ty k p r) = record_task_event x (fst r)"
  by (auto simp: sch_emit_def split: prod.split)

lemma sch_emit_fields [simp]:
  "node_at (fst (sch_emit E ty k p r)) j = node_at (fst r) j"
  "status_at (fst (sch_emit E ty k p r)) j = status_at (fst r) j"
  "tg_nodes (fst (sch_emit E ty k p r)) = tg_nodes (fst r)"
  "tg_root_id (fst (sch_emit E ty k p r)) = tg_root_id (fst r)"
  "tg_budget (fst (sch_emit E ty k p r)) = tg_budget (fst r)"
  "tg_leaf_executions (fst (sch_emit E ty k p r)) = tg_leaf_executions (fst r)"
  "all_completed (fst (sch_emit E ty k p r)) ks = all_completed (fst r) ks"
  using fst_sch_emit [of E ty k p r] by auto

lemma fst_sch_upd [simp]: "fst (sch_upd k f r) = upd_node k f (fst r)" "snd (sch_upd k f r) = snd r"
  by (simp_all add: sch_upd_def)

lemma rs_world_pair: "rsteps E D b r r' \<Longrightarrow> world_step E (snd r') w \<Longrightarrow> rsteps E D b r (fst r', w)"
  by (cases r') (auto intro: rs_world)

lemma rs_emit: "rsteps E D b r r' \<Longrightarrow> rsteps E D b r (sch_emit E ty k p r')"
proof -
  assume r: "rsteps E D b r r'"
  obtain t w where t: "sc_utc_now E (snd r') = (t, w)" by fastforce
  have "rsteps E D b r (fst r', w)" using r t by (auto intro: rs_world_pair world_step.intros)
  from rs_graph [OF this g_emit] t show ?thesis by (simp add: sch_emit_def)
qed

lemma rs_sch_save: "rsteps E D b r r' \<Longrightarrow> rsteps E D b r (sch_save E r')"
  by (cases r') (auto simp: sch_save_def intro: rs_save split: option.split)

lemma rs_step:
  "rsteps E D b r r' \<Longrightarrow> gstep (retry_bound E) D c (fst r') g \<Longrightarrow> rsteps E D (b \<or> c) r (g, snd r')"
  by (cases r') (auto intro: rs_graph)

lemma rs_strict:
  "rsteps E D b r r' \<Longrightarrow> gstep (retry_bound E) D True (fst r') g \<Longrightarrow> rsteps E D True r (g, snd r')"
  using rs_step [of E D b r r' True g] by simp

lemma sch_upd_pair: "sch_upd k f r = (upd_node k f (fst r), snd r)"
  by (simp add: sch_upd_def)

lemma rs_note:
  "rsteps E D b r r' \<Longrightarrow> node_at (fst r') k = Some n \<Longrightarrow> live n \<Longrightarrow> advance_to (nd_status n) n (f n) \<Longrightarrow>
     rsteps E D b r (sch_upd k f r')"
  unfolding sch_upd_pair using rs_step [OF _ g_note, of E D b r r' k n f] by simp

lemma rs_fail_upd:
  "rsteps E D b r r' \<Longrightarrow> node_at (fst r') k = Some n \<Longrightarrow> live n \<Longrightarrow> s = TS_FAILED \<or> s = TS_BLOCKED \<Longrightarrow>
     advance_to s n (f n) \<Longrightarrow> nd_error (f n) \<noteq> None \<Longrightarrow> rsteps E D True r (sch_upd k f r')"
  unfolding sch_upd_pair by (rule rs_strict) (auto intro: g_fail)

lemma rs_fail:
  "rsteps E D b r r' \<Longrightarrow> node_at (fst r') k = Some n \<Longrightarrow> live n \<Longrightarrow> s = TS_FAILED \<or> s = TS_BLOCKED \<Longrightarrow>
     rsteps E D True r (fail_node k s e r')"
  unfolding fail_node_def by (rule rs_fail_upd) (auto simp: advance_to_def same_place_def)

lemmas rs_fail_set = rs_fail [unfolded fail_node_def]

lemma rs_done:
  "rsteps E D b r r' \<Longrightarrow> node_at (fst r') k = Some n \<Longrightarrow> live n \<Longrightarrow>
     nd_status n = TS_RUNNING \<or> (nd_children n \<noteq> [] \<and> all_completed (fst r') (nd_children n)) \<Longrightarrow>
     rsteps E D True r (sch_upd k (\<lambda>n. n\<lparr>nd_status := TS_COMPLETED\<rparr>) r')"
  unfolding sch_upd_pair by (rule rs_strict) (auto intro!: g_done simp: advance_to_def same_place_def)

lemmas rs_basic = rs_emit rs_sch_save

lemma rsteps_append: "rsteps E D b r r' \<Longrightarrow> rsteps E D c r' r'' \<Longrightarrow> rsteps E D (b \<or> c) r r''"
  by (rule rsteps_trans)

section \<open>Propagation\<close>

lemma propagate_parent_steps:
  assumes "node_at (fst r) k = Some n" "live n" "nd_children n \<noteq> []"
  shows "rsteps E D (fst (propagate_parent E k n r)) r (snd (propagate_parent E k n r)) \<and>
    (\<not> fst (propagate_parent E k n r) \<longrightarrow> snd (propagate_parent E k n r) = r)"
proof -
  consider "any_failed (fst r) (nd_children n)"
    | "\<not> any_failed (fst r) (nd_children n)" "\<not> all_completed (fst r) (nd_children n)"
    | "\<not> any_failed (fst r) (nd_children n)" "all_completed (fst r) (nd_children n)" by blast
  then show ?thesis
  proof cases
    case 1
    then show ?thesis
      by (auto simp: propagate_parent_def intro!: rs_basic rs_fail_set [OF rs_refl assms(1,2)])
  next
    case 2
    then show ?thesis by (simp add: propagate_parent_def rs_refl)
  next
    case 3
    obtain x w where port: "sc_verifier E n (fst r) (snd r) = (x, w)" by fastforce
    define res where "res = (case x of Inr x \<Rightarrow> x | Inl e \<Rightarrow> plain_result ''failed''
      ''integration verifier raised an exception'' (Some (show_exc e)))"
    let ?r1 = "sch_upd k (\<lambda>n. n\<lparr>nd_result := Some res\<rparr>) (fst r, w)"
    let ?n = "n\<lparr>nd_result := Some res\<rparr>"
    have w: "rsteps E D False r (fst r, w)"
      using port by (auto intro: rs_world_pair [OF rs_refl] world_step.intros)
    have r1: "rsteps E D False r ?r1"
      by (rule rs_note [OF w]) (use assms in \<open>auto simp: advance_to_def same_place_def\<close>)
    have n1: "node_at (fst ?r1) k = Some ?n" "live ?n" using assms by (simp_all add: live_def)
    have kids: "all_completed (fst ?r1) (nd_children ?n)"
      using all_completed_upd [OF assms(1,2) 3(2)] by simp
    have "rsteps E D True r (sch_upd k (\<lambda>n. n\<lparr>nd_status := TS_COMPLETED\<rparr>) ?r1)"
      by (rule rs_done [OF r1 n1]) (use assms(3) kids in simp)
    moreover have "rsteps E D True r (sch_upd k (\<lambda>n. n\<lparr>nd_status := s, nd_error := Some e\<rparr>) ?r1)"
      if "s = TS_FAILED \<or> s = TS_BLOCKED" for s e
      by (rule rs_fail_upd [OF r1 n1 that]) (simp_all add: advance_to_def same_place_def)
    ultimately show ?thesis
      using 3 port by (auto simp: propagate_parent_def Let_def res_def intro!: rs_basic)
  qed
qed

lemma propagate_node_steps:
  "rsteps E D (fst (propagate_node E k r)) r (snd (propagate_node E k r)) \<and>
   (\<not> fst (propagate_node E k r) \<longrightarrow> snd (propagate_node E k r) = r)"
proof (cases "node_at (fst r) k")
  case None
  then show ?thesis by (simp add: propagate_node_def rs_refl)
next
  case (Some n)
  show ?thesis
  proof (cases "terminal_status (nd_status n)")
    case True
    with Some show ?thesis by (simp add: propagate_node_def rs_refl)
  next
    case False
    then have live: "live n" by (simp add: live_def)
    show ?thesis
    proof (cases "any_failed (fst r) (nd_dependencies n)")
      case True
      with Some False show ?thesis
        by (auto simp: propagate_node_def intro!: rs_basic rs_fail_set [OF rs_refl Some live])
    next
      case no: False
      with Some False propagate_parent_steps [OF Some live, of E D] show ?thesis
        by (auto simp: propagate_node_def rs_refl)
    qed
  qed
qed

lemma propagate_all_steps:
  "rsteps E D (fst (propagate_all E ks r)) r (snd (propagate_all E ks r)) \<and>
   (\<not> fst (propagate_all E ks r) \<longrightarrow> snd (propagate_all E ks r) = r)"
proof (induction ks arbitrary: r)
  case (Cons k ks)
  obtain c r1 where 1: "propagate_node E k r = (c, r1)" by (metis surj_pair)
  obtain cs r2 where 2: "propagate_all E ks r1 = (cs, r2)" by (metis surj_pair)
  from propagate_node_steps [of E D k r] Cons.IH [of r1] 1 2 show ?case
    by (auto intro: rsteps_append)
qed (simp add: rs_refl)

lemma propagate_steps:
  "propagate E r = (c, r1) \<Longrightarrow> rsteps E D c r r1 \<and> (\<not> c \<longrightarrow> r1 = r)"
  using propagate_all_steps [of E D "propagation_order (fst r)" r] by (simp add: propagate_def)

section \<open>Results of leaves\<close>

text \<open>\<open>touches k r r'\<close>: of the nodes only \<open>k\<close> may differ.\<close>

definition touches :: "string \<Rightarrow> 'w trun \<Rightarrow> 'w trun \<Rightarrow> bool" where
  "touches k r r' \<longleftrightarrow> (\<forall>j. j \<noteq> k \<longrightarrow> node_at (fst r') j = node_at (fst r) j)"

lemma touches_refl [simp]: "touches k r r"
  by (simp add: touches_def)

lemma touches_trans: "touches k r r' \<Longrightarrow> touches k r' r'' \<Longrightarrow> touches k r r''"
  by (simp add: touches_def)

lemma touches_ops [simp]:
  "touches k r (sch_emit E ty j p r') = touches k r r'"
  "touches k r (sch_save E r') = touches k r r'"
  "touches k r (sch_upd k f r') = touches k r r'"
  "touches k r (fail_node k s e r') = touches k r r'"
  "touches k (sch_upd k f r) r' = touches k r r'"
  by (simp_all add: touches_def fail_node_def)

lemma touches_nodes: "tg_nodes (fst r') = tg_nodes (fst r) \<Longrightarrow> touches k r r'"
  by (simp add: touches_def node_at_def)

lemma touches_pair: "touches k r (g, w) = touches k r (g, w')"
  by (simp add: touches_def)

lemma touches_all_completed:
  assumes "touches k r r'" "status_at (fst r) k \<noteq> Some TS_COMPLETED" "all_completed (fst r) ks"
  shows "all_completed (fst r') ks"
  using assms unfolding all_completed_def list_all_iff touches_def status_at_def by metis

lemma finish_leaf_steps:
  assumes "rsteps E D b r r'" "node_at (fst r') k = Some n" "live n"
  shows "rsteps E D True r (finish_leaf E k result r')"
  unfolding finish_leaf_def finish_leaf_blocked_def finish_leaf_failed_def Let_def
  by (auto intro!: rs_emit rs_fail_set [OF assms])

lemma finish_leaf_touches [simp]: "touches k r (finish_leaf E k result r') = touches k r r'"
  by (simp add: finish_leaf_def finish_leaf_blocked_def finish_leaf_failed_def Let_def)

lemma deadline_world:
  "retry_deadline_rejection E n w = (x, w') \<Longrightarrow> rsteps E D b r (g, w) \<Longrightarrow> rsteps E D b r (g, w')"
  by (auto simp: retry_deadline_rejection_def Let_def split: option.splits if_splits prod.splits
      intro: rs_world world_step.intros)

lemma wait_for_retry_steps:
  assumes "wait_for_retry E k result d r' = (x, r'')" "rsteps E D b r r'"
  shows "rsteps E D b r r'' \<and> tg_nodes (fst r'') = tg_nodes (fst r')"
proof (cases "rd_delay_seconds d \<le> 0")
  case True
  with assms show ?thesis by (simp add: wait_for_retry_def)
next
  case False
  show ?thesis
  proof (cases "sc_waiter E")
    case None
    with assms False show ?thesis by (simp add: wait_for_retry_def)
  next
    case (Some wait)
    show ?thesis
    proof (cases "node_at (fst r') k")
      case None
      with assms False Some show ?thesis by (simp add: wait_for_retry_def)
    next
      case n: (Some n)
      define r1 where "r1 = sch_save E (sch_emit E ''leaf_retry_wait_started'' k
         [(''delay_seconds'', pnum (rd_delay_seconds d)), (''retry_code'', popt_str (lr_retry_code result))] r')"
      obtain y w where port: "wait (rd_delay_seconds d) n (fst r1) (snd r1) = (y, w)" by fastforce
      obtain z w1 where rej: "(if y = Inr True then retry_deadline_rejection E n w else (None, w)) = (z, w1)"
        by fastforce
      have "rsteps E D b r r1" unfolding r1_def using assms(2) by (intro rs_basic)
      then have "rsteps E D b r (fst r1, w)"
        using port Some by (auto intro: rs_world_pair world_step.intros)
      then have w1: "rsteps E D b r (fst r1, w1)"
        using rej by (auto intro: deadline_world split: if_splits)
      obtain ty p where "r'' = sch_emit E ty k p (fst r1, w1)"
        using assms(1) False Some n port rej unfolding r1_def
        by (auto simp: wait_for_retry_def Let_def)
      with w1 show ?thesis by (auto intro: rs_emit simp: r1_def)
    qed
  qed
qed

lemma wait_touches:
  "wait_for_retry E k result d r' = (x, r'') \<Longrightarrow> node_at (fst r'') j = node_at (fst r') j"
  using wait_for_retry_steps [of E k result d r' x r'' False False r'] rs_refl
  by (auto simp: wait_for_retry_def Let_def node_at_def split: if_splits option.splits prod.splits)

lemma evaluate_retry_bound:
  "rd_retry (evaluate_retry sha (sc_retry_policy E) n result gid now) \<Longrightarrow> nd_retries n < retry_bound E"
  using evaluate_retry_budget by (cases "sc_retry_policy E") (auto simp: retry_bound_def)

lemma apply_retry_result_steps:
  assumes r: "rsteps E D b r0 r" and n: "node_at (fst r) k = Some n"
    and st: "nd_status n = TS_RUNNING \<or> nd_status n = TS_READY"
  shows "rsteps E D True r0 (apply_retry_result E k result r) \<and> touches k r (apply_retry_result E k result r)"
proof -
  have live: "live n" using st by (auto simp: live_def)
  obtain c w where clock: "sc_clock E (snd r) = (c, w)" by fastforce
  define d where "d = (case c of Inl e \<Rightarrow> no_retry ''retry_clock_error''
    | Inr now \<Rightarrow> evaluate_retry (sc_sha256 E) (sc_retry_policy E) n result (tg_id (fst r)) now)"
  define t where "t = (case c of Inr now \<Rightarrow> now | Inl e \<Rightarrow> pnum 0)"
  define r2 where "r2 = (if rd_retry d \<and> nd_retry_started_at n = PNone
      then sch_upd k (\<lambda>n. n\<lparr>nd_retry_started_at := t\<rparr>) (fst r, w) else (fst r, w))"
  obtain x r3 where r3: "(if rd_retry d then wait_for_retry E k result d r2 else (None, r2)) = (x, r3)"
    by (metis surj_pair)
  define final where "final = (case x of None \<Rightarrow> d | Some y \<Rightarrow> no_retry y)"
  define r4 where "r4 = sch_upd k (\<lambda>n. n\<lparr>nd_retries := nd_retries n + 1, nd_status := TS_READY,
      nd_error := None\<rparr>) r3"
  have eq: "apply_retry_result E k result r = (if rd_retry final then
       (case (node_at (fst r4) k, sc_retry_policy E) of
          (Some n', Some p) \<Rightarrow> sch_emit E ''leaf_retry_scheduled'' k (retry_scheduled_payload p n' result final) r4
        | _ \<Rightarrow> r4)
     else finish_leaf E k result
        (sch_emit E ''leaf_retry_rejected'' k (retry_rejected_payload final result) r3))"
    unfolding apply_retry_result_def Let_def n option.case clock prod.case d_def [symmetric]
      t_def [symmetric] r2_def [symmetric] r3 final_def [symmetric] r4_def [symmetric] ..
  have w: "rsteps E D b r0 (fst r, w)"
    using r clock by (auto intro: rs_world_pair world_step.intros)
  have s2: "rsteps E D b r0 r2"
    unfolding r2_def using w n live
    by (auto intro!: rs_note [where n = n] simp: advance_to_def same_place_def)
  obtain n2 where n2: "node_at (fst r2) k = Some n2" "nd_retries n2 = nd_retries n" "nd_status n2 = nd_status n"
    using n by (cases "rd_retry d \<and> nd_retry_started_at n = PNone") (simp_all add: r2_def)
  have s3: "rsteps E D b r0 r3 \<and> (\<forall>j. node_at (fst r3) j = node_at (fst r2) j)"
    using r3 s2 wait_for_retry_steps [of E k result d r2 x r3] wait_touches [of E k result d r2 x r3]
    by (auto split: if_splits)
  with n2 have n3: "node_at (fst r3) k = Some n2" by simp
  have live3: "live n2" using n2(3) live by (simp add: live_def)
  have t3: "touches k r r3" using s3 by (auto simp: touches_def r2_def)
  show ?thesis
  proof (cases "rd_retry final")
    case True
    then have "rd_retry d" by (auto simp: final_def split: option.splits)
    then have "nd_retries n < retry_bound E"
      by (auto simp: d_def evaluate_retry_bound split: sum.splits)
    with n2 st have "rsteps E D True r0 r4"
      unfolding r4_def sch_upd_pair
      by (intro rs_strict [OF conjunct1 [OF s3]] g_retry [OF n3]) (auto simp: same_place_def)
    moreover have "touches k r r4" using t3 by (simp add: r4_def)
    ultimately show ?thesis
      unfolding eq using True by (auto intro: rs_emit split: option.split)
  next
    case False
    have "rsteps E D b r0 (sch_emit E ''leaf_retry_rejected'' k (retry_rejected_payload final result) r3)"
      using s3 by (intro rs_emit) simp
    from finish_leaf_steps [OF this] n3 live3 t3 False show ?thesis unfolding eq by simp
  qed
qed

lemma apply_leaf_result_steps:
  assumes r: "rsteps E D b r0 r" and n: "node_at (fst r) k = Some n"
    and st: "nd_status n = TS_RUNNING \<or> (nd_status n = TS_READY \<and> lr_status result \<noteq> ''completed'')"
  shows "rsteps E D True r0 (apply_leaf_result E k result save r) \<and>
    touches k r (apply_leaf_result E k result save r)"
proof -
  let ?r1 = "sch_upd k (\<lambda>n. n\<lparr>nd_result := Some result\<rparr>) r"
  let ?n = "n\<lparr>nd_result := Some result\<rparr>"
  have live: "live n" using st by (auto simp: live_def)
  have r1: "rsteps E D b r0 ?r1"
    by (rule rs_note [OF r n live]) (simp add: advance_to_def same_place_def)
  have n1: "node_at (fst ?r1) k = Some ?n" "live ?n" using n live by (simp_all add: live_def)
  define r2 where "r2 = (if lr_status result = ''completed'' then
        sch_emit E ''leaf_completed'' k [(''summary'', PStr (lr_summary result))]
          (sch_upd k (\<lambda>n. n\<lparr>nd_status := TS_COMPLETED\<rparr>) ?r1)
      else if lr_retryable result then apply_retry_result E k result ?r1
      else finish_leaf E k result ?r1)"
  have "rsteps E D True r0 r2 \<and> touches k r r2"
  proof (cases "lr_status result = ''completed''")
    case True
    with st have "nd_status ?n = TS_RUNNING" by simp
    from rs_done [OF r1 n1] this True show ?thesis by (simp add: r2_def rs_emit)
  next
    case False
    have "touches k r ?r1" by simp
    moreover have "rsteps E D True r0 (apply_retry_result E k result ?r1) \<and>
      touches k ?r1 (apply_retry_result E k result ?r1)"
      by (rule apply_retry_result_steps [OF r1 n1(1)]) (use st in auto)
    moreover have "rsteps E D True r0 (finish_leaf E k result ?r1)"
      by (rule finish_leaf_steps [OF r1 n1])
    ultimately show ?thesis using False by (auto simp: r2_def dest: touches_trans)
  qed
  then show ?thesis
    by (auto simp: apply_leaf_result_def Let_def r2_def [symmetric] rs_sch_save)
qed

text \<open>A set of ids whose nodes all satisfy a predicate.\<close>

definition all_at :: "(task_node \<Rightarrow> bool) \<Rightarrow> string list \<Rightarrow> 'w trun \<Rightarrow> bool" where
  "all_at P ks r \<longleftrightarrow> distinct ks \<and> (\<forall>k\<in>set ks. \<exists>n. node_at (fst r) k = Some n \<and> P n)"

abbreviation is_ready :: "task_node \<Rightarrow> bool" where
  "is_ready n \<equiv> nd_status n = TS_READY"

abbreviation is_running :: "task_node \<Rightarrow> bool" where
  "is_running n \<equiv> nd_status n = TS_RUNNING"

lemma all_at_Cons:
  "all_at P (k # ks) r \<longleftrightarrow> k \<notin> set ks \<and> (\<exists>n. node_at (fst r) k = Some n \<and> P n) \<and> all_at P ks r"
  by (auto simp: all_at_def)

lemma all_at_touches: "touches k r r' \<Longrightarrow> k \<notin> set ks \<Longrightarrow> all_at P ks r \<Longrightarrow> all_at P ks r'"
  unfolding all_at_def touches_def by metis

lemma block_one_steps:
  assumes "rsteps E D b r0 r" "node_at (fst r) k = Some n" "is_ready n"
  shows "rsteps E D True r0 (block_one_for_lease E error contention k r) \<and>
    touches k r (block_one_for_lease E error contention k r)"
proof -
  have live: "live n" using assms(3) by (simp add: live_def)
  have "rsteps E D True r0 (apply_leaf_result E k (contention_result error key) False r) \<and>
    touches k r (apply_leaf_result E k (contention_result error key) False r)" for key
    by (rule apply_leaf_result_steps [OF assms(1,2)]) (simp add: assms(3) contention_result_def)
  then show ?thesis
    using rs_fail_set [OF assms(1,2) live, of TS_BLOCKED error]
    by (auto simp: block_one_for_lease_def intro!: rs_emit split: option.split)
qed

lemma block_fold_steps:
  "rsteps E D b r0 r \<Longrightarrow> all_at is_ready ks r \<Longrightarrow>
     rsteps E D (b \<or> ks \<noteq> []) r0 (fold (block_one_for_lease E error contention) ks r)"
proof (induction ks arbitrary: b r)
  case (Cons k ks)
  then obtain n where n: "node_at (fst r) k = Some n" "is_ready n" by (auto simp: all_at_Cons)
  from block_one_steps [OF Cons.prems(1) n] have
    1: "rsteps E D True r0 (block_one_for_lease E error contention k r)"
      "touches k r (block_one_for_lease E error contention k r)" by blast+
  have "all_at is_ready ks (block_one_for_lease E error contention k r)"
    using all_at_touches [OF 1(2)] Cons.prems(2) by (auto simp: all_at_Cons)
  from Cons.IH [OF 1(1) this] show ?case by simp
qed simp

lemma apply_results_steps:
  "rsteps E D b r0 r \<Longrightarrow> all_at is_running ks r \<Longrightarrow>
     \<exists>c. rsteps E D (b \<or> c) r0 (apply_results E results ks r)"
proof (induction ks arbitrary: b r)
  case Nil
  then show ?case by (auto intro: exI [of _ False])
next
  case (Cons k ks)
  then obtain n where n: "node_at (fst r) k = Some n" "is_running n" by (auto simp: all_at_Cons)
  show ?case
  proof (cases "dget results k")
    case None
    with Cons show ?thesis by (simp add: all_at_Cons)
  next
    case (Some result)
    have 1: "rsteps E D True r0 (apply_leaf_result E k result True r) \<and>
        touches k r (apply_leaf_result E k result True r)"
      by (rule apply_leaf_result_steps [OF Cons.prems(1) n(1)]) (simp add: n(2))
    then have "all_at is_running ks (apply_leaf_result E k result True r)"
      using all_at_touches Cons.prems(2) unfolding all_at_Cons by metis
    from Cons.IH [OF conjunct1 [OF 1] this] Some show ?thesis by (auto intro: exI [of _ True])
  qed
qed

section \<open>Assessment\<close>

lemma assess_atomic_steps:
  assumes r: "rsteps E D b r0 r" and n: "node_at (fst r) k = Some n" "nd_status n = TS_PENDING"
    and deps: "dependencies_met (fst r) n"
  shows "rsteps E D True r0 (assess_atomic E k d r)"
proof (cases "ad_children d = []")
  case False
  have "live n" using n by (simp add: live_def)
  with False show ?thesis by (auto simp: assess_atomic_def intro!: rs_basic rs_fail [OF r n(1)])
next
  case True
  define r1 where "r1 = (case ad_leaf d of None \<Rightarrow> r | Some leaf \<Rightarrow> apply_leaf_contract E k leaf r)"
  have "rsteps E D b r0 r1 \<and> (\<exists>n'. node_at (fst r1) k = Some n' \<and> nd_status n' = TS_PENDING \<and>
      dependencies_met (fst r1) n')"
  proof (cases "ad_leaf d")
    case None
    with r n deps show ?thesis by (simp add: r1_def)
  next
    case (Some leaf)
    define f :: "task_node \<Rightarrow> task_node" where "f = (\<lambda>n. n\<lparr>nd_goal := al_goal leaf, nd_success_criteria := al_success_criteria leaf,
          nd_required_capabilities := al_required_capabilities leaf,
          nd_metadata := dupdate (nd_metadata n) (al_metadata leaf)\<rparr>)"
    have "advance_to (nd_status n) n (f n)" by (simp add: f_def advance_to_def same_place_def)
    moreover have "live n" using n by (simp add: live_def)
    ultimately have s: "rsteps E D b r0 (sch_upd k f r)" by (intro rs_note [OF r n(1)])
    obtain ty p where r1: "r1 = sch_emit E ty k p (sch_upd k f r)"
      using Some by (simp add: r1_def apply_leaf_contract_def f_def)
    have "all_completed (upd_node k f (fst r)) (nd_dependencies n)"
      using deps n by (intro all_completed_upd [OF n(1)]) (simp_all add: dependencies_met_def live_def)
    then show ?thesis
      using s n unfolding r1 by (auto intro: rs_emit simp: f_def dependencies_met_def)
  qed
  then obtain n' where r1: "rsteps E D b r0 r1" "node_at (fst r1) k = Some n'" "nd_status n' = TS_PENDING"
    "dependencies_met (fst r1) n'" by blast
  have "rsteps E D True r0 (sch_upd k (\<lambda>n. n\<lparr>nd_status := TS_READY\<rparr>) r1)"
    unfolding sch_upd_pair
    by (rule rs_strict [OF r1(1)], rule g_ready [OF r1(2-4)]) (simp add: advance_to_def same_place_def)
  with True show ?thesis by (simp add: assess_atomic_def r1_def [symmetric] rs_sch_save)
qed

lemma assess_composite_steps:
  assumes r: "rsteps E D b r0 r" and n: "node_at (fst r) k = Some n" "nd_status n = TS_PENDING" "nd_id n = k"
    and deps: "dependencies_met (fst r) n" and dots: "D \<longrightarrow> (\<forall>s\<in>set (ad_children d). dot_free (cs_key s))"
  shows "rsteps E D True r0 (assess_composite E k n d r)"
proof -
  have live: "live n" using n by (simp add: live_def)
  note fail = rs_basic rs_fail [OF r n(1) live]
  show ?thesis
  proof (cases "ad_leaf d \<noteq> None \<or> ad_children d = [] \<or> int (nd_depth n) \<ge> tb_max_depth (tg_budget (fst r)) \<or>
      int (length (tg_nodes (fst r)) + length (ad_children d)) > tb_max_nodes (tg_budget (fst r))")
    case True
    then show ?thesis by (auto simp: assess_composite_def intro!: fail)
  next
    case False
    show ?thesis
    proof (cases "child_specs_error (ad_children d)")
      case (Some e)
      with False show ?thesis
        by (auto simp: assess_composite_def add_child_tasks_def Let_def intro!: fail)
    next
      case None
      let ?g = "upd_node k (\<lambda>n. n\<lparr>nd_status := TS_WAITING\<rparr>) (fold (add_child k n) (ad_children d) (fst r))"
      have "gstep (retry_bound E) D True (fst r) ?g"
        by (rule g_split [OF n(1,3,2) deps _ _ _ None]) (use False dots in auto)
      from rs_strict [OF r this] False None show ?thesis
        by (auto simp: assess_composite_def add_child_tasks_def Let_def sch_upd_pair intro!: rs_basic)
    qed
  qed
qed

lemma assess_node_steps:
  assumes n: "node_at (fst r) k = Some n" "nd_status n = TS_PENDING" "nd_id n = k"
    and deps: "dependencies_met (fst r) n" and dots: "D \<longrightarrow> dot_free_keys E"
  shows "rsteps E D True r (assess_node E k r)"
proof -
  obtain x w where port: "sc_decomposer E n (fst r) (snd r) = (x, w)" by fastforce
  have w: "rsteps E D False r (fst r, w)"
    using port by (auto intro: rs_world_pair [OF rs_refl] world_step.intros)
  have live: "live n" using n by (simp add: live_def)
  show ?thesis
  proof (cases x)
    case (Inl e)
    with port n(1) live show ?thesis
      by (auto simp: assess_node_def Let_def intro!: rs_basic rs_fail [OF w])
  next
    case (Inr d)
    have dk: "D \<longrightarrow> (\<forall>s\<in>set (ad_children d). dot_free (cs_key s))"
      using dots port Inr unfolding dot_free_keys_def by blast
    note e = rs_emit [OF w]
    have "rsteps E D True r (assess_atomic E k d (sch_emit E ty k p (fst r, w)))" for ty p
      using n deps by (intro assess_atomic_steps [OF e]) (auto simp: dependencies_met_def)
    moreover have "rsteps E D True r (assess_composite E k n d (sch_emit E ty k p (fst r, w)))" for ty p
      using n deps dk by (intro assess_composite_steps [OF e]) (auto simp: dependencies_met_def)
    ultimately show ?thesis using port n(1) Inr by (simp add: assess_node_def Let_def)
  qed
qed

section \<open>Admission and start of leaves\<close>

lemma acquire_all_steps:
  assumes "sc_acquirer E = Some acquire"
  shows "rsteps E D b r0 r \<Longrightarrow> rsteps E D b r0 (acquire_all E acquire k n cs r) \<and>
    tg_nodes (fst (acquire_all E acquire k n cs r)) = tg_nodes (fst r)"
proof (induction cs arbitrary: r)
  case (Cons c cs)
  define r1 where "r1 = sch_emit E ''capability_acquisition_requested'' k [(''capability'', PStr c)] r"
  obtain x w where port: "acquire c n (fst r1) (snd r1) = (x, w)" by fastforce
  have "rsteps E D b r0 r1" unfolding r1_def by (rule rs_emit [OF Cons.prems])
  then have w: "rsteps E D b r0 (fst r1, w)"
    using port assms by (auto intro: rs_world_pair world_step.intros)
  show ?case
  proof (cases x)
    case (Inl e)
    with port have "acquire_all E acquire k n (c # cs) r = acquire_all E acquire k n cs
        (sch_emit E ''capability_acquisition_failed'' k [(''capability'', PStr c), (''error'', PStr (show_exc e))] (fst r1, w))"
      by (simp add: r1_def Let_def)
    with Cons.IH [OF rs_emit [OF w]] show ?thesis by (simp add: r1_def)
  next
    case (Inr v)
    with port have "acquire_all E acquire k n (c # cs) r = acquire_all E acquire k n cs (fst r1, w)"
      by (simp add: r1_def Let_def)
    with Cons.IH [OF w] show ?thesis by (simp add: r1_def)
  qed
qed simp

lemma block_missing_steps:
  assumes "rsteps E D False r0 r" "node_at (fst r) k = Some n" "live n" "tg_nodes (fst r) = tg_nodes (fst r0)"
    "block_missing E k missing r = (ok, r')"
  shows "rsteps E D (\<not> ok) r0 r' \<and> touches k r0 r' \<and> (ok \<longrightarrow> tg_nodes (fst r') = tg_nodes (fst r0))"
proof (cases "missing = []")
  case True
  with assms(1,4,5) show ?thesis by (auto simp: block_missing_def intro: touches_nodes)
next
  case False
  with assms(5) touches_nodes [OF assms(4), of k] show ?thesis
    by (auto simp: block_missing_def intro!: rs_basic rs_fail [OF assms(1-3)])
qed

lemma admit_leaf_steps:
  assumes "node_at (fst r) k = Some n" "live n" "admit_leaf E k r = (ok, r')"
  shows "rsteps E D (\<not> ok) r r' \<and> touches k r r' \<and> (ok \<longrightarrow> tg_nodes (fst r') = tg_nodes (fst r))"
proof -
  obtain x w where port: "sc_resolver E n (fst r) (snd r) = (x, w)" by fastforce
  have w: "rsteps E D False r (fst r, w)"
    using port by (auto intro: rs_world_pair [OF rs_refl] world_step.intros)
  have n1: "node_at (fst (fst r, w)) k = Some n" using assms(1) by simp
  show ?thesis
  proof (cases x)
    case (Inl e)
    with port assms(1,3) show ?thesis
      by (auto simp: admit_leaf_def Let_def touches_nodes
          intro!: rs_basic rs_fail [OF w n1 assms(2)])
  next
    case (Inr res)
    show ?thesis
    proof (cases "if cr_missing res = [] then None else sc_acquirer E")
      case None
      with port assms(1,3) Inr have "block_missing E k (cr_missing res) (fst r, w) = (ok, r')"
        by (simp add: admit_leaf_def)
      from block_missing_steps [OF w n1 assms(2) _ this] show ?thesis by simp
    next
      case (Some acquire)
      then have acq: "sc_acquirer E = Some acquire" by (auto split: if_splits)
      define r1 where "r1 = acquire_all E acquire k n (cr_missing res) (fst r, w)"
      have r1: "rsteps E D False r r1" "tg_nodes (fst r1) = tg_nodes (fst r)"
        using acquire_all_steps [OF acq w, of k n "cr_missing res"] by (simp_all add: r1_def)
      obtain y w1 where again: "sc_resolver E n (fst r1) (snd r1) = (y, w1)" by fastforce
      have w1: "rsteps E D False r (fst r1, w1)"
        using r1(1) again by (auto intro: rs_world_pair world_step.intros)
      have n2: "node_at (fst (fst r1, w1)) k = Some n" using r1(2) assms(1) by (simp add: node_at_def)
      show ?thesis
      proof (cases y)
        case (Inl e)
        with port again assms(1,3) Inr Some have
          "(ok, r') = (False, sch_save E (fail_node k TS_BLOCKED (''capability_resolver_error:'' @ show_exc_tight e) (fst r1, w1)))"
          by (simp add: admit_leaf_def r1_def [symmetric])
        with r1(2) show ?thesis
          by (auto simp: touches_nodes intro!: rs_basic rs_fail [OF w1 n2 assms(2)])
      next
        case again_ok: (Inr res2)
        with port again assms(1,3) Inr Some have "block_missing E k (cr_missing res2) (fst r1, w1) = (ok, r')"
          by (simp add: admit_leaf_def r1_def [symmetric])
        from block_missing_steps [OF w1 n2 assms(2) _ this] r1(2) show ?thesis by simp
      qed
    qed
  qed
qed

lemma start_leaf_steps:
  assumes "node_at (fst r) k = Some n" "is_ready n" "dependencies_met (fst r) n" "start_leaf E k r = (ok, r')"
  shows "rsteps E D True r r' \<and> touches k r r' \<and> (ok \<longrightarrow> (\<exists>n'. node_at (fst r') k = Some n' \<and> is_running n'))"
proof (cases "int (tg_leaf_executions (fst r)) \<ge> tb_max_leaf_executions (tg_budget (fst r))")
  case True
  have "live n" using assms(2) by (simp add: live_def)
  with True assms(1,4) show ?thesis
    by (auto simp: start_leaf_def intro!: rs_basic rs_fail [OF rs_refl])
next
  case False
  let ?f = "\<lambda>n. n\<lparr>nd_status := TS_RUNNING, nd_attempts := nd_attempts n + 1\<rparr>"
  let ?g = "(upd_node k ?f (fst r))\<lparr>tg_leaf_executions := tg_leaf_executions (fst r) + 1\<rparr>"
  have "gstep (retry_bound E) D True (fst r) ?g"
    by (rule g_start [OF assms(1-3)]) (use False in \<open>auto simp: same_place_def\<close>)
  from rs_strict [OF rs_refl this] have "rsteps E D True r (?g, snd r)" .
  then show ?thesis
    using False assms(1,4)
    by (auto simp: start_leaf_def Let_def sch_upd_pair touches_def intro!: rs_basic)
qed

section \<open>Batches\<close>

definition ready_batch :: "string list \<Rightarrow> 'w trun \<Rightarrow> bool" where
  "ready_batch ks r \<longleftrightarrow> distinct ks \<and>
     (\<forall>k\<in>set ks. \<exists>n. node_at (fst r) k = Some n \<and> is_ready n \<and> dependencies_met (fst r) n)"

text \<open>Nodes outside \<open>ks\<close> keep their value, completed sets stay completed.\<close>

definition confined :: "string list \<Rightarrow> 'w trun \<Rightarrow> 'w trun \<Rightarrow> bool" where
  "confined ks r r' \<longleftrightarrow> (\<forall>j. j \<notin> set ks \<longrightarrow> node_at (fst r') j = node_at (fst r) j) \<and>
     (\<forall>xs. all_completed (fst r) xs \<longrightarrow> all_completed (fst r') xs)"

lemma confined_Nil [simp]: "confined [] r r"
  by (simp add: confined_def)

lemma confined_Cons:
  "touches k r r1 \<Longrightarrow> status_at (fst r) k \<noteq> Some TS_COMPLETED \<Longrightarrow> confined ks r1 r2 \<Longrightarrow> confined (k # ks) r r2"
  unfolding confined_def using touches_all_completed [of k r r1] by (auto simp: touches_def)

lemma ready_batch_touches:
  assumes "touches k r r'" "k \<notin> set ks" "status_at (fst r) k \<noteq> Some TS_COMPLETED" "ready_batch ks r"
  shows "ready_batch ks r'"
  using assms touches_all_completed [OF assms(1,3)]
  unfolding ready_batch_def dependencies_met_def touches_def by metis

lemma ready_batch_Cons:
  "ready_batch (k # ks) r \<longleftrightarrow> k \<notin> set ks \<and> ready_batch ks r \<and>
     (\<exists>n. node_at (fst r) k = Some n \<and> is_ready n \<and> dependencies_met (fst r) n)"
  by (auto simp: ready_batch_def)

lemma ready_batch_confined:
  "confined js r r' \<Longrightarrow> set js \<inter> set ks = {} \<Longrightarrow> ready_batch ks r \<Longrightarrow> ready_batch ks r'"
  unfolding ready_batch_def confined_def dependencies_met_def by (metis disjoint_iff)

lemma ready_status: "node_at g k = Some n \<Longrightarrow> is_ready n \<Longrightarrow> status_at g k \<noteq> Some TS_COMPLETED"
  by (simp add: status_at_def)

lemma nodes_same_touches:
  "tg_nodes (fst r') = tg_nodes (fst r) \<Longrightarrow> ready_batch ks r' = ready_batch ks r"
  by (simp add: ready_batch_def node_at_def dependencies_met_def all_completed_def status_at_def)

lemma keep_if_admit:
  "ready_batch ks r \<Longrightarrow> keep_if (admit_leaf E) ks r = (adm, r') \<Longrightarrow>
     rsteps E D (adm \<noteq> ks) r r' \<and> set adm \<subseteq> set ks \<and> ready_batch adm r' \<and> confined ks r r'"
proof (induction ks arbitrary: r adm r')
  case Nil
  then show ?case by (auto intro: rs_refl)
next
  case (Cons k ks)
  obtain ok r1 where 1: "admit_leaf E k r = (ok, r1)" by (metis surj_pair)
  obtain rest r2 where 2: "keep_if (admit_leaf E) ks r1 = (rest, r2)" by (metis surj_pair)
  from Cons.prems(1) obtain n where n: "node_at (fst r) k = Some n" "is_ready n" "k \<notin> set ks"
    "ready_batch ks r" by (auto simp: ready_batch_Cons)
  have "live n" using n(2) by (simp add: live_def)
  from admit_leaf_steps [OF n(1) this 1] have a: "rsteps E D (\<not> ok) r r1" "touches k r r1"
    "ok \<longrightarrow> tg_nodes (fst r1) = tg_nodes (fst r)" by blast+
  have rb: "ready_batch ks r1"
    by (rule ready_batch_touches [OF a(2) n(3) ready_status [OF n(1,2)] n(4)])
  from Cons.IH [OF this 2] have b: "rsteps E D (rest \<noteq> ks) r1 r2" "set rest \<subseteq> set ks"
    "ready_batch rest r2" "confined ks r1 r2" by blast+
  have conf: "confined (k # ks) r r2"
    by (rule confined_Cons [OF a(2) ready_status [OF n(1,2)] b(4)])
  have steps: "rsteps E D (\<not> ok \<or> rest \<noteq> ks) r r2" by (rule rsteps_append [OF a(1) b(1)])
  show ?case
  proof (cases ok)
    case False
    then have "adm = rest" "r' = r2" using Cons.prems(2) 1 2 by simp_all
    moreover have "rest \<noteq> k # ks" using b(2) n(3) by auto
    ultimately show ?thesis using steps b conf False by auto
  next
    case True
    then have eq: "adm = k # rest" "r' = r2" using Cons.prems(2) 1 2 by simp_all
    have "ready_batch [k] r" using Cons.prems(1) by (auto simp: ready_batch_def)
    then have "ready_batch [k] r1" using nodes_same_touches a(3) True by blast
    with ready_batch_confined [OF b(4), of "[k]"] n(3) have "ready_batch [k] r2" by simp
    with b(2,3) n(3) have "ready_batch (k # rest) r2" by (auto simp: ready_batch_Cons)
    with eq steps b conf True show ?thesis by auto
  qed
qed

lemma keep_if_start:
  "ready_batch ks r \<Longrightarrow> keep_if (start_leaf E) ks r = (prep, r') \<Longrightarrow>
     rsteps E D (ks \<noteq> []) r r' \<and> set prep \<subseteq> set ks \<and> all_at is_running prep r' \<and> confined ks r r'"
proof (induction ks arbitrary: r prep r')
  case Nil
  then show ?case by (auto intro: rs_refl simp: all_at_def)
next
  case (Cons k ks)
  obtain ok r1 where 1: "start_leaf E k r = (ok, r1)" by (metis surj_pair)
  obtain rest r2 where 2: "keep_if (start_leaf E) ks r1 = (rest, r2)" by (metis surj_pair)
  from Cons.prems(1) obtain n where n: "node_at (fst r) k = Some n" "is_ready n" "k \<notin> set ks"
    "ready_batch ks r" "dependencies_met (fst r) n" by (auto simp: ready_batch_Cons)
  from start_leaf_steps [OF n(1,2,5) 1] have a: "rsteps E D True r r1" "touches k r r1"
    "ok \<longrightarrow> (\<exists>n'. node_at (fst r1) k = Some n' \<and> is_running n')" by blast+
  have rb: "ready_batch ks r1"
    by (rule ready_batch_touches [OF a(2) n(3) ready_status [OF n(1,2)] n(4)])
  from Cons.IH [OF this 2] have b: "rsteps E D (ks \<noteq> []) r1 r2" "set rest \<subseteq> set ks"
    "all_at is_running rest r2" "confined ks r1 r2" by blast+
  have conf: "confined (k # ks) r r2"
    by (rule confined_Cons [OF a(2) ready_status [OF n(1,2)] b(4)])
  have "node_at (fst r2) k = node_at (fst r1) k" using b(4) n(3) by (simp add: confined_def)
  with a(3) b(2,3) n(3) have "ok \<longrightarrow> all_at is_running (k # rest) r2" by (auto simp: all_at_Cons)
  with rsteps_append [OF a(1) b(1)] b conf Cons.prems(2) 1 2 show ?case by (auto split: if_splits)
qed

lemma execute_all_steps:
  "rsteps E D b r (g0, w) \<Longrightarrow> execute_all (sc_executor E) ns g w = (res, w') \<Longrightarrow>
     rsteps E D b r (g0, w') \<and> map fst res = map nd_id ns"
proof (induction ns arbitrary: w res w')
  case (Cons n ns)
  obtain x w1 where port: "sc_executor E n g w = (x, w1)" by fastforce
  have w1: "rsteps E D b r (g0, w1)"
    using Cons.prems(1) port by (auto intro: rs_world world_step.intros)
  obtain y where one: "execute_one (sc_executor E) n g w = (y, w1)"
    using port by (cases x) (simp_all add: execute_one_def)
  obtain rs w2 where rest: "execute_all (sc_executor E) ns g w1 = (rs, w2)" by fastforce
  from Cons.IH [OF w1 rest] Cons.prems(2) one rest show ?case by auto
qed simp

lemma execute_leaf_batch_steps:
  assumes "rsteps E D b r (g0, w)"
    "execute_leaf_batch (sc_executor E) (sc_snapshot E) ns g w = (res, w')"
  shows "rsteps E D b r (g0, w') \<and> map fst res = map nd_id ns"
proof (cases "length ns \<le> 1")
  case True
  then consider "ns = []" | n where "ns = [n]" by (cases ns) auto
  then show ?thesis
  proof cases
    case 1
    with assms show ?thesis by (simp add: execute_leaf_batch_def)
  next
    case 2
    with assms(2) have "execute_all (sc_executor E) ns g w = (res, w')"
      by (simp add: execute_leaf_batch_def)
    from execute_all_steps [OF assms(1) this] show ?thesis .
  qed
next
  case False
  then obtain a c ns' where ns: "ns = a # c # ns'" by (cases ns; cases "tl ns") auto
  obtain x w1 where port: "sc_snapshot E g w = (x, w1)" by fastforce
  have w1: "rsteps E D b r (g0, w1)"
    using assms(1) port by (auto intro: rs_world world_step.intros)
  show ?thesis
  proof (cases x)
    case None
    with assms(2) ns port have "execute_all (sc_executor E) ns g w1 = (res, w')"
      by (simp add: execute_leaf_batch_def)
    from execute_all_steps [OF w1 this] show ?thesis .
  next
    case (Some e)
    with assms(2) ns port w1 show ?thesis by (auto simp: execute_leaf_batch_def)
  qed
qed

lemma run_batch_steps:
  assumes "ready_batch ks r" "run_batch E ks r = ((prep, results), r')"
  shows "rsteps E D (ks \<noteq> []) r r' \<and> all_at is_running prep r' \<and> set prep \<subseteq> set ks"
proof -
  obtain r1 where 1: "keep_if (start_leaf E) ks r = (prep, r1)"
    and r': "fst r' = fst r1" "execute_leaf_batch (sc_executor E) (sc_snapshot E) (nodes_of (fst r1) prep)
       (fst r1) (snd r1) = (results, snd r')"
    using assms(2) by (auto simp: run_batch_def split: prod.splits)
  from keep_if_start [OF assms(1) 1, of D] have a: "rsteps E D (ks \<noteq> []) r (fst r1, snd r1)"
    "all_at is_running prep r1" "set prep \<subseteq> set ks" by auto
  from execute_leaf_batch_steps [OF a(1) r'(2)] have "rsteps E D (ks \<noteq> []) r (fst r1, snd r')" by blast
  with a r'(1) show ?thesis by (cases r') (auto simp: all_at_def)
qed

section \<open>Leased operations\<close>

text \<open>Steps that change no node.\<close>

definition quiet :: "'w scheduler \<Rightarrow> bool \<Rightarrow> 'w trun \<Rightarrow> 'w trun \<Rightarrow> bool" where
  "quiet E D r r' \<longleftrightarrow> rsteps E D False r r' \<and> tg_nodes (fst r') = tg_nodes (fst r)"

lemma quiet_refl: "quiet E D r r"
  by (simp add: quiet_def rs_refl)

lemma quiet_world: "quiet E D r r' \<Longrightarrow> world_step E (snd r') w \<Longrightarrow> quiet E D r (fst r', w)"
  by (auto simp: quiet_def intro: rs_world_pair)

lemma quiet_lease: "quiet E D r r' \<Longrightarrow> quiet E D r (record_lease E ks lease r')"
  by (auto simp: quiet_def record_lease_def intro: rs_basic)

lemma heartbeat_start_quiet:
  assumes "sc_leases E = Some M" "heartbeat_start M (snd r') = (x, w)" "quiet E D r r'"
  shows "quiet E D r (fst r', w)"
proof -
  obtain y w1 where y: "lm_interval M (snd r') = (y, w1)" by fastforce
  have q1: "quiet E D r (fst r', w1)"
    by (rule quiet_world [OF assms(3)]) (use assms(1) y in \<open>auto intro: world_step.intros\<close>)
  show ?thesis
  proof (cases y)
    case (Inl e)
    with assms(2) y q1 show ?thesis by (simp add: heartbeat_start_def)
  next
    case (Inr i)
    show ?thesis
    proof (cases "i \<le> 0")
      case True
      with assms(2) y q1 Inr show ?thesis by (simp add: heartbeat_start_def)
    next
      case False
      with assms(2) y Inr have "lm_start M w1 = (x, w)" by (simp add: heartbeat_start_def)
      with quiet_world [OF q1, of w] assms(1) show ?thesis by (auto intro: world_step.intros)
    qed
  qed
qed

lemma heartbeat_run_quiet:
  "sc_leases E = Some M \<Longrightarrow> heartbeat_run M n lease w = (x, w') \<Longrightarrow> quiet E D r (g, w) \<Longrightarrow> quiet E D r (g, w')"
proof (induction M n lease w rule: heartbeat_run.induct)
  case (2 M n lease w)
  obtain y w1 where y: "lm_renew M lease w = (y, w1)" by fastforce
  have "world_step E (snd (g, w)) w1" using 2(2) y by (auto intro: world_step.intros)
  from quiet_world [OF 2(4) this] have q1: "quiet E D r (g, w1)" by simp
  show ?case
  proof (cases y)
    case (Inl e)
    with 2 y q1 show ?thesis by simp
  next
    case (Inr l)
    with 2 y q1 show ?thesis by simp
  qed
qed simp

lemma heartbeat_stop_quiet:
  assumes "sc_leases E = Some M" "heartbeat_stop M lease (snd r') = (x, w)" "quiet E D r r'"
  shows "quiet E D r (fst r', w)"
proof -
  obtain bs st w1 where b: "lm_beats M (snd r') = ((bs, st), w1)" by (metis surj_pair)
  obtain e w2 where e: "heartbeat_run M bs lease w1 = (e, w2)" by fastforce
  have "world_step E (snd r') w1" using assms(1) b by (auto intro: world_step.intros)
  from heartbeat_run_quiet [OF assms(1) e quiet_world [OF assms(3) this]] show ?thesis
    using assms(2) b e by (auto simp: heartbeat_stop_def Let_def)
qed

lemma release_lease_quiet:
  assumes "sc_leases E = Some M" "release_lease M lease (snd r') = (x, w)" "quiet E D r r'"
  shows "quiet E D r (fst r', w)"
proof -
  obtain y w1 where y: "lm_release M lease (snd r') = (y, w1)" by fastforce
  have "world_step E (snd r') w1" using assms(1) y by (auto intro: world_step.intros)
  from quiet_world [OF assms(3) this] show ?thesis
    using assms(2) y by (auto simp: release_lease_def split: option.splits)
qed

lemma run_leased_steps:
  assumes "run_leased_operation (sc_leases E) owner claims (record_lease E ks) oper r = (out, r')"
  shows "(\<exists>v r1 r2. lo_value out = Some v \<and> quiet E D r r1 \<and> oper r1 = (v, r2) \<and> quiet E D r2 r') \<or>
    (lo_value out = None \<and> quiet E D r r' \<and> claims \<noteq> [])"
proof (cases "sc_leases E = None \<or> claims = []")
  case True
  obtain v r1 where v: "oper r = (v, r1)" by (metis surj_pair)
  then have "run_leased_operation (sc_leases E) owner claims (record_lease E ks) oper r =
      (no_operation\<lparr>lo_value := Some v, lo_executed := True\<rparr>, r1)"
    using True by (auto simp: run_leased_operation_def split: option.split)
  with assms have "lo_value out = Some v" "r' = r1" by (auto simp: no_operation_def)
  with v quiet_refl show ?thesis by blast
next
  case False
  then obtain M where M: "sc_leases E = Some M" by (cases "sc_leases E") auto
  obtain a w where acq: "lm_acquire M owner claims (snd r) = (a, w)" by fastforce
  have w: "quiet E D r (fst r, w)"
    by (rule quiet_world [OF quiet_refl]) (use acq M in \<open>auto intro: world_step.intros\<close>)
  consider (err) e where "a = Inl e" | (bad) "a = Inr None" | (refused) att where "a = Inr (Some att)" "la_lease att = None"
    | (granted) att lease where "a = Inr (Some att)" "la_lease att = Some lease"
    by (metis obj_sumE option.exhaust)
  then show ?thesis
  proof cases
    case err
    with assms False M acq w show ?thesis
      by (auto simp: run_leased_operation_def no_operation_def)
  next
    case bad
    with assms False M acq w show ?thesis
      by (auto simp: run_leased_operation_def no_operation_def)
  next
    case refused
    with assms False M acq w show ?thesis
      by (auto simp: run_leased_operation_def no_operation_def)
  next
    case granted
    define r1 where "r1 = record_lease E ks lease (fst r, w)"
    have q1: "quiet E D r r1" unfolding r1_def by (rule quiet_lease [OF w])
    obtain x w2 where start: "heartbeat_start M (snd r1) = (x, w2)" by fastforce
    have q2: "quiet E D r (fst r1, w2)" by (rule heartbeat_start_quiet [OF M start q1])
    show ?thesis
    proof (cases x)
      case (Some e)
      obtain y w3 where rel: "release_lease M lease w2 = (y, w3)" by fastforce
      have "quiet E D r (fst r1, w3)"
        using release_lease_quiet [OF M, of lease "(fst r1, w2)" y w3 D r] rel q2 by simp
      moreover have "lo_value out = None" "r' = (fst r1, w3)"
        using assms False M acq granted start Some rel
        by (auto simp: run_leased_operation_def r1_def [symmetric] no_operation_def Let_def)
      ultimately show ?thesis using False by simp
    next
      case None
      obtain v r3 where v: "oper (fst r1, w2) = (v, r3)" by (metis surj_pair)
      obtain h w4 where stop: "heartbeat_stop M lease (snd r3) = (h, w4)" by fastforce
      obtain y w5 where rel: "release_lease M lease w4 = (y, w5)" by fastforce
      have q4: "quiet E D r3 (fst r3, w4)" by (rule heartbeat_stop_quiet [OF M stop quiet_refl])
      have q5: "quiet E D r3 (fst r3, w5)"
        using release_lease_quiet [OF M, of lease "(fst r3, w4)" y w5 D r3] rel q4 by simp
      have "lo_value out = Some v" "r' = (fst r3, w5)"
        using assms False M acq granted start None v stop rel
        by (auto simp: run_leased_operation_def r1_def [symmetric] no_operation_def Let_def)
      with q2 v q5 show ?thesis by blast
    qed
  qed
qed

section \<open>One turn of the loop\<close>

lemma extend_batch_ids:
  "set (extend_batch p ns sel cs) \<subseteq> set sel \<union> set ns \<and> (sel \<noteq> [] \<longrightarrow> extend_batch p ns sel cs \<noteq> []) \<and>
   (distinct (map nd_id (sel @ ns)) \<longrightarrow> distinct (map nd_id (extend_batch p ns sel cs)))"
proof (induction p ns sel cs rule: extend_batch.induct)
  case (2 p n ns sel cs)
  show ?case
  proof (cases "int (length sel) = sp_max_parallel p")
    case False
    show ?thesis
    proof (cases "allows_parallel p n \<and> \<not> claims_conflict cs (claims_for p n)")
      case True
      with False 2(1) [OF False True] show ?thesis by auto
    next
      case other: False
      then have "extend_batch p (n # ns) sel cs = extend_batch p ns sel cs" using False by auto
      with 2(2) [OF False other] show ?thesis by auto
    qed
  qed auto
qed simp

lemma select_leaf_batch_ids:
  assumes "distinct (map nd_id ns)"
  shows "set (select_leaf_batch ns p) \<subseteq> {n \<in> set ns. is_ready n} \<and>
    distinct (map nd_id (select_leaf_batch ns p)) \<and>
    ((\<exists>n\<in>set ns. is_ready n) \<longrightarrow> select_leaf_batch ns p \<noteq> [])"
proof (cases "filter is_ready ns")
  case Nil
  then show ?thesis by (auto simp: select_leaf_batch_def filter_empty_conv)
next
  case (Cons n rest)
  have "set (filter is_ready ns) = {n \<in> set ns. is_ready n}" by (rule set_filter)
  then have sub: "{n} \<union> set rest \<subseteq> {n \<in> set ns. is_ready n}" using Cons by simp
  have "distinct (map nd_id (filter is_ready ns))" using assms by (rule distinct_map_filter)
  then have "distinct (map nd_id ([n] @ rest))" using Cons by simp
  with extend_batch_ids [of p rest "[n]" "claims_for p n"] sub Cons show ?thesis
    by (auto simp: select_leaf_batch_def)
qed

text \<open>The candidates of a well-formed graph.\<close>

lemma wf_node:
  assumes "graph_wf g" "n \<in> set (map snd (tg_nodes g))"
  shows "node_at g (nd_id n) = Some n"
proof -
  from assms(2) obtain k where "(k, n) \<in> set (tg_nodes g)" by auto
  moreover have "wf_dict (tg_nodes g)" using assms(1) by (simp add: graph_wf_def)
  ultimately have "node_at g k = Some n" using dget_in unfolding node_at_def by metis
  with assms(1) show ?thesis by (auto simp: graph_wf_def)
qed

lemma wf_distinct_ids:
  assumes "graph_wf g" shows "distinct (map nd_id (map snd (tg_nodes g)))"
proof -
  have wf: "wf_dict (tg_nodes g)" using assms by (simp add: graph_wf_def)
  have "nd_id (snd x) = fst x" if "x \<in> set (tg_nodes g)" for x
  proof -
    have "node_at g (fst x) = Some (snd x)"
      using dget_in [OF wf, of "fst x" "snd x"] that by (simp add: node_at_def)
    with assms show ?thesis by (simp add: graph_wf_def)
  qed
  then have "map nd_id (map snd (tg_nodes g)) = map fst (tg_nodes g)" by simp
  with wf show ?thesis by (simp add: wf_dict_def del: map_map)
qed

lemma candidates:
  assumes "graph_wf g"
  shows "n \<in> set (candidate_nodes g) \<Longrightarrow> node_at g (nd_id n) = Some n \<and>
      nd_status n \<in> {TS_PENDING, TS_READY} \<and> dependencies_met g n"
    "distinct (map nd_id (candidate_nodes g))"
proof -
  show "n \<in> set (candidate_nodes g) \<Longrightarrow> node_at g (nd_id n) = Some n \<and>
      nd_status n \<in> {TS_PENDING, TS_READY} \<and> dependencies_met g n"
    using wf_node [OF assms] by (auto simp: candidate_nodes_def)
  let ?P = "\<lambda>n. nd_status n \<in> {TS_PENDING, TS_READY} \<and> dependencies_met g n"
  have "distinct (map nd_id (filter ?P (map snd (tg_nodes g))))"
    by (rule distinct_map_filter [OF wf_distinct_ids [OF assms]])
  then show "distinct (map nd_id (candidate_nodes g))"
    unfolding candidate_nodes_def by (simp add: distinct_map)
qed

lemma quiet_status: "quiet E D r r' \<Longrightarrow> ready_batch ks r' = ready_batch ks r"
  unfolding quiet_def by (rule nodes_same_touches) blast

lemma execute_ready_leaves_steps:
  assumes wf: "graph_wf (fst r)" and cs: "cs = candidate_nodes (fst r)" and ne: "\<exists>n\<in>set cs. is_ready n"
  shows "rsteps E D True r (execute_ready_leaves E cs r)"
proof -
  define sel where "sel = map nd_id (select_leaf_batch cs (sc_policy E))"
  note ids = select_leaf_batch_ids [OF candidates(2) [OF wf], folded cs, of "sc_policy E"]
  have sel: "sel \<noteq> []" "ready_batch sel r"
    using ids ne candidates(1) [OF wf] cs unfolding sel_def ready_batch_def by auto
  obtain adm r1 where adm: "keep_if (admit_leaf E) sel r = (adm, r1)" by (metis surj_pair)
  define claims where "claims = batch_claims (nodes_of (fst r1) adm) (sc_policy E)"
  define owner where "owner = tg_id (fst r1) @ '':'' @ str_join '','' adm"
  obtain out r2 where lease: "run_leased_operation (sc_leases E) owner claims (record_lease E adm)
      (run_batch E adm) r1 = (out, r2)" by (metis surj_pair)
  from keep_if_admit [OF sel(2) adm, of D] have a: "rsteps E D (adm \<noteq> sel) r r1" "ready_batch adm r1"
    by blast+
  from run_leased_steps [OF lease, of D] show ?thesis
  proof (elim disjE exE conjE)
    fix v s1 s2 assume v: "lo_value out = Some v" and q: "quiet E D r1 s1" "quiet E D s2 r2"
      and run: "run_batch E adm s1 = (v, s2)"
    obtain prep results where p: "v = (prep, results)" by fastforce
    have "ready_batch adm s1" using quiet_status [OF q(1)] a(2) by simp
    from run_batch_steps [OF this run [unfolded p], of D] have b: "rsteps E D (adm \<noteq> []) s1 s2"
      "all_at is_running prep s2" by blast+
    have "rsteps E D ((adm \<noteq> sel \<or> False) \<or> adm \<noteq> []) r s2"
      by (rule rsteps_append [OF rsteps_append [OF a(1)] b(1)]) (use q(1) in \<open>simp add: quiet_def\<close>)
    then have s2: "rsteps E D True r s2" using sel(1) by auto
    from rsteps_append [OF this, of False r2] q(2) have r2: "rsteps E D True r r2" by (simp add: quiet_def)
    define final where "final = (case (case lo_heartbeat_error out of Some e \<Rightarrow> Some e | None \<Rightarrow> lo_release_error out) of
        None \<Rightarrow> results
      | Some e \<Rightarrow> map (\<lambda>k. (k, plain_result ''failed'' ''resource lease lifecycle failed'' (Some e))) prep)"
    have "all_at is_running (sort prep) r2" using b(2) q(2) by (simp add: all_at_def quiet_def node_at_def)
    from apply_results_steps [OF r2 this, of final] have "rsteps E D True r (apply_results E final (sort prep) r2)"
      by simp
    moreover have "execute_ready_leaves E cs r = apply_results E final (sort prep) r2"
      unfolding execute_ready_leaves_def Let_def sel_def [symmetric] adm prod.case
        claims_def [symmetric] owner_def [symmetric] lease v p option.case final_def [symmetric] ..
    ultimately show ?thesis by simp
  next
    assume no: "lo_value out = None" and q: "quiet E D r1 r2" and cl: "claims \<noteq> []"
    have "adm \<noteq> []" using cl by (auto simp: claims_def nodes_of_def batch_claims_def strongest_claims_def Let_def dkeys_def map_filter_def)
    moreover have "all_at is_ready adm r2"
      using a(2) q by (auto simp: all_at_def ready_batch_def quiet_def node_at_def)
    moreover have "rsteps E D ((adm \<noteq> sel) \<or> False) r r2"
      by (rule rsteps_append [OF a(1)]) (use q in \<open>simp add: quiet_def\<close>)
    ultimately have "rsteps E D (((adm \<noteq> sel) \<or> False) \<or> adm \<noteq> []) r
        (fold (block_one_for_lease E e c) adm r2)" for e c
      by (intro block_fold_steps)
    then have "rsteps E D True r (block_for_resource_lease E adm e c r2)" for e c
      using \<open>adm \<noteq> []\<close> by (simp add: block_for_resource_lease_def rs_sch_save)
    moreover have "execute_ready_leaves E cs r =
        block_for_resource_lease E adm (lease_refusal_error out) (lease_contention out) r2"
      unfolding execute_ready_leaves_def Let_def sel_def [symmetric] adm prod.case
        claims_def [symmetric] owner_def [symmetric] lease no option.case ..
    ultimately show ?thesis by simp
  qed
qed

lemma select_pending:
  assumes "select_pending_candidate cs p = Some n"
  shows "n \<in> set cs \<and> nd_status n = TS_PENDING"
  using assms by (auto simp: select_pending_candidate_def find_Some_iff split: if_splits list.splits)

lemma select_pending_None:
  assumes "select_pending_candidate cs p = None" "cs \<noteq> []" "\<forall>n\<in>set cs. nd_status n \<in> {TS_PENDING, TS_READY}"
  shows "\<exists>n\<in>set cs. is_ready n"
  using assms by (auto simp: select_pending_candidate_def find_None_iff neq_Nil_conv split: if_splits)

lemma sched_pass_steps:
  assumes wf: "graph_wf (fst r)" and nt: "\<not> root_terminal (fst r)" and dots: "D \<longrightarrow> dot_free_keys E"
  shows "rsteps E D True r (sched_pass E r)"
proof -
  obtain c r1 where 1: "propagate E r = (c, r1)" by (metis surj_pair)
  from propagate_steps [OF 1, of D] have p: "rsteps E D c r r1" "\<not> c \<longrightarrow> r1 = r" by blast+
  have wf1: "graph_wf (fst r1)" by (rule rsteps_wf [OF p(1) wf])
  show ?thesis
  proof (cases "root_terminal (fst r1)")
    case True
    with nt p have c by auto
    with p(1) 1 True show ?thesis by (simp add: sched_pass_def)
  next
    case live_root: False
    define cs where "cs = candidate_nodes (fst r1)"
    note cand = candidates [OF wf1, folded cs_def]
    show ?thesis
    proof (cases "cs = []")
      case True
      show ?thesis
      proof (cases c)
        case True
        with p(1) 1 live_root \<open>cs = []\<close> show ?thesis by (simp add: sched_pass_def Let_def cs_def)
      next
        case False
        from wf1 obtain n where n: "node_at (fst r1) (tg_root_id (fst r1)) = Some n"
          by (auto simp: graph_wf_def)
        have "live n" using live_root n by (simp add: root_terminal_def root_node_def live_def)
        from rs_fail [OF p(1) n this, of TS_BLOCKED "''task_graph_deadlock''"]
        have f: "rsteps E D True r (fail_node (tg_root_id (fst r1)) TS_BLOCKED ''task_graph_deadlock'' r1)" by simp
        have "rsteps E D True r (deadlock E r1)"
          unfolding deadlock_def Let_def by (intro rs_basic) (use rs_step [OF f g_reason] in simp)
        then show ?thesis using 1 live_root False \<open>cs = []\<close> by (simp add: sched_pass_def Let_def cs_def)
      qed
    next
      case False
      have "rsteps E D True r1 (case select_pending_candidate cs (sc_policy E) of
          Some n \<Rightarrow> assess_node E (nd_id n) r1 | None \<Rightarrow> execute_ready_leaves E cs r1)"
      proof (cases "select_pending_candidate cs (sc_policy E)")
        case None
        have "\<exists>n\<in>set cs. is_ready n"
          using select_pending_None [OF None False] cand(1) by blast
        from execute_ready_leaves_steps [OF wf1 cs_def this] None show ?thesis by simp
      next
        case (Some n)
        from select_pending [OF Some] have "n \<in> set cs" "nd_status n = TS_PENDING" by blast+
        with cand(1) [of n] assess_node_steps [of r1 "nd_id n" n D E] dots Some show ?thesis by simp
      qed
      from rsteps_append [OF p(1) this] 1 live_root False show ?thesis
        by (simp add: sched_pass_def Let_def cs_def [symmetric])
    qed
  qed
qed

section \<open>The loop\<close>

lemma sched_loop_result:
  assumes "graph_wf (fst r)" "D \<longrightarrow> dot_free_keys E"
  shows "\<exists>r' b. sched_loop E r = Some r' \<and> rsteps E D b r r' \<and> root_terminal (fst r')"
  using assms(1)
proof (induction "task_measure (retry_bound E) (fst r)" arbitrary: r rule: wf_induct_rule [OF wf_measure_order])
  case 1
  show ?case
  proof (cases "root_terminal (fst r)")
    case True
    then have "sched_loop E r = Some r" by (simp add: sched_loop.simps)
    with True rs_refl show ?thesis by blast
  next
    case False
    note p = sched_pass_steps [OF 1(2) False assms(2)]
    have "graph_wf (fst (sched_pass E r))" by (rule rsteps_wf [OF p 1(2)])
    moreover have "(task_measure (retry_bound E) (fst (sched_pass E r)), task_measure (retry_bound E) (fst r)) \<in> measure_order"
      using rsteps_measure [OF p 1(2)] by simp
    ultimately obtain r' b where "sched_loop E (sched_pass E r) = Some r'" "rsteps E D b (sched_pass E r) r'"
      "root_terminal (fst r')" using 1(1) by blast
    moreover have "sched_loop E r = sched_loop E (sched_pass E r)"
      using False by (subst sched_loop.simps) simp
    ultimately show ?thesis using rsteps_append [OF p] by metis
  qed
qed

end
