(* ===== verification/Task_Persistence.thy ===== *)
theory Task_Persistence
  imports Task_Steps Json_Files
begin

text \<open>
  JSON persistence of task graphs: \<open>TaskGraph.to_dict\<close> / \<open>from_dict\<close>
  (\<open>loop_engine/tasks/models.py\<close>) and the file store (\<open>loop_engine/tasks/persistence.py\<close>).
  The directory and the JSON codec are those of \<open>Json_Files\<close>, and replacing the target by the
  temporary file is one step. Reading a dictionary back
  gives \<open>None\<close> where the code raises, and also for a field whose JSON value is not of the
  declared type, which the code would keep.
\<close>

section \<open>Writing\<close>

definition leaf_result_dict :: "leaf_result \<Rightarrow> pydict" where
  "leaf_result_dict r = [(''status'', PStr (lr_status r)), (''summary'', PStr (lr_summary r)),
     (''evidence'', PDict (lr_evidence r)), (''error'', popt_str (lr_error r)),
     (''retryable'', PBool (lr_retryable r)), (''retry_code'', popt_str (lr_retry_code r)),
     (''idempotency_key'', popt_str (lr_idempotency_key r))]"

definition task_node_dict :: "task_node \<Rightarrow> pydict" where
  "task_node_dict n = [(''id'', PStr (nd_id n)), (''goal'', PStr (nd_goal n)),
     (''parent_id'', popt_str (nd_parent_id n)),
     (''success_criteria'', pstrs (nd_success_criteria n)),
     (''required_capabilities'', pstrs (nd_required_capabilities n)),
     (''dependencies'', pstrs (nd_dependencies n)), (''children'', pstrs (nd_children n)),
     (''status'', PStr (task_status_str (nd_status n))), (''depth'', PInt (int (nd_depth n))),
     (''attempts'', PInt (int (nd_attempts n))), (''retries'', PInt (int (nd_retries n))),
     (''retry_started_at'', nd_retry_started_at n),
     (''result'', case nd_result n of None \<Rightarrow> PNone | Some r \<Rightarrow> PDict (leaf_result_dict r)),
     (''error'', popt_str (nd_error n)), (''metadata'', PDict (nd_metadata n))]"

definition task_event_dict :: "task_event \<Rightarrow> pydict" where
  "task_event_dict e = [(''sequence'', PInt (int (te_sequence e))),
     (''event_type'', PStr (te_event_type e)), (''node_id'', PStr (te_node_id e)),
     (''payload'', PDict (te_payload e)), (''timestamp'', PStr (te_timestamp e))]"

definition task_budget_dict :: "task_budget \<Rightarrow> pydict" where
  "task_budget_dict b = [(''max_nodes'', PInt (tb_max_nodes b)), (''max_depth'', PInt (tb_max_depth b)),
     (''max_leaf_executions'', PInt (tb_max_leaf_executions b))]"

definition task_graph_dict :: "task_graph \<Rightarrow> pydict" where
  "task_graph_dict g = [(''id'', PStr (tg_id g)), (''root_id'', PStr (tg_root_id g)),
     (''nodes'', PDict (map (\<lambda>(k, n). (k, PDict (task_node_dict n))) (tg_nodes g))),
     (''budget'', PDict (task_budget_dict (tg_budget g))),
     (''leaf_executions'', PInt (int (tg_leaf_executions g))),
     (''events'', PList (map (\<lambda>e. PDict (task_event_dict e)) (tg_events g))),
     (''stop_reason'', popt_str (tg_stop_reason g))]"

section \<open>Reading\<close>

definition as_status :: "pyval \<Rightarrow> task_status option" where
  "as_status v = (case as_str v of None \<Rightarrow> None | Some s \<Rightarrow>
     find (\<lambda>st. task_status_str st = s) [TS_PENDING, TS_READY, TS_RUNNING, TS_WAITING, TS_COMPLETED,
       TS_FAILED, TS_BLOCKED])"

definition leaf_result_from :: "pydict \<Rightarrow> leaf_result option" where
  "leaf_result_from d =
     (if \<not> only_keys [''status'', ''summary'', ''evidence'', ''error'', ''retryable'', ''retry_code'',
          ''idempotency_key''] d then None
      else Option.bind (req_arg d ''status'' as_str) (\<lambda>status.
        Option.bind (req_arg d ''summary'' as_str) (\<lambda>summary.
        Option.bind (opt_arg d ''evidence'' [] as_dict) (\<lambda>evidence.
        Option.bind (opt_arg d ''error'' None as_opt_str) (\<lambda>error.
        Option.bind (opt_arg d ''retry_code'' None as_opt_str) (\<lambda>code.
        Option.bind (opt_arg d ''idempotency_key'' None as_opt_str) (\<lambda>key.
          case mk_leaf_result status summary evidence error (dget_or (PBool False) d ''retryable'') code key of
            Inl e \<Rightarrow> None | Inr r \<Rightarrow> Some r)))))))"

fun as_opt_result :: "pyval \<Rightarrow> leaf_result option option" where
  "as_opt_result PNone = Some None"
| "as_opt_result (PDict d) = map_option Some (leaf_result_from d)"
| "as_opt_result _ = None"

definition task_node_keys :: "string list" where
  "task_node_keys = [''id'', ''goal'', ''parent_id'', ''success_criteria'', ''required_capabilities'',
     ''dependencies'', ''children'', ''status'', ''depth'', ''attempts'', ''retries'',
     ''retry_started_at'', ''result'', ''error'', ''metadata'']"

definition task_node_from :: "pydict \<Rightarrow> task_node option" where
  "task_node_from d =
     (if \<not> only_keys task_node_keys d then None
      else Option.bind (req_arg d ''id'' as_str) (\<lambda>i.
        Option.bind (req_arg d ''goal'' as_str) (\<lambda>goal.
        Option.bind (opt_arg d ''parent_id'' None as_opt_str) (\<lambda>parent.
        Option.bind (opt_arg d ''success_criteria'' [] as_strs) (\<lambda>criteria.
        Option.bind (opt_arg d ''required_capabilities'' [] as_strs) (\<lambda>capabilities.
        Option.bind (opt_arg d ''dependencies'' [] as_strs) (\<lambda>dependencies.
        Option.bind (opt_arg d ''children'' [] as_strs) (\<lambda>children.
        Option.bind (opt_arg d ''status'' TS_PENDING as_status) (\<lambda>status.
        Option.bind (opt_arg d ''depth'' 0 as_nat) (\<lambda>depth.
        Option.bind (opt_arg d ''attempts'' 0 as_nat) (\<lambda>attempts.
        Option.bind (opt_arg d ''retries'' 0 as_nat) (\<lambda>retries.
        Option.bind (opt_arg d ''result'' None as_opt_result) (\<lambda>result.
        Option.bind (opt_arg d ''error'' None as_opt_str) (\<lambda>error.
        Option.bind (opt_arg d ''metadata'' [] as_dict) (\<lambda>metadata.
          Some \<lparr>nd_id = i, nd_goal = goal, nd_parent_id = parent, nd_success_criteria = criteria,
            nd_required_capabilities = capabilities, nd_dependencies = dependencies,
            nd_children = children, nd_status = status, nd_depth = depth, nd_attempts = attempts,
            nd_retries = retries, nd_retry_started_at = dget_or PNone d ''retry_started_at'',
            nd_result = result, nd_error = error, nd_metadata = metadata\<rparr>)))))))))))))))"

definition task_event_from :: "pyval \<Rightarrow> task_event option" where
  "task_event_from v = Option.bind (as_dict v) (\<lambda>d.
     if \<not> only_keys [''sequence'', ''event_type'', ''node_id'', ''payload'', ''timestamp''] d then None
     else Option.bind (req_arg d ''sequence'' as_nat) (\<lambda>sequence.
       Option.bind (req_arg d ''event_type'' as_str) (\<lambda>event_type.
       Option.bind (req_arg d ''node_id'' as_str) (\<lambda>node_id.
       Option.bind (req_arg d ''payload'' as_dict) (\<lambda>payload.
       Option.bind (req_arg d ''timestamp'' as_str) (\<lambda>timestamp.
         Some \<lparr>te_sequence = sequence, te_event_type = event_type, te_node_id = node_id,
           te_payload = payload, te_timestamp = timestamp\<rparr>))))))"

definition task_budget_from :: "pydict \<Rightarrow> task_budget option" where
  "task_budget_from d =
     (if \<not> only_keys [''max_nodes'', ''max_depth'', ''max_leaf_executions''] d then None
      else Option.bind (opt_arg d ''max_nodes'' 32 plain_int) (\<lambda>nodes.
        Option.bind (opt_arg d ''max_depth'' 5 plain_int) (\<lambda>depth.
        Option.bind (opt_arg d ''max_leaf_executions'' 16 plain_int) (\<lambda>leaves.
          Some \<lparr>tb_max_nodes = nodes, tb_max_depth = depth, tb_max_leaf_executions = leaves\<rparr>))))"

definition keyed_node_from :: "string \<times> pyval \<Rightarrow> (string \<times> task_node) option" where
  "keyed_node_from kv = map_option (Pair (fst kv)) (Option.bind (as_dict (snd kv)) task_node_from)"

definition task_graph_from :: "pydict \<Rightarrow> task_graph option" where
  "task_graph_from d =
     Option.bind (req_arg d ''nodes'' as_dict) (\<lambda>raw.
     Option.bind (map_all keyed_node_from raw) (\<lambda>nodes.
     Option.bind (req_arg d ''id'' as_str) (\<lambda>i.
     Option.bind (req_arg d ''root_id'' as_str) (\<lambda>root_id.
     Option.bind (opt_arg d ''budget'' [] as_dict) (\<lambda>raw_budget.
     Option.bind (task_budget_from raw_budget) (\<lambda>budget.
     Option.bind (opt_arg d ''leaf_executions'' 0 as_nat) (\<lambda>executions.
     Option.bind (opt_arg d ''events'' [] as_list) (\<lambda>raw_events.
     Option.bind (map_all task_event_from raw_events) (\<lambda>events.
     Option.bind (opt_arg d ''stop_reason'' None as_opt_str) (\<lambda>reason.
       Some \<lparr>tg_id = i, tg_root_id = root_id, tg_nodes = nodes, tg_budget = budget,
         tg_leaf_executions = executions, tg_events = events, tg_stop_reason = reason\<rparr>))))))))))"

section \<open>The file store\<close>

definition graph_id_char :: "char \<Rightarrow> bool" where
  "graph_id_char c = (let n = (of_char c :: nat) in
     (65 \<le> n \<and> n \<le> 90) \<or> (97 \<le> n \<and> n \<le> 122) \<or> (48 \<le> n \<and> n \<le> 57) \<or> n = 95 \<or> n = 45)"

definition store_target :: "string \<Rightarrow> py_exc + string" where
  "store_target graph_id = (if graph_id \<noteq> [] \<and> list_all graph_id_char graph_id
     then Inr (graph_id @ ''.json'')
     else Inl (ValueError ''graph_id may contain only letters, digits, underscore, and hyphen''))"

definition store_save :: "json_codec \<Rightarrow> task_graph \<Rightarrow> directory \<Rightarrow> py_exc + directory" where
  "store_save J g files = (case store_target (tg_id g) of
      Inl e \<Rightarrow> Inl e
    | Inr target \<Rightarrow> Inr (replace_by_move (target @ ''.tmp'') target (jc_dumps J (PDict
        [(''schema_version'', PInt 4), (''graph'', PDict (task_graph_dict g))])) files))"

definition recover_node :: "task_node \<Rightarrow> task_node" where
  "recover_node n = (if nd_status n = TS_RUNNING
     then n\<lparr>nd_status := TS_READY, nd_error := Some ''recovered_after_interrupted_leaf_execution''\<rparr>
     else n)"

definition recover_graph :: "task_graph \<Rightarrow> task_graph" where
  "recover_graph g = g\<lparr>tg_nodes := map (\<lambda>(k, n). (k, recover_node n)) (tg_nodes g)\<rparr>"

definition supported_version :: "pyval option \<Rightarrow> bool" where
  "supported_version v = (case v of None \<Rightarrow> False
     | Some x \<Rightarrow> eq_num x 1 \<or> eq_num x 2 \<or> eq_num x 3 \<or> eq_num x 4)"

definition store_load :: "json_codec \<Rightarrow> string \<Rightarrow> directory \<Rightarrow> py_exc + task_graph" where
  "store_load J graph_id files = (case store_target graph_id of
      Inl e \<Rightarrow> Inl e
    | Inr target \<Rightarrow> (case dget files target of
        None \<Rightarrow> Inl (PyExc ''FileNotFoundError'' target)
      | Some text \<Rightarrow> (case Option.bind (jc_loads J text) as_dict of
          None \<Rightarrow> Inl (ValueError ''invalid task graph file'')
        | Some payload \<Rightarrow>
            if \<not> supported_version (dget payload ''schema_version'')
              then Inl (ValueError ''unsupported task graph schema version'')
            else (case Option.bind (req_arg payload ''graph'' as_dict) task_graph_from of
                None \<Rightarrow> Inl (ValueError ''invalid task graph'')
              | Some g \<Rightarrow> Inr (recover_graph g)))))"

section \<open>Round trips\<close>

lemma as_status_str [simp]: "as_status (PStr (task_status_str s)) = Some s"
  by (cases s) (simp_all add: as_status_def task_status_str_def)

lemma leaf_result_round_trip: "leaf_result_ok r \<Longrightarrow> leaf_result_from (leaf_result_dict r) = Some r"
  using mk_leaf_result_again [of r]
  by (simp add: leaf_result_from_def leaf_result_dict_def only_keys_def dkeys_def req_arg_def
      opt_arg_def dget_or_def)

lemma task_node_round_trip:
  assumes "\<forall>r. nd_result n = Some r \<longrightarrow> leaf_result_ok r"
  shows "task_node_from (task_node_dict n) = Some n"
proof -
  have "as_opt_result (case nd_result n of None \<Rightarrow> PNone | Some r \<Rightarrow> PDict (leaf_result_dict r)) = Some (nd_result n)"
    using assms leaf_result_round_trip by (cases "nd_result n") auto
  then show ?thesis
    by (simp add: task_node_from_def task_node_dict_def only_keys_def task_node_keys_def dkeys_def
        req_arg_def opt_arg_def dget_or_def)
qed

lemma task_event_round_trip: "task_event_from (PDict (task_event_dict e)) = Some e"
  by (simp add: task_event_from_def task_event_dict_def only_keys_def dkeys_def req_arg_def)

lemma task_budget_round_trip: "task_budget_from (task_budget_dict b) = Some b"
  by (simp add: task_budget_from_def task_budget_dict_def only_keys_def dkeys_def opt_arg_def)

definition results_ok :: "task_graph \<Rightarrow> bool" where
  "results_ok g \<longleftrightarrow> (\<forall>kn\<in>set (tg_nodes g). \<forall>r. nd_result (snd kn) = Some r \<longrightarrow> leaf_result_ok r)"

lemma task_graph_round_trip:
  assumes "results_ok g"
  shows "task_graph_from (task_graph_dict g) = Some g"
proof -
  have "map_all keyed_node_from (map (\<lambda>(k, n). (k, PDict (task_node_dict n))) (tg_nodes g)) = Some (tg_nodes g)"
    by (rule map_all_Some) (use assms task_node_round_trip in \<open>fastforce simp: keyed_node_from_def results_ok_def\<close>)
  moreover have "map_all task_event_from (map (\<lambda>e. PDict (task_event_dict e)) (tg_events g)) = Some (tg_events g)"
    by (rule map_all_Some) (rule task_event_round_trip)
  ultimately show ?thesis
    by (simp add: task_graph_from_def task_graph_dict_def req_arg_def opt_arg_def task_budget_round_trip)
qed

lemma store_round_trip:
  assumes "\<And>v. jc_loads J (jc_dumps J v) = Some v" "results_ok g" "store_save J g files = Inr files'"
  shows "store_load J (tg_id g) files' = Inr (recover_graph g)"
  using assms(3) task_graph_round_trip [OF assms(2)]
  by (auto simp: store_save_def store_load_def assms(1) supported_version_def eq_num_def req_arg_def
      split: sum.splits)

section \<open>Recovery\<close>

lemma node_at_recover: "node_at (recover_graph g) k = map_option recover_node (node_at g k)"
proof -
  have "map_of (map (\<lambda>(k, n). (k, recover_node n)) xs) k = map_option recover_node (map_of xs k)" for xs
    by (induction xs) auto
  then show ?thesis by (simp add: node_at_def dget_def recover_graph_def)
qed

lemma recover_fields [simp]:
  "tg_id (recover_graph g) = tg_id g" "tg_root_id (recover_graph g) = tg_root_id g"
  "tg_budget (recover_graph g) = tg_budget g" "tg_leaf_executions (recover_graph g) = tg_leaf_executions g"
  "tg_events (recover_graph g) = tg_events g" "tg_stop_reason (recover_graph g) = tg_stop_reason g"
  "length (tg_nodes (recover_graph g)) = length (tg_nodes g)"
  "dkeys (tg_nodes (recover_graph g)) = dkeys (tg_nodes g)"
  by (simp_all add: recover_graph_def dkeys_def case_prod_unfold)

lemma recover_node_fields [simp]:
  "nd_id (recover_node n) = nd_id n" "nd_dependencies (recover_node n) = nd_dependencies n"
  "nd_children (recover_node n) = nd_children n" "nd_depth (recover_node n) = nd_depth n"
  "nd_retries (recover_node n) = nd_retries n" "nd_result (recover_node n) = nd_result n"
  by (simp_all add: recover_node_def)

lemma recover_completed [simp]: "all_completed (recover_graph g) ks = all_completed g ks"
proof -
  have "status_at (recover_graph g) k = Some TS_COMPLETED \<longleftrightarrow> status_at g k = Some TS_COMPLETED" for k
    by (cases "node_at g k") (simp_all add: status_at_def node_at_recover recover_node_def)
  then show ?thesis by (simp add: all_completed_def)
qed

lemma recover_wf: "graph_wf g \<Longrightarrow> graph_wf (recover_graph g)"
proof -
  assume wf: "graph_wf g"
  have "refs_ok (recover_graph g) (recover_node n) = refs_ok g n" for n
    by (simp add: refs_ok_def)
  moreover have "wf_dict (tg_nodes (recover_graph g)) = wf_dict (tg_nodes g)"
    by (simp add: wf_dict_def recover_graph_def case_prod_unfold comp_def)
  ultimately show ?thesis using wf by (auto simp: graph_wf_def node_at_recover)
qed

lemma recover_placed: "placed g n \<Longrightarrow> placed (recover_graph g) (recover_node n)"
proof (cases "nd_id n = tg_root_id g")
  case False
  assume "placed g n"
  with False obtain p s pn where p: "nd_id n = child_id p s" "dot_free s" "node_at g p = Some pn"
    "nd_id n \<in> set (nd_children pn)" by (auto simp: placed_def)
  show ?thesis
    by (rule placedI [of _ p s _ "recover_node pn"]) (use p in \<open>simp_all add: node_at_recover\<close>)
qed (simp add: placed_def)

lemma recover_good:
  assumes "graph_good K g" shows "graph_good K (recover_graph g)"
proof -
  have "node_ok K (recover_graph g) (recover_node n)" if "node_at g k = Some n" for k n
  proof -
    have "node_ok K g n" using assms that by (auto simp: graph_good_def)
    then show ?thesis using recover_placed [of g n]
      by (auto simp: node_ok_def dependencies_met_def recover_node_def)
  qed
  with assms recover_wf show ?thesis by (auto simp: graph_good_def node_at_recover)
qed

lemma recover_no_running: "status_at (recover_graph g) k \<noteq> Some TS_RUNNING"
  by (cases "node_at g k") (simp_all add: status_at_def node_at_recover recover_node_def)

end
