(* ===== verification/Task_Adapters.thy ===== *)
theory Task_Adapters
  imports Task_Scheduler Loop_Adapters
begin

text \<open>
  The deterministic adapters of the task runtime (\<open>loop_engine/tasks/adapters.py\<close>): the scripted
  decomposer, the in-memory capability resolver, the default integration verifier and the leaf
  executor that runs one atomic task through a loop engine; and the task demo
  (\<open>loop_engine/tasks/demo.py\<close>). A callback adapter is the function it is given.
\<close>

section \<open>Decomposer and resolver\<close>

definition scripted_assess ::
  "(string \<times> child_task_spec list) list \<Rightarrow> task_node \<Rightarrow> task_graph \<Rightarrow> 'w \<Rightarrow> (py_exc + atomicity_decision) \<times> 'w"
where
  "scripted_assess decompositions n g w =
     (case (case dget decompositions (nd_id n) of Some cs \<Rightarrow> Some cs
            | None \<Rightarrow> dget decompositions (nd_goal n)) of
        None \<Rightarrow> (Inr \<lparr>ad_is_atomic = True, ad_reason = ''no further scripted decomposition'',
                  ad_children = [], ad_leaf = None\<rparr>, w)
      | Some cs \<Rightarrow> (Inr \<lparr>ad_is_atomic = False, ad_reason = ''scripted decomposition is available'',
                  ad_children = cs, ad_leaf = None\<rparr>, w))"

definition memory_resolve ::
  "string list \<Rightarrow> task_node \<Rightarrow> task_graph \<Rightarrow> 'w \<Rightarrow> (py_exc + capability_resolution) \<times> 'w" where
  "memory_resolve available n g w =
     (let required = remdups (nd_required_capabilities n) in
      (Inr \<lparr>cr_available = sort (filter (\<lambda>c. c \<in> set available) required),
            cr_missing = sort (filter (\<lambda>c. c \<notin> set available) required)\<rparr>, w))"

definition memory_register :: "string \<Rightarrow> string list \<Rightarrow> py_exc + string list" where
  "memory_register capability available =
     (let normalized = strip capability in
      if normalized = [] then Inl (ValueError ''capability name is required'')
      else Inr (if normalized \<in> set available then available else available @ [normalized]))"

section \<open>Verifier\<close>

text \<open>The default of \<open>FunctionIntegrationVerifier\<close>; a missing child is the code's \<open>KeyError\<close>.\<close>

fun children_evidence :: "task_graph \<Rightarrow> string list \<Rightarrow> pydict option" where
  "children_evidence g [] = Some []"
| "children_evidence g (k # ks) = (case node_at g k of
      None \<Rightarrow> None
    | Some c \<Rightarrow> map_option (Cons (k, PDict (case nd_result c of None \<Rightarrow> [] | Some r \<Rightarrow> lr_evidence r)))
                 (children_evidence g ks))"

definition completed_result :: "string \<Rightarrow> pydict \<Rightarrow> leaf_result" where
  "completed_result summary evidence = \<lparr>lr_status = ''completed'', lr_summary = summary,
     lr_evidence = evidence, lr_error = None, lr_retryable = False, lr_retry_code = None,
     lr_idempotency_key = None\<rparr>"

definition default_verify ::
  "task_node \<Rightarrow> task_graph \<Rightarrow> 'w \<Rightarrow> (py_exc + leaf_result) \<times> 'w" where
  "default_verify n g w = (case children_evidence g (nd_children n) of
      None \<Rightarrow> (Inl (PyExc ''KeyError'' ''child''), w)
    | Some evidence \<Rightarrow> (Inr (completed_result ''all child tasks completed''
        [(''children'', PDict evidence)]), w))"

section \<open>Leaves run by a loop engine\<close>

definition leaf_run_id :: "string \<Rightarrow> string \<Rightarrow> string" where
  "leaf_run_id graph_id node_id =
     map (\<lambda>c. if c = CHR ''.'' then CHR ''-'' else c) (graph_id @ ''-'' @ node_id)"

definition loop_evidence :: "loop_state \<Rightarrow> pydict" where
  "loop_evidence s =
     [(''loop_run_id'', PStr (ls_run_id s)), (''loop_status'', PStr (loop_status_str (ls_status s))),
      (''iterations'', PInt (ls_iteration s)), (''actions'', PInt (ls_action_count s)),
      (''verification'', PDict (case ls_latest_verification s of None \<Rightarrow> [] | Some v \<Rightarrow> vr_evidence v)),
      (''stop_reason'', popt_str (ls_stop_reason s))]"

definition loop_leaf_result :: "loop_state \<Rightarrow> leaf_result" where
  "loop_leaf_result s =
     (if ls_status s = LS_COMPLETED
      then completed_result (str_or (ls_stop_reason s) ''leaf loop completed'') (loop_evidence s)
      else if ls_status s = LS_STOPPED
      then (plain_result ''blocked'' (str_or (ls_stop_reason s) ''leaf loop stopped'') (ls_stop_reason s))
             \<lparr>lr_evidence := loop_evidence s\<rparr>
      else (plain_result ''failed'' (str_or (ls_stop_reason s) ''leaf loop failed'') (ls_stop_reason s))
             \<lparr>lr_evidence := loop_evidence s\<rparr>)"

text \<open>The factory builds the engine for a leaf; it may raise, and look at the outside world. A run
  that would not return has no counterpart here; the engine always returns (\<open>Loop_Engine\<close>), so that
  branch is never taken.\<close>

type_synonym 'w leaf_factory = "task_node \<Rightarrow> task_graph \<Rightarrow> 'w \<Rightarrow> py_exc + 'w loop_engine \<times> loop_definition"

definition loop_leaf_execute :: "'w leaf_factory \<Rightarrow> 'w leaf_executor" where
  "loop_leaf_execute factory n g w = (case factory n g w of
      Inl e \<Rightarrow> (Inl e, w)
    | Inr (engine, d) \<Rightarrow> (case run_engine engine d (leaf_run_id (tg_id g) (nd_id n)) w of
          Inl e \<Rightarrow> (Inl e, w)
        | Inr None \<Rightarrow> (Inl (RuntimeError ''leaf loop did not return''), w)
        | Inr (Some (s, w')) \<Rightarrow> (Inr (loop_leaf_result s), w')))"

section \<open>The task demo\<close>

definition demo_child :: "string \<Rightarrow> string \<Rightarrow> string list \<Rightarrow> int \<Rightarrow> child_task_spec" where
  "demo_child key goal deps target = \<lparr>cs_key = key, cs_goal = goal, cs_success_criteria = [],
     cs_required_capabilities = [''counter''], cs_depends_on = deps,
     cs_metadata = [(''target'', PInt target)]\<rparr>"

definition demo_decompositions :: "(string \<times> child_task_spec list) list" where
  "demo_decompositions = [(''root'',
     [demo_child ''inspect'' ''Complete atomic inspection leaf'' [] 1,
      demo_child ''execute'' ''Complete atomic execution leaf'' [''inspect''] 2])]"

definition demo_graph :: "py_exc + task_graph" where
  "demo_graph = create_graph ''Complete a dependency-ordered atomic task graph'' [] []
     (Some \<lparr>tb_max_nodes = 8, tb_max_depth = 2, tb_max_leaf_executions = 4\<rparr>) ''task-demo''"

text \<open>\<open>definition.goal = node.goal\<close> and \<open>definition.metadata["target"] = node.metadata["target"]\<close>.\<close>

definition demo_definition :: "task_node \<Rightarrow> loop_definition" where
  "demo_definition n = (let d = counter_definition 3 in
     d\<lparr>ld_goal := nd_goal n,
       ld_metadata := dset ''target'' (dget_or PNone (nd_metadata n) ''target'') (ld_metadata d)\<rparr>)"

definition demo_scheduler ::
  "'w loop_engine \<Rightarrow> (task_graph \<Rightarrow> 'w \<Rightarrow> 'w) option \<Rightarrow> ('w \<Rightarrow> (py_exc + pyval) \<times> 'w) \<Rightarrow> ('w \<Rightarrow> string \<times> 'w)
   \<Rightarrow> (task_graph \<Rightarrow> 'w \<Rightarrow> py_exc option \<times> 'w) \<Rightarrow> (8 word list \<Rightarrow> 8 word list) \<Rightarrow> 'w scheduler" where
  "demo_scheduler engine store clock utc snapshot sha256 =
     \<lparr>sc_decomposer = scripted_assess demo_decompositions, sc_resolver = memory_resolve [''counter''],
      sc_acquirer = None, sc_executor = loop_leaf_execute (\<lambda>n g w. Inr (engine, demo_definition n)),
      sc_snapshot = snapshot, sc_verifier = default_verify, sc_store = store,
      sc_policy = default_policy, sc_leases = None, sc_retry_policy = None, sc_waiter = None,
      sc_clock = clock, sc_utc_now = utc, sc_sha256 = sha256\<rparr>"

section \<open>Facts\<close>

lemma scripted_dot_free:
  assumes "\<forall>kcs\<in>set decs. \<forall>c\<in>set (snd kcs). CHR ''.'' \<notin> set (cs_key c)"
    and "scripted_assess decs n g w = (Inr d, w')"
  shows "\<forall>c\<in>set (ad_children d). CHR ''.'' \<notin> set (cs_key c)"
  using assms by (fastforce simp: scripted_assess_def dget_def split: option.splits dest: map_of_SomeD)

lemma memory_resolve_missing:
  "memory_resolve av n g w = (Inr r, w') \<Longrightarrow> set (cr_missing r) = set (nd_required_capabilities n) - set av"
  by (auto simp: memory_resolve_def Let_def)

text \<open>Whatever a loop engine does, its leaf result meets the result contract.\<close>

lemma loop_leaf_result_ok: "leaf_result_ok (loop_leaf_result s)"
  by (simp add: loop_leaf_result_def leaf_result_ok_def completed_result_def plain_result_def)

lemma loop_leaf_completed: "lr_status (loop_leaf_result s) = ''completed'' \<longleftrightarrow> ls_status s = LS_COMPLETED"
  by (simp add: loop_leaf_result_def completed_result_def plain_result_def)

end
