(* ===== verification/Retry_Telemetry.thy ===== *)
theory Retry_Telemetry
  imports Task_Models "HOL-Library.Multiset"
begin

text \<open>
  Aggregate counts over the retry events of a graph (\<open>loop_engine/tasks/retry_telemetry.py\<close>). The
  aggregation reads event payloads of any shape, as a checkpoint written by another process may
  hold. Rounding to nine digits is exact on the rational value, halves to even.
\<close>

record retry_telemetry =
  rt_scheduled :: nat
  rt_rejected :: nat
  rt_waits_started :: nat
  rt_waits_completed :: nat
  rt_waits_cancelled :: nat
  rt_total_delay :: rat
  rt_total_jitter :: rat
  rt_codes :: "(string \<times> nat) list"
  rt_reasons :: "(string \<times> nat) list"

definition increment_count :: "pyval option \<Rightarrow> (string \<times> nat) list \<Rightarrow> (string \<times> nat) list" where
  "increment_count v d = (case v of
      Some (PStr (c # cs)) \<Rightarrow> dset (c # cs) (dget_or 0 d (c # cs) + 1) d
    | _ \<Rightarrow> d)"

definition finite_non_negative :: "pyval option \<Rightarrow> rat" where
  "finite_non_negative v = (case Option.bind v finite_num of
      Some r \<Rightarrow> if r \<ge> 0 then r else 0 | None \<Rightarrow> 0)"

definition count_event :: "task_event \<Rightarrow> retry_telemetry \<Rightarrow> retry_telemetry" where
  "count_event e t =
     (let p = te_payload e; ty = te_event_type e in
      if ty = ''leaf_retry_scheduled'' then
        t\<lparr>rt_scheduled := rt_scheduled t + 1,
          rt_total_delay := rt_total_delay t + finite_non_negative (dget p ''delay_seconds''),
          rt_total_jitter := rt_total_jitter t + finite_non_negative (dget p ''jitter_seconds''),
          rt_codes := increment_count (dget p ''retry_code'') (rt_codes t)\<rparr>
      else if ty = ''leaf_retry_rejected'' then
        t\<lparr>rt_rejected := rt_rejected t + 1,
          rt_codes := increment_count (dget p ''retry_code'') (rt_codes t),
          rt_reasons := increment_count (dget p ''reason'') (rt_reasons t)\<rparr>
      else if ty = ''leaf_retry_wait_started'' then t\<lparr>rt_waits_started := rt_waits_started t + 1\<rparr>
      else if ty = ''leaf_retry_wait_completed'' then
        t\<lparr>rt_waits_completed := rt_waits_completed t + 1,
          rt_waits_cancelled := rt_waits_cancelled t + (if dget p ''completed'' = Some (PBool False) then 1 else 0)\<rparr>
      else t)"

definition no_telemetry :: retry_telemetry where
  "no_telemetry = \<lparr>rt_scheduled = 0, rt_rejected = 0, rt_waits_started = 0, rt_waits_completed = 0,
     rt_waits_cancelled = 0, rt_total_delay = 0, rt_total_jitter = 0, rt_codes = [], rt_reasons = []\<rparr>"

definition round_half_even :: "rat \<Rightarrow> int" where
  "round_half_even r = (let f = \<lfloor>r\<rfloor>; d = r - of_int f in
     if d < 1 / 2 then f else if d > 1 / 2 then f + 1 else if even f then f else f + 1)"

definition round9 :: "rat \<Rightarrow> rat" where
  "round9 r = of_int (round_half_even (r * 1000000000)) / 1000000000"

definition aggregate_retry_telemetry :: "task_graph \<Rightarrow> retry_telemetry" where
  "aggregate_retry_telemetry g =
     (let t = fold count_event (tg_events g) no_telemetry in
      t\<lparr>rt_total_delay := round9 (rt_total_delay t), rt_total_jitter := round9 (rt_total_jitter t),
        rt_codes := sort_key fst (rt_codes t), rt_reasons := sort_key fst (rt_reasons t)\<rparr>)"

definition telemetry_dict :: "retry_telemetry \<Rightarrow> pydict" where
  "telemetry_dict t =
     [(''schema_version'', PInt 1), (''scheduled'', PInt (int (rt_scheduled t))),
      (''rejected'', PInt (int (rt_rejected t))), (''waits_started'', PInt (int (rt_waits_started t))),
      (''waits_completed'', PInt (int (rt_waits_completed t))),
      (''waits_cancelled'', PInt (int (rt_waits_cancelled t))),
      (''total_delay_seconds'', pnum (rt_total_delay t)),
      (''total_jitter_seconds'', pnum (rt_total_jitter t)),
      (''codes'', PDict (map (\<lambda>(k, n). (k, PInt (int n))) (rt_codes t))),
      (''rejection_reasons'', PDict (map (\<lambda>(k, n). (k, PInt (int n))) (rt_reasons t)))]"

section \<open>What the counts mean\<close>

definition events_of :: "string \<Rightarrow> task_event list \<Rightarrow> task_event list" where
  "events_of ty es = filter (\<lambda>e. te_event_type e = ty) es"

lemma events_of_snoc [simp]:
  "events_of ty (es @ [e]) = events_of ty es @ (if te_event_type e = ty then [e] else [])"
  by (simp add: events_of_def)

lemma events_of_Nil [simp]: "events_of ty [] = []"
  by (simp add: events_of_def)

text \<open>The text a payload holds under a key, where \<open>_increment\<close> counts it.\<close>

definition text_at :: "string \<Rightarrow> task_event \<Rightarrow> string option" where
  "text_at k e = (case dget (te_payload e) k of Some (PStr (c # cs)) \<Rightarrow> Some (c # cs) | _ \<Rightarrow> None)"

lemma increment_count_get:
  "dget_or 0 (increment_count (dget (te_payload e) k) d) x =
     dget_or 0 d x + (if text_at k e = Some x then 1 else 0)"
  by (auto simp: increment_count_def text_at_def dget_or_def dget_def dset_def update_conv'
      split: option.splits pyval.splits list.splits)

lemma increment_count_wf: "wf_dict d \<Longrightarrow> wf_dict (increment_count v d)"
  by (auto simp: increment_count_def split: option.splits pyval.splits list.splits)

definition count_text :: "string \<Rightarrow> string \<Rightarrow> task_event list \<Rightarrow> nat" where
  "count_text k x es = length (filter (\<lambda>e. text_at k e = Some x) es)"

lemma count_event_fold:
  fixes es :: "task_event list"
  defines "t \<equiv> fold count_event es no_telemetry"
  shows "rt_scheduled t = length (events_of ''leaf_retry_scheduled'' es) \<and>
    rt_rejected t = length (events_of ''leaf_retry_rejected'' es) \<and>
    rt_waits_started t = length (events_of ''leaf_retry_wait_started'' es) \<and>
    rt_waits_completed t = length (events_of ''leaf_retry_wait_completed'' es) \<and>
    rt_waits_cancelled t = length (filter (\<lambda>e. dget (te_payload e) ''completed'' = Some (PBool False))
      (events_of ''leaf_retry_wait_completed'' es)) \<and>
    rt_total_delay t = sum_list (map (\<lambda>e. finite_non_negative (dget (te_payload e) ''delay_seconds''))
      (events_of ''leaf_retry_scheduled'' es)) \<and>
    rt_total_jitter t = sum_list (map (\<lambda>e. finite_non_negative (dget (te_payload e) ''jitter_seconds''))
      (events_of ''leaf_retry_scheduled'' es))"
  unfolding t_def
proof (induction es rule: rev_induct)
  case Nil
  show ?case by (simp add: no_telemetry_def)
next
  case (snoc e es)
  consider "te_event_type e = ''leaf_retry_scheduled''" | "te_event_type e = ''leaf_retry_rejected''"
    | "te_event_type e = ''leaf_retry_wait_started''" | "te_event_type e = ''leaf_retry_wait_completed''"
    | "te_event_type e \<notin> {''leaf_retry_scheduled'', ''leaf_retry_rejected'', ''leaf_retry_wait_started'',
        ''leaf_retry_wait_completed''}" by auto
  then show ?case
    by cases (use snoc in \<open>simp_all add: count_event_def Let_def\<close>)
qed

lemma count_codes:
  fixes es :: "task_event list"
  defines "t \<equiv> fold count_event es no_telemetry"
  shows "wf_dict (rt_codes t) \<and> wf_dict (rt_reasons t) \<and>
    dget_or 0 (rt_reasons t) x = count_text ''reason'' x (events_of ''leaf_retry_rejected'' es) \<and>
    dget_or 0 (rt_codes t) x = count_text ''retry_code'' x (events_of ''leaf_retry_scheduled'' es) +
      count_text ''retry_code'' x (events_of ''leaf_retry_rejected'' es)"
  unfolding t_def
proof (induction es rule: rev_induct)
  case Nil
  show ?case by (simp add: no_telemetry_def dget_or_def count_text_def)
next
  case (snoc e es)
  consider "te_event_type e = ''leaf_retry_scheduled''" | "te_event_type e = ''leaf_retry_rejected''"
    | "te_event_type e \<notin> {''leaf_retry_scheduled'', ''leaf_retry_rejected''}" by auto
  then show ?case
    by cases (use snoc in \<open>simp_all add: count_event_def Let_def increment_count_get increment_count_wf count_text_def\<close>)
qed

lemma sort_key_get: "wf_dict d \<Longrightarrow> dget_or 0 (sort_key fst d) x = dget_or 0 d x"
proof -
  assume wf: "wf_dict d"
  have m: "mset (map fst (sort_key fst d)) = mset (map fst d)" by (simp only: mset_map mset_sort)
  have "distinct (map fst (sort_key fst d))"
    using wf mset_eq_imp_distinct_iff [OF m] by (simp add: wf_dict_def)
  with wf have "map_of (sort_key fst d) = map_of d"
    by (intro map_of_inject_set [THEN iffD2]) (auto simp: wf_dict_def)
  then show ?thesis by (simp add: dget_or_def)
qed

end
