(* ===== verification/Task_Properties.thy ===== *)
theory Task_Properties
  imports Task_Refinement Task_Persistence Task_Adapters Retry_Telemetry
begin

text \<open>
  The properties of the task runtime: the scheduler returns within its budgets whatever its ports
  do, in an order that respects dependencies; what a completed graph means; recovery from
  checkpoints; decomposition, batches, leases, retries and telemetry.
\<close>

section \<open>Runs of the scheduler\<close>

lemma validated_wf:
  assumes "validate_task_graph g = None" "wf_dict (tg_nodes g)" "\<forall>kn\<in>set (tg_nodes g). nd_id (snd kn) = fst kn"
  shows "graph_wf g"
proof -
  have root: "tg_root_id g \<in> set (dkeys (tg_nodes g))" and size: "int (length (tg_nodes g)) \<le> tb_max_nodes (tg_budget g)"
    and refs: "first_missing g (map snd (tg_nodes g)) = None"
    using assms(1) by (auto simp: validate_task_graph_def split: if_splits)
  have "first_missing g ns = None \<Longrightarrow> n \<in> set ns \<Longrightarrow> refs_ok g n" for ns n
    by (induction ns) (auto simp: missing_references_def refs_ok_def filter_empty_conv split: if_splits)
  with refs have "refs_ok g n" if "n \<in> set (map snd (tg_nodes g))" for n using that by blast
  moreover have "(k, n) \<in> set (tg_nodes g)" if "node_at g k = Some n" for k n
    using that dget_in [OF assms(2)] by (simp add: node_at_def)
  ultimately show ?thesis
    using assms(2,3) size dkey_dget [OF root] unfolding graph_wf_def by (fastforce simp: node_at_def)
qed

lemma create_valid:
  assumes "create_graph goal cr cap (Some b) gid = Inr g" "0 < tb_max_nodes b" "0 \<le> tb_max_depth b"
    "0 < tb_max_leaf_executions b"
  shows "validate_task_graph g = None \<and> wf_dict (tg_nodes g) \<and> (\<forall>kn\<in>set (tg_nodes g). nd_id (snd kn) = fst kn) \<and>
    tg_budget g = b \<and> graph_good K g"
proof -
  have g: "g = \<lparr>tg_id = gid, tg_root_id = ''root'', tg_nodes = [(''root'', (new_node ''root'' (strip goal))
      \<lparr>nd_success_criteria := cr, nd_required_capabilities := cap\<rparr>)], tg_budget = b,
      tg_leaf_executions = 0, tg_events = [], tg_stop_reason = None\<rparr>"
    using assms(1) by (auto simp: create_graph_def Let_def split: if_splits)
  have v: "validate_task_graph g = None \<and> wf_dict (tg_nodes g) \<and> (\<forall>kn\<in>set (tg_nodes g). nd_id (snd kn) = fst kn) \<and>
      tg_budget g = b"
    using assms(2-4) by (simp add: g validate_task_graph_def dkeys_def missing_references_def new_node_def wf_dict_def)
  then have wf: "graph_wf g" using validated_wf by blast
  have "node_ok K g n" if "node_at g k = Some n" for k n
    using that assms(3) by (auto simp: g node_at_def node_ok_def new_node_def placed_def split: if_splits)
  with wf have "graph_good K g" using assms(4) by (auto simp: graph_good_def g dot_free_def)
  with v show ?thesis by blast
qed

lemma begin_graph_steps: "rsteps E D False r (begin_graph E r)"
  unfolding begin_graph_def by (intro rs_basic rs_refl)

lemma finish_graph_steps:
  assumes "rsteps E D b r r'" shows "rsteps E D b r (finish_graph E r')"
proof -
  have "rsteps E D (b \<or> False) r ((fst r')\<lparr>tg_stop_reason := final_reason (fst r')\<rparr>, snd r')"
    by (rule rs_step [OF assms g_reason])
  then show ?thesis unfolding finish_graph_def Let_def by (intro rs_basic) simp
qed

lemma finish_graph_node [simp]:
  "node_at (fst (finish_graph E r)) k = node_at (fst r) k" "tg_root_id (fst (finish_graph E r)) = tg_root_id (fst r)"
  by (simp_all add: finish_graph_def Let_def)

lemma finish_graph_root [simp]: "root_terminal (fst (finish_graph E r)) = root_terminal (fst r)"
  by (simp add: root_terminal_def root_node_def)

text \<open>The shape of every run: it returns, by legal steps, with a terminal root.\<close>

lemma run_scheduler_result:
  assumes "validate_task_graph (fst r) = None" "graph_wf (fst r)" "D \<longrightarrow> dot_free_keys E"
  shows "\<exists>r' b. run_scheduler E r = Inr (Some r') \<and> rsteps E D b r r' \<and> root_terminal (fst r')"
proof -
  have "graph_wf (fst (begin_graph E r))" by (rule rsteps_wf [OF begin_graph_steps [of E D] assms(2)])
  from sched_loop_result [OF this assms(3)] obtain r1 b where 1: "sched_loop E (begin_graph E r) = Some r1"
    "rsteps E D b (begin_graph E r) r1" "root_terminal (fst r1)" by blast
  have "rsteps E D (False \<or> b) r r1" by (rule rsteps_append [OF begin_graph_steps 1(2)])
  from finish_graph_steps [OF this] 1 assms(1) show ?thesis
    by (auto simp: run_scheduler_def)
qed

lemma run_created:
  assumes "create_graph goal cr cap (Some b) gid = Inr g" "0 < tb_max_nodes b" "0 \<le> tb_max_depth b"
    "0 < tb_max_leaf_executions b" "dot_free_keys E" "run_scheduler E (g, w) = Inr (Some (g', w'))"
  shows "graph_good (retry_bound E) g' \<and> root_terminal g' \<and> tg_budget g' = b \<and>
    tg_root_id g' = tg_root_id g"
proof -
  note c = create_valid [OF assms(1-4), of "retry_bound E"]
  then have wf: "graph_wf (fst (g, w))" using validated_wf by simp
  have "validate_task_graph (fst (g, w)) = None" using c by simp
  from run_scheduler_result [OF this wf, of True E] assms(5,6) obtain bb where
    s: "rsteps E True bb (g, w) (g', w')" "root_terminal g'" by auto
  have "graph_good (retry_bound E) (fst (g, w))" using c by simp
  from rsteps_good [OF s(1) this] rsteps_constants [OF s(1)] s(2) c show ?thesis by simp
qed

section \<open>Properties\<close>

text \<open>
  C4: the scheduler returns on every graph that passes validation (its keys being the ids of its
  nodes), whatever its decomposer, resolver, executor, verifier, lease manager, retry waiter and
  clocks answer or raise. The root is then completed, failed or blocked, and the node budget
  is kept.
\<close>

theorem scheduler_returns:
  assumes "validate_task_graph g = None" "wf_dict (tg_nodes g)"
    "\<forall>kn\<in>set (tg_nodes g). nd_id (snd kn) = fst kn"
  shows "\<exists>g' w'. run_scheduler E (g, w) = Inr (Some (g', w')) \<and>
    status_at g' (tg_root_id g') \<in> {Some TS_COMPLETED, Some TS_FAILED, Some TS_BLOCKED} \<and>
    int (length (tg_nodes g')) \<le> tb_max_nodes (tg_budget g) \<and>
    (\<exists>es. tg_events g' = tg_events g @ es)"
proof -
  have wf: "graph_wf (fst (g, w))" using validated_wf [OF assms] by simp
  from run_scheduler_result [of "(g, w)" False E] assms(1) wf obtain g' w' b where
    r: "run_scheduler E (g, w) = Inr (Some (g', w'))" "rsteps E False b (g, w) (g', w')" "root_terminal g'"
    by auto
  from rsteps_wf [OF r(2) wf] rsteps_constants [OF r(2)]
  have "int (length (tg_nodes g')) \<le> tb_max_nodes (tg_budget g)" by (simp add: graph_wf_def)
  moreover have "status_at g' (tg_root_id g') \<in> {Some TS_COMPLETED, Some TS_FAILED, Some TS_BLOCKED}"
    using r(3) by (auto simp: root_terminal_def root_node_def status_at_def terminal_status_def split: option.splits)
  ultimately show ?thesis using r(1) rsteps_events [OF r(2)] by auto
qed

text \<open>A scheduler for the witnesses: the demo's ports around a counting loop engine.\<close>

definition still_scheduler ::
  "(task_graph \<Rightarrow> 'w \<Rightarrow> 'w) option \<Rightarrow> (string \<times> child_task_spec list) list \<Rightarrow> 'w leaf_executor \<Rightarrow> 'w scheduler"
where
  "still_scheduler store decs exec = (demo_scheduler (counter_engine (\<lambda>w. ([], w)) (\<lambda>w. (0, w)) (\<lambda>w. (0, w)) (\<lambda>s. 0)
      (\<lambda>v. []) None) store (\<lambda>w. (Inr (PInt 0), w)) (\<lambda>w. ([], w)) (\<lambda>g w. (None, w)) (\<lambda>bs. []))
      \<lparr>sc_decomposer := scripted_assess decs, sc_executor := exec\<rparr>"

definition demo_task_graph :: task_graph where
  "demo_task_graph = \<lparr>tg_id = ''d'', tg_root_id = ''root'', tg_nodes = [(''root'', new_node ''root'' ''g'')],
     tg_budget = \<lparr>tb_max_nodes = 8, tb_max_depth = 2, tb_max_leaf_executions = 4\<rparr>,
     tg_leaf_executions = 0, tg_events = [], tg_stop_reason = None\<rparr>"

lemma demo_created:
  "create_graph ''g'' [] [] (Some \<lparr>tb_max_nodes = 8, tb_max_depth = 2, tb_max_leaf_executions = 4\<rparr>) ''d'' =
     Inr demo_task_graph"
proof -
  have "strip ''g'' = ''g''" by (rule strip_fixed) (simp add: py_space_def)
  then show ?thesis by (simp add: create_graph_def demo_task_graph_def Let_def new_node_def)
qed

definition two_steps :: "(string \<times> child_task_spec list) list" where
  "two_steps = [(''root'', [demo_child ''a'' ''x'' [] 1, demo_child ''b'' ''y'' [''a''] 2])]"

lemma still_dot_free: "decs = [] \<or> decs = two_steps \<Longrightarrow> dot_free_keys (still_scheduler store decs exec)"
  unfolding dot_free_keys_def dot_free_def
proof (intro allI impI)
  fix n g w d w'
  assume decs: "decs = [] \<or> decs = two_steps" and "sc_decomposer (still_scheduler store decs exec) n g w = (Inr d, w')"
  then have "scripted_assess decs n g w = (Inr d, w')" by (simp add: still_scheduler_def demo_scheduler_def)
  from scripted_dot_free [OF _ this] decs show "\<forall>s\<in>set (ad_children d). CHR ''.'' \<notin> set (cs_key s)"
    by (auto simp: two_steps_def demo_child_def)
qed

lemma demo_valid:
  "validate_task_graph demo_task_graph = None" "wf_dict (tg_nodes demo_task_graph)"
  "\<forall>kn\<in>set (tg_nodes demo_task_graph). nd_id (snd kn) = fst kn"
  using create_valid [OF demo_created] by simp_all

theorem scheduler_returns_witness:
  "\<exists>g' w'. run_scheduler (still_scheduler None two_steps (\<lambda>n g w. (Inl (RuntimeError ''x''), w))) (demo_task_graph, ()) =
     Inr (Some (g', w')) \<and>
     status_at g' (tg_root_id g') \<in> {Some TS_COMPLETED, Some TS_FAILED, Some TS_BLOCKED}"
  using scheduler_returns [OF demo_valid,
      where E = "still_scheduler None two_steps (\<lambda>n g w. (Inl (RuntimeError ''x''), w))" and w = "()"] by blast

text \<open>
  C13: a run of a new graph keeps every budget: no more leaf executions than allowed, no node
  deeper than the depth limit, no leaf retried more often than the retry policy admits.
\<close>

theorem scheduler_budgets:
  assumes "create_graph goal cr cap (Some b) gid = Inr g" "0 < tb_max_nodes b" "0 \<le> tb_max_depth b"
    "0 < tb_max_leaf_executions b" "dot_free_keys E" "run_scheduler E (g, w) = Inr (Some (g', w'))"
  shows "int (tg_leaf_executions g') \<le> tb_max_leaf_executions b \<and>
    int (length (tg_nodes g')) \<le> tb_max_nodes b \<and>
    (\<forall>k n. node_at g' k = Some n \<longrightarrow> int (nd_depth n) \<le> tb_max_depth b \<and>
       nd_retries n \<le> (case sc_retry_policy E of None \<Rightarrow> 0 | Some p \<Rightarrow> rp_max_attempts p - 1))"
  using run_created [OF assms]
  by (auto simp: graph_good_def graph_wf_def node_ok_def retry_bound_def)

lemma demo_run:
  "\<exists>g' w'. run_scheduler (still_scheduler store decs exec) (demo_task_graph, ()) = Inr (Some (g', w'))"
proof -
  have "validate_task_graph (fst (demo_task_graph, ())) = None" "graph_wf (fst (demo_task_graph, ()))"
    using demo_valid(1) validated_wf [OF demo_valid] by simp_all
  from run_scheduler_result [OF this, of False "still_scheduler store decs exec"] obtain r' where
    "run_scheduler (still_scheduler store decs exec) (demo_task_graph, ()) = Inr (Some r')" by blast
  then show ?thesis by (cases r') simp
qed

theorem scheduler_budgets_witness:
  "\<exists>g' w'. run_scheduler (still_scheduler None two_steps (\<lambda>n g w. (Inl (RuntimeError ''x''), w))) (demo_task_graph, ()) =
     Inr (Some (g', w')) \<and> int (tg_leaf_executions g') \<le> 4"
proof -
  let ?E = "still_scheduler None two_steps (\<lambda>n g w. (Inl (RuntimeError ''x''), w))"
  obtain g' w' where "run_scheduler ?E (demo_task_graph, ()) = Inr (Some (g', w'))" using demo_run by blast
  with scheduler_budgets [OF demo_created _ _ _ still_dot_free this] show ?thesis by auto
qed

text \<open>
  C11: when a run of a new graph completes its root, every task of the graph is completed, and so
  is everything each of them depends on.
\<close>

theorem completed_root_completes_all:
  assumes "create_graph goal cr cap (Some b) gid = Inr g" "0 < tb_max_nodes b" "0 \<le> tb_max_depth b"
    "0 < tb_max_leaf_executions b" "dot_free_keys E" "run_scheduler E (g, w) = Inr (Some (g', w'))"
    "status_at g' (tg_root_id g') = Some TS_COMPLETED" "node_at g' k = Some n"
  shows "nd_status n = TS_COMPLETED \<and> (\<forall>d\<in>set (nd_dependencies n). status_at g' d = Some TS_COMPLETED)"
proof -
  from run_created [OF assms(1-6)] have good: "graph_good (retry_bound E) g'" by blast
  from root_completed_all [OF good assms(7,8)] have st: "nd_status n = TS_COMPLETED" .
  with good assms(8) have "dependencies_met g' n" by (auto simp: graph_good_def node_ok_def)
  with st show ?thesis by (simp add: dependencies_met_def all_completed_def list_all_iff)
qed

definition ok_executor :: "'w leaf_executor" where
  "ok_executor n g w = (Inr (completed_result ''k'' []), w)"

lemma lone_run:
  "case run_scheduler (still_scheduler None [] ok_executor) (demo_task_graph, ()) of
     Inr (Some (g, w)) \<Rightarrow> status_at g (tg_root_id g) = Some TS_COMPLETED \<and> node_at g ''root'' \<noteq> None
   | _ \<Rightarrow> False"
  by code_simp

lemma lone_run_result:
  "\<exists>g w n. run_scheduler (still_scheduler None [] ok_executor) (demo_task_graph, ()) = Inr (Some (g, w)) \<and>
     status_at g (tg_root_id g) = Some TS_COMPLETED \<and> node_at g ''root'' = Some n"
  using lone_run by (auto split: sum.splits option.splits prod.splits)

theorem completed_root_completes_all_witness:
  "\<exists>g w n. run_scheduler (still_scheduler None [] ok_executor) (demo_task_graph, ()) = Inr (Some (g, w)) \<and>
     node_at g ''root'' = Some n \<and> nd_status n = TS_COMPLETED"
proof -
  obtain g w n where r: "run_scheduler (still_scheduler None [] ok_executor) (demo_task_graph, ()) = Inr (Some (g, w))"
    "status_at g (tg_root_id g) = Some TS_COMPLETED" "node_at g ''root'' = Some n"
    using lone_run_result by blast
  from completed_root_completes_all [OF demo_created _ _ _ still_dot_free r] r show ?thesis by auto
qed

text \<open>
  C10: in every run of a new graph, a task that was judged ready, was started, waits for children
  or completed has all of its dependencies completed; and a task that failed or was blocked
  says why.
\<close>

theorem dependencies_before_progress:
  assumes "create_graph goal cr cap (Some b) gid = Inr g" "0 < tb_max_nodes b" "0 \<le> tb_max_depth b"
    "0 < tb_max_leaf_executions b" "dot_free_keys E" "run_scheduler E (g, w) = Inr (Some (g', w'))"
    "node_at g' k = Some n"
  shows "(nd_status n \<in> {TS_READY, TS_RUNNING, TS_WAITING, TS_COMPLETED} \<longrightarrow>
       (\<forall>d\<in>set (nd_dependencies n). status_at g' d = Some TS_COMPLETED)) \<and>
    (nd_status n \<in> {TS_FAILED, TS_BLOCKED} \<longrightarrow> nd_error n \<noteq> None)"
proof -
  from run_created [OF assms(1-6)] assms(7) have "node_ok (retry_bound E) g' n"
    by (auto simp: graph_good_def)
  then show ?thesis by (auto simp: node_ok_def dependencies_met_def all_completed_def list_all_iff)
qed

theorem dependencies_before_progress_witness:
  "\<exists>g w n. run_scheduler (still_scheduler None [] ok_executor) (demo_task_graph, ()) = Inr (Some (g, w)) \<and>
     node_at g ''root'' = Some n \<and> (nd_status n \<in> {TS_FAILED, TS_BLOCKED} \<longrightarrow> nd_error n \<noteq> None)"
proof -
  obtain g w n where r: "run_scheduler (still_scheduler None [] ok_executor) (demo_task_graph, ()) = Inr (Some (g, w))"
    "node_at g ''root'' = Some n" using lone_run_result by blast
  from dependencies_before_progress [OF demo_created _ _ _ still_dot_free r] r show ?thesis by auto
qed

section \<open>Checkpoints\<close>

text \<open>A store that logs every save, and ports that leave the log alone.\<close>

definition logs_saves :: "'w scheduler \<Rightarrow> ('w \<Rightarrow> task_graph list) \<Rightarrow> bool" where
  "logs_saves E saved \<longleftrightarrow> (\<forall>w w'. world_step E w w' \<longrightarrow> saved w' = saved w) \<and>
     (\<forall>save g w. sc_store E = Some save \<longrightarrow> saved (save g w) = saved w @ [g])"

lemma good_valid:
  assumes "graph_good K g" "0 < tb_max_nodes (tg_budget g)" "0 \<le> tb_max_depth (tg_budget g)"
    "0 < tb_max_leaf_executions (tg_budget g)"
  shows "validate_task_graph g = None"
proof -
  have "first_missing g ns = None" if "\<forall>n\<in>set ns. refs_ok g n" for ns
    using that by (induction ns) (auto simp: missing_references_def refs_ok_def filter_empty_conv)
  moreover have "\<forall>n\<in>set (map snd (tg_nodes g)). refs_ok g n"
    using assms(1) wf_node [of g] by (auto simp: graph_good_def graph_wf_def)
  moreover have "tg_root_id g \<in> set (dkeys (tg_nodes g))" "int (length (tg_nodes g)) \<le> tb_max_nodes (tg_budget g)"
    using assms(1) node_at_key by (auto simp: graph_good_def graph_wf_def)
  ultimately show ?thesis using assms(2-4) by (simp add: validate_task_graph_def)
qed

text \<open>
  C12: every graph that a run of a new graph saves can be loaded and resumed. Written to the store's directory with
  a codec that reads what it writes, it is loaded by its id as its recovery, in which no task is running, provided its
  results are ones that the class of results accepts (its constructor checks every result object). A scheduler whose
  retry policy allows at least as many retries as that of the first run, and whose decomposer, like the first one,
  gives child keys without dots, accepts the recovered graph and returns, with every task that was already
  finished in the saved graph unchanged.
\<close>

theorem saved_graphs_resume:
  assumes "create_graph goal cr cap (Some b) gid = Inr g" "0 < tb_max_nodes b" "0 \<le> tb_max_depth b"
    "0 < tb_max_leaf_executions b" "dot_free_keys E" "run_scheduler E (g, w) = Inr (Some (g', w'))"
    "logs_saves E saved" "saved w = []" "dot_free_keys E2" "retry_bound E \<le> retry_bound E2" "c \<in> set (saved w')"
  shows "(\<forall>J files files'. (\<forall>v. jc_loads J (jc_dumps J v) = Some v) \<longrightarrow> results_ok c \<longrightarrow>
      store_save J c files = Inr files' \<longrightarrow> store_load J (tg_id c) files' = Inr (recover_graph c)) \<and>
    (\<forall>k. status_at (recover_graph c) k \<noteq> Some TS_RUNNING) \<and>
    (\<exists>c' v'. run_scheduler E2 (recover_graph c, v) = Inr (Some (c', v')) \<and>
       (\<forall>k n. node_at c k = Some n \<longrightarrow> terminal_status (nd_status n) \<longrightarrow> node_at c' k = Some n))"
proof -
  let ?K = "retry_bound E"
  let ?P = "\<lambda>w. \<forall>c\<in>set (saved w). graph_good ?K c \<and> tg_budget c = b"
  note c = create_valid [OF assms(1-4), of ?K]
  then have wf: "graph_wf (fst (g, w))" and val: "validate_task_graph (fst (g, w)) = None"
    using validated_wf by simp_all
  from run_scheduler_result [OF val wf, of True E] assms(5,6) obtain bb where
    s: "rsteps E True bb (g, w) (g', w')" by auto
  have "?P (snd (g', w'))"
    by (rule rsteps_world [where P = ?P and rid = "tg_root_id g" and bud = b, OF _ _ s])
      (use assms(7,8) c in \<open>auto simp: logs_saves_def\<close>)
  with assms(11) have good: "graph_good ?K c" "tg_budget c = b" by auto
  then have "graph_good (retry_bound E2) c"
    using assms(10) by (fastforce simp: graph_good_def node_ok_def)
  from recover_good [OF this] have good2: "graph_good (retry_bound E2) (fst (recover_graph c, v))" by simp
  have val2: "validate_task_graph (fst (recover_graph c, v)) = None"
    using good_valid [of _ "recover_graph c"] good2 good(2) assms(2-4) by simp
  have wf2: "graph_wf (fst (recover_graph c, v))" using good2 by (simp add: graph_good_def)
  from run_scheduler_result [OF val2 wf2, of True E2] assms(9) obtain c' v' b2 where
    r: "run_scheduler E2 (recover_graph c, v) = Inr (Some (c', v'))" "rsteps E2 True b2 (recover_graph c, v) (c', v')"
    by auto
  have "node_at c' k = Some n" if n: "node_at c k = Some n" "terminal_status (nd_status n)" for k n
  proof -
    have "node_at (fst (recover_graph c, v)) k = Some n"
      using n by (auto simp: node_at_recover recover_node_def)
    from rsteps_terminal [OF r(2) good2 this] n(2) show ?thesis by (simp add: live_def)
  qed
  moreover have "store_load J (tg_id c) files' = Inr (recover_graph c)"
    if "\<forall>v. jc_loads J (jc_dumps J v) = Some v" "results_ok c" "store_save J c files = Inr files'" for J files files'
    using store_round_trip [OF _ that(2,3)] that(1) by blast
  ultimately show ?thesis using r(1) recover_no_running by blast
qed

definition logging_scheduler :: "task_graph list scheduler" where
  "logging_scheduler = still_scheduler (Some (\<lambda>g w. w @ [g])) [] ok_executor"

lemma logging_world: "world_step logging_scheduler w w' \<Longrightarrow> w' = w"
  by (erule world_step.cases)
    (auto simp: logging_scheduler_def still_scheduler_def demo_scheduler_def scripted_assess_def
      memory_resolve_def ok_executor_def default_verify_def Let_def split: option.splits)

lemma logging_logs: "logs_saves logging_scheduler (\<lambda>w. w)"
  using logging_world
  by (auto simp: logs_saves_def) (auto simp: logging_scheduler_def still_scheduler_def demo_scheduler_def)

text \<open>A codec: the code number of a value, written in unary.\<close>

definition unary_codec :: json_codec where
  "unary_codec = \<lparr>jc_dumps = (\<lambda>v. replicate (to_nat v) CHR ''x''), jc_loads = (\<lambda>s. Some (from_nat (length s)))\<rparr>"

text \<open>A run of the logging scheduler: what it saves has valid results, and a leaf is running in some of it.\<close>

lemma logging_run:
  "case run_scheduler logging_scheduler (demo_task_graph, []) of
      Inr (Some (g, w)) \<Rightarrow> w \<noteq> [] \<and> list_all (\<lambda>c. tg_id c = ''d'' \<and>
          list_all (\<lambda>(k, n). case nd_result n of None \<Rightarrow> True | Some r \<Rightarrow> \<not> lr_retryable r \<and>
            lr_retry_code r = None \<and> lr_idempotency_key r = None) (tg_nodes c)) w \<and>
        list_ex (\<lambda>c. list_ex (\<lambda>(k, n). nd_status n = TS_RUNNING) (tg_nodes c)) w
    | _ \<Rightarrow> False"
  by code_simp

theorem saved_graphs_resume_witness:
  "\<exists>g' w'. run_scheduler logging_scheduler (demo_task_graph, []) = Inr (Some (g', w')) \<and>
     (\<exists>c\<in>set w'. list_ex (\<lambda>(k, n). nd_status n = TS_RUNNING) (tg_nodes c)) \<and>
     (\<forall>c\<in>set w'. \<exists>files r. store_save unary_codec c [] = Inr files \<and> store_load unary_codec ''d'' files = Inr (recover_graph c) \<and>
        run_scheduler (still_scheduler None two_steps ok_executor) (recover_graph c, ()) = Inr (Some r))"
proof -
  obtain g' w' where r: "run_scheduler logging_scheduler (demo_task_graph, []) = Inr (Some (g', w'))"
    and all: "list_all (\<lambda>c. tg_id c = ''d'' \<and>
          list_all (\<lambda>(k, n). case nd_result n of None \<Rightarrow> True | Some r \<Rightarrow> \<not> lr_retryable r \<and>
            lr_retry_code r = None \<and> lr_idempotency_key r = None) (tg_nodes c)) w'"
    and ex: "list_ex (\<lambda>c. list_ex (\<lambda>(k, n). nd_status n = TS_RUNNING) (tg_nodes c)) w'"
    using logging_run by (simp split: sum.splits option.splits prod.splits)
  have good: "tg_id c = ''d'' \<and> results_ok c" if "c \<in> set w'" for c
    using all that by (fastforce simp: list_all_iff results_ok_def leaf_result_ok_def)
  have mid: "\<exists>c\<in>set w'. list_ex (\<lambda>(k, n). nd_status n = TS_RUNNING) (tg_nodes c)"
    using ex unfolding list_ex_iff .
  have dots: "dot_free_keys logging_scheduler" "dot_free_keys (still_scheduler None two_steps ok_executor)"
    unfolding logging_scheduler_def by (simp_all add: still_dot_free)
  have bound: "retry_bound logging_scheduler \<le> retry_bound (still_scheduler None two_steps ok_executor)"
    by (simp add: retry_bound_def logging_scheduler_def still_scheduler_def demo_scheduler_def)
  have "\<exists>files r. store_save unary_codec c [] = Inr files \<and> store_load unary_codec ''d'' files = Inr (recover_graph c) \<and>
      run_scheduler (still_scheduler None two_steps ok_executor) (recover_graph c, ()) = Inr (Some r)"
    if c: "c \<in> set w'" for c
  proof -
    have "store_target (tg_id c) = Inr (''d'' @ ''.json'')" using good [OF c] by (simp add: store_target_def graph_id_char_def)
    then obtain files where save: "store_save unary_codec c [] = Inr files" by (simp add: store_save_def)
    have codec: "\<forall>v. jc_loads unary_codec (jc_dumps unary_codec v) = Some v" by (simp add: unary_codec_def)
    from saved_graphs_resume [OF demo_created _ _ _ dots(1) r logging_logs _ dots(2) bound c, of "()"] codec save good [OF c]
    show ?thesis by (auto simp del: split_paired_Ex)
  qed
  with r mid show ?thesis by blast
qed

section \<open>Decomposition\<close>

text \<open>
  C28: the depth-first check accepts the dependencies among new children exactly when they are
  acyclic, provided the keys are distinct and every dependency names one of them.
\<close>

theorem cycle_check_exact:
  assumes "distinct (map cs_key specs)" "\<forall>s\<in>set specs. set (cs_depends_on s) \<subseteq> cs_key ` set specs"
  shows "validate_dependency_graph specs = None \<longleftrightarrow>
    acyclic {(cs_key s, d) | s d. s \<in> set specs \<and> d \<in> set (cs_depends_on s)}"
  by (rule dependency_graph_acyclic [OF assms])

theorem cycle_check_exact_witness:
  "acyclic {(cs_key s, d) | s d. s \<in> set (snd (hd two_steps)) \<and> d \<in> set (cs_depends_on s)}"
proof -
  have "validate_dependency_graph (snd (hd two_steps)) = None" by code_simp
  moreover have "distinct (map cs_key (snd (hd two_steps)))"
    "\<forall>s\<in>set (snd (hd two_steps)). set (cs_depends_on s) \<subseteq> cs_key ` set (snd (hd two_steps))"
    by (simp_all add: two_steps_def demo_child_def)
  ultimately show ?thesis using cycle_check_exact by blast
qed

section \<open>Batches\<close>

text \<open>
  C29: under a validated policy, the leaves chosen to run together are pairwise independent: no two
  of them claim one resource with one of them writing. There are never more than the policy
  allows, all are ready, and a leaf that shares its batch has only parallel-safe capabilities.
\<close>

theorem batch_independent:
  assumes "mk_scheduler_policy m safe muts claims = Inr p"
    "\<forall>kc\<in>set (sp_claims p). \<forall>c\<in>set (snd kc). \<exists>r md. mk_resource_claim r md = Inr c"
    "ns = select_leaf_batch candidates p" "i < length ns" "j < length ns" "i \<noteq> j"
  shows "(\<forall>c\<in>set (claims_for p (ns ! i)). \<forall>d\<in>set (claims_for p (ns ! j)).
      rc_resource c = rc_resource d \<longrightarrow> rc_mode c = ''read'' \<and> rc_mode d = ''read'') \<and>
    int (length ns) \<le> m \<and> nd_status (ns ! i) = TS_READY \<and>
    set (nd_required_capabilities (ns ! i)) \<subseteq> sp_safe p"
proof -
  have p: "policy_ok p" "sp_max_parallel p = m"
    using mk_scheduler_policy_ok [OF assms(1)] assms(1)
    by (auto simp: mk_scheduler_policy_def Let_def split: if_splits sum.splits)
  have modes: "modes_ok p" using assms(2) mk_resource_claim_mode unfolding modes_ok_def by blast
  have two: "2 \<le> length ns" using assms(4-6) by linarith
  then obtain first rest where fr: "filter is_ready candidates = first # rest" "allows_parallel p first"
    and ns: "ns = extend_batch p rest [first] (claims_for p first)"
    using assms(3) by (auto simp: select_leaf_batch_def split: list.splits if_splits)
  have one: "one_mode (claims_for p first)"
    using claims_for_distinct [OF p(1), of first] by (auto simp: one_mode_def distinct_map dest: inj_onD)
  have "1 < sp_max_parallel p" using fr(2) by (auto simp: allows_parallel_def Let_def split: if_splits)
  with extend_batch_ok [OF p(1) modes one, of "[first]" rest] fr(2) ns have ok: "batch_ok p ns" by simp
  have mem: "ns ! i \<in> set ns" "ns ! j \<in> set ns" using assms(4,5) by simp_all
  have "set ns \<subseteq> set (filter is_ready candidates)"
    using extend_batch_ids [of p rest "[first]" "claims_for p first"] fr(1) ns by simp
  with mem have "is_ready (ns ! i)" by auto
  moreover have "allows_parallel p (ns ! i)" "independent p (ns ! i) (ns ! j)" "int (length ns) \<le> m"
    using ok mem two assms(4-6) p(2) \<open>1 < sp_max_parallel p\<close> by (auto simp: batch_ok_def)
  ultimately show ?thesis
    using claims_for_modes [OF modes]
    by (auto simp: allows_parallel_def Let_def independent_def conflicting_def is_write_def split: if_splits)
qed

definition pair_policy :: scheduler_policy where
  "pair_policy = \<lparr>sp_max_parallel = 2, sp_safe = {''c''}, sp_mutation = {},
     sp_claims = [(''a'', [\<lparr>rc_resource = ''x'', rc_mode = ''read''\<rparr>]),
                  (''b'', [\<lparr>rc_resource = ''x'', rc_mode = ''read''\<rparr>])]\<rparr>"

definition ready_leaf :: "string \<Rightarrow> task_node" where
  "ready_leaf k = (new_node k ''g'')\<lparr>nd_status := TS_READY, nd_required_capabilities := [''c'']\<rparr>"

lemma strip_one: "\<not> py_space c \<Longrightarrow> strip [c] = [c]"
  by (rule strip_fixed) simp

lemma pair_policy_made:
  "mk_scheduler_policy 2 [''c''] [] [(''a'', [Some \<lparr>rc_resource = ''x'', rc_mode = ''read''\<rparr>]),
     (''b'', [Some \<lparr>rc_resource = ''x'', rc_mode = ''read''\<rparr>])] = Inr pair_policy"
  by (simp add: mk_scheduler_policy_def Let_def strip_one py_space_def pair_policy_def dset_def)

lemma pair_claims_made:
  "\<forall>kc\<in>set (sp_claims pair_policy). \<forall>c\<in>set (snd kc). \<exists>r md. mk_resource_claim r md = Inr c"
proof -
  have "strip ''read'' = ''read''" by (rule strip_fixed) (simp add: py_space_def)
  moreover have "str_lower ''read'' = ''read''" by code_simp
  ultimately have "mk_resource_claim ''x'' ''read'' = Inr \<lparr>rc_resource = ''x'', rc_mode = ''read''\<rparr>"
    by (simp add: mk_resource_claim_def strip_one py_space_def)
  then show ?thesis by (auto simp: pair_policy_def)
qed

theorem batch_independent_witness:
  "\<exists>c\<in>set (claims_for pair_policy (select_leaf_batch [ready_leaf ''a'', ready_leaf ''b''] pair_policy ! 0)).
     \<exists>d\<in>set (claims_for pair_policy (select_leaf_batch [ready_leaf ''a'', ready_leaf ''b''] pair_policy ! 1)).
       rc_resource c = rc_resource d \<and> rc_mode c = ''read'' \<and> rc_mode d = ''read''"
proof -
  let ?ns = "select_leaf_batch [ready_leaf ''a'', ready_leaf ''b''] pair_policy"
  have ns: "?ns = [ready_leaf ''a'', ready_leaf ''b'']"
    by (simp add: select_leaf_batch_def ready_leaf_def new_node_def allows_parallel_def pair_policy_def
        claims_for_def dget_or_def claims_conflict_def is_write_def dset_def Let_def)
  have "\<forall>c\<in>set (claims_for pair_policy (?ns ! 0)). \<forall>d\<in>set (claims_for pair_policy (?ns ! 1)).
      rc_resource c = rc_resource d \<longrightarrow> rc_mode c = ''read'' \<and> rc_mode d = ''read''"
    using batch_independent [OF pair_policy_made pair_claims_made refl,
        where candidates = "[ready_leaf ''a'', ready_leaf ''b'']" and i = 0 and j = 1] ns by simp
  then show ?thesis
    unfolding ns by (auto simp: claims_for_def dget_or_def pair_policy_def ready_leaf_def new_node_def)
qed

section \<open>Retries\<close>

text \<open>
  C30: a validated retry policy authorises a retry exactly when the failure asks for it, its code is
  allowed, the node and idempotency key are registered, the attempt budget is open, the clock is a
  finite number that has not gone back, and the delay ends within the window; the delay is then
  between 0 and 7200 seconds.
\<close>

theorem retry_authorised_exactly:
  assumes "mk_retry_policy ma codes keys backoff window jitter seed = Inr p"
  shows "(rd_retry (retry_decide sha p n r gid now) \<longleftrightarrow>
      lr_retryable r \<and> (\<exists>c. lr_retry_code r = Some c \<and> c \<in> rp_codes p) \<and>
      (\<exists>k. idempotency_key_for p (nd_id n) = Some k \<and> lr_idempotency_key r = Some k) \<and>
      nd_retries n < rp_max_attempts p - 1 \<and>
      (\<exists>t e. finite_num now = Some t \<and> retry_elapsed n t = Some e \<and> 0 \<le> e \<and>
         (\<forall>w. rp_window p = Some w \<longrightarrow> e < w \<and> e + retry_delay sha p n gid \<le> w))) \<and>
    0 \<le> retry_delay sha p n gid \<and> retry_delay sha p n gid \<le> 7200 \<and>
    (rd_retry (retry_decide sha p n r gid now) \<longrightarrow>
      rd_delay_seconds (retry_decide sha p n r gid now) = retry_delay sha p n gid)"
  using retry_decide_iff retry_delay_bounds [OF mk_retry_policy_ok [OF assms]] retry_decide_delay by blast

definition once_policy :: retry_policy where
  "once_policy = \<lparr>rp_max_attempts = 2, rp_codes = {''c''}, rp_keys = [(''n'', ''k'')], rp_backoff = [5],
     rp_window = Some 60, rp_max_jitter = 0, rp_jitter_seed = None\<rparr>"

definition transient_failure :: leaf_result where
  "transient_failure = \<lparr>lr_status = ''failed'', lr_summary = ''s'', lr_evidence = [], lr_error = None,
     lr_retryable = True, lr_retry_code = Some ''c'', lr_idempotency_key = Some ''k''\<rparr>"

theorem retry_authorised_exactly_witness:
  "rd_retry (retry_decide (\<lambda>bs. []) once_policy (new_node ''n'' ''g'') transient_failure ''d'' (PInt 10)) \<and>
   \<not> rd_retry (retry_decide (\<lambda>bs. []) once_policy ((new_node ''n'' ''g'')\<lparr>nd_retries := 1\<rparr>)
       transient_failure ''d'' (PInt 10))"
proof -
  have made: "mk_retry_policy (PInt 2) [''c''] [(''n'', ''k'')] [PInt 5] (PInt 60) (PInt 0) None = Inr once_policy"
    by (simp add: mk_retry_policy_def Let_def strip_one py_space_def once_policy_def dset_def)
  note iff = conjunct1 [OF retry_authorised_exactly [OF made]]
  show ?thesis
    unfolding iff
    by (simp add: once_policy_def transient_failure_def new_node_def idempotency_key_for_def dget_def
        retry_elapsed_def retry_delay_def base_delay_def jitter_for_def)
qed

section \<open>Leases\<close>

text \<open>
  With a lease manager and a batch that claims resources, the batch is started only when the
  manager granted a lease for exactly the batch's claims. When it did not run, no node of the graph
  has changed. The claims asked for name each resource once, in order, and ask for writing
  exactly when some leaf of the batch writes.
\<close>

theorem leased_batch_safe:
  assumes "sc_leases E = Some M" "claims = batch_claims ns (sc_policy E)" "claims \<noteq> []"
    "run_leased_operation (sc_leases E) owner claims (record_lease E ks) (run_batch E ks) r = (out, r')"
  shows "(lo_executed out \<longrightarrow> (\<exists>att lease w. lm_acquire M owner claims (snd r) = (Inr (Some att), w) \<and>
       la_lease att = Some lease \<and> lo_lease out = Some lease)) \<and>
    (\<not> lo_executed out \<longrightarrow> tg_nodes (fst r') = tg_nodes (fst r) \<and> lo_value out = None) \<and>
    distinct (map rc_resource claims) \<and> sorted (map rc_resource claims) \<and>
    (\<forall>n\<in>set ns. \<forall>d\<in>set (claims_for (sc_policy E) n). \<exists>c\<in>set claims. rc_resource c = rc_resource d \<and>
       (is_write d \<longrightarrow> is_write c))"
proof (intro conjI)
  show "lo_executed out \<longrightarrow> (\<exists>att lease w. lm_acquire M owner claims (snd r) = (Inr (Some att), w) \<and>
       la_lease att = Some lease \<and> lo_lease out = Some lease)"
    using assms(1,3,4) by (auto simp: run_leased_operation_def no_operation_def Let_def
        split: sum.splits option.splits prod.splits)
  have ex: "lo_executed out = (lo_value out \<noteq> None)"
    using leased_not_executed [of "sc_leases E" owner claims "record_lease E ks" "run_batch E ks" r] assms(4) by simp
  show "\<not> lo_executed out \<longrightarrow> tg_nodes (fst r') = tg_nodes (fst r) \<and> lo_value out = None"
    using run_leased_steps [OF assms(4), of False] ex by (auto simp: quiet_def)
  show "distinct (map rc_resource claims)" "sorted (map rc_resource claims)"
    unfolding assms(2) by (rule batch_claims_spec)+
  show "\<forall>n\<in>set ns. \<forall>d\<in>set (claims_for (sc_policy E) n). \<exists>c\<in>set claims. rc_resource c = rc_resource d \<and>
       (is_write d \<longrightarrow> is_write c)"
  proof (intro ballI)
    fix n d assume n: "n \<in> set ns" "d \<in> set (claims_for (sc_policy E) n)"
    then have "rc_resource d \<in> rc_resource ` set claims"
      unfolding assms(2) batch_claims_spec(3) by blast
    then obtain c where "c \<in> set claims" "rc_resource c = rc_resource d" by auto
    with n batch_claims_spec(4) [of c ns "sc_policy E"] assms(2)
    show "\<exists>c\<in>set claims. rc_resource c = rc_resource d \<and> (is_write d \<longrightarrow> is_write c)" by auto
  qed
qed

definition busy_manager :: "unit lease_manager" where
  "busy_manager = \<lparr>lm_interval = (\<lambda>w. (Inr 1, w)),
     lm_acquire = (\<lambda>ow cs w. (Inr (Some \<lparr>la_lease = None, la_conflicting = [''x'']\<rparr>), w)),
     lm_renew = (\<lambda>l w. (Inr l, w)), lm_release = (\<lambda>l w. (None, w)), lm_start = (\<lambda>w. (None, w)),
     lm_beats = (\<lambda>w. ((0, False), w))\<rparr>"

definition busy_scheduler :: "unit scheduler" where
  "busy_scheduler = (still_scheduler None [] ok_executor)\<lparr>sc_policy := pair_policy, sc_leases := Some busy_manager\<rparr>"

theorem leased_batch_safe_witness:
  "\<exists>out r'. run_leased_operation (sc_leases busy_scheduler) ''o'' (batch_claims [ready_leaf ''a''] (sc_policy busy_scheduler))
     (record_lease busy_scheduler [''a'']) (run_batch busy_scheduler [''a'']) (demo_task_graph, ()) = (out, r') \<and>
     lo_value out = None \<and> tg_nodes (fst r') = tg_nodes demo_task_graph"
proof -
  have m: "sc_leases busy_scheduler = Some busy_manager" by (simp add: busy_scheduler_def)
  have cl: "batch_claims [ready_leaf ''a''] (sc_policy busy_scheduler) = [\<lparr>rc_resource = ''x'', rc_mode = ''read''\<rparr>]"
    by code_simp
  obtain out r' where r: "run_leased_operation (sc_leases busy_scheduler) ''o''
     (batch_claims [ready_leaf ''a''] (sc_policy busy_scheduler)) (record_lease busy_scheduler [''a''])
     (run_batch busy_scheduler [''a'']) (demo_task_graph, ()) = (out, r')" by (metis surj_pair)
  from r have "\<not> lo_executed out"
    unfolding m cl by (auto simp: run_leased_operation_def busy_manager_def no_operation_def)
  with leased_batch_safe [OF m refl _ r] cl r show ?thesis by auto
qed

section \<open>Persistence\<close>

text \<open>
  Saving a graph and loading it by its id gives the graph back, with every interrupted leaf
  ready again, for any JSON codec that reads what it writes and any graph whose results were
  built by the result class; files of other graphs are untouched.
\<close>

theorem store_round_trip_recovers:
  assumes "\<And>v. jc_loads J (jc_dumps J v) = Some v" "results_ok g" "store_save J g files = Inr files'"
  shows "store_load J (tg_id g) files' = Inr (recover_graph g) \<and>
    (\<forall>other. other \<noteq> tg_id g \<longrightarrow> store_load J other files' = store_load J other files)"
proof
  show "store_load J (tg_id g) files' = Inr (recover_graph g)" by (rule store_round_trip [OF assms])
  show "\<forall>other. other \<noteq> tg_id g \<longrightarrow> store_load J other files' = store_load J other files"
    using assms(3) by (auto simp: store_save_def store_load_def store_target_def split: sum.splits if_splits)
qed

theorem store_round_trip_recovers_witness:
  "\<exists>files'. store_save unary_codec demo_task_graph [] = Inr files' \<and>
     store_load unary_codec ''d'' files' = Inr (recover_graph demo_task_graph)"
proof -
  have ok: "results_ok demo_task_graph" by (simp add: results_ok_def demo_task_graph_def new_node_def)
  have "store_target (tg_id demo_task_graph) = Inr (''d'' @ ''.json'')"
    by (simp add: store_target_def demo_task_graph_def graph_id_char_def)
  then obtain files' where f: "store_save unary_codec demo_task_graph [] = Inr files'"
    by (simp add: store_save_def)
  have codec: "jc_loads unary_codec (jc_dumps unary_codec v) = Some v" for v by (simp add: unary_codec_def)
  from store_round_trip_recovers [OF codec ok f] f show ?thesis by (simp add: demo_task_graph_def)
qed

section \<open>Telemetry\<close>

text \<open>
  Retry telemetry counts exactly what the log holds: every counter is the number of events of its
  type, cancelled waits are those whose event says so, and the count of a code or reason is the
  number of events that carry it, whatever shape the payloads have.
\<close>

theorem telemetry_counts:
  shows "(let t = aggregate_retry_telemetry g; es = tg_events g in
    rt_scheduled t = length (events_of ''leaf_retry_scheduled'' es) \<and>
    rt_rejected t = length (events_of ''leaf_retry_rejected'' es) \<and>
    rt_waits_started t = length (events_of ''leaf_retry_wait_started'' es) \<and>
    rt_waits_completed t = length (events_of ''leaf_retry_wait_completed'' es) \<and>
    rt_waits_cancelled t \<le> rt_waits_completed t \<and>
    dget_or 0 (rt_reasons t) x = count_text ''reason'' x (events_of ''leaf_retry_rejected'' es) \<and>
    dget_or 0 (rt_codes t) x = count_text ''retry_code'' x (events_of ''leaf_retry_scheduled'' es) +
      count_text ''retry_code'' x (events_of ''leaf_retry_rejected'' es))"
  using count_event_fold [of "tg_events g"] count_codes [of "tg_events g" x]
  by (simp add: aggregate_retry_telemetry_def Let_def sort_key_get)

end
