(* ===== verification/Task_Board.thy ===== *)
theory Task_Board
  imports Task_Properties
begin

text \<open>
  What the task scheduler is for, without graphs, budgets, retry clocks, leases and ports: a board of tasks, each with a
  status and the tasks it depends on, and the moves that are allowed on it. The scheduler refines the
  board: whatever its ports do, a run is a sequence of moves of the board.
\<close>

section \<open>The board\<close>

type_synonym board = "string \<Rightarrow> (task_status \<times> string set) option"

definition is_done :: "board \<Rightarrow> string \<Rightarrow> bool" where
  "is_done a k \<longleftrightarrow> (\<exists>ds. a k = Some (TS_COMPLETED, ds))"

text \<open>
  A task starts pending. Once everything it depends on is completed it becomes ready and runs, perhaps several times, or
  is split into new tasks that depend only on each other, and waits for them. A running or waiting task may complete; a
  task that has not ended may fail or be blocked.
\<close>

inductive move :: "board \<Rightarrow> board \<Rightarrow> bool" where
  m_ready: "a k = Some (TS_PENDING, ds) \<Longrightarrow> \<forall>d\<in>ds. is_done a d \<Longrightarrow> move a (a(k \<mapsto> (TS_READY, ds)))"
| m_start: "a k = Some (TS_READY, ds) \<Longrightarrow> \<forall>d\<in>ds. is_done a d \<Longrightarrow> move a (a(k \<mapsto> (TS_RUNNING, ds)))"
| m_again: "a k = Some (TS_RUNNING, ds) \<or> a k = Some (TS_READY, ds) \<Longrightarrow> move a (a(k \<mapsto> (TS_READY, ds)))"
| m_complete: "a k = Some (TS_RUNNING, ds) \<or> a k = Some (TS_WAITING, ds) \<Longrightarrow> move a (a(k \<mapsto> (TS_COMPLETED, ds)))"
| m_fail: "a k = Some (st, ds) \<Longrightarrow> \<not> terminal_status st \<Longrightarrow> st' = TS_FAILED \<or> st' = TS_BLOCKED \<Longrightarrow>
    move a (a(k \<mapsto> (st', ds)))"
| m_split: "a k = Some (TS_PENDING, ds) \<Longrightarrow> \<forall>d\<in>ds. is_done a d \<Longrightarrow> dom new \<noteq> {} \<Longrightarrow> dom new \<inter> dom a = {} \<Longrightarrow>
    \<forall>c st cs. new c = Some (st, cs) \<longrightarrow> st = TS_PENDING \<and> cs \<subseteq> dom new \<Longrightarrow>
    move a (a(k \<mapsto> (TS_WAITING, ds)) ++ new)"

text \<open>On the board, what has ended stays ended, and what a task depends on never changes.\<close>

lemma move_keeps: "move a b \<Longrightarrow> a k = Some (st, ds) \<Longrightarrow> \<exists>st'. b k = Some (st', ds) \<and> (terminal_status st \<longrightarrow> st' = st)"
proof (induction rule: move.induct)
  case (m_split a j js new)
  from m_split(6) have "new k = None" using m_split(4) by (metis disjoint_iff domIff option.distinct(1))
  with m_split(1,6) show ?case by (auto simp: map_add_def terminal_status_def)
qed (auto simp: terminal_status_def)

lemma moves_keep: "move\<^sup>*\<^sup>* a b \<Longrightarrow> a k = Some (st, ds) \<Longrightarrow> \<exists>st'. b k = Some (st', ds) \<and> (terminal_status st \<longrightarrow> st' = st)"
  by (induction rule: rtranclp_induct) (use move_keeps in \<open>fastforce+\<close>)

section \<open>Refinement\<close>

definition board_of :: "task_graph \<Rightarrow> board" where
  "board_of g k = map_option (\<lambda>n. (nd_status n, set (nd_dependencies n))) (node_at g k)"

lemma board_fields [simp]:
  "board_of (record_task_event x g) = board_of g" "board_of (g\<lparr>tg_stop_reason := r\<rparr>) = board_of g"
  "board_of (g\<lparr>tg_leaf_executions := m\<rparr>) = board_of g"
  by (simp_all add: board_of_def fun_eq_iff)

lemma board_upd:
  assumes "node_at g k = Some n" "same_place n (f n)"
  shows "board_of (upd_node k f g) = (board_of g)(k \<mapsto> (nd_status (f n), set (nd_dependencies n)))"
  using assms by (auto simp: board_of_def same_place_def)

lemma is_done_board: "is_done (board_of g) d \<longleftrightarrow> status_at g d = Some TS_COMPLETED"
  by (cases "node_at g d") (simp_all add: is_done_def board_of_def status_at_def)

lemma dependencies_done: "dependencies_met g n \<Longrightarrow> \<forall>d\<in>set (nd_dependencies n). is_done (board_of g) d"
  by (simp add: dependencies_met_def all_completed_def list_all_iff is_done_board)

lemma board_at: "node_at g k = Some n \<Longrightarrow> board_of g k = Some (nd_status n, set (nd_dependencies n))"
  by (simp add: board_of_def)

lemma moved:
  assumes "node_at g k = Some n" "same_place n (f n)" "nd_status (f n) = s"
    "move (board_of g) ((board_of g)(k \<mapsto> (s, set (nd_dependencies n))))"
  shows "move\<^sup>*\<^sup>* (board_of g) (board_of (upd_node k f g))"
  using board_upd [of g k n f, OF assms(1,2)] assms(3,4) by (metis r_into_rtranclp)

lemma gstep_moves:
  assumes "gstep K True c g g'" "graph_good K g"
  shows "move\<^sup>*\<^sup>* (board_of g) (board_of g')"
  using assms
proof (induction rule: gstep.induct)
  case (g_note g k n f)
  then have "board_of (upd_node k f g) = board_of g"
    using board_upd [of g k n f] board_at [of g k n] by (auto simp: advance_to_def fun_upd_idem)
  then show ?case by simp
next
  case (g_ready g k n f)
  show ?case by (rule moved [of g k n f, OF g_ready(1)])
    (use g_ready board_at [of g k n] dependencies_done in \<open>auto simp: advance_to_def intro!: m_ready\<close>)
next
  case (g_start g k n f)
  have "move\<^sup>*\<^sup>* (board_of g) (board_of (upd_node k f g))" by (rule moved [of g k n f, OF g_start(1)])
    (use g_start board_at [of g k n] dependencies_done in \<open>auto intro!: m_start\<close>)
  then show ?case by simp
next
  case (g_retry g k n f)
  show ?case by (rule moved [of g k n f, OF g_retry(1)])
    (use g_retry board_at [of g k n] in \<open>auto intro!: m_again\<close>)
next
  case (g_done g k n f)
  then have "node_ok K g n" by (auto simp: graph_good_def)
  with g_done have "nd_status n = TS_RUNNING \<or> nd_status n = TS_WAITING"
    by (cases "nd_status n") (auto simp: node_ok_def live_def terminal_status_def)
  then show ?case by (intro moved [of g k n f, OF g_done(1)])
    (use g_done board_at [of g k n] in \<open>auto simp: advance_to_def intro!: m_complete\<close>)
next
  case (g_fail g k n s f)
  show ?case by (rule moved [of g k n f, OF g_fail(1)])
    (use g_fail board_at [of g k n] in \<open>auto simp: advance_to_def live_def intro!: m_fail\<close>)
next
  case (g_split g k n specs g')
  define new where "new = (\<lambda>c. case find (\<lambda>s. child_id k (cs_key s) = c) specs of
     None \<Rightarrow> None | Some s \<Rightarrow> Some (TS_PENDING, set (nd_dependencies (child_node n s))))"
  have dom: "dom new = (\<lambda>s. child_id k (cs_key s)) ` set specs"
    by (auto simp: new_def find_None_iff split: option.splits dest!: find_child)
  have "board_of g' = (board_of g)(k \<mapsto> (TS_WAITING, set (nd_dependencies n))) ++ new"
    unfolding g_split(10) using split_node_at [OF g_split(1,2,8)]
    by (auto simp: board_of_def fun_eq_iff new_def map_add_def child_node_def new_node_def split: option.splits dest: find_child)
  moreover have "move (board_of g) ((board_of g)(k \<mapsto> (TS_WAITING, set (nd_dependencies n))) ++ new)"
  proof (rule m_split)
    show "board_of g k = Some (TS_PENDING, set (nd_dependencies n))" using board_at [OF g_split(1)] g_split(3) by simp
    show "\<forall>d\<in>set (nd_dependencies n). is_done (board_of g) d" by (rule dependencies_done [OF g_split(4)])
    show "dom new \<noteq> {}" using g_split(5) by (simp add: dom)
    show "dom new \<inter> dom (board_of g) = {}"
    proof -
      have "dot_free (cs_key s)" if "s \<in> set specs" for s using g_split(9) that by simp
      then have "node_at g (child_id k (cs_key s)) = None" if "s \<in> set specs" for s
        using split_fresh [OF g_split(11) g_split(1,3)] that by blast
      then show ?thesis by (auto simp: dom board_of_def)
    qed
    show "\<forall>c st cs. new c = Some (st, cs) \<longrightarrow> st = TS_PENDING \<and> cs \<subseteq> dom new"
    proof (intro allI impI)
      fix c st cs
      assume "new c = Some (st, cs)"
      then obtain s where s: "find (\<lambda>s. child_id k (cs_key s) = c) specs = Some s" "st = TS_PENDING"
        "cs = set (nd_dependencies (child_node n s))" by (auto simp: new_def split: option.splits)
      from find_child [OF s(1)] have "set (cs_depends_on s) \<subseteq> cs_key ` set specs"
        using child_specs_ok(3) [OF g_split(8)] by blast
      then have "cs \<subseteq> dom new" unfolding dom s(3) using g_split(2) by (auto simp: child_node_def)
      with s(2) show "st = TS_PENDING \<and> cs \<subseteq> dom new" by blast
    qed
  qed
  ultimately show ?case by auto
qed simp_all

lemma rsteps_moves:
  "rsteps E True b r r' \<Longrightarrow> graph_good (retry_bound E) (fst r) \<Longrightarrow> move\<^sup>*\<^sup>* (board_of (fst r)) (board_of (fst r'))"
proof (induction rule: rsteps.induct)
  case (rs_graph b r g w c g')
  then show ?case using rsteps_good [OF rs_graph(1)] gstep_moves [OF rs_graph(2)] by (metis fst_conv rtranclp_trans)
qed simp_all

section \<open>Property\<close>

text \<open>
  C3: the scheduler refines the task board. For every scheduler whose decomposer forms no child keys with dots, the
  run of a new graph leads from the board with one pending task without dependencies by moves of the board
  to the board of the final graph, on which the root has ended.
\<close>

theorem scheduler_refines_board:
  assumes "create_graph goal cr cap (Some b) gid = Inr g" "0 < tb_max_nodes b" "0 \<le> tb_max_depth b"
    "0 < tb_max_leaf_executions b" "dot_free_keys E" "run_scheduler E (g, w) = Inr (Some (g', w'))"
  shows "board_of g = [tg_root_id g \<mapsto> (TS_PENDING, {})] \<and> move\<^sup>*\<^sup>* (board_of g) (board_of g') \<and>
    (\<exists>st ds. board_of g' (tg_root_id g) = Some (st, ds) \<and> terminal_status st)"
proof -
  note c = create_valid [OF assms(1-4), of "retry_bound E"]
  then have wf: "graph_wf (fst (g, w))" using validated_wf by simp
  have "validate_task_graph (fst (g, w)) = None" using c by simp
  from run_scheduler_result [OF this wf, of True E] assms(5,6) obtain bb where
    s: "rsteps E True bb (g, w) (g', w')" "root_terminal g'" by auto
  have "move\<^sup>*\<^sup>* (board_of g) (board_of g')" using rsteps_moves [OF s(1)] c by simp
  moreover have "board_of g = [tg_root_id g \<mapsto> (TS_PENDING, {})]"
    using assms(1) by (auto simp: create_graph_def Let_def board_of_def node_at_def new_node_def fun_eq_iff split: if_splits)
  moreover have "tg_root_id g' = tg_root_id g" using rsteps_constants [OF s(1)] by simp
  ultimately show ?thesis using s(2)
    by (auto simp: root_terminal_def root_node_def board_of_def split: option.splits)
qed

theorem scheduler_refines_board_witness:
  "\<exists>g w. run_scheduler (still_scheduler None [] ok_executor) (demo_task_graph, ()) = Inr (Some (g, w)) \<and>
     move\<^sup>*\<^sup>* [''root'' \<mapsto> (TS_PENDING, {})] (board_of g) \<and> board_of g ''root'' = Some (TS_COMPLETED, {})"
proof -
  obtain g w n where r: "run_scheduler (still_scheduler None [] ok_executor) (demo_task_graph, ()) = Inr (Some (g, w))"
    using lone_run_result by blast
  with lone_run have completed: "status_at g (tg_root_id g) = Some TS_COMPLETED" by simp
  have "0 < tb_max_nodes \<lparr>tb_max_nodes = 8, tb_max_depth = 2, tb_max_leaf_executions = 4\<rparr>"
    "0 \<le> tb_max_depth \<lparr>tb_max_nodes = 8, tb_max_depth = 2, tb_max_leaf_executions = 4\<rparr>"
    "0 < tb_max_leaf_executions \<lparr>tb_max_nodes = 8, tb_max_depth = 2, tb_max_leaf_executions = 4\<rparr>" by simp_all
  moreover have dots: "dot_free_keys (still_scheduler None [] ok_executor)" by (rule still_dot_free) simp
  ultimately have refined: "board_of demo_task_graph = [tg_root_id demo_task_graph \<mapsto> (TS_PENDING, {})] \<and>
    move\<^sup>*\<^sup>* (board_of demo_task_graph) (board_of g) \<and>
    (\<exists>st ds. board_of g (tg_root_id demo_task_graph) = Some (st, ds) \<and> terminal_status st)"
    using scheduler_refines_board [OF demo_created _ _ _ dots r] by blast
  have start: "tg_root_id demo_task_graph = ''root''" by (simp add: demo_task_graph_def)
  have b: "board_of demo_task_graph = [''root'' \<mapsto> (TS_PENDING, {})]" by (rule refined [THEN conjunct1, unfolded start])
  have m: "move\<^sup>*\<^sup>* [''root'' \<mapsto> (TS_PENDING, {})] (board_of g)" by (rule refined [THEN conjunct2, THEN conjunct1, unfolded b])
  obtain st where "board_of g ''root'' = Some (st, {})" using moves_keep [OF m, of "''root''" TS_PENDING "{}"] by auto
  moreover have "tg_root_id g = ''root''"
    using run_created [OF demo_created _ _ _ dots r] start by simp
  ultimately show ?thesis using r m completed by (auto simp: board_of_def status_at_def)
qed

end
