(* ===== verification/Lease_Registry.thy ===== *)
theory Lease_Registry
  imports Task_Leases Json_Files
begin

text \<open>
  The JSON registry of resource leases and fencing counters
  (\<open>loop_engine/adapters/resource_lease_registry.py\<close>): its records, the checks on loading and the
  sorted writing. A time field that is no finite number, an id that is no string or a pid that is
  no integer is an error here; the code would keep it in the record. The main fact is that a
  valid registry is read back as it was written.
\<close>

section \<open>Data\<close>

record lease_record =
  lx_lease_id :: string
  lx_owner_id :: string
  lx_owner_pid :: int
  lx_process_identity :: string
  lx_claims :: "resource_claim list"
  lx_acquired_at :: rat
  lx_heartbeat_at :: rat
  lx_expires_at :: rat
  lx_tokens :: "(string \<times> int) list"

record lease_registry =
  rg_records :: "lease_record list"
  rg_counters :: "(string \<times> int) list"

section \<open>Saving\<close>

definition claim_dict :: "resource_claim \<Rightarrow> pydict" where
  "claim_dict c = [(''resource'', PStr (rc_resource c)), (''mode'', PStr (rc_mode c))]"

definition pints :: "(string \<times> int) list \<Rightarrow> pyval" where
  "pints d = PDict (map (\<lambda>(k, i). (k, PInt i)) d)"

definition lease_row :: "lease_record \<Rightarrow> pydict" where
  "lease_row x = [(''lease_id'', PStr (lx_lease_id x)), (''owner_id'', PStr (lx_owner_id x)),
     (''owner_pid'', PInt (lx_owner_pid x)), (''process_identity'', PStr (lx_process_identity x)),
     (''acquired_at'', pnum (lx_acquired_at x)), (''heartbeat_at'', pnum (lx_heartbeat_at x)),
     (''expires_at'', pnum (lx_expires_at x)),
     (''claims'', PList (map (\<lambda>c. PDict (claim_dict c)) (lx_claims x))),
     (''fencing_tokens'', pints (lx_tokens x))]"

definition sorted_registry :: "lease_registry \<Rightarrow> lease_registry" where
  "sorted_registry r = \<lparr>rg_records = sort_key lx_lease_id (rg_records r), rg_counters = sort_key fst (rg_counters r)\<rparr>"

definition registry_payload :: "lease_registry \<Rightarrow> pydict" where
  "registry_payload r = [(''schema_version'', PInt 3), (''fencing_counters'', pints (sort_key fst (rg_counters r))),
     (''leases'', PList (map (\<lambda>x. PDict (lease_row x)) (sort_key lx_lease_id (rg_records r))))]"

definition save_registry :: "json_codec \<Rightarrow> string \<Rightarrow> lease_registry \<Rightarrow> directory \<Rightarrow> directory" where
  "save_registry J path r files = dset path (jc_dumps J (PDict (registry_payload r)) @ [CHR 0x0A]) files"

section \<open>Loading\<close>

definition bad_token :: "pyval \<Rightarrow> bool" where
  "bad_token v = (case plain_int v of None \<Rightarrow> True | Some t \<Rightarrow> t \<le> 0)"

definition validate_counters :: "pyval option \<Rightarrow> py_exc + (string \<times> int) list" where
  "validate_counters v = (case Option.bind v as_dict of
      None \<Rightarrow> Inl (ValueError ''resource lease fencing_counters are invalid'')
    | Some d \<Rightarrow>
        if list_ex (\<lambda>(k, t). k = [] \<or> bad_token t) d
          then Inl (ValueError ''resource lease fencing_counters are invalid'')
        else Inr (map (\<lambda>(k, t). (k, the (plain_int t))) d))"

text \<open>\<open>ResourceClaim(**dict(claim))\<close>.\<close>

definition claim_from :: "pyval \<Rightarrow> py_exc + resource_claim" where
  "claim_from v = (case as_dict v of
      None \<Rightarrow> Inl (malformed ''claim'')
    | Some d \<Rightarrow>
        if \<not> only_keys [''resource'', ''mode''] d then Inl (malformed ''claim'')
        else case (Option.bind (dget d ''resource'') as_str, Option.bind (dget d ''mode'') as_str) of
            (Some resource, Some mode) \<Rightarrow> mk_resource_claim resource mode
          | _ \<Rightarrow> Inl (malformed ''claim''))"

definition row_keys :: "string list" where
  "row_keys = [''lease_id'', ''owner_id'', ''owner_pid'', ''process_identity'', ''acquired_at'',
     ''heartbeat_at'', ''expires_at'', ''claims'', ''fencing_tokens'']"

definition record_from_dict :: "pydict \<Rightarrow> (string \<times> int) list \<Rightarrow> py_exc + lease_record" where
  "record_from_dict values counters =
     exc_bind (field_exc values ''claims'' Some) (\<lambda>raw_claims.
     exc_bind (field_exc values ''fencing_tokens'' Some) (\<lambda>raw_tokens.
     case (as_list raw_claims, as_dict raw_tokens) of
       (Some claim_rows, Some tokens) \<Rightarrow>
         exc_bind (map_exc claim_from claim_rows) (\<lambda>claims.
         if set (dkeys tokens) \<noteq> write_resources claims
           then Inl (ValueError ''resource lease fencing_tokens do not match write claims'')
         else
           exc_bind (field_exc values ''lease_id'' as_str) (\<lambda>lease_id.
           exc_bind (field_exc values ''owner_id'' as_str) (\<lambda>owner_id.
           exc_bind (field_exc values ''expires_at'' finite_num) (\<lambda>expires_at.
           exc_bind (mk_resource_lease lease_id owner_id claims expires_at tokens) (\<lambda>lease.
           if list_ex (\<lambda>(k, t). dget_or 0 counters k < t) (rl_fencing_tokens lease)
             then Inl (ValueError ''resource lease fencing token exceeds persisted counter'')
           else if \<not> only_keys row_keys values then Inl (malformed ''lease row'')
           else
             exc_bind (field_exc values ''owner_pid'' plain_int) (\<lambda>pid.
             exc_bind (field_exc values ''process_identity'' as_str) (\<lambda>identity.
             exc_bind (field_exc values ''acquired_at'' finite_num) (\<lambda>acquired_at.
             exc_bind (field_exc values ''heartbeat_at'' finite_num) (\<lambda>heartbeat_at.
               Inr \<lparr>lx_lease_id = lease_id, lx_owner_id = owner_id, lx_owner_pid = pid,
                 lx_process_identity = identity, lx_claims = claims, lx_acquired_at = acquired_at,
                 lx_heartbeat_at = heartbeat_at, lx_expires_at = expires_at,
                 lx_tokens = rl_fencing_tokens lease\<rparr>)))))))))
     | _ \<Rightarrow> Inl (ValueError ''resource lease fencing contract is invalid'')))"

fun read_rows :: "(string \<times> int) list \<Rightarrow> string set \<Rightarrow> pyval list \<Rightarrow> py_exc + lease_record list" where
  "read_rows counters seen [] = Inr []"
| "read_rows counters seen (row # rows) =
     (case as_dict row of
        None \<Rightarrow> Inl (malformed ''lease row'')
      | Some d \<Rightarrow>
          exc_bind (record_from_dict d counters) (\<lambda>x.
          if lx_lease_id x \<in> seen then Inl (ValueError ''duplicate resource lease_id'')
          else exc_bind (read_rows counters (insert (lx_lease_id x) seen) rows) (\<lambda>xs. Inr (x # xs))))"

definition load_registry :: "json_codec \<Rightarrow> string \<Rightarrow> directory \<Rightarrow> py_exc + lease_registry" where
  "load_registry J path files = (case dget files path of
      None \<Rightarrow> Inr \<lparr>rg_records = [], rg_counters = []\<rparr>
    | Some text \<Rightarrow> (case jc_loads J text of
        None \<Rightarrow> Inl (PyExc ''JSONDecodeError'' path)
      | Some v \<Rightarrow> (case as_dict v of
          None \<Rightarrow> Inl (malformed ''registry'')
        | Some payload \<Rightarrow>
            if \<not> eq_num (dget_or PNone payload ''schema_version'') 3
              then Inl (ValueError ''unsupported resource lease schema_version'')
            else (case as_list (dget_or PNone payload ''leases'') of
                None \<Rightarrow> Inl (ValueError ''resource lease rows must be an array'')
              | Some rows \<Rightarrow>
                  exc_bind (validate_counters (dget payload ''fencing_counters'')) (\<lambda>counters.
                  exc_bind (read_rows counters {} rows) (\<lambda>records.
                    Inr \<lparr>rg_records = records, rg_counters = counters\<rparr>))))))"

section \<open>Valid registries\<close>

definition claim_ok :: "resource_claim \<Rightarrow> bool" where
  "claim_ok c \<longleftrightarrow> mk_resource_claim (rc_resource c) (rc_mode c) = Inr c"

definition tokens_ok :: "(string \<times> int) list \<Rightarrow> lease_record \<Rightarrow> bool" where
  "tokens_ok counters x \<longleftrightarrow> wf_dict (lx_tokens x) \<and> set (dkeys (lx_tokens x)) = write_resources (lx_claims x) \<and>
     (\<forall>(k, t)\<in>set (lx_tokens x). 0 < t \<and> t \<le> dget_or 0 counters k)"

definition counters_ok :: "(string \<times> int) list \<Rightarrow> bool" where
  "counters_ok d \<longleftrightarrow> wf_dict d \<and> (\<forall>(k, t)\<in>set d. k \<noteq> [] \<and> 0 < t)"

definition registry_ok :: "lease_registry \<Rightarrow> bool" where
  "registry_ok r \<longleftrightarrow> distinct (map lx_lease_id (rg_records r)) \<and> counters_ok (rg_counters r) \<and>
     (\<forall>x\<in>set (rg_records r). tokens_ok (rg_counters r) x \<and> (\<forall>c\<in>set (lx_claims x). claim_ok c))"

lemma claim_round_trip: "claim_ok c \<Longrightarrow> claim_from (PDict (claim_dict c)) = Inr c"
  by (simp add: claim_from_def claim_dict_def only_keys_def dkeys_def claim_ok_def)

lemma plain_ints: "map (\<lambda>(k, t). (k, the (plain_int t))) (map (\<lambda>(k, i). (k, PInt i)) d) = d"
  by (induction d) auto

lemma counters_round_trip: "counters_ok d \<Longrightarrow> validate_counters (Some (pints d)) = Inr d"
  by (auto simp: validate_counters_def pints_def list_ex_iff counters_ok_def bad_token_def plain_ints
      simp del: map_map split: prod.splits)

lemma dkeys_pints: "dkeys (map (\<lambda>(k, i). (k, PInt i)) d) = dkeys d"
  by (induction d) (auto simp: dkeys_def)

lemma tokens_lease:
  assumes "set (dkeys ts) = write_resources cs" "\<forall>(k, t)\<in>set ts. 0 < t"
  shows "mk_resource_lease i ow cs ex (map (\<lambda>(k, i). (k, PInt i)) ts) =
    Inr \<lparr>rl_lease_id = i, rl_owner_id = ow, rl_claims = cs, rl_expires_at = ex, rl_fencing_tokens = ts\<rparr>"
proof -
  have pos: "\<not> (\<exists>kv\<in>set (map (\<lambda>(k, i). (k, PInt i)) ts). case plain_int (snd kv) of None \<Rightarrow> True | Some t \<Rightarrow> t \<le> 0)"
    using assms(2) by auto
  show ?thesis
    unfolding mk_resource_lease_def dkeys_pints plain_ints if_not_P [OF pos] by (simp add: assms(1))
qed

lemma row_round_trip:
  assumes "tokens_ok counters x" "\<forall>c\<in>set (lx_claims x). claim_ok c"
  shows "record_from_dict (lease_row x) counters = Inr x"
proof -
  have claims: "map_exc claim_from (map (\<lambda>c. PDict (claim_dict c)) (lx_claims x)) = Inr (lx_claims x)"
    by (rule map_exc_Inr) (use assms(2) claim_round_trip in blast)
  have keys: "set (dkeys (lx_tokens x)) = write_resources (lx_claims x)" "\<forall>(k, t)\<in>set (lx_tokens x). 0 < t"
    "\<not> list_ex (\<lambda>(k, t). dget_or 0 counters k < t) (lx_tokens x)"
    using assms(1) by (auto simp: tokens_ok_def list_ex_iff)
  show ?thesis
    by (simp add: record_from_dict_def lease_row_def field_exc_def pints_def claims dkeys_pints keys(1)
        tokens_lease [OF keys(1,2)] keys(3) only_keys_def row_keys_def) (simp add: dkeys_def)
qed

lemma rows_round_trip:
  assumes "distinct (map lx_lease_id xs)" "lx_lease_id ` set xs \<inter> seen = {}"
    "\<forall>x\<in>set xs. tokens_ok counters x \<and> (\<forall>c\<in>set (lx_claims x). claim_ok c)"
  shows "read_rows counters seen (map (\<lambda>x. PDict (lease_row x)) xs) = Inr xs"
  using assms
proof (induction xs arbitrary: seen)
  case (Cons x xs)
  then have "read_rows counters (insert (lx_lease_id x) seen) (map (\<lambda>x. PDict (lease_row x)) xs) = Inr xs"
    by (intro Cons.IH) auto
  with Cons.prems show ?case by (simp add: row_round_trip)
qed simp

lemma dget_or_sort: "wf_dict d \<Longrightarrow> dget_or v (sort_key fst d) k = dget_or v d k"
proof -
  assume wf: "wf_dict d"
  have "map_of (sort_key fst d) = map_of d"
    by (rule map_of_inject_set [THEN iffD2]) (use wf in \<open>simp_all add: wf_dict_def\<close>)
  then show ?thesis by (simp add: dget_or_def)
qed

lemma sorted_registry_ok:
  assumes "registry_ok r" shows "registry_ok (sorted_registry r)"
proof -
  have wf: "wf_dict (rg_counters r)" using assms by (simp add: registry_ok_def counters_ok_def)
  with assms show ?thesis
    by (simp add: registry_ok_def sorted_registry_def counters_ok_def tokens_ok_def dget_or_sort)
qed

lemma sorted_registry_idem [simp]: "sorted_registry (sorted_registry r) = sorted_registry r"
  by (simp add: sorted_registry_def sort_key_id_if_sorted)

lemma registry_round_trip:
  assumes "codec_ok J" "registry_ok r"
  shows "load_registry J path (save_registry J path r files) = Inr (sorted_registry r)"
proof -
  have ok: "registry_ok (sorted_registry r)" using assms(2) by (rule sorted_registry_ok)
  have counters: "validate_counters (Some (pints (sort_key fst (rg_counters r)))) = Inr (sort_key fst (rg_counters r))"
    by (rule counters_round_trip) (use ok in \<open>simp add: registry_ok_def sorted_registry_def\<close>)
  have rows: "read_rows (sort_key fst (rg_counters r)) {} (map (\<lambda>x. PDict (lease_row x)) (sort_key lx_lease_id (rg_records r)))
      = Inr (sort_key lx_lease_id (rg_records r))"
    by (rule rows_round_trip) (use ok in \<open>auto simp: registry_ok_def sorted_registry_def\<close>)
  show ?thesis
    by (simp add: load_registry_def save_registry_def codec_loads_line [OF assms(1)] registry_payload_def
        eq_num_def dget_or_def counters rows sorted_registry_def)
qed

interpretation lease_file: saved_file "load_registry J path" "save_registry J path"
  "\<lambda>r. codec_ok J \<and> registry_ok r" sorted_registry for J path
  by unfold_locales (auto simp: registry_round_trip sorted_registry_ok)

end
