(* ===== verification/Directory_Lock.thy ===== *)
theory Directory_Lock
  imports Json_Files
begin

text \<open>
  The lock directory that guards a JSON registry (\<open>loop_engine/adapters/directory_lock.py\<close>). First
  the operations of one process: other processes act while it sleeps. Then the protocol between
  processes, one file-system call per step: it excludes two holders as long as no directory is
  moved away from its maker, and does not in general, since the check for staleness and the
  renaming are two calls.
\<close>

section \<open>Clocks, sleeping and the lock directory\<close>

text \<open>The text of \<open>created_at\<close> is \<open>str(clock())\<close> and is read with \<open>float\<close>: the field holds the number, or
  \<open>None\<close> when the file is missing or does not read as one.\<close>

record lock_dir =
  lk_created_at :: "rat option"
  lk_mtime :: rat

record 'w lock_world =
  lw_files :: directory
  lw_lock :: "lock_dir option"
  lw_world :: 'w

record 'w lock_host =
  dl_clock :: "'w \<Rightarrow> rat \<times> 'w"
  dl_mtime :: "'w \<Rightarrow> rat \<times> 'w"
  dl_uuid :: "'w \<Rightarrow> string \<times> 'w"
  dl_rename_ok :: "'w \<Rightarrow> bool \<times> 'w"
  dl_sleep :: "rat \<Rightarrow> 'w lock_world \<Rightarrow> 'w lock_world"
  dl_stale_after :: rat
  dl_poll :: rat

text \<open>A reading of the outside world.\<close>

definition ask :: "('w \<Rightarrow> 'a \<times> 'w) \<Rightarrow> 'w lock_world \<Rightarrow> 'a \<times> 'w lock_world" where
  "ask f s = (let (x, w) = f (lw_world s) in (x, s\<lparr>lw_world := w\<rparr>))"

text \<open>
  The waiting loops of the lock and of the lease manager have one shape: try; when it did not
  succeed, give up once the clock has reached the deadline, else sleep for
  \<open>min(poll_interval, max(0.0, deadline - clock()))\<close> and try again. An attempt is done (\<open>Inl\<close>) or
  has the answer to give on a timeout (\<open>Inr\<close>).
\<close>

partial_function (option) poll_loop ::
  "('w, 'z) lock_host_scheme \<Rightarrow> rat \<Rightarrow> ('w lock_world \<Rightarrow> (('a + 'a) \<times> 'w lock_world) option)
   \<Rightarrow> 'w lock_world \<Rightarrow> ('a \<times> 'w lock_world) option"
where
  "poll_loop H deadline attempt s = (case attempt s of
      None \<Rightarrow> None
    | Some (Inl x, s1) \<Rightarrow> Some (x, s1)
    | Some (Inr x, s1) \<Rightarrow>
        let (t, s2) = ask (dl_clock H) s1 in
        if t \<ge> deadline then Some (x, s2)
        else let (t', s3) = ask (dl_clock H) s2
             in poll_loop H deadline attempt (dl_sleep H (min (dl_poll H) (max 0 (deadline - t'))) s3))"

declare poll_loop.simps [code]

section \<open>Entering and leaving\<close>

definition reclaim_if_stale :: "('w, 'z) lock_host_scheme \<Rightarrow> 'w lock_world \<Rightarrow> 'w lock_world" where
  "reclaim_if_stale H s = (case lw_lock s of
      None \<Rightarrow> s
    | Some d \<Rightarrow>
        let created_at = (case lk_created_at d of Some t \<Rightarrow> t | None \<Rightarrow> lk_mtime d);
            (t, s1) = ask (dl_clock H) s
        in if t - created_at \<le> dl_stale_after H then s1
           else let (tombstone, s2) = ask (dl_uuid H) s1;
                    (ok, s3) = ask (dl_rename_ok H) s2
                in if ok then s3\<lparr>lw_lock := None\<rparr> else s3)"

definition make_lock :: "('w, 'z) lock_host_scheme \<Rightarrow> 'w lock_world \<Rightarrow> 'w lock_world" where
  "make_lock H s = (let (m, s1) = ask (dl_mtime H) s; (t, s2) = ask (dl_clock H) s1
     in s2\<lparr>lw_lock := Some \<lparr>lk_created_at = Some t, lk_mtime = m\<rparr>\<rparr>)"

definition try_lock ::
  "('w, 'z) lock_host_scheme \<Rightarrow> 'w lock_world \<Rightarrow> ((py_exc option + py_exc option) \<times> 'w lock_world) option"
where
  "try_lock H s =
     (let s1 = (if lw_lock s \<noteq> None then reclaim_if_stale H s else s)
      in if lw_lock s1 = None then Some (Inl None, make_lock H s1)
         else Some (Inr (Some (PyExc ''TimeoutError'' ''resource lease registry lock timed out'')), s1))"

definition lock_enter ::
  "('w, 'z) lock_host_scheme \<Rightarrow> rat \<Rightarrow> 'w lock_world \<Rightarrow> (py_exc option \<times> 'w lock_world) option" where
  "lock_enter H deadline s = poll_loop H deadline (try_lock H) s"

definition lock_exit :: "'w lock_world \<Rightarrow> 'w lock_world" where
  "lock_exit s = s\<lparr>lw_lock := None\<rparr>"

text \<open>\<open>with DirectoryLock(...): body\<close>.\<close>

definition with_lock ::
  "('w, 'z) lock_host_scheme \<Rightarrow> rat \<Rightarrow> ('w lock_world \<Rightarrow> (py_exc + 'a) \<times> 'w lock_world)
   \<Rightarrow> 'w lock_world \<Rightarrow> ((py_exc + 'a) \<times> 'w lock_world) option"
where
  "with_lock H deadline body s = (case lock_enter H deadline s of
      None \<Rightarrow> None
    | Some (Some e, s1) \<Rightarrow> Some (Inl e, s1)
    | Some (None, s1) \<Rightarrow> let (x, s2) = body s1 in Some (x, lock_exit s2))"

section \<open>The waiting loop ends\<close>

text \<open>What the waiting relies on of \<open>time.time\<close> and \<open>time.sleep\<close>: readings lie between the times before
  and after them, and sleeping takes at least as long as asked.\<close>

definition clock_law :: "('w, 'z) lock_host_scheme \<Rightarrow> ('w \<Rightarrow> rat) \<Rightarrow> bool" where
  "clock_law H now \<longleftrightarrow>
     (\<forall>w. now w \<le> fst (dl_clock H w) \<and> fst (dl_clock H w) \<le> now (snd (dl_clock H w))) \<and>
     (\<forall>w. now w \<le> now (snd (dl_mtime H w)) \<and> now w \<le> now (snd (dl_uuid H w)) \<and>
        now w \<le> now (snd (dl_rename_ok H w))) \<and>
     (\<forall>d s. 0 \<le> d \<longrightarrow> now (lw_world s) + d \<le> now (lw_world (dl_sleep H d s)))"

lemma fst_ask [simp]: "fst (ask f s) = fst (f (lw_world s))"
  by (simp add: ask_def split: prod.split)

lemma snd_ask [simp]: "snd (ask f s) = s\<lparr>lw_world := snd (f (lw_world s))\<rparr>"
  by (simp add: ask_def split: prod.split)

lemma ask_eq: "ask f s = (fst (f (lw_world s)), s\<lparr>lw_world := snd (f (lw_world s))\<rparr>)"
  by (simp add: prod_eq_iff)

lemma poll_loop_returns:
  fixes H :: "('w, 'z) lock_host_scheme"
  assumes law: "clock_law H now" and poll: "0 < dl_poll H"
    and attempt: "\<And>s. \<exists>x s1. attempt s = Some (x, s1) \<and> now (lw_world s) \<le> now (lw_world s1)"
  shows "\<exists>x s'. poll_loop H deadline attempt s = Some (x, s') \<and> now (lw_world s) \<le> now (lw_world s')"
proof -
  have clock: "now w \<le> fst (dl_clock H w)" "fst (dl_clock H w) \<le> now (snd (dl_clock H w))" for w
    using law by (simp_all add: clock_law_def)
  have sleep: "0 \<le> d \<Longrightarrow> now (lw_world s) + d \<le> now (lw_world (dl_sleep H d s))" for d s
    using law by (simp add: clock_law_def)
  have "deadline - now (lw_world s) \<le> of_nat n * dl_poll H \<Longrightarrow> ?thesis" for n
  proof (induction n arbitrary: s)
    case 0
    obtain x s1 where a: "attempt s = Some (x, s1)" "now (lw_world s) \<le> now (lw_world s1)" using attempt by blast
    have "deadline \<le> fst (dl_clock H (lw_world s1))" using 0 a(2) clock(1) [of "lw_world s1"] by simp
    with a clock [of "lw_world s1"] show ?case
      by (cases x) (force simp: poll_loop.simps [of H deadline attempt s] ask_eq)+
  next
    case (Suc n)
    obtain x s1 where a: "attempt s = Some (x, s1)" "now (lw_world s) \<le> now (lw_world s1)" using attempt by blast
    define w1 where "w1 = lw_world s1"
    define w2 where "w2 = snd (dl_clock H w1)"
    define d where "d = min (dl_poll H) (max 0 (deadline - fst (dl_clock H w2)))"
    define s3 where "s3 = dl_sleep H d (s1\<lparr>lw_world := snd (dl_clock H w2)\<rparr>)"
    have le2: "now w1 \<le> now w2" using clock [of w1] by (simp add: w2_def)
    have "0 \<le> d" using poll by (simp add: d_def)
    then have le3: "now (snd (dl_clock H w2)) + d \<le> now (lw_world s3)"
      using sleep [of d "s1\<lparr>lw_world := snd (dl_clock H w2)\<rparr>"] by (simp add: s3_def)
    have "now w2 \<le> now (lw_world s3)" using clock [of w2] le3 \<open>0 \<le> d\<close> by linarith
    then have up: "now (lw_world s) \<le> now (lw_world s3)" using a(2) le2 by (simp add: w1_def)
    have "deadline \<le> now (lw_world s3) \<or> now (lw_world s) + dl_poll H \<le> now (lw_world s3)"
      using le3 clock [of w2] le2 a(2) by (auto simp: d_def w1_def min_def max_def split: if_splits)
    moreover have "0 \<le> of_nat n * dl_poll H" using poll by simp
    ultimately have "deadline - now (lw_world s3) \<le> of_nat n * dl_poll H"
      using Suc.prems by (auto simp: algebra_simps)
    from Suc.IH [OF this] up have rec: "\<exists>x s'. poll_loop H deadline attempt s3 = Some (x, s') \<and>
        now (lw_world s) \<le> now (lw_world s')" by force
    have now2: "now (lw_world s) \<le> now w2" using a(2) le2 by (simp add: w1_def)
    show ?case
    proof (cases x)
      case (Inl y)
      with a show ?thesis by (simp add: poll_loop.simps [of H deadline attempt s])
    next
      case (Inr y)
      show ?thesis
      proof (cases "deadline \<le> fst (dl_clock H w1)")
        case True
        with a Inr now2 show ?thesis by (simp add: poll_loop.simps [of H deadline attempt s] ask_eq w1_def w2_def)
      next
        case False
        with a Inr have "poll_loop H deadline attempt s = poll_loop H deadline attempt s3"
          by (simp add: poll_loop.simps [of H deadline attempt s] ask_eq w1_def w2_def s3_def d_def)
        with rec show ?thesis by simp
      qed
    qed
  qed
  moreover obtain n :: nat where "(deadline - now (lw_world s)) / dl_poll H \<le> of_nat n"
    using real_arch_simple by blast
  ultimately show ?thesis using poll by (simp add: divide_le_eq)
qed

lemma lock_enter_returns:
  fixes H :: "('w, 'z) lock_host_scheme"
  assumes law: "clock_law H now" and "0 < dl_poll H"
  shows "\<exists>x s'. lock_enter H deadline s = Some (x, s') \<and> now (lw_world s) \<le> now (lw_world s')"
  unfolding lock_enter_def
proof (rule poll_loop_returns [OF assms])
  fix s :: "'w lock_world"
  have step: "now w \<le> now (snd (dl_clock H w))" "now w \<le> now (snd (dl_mtime H w))"
    "now w \<le> now (snd (dl_uuid H w))" "now w \<le> now (snd (dl_rename_ok H w))" for w
    using law order_trans unfolding clock_law_def by blast+
  have "now (lw_world s) \<le> now (lw_world (reclaim_if_stale H s))" for s
    using step [of "lw_world s"] step [of "snd (dl_clock H (lw_world s))"]
      step [of "snd (dl_uuid H (snd (dl_clock H (lw_world s))))"]
    by (auto simp: reclaim_if_stale_def ask_eq Let_def split: option.split)
  moreover have "now (lw_world s) \<le> now (lw_world (make_lock H s))" for s
    using step [of "lw_world s"] step [of "snd (dl_mtime H (lw_world s))"]
    by (auto simp: make_lock_def ask_eq Let_def)
  ultimately show "\<exists>x s1. try_lock H s = Some (x, s1) \<and> now (lw_world s) \<le> now (lw_world s1)"
    by (auto simp: try_lock_def Let_def intro: order_trans)
qed

lemma with_lock_returns:
  assumes "clock_law H now" "0 < dl_poll H" "\<And>s. now (lw_world s) \<le> now (lw_world (snd (body s)))"
  shows "\<exists>x s'. with_lock H deadline body s = Some (x, s') \<and> now (lw_world s) \<le> now (lw_world s')"
proof -
  obtain x s1 where "lock_enter H deadline s = Some (x, s1)" "now (lw_world s) \<le> now (lw_world s1)"
    using lock_enter_returns [OF assms(1,2)] by blast
  with assms(3) [of s1] show ?thesis
    by (cases x) (auto simp: with_lock_def lock_exit_def split: prod.split)
qed

section \<open>The protocol between processes\<close>

text \<open>
  One file-system call of one process per step. \<open>Looking\<close>: about to test \<open>path.exists()\<close>;
  \<open>Renaming\<close>: has found the directory stale; \<open>Making\<close>: about to call \<open>mkdir\<close>; \<open>Stamping\<close>: has made
  the directory and not yet written \<open>created_at\<close>; \<open>Holding\<close>: in the body of the \<open>with\<close>. The directory
  carries its maker, which no process sees, and the time in it.
\<close>

datatype lock_pc = Outside | Looking | Renaming | Making | Stamping | Holding | Dead

datatype lock_event =
    Tick rat
  | Enter nat
  | Look nat
  | Rename nat
  | Make nat
  | Stamp nat
  | Leave nat
  | Give_Up nat
  | Crash nat

record lock_sys =
  sy_time :: rat
  sy_dir :: "(nat \<times> rat) option"
  sy_pc :: "nat \<Rightarrow> lock_pc"

definition lock_start :: lock_sys where
  "lock_start = \<lparr>sy_time = 0, sy_dir = None, sy_pc = (\<lambda>i. Outside)\<rparr>"

definition go :: "nat \<Rightarrow> lock_pc \<Rightarrow> lock_sys \<Rightarrow> lock_sys" where
  "go i pc s = s\<lparr>sy_pc := (sy_pc s)(i := pc)\<rparr>"

fun lock_trans :: "rat \<Rightarrow> lock_event \<Rightarrow> lock_sys \<Rightarrow> lock_sys option" where
  "lock_trans T (Tick d) s = (if 0 \<le> d then Some (s\<lparr>sy_time := sy_time s + d\<rparr>) else None)"
| "lock_trans T (Enter i) s = (if sy_pc s i = Outside then Some (go i Looking s) else None)"
| "lock_trans T (Look i) s = (if sy_pc s i = Looking then Some (go i (case sy_dir s of
      Some (m, t) \<Rightarrow> if sy_time s - t \<le> T then Making else Renaming
    | None \<Rightarrow> Making) s) else None)"
| "lock_trans T (Rename i) s = (if sy_pc s i = Renaming then Some (go i Making (s\<lparr>sy_dir := None\<rparr>)) else None)"
| "lock_trans T (Make i) s = (if sy_pc s i = Making then Some (case sy_dir s of
      None \<Rightarrow> go i Stamping (s\<lparr>sy_dir := Some (i, sy_time s)\<rparr>)
    | Some _ \<Rightarrow> go i Looking s) else None)"
| "lock_trans T (Stamp i) s = (if sy_pc s i = Stamping then Some (case sy_dir s of
      None \<Rightarrow> go i Outside s
    | Some (m, t) \<Rightarrow> go i Holding (s\<lparr>sy_dir := Some (m, sy_time s)\<rparr>)) else None)"
| "lock_trans T (Leave i) s = (if sy_pc s i = Holding then Some (go i Outside (s\<lparr>sy_dir := None\<rparr>)) else None)"
| "lock_trans T (Give_Up i) s = (if sy_pc s i = Looking then Some (go i Outside s) else None)"
| "lock_trans T (Crash i) s = Some (go i Dead s)"

text \<open>A rename is clean when the maker of the directory it moves away is not using it.\<close>

definition inside :: "lock_sys \<Rightarrow> nat \<Rightarrow> bool" where
  "inside s i \<longleftrightarrow> sy_pc s i \<in> {Stamping, Holding}"

definition clean :: "lock_event \<Rightarrow> lock_sys \<Rightarrow> bool" where
  "clean e s \<longleftrightarrow> (case e of Rename i \<Rightarrow> (case sy_dir s of Some (m, t) \<Rightarrow> \<not> inside s m | None \<Rightarrow> True) | _ \<Rightarrow> True)"

inductive lock_run :: "rat \<Rightarrow> bool \<Rightarrow> lock_sys \<Rightarrow> bool" for T always_clean where
  started: "lock_run T always_clean lock_start"
| stepped: "lock_run T always_clean s \<Longrightarrow> lock_trans T e s = Some s' \<Longrightarrow> (always_clean \<Longrightarrow> clean e s)
    \<Longrightarrow> lock_run T always_clean s'"

definition lock_inv :: "lock_sys \<Rightarrow> bool" where
  "lock_inv s \<longleftrightarrow> (\<forall>i. inside s i \<longrightarrow> (\<exists>t. sy_dir s = Some (i, t)))"

lemma lock_trans_inv:
  assumes "lock_inv s" "lock_trans T e s = Some s'" "clean e s"
  shows "lock_inv s'"
proof -
  from assms(1) have own: "inside s i \<Longrightarrow> \<exists>t. sy_dir s = Some (i, t)" for i by (simp add: lock_inv_def)
  have "\<exists>t. sy_dir s' = Some (i, t)" if i: "inside s' i" for i
  proof (cases e)
    case (Rename j)
    with assms(2,3) i own [of i] show ?thesis
      by (cases "sy_dir s") (auto simp: inside_def go_def clean_def split: if_splits)
  next
    case (Make j)
    with assms(2) i own [of i] show ?thesis
      by (cases "sy_dir s") (auto simp: inside_def go_def split: if_splits)
  next
    case (Stamp j)
    with assms(2) i own [of i] own [of j] show ?thesis
      by (cases "sy_dir s") (auto simp: inside_def go_def split: if_splits)
  next
    case (Leave j)
    with assms(2) i own [of i] own [of j] show ?thesis
      by (auto simp: inside_def go_def split: if_splits)
  next
    case (Look j)
    with assms(2) i own [of i] show ?thesis
      by (auto simp: inside_def go_def split: if_splits option.splits prod.splits)
  qed (use assms(2) i own [of i] in \<open>auto simp: inside_def go_def split: if_splits\<close>)
  then show ?thesis by (simp add: lock_inv_def)
qed

lemma lock_run_inv: "lock_run T True s \<Longrightarrow> lock_inv s"
proof (induction rule: lock_run.induct)
  case started
  then show ?case by (simp add: lock_inv_def inside_def lock_start_def)
next
  case (stepped s e s')
  then show ?case using lock_trans_inv by blast
qed

text \<open>Executing a list of events.\<close>

fun lock_steps :: "rat \<Rightarrow> lock_event list \<Rightarrow> lock_sys \<Rightarrow> lock_sys option" where
  "lock_steps T [] s = Some s"
| "lock_steps T (e # es) s = Option.bind (lock_trans T e s) (lock_steps T es)"

lemma lock_steps_run: "lock_run T False s \<Longrightarrow> lock_steps T es s = Some s' \<Longrightarrow> lock_run T False s'"
proof (induction es arbitrary: s)
  case (Cons e es)
  then obtain s1 where "lock_trans T e s = Some s1" "lock_steps T es s1 = Some s'"
    by (auto simp: bind_eq_Some_conv)
  with Cons show ?case using lock_run.stepped [of T False s e s1] by simp
qed simp

end
