(* ===== verification/Lease_Manager.thy ===== *)
theory Lease_Manager
  imports Lease_Registry Directory_Lock "HOL-Library.Sublist"
begin

text \<open>
  The cross-process lease manager (\<open>loop_engine/adapters/resource_leases.py\<close>). Each operation takes the
  lock directory, loads the registry, changes it and saves it; the changes are one definition per
  operation (the body of the \<open>with\<close>), on the files of the world. The main facts: what each body
  does to the registry is one of four legal changes, and over any sequence of operations of any
  managers no two registered leases conflict and fencing tokens only grow.
\<close>

section \<open>Policy and manager\<close>

record lease_policy =
  lp_acquire_timeout :: rat
  lp_poll_interval :: rat
  lp_stale_lock :: rat
  lp_lease_ttl :: rat
  lp_heartbeat_interval :: rat

definition mk_lease_policy :: "rat \<Rightarrow> rat \<Rightarrow> rat \<Rightarrow> rat \<Rightarrow> rat \<Rightarrow> py_exc + lease_policy" where
  "mk_lease_policy timeout poll stale ttl heartbeat =
     (if timeout \<le> 0 \<or> poll \<le> 0 \<or> stale \<le> 0 \<or> ttl \<le> 0 \<or> heartbeat \<le> 0
        then Inl (ValueError ''resource lease policy bounds must be positive'')
      else if heartbeat \<ge> ttl
        then Inl (ValueError ''resource lease heartbeat interval must be less than TTL'')
      else Inr \<lparr>lp_acquire_timeout = timeout, lp_poll_interval = poll, lp_stale_lock = stale,
        lp_lease_ttl = ttl, lp_heartbeat_interval = heartbeat\<rparr>)"

text \<open>The manager is a process: the lock's host with the registry's place and codec, the policy, the
  process and how it looks up identities. The lock takes its bounds from the policy.\<close>

record 'w lease_host = "'w lock_host" +
  lh_codec :: json_codec
  lh_path :: string
  lh_policy :: lease_policy
  lh_pid :: int
  lh_identity :: string
  lh_lookup :: "int \<Rightarrow> 'w \<Rightarrow> string option \<times> 'w"

definition open_manager ::
  "'w lock_host \<Rightarrow> json_codec \<Rightarrow> string \<Rightarrow> lease_policy option \<Rightarrow> int
   \<Rightarrow> (int \<Rightarrow> 'w \<Rightarrow> string option \<times> 'w) \<Rightarrow> 'w \<Rightarrow> (py_exc + 'w lease_host) \<times> 'w"
where
  "open_manager L J path policy pid lookup w =
     (let p = (case policy of Some p \<Rightarrow> p | None \<Rightarrow> \<lparr>lp_acquire_timeout = 1, lp_poll_interval = 1/50,
                 lp_stale_lock = 30, lp_lease_ttl = 30, lp_heartbeat_interval = 5\<rparr>);
          (found, w1) = lookup pid w
      in (if str_truthy found
          then Inr \<lparr>dl_clock = dl_clock L, dl_mtime = dl_mtime L, dl_uuid = dl_uuid L,
                 dl_rename_ok = dl_rename_ok L, dl_sleep = dl_sleep L, dl_stale_after = lp_stale_lock p,
                 dl_poll = lp_poll_interval p, lh_codec = J, lh_path = path, lh_policy = p,
                 lh_pid = pid, lh_identity = the found, lh_lookup = lookup\<rparr>
          else Inl (RuntimeError ''resource lease owner identity is unavailable''), w1))"

section \<open>Claims, conflicts and fencing tokens\<close>

definition normalize_lease_claims :: "resource_claim list \<Rightarrow> resource_claim list" where
  "normalize_lease_claims cs = strongest_claims cs"

definition occupy :: "resource_claim \<Rightarrow> (string \<times> string set) list \<Rightarrow> (string \<times> string set) list" where
  "occupy c d = dset (rc_resource c) (insert (rc_mode c) (dget_or {} d (rc_resource c))) d"

definition conflicting_resources :: "resource_claim list \<Rightarrow> lease_record list \<Rightarrow> string list" where
  "conflicting_resources requested records =
     (let occupied = fold occupy (concat (map lx_claims records)) [] in
      map rc_resource (filter (\<lambda>c. case dget occupied (rc_resource c) of
          None \<Rightarrow> False
        | Some modes \<Rightarrow> is_write c \<or> ''write'' \<in> modes) requested))"

definition take_token ::
  "resource_claim \<Rightarrow> (string \<times> int) list \<times> (string \<times> int) list \<Rightarrow> (string \<times> int) list \<times> (string \<times> int) list"
where
  "take_token c tc =
     (if is_write c then
        let token = dget_or 0 (snd tc) (rc_resource c) + 1
        in (dset (rc_resource c) token (fst tc), dset (rc_resource c) token (snd tc))
      else tc)"

definition next_fencing_tokens ::
  "resource_claim list \<Rightarrow> (string \<times> int) list \<Rightarrow> (string \<times> int) list \<times> (string \<times> int) list" where
  "next_fencing_tokens claims counters = fold take_token claims ([], counters)"

section \<open>Operations on the registry\<close>

definition host_load :: "'w lease_host \<Rightarrow> 'w lock_world \<Rightarrow> py_exc + lease_registry" where
  "host_load H s = load_registry (lh_codec H) (lh_path H) (lw_files s)"

definition host_save ::
  "'w lease_host \<Rightarrow> lease_record list \<Rightarrow> (string \<times> int) list \<Rightarrow> 'w lock_world \<Rightarrow> 'w lock_world" where
  "host_save H records counters s = s\<lparr>lw_files := save_registry (lh_codec H) (lh_path H)
     \<lparr>rg_records = records, rg_counters = counters\<rparr> (lw_files s)\<rparr>"

fun keep_live :: "'w lease_host \<Rightarrow> rat \<Rightarrow> lease_record list \<Rightarrow> 'w lock_world \<Rightarrow> lease_record list \<times> 'w lock_world" where
  "keep_live H now [] s = ([], s)"
| "keep_live H now (x # xs) s =
     (if lx_expires_at x > now then
        let (found, s1) = ask (lh_lookup H (lx_owner_pid x)) s;
            (rest, s2) = keep_live H now xs s1
        in (if found = Some (lx_process_identity x) then x # rest else rest, s2)
      else keep_live H now xs s)"

definition live_records :: "'w lease_host \<Rightarrow> lease_record list \<Rightarrow> 'w lock_world \<Rightarrow> lease_record list \<times> 'w lock_world" where
  "live_records H records s = (let (now, s1) = ask (dl_clock H) s in keep_live H now records s1)"

definition owned_record ::
  "'w lease_host \<Rightarrow> lease_record list \<Rightarrow> resource_lease \<Rightarrow> rat option \<Rightarrow> py_exc + lease_record" where
  "owned_record H records lease live_at =
     (case find (\<lambda>x. lx_lease_id x = rl_lease_id lease) records of
        None \<Rightarrow> Inl (PyExc ''KeyError'' (repr_str (''resource lease no longer exists: '' @ rl_lease_id lease)))
      | Some x \<Rightarrow>
          if lx_owner_id x \<noteq> rl_owner_id lease \<or> lx_owner_pid x \<noteq> lh_pid H \<or>
             lx_process_identity x \<noteq> lh_identity H \<or> lx_claims x \<noteq> rl_claims lease \<or>
             set (lx_tokens x) \<noteq> set (rl_fencing_tokens lease)
            then Inl (ValueError ''resource lease is not owned by this manager'')
          else if (case live_at of Some t \<Rightarrow> lx_expires_at x \<le> t | None \<Rightarrow> False)
            then Inl (RuntimeError ''resource lease already expired'')
          else Inr x)"

definition acquire_body ::
  "'w lease_host \<Rightarrow> string \<Rightarrow> resource_claim list \<Rightarrow> 'w lock_world \<Rightarrow> (py_exc + lease_attempt) \<times> 'w lock_world"
where
  "acquire_body H owner claims s = (case host_load H s of
      Inl e \<Rightarrow> (Inl e, s)
    | Inr registry \<Rightarrow>
        let (live, s1) = live_records H (rg_records registry) s;
            conflicts = conflicting_resources claims live
        in if conflicts = [] then
             let (tokens, counters) = next_fencing_tokens claims (rg_counters registry);
                 (lease_id, s2) = ask (dl_uuid H) s1;
                 (t, s3) = ask (dl_clock H) s2
             in (case mk_resource_lease lease_id owner claims (t + lp_lease_ttl (lh_policy H))
                        (map (\<lambda>(k, i). (k, PInt i)) tokens) of
                  Inl e \<Rightarrow> (Inl e, s3)
                | Inr lease \<Rightarrow>
                    let (acquired_at, s4) = ask (dl_clock H) s3;
                        (heartbeat_at, s5) = ask (dl_clock H) s4;
                        x = \<lparr>lx_lease_id = rl_lease_id lease, lx_owner_id = owner, lx_owner_pid = lh_pid H,
                          lx_process_identity = lh_identity H, lx_claims = claims,
                          lx_acquired_at = acquired_at, lx_heartbeat_at = heartbeat_at,
                          lx_expires_at = rl_expires_at lease, lx_tokens = tokens\<rparr>
                    in (Inr \<lparr>la_lease = Some lease, la_conflicting = []\<rparr>,
                        host_save H (live @ [x]) counters s5))
           else
             (Inr \<lparr>la_lease = None, la_conflicting = conflicts\<rparr>,
              if live \<noteq> rg_records registry then host_save H live (rg_counters registry) s1 else s1))"

definition renew_body ::
  "'w lease_host \<Rightarrow> resource_lease \<Rightarrow> 'w lock_world \<Rightarrow> (py_exc + resource_lease) \<times> 'w lock_world" where
  "renew_body H lease s = (case host_load H s of
      Inl e \<Rightarrow> (Inl e, s)
    | Inr registry \<Rightarrow>
        let (now, s1) = ask (dl_clock H) s in
        (case owned_record H (rg_records registry) lease (Some now) of
          Inl e \<Rightarrow> (Inl e, s1)
        | Inr match \<Rightarrow>
            (case mk_resource_lease (rl_lease_id lease) (rl_owner_id lease) (rl_claims lease)
                   (now + lp_lease_ttl (lh_policy H)) (map (\<lambda>(k, i). (k, PInt i)) (rl_fencing_tokens lease)) of
              Inl e \<Rightarrow> (Inl e, s1)
            | Inr renewed \<Rightarrow> (Inr renewed, host_save H
                (map (\<lambda>x. if lx_lease_id x = lx_lease_id match
                   then x\<lparr>lx_heartbeat_at := now, lx_expires_at := rl_expires_at renewed\<rparr> else x)
                   (rg_records registry)) (rg_counters registry) s1))))"

definition release_body :: "'w lease_host \<Rightarrow> resource_lease \<Rightarrow> 'w lock_world \<Rightarrow> (py_exc + unit) \<times> 'w lock_world" where
  "release_body H lease s = (case host_load H s of
      Inl e \<Rightarrow> (Inl e, s)
    | Inr registry \<Rightarrow> (case owned_record H (rg_records registry) lease None of
          Inl e \<Rightarrow> (if exc_type e = ''KeyError'' then (Inr (), s) else (Inl e, s))
        | Inr match \<Rightarrow> (Inr (), host_save H
            (filter (\<lambda>x. lx_lease_id x \<noteq> rl_lease_id lease) (rg_records registry))
            (rg_counters registry) s)))"

section \<open>The manager\<close>

definition acquire_pass ::
  "'w lease_host \<Rightarrow> string \<Rightarrow> resource_claim list \<Rightarrow> rat \<Rightarrow> 'w lock_world
   \<Rightarrow> (((py_exc + lease_attempt) + (py_exc + lease_attempt)) \<times> 'w lock_world) option"
where
  "acquire_pass H owner claims deadline s =
     map_option (\<lambda>(out, s1). (case out of
          Inl e \<Rightarrow> Inl (Inl e)
        | Inr attempt \<Rightarrow> if la_lease attempt = None then Inr (Inr attempt) else Inl (Inr attempt), s1))
       (with_lock H deadline (acquire_body H owner claims) s)"

definition file_acquire ::
  "'w lease_host \<Rightarrow> string \<Rightarrow> resource_claim list \<Rightarrow> 'w lock_world
   \<Rightarrow> ((py_exc + lease_attempt) \<times> 'w lock_world) option"
where
  "file_acquire H owner_id claims s =
     (let owner = strip owner_id; normalized = normalize_lease_claims claims in
      if owner = [] then Some (Inl (ValueError ''resource lease owner_id is required''), s)
      else
        let (now, s1) = ask (dl_clock H) s in
        if normalized = [] then
          let (lease_id, s2) = ask (dl_uuid H) s1
          in Some (map_sum (\<lambda>e. e) (\<lambda>lease. \<lparr>la_lease = Some lease, la_conflicting = []\<rparr>)
               (mk_resource_lease lease_id owner [] (now + lp_lease_ttl (lh_policy H)) []), s2)
        else
          let deadline = now + lp_acquire_timeout (lh_policy H)
          in poll_loop H deadline (acquire_pass H owner normalized deadline) s1)"

definition file_renew ::
  "'w lease_host \<Rightarrow> resource_lease \<Rightarrow> 'w lock_world \<Rightarrow> ((py_exc + resource_lease) \<times> 'w lock_world) option" where
  "file_renew H lease s =
     (let (now, s1) = ask (dl_clock H) s
      in with_lock H (now + lp_acquire_timeout (lh_policy H)) (renew_body H lease) s1)"

definition file_release ::
  "'w lease_host \<Rightarrow> resource_lease \<Rightarrow> 'w lock_world \<Rightarrow> ((py_exc + unit) \<times> 'w lock_world) option" where
  "file_release H lease s =
     (let (now, s1) = ask (dl_clock H) s
      in with_lock H (now + lp_acquire_timeout (lh_policy H)) (release_body H lease) s1)"

section \<open>Conflicts\<close>

lemma occupied:
  "dget (fold occupy cs []) k = (if \<exists>c\<in>set cs. rc_resource c = k
     then Some {rc_mode c | c. c \<in> set cs \<and> rc_resource c = k} else None)"
proof (induction cs arbitrary: k rule: rev_induct)
  case (snoc c cs)
  let ?D = "fold occupy cs []" and ?r = "rc_resource c"
  have "dget_or {} ?D ?r = {rc_mode d | d. d \<in> set cs \<and> rc_resource d = ?r}"
    using snoc.IH [of ?r] by (auto simp: dget_or_def dget_def [symmetric])
  moreover have "dget (fold occupy (cs @ [c]) []) k =
      (if k = ?r then Some (insert (rc_mode c) (dget_or {} ?D ?r)) else dget ?D k)"
    by (simp add: occupy_def)
  ultimately show ?case using snoc.IH [of k] by auto
qed simp

lemma conflicting_resources_Nil:
  "conflicting_resources requested records = [] \<longleftrightarrow>
     (\<forall>x\<in>set records. \<forall>d\<in>set (lx_claims x). \<forall>c\<in>set requested. \<not> conflicting c d)"
proof -
  let ?cs = "concat (map lx_claims records)"
  have hits: "(is_write c \<or> ''write'' \<in> {rc_mode d | d. d \<in> S \<and> rc_resource d = rc_resource c}) \<longleftrightarrow>
      (\<exists>d\<in>S. conflicting c d)" if "\<exists>d\<in>S. rc_resource d = rc_resource c" for S c
    unfolding conflicting_def is_write_def mem_Collect_eq using that by metis
  have "(case dget (fold occupy ?cs []) (rc_resource c) of None \<Rightarrow> False
      | Some modes \<Rightarrow> is_write c \<or> ''write'' \<in> modes) \<longleftrightarrow> (\<exists>d\<in>set ?cs. conflicting c d)" for c
  proof (cases "\<exists>d\<in>set ?cs. rc_resource d = rc_resource c")
    case False
    then have "dget (fold occupy ?cs []) (rc_resource c) = None" by (subst occupied) simp
    with False show ?thesis by (simp only: option.case) (metis conflicting_def)
  next
    case True
    then have "dget (fold occupy ?cs []) (rc_resource c) =
        Some {rc_mode d | d. d \<in> set ?cs \<and> rc_resource d = rc_resource c}" by (subst occupied) simp
    with True show ?thesis by (simp only: option.case hits)
  qed
  then show ?thesis
    by (auto simp: conflicting_resources_def Let_def filter_empty_conv)
qed

definition exclusive :: "lease_record list \<Rightarrow> bool" where
  "exclusive xs \<longleftrightarrow> (\<forall>x\<in>set xs. \<forall>y\<in>set xs. lx_lease_id x \<noteq> lx_lease_id y \<longrightarrow>
     (\<forall>c\<in>set (lx_claims x). \<forall>d\<in>set (lx_claims y). \<not> conflicting c d))"

lemma conflicting_sym: "conflicting c d = conflicting d c"
  by (auto simp: conflicting_def)

lemma exclusive_subset: "exclusive xs \<Longrightarrow> set ys \<subseteq> set xs \<Longrightarrow> exclusive ys"
  unfolding exclusive_def by blast

lemma exclusive_snoc:
  "exclusive xs \<Longrightarrow> conflicting_resources (lx_claims x) xs = [] \<Longrightarrow> exclusive (xs @ [x])"
  unfolding exclusive_def conflicting_resources_Nil using conflicting_sym by (auto; blast)

section \<open>Fencing tokens\<close>

lemma next_tokens:
  assumes "next_fencing_tokens claims counters = (ts, cs)"
  shows "wf_dict ts" "set (dkeys ts) = write_resources claims"
    "dget ts k = Some t \<Longrightarrow> dget_or 0 cs k = t \<and> dget_or 0 counters k < t"
    "dget_or 0 counters k \<le> dget_or 0 cs k"
    "wf_dict counters \<Longrightarrow> wf_dict cs"
    "set (dkeys cs) = set (dkeys counters) \<union> write_resources claims"
proof -
  have "wf_dict ts \<and> set (dkeys ts) = write_resources claims \<and>
    (\<forall>k t. dget ts k = Some t \<longrightarrow> dget_or 0 cs k = t \<and> dget_or 0 counters k < t) \<and>
    (\<forall>k. dget_or 0 counters k \<le> dget_or 0 cs k) \<and> (wf_dict counters \<longrightarrow> wf_dict cs) \<and>
    set (dkeys cs) = set (dkeys counters) \<union> write_resources claims"
    using assms unfolding next_fencing_tokens_def
  proof (induction claims arbitrary: ts cs rule: rev_induct)
    case Nil
    then show ?case by (auto simp: dkeys_def write_resources_def)
  next
    case (snoc c claims)
    obtain ts1 cs1 where 1: "fold take_token claims ([], counters) = (ts1, cs1)" by fastforce
    note IH = snoc.IH [OF 1]
    have res: "(ts, cs) = take_token c (ts1, cs1)" using snoc.prems 1 by simp
    show ?case
    proof (cases "is_write c")
      case False
      with res IH show ?thesis by (auto simp: take_token_def write_resources_def)
    next
      case True
      let ?r = "rc_resource c"
      define token where "token = dget_or 0 cs1 ?r + 1"
      have ts: "ts = dset ?r token ts1" and cs: "cs = dset ?r token cs1"
        using True res by (simp_all add: take_token_def token_def Let_def)
      have cs_at: "dget_or 0 cs k = (if k = ?r then token else dget_or 0 cs1 k)" for k
        using dget_dset [of ?r token cs1 k] by (simp add: cs dget_or_def dget_def)
      have up: "dget_or 0 counters k \<le> dget_or 0 cs1 k" for k using IH by blast
      have wr: "write_resources (claims @ [c]) = insert ?r (write_resources claims)"
        using True by (auto simp: write_resources_def)
      have "dget_or 0 counters k \<le> dget_or 0 cs k" for k using up [of k] up [of ?r] by (simp add: cs_at token_def)
      moreover have "dget_or 0 cs k = t \<and> dget_or 0 counters k < t" if "dget ts k = Some t" for k t
        using that IH up [of ?r] by (auto simp: ts cs_at token_def split: if_splits)
      moreover have "set (dkeys cs) = set (dkeys counters) \<union> write_resources (claims @ [c])"
        using IH by (auto simp: cs dkeys_dset wr)
      ultimately show ?thesis using IH by (auto simp: wr ts dkeys_dset cs)
    qed
  qed
  then show "wf_dict ts" "set (dkeys ts) = write_resources claims"
    "dget ts k = Some t \<Longrightarrow> dget_or 0 cs k = t \<and> dget_or 0 counters k < t"
    "dget_or 0 counters k \<le> dget_or 0 cs k"
    "wf_dict counters \<Longrightarrow> wf_dict cs"
    "set (dkeys cs) = set (dkeys counters) \<union> write_resources claims"
    by blast+
qed

section \<open>Legal changes of the registry\<close>

text \<open>
  The specification of the manager: a registry changes by dropping records, by granting one lease
  that conflicts with no remaining record and carries the next tokens, by moving the expiry of one
  record, or by removing one.
\<close>

definition granted :: "lease_attempt \<Rightarrow> resource_lease list" where
  "granted att = (case la_lease att of None \<Rightarrow> [] | Some lease \<Rightarrow> [lease])"

inductive registry_step :: "lease_registry \<Rightarrow> resource_lease list \<Rightarrow> lease_registry \<Rightarrow> bool" where
  dropped: "subseq live (rg_records r) \<Longrightarrow>
    registry_step r [] \<lparr>rg_records = live, rg_counters = rg_counters r\<rparr>"
| granted_one: "subseq live (rg_records r) \<Longrightarrow> conflicting_resources (lx_claims x) live = [] \<Longrightarrow>
    next_fencing_tokens (lx_claims x) (rg_counters r) = (lx_tokens x, counters) \<Longrightarrow>
    rl_lease_id lease = lx_lease_id x \<Longrightarrow> rl_fencing_tokens lease = lx_tokens x \<Longrightarrow>
    \<forall>c\<in>set (lx_claims x). claim_ok c \<Longrightarrow>
    registry_step r [lease] \<lparr>rg_records = live @ [x], rg_counters = counters\<rparr>"
| renewed: "x \<in> set (rg_records r) \<Longrightarrow>
    registry_step r [] \<lparr>rg_records = map (\<lambda>y. if lx_lease_id y = lx_lease_id x
        then y\<lparr>lx_heartbeat_at := h, lx_expires_at := e\<rparr> else y) (rg_records r),
      rg_counters = rg_counters r\<rparr>"

inductive_cases registry_stepE: "registry_step r ls r'"

definition lease_ids :: "lease_registry \<Rightarrow> string set" where
  "lease_ids r = lx_lease_id ` set (rg_records r)"

lemma subseq_set: "subseq xs ys \<Longrightarrow> set xs \<subseteq> set ys"
  by (induction rule: list_emb.induct) auto

lemma subseq_distinct_map: "subseq xs ys \<Longrightarrow> distinct (map f ys) \<Longrightarrow> distinct (map f xs)"
  by (induction rule: list_emb.induct) (use subseq_set in fastforce)+

lemma claim_ok_resource: "claim_ok c \<Longrightarrow> rc_resource c \<noteq> []"
  by (cases c) (auto simp: claim_ok_def mk_resource_claim_def Let_def split: if_splits)

lemma counters_grow_ok:
  assumes "counters_ok d" "wf_dict e" "\<And>k. dget_or 0 d k \<le> dget_or 0 e k"
    "set (dkeys e) \<subseteq> set (dkeys d) \<union> ks" "\<And>k. k \<in> ks \<Longrightarrow> k \<noteq> [] \<and> (k \<in> set (dkeys e) \<longrightarrow> k \<notin> set (dkeys d) \<longrightarrow> 0 < dget_or 0 e k)"
  shows "counters_ok e"
proof -
  have "k \<noteq> [] \<and> 0 < t" if "(k, t) \<in> set e" for k t
  proof -
    have e: "dget e k = Some t" using that dget_in [OF assms(2)] by blast
    then have et: "dget_or 0 e k = t" by (simp add: dget_or_def dget_def)
    show ?thesis
    proof (cases "k \<in> set (dkeys d)")
      case True
      then obtain s where "dget d k = Some s" using dkey_dget by blast
      then have "k \<noteq> [] \<and> 0 < s" "dget_or 0 d k = s"
        using assms(1) dget_in [of d k s] by (auto simp: counters_ok_def dget_or_def dget_def)
      with assms(3) [of k] et show ?thesis by auto
    next
      case False
      with assms(4) dget_Some_key [OF e] have "k \<in> ks" by blast
      with assms(5) [of k] dget_Some_key [OF e] False et show ?thesis by auto
    qed
  qed
  with assms(2) show ?thesis by (auto simp: counters_ok_def)
qed

lemma counters_nonneg: "counters_ok d \<Longrightarrow> 0 \<le> dget_or 0 d k"
proof (cases "dget d k")
  case (Some t)
  assume "counters_ok d"
  with Some dget_in [of d k t] show ?thesis by (auto simp: counters_ok_def dget_or_def dget_def)
qed (simp add: dget_or_def dget_def)

lemma tokens_ok_mono:
  "tokens_ok d x \<Longrightarrow> (\<And>k. dget_or 0 d k \<le> dget_or 0 e k) \<Longrightarrow> tokens_ok e x"
  unfolding tokens_ok_def by (fastforce intro: order_trans)

lemma grant_ok:
  assumes ok: "registry_ok r" and "subseq live (rg_records r)" "lx_lease_id x \<notin> lease_ids r"
    and toks: "next_fencing_tokens (lx_claims x) (rg_counters r) = (lx_tokens x, counters)"
    and claims: "\<forall>c\<in>set (lx_claims x). claim_ok c"
  shows "registry_ok \<lparr>rg_records = live @ [x], rg_counters = counters\<rparr>"
proof -
  note tok = next_tokens [OF toks]
  have wf: "wf_dict (rg_counters r)" using ok by (simp add: registry_ok_def counters_ok_def)
  have sub: "set live \<subseteq> set (rg_records r)" using assms(2) by (rule subseq_set)
  have token: "0 < t \<and> t \<le> dget_or 0 counters k" if "dget (lx_tokens x) k = Some t" for k t
    using tok(3) [OF that] counters_nonneg [of "rg_counters r" k] ok by (simp add: registry_ok_def)
  have "counters_ok counters"
  proof (rule counters_grow_ok [OF _ tok(5) [OF wf] tok(4) equalityD1 [OF tok(6)]])
    show "counters_ok (rg_counters r)" using ok by (simp add: registry_ok_def)
    fix k assume "k \<in> write_resources (lx_claims x)"
    then have "k \<noteq> []" "k \<in> set (dkeys (lx_tokens x))"
      using claims claim_ok_resource tok(2) by (auto simp: write_resources_def)
    moreover obtain t where "dget (lx_tokens x) k = Some t" using dkey_dget calculation(2) by blast
    ultimately show "k \<noteq> [] \<and> (k \<in> set (dkeys counters) \<longrightarrow> k \<notin> set (dkeys (rg_counters r)) \<longrightarrow> 0 < dget_or 0 counters k)"
      using token [of k t] by auto
  qed
  moreover have "tokens_ok counters x"
    using tok(1,2) token dget_in [OF tok(1)] by (auto simp: tokens_ok_def)
  moreover have "tokens_ok counters y" if "y \<in> set live" for y
    using ok that sub tokens_ok_mono [OF _ tok(4)] by (auto simp: registry_ok_def)
  moreover have "distinct (map lx_lease_id (live @ [x]))"
    using ok assms(3) sub subseq_distinct_map [OF assms(2), of lx_lease_id]
    by (auto simp: registry_ok_def lease_ids_def)
  ultimately show ?thesis using ok sub claims by (auto simp: registry_ok_def)
qed

definition registry_inv :: "lease_registry \<Rightarrow> bool" where
  "registry_inv r \<longleftrightarrow> registry_ok r \<and> exclusive (rg_records r)"

definition above :: "lease_registry \<Rightarrow> lease_registry \<Rightarrow> resource_lease \<Rightarrow> bool" where
  "above r r' lease \<longleftrightarrow> (\<forall>k t. dget (rl_fencing_tokens lease) k = Some t \<longrightarrow>
     dget_or 0 (rg_counters r) k < t \<and> t \<le> dget_or 0 (rg_counters r') k)"

lemma renewed_records:
  assumes "f = (\<lambda>y. if lx_lease_id y = lx_lease_id x then y\<lparr>lx_heartbeat_at := h, lx_expires_at := e\<rparr> else y)"
  shows "lx_lease_id (f (y :: lease_record)) = lx_lease_id y" "lx_claims (f y) = lx_claims y" "lx_tokens (f y) = lx_tokens y"
    "map lx_lease_id (map f ys) = map lx_lease_id ys"
  by (simp_all add: assms)

lemma registry_step_ok:
  assumes "registry_step r ls r'" "registry_ok r" "\<forall>l\<in>set ls. rl_lease_id l \<notin> lease_ids r"
  shows "registry_ok r'"
  using assms(1)
proof cases
  case (dropped live)
  then show ?thesis
    using assms(2) subseq_set [OF dropped(3)] subseq_distinct_map [OF dropped(3), of lx_lease_id]
    by (auto simp: registry_ok_def)
next
  case (granted_one live x counters lease)
  show ?thesis
    unfolding granted_one(2)
    by (rule grant_ok [OF assms(2) granted_one(3) _ granted_one(5,8)]) (use assms(3) granted_one in simp)
next
  case (renewed x e h)
  define f :: "lease_record \<Rightarrow> lease_record" where
    "f = (\<lambda>y. if lx_lease_id y = lx_lease_id x then y\<lparr>lx_heartbeat_at := h, lx_expires_at := e\<rparr> else y)"
  note same = renewed_records [OF f_def]
  have r': "r' = \<lparr>rg_records = map f (rg_records r), rg_counters = rg_counters r\<rparr>" using renewed by (simp add: f_def)
  show ?thesis
    unfolding registry_ok_def r' lease_registry.simps same(4) set_map
    using assms(2) by (simp add: registry_ok_def tokens_ok_def same(1,2,3))
qed

lemma registry_step_exclusive:
  assumes "registry_step r ls r'" "exclusive (rg_records r)"
  shows "exclusive (rg_records r')"
  using assms(1)
proof cases
  case (dropped live)
  then show ?thesis using assms(2) exclusive_subset subseq_set [OF dropped(3)] by simp
next
  case (granted_one live x counters lease)
  then show ?thesis using assms(2) exclusive_subset subseq_set [OF granted_one(3)] exclusive_snoc by simp
next
  case (renewed x e h)
  then show ?thesis using assms(2) by (auto simp: exclusive_def)
qed

lemma registry_step_inv:
  assumes "registry_step r ls r'" "registry_inv r" "\<forall>l\<in>set ls. rl_lease_id l \<notin> lease_ids r"
  shows "registry_inv r'" "lease_ids r' \<subseteq> lease_ids r \<union> rl_lease_id ` set ls"
    "dget_or 0 (rg_counters r) k \<le> dget_or 0 (rg_counters r') k" "\<forall>l\<in>set ls. above r r' l"
proof -
  show "registry_inv r'"
    using assms registry_step_ok registry_step_exclusive by (auto simp: registry_inv_def)
  have "lease_ids r' \<subseteq> lease_ids r \<union> rl_lease_id ` set ls \<and>
    (\<forall>k. dget_or 0 (rg_counters r) k \<le> dget_or 0 (rg_counters r') k) \<and> (\<forall>l\<in>set ls. above r r' l)"
    using assms(1)
  proof cases
    case (dropped live)
    then show ?thesis using subseq_set [OF dropped(3)] by (auto simp: lease_ids_def)
  next
    case (granted_one live x counters lease)
    then show ?thesis
      using subseq_set [OF granted_one(3)] next_tokens(3,4) [OF granted_one(5)] by (auto simp: lease_ids_def above_def)
  next
    case (renewed x e h)
    then show ?thesis by (auto simp: lease_ids_def)
  qed
  then show "lease_ids r' \<subseteq> lease_ids r \<union> rl_lease_id ` set ls"
    "dget_or 0 (rg_counters r) k \<le> dget_or 0 (rg_counters r') k" "\<forall>l\<in>set ls. above r r' l"
    by blast+
qed

lemma sorted_registry_inv:
  "registry_inv r \<Longrightarrow> registry_inv (sorted_registry r)" "lease_ids (sorted_registry r) = lease_ids r"
  "registry_ok r \<Longrightarrow> dget_or v (rg_counters (sorted_registry r)) k = dget_or v (rg_counters r) k"
proof -
  show "registry_inv r \<Longrightarrow> registry_inv (sorted_registry r)"
    by (simp add: registry_inv_def sorted_registry_ok) (simp add: exclusive_def sorted_registry_def)
qed (auto simp: sorted_registry_def lease_ids_def dget_or_sort registry_ok_def counters_ok_def)

section \<open>The operations make legal changes\<close>

lemma keep_live_subseq:
  "subseq (fst (keep_live H now xs s)) xs \<and> lw_files (snd (keep_live H now xs s)) = lw_files s"
proof (induction xs arbitrary: s)
  case (Cons x xs)
  then show ?case by (auto simp: ask_eq Let_def case_prod_unfold intro: list_emb_Cons)
qed simp

lemma live_records_subseq:
  assumes "live_records H xs s = (live, s1)"
  shows "subseq live xs" "lw_files s1 = lw_files s"
  using assms keep_live_subseq [of H "fst (dl_clock H (lw_world s))" xs
      "s\<lparr>lw_world := snd (dl_clock H (lw_world s))\<rparr>"]
  by (auto simp: live_records_def ask_eq Let_def)

definition stored :: "'w lease_host \<Rightarrow> 'w lock_world \<Rightarrow> lease_registry \<Rightarrow> lease_registry \<Rightarrow> 'w lock_world \<Rightarrow> bool" where
  "stored H s r r' s' \<longleftrightarrow> (r' = r \<and> lw_files s' = lw_files s) \<or>
     lw_files s' = save_registry (lh_codec H) (lh_path H) r' (lw_files s)"

definition record_of :: "'w lease_host \<Rightarrow> resource_lease \<Rightarrow> lease_record \<Rightarrow> bool" where
  "record_of H lease x \<longleftrightarrow> lx_lease_id x = rl_lease_id lease \<and> lx_owner_id x = rl_owner_id lease \<and>
     lx_owner_pid x = lh_pid H \<and> lx_process_identity x = lh_identity H \<and> lx_claims x = rl_claims lease \<and>
     lx_expires_at x = rl_expires_at lease \<and> lx_tokens x = rl_fencing_tokens lease"

lemma acquire_body_step:
  assumes "host_load H s = Inr r" "\<forall>c\<in>set claims. claim_ok c" "registry_ok r"
    "acquire_body H owner claims s = (out, s')"
  shows "\<exists>att r'. out = Inr att \<and> registry_step r (granted att) r' \<and> stored H s r r' s' \<and>
    (\<forall>lease. la_lease att = Some lease \<longrightarrow> rl_claims lease = claims \<and> rl_owner_id lease = owner \<and>
       (\<exists>x\<in>set (rg_records r'). record_of H lease x \<and>
          (\<forall>y\<in>set (rg_records r'). y \<noteq> x \<longrightarrow> (\<forall>c\<in>set claims. \<forall>d\<in>set (lx_claims y). \<not> conflicting c d))))"
proof -
  obtain live s1 where live: "live_records H (rg_records r) s = (live, s1)" by fastforce
  note sub = live_records_subseq [OF live]
  show ?thesis
  proof (cases "conflicting_resources claims live = []")
    case False
    let ?r' = "\<lparr>rg_records = live, rg_counters = rg_counters r\<rparr>"
    have out: "out = Inr \<lparr>la_lease = None, la_conflicting = conflicting_resources claims live\<rparr>"
      "s' = (if live \<noteq> rg_records r then host_save H live (rg_counters r) s1 else s1)"
      using assms(1,4) live False by (auto simp: acquire_body_def)
    have "stored H s r ?r' s'"
      using sub(2) by (auto simp: out(2) stored_def host_save_def)
    then show ?thesis using registry_step.dropped [OF sub(1)] out(1) by (auto simp: granted_def)
  next
    case True
    obtain tokens counters where tok: "next_fencing_tokens claims (rg_counters r) = (tokens, counters)" by fastforce
    note facts = next_tokens [OF tok]
    have pos: "\<forall>(k, t)\<in>set tokens. 0 < t"
    proof (intro ballI, clarify)
      fix k t assume "(k, t) \<in> set tokens"
      then have "dget tokens k = Some t" using dget_in [OF facts(1)] by blast
      moreover have "0 \<le> dget_or 0 (rg_counters r) k" using assms(3) counters_nonneg by (simp add: registry_ok_def)
      ultimately show "0 < t" using facts(3) by fastforce
    qed
    obtain i s2 where i: "ask (dl_uuid H) s1 = (i, s2)" by fastforce
    obtain t s3 where t: "ask (dl_clock H) s2 = (t, s3)" by fastforce
    obtain a s4 where a: "ask (dl_clock H) s3 = (a, s4)" by fastforce
    obtain b s5 where b: "ask (dl_clock H) s4 = (b, s5)" by fastforce
    have files: "lw_files s5 = lw_files s" using i t a b sub(2) by (auto simp: ask_eq)
    define lease where "lease = \<lparr>rl_lease_id = i, rl_owner_id = owner, rl_claims = claims,
      rl_expires_at = t + lp_lease_ttl (lh_policy H), rl_fencing_tokens = tokens\<rparr>"
    define x where "x = \<lparr>lx_lease_id = i, lx_owner_id = owner, lx_owner_pid = lh_pid H,
      lx_process_identity = lh_identity H, lx_claims = claims, lx_acquired_at = a, lx_heartbeat_at = b,
      lx_expires_at = t + lp_lease_ttl (lh_policy H), lx_tokens = tokens\<rparr>"
    let ?r' = "\<lparr>rg_records = live @ [x], rg_counters = counters\<rparr>"
    have out: "out = Inr \<lparr>la_lease = Some lease, la_conflicting = []\<rparr>"
      "s' = host_save H (live @ [x]) counters s5"
      using assms(1,4) live True tok i t a b tokens_lease [OF facts(2) pos]
      by (simp_all add: acquire_body_def lease_def x_def)
    have "registry_step r [lease] ?r'"
      by (rule registry_step.granted_one [OF sub(1)])
        (use True tok assms(2) in \<open>simp_all add: x_def lease_def\<close>)
    moreover have "stored H s r ?r' s'" using files by (simp add: out(2) stored_def host_save_def)
    moreover have "record_of H lease x" by (simp add: record_of_def lease_def x_def)
    moreover have "\<forall>y\<in>set live. \<forall>c\<in>set claims. \<forall>d\<in>set (lx_claims y). \<not> conflicting c d"
      using True by (simp add: conflicting_resources_Nil)
    moreover have "rl_claims lease = claims" "rl_owner_id lease = owner" by (simp_all add: lease_def)
    ultimately show ?thesis
      by (intro exI [of _ "\<lparr>la_lease = Some lease, la_conflicting = []\<rparr>"] exI [of _ ?r'])
        (auto simp: out(1) granted_def)
  qed
qed

lemma owned_record_found:
  "owned_record H xs lease live_at = Inr x \<Longrightarrow> x \<in> set xs \<and> lx_lease_id x = rl_lease_id lease \<and>
     lx_owner_id x = rl_owner_id lease \<and> lx_owner_pid x = lh_pid H \<and> lx_process_identity x = lh_identity H \<and>
     lx_claims x = rl_claims lease \<and> set (lx_tokens x) = set (rl_fencing_tokens lease) \<and>
     (\<forall>t. live_at = Some t \<longrightarrow> t < lx_expires_at x)"
  by (auto simp: owned_record_def find_Some_iff split: option.splits if_splits)

lemma renew_body_step:
  assumes "host_load H s = Inr r" "renew_body H lease s = (out, s')"
  shows "\<exists>r'. registry_step r [] r' \<and> stored H s r r' s' \<and> (\<forall>e. out = Inl e \<longrightarrow> lw_files s' = lw_files s)"
proof -
  obtain now s1 where now: "ask (dl_clock H) s = (now, s1)" by fastforce
  have files: "lw_files s1 = lw_files s" using now by (auto simp: ask_eq)
  have keep: "\<exists>r'. registry_step r [] r' \<and> stored H s r r' s1 \<and> (\<forall>e. out = Inl e \<longrightarrow> lw_files s1 = lw_files s)"
    using registry_step.dropped [of "rg_records r" r] files by (auto simp: stored_def)
  show ?thesis
  proof (cases "owned_record H (rg_records r) lease (Some now)")
    case (Inl e)
    with assms now keep show ?thesis by (auto simp: renew_body_def)
  next
    case (Inr x)
    show ?thesis
    proof (cases "mk_resource_lease (rl_lease_id lease) (rl_owner_id lease) (rl_claims lease)
        (now + lp_lease_ttl (lh_policy H)) (map (\<lambda>(k, i). (k, PInt i)) (rl_fencing_tokens lease))")
      case (Inl e)
      with assms now keep Inr show ?thesis by (auto simp: renew_body_def)
    next
      case (Inr renewed)
      let ?f = "\<lambda>y. if lx_lease_id y = lx_lease_id x
        then y\<lparr>lx_heartbeat_at := now, lx_expires_at := rl_expires_at renewed\<rparr> else y"
      let ?r' = "\<lparr>rg_records = map ?f (rg_records r), rg_counters = rg_counters r\<rparr>"
      have out: "out = Inr renewed" "s' = host_save H (map ?f (rg_records r)) (rg_counters r) s1"
        using assms now Inr \<open>owned_record H (rg_records r) lease (Some now) = Inr x\<close>
        by (simp_all add: renew_body_def)
      have "registry_step r [] ?r'"
        by (rule registry_step.renewed) (use owned_record_found [OF \<open>owned_record _ _ _ _ = Inr x\<close>] in simp)
      moreover have "stored H s r ?r' s'" using files by (simp add: out stored_def host_save_def)
      ultimately show ?thesis using out(1) by auto
    qed
  qed
qed

lemma release_body_step:
  assumes "host_load H s = Inr r" "release_body H lease s = (out, s')"
  shows "\<exists>r'. registry_step r [] r' \<and> stored H s r r' s'"
proof -
  have "r = \<lparr>rg_records = rg_records r, rg_counters = rg_counters r\<rparr>" by simp
  then have keep: "registry_step r [] r" by (metis registry_step.dropped subseq_order.order_refl)
  show ?thesis
  proof (cases "owned_record H (rg_records r) lease None")
    case (Inl e)
    with assms keep show ?thesis by (auto simp: release_body_def stored_def split: if_splits)
  next
    case (Inr x)
    let ?ys = "filter (\<lambda>x. lx_lease_id x \<noteq> rl_lease_id lease) (rg_records r)"
    have "s' = host_save H ?ys (rg_counters r) s" using assms Inr by (simp add: release_body_def)
    moreover have "registry_step r [] \<lparr>rg_records = ?ys, rg_counters = rg_counters r\<rparr>"
      by (rule registry_step.dropped) (rule subseq_filter_left)
    ultimately show ?thesis by (auto simp: stored_def host_save_def)
  qed
qed

section \<open>Interface: legal changes of a saved file\<close>

text \<open>
  A file whose content satisfies an invariant, and operations that change it legally: the file stays
  loadable with its invariant over every sequence of transactions, whoever makes them.
\<close>

locale transacted_file = saved_file load save ok norm
  for load :: "directory \<Rightarrow> py_exc + 'r" and save :: "'r \<Rightarrow> directory \<Rightarrow> directory"
    and ok :: "'r \<Rightarrow> bool" and norm :: "'r \<Rightarrow> 'r" +
  fixes inv :: "'r \<Rightarrow> bool"
    and legal :: "'r \<Rightarrow> 'r \<Rightarrow> bool"
  assumes inv_ok: "inv r \<Longrightarrow> ok r"
    and inv_norm: "inv r \<Longrightarrow> inv (norm r)"
    and legal_inv: "legal r r' \<Longrightarrow> inv r \<Longrightarrow> inv r'"
begin

lemma transact:
  "load d = Inr r \<Longrightarrow> inv r \<Longrightarrow> legal r r' \<Longrightarrow> load (save r' d) = Inr (norm r') \<and> inv (norm r')"
  using load_save inv_ok inv_norm legal_inv by blast

lemma transact_all:
  "inv r \<Longrightarrow> load d = Inr r \<Longrightarrow> \<forall>f\<in>set fs. \<forall>x. inv x \<longrightarrow> legal x (f x) \<Longrightarrow>
   \<exists>r' d'. load d' = Inr r' \<and> inv r' \<and> d' = fold (\<lambda>f d. case load d of Inl e \<Rightarrow> d | Inr x \<Rightarrow> save (f x) d) fs d"
proof (induction fs arbitrary: r d)
  case (Cons f fs)
  then have "load (save (f r) d) = Inr (norm (f r)) \<and> inv (norm (f r))" using transact by simp
  with Cons.IH [of "norm (f r)" "save (f r) d"] Cons.prems show ?case by simp
qed auto

end

text \<open>A registry without grants: the legal changes are the steps that issue no lease.\<close>

interpretation lease_tx: transacted_file "load_registry J path" "save_registry J path"
  "\<lambda>r. codec_ok J \<and> registry_ok r" sorted_registry "\<lambda>r. codec_ok J \<and> registry_inv r"
  "\<lambda>r r'. \<exists>ls. registry_step r ls r' \<and> (\<forall>l\<in>set ls. rl_lease_id l \<notin> lease_ids r)" for J path
proof (unfold_locales, goal_cases)
  case (1 r)
  then show ?case by (simp add: registry_inv_def)
next
  case (2 r)
  then show ?case by (simp add: sorted_registry_inv)
next
  case (3 r r')
  then show ?case using registry_step_inv(1) by blast
qed

section \<open>Runs of several managers\<close>

text \<open>
  \<open>lease_run J path ls s\<close>: from a world without a registry file, any managers on this file have made
  any operations, one at a time, and granted the leases \<open>ls\<close> in this order; between operations the
  rest of the world changes at will.
\<close>

definition new_leases :: "py_exc + lease_attempt \<Rightarrow> resource_lease list" where
  "new_leases out = (case out of Inl e \<Rightarrow> [] | Inr att \<Rightarrow> granted att)"

inductive lease_run :: "json_codec \<Rightarrow> string \<Rightarrow> resource_lease list \<Rightarrow> 'w lock_world \<Rightarrow> bool" for J path where
  start: "dget (lw_files s) path = None \<Longrightarrow> lease_run J path [] s"
| elsewhere: "lease_run J path ls s \<Longrightarrow> dget (lw_files s') path = dget (lw_files s) path \<Longrightarrow> lease_run J path ls s'"
| acquire: "lease_run J path ls s \<Longrightarrow> lh_codec H = J \<Longrightarrow> lh_path H = path \<Longrightarrow> \<forall>c\<in>set claims. claim_ok c \<Longrightarrow>
    acquire_body H owner (normalize_lease_claims claims) s = (out, s') \<Longrightarrow> lease_run J path (ls @ new_leases out) s'"
| renew: "lease_run J path ls s \<Longrightarrow> lh_codec H = J \<Longrightarrow> lh_path H = path \<Longrightarrow>
    renew_body H lease s = (ren, s') \<Longrightarrow> lease_run J path ls s'"
| release: "lease_run J path ls s \<Longrightarrow> lh_codec H = J \<Longrightarrow> lh_path H = path \<Longrightarrow>
    release_body H lease s = (rel, s') \<Longrightarrow> lease_run J path ls s'"

definition rising :: "resource_lease list \<Rightarrow> bool" where
  "rising ls \<longleftrightarrow> sorted_wrt (\<lambda>l m. \<forall>k a b. dget (rl_fencing_tokens l) k = Some a \<longrightarrow>
     dget (rl_fencing_tokens m) k = Some b \<longrightarrow> a < b) ls"

definition run_inv :: "json_codec \<Rightarrow> string \<Rightarrow> resource_lease list \<Rightarrow> 'w lock_world \<Rightarrow> bool" where
  "run_inv J path ls s \<longleftrightarrow> (\<exists>r. load_registry J path (lw_files s) = Inr r \<and> registry_inv r \<and>
     lease_ids r \<subseteq> rl_lease_id ` set ls \<and> rising ls \<and>
     (\<forall>l\<in>set ls. \<forall>k t. dget (rl_fencing_tokens l) k = Some t \<longrightarrow> t \<le> dget_or 0 (rg_counters r) k))"

lemma run_inv_step:
  assumes "codec_ok J" "lh_codec H = J" "lh_path H = path" "load_registry J path (lw_files s) = Inr r"
    and inv: "run_inv J path ls s" and step: "registry_step r ms r'" and "stored H s r r' s'"
    and fresh: "\<forall>m\<in>set ms. rl_lease_id m \<notin> rl_lease_id ` set ls" "length ms \<le> 1"
  shows "run_inv J path (ls @ ms) s'"
proof -
  from inv assms(4) have r: "registry_inv r" "lease_ids r \<subseteq> rl_lease_id ` set ls" "rising ls"
    "\<forall>l\<in>set ls. \<forall>k t. dget (rl_fencing_tokens l) k = Some t \<longrightarrow> t \<le> dget_or 0 (rg_counters r) k"
    by (auto simp: run_inv_def)
  have new: "\<forall>m\<in>set ms. rl_lease_id m \<notin> lease_ids r" using fresh(1) r(2) by blast
  note after = registry_step_inv [OF step r(1) new]
  have "load_registry J path (lw_files s') = Inr (sorted_registry r') \<or> r' = r \<and> lw_files s' = lw_files s"
    using assms(1-3,7) after(1) registry_round_trip by (auto simp: stored_def registry_inv_def)
  then obtain r2 where r2: "load_registry J path (lw_files s') = Inr r2" "registry_inv r2"
    "lease_ids r2 = lease_ids r'" "\<And>k. dget_or 0 (rg_counters r2) k = dget_or 0 (rg_counters r') k"
    using sorted_registry_inv(1,2) [of r'] sorted_registry_inv(3) [of r'] after(1) assms(4)
    by (auto simp: registry_inv_def)
  have bound: "t \<le> dget_or 0 (rg_counters r') k"
    if "l \<in> set (ls @ ms)" "dget (rl_fencing_tokens l) k = Some t" for l k t
    using that r(4) after(3) [of k] after(4) by (fastforce simp: above_def)
  have "a < b" if "l \<in> set ls" "m \<in> set ms" "dget (rl_fencing_tokens l) k = Some a"
    "dget (rl_fencing_tokens m) k = Some b" for l m k a b
    using that r(4) after(4) by (fastforce simp: above_def)
  then have "rising (ls @ ms)"
    using r(3) fresh(2) by (cases ms) (auto simp: rising_def sorted_wrt_append)
  moreover have "lease_ids r2 \<subseteq> rl_lease_id ` set (ls @ ms)"
    unfolding r2(3) set_append image_Un using after(2) r(2) by blast
  ultimately show ?thesis using r2(1,2,4) bound unfolding run_inv_def by metis
qed

lemma lease_run_inv:
  assumes "lease_run J path ls s" "codec_ok J" "distinct (map rl_lease_id ls)"
  shows "run_inv J path ls s"
  using assms(1,3)
proof (induction rule: lease_run.induct)
  case (start s)
  then show ?case
    by (auto simp: run_inv_def load_registry_def registry_inv_def registry_ok_def exclusive_def lease_ids_def
        rising_def counters_ok_def)
next
  case (elsewhere ls s s')
  then show ?case by (auto simp: run_inv_def load_registry_def)
next
  case (acquire ls s H claims owner out s')
  then have inv: "run_inv J path ls s" by simp
  then obtain r where r: "load_registry J path (lw_files s) = Inr r" "registry_inv r" by (auto simp: run_inv_def)
  have "\<forall>c\<in>set (normalize_lease_claims claims). claim_ok c"
    using acquire.hyps strongest_claims_spec(4) by (fastforce simp: normalize_lease_claims_def)
  moreover have "host_load H s = Inr r" using r(1) acquire.hyps by (simp add: host_load_def)
  ultimately obtain att r' where "out = Inr att" "registry_step r (granted att) r'" "stored H s r r' s'"
    using acquire_body_step [OF _ _ _ acquire.hyps(5)] r(2) by (auto simp: registry_inv_def)
  note att = this
  have "length (granted att) \<le> 1" by (simp add: granted_def split: option.split)
  moreover have "\<forall>m\<in>set (granted att). rl_lease_id m \<notin> rl_lease_id ` set ls"
    using acquire.prems att(1) by (auto simp: new_leases_def)
  ultimately have "run_inv J path (ls @ granted att) s'"
    using run_inv_step [OF assms(2) acquire.hyps(2,3) r(1) inv att(2,3)] by blast
  then show ?case by (simp add: att(1) new_leases_def)
next
  case (renew ls s H lease ren s')
  then have inv: "run_inv J path ls s" by simp
  then obtain r where r: "load_registry J path (lw_files s) = Inr r" by (auto simp: run_inv_def)
  then have "host_load H s = Inr r" using renew.hyps by (simp add: host_load_def)
  then show ?case
    using renew_body_step [OF _ renew.hyps(4)] run_inv_step [OF assms(2) renew.hyps(2,3) r inv, of "[]"] by auto
next
  case (release ls s H lease rel s')
  then have inv: "run_inv J path ls s" by simp
  then obtain r where r: "load_registry J path (lw_files s) = Inr r" by (auto simp: run_inv_def)
  then have "host_load H s = Inr r" using release.hyps by (simp add: host_load_def)
  then show ?case
    using release_body_step [OF _ release.hyps(4)] run_inv_step [OF assms(2) release.hyps(2,3) r inv, of "[]"] by auto
qed

section \<open>The manager as the scheduler sees it\<close>

text \<open>
  A lease manager in the sense of \<open>Task_Leases\<close>. That a call does not return is no case of that
  interface; \<open>file_acquire\<close> and the others return whenever the clock advances, and the model gives a
  timeout otherwise. The heartbeat thread is the interpreter's.
\<close>

definition or_timeout :: "((py_exc + 'a) \<times> 'w lock_world) option \<Rightarrow> 'w lock_world \<Rightarrow> (py_exc + 'a) \<times> 'w lock_world" where
  "or_timeout out s = (case out of Some x \<Rightarrow> x | None \<Rightarrow> (Inl (PyExc ''TimeoutError'' ''the clock stands still''), s))"

definition file_lease_manager ::
  "'w lease_host \<Rightarrow> ('w lock_world \<Rightarrow> py_exc option \<times> 'w lock_world)
   \<Rightarrow> ('w lock_world \<Rightarrow> (nat \<times> bool) \<times> 'w lock_world) \<Rightarrow> 'w lock_world lease_manager"
where
  "file_lease_manager H start_thread beats =
     \<lparr>lm_interval = (\<lambda>s. (Inr (lp_heartbeat_interval (lh_policy H)), s)),
      lm_acquire = (\<lambda>owner claims s.
        let (out, s1) = or_timeout (file_acquire H owner claims s) s in (map_sum (\<lambda>e. e) Some out, s1)),
      lm_renew = (\<lambda>lease s. or_timeout (file_renew H lease s) s),
      lm_release = (\<lambda>lease s. let (out, s1) = or_timeout (file_release H lease s) s
        in (case out of Inl e \<Rightarrow> Some e | Inr u \<Rightarrow> None, s1)),
      lm_start = start_thread, lm_beats = beats\<rparr>"

section \<open>What a waiting loop answers\<close>

text \<open>An invariant that failed attempts and sleeping keep: the answer is that of a successful attempt
  made in the invariant, or the last answer for a timeout.\<close>

lemma poll_loop_invariant:
  fixes H :: "('w, 'z) lock_host_scheme"
  assumes "poll_loop H deadline attempt s = Some (x, s')" "I s"
    and attempt: "\<And>s y s1. I s \<Longrightarrow> attempt s = Some (y, s1) \<Longrightarrow>
      (\<forall>z. y = Inl z \<longrightarrow> P z s1) \<and> (\<forall>z. y = Inr z \<longrightarrow> Q z \<and> I s1)"
    and world: "\<And>s w. I s \<Longrightarrow> I (s\<lparr>lw_world := w\<rparr>)" and sleep: "\<And>d s. I s \<Longrightarrow> I (dl_sleep H d s)"
  shows "P x s' \<or> Q x"
proof -
  define G where "G H' dl f s r \<longleftrightarrow> (H' = H \<longrightarrow> f = attempt \<longrightarrow> I s \<longrightarrow> P (fst r) (snd r) \<or> Q (fst r))"
    for H' :: "('w, 'z) lock_host_scheme" and dl :: rat and f s r
  have "G H deadline attempt s (x, s')"
  proof (rule poll_loop.raw_induct [of G, OF _ assms(1)])
    fix loop and H' :: "('w, 'z) lock_host_scheme" and dl f s r
    assume IH: "\<And>H' dl f s r. loop H' dl f s = Some r \<Longrightarrow> G H' dl f s r"
      and body: "(case f s of None \<Rightarrow> None | Some (Inl x, s1) \<Rightarrow> Some (x, s1)
        | Some (Inr x, s1) \<Rightarrow> let (t, s2) = ask (dl_clock H') s1 in
            if dl \<le> t then Some (x, s2)
            else let (t', s3) = ask (dl_clock H') s2
                 in loop H' dl f (dl_sleep H' (min (dl_poll H') (max 0 (dl - t'))) s3)) = Some r"
    show "G H' dl f s r"
      unfolding G_def
    proof (intro impI)
      assume eq: "H' = H" "f = attempt" and I: "I s"
      then obtain y s1 where y: "attempt s = Some (y, s1)"
        using body by (auto split: option.splits)
      note step = attempt [OF I y]
      show "P (fst r) (snd r) \<or> Q (fst r)"
      proof (cases y)
        case (Inl z)
        with body eq y step show ?thesis by auto
      next
        case (Inr z)
        show ?thesis
        proof (cases "dl \<le> fst (dl_clock H (lw_world s1))")
          case True
          with body eq y Inr step show ?thesis by (auto simp: ask_eq)
        next
          case False
          with body eq y Inr obtain d s3 where "loop H dl attempt (dl_sleep H d s3) = Some r" "I s3"
            using step world by (auto simp: ask_eq)
          with IH sleep show ?thesis unfolding G_def by blast
        qed
      qed
    qed
  qed
  with assms(2) show ?thesis by (simp add: G_def)
qed

end
