(* ===== verification/Lease_Properties.thy ===== *)
theory Lease_Properties
  imports Lease_Manager
begin

text \<open>
  The properties of the lease manager and of its lock: registered leases exclude each other and fencing
  tokens rise over any operations of any managers; an acquisition returns, and a granted lease is in
  the registry; only the owner renews; the registry file gives back what was saved; what the lock
  directory guarantees and where it fails.
\<close>

section \<open>A manager for the witnesses\<close>

text \<open>A host whose world counts the readings; each takes a hundred seconds.\<close>

definition slow_host :: "nat lease_host" where
  "slow_host = \<lparr>dl_clock = (\<lambda>w. (of_nat w * 100, w + 1)), dl_mtime = (\<lambda>w. (of_nat w * 100, w + 1)),
     dl_uuid = (\<lambda>w. (replicate w CHR ''u'', w + 1)), dl_rename_ok = (\<lambda>w. (True, w)),
     dl_sleep = (\<lambda>d s. s\<lparr>lw_world := lw_world s + nat \<lceil>d\<rceil>\<rparr>), dl_stale_after = 30, dl_poll = 1/50,
     lh_codec = tally_codec, lh_path = ''leases'',
     lh_policy = \<lparr>lp_acquire_timeout = 1, lp_poll_interval = 1/50, lp_stale_lock = 30, lp_lease_ttl = 30,
       lp_heartbeat_interval = 5\<rparr>,
     lh_pid = 7, lh_identity = ''me'', lh_lookup = (\<lambda>pid w. (if pid = 7 then Some ''me'' else None, w))\<rparr>"

lemma slow_fields [simp]:
  "dl_clock slow_host w = (of_nat w * 100, w + 1)" "dl_mtime slow_host w = (of_nat w * 100, w + 1)"
  "dl_uuid slow_host w = (replicate w CHR ''u'', w + 1)" "dl_rename_ok slow_host w = (True, w)"
  "dl_sleep slow_host d s = s\<lparr>lw_world := lw_world s + nat \<lceil>d\<rceil>\<rparr>" "dl_poll slow_host = 1/50"
  "lh_codec slow_host = tally_codec" "lh_path slow_host = ''leases''" "lp_lease_ttl (lh_policy slow_host) = 30"
  "lp_acquire_timeout (lh_policy slow_host) = 1" "lh_pid slow_host = 7" "lh_identity slow_host = ''me''"
  "lh_lookup slow_host pid w = (if pid = 7 then Some ''me'' else None, w)"
  by (simp_all add: slow_host_def)

definition write_x :: resource_claim where
  "write_x = \<lparr>rc_resource = ''x'', rc_mode = ''write''\<rparr>"

definition empty_world :: "nat lock_world" where
  "empty_world = \<lparr>lw_files = [], lw_lock = None, lw_world = 0\<rparr>"

lemma write_x_fields [simp]: "rc_resource write_x = ''x''" "is_write write_x" "write_resources [write_x] = {''x''}"
  by (auto simp: write_x_def is_write_def write_resources_def)

lemma write_x_ok: "claim_ok write_x"
  by (simp add: claim_ok_def write_x_def mk_resource_claim_def Let_def strip_def py_space_def str_lower_def lower_char_def)

lemma find_unique:
  "distinct (map f xs) \<Longrightarrow> x \<in> set xs \<Longrightarrow> find (\<lambda>y. f y = f x) xs = Some x"
  by (induction xs) (auto simp: image_iff)

section \<open>Acquisitions\<close>

lemma acquire_pass_returns:
  fixes H :: "'w lease_host"
  assumes law: "clock_law H now" "0 < dl_poll H" "\<And>pid w. now w \<le> now (snd (lh_lookup H pid w))"
  shows "\<exists>x s1. acquire_pass H owner claims deadline s = Some (x, s1) \<and> now (lw_world s) \<le> now (lw_world s1)"
proof -
  have step: "now w \<le> now (snd (dl_clock H w))" "now w \<le> now (snd (dl_uuid H w))" for w
    using law(1) order_trans unfolding clock_law_def by blast+
  have keep: "now (lw_world s) \<le> now (lw_world (snd (keep_live H t xs s)))" for t xs s
  proof (induction xs arbitrary: s)
    case (Cons x xs)
    let ?s1 = "s\<lparr>lw_world := snd (lh_lookup H (lx_owner_pid x) (lw_world s))\<rparr>"
    have "now (lw_world s) \<le> now (lw_world ?s1)" using law(3) by simp
    then show ?case
      using Cons.IH [of ?s1] Cons.IH [of s] by (auto simp: ask_eq Let_def case_prod_unfold)
  qed simp
  have live: "now (lw_world s) \<le> now (lw_world (snd (live_records H xs s)))" for xs s
    using step(1) [of "lw_world s"] keep [of "s\<lparr>lw_world := snd (dl_clock H (lw_world s))\<rparr>"]
    by (auto simp: live_records_def ask_eq Let_def intro: order_trans)
  have body: "now (lw_world s) \<le> now (lw_world (snd (acquire_body H owner claims s)))" for s
  proof (cases "host_load H s")
    case (Inr r)
    obtain xs s1 where l: "live_records H (rg_records r) s = (xs, s1)" by fastforce
    with live [of s "rg_records r"] have 1: "now (lw_world s) \<le> now (lw_world s1)" by simp
    define w1 where "w1 = snd (dl_uuid H (lw_world s1))"
    have w1: "now (lw_world s) \<le> now w1" using 1 step(2) [of "lw_world s1"] by (simp add: w1_def)
    have "now (lw_world s) \<le> now (snd (dl_clock H w1))" "now (lw_world s) \<le> now (snd (dl_clock H (snd (dl_clock H (snd (dl_clock H w1))))))"
      using w1 step(1) by (meson order_trans)+
    with 1 Inr l show ?thesis
      by (auto simp: acquire_body_def ask_eq Let_def host_save_def w1_def [symmetric] split: sum.split prod.split)
  qed (simp add: acquire_body_def)
  from with_lock_returns [OF law(1,2), of "acquire_body H owner claims", OF body]
  show ?thesis unfolding acquire_pass_def by (fastforce split: sum.split)
qed

text \<open>
  Acquiring leases returns, whatever other processes do meanwhile and whatever the files hold,
  as long as the clock advances with the time slept: with a lease, with the conflicting resources,
  or with an exception.
\<close>

theorem file_acquire_returns:
  assumes "clock_law H now" "0 < dl_poll H" "\<forall>pid w. now w \<le> now (snd (lh_lookup H pid w))"
  shows "\<exists>out s'. file_acquire H owner claims s = Some (out, s')"
proof -
  have "\<exists>out s'. poll_loop H deadline (acquire_pass H (strip owner) cs dl) s1 = Some (out, s')" for deadline cs dl s1
    using poll_loop_returns [OF assms(1,2), of "acquire_pass H (strip owner) cs dl" deadline s1]
      acquire_pass_returns [OF assms(1,2)] assms(3) by blast
  then show ?thesis by (simp add: file_acquire_def ask_eq Let_def)
qed

lemma slow_host_law: "clock_law slow_host (\<lambda>w. of_nat w * 100)"
proof -
  have "of_nat w * 100 + d \<le> (of_nat (w + nat \<lceil>d\<rceil>) * 100 :: rat)" if "0 \<le> d" for w d
  proof -
    have "d \<le> of_int \<lceil>d\<rceil>" by (rule le_of_int_ceiling)
    also have "\<dots> = (of_nat (nat \<lceil>d\<rceil>) :: rat)" using that by simp
    finally show ?thesis by simp
  qed
  then show ?thesis by (simp add: clock_law_def slow_host_def)
qed

theorem file_acquire_returns_witness:
  "\<exists>out s'. file_acquire slow_host ''o'' [write_x] empty_world = Some (out, s')"
  by (rule file_acquire_returns [OF slow_host_law]) (simp_all add: slow_host_def)

text \<open>What an acquisition leaves behind, for a caller whose sleep and whose peers keep the registry
  sound.\<close>

definition sound :: "'w lease_host \<Rightarrow> 'w lock_world \<Rightarrow> bool" where
  "sound H s \<longleftrightarrow> (\<exists>r. host_load H s = Inr r \<and> registry_ok r)"

definition holds_lease :: "'w lease_host \<Rightarrow> resource_lease \<Rightarrow> 'w lock_world \<Rightarrow> bool" where
  "holds_lease H lease s \<longleftrightarrow> (\<exists>r x. host_load H s = Inr r \<and> x \<in> set (rg_records r) \<and> record_of H lease x \<and>
     (\<forall>y\<in>set (rg_records r). y \<noteq> x \<longrightarrow> (\<forall>c\<in>set (rl_claims lease). \<forall>d\<in>set (lx_claims y). \<not> conflicting c d)))"

lemma sound_world [simp]: "sound H (s\<lparr>lw_world := w\<rparr>) = sound H s" "sound H (s\<lparr>lw_lock := l\<rparr>) = sound H s"
  by (simp_all add: sound_def host_load_def)

lemma holds_lease_lock [simp]: "holds_lease H lease (s\<lparr>lw_lock := l\<rparr>) = holds_lease H lease s"
  by (simp add: holds_lease_def host_load_def)

lemma lock_enter_sound:
  assumes "lock_enter H deadline s = Some (None, s')" "sound H s" "\<And>d s. sound H s \<Longrightarrow> sound H (dl_sleep H d s)"
  shows "sound H s'"
proof -
  have "sound H s' \<or> (None :: py_exc option) \<noteq> None"
  proof (rule poll_loop_invariant [where I = "sound H" and P = "\<lambda>x s. sound H s" and Q = "\<lambda>x. x \<noteq> None"])
    show "poll_loop H deadline (try_lock H) s = Some (None, s')" using assms(1) by (simp add: lock_enter_def)
    fix s y s1 assume "sound H s" "try_lock H s = Some (y, s1)"
    then show "(\<forall>z. y = Inl z \<longrightarrow> sound H s1) \<and> (\<forall>z. y = Inr z \<longrightarrow> z \<noteq> None \<and> sound H s1)"
      by (auto simp: try_lock_def make_lock_def reclaim_if_stale_def ask_eq Let_def split: option.splits if_splits)
  qed (use assms in simp_all)
  then show ?thesis by simp
qed

definition lease_held :: "'w lease_host \<Rightarrow> string \<Rightarrow> resource_claim list \<Rightarrow> resource_lease \<Rightarrow> 'w lock_world \<Rightarrow> bool" where
  "lease_held H owner claims lease s \<longleftrightarrow> rl_claims lease = claims \<and> rl_owner_id lease = owner \<and>
     (\<exists>s0 r. host_load H s0 = Inr r \<and> (rl_lease_id lease \<notin> lease_ids r \<longrightarrow> holds_lease H lease s))"

lemma stored_load:
  assumes "stored H s r r' s'" "host_load H s = Inr r" "codec_ok (lh_codec H)" "registry_ok r'"
  shows "host_load H s' = Inr r' \<or> host_load H s' = Inr (sorted_registry r')"
  using assms registry_round_trip by (auto simp: stored_def host_load_def)

lemma acquire_body_sound:
  assumes "acquire_body H owner claims s = (Inr att, s')" "sound H s" "codec_ok (lh_codec H)"
    "\<forall>c\<in>set claims. claim_ok c"
  shows "la_lease att = None \<Longrightarrow> sound H s'" "la_lease att = Some lease \<Longrightarrow> lease_held H owner claims lease s'"
proof -
  obtain r where r: "host_load H s = Inr r" "registry_ok r" using assms(2) by (auto simp: sound_def)
  from acquire_body_step [OF r(1) assms(4) r(2) assms(1)] obtain r' where
    step: "registry_step r (granted att) r'" "stored H s r r' s'" and
    lease: "\<And>lease. la_lease att = Some lease \<Longrightarrow> rl_claims lease = claims \<and> rl_owner_id lease = owner \<and>
      (\<exists>x\<in>set (rg_records r'). record_of H lease x \<and>
        (\<forall>y\<in>set (rg_records r'). y \<noteq> x \<longrightarrow> (\<forall>c\<in>set claims. \<forall>d\<in>set (lx_claims y). \<not> conflicting c d)))"
    by auto
  note ok = registry_step_ok [OF step(1) r(2)]
  show "sound H s'" if "la_lease att = None"
    using stored_load [OF step(2) r(1) assms(3)] ok that sorted_registry_ok by (auto simp: sound_def granted_def)
  assume some: "la_lease att = Some lease"
  have "holds_lease H lease s'" if "rl_lease_id lease \<notin> lease_ids r"
  proof -
    have ok': "registry_ok r'" using ok that some by (simp add: granted_def)
    then have "\<exists>q. host_load H s' = Inr q \<and> set (rg_records q) = set (rg_records r')"
      using stored_load [OF step(2) r(1) assms(3)] by (auto simp: sorted_registry_def)
    with lease [OF some] show ?thesis unfolding holds_lease_def by metis
  qed
  with lease [OF some] r(1) show "lease_held H owner claims lease s'" unfolding lease_held_def by blast
qed

text \<open>
  A granted lease is in the registry. For a caller whose peers keep the registry sound while it
  sleeps: when an acquisition of claims returns a lease, its claims are the normalized ones, and
  the registry then has a record of it, owned by this process, that conflicts with no other record
  (unless \<open>uuid4\<close> repeated the id of a registered lease).
\<close>

theorem granted_lease_registered:
  assumes "file_acquire H owner_id claims s = Some (Inr att, s')" "la_lease att = Some lease" "claims \<noteq> []"
    "sound H s" "codec_ok (lh_codec H)" "\<forall>c\<in>set claims. claim_ok c"
    "\<forall>d s. sound H s \<longrightarrow> sound H (dl_sleep H d s)"
  shows "rl_claims lease = normalize_lease_claims claims \<and> rl_owner_id lease = strip owner_id \<and>
    (\<exists>s0 r. host_load H s0 = Inr r \<and> (rl_lease_id lease \<notin> lease_ids r \<longrightarrow> holds_lease H lease s'))"
proof -
  let ?cs = "normalize_lease_claims claims"
  have cs: "\<forall>c\<in>set ?cs. claim_ok c"
    using assms(6) strongest_claims_spec(4) by (fastforce simp: normalize_lease_claims_def)
  have "?cs \<noteq> []"
    using assms(3) strongest_claims_spec(3) [of claims] by (auto simp: normalize_lease_claims_def)
  then obtain deadline s1 where loop: "poll_loop H deadline (acquire_pass H (strip owner_id) ?cs deadline) s1 = Some (Inr att, s')"
    and "sound H s1"
    using assms(1,4) by (auto simp: file_acquire_def ask_eq Let_def split: if_splits)
  have "(\<forall>a l. Inr att = (Inr a :: py_exc + lease_attempt) \<longrightarrow> la_lease a = Some l \<longrightarrow> lease_held H (strip owner_id) ?cs l s') \<or>
    (\<forall>a. Inr att = (Inr a :: py_exc + lease_attempt) \<longrightarrow> la_lease a = None)"
  proof (rule poll_loop_invariant [OF loop, where I = "sound H"
        and P = "\<lambda>x s. \<forall>a l. x = Inr a \<longrightarrow> la_lease a = Some l \<longrightarrow> lease_held H (strip owner_id) ?cs l s"
        and Q = "\<lambda>x. \<forall>a. x = Inr a \<longrightarrow> la_lease a = None"])
    fix s y s2 assume I: "sound H s" and pass: "acquire_pass H (strip owner_id) ?cs deadline s = Some (y, s2)"
    then obtain out where out: "with_lock H deadline (acquire_body H (strip owner_id) ?cs) s = Some (out, s2)"
      "y = (case out of Inl e \<Rightarrow> Inl (Inl e) | Inr a \<Rightarrow> if la_lease a = None then Inr (Inr a) else Inl (Inr a))"
      by (auto simp: acquire_pass_def)
    show "(\<forall>z. y = Inl z \<longrightarrow> (\<forall>a l. z = Inr a \<longrightarrow> la_lease a = Some l \<longrightarrow> lease_held H (strip owner_id) ?cs l s2)) \<and>
        (\<forall>z. y = Inr z \<longrightarrow> (\<forall>a. z = Inr a \<longrightarrow> la_lease a = None) \<and> sound H s2)"
    proof (cases out)
      case (Inl e)
      with out(2) show ?thesis by simp
    next
      case (Inr a)
      with out(1) obtain s3 s4 where enter: "lock_enter H deadline s = Some (None, s3)"
        and body: "acquire_body H (strip owner_id) ?cs s3 = (Inr a, s4)" and s2: "s2 = s4\<lparr>lw_lock := None\<rparr>"
        by (auto simp: with_lock_def lock_exit_def split: option.splits prod.splits)
      have "sound H s3" using lock_enter_sound [OF enter I] assms(7) by blast
      note grant = acquire_body_sound [OF body this assms(5) cs]
      from Inr out(2) grant show ?thesis
        by (auto simp: s2 lease_held_def split: if_splits)
    qed
  qed (use assms(7) \<open>sound H s1\<close> in simp_all)
  with assms(2) have "lease_held H (strip owner_id) ?cs lease s'" by simp
  then show ?thesis by (simp add: lease_held_def)
qed

lemma normalize_write_x: "normalize_lease_claims [write_x] = [write_x]"
  by (simp add: normalize_lease_claims_def strongest_claims_def merge_claim_def dset_def dkeys_def write_x_def)

lemma empty_world_loads: "host_load slow_host empty_world = Inr \<lparr>rg_records = [], rg_counters = []\<rparr>"
  by (simp add: host_load_def load_registry_def empty_world_def)

lemma empty_world_sound: "sound slow_host empty_world"
  by (simp add: sound_def empty_world_loads registry_ok_def counters_ok_def)

definition first_lease :: "nat \<Rightarrow> resource_lease" where
  "first_lease w = \<lparr>rl_lease_id = replicate (w + 1) CHR ''u'', rl_owner_id = ''o'', rl_claims = [write_x],
     rl_expires_at = of_nat (w + 2) * 100 + 30, rl_fencing_tokens = [(''x'', 1)]\<rparr>"

definition first_record :: "nat \<Rightarrow> lease_record" where
  "first_record w = \<lparr>lx_lease_id = replicate (w + 1) CHR ''u'', lx_owner_id = ''o'', lx_owner_pid = 7,
     lx_process_identity = ''me'', lx_claims = [write_x], lx_acquired_at = of_nat (w + 3) * 100,
     lx_heartbeat_at = of_nat (w + 4) * 100, lx_expires_at = of_nat (w + 2) * 100 + 30, lx_tokens = [(''x'', 1)]\<rparr>"

lemma first_acquire:
  assumes "dget (lw_files s) ''leases'' = None"
  shows "acquire_body slow_host ''o'' [write_x] s =
    (Inr \<lparr>la_lease = Some (first_lease (lw_world s)), la_conflicting = []\<rparr>,
     host_save slow_host [first_record (lw_world s)] [(''x'', 1)] (s\<lparr>lw_world := lw_world s + 5\<rparr>))"
proof -
  have load: "host_load slow_host s = Inr \<lparr>rg_records = [], rg_counters = []\<rparr>"
    using assms by (simp add: host_load_def load_registry_def)
  show ?thesis
    by (simp add: acquire_body_def load live_records_def ask_eq conflicting_resources_def next_fencing_tokens_def
        take_token_def dget_or_def dset_def mk_resource_lease_def dkeys_def
        first_lease_def first_record_def Let_def eval_nat_numeral ac_simps)
qed

lemma first_file_acquire:
  "\<exists>s'. file_acquire slow_host ''o'' [write_x] empty_world =
     Some (Inr \<lparr>la_lease = Some (first_lease 3), la_conflicting = []\<rparr>, s')"
proof -
  have enter: "lock_enter slow_host deadline (empty_world\<lparr>lw_world := Suc 0\<rparr>) =
      Some (None, empty_world\<lparr>lw_world := 3, lw_lock := Some \<lparr>lk_created_at = Some 200, lk_mtime = 100\<rparr>\<rparr>)"
    for deadline
    by (simp add: lock_enter_def poll_loop.simps try_lock_def make_lock_def ask_eq empty_world_def Let_def)
  have files: "dget (lw_files (empty_world\<lparr>lw_world := 3, lw_lock := l\<rparr>)) ''leases'' = None" for l
    by (simp add: empty_world_def)
  have owner: "strip ''o'' = ''o''" by (simp add: strip_def py_space_def)
  have now: "lw_world empty_world = 0" by (simp add: empty_world_def)
  show ?thesis
    by (simp add: file_acquire_def owner now ask_eq normalize_write_x poll_loop.simps acquire_pass_def with_lock_def enter
        first_acquire [OF files] Let_def)
qed

theorem granted_lease_registered_witness:
  "\<exists>att s'. file_acquire slow_host ''o'' [write_x] empty_world = Some (Inr att, s') \<and>
     la_lease att = Some (first_lease 3) \<and> rl_claims (first_lease 3) = normalize_lease_claims [write_x]"
proof -
  obtain s' where s': "file_acquire slow_host ''o'' [write_x] empty_world =
      Some (Inr \<lparr>la_lease = Some (first_lease 3), la_conflicting = []\<rparr>, s')" using first_file_acquire by blast
  have "dl_sleep slow_host d s = s\<lparr>lw_world := lw_world s + nat \<lceil>d\<rceil>\<rparr>" for d s by (simp add: slow_host_def)
  moreover have "codec_ok (lh_codec slow_host)" by (simp add: slow_host_def tally_codec_ok)
  ultimately have "rl_claims (first_lease 3) = normalize_lease_claims [write_x]"
    using granted_lease_registered [OF s', of "first_lease 3"] empty_world_sound write_x_ok by simp
  with s' show ?thesis by auto
qed

section \<open>Exclusion and fencing\<close>

text \<open>
  C8: over any operations of any managers on one registry, made one at a time, the registry stays
  loadable and no two registered leases conflict: two of them never share a resource that one of
  them writes. (\<open>uuid4\<close> does not repeat an id.)
\<close>

theorem registered_leases_exclusive:
  assumes "lease_run J path ls s" "codec_ok J" "distinct (map rl_lease_id ls)"
  shows "\<exists>r. load_registry J path (lw_files s) = Inr r \<and> distinct (map lx_lease_id (rg_records r)) \<and>
    (\<forall>x\<in>set (rg_records r). \<forall>y\<in>set (rg_records r). lx_lease_id x \<noteq> lx_lease_id y \<longrightarrow>
       (\<forall>c\<in>set (lx_claims x). \<forall>d\<in>set (lx_claims y).
          rc_resource c = rc_resource d \<longrightarrow> \<not> is_write c \<and> \<not> is_write d))"
  using lease_run_inv [OF assms]
  by (auto simp: run_inv_def registry_inv_def registry_ok_def exclusive_def conflicting_def)

lemma first_run:
  "lease_run tally_codec ''leases'' [first_lease 0]
     (host_save slow_host [first_record 0] [(''x'', 1)] (empty_world\<lparr>lw_world := 5\<rparr>))"
proof -
  have start: "lease_run tally_codec ''leases'' [] empty_world"
    by (rule lease_run.start) (simp add: empty_world_def)
  have "acquire_body slow_host ''o'' (normalize_lease_claims [write_x]) empty_world =
      (Inr \<lparr>la_lease = Some (first_lease 0), la_conflicting = []\<rparr>,
       host_save slow_host [first_record 0] [(''x'', 1)] (empty_world\<lparr>lw_world := 5\<rparr>))"
    using first_acquire [of empty_world] by (simp add: normalize_write_x empty_world_def)
  from lease_run.acquire [OF start _ _ _ this] show ?thesis
    by (simp add: write_x_ok new_leases_def granted_def)
qed

theorem registered_leases_exclusive_witness:
  "\<exists>r. load_registry tally_codec ''leases''
      (lw_files (host_save slow_host [first_record 0] [(''x'', 1)] (empty_world\<lparr>lw_world := 5\<rparr>))) = Inr r \<and>
    distinct (map lx_lease_id (rg_records r))"
  using registered_leases_exclusive [OF first_run tally_codec_ok] by auto

text \<open>
  C9: fencing tokens rise. Of two leases granted one after the other by any managers, the later one has
  the greater token for every resource that both may write; so a resource that refuses a token
  below the greatest it has seen refuses every holder whose lease was given away.
\<close>

theorem fencing_tokens_rise:
  assumes "lease_run J path ls s" "codec_ok J" "distinct (map rl_lease_id ls)" "i < j" "j < length ls"
    "dget (rl_fencing_tokens (ls ! i)) k = Some a" "dget (rl_fencing_tokens (ls ! j)) k = Some b"
  shows "a < b"
proof -
  have "rising ls" using lease_run_inv [OF assms(1-3)] by (auto simp: run_inv_def)
  with assms(4-7) show ?thesis by (auto simp: rising_def sorted_wrt_iff_nth_less)
qed

definition second_lease :: resource_lease where
  "second_lease = \<lparr>rl_lease_id = replicate 6 CHR ''u'', rl_owner_id = ''o'', rl_claims = [write_x],
     rl_expires_at = 730, rl_fencing_tokens = [(''x'', 2)]\<rparr>"

lemma first_registry_ok: "registry_ok \<lparr>rg_records = [first_record w], rg_counters = [(''x'', 1)]\<rparr>"
  by (simp add: registry_ok_def counters_ok_def tokens_ok_def first_record_def dkeys_def dget_or_def write_x_ok wf_dict_def)

lemma first_registry_loads:
  "host_load slow_host (host_save slow_host [first_record w] [(''x'', 1)] s) =
     Inr \<lparr>rg_records = [first_record w], rg_counters = [(''x'', 1)]\<rparr>"
  using registry_round_trip [OF tally_codec_ok first_registry_ok]
  by (simp add: host_load_def host_save_def sorted_registry_def)

lemma second_acquire:
  assumes "host_load slow_host s = Inr \<lparr>rg_records = [first_record 0], rg_counters = [(''x'', 1)]\<rparr>" "lw_world s = 5"
  shows "\<exists>s'. acquire_body slow_host ''o'' [write_x] s = (Inr \<lparr>la_lease = Some second_lease, la_conflicting = []\<rparr>, s')"
  by (simp add: acquire_body_def assms live_records_def ask_eq conflicting_resources_def next_fencing_tokens_def
        take_token_def dget_or_def dset_def mk_resource_lease_def dkeys_def first_record_def
        second_lease_def Let_def eval_nat_numeral)

lemma second_run: "\<exists>s. lease_run tally_codec ''leases'' [first_lease 0, second_lease] (s :: nat lock_world)"
proof -
  let ?s = "host_save slow_host [first_record 0] [(''x'', 1)] (empty_world\<lparr>lw_world := 5\<rparr>)"
  have "lw_world ?s = 5" by (simp add: host_save_def)
  then obtain s' where "acquire_body slow_host ''o'' (normalize_lease_claims [write_x]) ?s =
      (Inr \<lparr>la_lease = Some second_lease, la_conflicting = []\<rparr>, s')"
    using second_acquire [OF first_registry_loads] by (auto simp: normalize_write_x)
  from lease_run.acquire [OF first_run _ _ _ this] show ?thesis
    by (auto simp: write_x_ok new_leases_def granted_def)
qed

theorem fencing_tokens_rise_witness:
  "\<exists>s. lease_run tally_codec ''leases'' [first_lease 0, second_lease] (s :: nat lock_world) \<and> (1 :: int) < 2"
proof -
  obtain s :: "nat lock_world" where s: "lease_run tally_codec ''leases'' [first_lease 0, second_lease] s"
    using second_run by blast
  have "(1 :: int) < 2"
    by (rule fencing_tokens_rise [OF s tally_codec_ok, of 0 1 "''x''"])
      (simp_all add: first_lease_def second_lease_def eval_nat_numeral)
  with s show ?thesis by blast
qed

section \<open>Renewing and releasing\<close>

text \<open>
  C31: on a valid registry, a lease is renewed exactly when its record is still registered, unexpired, for the
  same owner, process, claims and tokens; then only its heartbeat and its expiry change. In every
  other case an exception is raised and the registry is left as it was.
\<close>

theorem only_the_owner_renews:
  assumes "host_load H s = Inr r" "registry_ok r" "renew_body H lease s = (out, s')"
    "now = fst (dl_clock H (lw_world s))"
  shows "(case out of
      Inr new \<Rightarrow> (\<exists>x\<in>set (rg_records r). lx_lease_id x = rl_lease_id lease \<and> lx_owner_id x = rl_owner_id lease \<and>
          lx_owner_pid x = lh_pid H \<and> lx_process_identity x = lh_identity H \<and> lx_claims x = rl_claims lease \<and>
          set (lx_tokens x) = set (rl_fencing_tokens lease) \<and> now < lx_expires_at x) \<and>
        new = lease\<lparr>rl_expires_at := now + lp_lease_ttl (lh_policy H)\<rparr> \<and>
        lw_files s' = lw_files (host_save H (map (\<lambda>x. if lx_lease_id x = rl_lease_id lease
           then x\<lparr>lx_heartbeat_at := now, lx_expires_at := rl_expires_at new\<rparr> else x) (rg_records r)) (rg_counters r) s)
    | Inl e \<Rightarrow> lw_files s' = lw_files s \<and> (\<forall>x\<in>set (rg_records r). lx_lease_id x = rl_lease_id lease \<longrightarrow>
        lx_owner_id x \<noteq> rl_owner_id lease \<or> lx_owner_pid x \<noteq> lh_pid H \<or> lx_process_identity x \<noteq> lh_identity H \<or>
        lx_claims x \<noteq> rl_claims lease \<or> set (lx_tokens x) \<noteq> set (rl_fencing_tokens lease) \<or> lx_expires_at x \<le> now))"
proof (cases "owned_record H (rg_records r) lease (Some now)")
  case (Inl e)
  have "lx_owner_id x \<noteq> rl_owner_id lease \<or> lx_owner_pid x \<noteq> lh_pid H \<or> lx_process_identity x \<noteq> lh_identity H \<or>
      lx_claims x \<noteq> rl_claims lease \<or> set (lx_tokens x) \<noteq> set (rl_fencing_tokens lease) \<or> lx_expires_at x \<le> now"
    if x: "x \<in> set (rg_records r)" "lx_lease_id x = rl_lease_id lease" for x
  proof -
    have "find (\<lambda>x. lx_lease_id x = rl_lease_id lease) (rg_records r) = Some x"
      using find_unique [OF _ x(1), of lx_lease_id] assms(2) x(2) by (simp add: registry_ok_def)
    with Inl show ?thesis by (auto simp: owned_record_def split: if_splits)
  qed
  with Inl assms show ?thesis by (auto simp: renew_body_def ask_eq)
next
  case (Inr x)
  note found = owned_record_found [OF Inr]
  have "tokens_ok (rg_counters r) x" using assms(2) found by (simp add: registry_ok_def)
  then have "set (dkeys (rl_fencing_tokens lease)) = write_resources (rl_claims lease)"
    "\<forall>(k, t)\<in>set (rl_fencing_tokens lease). 0 < t"
    using found by (auto simp: tokens_ok_def dkeys_def)
  from tokens_lease [OF this] show ?thesis
    using assms Inr found by (auto simp: renew_body_def ask_eq host_save_def)
qed

theorem only_the_owner_renews_witness:
  "\<exists>out s'. renew_body slow_host (first_lease 0) (host_save slow_host [first_record 0] [(''x'', 1)] empty_world) = (out, s') \<and>
     (case out of Inr new \<Rightarrow> rl_expires_at new = 30 | Inl e \<Rightarrow> False)"
proof -
  let ?s = "host_save slow_host [first_record 0] [(''x'', 1)] empty_world"
  obtain out s' where run: "renew_body slow_host (first_lease 0) ?s = (out, s')" by fastforce
  have now: "(0 :: rat) = fst (dl_clock slow_host (lw_world ?s))" by (simp add: host_save_def empty_world_def)
  note fact = only_the_owner_renews [OF first_registry_loads first_registry_ok run now]
  show ?thesis
  proof (cases out)
    case (Inl e)
    with fact have False by (simp add: first_record_def first_lease_def)
    then show ?thesis ..
  next
    case (Inr new)
    with fact run show ?thesis by auto
  qed
qed

text \<open>
  Releasing a lease removes its record and no other; releasing a lease that is no longer registered
  does nothing; a lease of another owner, process, claim or token is not released: a \<open>ValueError\<close> is
  raised and the registry is left as it was.
\<close>

theorem release_removes_exactly:
  assumes "host_load H s = Inr r" "codec_ok (lh_codec H)" "registry_ok r" "release_body H lease s = (out, s')"
  shows "(case out of
      Inr u \<Rightarrow> \<exists>r'. host_load H s' = Inr r' \<and>
        set (rg_records r') = {x \<in> set (rg_records r). lx_lease_id x \<noteq> rl_lease_id lease}
    | Inl e \<Rightarrow> lw_files s' = lw_files s \<and> exc_type e = ''ValueError'' \<and>
        (\<exists>x\<in>set (rg_records r). lx_lease_id x = rl_lease_id lease))"
proof (cases "find (\<lambda>x. lx_lease_id x = rl_lease_id lease) (rg_records r)")
  case None
  then have "\<forall>x\<in>set (rg_records r). lx_lease_id x \<noteq> rl_lease_id lease" by (simp add: find_None_iff)
  with None assms(1,4) show ?thesis by (auto simp: release_body_def owned_record_def)
next
  case (Some x)
  then have x: "x \<in> set (rg_records r)" "lx_lease_id x = rl_lease_id lease" by (auto simp: find_Some_iff)
  show ?thesis
  proof (cases "owned_record H (rg_records r) lease None")
    case (Inl e)
    then have "exc_type e = ''ValueError''" using Some by (auto simp: owned_record_def split: if_splits)
    with Inl assms(1,4) x show ?thesis by (auto simp: release_body_def)
  next
    case (Inr y)
    let ?ys = "filter (\<lambda>x. lx_lease_id x \<noteq> rl_lease_id lease) (rg_records r)"
    let ?r' = "\<lparr>rg_records = ?ys, rg_counters = rg_counters r\<rparr>"
    have "registry_ok ?r'" using assms(3) by (auto simp: registry_ok_def distinct_map_filter)
    then have "host_load H (host_save H ?ys (rg_counters r) s) = Inr (sorted_registry ?r')"
      using registry_round_trip [OF assms(2)] by (simp add: host_load_def host_save_def)
    with assms(1,4) Inr show ?thesis by (auto simp: release_body_def sorted_registry_def)
  qed
qed

theorem release_removes_exactly_witness:
  "\<exists>out s'. release_body slow_host (first_lease 0) (host_save slow_host [first_record 0] [(''x'', 1)] empty_world) = (out, s') \<and>
     (case out of Inr u \<Rightarrow> \<exists>r'. host_load slow_host s' = Inr r' \<and> set (rg_records r') = {} | Inl e \<Rightarrow> False)"
proof -
  let ?s = "host_save slow_host [first_record 0] [(''x'', 1)] empty_world"
  obtain out s' where run: "release_body slow_host (first_lease 0) ?s = (out, s')" by fastforce
  have "owned_record slow_host [first_record 0] (first_lease 0) None = Inr (first_record 0)"
    by (simp add: owned_record_def first_record_def first_lease_def)
  then have "out = Inr ()"
    using run by (simp add: release_body_def first_registry_loads)
  moreover have "codec_ok (lh_codec slow_host)" by (simp add: tally_codec_ok)
  note release_removes_exactly [OF first_registry_loads this first_registry_ok run]
  moreover have "{x. x = first_record 0 \<and> lx_lease_id x \<noteq> rl_lease_id (first_lease 0)} = {}"
    by (auto simp: first_record_def first_lease_def)
  ultimately have "\<exists>r'. host_load slow_host s' = Inr r' \<and> set (rg_records r') = {}" by simp
  with run \<open>out = Inr ()\<close> show ?thesis by (intro exI [of _ out] exI [of _ s']) simp
qed

section \<open>The registry file\<close>

text \<open>
  A valid registry is read back as it was saved, sorted by lease id and resource; other files are
  untouched; and saving what was read changes nothing more.
\<close>

theorem saved_registry_loads:
  assumes "codec_ok J" "registry_ok r"
  shows "load_registry J path (save_registry J path r files) = Inr (sorted_registry r) \<and>
    set (rg_records (sorted_registry r)) = set (rg_records r) \<and>
    (\<forall>k. dget (rg_counters (sorted_registry r)) k = dget (rg_counters r) k) \<and>
    (\<forall>p. p \<noteq> path \<longrightarrow> dget (save_registry J path r files) p = dget files p) \<and>
    load_registry J path (save_registry J path (sorted_registry r) files) = Inr (sorted_registry r)"
proof -
  have "codec_ok J \<and> registry_ok r" using assms by simp
  from lease_file.load_save [OF this, of path files] lease_file.load_resave [OF this, of path files _ files]
  have loads: "load_registry J path (save_registry J path r files) = Inr (sorted_registry r)"
    "load_registry J path (save_registry J path (sorted_registry r) files) = Inr (sorted_registry r)"
    by auto
  have wf: "wf_dict (rg_counters r)" using assms(2) by (simp add: registry_ok_def counters_ok_def)
  have "map_of (sort_key fst (rg_counters r)) = map_of (rg_counters r)"
    by (rule map_of_inject_set [THEN iffD2]) (use wf in \<open>simp_all add: wf_dict_def\<close>)
  then have "dget (rg_counters (sorted_registry r)) k = dget (rg_counters r) k" for k
    by (simp add: sorted_registry_def dget_def)
  moreover have "p \<noteq> path \<Longrightarrow> dget (save_registry J path r files) p = dget files p" for p
    by (simp add: save_registry_def)
  ultimately show ?thesis using loads by (simp add: sorted_registry_def)
qed

theorem saved_registry_loads_witness:
  "load_registry tally_codec ''p'' (save_registry tally_codec ''p''
     \<lparr>rg_records = [first_record 0], rg_counters = [(''x'', 1)]\<rparr> []) =
   Inr \<lparr>rg_records = [first_record 0], rg_counters = [(''x'', 1)]\<rparr>"
  using saved_registry_loads [OF tally_codec_ok first_registry_ok] by (simp add: sorted_registry_def)

section \<open>The lock directory\<close>

text \<open>
  C32: while every directory that is moved away as stale was abandoned by its maker, the lock excludes:
  at most one process is in the critical section (or has made the directory and not yet written
  its time), and its directory is the one in place.
\<close>

theorem lock_excludes:
  assumes "lock_run T True s" "inside s i" "inside s j"
  shows "i = j \<and> (\<exists>t. sy_dir s = Some (i, t))"
  using lock_run_inv [OF assms(1)] assms(2,3) unfolding lock_inv_def by (metis option.inject prod.inject)

definition one_holder :: lock_sys where
  "one_holder = \<lparr>sy_time = 0, sy_dir = Some (1, 0), sy_pc = (\<lambda>i. Outside)(1 := Holding)\<rparr>"

lemma one_holder_run: "lock_run 30 True one_holder"
proof -
  let ?at = "\<lambda>pc d. \<lparr>sy_time = 0, sy_dir = d, sy_pc = (\<lambda>i. Outside)(1 := pc)\<rparr>"
  have 0: "lock_run 30 True lock_start" by (rule lock_run.started)
  have 1: "lock_run 30 True (?at Looking None)"
    by (rule lock_run.stepped [OF 0, of "Enter 1"]) (simp_all add: lock_start_def go_def clean_def)
  have 2: "lock_run 30 True (?at Making None)"
    by (rule lock_run.stepped [OF 1, of "Look 1"]) (simp_all add: go_def clean_def)
  have 3: "lock_run 30 True (?at Stamping (Some (1, 0)))"
    by (rule lock_run.stepped [OF 2, of "Make 1"]) (simp_all add: go_def clean_def)
  show ?thesis
    unfolding one_holder_def
    by (rule lock_run.stepped [OF 3, of "Stamp 1"]) (simp_all add: go_def clean_def)
qed

theorem lock_excludes_witness: "\<exists>t. sy_dir one_holder = Some (1, t)"
  using lock_excludes [OF one_holder_run, of 1 1] by (simp add: inside_def one_holder_def)

text \<open>
  Without that condition it does not. The check for staleness and the renaming are two calls: with
  a threshold of 30 seconds, two processes that find a directory left by a crashed one both stale
  may both enter, the second one by moving away the directory the first has just made.
\<close>

theorem stale_reclaim_admits_two_holders:
  shows "\<exists>s. lock_run 30 False s \<and> sy_pc s 1 = Holding \<and> sy_pc s 2 = Holding \<and> sy_time s = 31"
proof -
  let ?es = "[Enter 0, Look 0, Make 0, Stamp 0, Crash 0, Tick 31, Enter 1, Look 1, Enter 2, Look 2,
    Rename 1, Make 1, Stamp 1, Rename 2, Make 2, Stamp 2]"
  have "\<exists>s. lock_steps 30 ?es lock_start = Some s \<and> sy_pc s 1 = Holding \<and> sy_pc s 2 = Holding \<and> sy_time s = 31"
    by (simp add: lock_start_def go_def)
  then show ?thesis using lock_steps_run [OF lock_run.started] by blast
qed

end
