(* ===== verification/Process_Registry.thy ===== *)
theory Process_Registry
  imports Json_Files
begin

text \<open>
  The lifecycle registry of child processes (\<open>loop_engine/adapters/process_registry.py\<close>): register,
  heartbeat, finish, listing, pruning and reaping, each on the dictionary of records and the JSON
  file that mirrors it. Clock, ids, host name, process identities and termination are the outside
  world. The registry's lock makes each operation one step.
\<close>

section \<open>Data\<close>

record process_record =
  pr_record_id :: string
  pr_owner_run_id :: string
  pr_pid :: int
  pr_identity :: string
  pr_command_sha256 :: string
  pr_cwd :: string
  pr_timeout_seconds :: rat
  pr_hostname :: string
  pr_status :: string
  pr_started_at :: rat
  pr_heartbeat_at :: rat
  pr_finished_at :: "rat option"
  pr_exit_code :: "int option"
  pr_reason :: "string option"

type_synonym process_records = "(string \<times> process_record) list"

record 'w process_host =
  ph_codec :: json_codec
  ph_path :: "string option"
  ph_clock :: "'w \<Rightarrow> rat \<times> 'w"
  ph_uuid :: "'w \<Rightarrow> string \<times> 'w"
  ph_hostname :: "'w \<Rightarrow> string \<times> 'w"
  ph_sha256 :: "8 word list \<Rightarrow> 8 word list"

record 'w process_world =
  pw_records :: process_records
  pw_files :: directory
  pw_world :: 'w

definition consult :: "('w \<Rightarrow> 'a \<times> 'w) \<Rightarrow> 'w process_world \<Rightarrow> 'a \<times> 'w process_world" where
  "consult f s = (let (x, w) = f (pw_world s) in (x, s\<lparr>pw_world := w\<rparr>))"

section \<open>The file\<close>

definition popt_int :: "int option \<Rightarrow> pyval" where
  "popt_int x = (case x of None \<Rightarrow> PNone | Some i \<Rightarrow> PInt i)"

fun as_opt_int :: "pyval \<Rightarrow> int option option" where
  "as_opt_int PNone = Some None"
| "as_opt_int (PInt i) = Some (Some i)"
| "as_opt_int _ = None"

fun as_opt_num :: "pyval \<Rightarrow> rat option option" where
  "as_opt_num PNone = Some None"
| "as_opt_num v = map_option Some (finite_num v)"

definition process_dict :: "process_record \<Rightarrow> pydict" where
  "process_dict r = [(''record_id'', PStr (pr_record_id r)), (''owner_run_id'', PStr (pr_owner_run_id r)),
     (''pid'', PInt (pr_pid r)), (''process_identity'', PStr (pr_identity r)),
     (''command_sha256'', PStr (pr_command_sha256 r)), (''cwd'', PStr (pr_cwd r)),
     (''timeout_seconds'', pnum (pr_timeout_seconds r)), (''hostname'', PStr (pr_hostname r)),
     (''status'', PStr (pr_status r)), (''started_at'', pnum (pr_started_at r)),
     (''heartbeat_at'', pnum (pr_heartbeat_at r)), (''finished_at'', popt_num (pr_finished_at r)),
     (''exit_code'', popt_int (pr_exit_code r)), (''reason'', popt_str (pr_reason r))]"

definition process_keys :: "string list" where
  "process_keys = [''record_id'', ''owner_run_id'', ''pid'', ''process_identity'', ''command_sha256'', ''cwd'',
     ''timeout_seconds'', ''hostname'', ''status'', ''started_at'', ''heartbeat_at'', ''finished_at'',
     ''exit_code'', ''reason'']"

text \<open>\<open>ProcessRecord(**dict(row))\<close>; a field that is not of the declared type is an error here, the
  code would keep it.\<close>

definition process_from :: "pyval \<Rightarrow> py_exc + process_record" where
  "process_from v = (case Option.bind (as_dict v) (\<lambda>d.
      if \<not> only_keys process_keys d then None
      else Option.bind (req_arg d ''record_id'' as_str) (\<lambda>record_id.
        Option.bind (req_arg d ''owner_run_id'' as_str) (\<lambda>owner.
        Option.bind (req_arg d ''pid'' plain_int) (\<lambda>pid.
        Option.bind (req_arg d ''process_identity'' as_str) (\<lambda>identity.
        Option.bind (req_arg d ''command_sha256'' as_str) (\<lambda>sha.
        Option.bind (req_arg d ''cwd'' as_str) (\<lambda>cwd.
        Option.bind (req_arg d ''timeout_seconds'' finite_num) (\<lambda>timeout.
        Option.bind (req_arg d ''hostname'' as_str) (\<lambda>hostname.
        Option.bind (req_arg d ''status'' as_str) (\<lambda>status.
        Option.bind (req_arg d ''started_at'' finite_num) (\<lambda>started.
        Option.bind (req_arg d ''heartbeat_at'' finite_num) (\<lambda>heartbeat.
        Option.bind (opt_arg d ''finished_at'' None as_opt_num) (\<lambda>finished.
        Option.bind (opt_arg d ''exit_code'' None as_opt_int) (\<lambda>exit_code.
        Option.bind (opt_arg d ''reason'' None as_opt_str) (\<lambda>reason.
          Some \<lparr>pr_record_id = record_id, pr_owner_run_id = owner, pr_pid = pid, pr_identity = identity,
            pr_command_sha256 = sha, pr_cwd = cwd, pr_timeout_seconds = timeout, pr_hostname = hostname,
            pr_status = status, pr_started_at = started, pr_heartbeat_at = heartbeat,
            pr_finished_at = finished, pr_exit_code = exit_code, pr_reason = reason\<rparr>))))))))))))))) of
      None \<Rightarrow> Inl (malformed ''process record'') | Some r \<Rightarrow> Inr r)"

fun read_processes :: "pyval list \<Rightarrow> process_records \<Rightarrow> py_exc + process_records" where
  "read_processes [] loaded = Inr loaded"
| "read_processes (row # rows) loaded = exc_bind (process_from row) (\<lambda>r.
     if pr_record_id r \<in> set (dkeys loaded) then Inl (ValueError ''duplicate process registry record_id'')
     else read_processes rows (dset (pr_record_id r) r loaded))"

definition load_processes :: "json_codec \<Rightarrow> string \<Rightarrow> directory \<Rightarrow> py_exc + process_records" where
  "load_processes J path files = (case dget files path of
      None \<Rightarrow> Inr []
    | Some text \<Rightarrow> (case jc_loads J text of
        None \<Rightarrow> Inl (PyExc ''JSONDecodeError'' path)
      | Some v \<Rightarrow> (case as_dict v of
          None \<Rightarrow> Inl (malformed ''process registry'')
        | Some payload \<Rightarrow>
            if \<not> eq_num (dget_or PNone payload ''schema_version'') 1
              then Inl (ValueError ''unsupported process registry schema_version'')
            else (case as_list (dget_or PNone payload ''records'') of
                None \<Rightarrow> Inl (ValueError ''process registry records must be an array'')
              | Some rows \<Rightarrow> read_processes rows []))))"

definition save_processes :: "json_codec \<Rightarrow> string \<Rightarrow> process_records \<Rightarrow> directory \<Rightarrow> directory" where
  "save_processes J path records files = dset path (jc_dumps J (PDict
     [(''schema_version'', PInt 1),
      (''records'', PList (map (\<lambda>kr. PDict (process_dict (snd kr))) (sort_key fst records)))]) @ [CHR 0x0A]) files"

definition pg_save :: "'w process_host \<Rightarrow> 'w process_world \<Rightarrow> 'w process_world" where
  "pg_save H s = (case ph_path H of None \<Rightarrow> s
     | Some path \<Rightarrow> s\<lparr>pw_files := save_processes (ph_codec H) path (pw_records s) (pw_files s)\<rparr>)"

text \<open>\<open>__init__\<close>.\<close>

definition open_registry :: "'w process_host \<Rightarrow> directory \<Rightarrow> 'w \<Rightarrow> py_exc + 'w process_world" where
  "open_registry H files w = (case ph_path H of
      None \<Rightarrow> Inr \<lparr>pw_records = [], pw_files = files, pw_world = w\<rparr>
    | Some path \<Rightarrow> exc_bind (load_processes (ph_codec H) path files)
        (\<lambda>records. Inr \<lparr>pw_records = records, pw_files = files, pw_world = w\<rparr>))"

section \<open>Operations\<close>

definition command_digest :: "'w process_host \<Rightarrow> string list \<Rightarrow> string" where
  "command_digest H argv = hexdigest (ph_sha256 H (utf8 (jc_dumps (ph_codec H) (pstrs argv))))"

definition store_record :: "'w process_host \<Rightarrow> string \<Rightarrow> process_record \<Rightarrow> 'w process_world \<Rightarrow> 'w process_world" where
  "store_record H record_id r s = pg_save H (s\<lparr>pw_records := dset record_id r (pw_records s)\<rparr>)"

definition register_process ::
  "'w process_host \<Rightarrow> string \<Rightarrow> int \<Rightarrow> string \<Rightarrow> string list \<Rightarrow> string \<Rightarrow> rat \<Rightarrow> 'w process_world
   \<Rightarrow> (py_exc + process_record) \<times> 'w process_world"
where
  "register_process H owner_run_id pid identity argv cwd timeout s =
     (let owner = strip owner_run_id in
      if owner = [] then (Inl (ValueError ''process owner_run_id is required''), s)
      else if pid \<le> 0 \<or> identity = [] then (Inl (ValueError ''process pid and identity are required''), s)
      else
        let (now, s1) = consult (ph_clock H) s;
            (record_id, s2) = consult (ph_uuid H) s1;
            (hostname, s3) = consult (ph_hostname H) s2;
            r = \<lparr>pr_record_id = record_id, pr_owner_run_id = owner, pr_pid = pid, pr_identity = identity,
              pr_command_sha256 = command_digest H argv, pr_cwd = cwd, pr_timeout_seconds = timeout,
              pr_hostname = hostname, pr_status = ''running'', pr_started_at = now, pr_heartbeat_at = now,
              pr_finished_at = None, pr_exit_code = None, pr_reason = None\<rparr>
        in (Inr r, store_record H record_id r s3))"

definition require_running :: "string \<Rightarrow> 'w process_world \<Rightarrow> py_exc + process_record" where
  "require_running record_id s = (case dget (pw_records s) record_id of
      None \<Rightarrow> Inl (PyExc ''KeyError'' (repr_str (''unknown process record: '' @ record_id)))
    | Some r \<Rightarrow>
        if pr_status r \<noteq> ''running'' then Inl (ValueError (''process record is already terminal: '' @ record_id))
        else Inr r)"

definition heartbeat :: "'w process_host \<Rightarrow> string \<Rightarrow> 'w process_world \<Rightarrow> (py_exc + process_record) \<times> 'w process_world" where
  "heartbeat H record_id s = (case require_running record_id s of
      Inl e \<Rightarrow> (Inl e, s)
    | Inr current \<Rightarrow>
        let (now, s1) = consult (ph_clock H) s;
            updated = current\<lparr>pr_heartbeat_at := now\<rparr>
        in (Inr updated, store_record H record_id updated s1))"

definition finish ::
  "'w process_host \<Rightarrow> string \<Rightarrow> string \<Rightarrow> int option \<Rightarrow> string option \<Rightarrow> 'w process_world
   \<Rightarrow> (py_exc + process_record) \<times> 'w process_world"
where
  "finish H record_id status exit_code reason s =
     (if status = ''running'' then (Inl (ValueError ''terminal process status is required''), s)
      else case dget (pw_records s) record_id of
        None \<Rightarrow> (Inl (PyExc ''KeyError'' (repr_str (''unknown process record: '' @ record_id))), s)
      | Some current \<Rightarrow>
          if pr_status current \<noteq> ''running'' then (Inr current, s)
          else
            let (now, s1) = consult (ph_clock H) s;
                updated = current\<lparr>pr_status := status, pr_heartbeat_at := now, pr_finished_at := Some now,
                  pr_exit_code := exit_code, pr_reason := reason\<rparr>
            in (Inr updated, store_record H record_id updated s1))"

definition get_record :: "string \<Rightarrow> 'w process_world \<Rightarrow> process_record option" where
  "get_record record_id s = dget (pw_records s) record_id"

definition list_records :: "string option \<Rightarrow> 'w process_world \<Rightarrow> process_record list" where
  "list_records status s =
     (let values = map snd (pw_records s);
          chosen = (case status of None \<Rightarrow> values | Some x \<Rightarrow> filter (\<lambda>r. pr_status r = x) values)
      in sort_key (\<lambda>r. (pr_started_at r, pr_record_id r)) chosen)"

text \<open>\<open>clock() - retain_seconds\<close> as a bound for finite times: an infinite or undefined retention has none
  below it.\<close>

definition seconds_ago :: "rat \<Rightarrow> pyfloat \<Rightarrow> rat option" where
  "seconds_ago now retain = (case retain of FFin r \<Rightarrow> Some (now - r) | _ \<Rightarrow> None)"

definition expired :: "rat option \<Rightarrow> process_record \<Rightarrow> bool" where
  "expired cutoff r \<longleftrightarrow> pr_status r \<noteq> ''running'' \<and>
     (case (pr_finished_at r, cutoff) of (Some t, Some c) \<Rightarrow> t < c | _ \<Rightarrow> False)"

definition removable :: "rat option \<Rightarrow> int option \<Rightarrow> 'w process_world \<Rightarrow> process_record list" where
  "removable cutoff limit s =
     (let rs = sort_key (\<lambda>r. (the (pr_finished_at r), pr_record_id r)) (filter (expired cutoff) (map snd (pw_records s)))
      in (case limit of None \<Rightarrow> rs | Some n \<Rightarrow> take (nat n) rs))"

definition negative :: "pyfloat \<Rightarrow> bool" where
  "negative x \<longleftrightarrow> (case x of FFin r \<Rightarrow> r < 0 | FNegInf \<Rightarrow> True | _ \<Rightarrow> False)"

definition prune_terminal :: "'w process_host \<Rightarrow> pyfloat \<Rightarrow> pyval \<Rightarrow> 'w process_world \<Rightarrow> (py_exc + nat) \<times> 'w process_world" where
  "prune_terminal H retain_seconds max_records s =
     (if negative retain_seconds then (Inl (ValueError ''retain_seconds must not be negative''), s)
      else if max_records \<noteq> PNone \<and> (case plain_int max_records of None \<Rightarrow> True | Some n \<Rightarrow> n \<le> 0)
        then (Inl (ValueError ''max_records must be positive''), s)
      else
        let (now, s1) = consult (ph_clock H) s;
            rs = removable (seconds_ago now retain_seconds) (plain_int max_records) s1;
            s2 = s1\<lparr>pw_records := fold (\<lambda>r d. ddel (pr_record_id r) d) rs (pw_records s1)\<rparr>
        in (Inr (length rs), if rs \<noteq> [] then pg_save H s2 else s2))"

section \<open>Reaping\<close>

text \<open>The loop over the stale records; \<open>terminate\<close> may raise.\<close>

fun reap_all ::
  "'w process_host \<Rightarrow> (int \<Rightarrow> 'w \<Rightarrow> string option \<times> 'w) \<Rightarrow> (int \<Rightarrow> 'w \<Rightarrow> py_exc option \<times> 'w)
   \<Rightarrow> process_record list \<Rightarrow> 'w process_world \<Rightarrow> (py_exc + process_record list) \<times> 'w process_world"
where
  "reap_all H lookup terminate [] s = (Inr [], s)"
| "reap_all H lookup terminate (r # rs) s =
     (let (found, s1) = consult (lookup (pr_pid r)) s;
          (outcome, s2) =
            (if found \<noteq> Some (pr_identity r)
             then finish H (pr_record_id r) ''lost'' None (Some ''process_identity_missing_or_changed'') s1
             else (case consult (terminate (pr_pid r)) s1 of
                 (Some e, s3) \<Rightarrow> (Inl e, s3)
               | (None, s3) \<Rightarrow> finish H (pr_record_id r) ''terminated'' None (Some ''stale_heartbeat'') s3))
      in case outcome of
          Inl e \<Rightarrow> (Inl e, s2)
        | Inr reaped \<Rightarrow> (case reap_all H lookup terminate rs s2 of
            (Inl e, s4) \<Rightarrow> (Inl e, s4)
          | (Inr others, s4) \<Rightarrow> (Inr (reaped # others), s4)))"

definition stale_running :: "rat \<Rightarrow> rat \<Rightarrow> 'w process_world \<Rightarrow> process_record list" where
  "stale_running now stale_after s =
     filter (\<lambda>r. now - pr_heartbeat_at r > stale_after) (list_records (Some ''running'') s)"

definition reap_stale ::
  "'w process_host \<Rightarrow> rat \<Rightarrow> (int \<Rightarrow> 'w \<Rightarrow> string option \<times> 'w) \<Rightarrow> (int \<Rightarrow> 'w \<Rightarrow> py_exc option \<times> 'w)
   \<Rightarrow> 'w process_world \<Rightarrow> (py_exc + process_record list) \<times> 'w process_world"
where
  "reap_stale H stale_after lookup terminate s =
     (if stale_after \<le> 0 then (Inl (ValueError ''stale_after_seconds must be positive''), s)
      else let (now, s1) = consult (ph_clock H) s
           in reap_all H lookup terminate (stale_running now stale_after s1) s1)"

section \<open>Round trip\<close>

lemma popt_int_round_trip [simp]: "as_opt_int (popt_int x) = Some x"
  by (cases x) (simp_all add: popt_int_def)

lemma popt_num_round_trip [simp]: "as_opt_num (popt_num x) = Some x"
  by (cases x) (simp_all add: popt_num_def)

lemma process_round_trip: "process_from (PDict (process_dict r)) = Inr r"
  by (simp add: process_from_def process_dict_def only_keys_def process_keys_def dkeys_def req_arg_def opt_arg_def)

text \<open>Every record is stored under its id.\<close>

definition records_ok :: "process_records \<Rightarrow> bool" where
  "records_ok d \<longleftrightarrow> wf_dict d \<and> (\<forall>(k, r)\<in>set d. pr_record_id r = k)"

lemma read_processes_round_trip:
  assumes "wf_dict (l @ d)" "\<forall>(k, r)\<in>set d. pr_record_id r = k"
  shows "read_processes (map (\<lambda>kr. PDict (process_dict (snd kr))) d) l = Inr (l @ d)"
  using assms
proof (induction d arbitrary: l)
  case (Cons kr d)
  obtain k r where kr: "kr = (k, r)" by fastforce
  have new: "k \<notin> set (dkeys l)" using Cons.prems(1) by (auto simp: kr wf_dict_def dkeys_def)
  have "read_processes (map (\<lambda>kr. PDict (process_dict (snd kr))) d) (l @ [(k, r)]) = Inr ((l @ [(k, r)]) @ d)"
    by (rule Cons.IH) (use Cons.prems kr in auto)
  with Cons.prems(2) new show ?case by (simp add: kr process_round_trip dset_new)
qed simp

lemma processes_round_trip:
  assumes "codec_ok J" "records_ok d"
  shows "load_processes J path (save_processes J path d files) = Inr (sort_key fst d)"
proof -
  have "read_processes (map (\<lambda>kr. PDict (process_dict (snd kr))) (sort_key fst d)) [] = Inr (sort_key fst d)"
    using read_processes_round_trip [of "[]" "sort_key fst d"] assms(2) by (simp add: records_ok_def)
  then show ?thesis
    by (simp add: load_processes_def save_processes_def codec_loads_line [OF assms(1)] eq_num_def dget_or_def)
qed

interpretation process_file: saved_file "load_processes J path" "save_processes J path"
  "\<lambda>d. codec_ok J \<and> records_ok d" "sort_key fst" for J path
  by unfold_locales (auto simp: processes_round_trip records_ok_def sort_key_id_if_sorted)

section \<open>Records evolve one way\<close>

text \<open>The fields that identify a process never change; a terminal record does not change at all.\<close>

definition same_process :: "process_record \<Rightarrow> process_record \<Rightarrow> bool" where
  "same_process r r' \<longleftrightarrow> pr_record_id r' = pr_record_id r \<and> pr_owner_run_id r' = pr_owner_run_id r \<and>
     pr_pid r' = pr_pid r \<and> pr_identity r' = pr_identity r \<and> pr_command_sha256 r' = pr_command_sha256 r \<and>
     pr_cwd r' = pr_cwd r \<and> pr_timeout_seconds r' = pr_timeout_seconds r \<and> pr_hostname r' = pr_hostname r \<and>
     pr_started_at r' = pr_started_at r"

definition follows :: "process_record \<Rightarrow> process_record \<Rightarrow> bool" where
  "follows r r' \<longleftrightarrow> same_process r r' \<and> (pr_status r \<noteq> ''running'' \<longrightarrow> r' = r)"

definition evolves :: "process_records \<Rightarrow> process_records \<Rightarrow> bool" where
  "evolves d d' \<longleftrightarrow> (\<forall>k r. dget d k = Some r \<longrightarrow> (\<exists>r'. dget d' k = Some r' \<and> follows r r'))"

lemma follows_refl [simp]: "follows r r"
  by (simp add: follows_def same_process_def)

lemma follows_trans: "follows r r' \<Longrightarrow> follows r' r'' \<Longrightarrow> follows r r''"
  by (auto simp: follows_def same_process_def)

lemma evolves_refl [simp]: "evolves d d"
  by (simp add: evolves_def)

lemma evolves_trans: "evolves d d' \<Longrightarrow> evolves d' d'' \<Longrightarrow> evolves d d''"
  unfolding evolves_def using follows_trans by blast

lemma evolves_dset: "(\<forall>r. dget d k = Some r \<longrightarrow> follows r r') \<Longrightarrow> evolves d (dset k r' d)"
  by (auto simp: evolves_def)

lemma records_ok_iff: "records_ok d \<longleftrightarrow> wf_dict d \<and> (\<forall>k r. dget d k = Some r \<longrightarrow> pr_record_id r = k)"
proof (cases "wf_dict d")
  case True
  have "(\<forall>(k, r)\<in>set d. pr_record_id r = k) \<longleftrightarrow> (\<forall>k r. (k, r) \<in> set d \<longrightarrow> pr_record_id r = k)" by auto
  then show ?thesis by (simp add: records_ok_def dget_in [OF True])
qed (simp add: records_ok_def)

lemma records_ok_dset: "records_ok d \<Longrightarrow> pr_record_id r = k \<Longrightarrow> records_ok (dset k r d)"
  by (simp add: records_ok_iff)

lemma dget_fold_ddel: "dget (fold (\<lambda>r d. ddel (f r) d) rs d) k = (if k \<in> f ` set rs then None else dget d k)"
  by (induction rs arbitrary: d) auto

lemma wf_fold_ddel: "wf_dict d \<Longrightarrow> wf_dict (fold (\<lambda>r d. ddel (f r) d) rs d)"
  by (induction rs arbitrary: d) auto

text \<open>The file holds the dictionary that is in memory.\<close>

definition mirrors :: "'w process_host \<Rightarrow> 'w process_world \<Rightarrow> bool" where
  "mirrors H s \<longleftrightarrow> records_ok (pw_records s) \<and> (\<forall>path. ph_path H = Some path \<longrightarrow>
     (\<exists>d. load_processes (ph_codec H) path (pw_files s) = Inr d \<and> (\<forall>k. dget d k = dget (pw_records s) k)))"

lemma dget_sort: "wf_dict d \<Longrightarrow> dget (sort_key fst d) k = dget d k"
proof -
  assume wf: "wf_dict d"
  have "map_of (sort_key fst d) = map_of d"
    by (rule map_of_inject_set [THEN iffD2]) (use wf in \<open>simp_all add: wf_dict_def\<close>)
  then show ?thesis by (simp add: dget_def)
qed

lemma mirrors_save:
  assumes "codec_ok (ph_codec H)" "records_ok (pw_records s)"
  shows "mirrors H (pg_save H s)"
  using assms processes_round_trip [OF assms] dget_sort
  by (auto simp: mirrors_def pg_save_def records_ok_def split: option.split)

lemma mirrors_store:
  "codec_ok (ph_codec H) \<Longrightarrow> records_ok (pw_records s) \<Longrightarrow> pr_record_id r = k \<Longrightarrow> mirrors H (store_record H k r s)"
  unfolding store_record_def by (rule mirrors_save) (simp_all add: records_ok_dset)

lemma pg_save_fields [simp]: "pw_records (pg_save H s) = pw_records s" "pw_world (pg_save H s) = pw_world s"
  by (simp_all add: pg_save_def split: option.split)

lemma store_record_fields [simp]:
  "pw_records (store_record H k r s) = dset k r (pw_records s)" "pw_world (store_record H k r s) = pw_world s"
  by (simp_all add: store_record_def)

lemma mirrors_world [simp]: "mirrors H (s\<lparr>pw_world := w\<rparr>) = mirrors H s"
  by (simp add: mirrors_def)

lemma consult_eq: "consult f s = (fst (f (pw_world s)), s\<lparr>pw_world := snd (f (pw_world s))\<rparr>)"
  by (simp add: consult_def case_prod_unfold Let_def)

text \<open>What an operation that removes nothing does: the records evolve, and the file follows.\<close>

definition updates :: "'w process_host \<Rightarrow> 'w process_world \<Rightarrow> 'w process_world \<Rightarrow> bool" where
  "updates H s s' \<longleftrightarrow> evolves (pw_records s) (pw_records s') \<and>
     (codec_ok (ph_codec H) \<longrightarrow> mirrors H s \<longrightarrow> mirrors H s') \<and> (records_ok (pw_records s) \<longrightarrow> records_ok (pw_records s'))"

lemma updates_refl [simp]: "updates H s (s\<lparr>pw_world := w\<rparr>)" "updates H s s"
  by (simp_all add: updates_def)

lemma updates_trans: "updates H s s' \<Longrightarrow> updates H s' s'' \<Longrightarrow> updates H s s''"
  unfolding updates_def using evolves_trans by blast

lemma updates_store:
  assumes "\<forall>r. dget (pw_records s) k = Some r \<longrightarrow> follows r r'" "pr_record_id r' = k"
  shows "updates H s (store_record H k r' (s\<lparr>pw_world := w\<rparr>))"
  using assms mirrors_store [of H "s\<lparr>pw_world := w\<rparr>" r' k]
  by (auto simp: updates_def evolves_dset records_ok_dset mirrors_def)

lemma register_updates:
  assumes "register_process H owner pid identity argv cwd timeout s = (out, s')"
    "\<forall>r. out = Inr r \<longrightarrow> pr_record_id r \<notin> set (dkeys (pw_records s))"
  shows "updates H s s'"
  using assms by (auto simp: register_process_def consult_eq Let_def dget_None_iff [symmetric]
      intro!: updates_store split: if_splits)

lemma heartbeat_updates:
  assumes "heartbeat H k s = (out, s')" "records_ok (pw_records s)"
  shows "updates H s s'"
proof (cases "require_running k s")
  case (Inr r)
  then have r: "dget (pw_records s) k = Some r" "pr_status r = ''running''"
    by (auto simp: require_running_def split: option.splits if_splits)
  moreover have "pr_record_id r = k" using r(1) assms(2) by (auto simp: records_ok_iff)
  ultimately show ?thesis
    using assms(1) Inr by (auto simp: heartbeat_def consult_eq Let_def follows_def same_process_def intro!: updates_store)
qed (use assms(1) in \<open>simp add: heartbeat_def\<close>)

lemma finish_updates:
  assumes "finish H k status code reason s = (out, s')" "records_ok (pw_records s)"
  shows "updates H s s'"
proof (cases "dget (pw_records s) k")
  case None
  with assms(1) show ?thesis by (auto simp: finish_def split: if_splits)
next
  case (Some r)
  have "pr_record_id r = k" using Some assms(2) by (auto simp: records_ok_iff)
  with assms(1) Some show ?thesis
    by (auto simp: finish_def consult_eq Let_def follows_def same_process_def intro!: updates_store split: if_splits)
qed

lemma finish_terminal:
  assumes "finish H k status code reason s = (Inr r, s')"
  shows "dget (pw_records s') k = Some r \<and> pr_status r \<noteq> ''running'' \<and> (\<forall>j. j \<noteq> k \<longrightarrow> dget (pw_records s') j = dget (pw_records s) j)"
  using assms by (auto simp: finish_def consult_eq Let_def split: if_splits option.splits)

lemma reap_all_updates:
  assumes "reap_all H lookup terminate rs s = (out, s')" "records_ok (pw_records s)"
  shows "updates H s s'"
  using assms
proof (induction rs arbitrary: s out)
  case (Cons r rs)
  obtain found s1 where l: "consult (lookup (pr_pid r)) s = (found, s1)" by fastforce
  obtain te s3 where t: "consult (terminate (pr_pid r)) s1 = (te, s3)" by fastforce
  have keep: "updates H s s1" "updates H s s3" "records_ok (pw_records s1)" "records_ok (pw_records s3)"
    using l t Cons.prems(2) by (auto simp: consult_eq)
  have step: "updates H s s2" if "finish H (pr_record_id r) st None re s0 = (oc, s2)" "s0 = s1 \<or> s0 = s3" for st re s0 oc s2
    using finish_updates [OF that(1)] that(2) keep updates_trans by blast
  have tail: "updates H s s'" if "finish H (pr_record_id r) st None re s0 = (Inr x, s2)" "s0 = s1 \<or> s0 = s3"
      "reap_all H lookup terminate rs s2 = (oc, s')" for st re s0 x s2 oc
  proof -
    note 1 = step [OF that(1,2)]
    then have "records_ok (pw_records s2)" using Cons.prems(2) by (simp add: updates_def)
    from Cons.IH [OF that(3) this] 1 show ?thesis using updates_trans by blast
  qed
  show ?case
  proof (cases "found = Some (pr_identity r)")
    case True
    with Cons.prems(1) l t keep step tail show ?thesis
      by (auto split: option.splits sum.splits prod.splits)
  next
    case False
    with Cons.prems(1) l step tail show ?thesis
      by (auto split: sum.splits prod.splits)
  qed
qed simp

section \<open>Pruning\<close>

lemma removable_sub: "set (removable cutoff limit s) \<subseteq> {r \<in> snd ` set (pw_records s). expired cutoff r}"
  by (auto simp: removable_def Let_def dest: in_set_takeD split: option.splits)

lemma removable_world [simp]: "removable cutoff limit (s\<lparr>pw_world := w\<rparr>) = removable cutoff limit s"
  by (simp add: removable_def)

lemma prune_records:
  assumes "prune_terminal H retain limit s = (Inr n, s')"
  shows "\<exists>now w rs. (now, w) = ph_clock H (pw_world s) \<and> pw_world s' = w \<and>
    rs = removable (seconds_ago now retain) (plain_int limit) s \<and> n = length rs \<and>
    pw_records s' = fold (\<lambda>r d. ddel (pr_record_id r) d) rs (pw_records s)"
proof -
  obtain now w where "ph_clock H (pw_world s) = (now, w)" by fastforce
  with assms show ?thesis
    by (auto simp: prune_terminal_def consult_eq Let_def split: if_splits)
qed

lemma prune_mirrors:
  assumes "prune_terminal H retain limit s = (out, s')" "codec_ok (ph_codec H)" "mirrors H s"
  shows "mirrors H s'"
proof -
  have ok: "records_ok (pw_records s)" using assms(3) by (simp add: mirrors_def)
  have del: "records_ok (fold (\<lambda>r d. ddel (pr_record_id r) d) rs (pw_records s))" for rs
    using ok wf_fold_ddel [of "pw_records s" pr_record_id rs] by (simp add: records_ok_iff dget_fold_ddel)
  have save: "mirrors H (pg_save H (s\<lparr>pw_world := w, pw_records := fold (\<lambda>r d. ddel (pr_record_id r) d) rs (pw_records s)\<rparr>))" for rs w
    by (rule mirrors_save [OF assms(2)]) (simp add: del)
  show ?thesis
    using assms(1,3) save by (auto simp: prune_terminal_def consult_eq Let_def split: if_splits)
qed

section \<open>The operations as transitions\<close>

inductive registry_op :: "'w process_host \<Rightarrow> 'w process_world \<Rightarrow> 'w process_world \<Rightarrow> bool" for H where
  register: "register_process H owner pid identity argv cwd timeout s = (out, s') \<Longrightarrow>
    \<forall>r. out = Inr r \<longrightarrow> pr_record_id r \<notin> set (dkeys (pw_records s)) \<Longrightarrow> registry_op H s s'"
| beat: "heartbeat H k s = (out, s') \<Longrightarrow> registry_op H s s'"
| finished: "finish H k status code reason s = (out, s') \<Longrightarrow> registry_op H s s'"
| pruned: "prune_terminal H retain limit s = (cnt, s') \<Longrightarrow> registry_op H s s'"
| reaped: "reap_stale H stale_after lookup terminate s = (outs, s') \<Longrightarrow> registry_op H s s'"
| outside: "registry_op H s (s\<lparr>pw_world := w\<rparr>)"

inductive_cases registry_opE: "registry_op H s s'"

inductive registry_ops :: "'w process_host \<Rightarrow> 'w process_world \<Rightarrow> 'w process_world \<Rightarrow> bool" for H where
  none: "registry_ops H s s"
| more: "registry_ops H s s' \<Longrightarrow> registry_op H s' s'' \<Longrightarrow> registry_ops H s s''"

lemma reap_stale_updates:
  assumes "reap_stale H stale_after lookup terminate s = (outs, s')" "records_ok (pw_records s)"
  shows "updates H s s'"
proof (cases "stale_after \<le> 0")
  case False
  let ?s = "s\<lparr>pw_world := snd (ph_clock H (pw_world s))\<rparr>"
  have "reap_all H lookup terminate (stale_running (fst (ph_clock H (pw_world s))) stale_after ?s) ?s = (outs, s')"
    using assms(1) False by (simp add: reap_stale_def consult_eq)
  from reap_all_updates [OF this] assms(2) have "updates H ?s s'" by simp
  then show ?thesis using updates_trans updates_refl by metis
qed (use assms(1) in \<open>simp add: reap_stale_def\<close>)

lemma registry_op_updates:
  assumes "registry_op H s s'" "records_ok (pw_records s)"
  shows "updates H s s' \<or> (\<exists>retain limit out. prune_terminal H retain limit s = (out, s'))"
  using assms by (cases rule: registry_op.cases)
    (auto intro: register_updates heartbeat_updates finish_updates reap_stale_updates)

end
