(* ===== verification/Service_Reports.thy ===== *)
theory Service_Reports
  imports Json_Files
begin

text \<open>
  Reports of bounded service runs and their store (\<open>loop_engine/adapters/service_reports.py\<close>). The
  details of a report are a frozen JSON value: mappings are read-only, arrays are tuples. The
  store keeps one file per service and run; a file's key is its path under the root. Timestamps
  are finite numbers.
\<close>

section \<open>Frozen JSON values\<close>

datatype frozen =
    FAtom pyval
  | FTuple "frozen list"
  | FMap "(string \<times> frozen) list"

primrec freeze_json :: "pyval \<Rightarrow> frozen" where
  "freeze_json PNone = FAtom PNone"
| "freeze_json (PBool b) = FAtom (PBool b)"
| "freeze_json (PInt i) = FAtom (PInt i)"
| "freeze_json (PFloat f) = FAtom (PFloat f)"
| "freeze_json (PStr s) = FAtom (PStr s)"
| "freeze_json (PList xs) = FTuple (map freeze_json xs)"
| "freeze_json (PDict d) = FMap (map (map_prod (\<lambda>k. k) freeze_json) d)"

primrec thaw_json :: "frozen \<Rightarrow> pyval" where
  "thaw_json (FAtom v) = v"
| "thaw_json (FTuple xs) = PList (map thaw_json xs)"
| "thaw_json (FMap d) = PDict (map (map_prod (\<lambda>k. k) thaw_json) d)"

lemma thaw_freeze [simp]: "thaw_json (freeze_json v) = v"
proof (induction v)
  case (PList xs)
  then show ?case by (simp add: map_idI)
next
  case (PDict d)
  have "map_prod (\<lambda>k. k) thaw_json (map_prod (\<lambda>k. k) freeze_json kv) = kv" if "kv \<in> set d" for kv
    using PDict [of kv "snd kv"] that by (cases kv) (simp add: snds.simps)
  then show ?case by (simp add: map_idI)
qed simp_all

section \<open>Reports\<close>

record service_report =
  sr_run_id :: string
  sr_service :: string
  sr_status :: string
  sr_stop_reason :: string
  sr_started_at :: rat
  sr_finished_at :: rat
  sr_metrics :: pydict
  sr_details :: frozen
  sr_error :: "string option"

text \<open>\<open>[A-Za-z0-9_-]+\<close>, matched against the whole text.\<close>

definition identifier_char :: "char \<Rightarrow> bool" where
  "identifier_char c = (let n = (of_char c :: nat) in
     (65 \<le> n \<and> n \<le> 90) \<or> (97 \<le> n \<and> n \<le> 122) \<or> (48 \<le> n \<and> n \<le> 57) \<or> n = 95 \<or> n = 45)"

definition is_identifier :: "string \<Rightarrow> bool" where
  "is_identifier s \<longleftrightarrow> s \<noteq> [] \<and> list_all identifier_char s"

definition report_identifier :: "string \<Rightarrow> string \<Rightarrow> py_exc + string" where
  "report_identifier value label = (if is_identifier value then Inr value
     else Inl (ValueError (label @ '' may contain only letters, digits, underscore, and hyphen'')))"

text \<open>A metric is a number: an int or a float, no bool.\<close>

fun metric_value :: "pyval \<Rightarrow> bool" where
  "metric_value (PInt i) = True"
| "metric_value (PFloat f) = True"
| "metric_value _ = False"

definition json_snapshot :: "json_codec \<Rightarrow> pyval \<Rightarrow> string \<Rightarrow> py_exc + pydict" where
  "json_snapshot J value label = (case value of
      PDict d \<Rightarrow> (case Option.bind (jc_loads J (jc_dumps J (PDict d))) as_dict of
          None \<Rightarrow> Inl (TypeError (label @ '' must be JSON serializable''))
        | Some d' \<Rightarrow> Inr d')
    | _ \<Rightarrow> Inl (TypeError (label @ '' must be a mapping'')))"

definition mk_service_report ::
  "json_codec \<Rightarrow> string \<Rightarrow> string \<Rightarrow> string \<Rightarrow> string \<Rightarrow> rat \<Rightarrow> rat \<Rightarrow> pydict \<Rightarrow> pyval \<Rightarrow> string option
   \<Rightarrow> py_exc + service_report"
where
  "mk_service_report J run_id service status stop_reason started finished metrics details error =
     exc_bind (report_identifier run_id ''service run_id'') (\<lambda>run_id.
     exc_bind (report_identifier service ''service name'') (\<lambda>service.
     if status \<notin> {''completed'', ''failed''}
       then Inl (ValueError ''service report status must be completed or failed'')
     else if strip stop_reason = [] then Inl (ValueError ''service report stop_reason is required'')
     else if finished < started then Inl (ValueError ''service report timestamps are out of order'')
     else if list_ex (\<lambda>(name, v). strip name = [] \<or> \<not> metric_value v) metrics
       then Inl (TypeError ''service report metrics must be named numbers'')
     else exc_bind (json_snapshot J details ''service report details'') (\<lambda>snapshot.
       Inr \<lparr>sr_run_id = run_id, sr_service = service, sr_status = status, sr_stop_reason = strip stop_reason,
         sr_started_at = started, sr_finished_at = finished, sr_metrics = metrics,
         sr_details = freeze_json (PDict snapshot), sr_error = error\<rparr>)))"

definition service_report_dict :: "service_report \<Rightarrow> pydict" where
  "service_report_dict r = [(''run_id'', PStr (sr_run_id r)), (''service'', PStr (sr_service r)),
     (''status'', PStr (sr_status r)), (''stop_reason'', PStr (sr_stop_reason r)),
     (''started_at'', pnum (sr_started_at r)), (''finished_at'', pnum (sr_finished_at r)),
     (''duration_seconds'', pnum (sr_finished_at r - sr_started_at r)),
     (''metrics'', PDict (sr_metrics r)), (''details'', thaw_json (sr_details r)), (''error'', popt_str (sr_error r))]"

text \<open>\<open>from_dict\<close>; \<open>str\<close> and \<open>float\<close> are applied to fields of the type they give.\<close>

definition service_report_from :: "json_codec \<Rightarrow> pydict \<Rightarrow> py_exc + service_report" where
  "service_report_from J d =
     exc_bind (field_exc d ''run_id'' as_str) (\<lambda>run_id.
     exc_bind (field_exc d ''service'' as_str) (\<lambda>service.
     exc_bind (field_exc d ''status'' as_str) (\<lambda>status.
     exc_bind (field_exc d ''stop_reason'' as_str) (\<lambda>stop_reason.
     exc_bind (field_exc d ''started_at'' finite_num) (\<lambda>started.
     exc_bind (field_exc d ''finished_at'' finite_num) (\<lambda>finished.
     case (as_dict (dget_or (PDict []) d ''metrics''), as_dict (dget_or (PDict []) d ''details''),
           as_opt_str (dget_or PNone d ''error'')) of
       (Some metrics, Some details, Some error) \<Rightarrow>
         mk_service_report J run_id service status stop_reason started finished metrics (PDict details) error
     | _ \<Rightarrow> Inl (malformed ''service report'')))))))"

section \<open>The store\<close>

definition report_target :: "string \<Rightarrow> string \<Rightarrow> py_exc + string" where
  "report_target service run_id =
     exc_bind (report_identifier service ''service name'') (\<lambda>service.
     exc_bind (report_identifier run_id ''service run_id'') (\<lambda>run_id.
       Inr (service @ ''/'' @ run_id @ ''.json'')))"

definition save_report :: "json_codec \<Rightarrow> service_report \<Rightarrow> directory \<Rightarrow> py_exc + directory" where
  "save_report J r files = exc_bind (report_target (sr_service r) (sr_run_id r)) (\<lambda>target.
     Inr (dset target (jc_dumps J (PDict [(''schema_version'', PInt 1),
       (''report'', PDict (service_report_dict r))]) @ [CHR 0x0A]) files))"

definition load_report :: "json_codec \<Rightarrow> string \<Rightarrow> string \<Rightarrow> directory \<Rightarrow> py_exc + service_report" where
  "load_report J service run_id files =
     exc_bind (report_target service run_id) (\<lambda>target. case dget files target of
       None \<Rightarrow> Inl (PyExc ''FileNotFoundError'' target)
     | Some text \<Rightarrow> (case Option.bind (jc_loads J text) as_dict of
         None \<Rightarrow> Inl (malformed ''service report file'')
       | Some payload \<Rightarrow>
           if \<not> eq_num (dget_or PNone payload ''schema_version'') 1
             then Inl (ValueError ''unsupported service report schema version'')
           else exc_bind (field_exc payload ''report'' as_dict) (\<lambda>d.
             exc_bind (service_report_from J d) (\<lambda>r.
             if sr_service r \<noteq> service \<or> sr_run_id r \<noteq> run_id
               then Inl (ValueError ''service report identity does not match its path'')
             else Inr r))))"

text \<open>The stems of the files \<open>service/*.json\<close> that are identifiers, in the order of the directory.\<close>

definition report_stem :: "string \<Rightarrow> string \<Rightarrow> string option" where
  "report_stem service key =
     (let prefix = service @ ''/''; n = length prefix;
          stem = take (length key - n - 5) (drop n key)
      in if take n key = prefix \<and> key = prefix @ stem @ ''.json'' \<and> is_identifier stem then Some stem else None)"

definition report_stems :: "string \<Rightarrow> directory \<Rightarrow> string list" where
  "report_stems service files = List.map_filter (report_stem service) (dkeys files)"

definition newest_first :: "service_report list \<Rightarrow> service_report list" where
  "newest_first rs = rev (sort_key (\<lambda>r. (sr_started_at r, sr_run_id r)) (rev rs))"

definition list_reports :: "json_codec \<Rightarrow> string \<Rightarrow> pyval \<Rightarrow> directory \<Rightarrow> py_exc + service_report list" where
  "list_reports J service limit files =
     exc_bind (report_identifier service ''service name'') (\<lambda>service.
     case plain_int limit of
       None \<Rightarrow> Inl (ValueError ''service report list limit must be between 1 and 100'')
     | Some n \<Rightarrow>
         if n \<le> 0 \<or> n > 100 then Inl (ValueError ''service report list limit must be between 1 and 100'')
         else exc_bind (map_exc (\<lambda>stem. load_report J service stem files) (report_stems service files))
           (\<lambda>rs. Inr (take (nat n) (newest_first rs))))"

section \<open>Round trip\<close>

definition report_ok :: "json_codec \<Rightarrow> service_report \<Rightarrow> bool" where
  "report_ok J r \<longleftrightarrow> mk_service_report J (sr_run_id r) (sr_service r) (sr_status r) (sr_stop_reason r)
     (sr_started_at r) (sr_finished_at r) (sr_metrics r) (thaw_json (sr_details r)) (sr_error r) = Inr r"

lemma mk_service_report_ok:
  assumes "codec_ok J" "mk_service_report J i s st sp a b ms details e = Inr r"
  shows "report_ok J r"
  using assms(2)
  by (auto simp: report_ok_def mk_service_report_def exc_bind_Inr report_identifier_def json_snapshot_def codec_loads [OF assms(1)]
      split: if_splits pyval.splits)

lemma report_target_ok: "is_identifier service \<Longrightarrow> is_identifier run_id \<Longrightarrow> report_target service run_id = Inr (service @ ''/'' @ run_id @ ''.json'')"
  by (simp add: report_target_def report_identifier_def)

lemma report_ok_ids: "report_ok J r \<Longrightarrow> is_identifier (sr_service r) \<and> is_identifier (sr_run_id r)"
  by (auto simp: report_ok_def mk_service_report_def exc_bind_Inr report_identifier_def split: if_splits)

lemma report_ok_details: "report_ok J r \<Longrightarrow> \<exists>d. thaw_json (sr_details r) = PDict d"
  by (auto simp: report_ok_def mk_service_report_def exc_bind_Inr json_snapshot_def split: if_splits pyval.splits)

lemma report_round_trip:
  assumes "report_ok J r"
  shows "service_report_from J (service_report_dict r) = Inr r"
proof -
  obtain d where d: "thaw_json (sr_details r) = PDict d" using report_ok_details [OF assms] by blast
  show ?thesis
    using assms by (simp add: service_report_from_def service_report_dict_def field_exc_def dget_or_def dget_def [symmetric]
        report_ok_def d)
qed

lemma save_load_report:
  assumes "codec_ok J" "report_ok J r"
  shows "\<exists>files'. save_report J r files = Inr files' \<and> load_report J (sr_service r) (sr_run_id r) files' = Inr r"
  using report_ok_ids [OF assms(2)] report_round_trip [OF assms(2)]
  by (simp add: save_report_def load_report_def report_target_ok codec_loads_line [OF assms(1)] eq_num_def dget_or_def
      field_exc_def)

end
