(* ===== verification/Reaper_Service.thy ===== *)
theory Reaper_Service
  imports Process_Registry Service_Reports
begin

text \<open>
  The bounded service that reaps and prunes the process registry
  (\<open>loop_engine/adapters/process_reaper_service.py\<close>): its policies, the reports of its cycles and of
  a run, the run loop under the registry's run lock, and the save of the report. The stop event,
  the clock and the run id are the outside world; reaper, pruner and report store are functions
  on the registry and the files that may raise. The clock and the event do not raise.
\<close>

section \<open>Policies\<close>

record retention_policy =
  rt_retain_seconds :: pyfloat
  rt_prune_every_cycles :: int
  rt_max_pruned_per_cycle :: int

fun plain_number :: "pyval \<Rightarrow> pyfloat option" where
  "plain_number (PInt i) = Some (FFin (of_int i))"
| "plain_number (PFloat f) = Some f"
| "plain_number _ = None"

definition mk_retention_policy :: "pyval \<Rightarrow> pyval \<Rightarrow> pyval \<Rightarrow> py_exc + retention_policy" where
  "mk_retention_policy retain every limit =
     (case plain_number retain of
        None \<Rightarrow> Inl (ValueError ''retention seconds must not be negative'')
      | Some seconds \<Rightarrow>
          if negative seconds then Inl (ValueError ''retention seconds must not be negative'')
          else (case plain_int every of
            None \<Rightarrow> Inl (ValueError ''retention prune cadence must be positive'')
          | Some e \<Rightarrow>
              if e \<le> 0 then Inl (ValueError ''retention prune cadence must be positive'')
              else (case plain_int limit of
                None \<Rightarrow> Inl (ValueError ''retention prune limit must be positive'')
              | Some m \<Rightarrow>
                  if m \<le> 0 then Inl (ValueError ''retention prune limit must be positive'')
                  else Inr \<lparr>rt_retain_seconds = seconds, rt_prune_every_cycles = e, rt_max_pruned_per_cycle = m\<rparr>)))"

record reaper_policy =
  rp_stale_after_seconds :: rat
  rp_interval_seconds :: rat
  rp_max_cycles :: int
  rp_retention :: "retention_policy option"

definition mk_reaper_policy :: "rat \<Rightarrow> rat \<Rightarrow> int \<Rightarrow> retention_policy option \<Rightarrow> py_exc + reaper_policy" where
  "mk_reaper_policy stale interval max_cycles retention =
     (if stale \<le> 0 then Inl (ValueError ''reaper stale threshold must be positive'')
      else if interval \<le> 0 then Inl (ValueError ''reaper interval must be positive'')
      else if max_cycles \<le> 0 then Inl (ValueError ''reaper max_cycles must be positive'')
      else Inr \<lparr>rp_stale_after_seconds = stale, rp_interval_seconds = interval,
        rp_max_cycles = max_cycles, rp_retention = retention\<rparr>)"

section \<open>Reports\<close>

record cycle_report =
  cr_cycle :: nat
  cr_started_at :: rat
  cr_finished_at :: rat
  cr_reaped_record_ids :: "string list"
  cr_terminated_count :: nat
  cr_lost_count :: nat
  cr_pruning_attempted :: bool
  cr_pruned_count :: int
  cr_pruning_error :: "string option"

record reaper_report =
  rr_run_id :: string
  rr_status :: string
  rr_stop_reason :: string
  rr_started_at :: rat
  rr_finished_at :: rat
  rr_cycles :: "cycle_report list"
  rr_error :: "string option"

definition reaped_count :: "reaper_report \<Rightarrow> nat" where
  "reaped_count r = sum_list (map (\<lambda>c. length (cr_reaped_record_ids c)) (rr_cycles r))"

definition cycle_dict :: "cycle_report \<Rightarrow> pydict" where
  "cycle_dict c = [(''cycle'', PInt (int (cr_cycle c))), (''started_at'', pnum (cr_started_at c)),
     (''finished_at'', pnum (cr_finished_at c)), (''reaped_record_ids'', pstrs (cr_reaped_record_ids c)),
     (''terminated_count'', PInt (int (cr_terminated_count c))), (''lost_count'', PInt (int (cr_lost_count c))),
     (''pruning_attempted'', PBool (cr_pruning_attempted c)), (''pruned_count'', PInt (cr_pruned_count c)),
     (''pruning_error'', popt_str (cr_pruning_error c))]"

definition to_service_report :: "json_codec \<Rightarrow> reaper_report \<Rightarrow> py_exc + service_report" where
  "to_service_report J r = mk_service_report J (rr_run_id r) ''process_reaper'' (rr_status r) (rr_stop_reason r)
     (rr_started_at r) (rr_finished_at r)
     [(''cycle_count'', PInt (int (length (rr_cycles r)))), (''reaped_count'', PInt (int (reaped_count r))),
      (''terminated_count'', PInt (int (sum_list (map cr_terminated_count (rr_cycles r))))),
      (''lost_count'', PInt (int (sum_list (map cr_lost_count (rr_cycles r))))),
      (''pruned_count'', PInt (sum_list (map cr_pruned_count (rr_cycles r))))]
     (PDict [(''cycles'', PList (map (\<lambda>c. PDict (cycle_dict c)) (rr_cycles r)))]) (rr_error r)"

text \<open>What the reaper returns is \<^const>\<open>None\<close> when it is not a list of records.\<close>

definition cycle_report_of :: "nat \<Rightarrow> rat \<Rightarrow> rat \<Rightarrow> process_record list option \<Rightarrow> py_exc + cycle_report" where
  "cycle_report_of cycle started finished records = (case records of
      None \<Rightarrow> Inl (TypeError ''process reaper must return a list of ProcessRecord'')
    | Some rs \<Rightarrow> Inr \<lparr>cr_cycle = cycle, cr_started_at = started, cr_finished_at = finished,
        cr_reaped_record_ids = map pr_record_id rs,
        cr_terminated_count = length (filter (\<lambda>r. pr_status r = ''terminated'') rs),
        cr_lost_count = length (filter (\<lambda>r. pr_status r = ''lost'') rs),
        cr_pruning_attempted = False, cr_pruned_count = 0, cr_pruning_error = None\<rparr>)"

definition with_pruning :: "cycle_report \<Rightarrow> int \<Rightarrow> string option \<Rightarrow> cycle_report" where
  "with_pruning c pruned error =
     c\<lparr>cr_pruning_attempted := True, cr_pruned_count := pruned, cr_pruning_error := error\<rparr>"

section \<open>The service\<close>

record 'w reaper_service =
  rs_policy :: reaper_policy
  rs_reaper :: "rat \<Rightarrow> 'w process_world \<Rightarrow> (py_exc + process_record list option) \<times> 'w process_world"
  rs_pruner :: "pyfloat \<Rightarrow> int \<Rightarrow> 'w process_world \<Rightarrow> (py_exc + pyval) \<times> 'w process_world"
  rs_clock :: "'w \<Rightarrow> rat \<times> 'w"
  rs_uuid :: "'w \<Rightarrow> string \<times> 'w"
  rs_is_set :: "'w \<Rightarrow> bool \<times> 'w"
  rs_wait :: "rat \<Rightarrow> 'w \<Rightarrow> bool \<times> 'w"
  rs_codec :: json_codec
  rs_report_store :: "(service_report \<Rightarrow> 'w process_world \<Rightarrow> py_exc option \<times> 'w process_world) option"

text \<open>The run lock belongs to the registry.\<close>

record 'w reaper_world =
  rw_process :: "'w process_world"
  rw_running :: bool

definition default_reaper ::
  "'w process_host \<Rightarrow> (int \<Rightarrow> 'w \<Rightarrow> string option \<times> 'w) \<Rightarrow> (int \<Rightarrow> 'w \<Rightarrow> py_exc option \<times> 'w)
   \<Rightarrow> rat \<Rightarrow> 'w process_world \<Rightarrow> (py_exc + process_record list option) \<times> 'w process_world"
where
  "default_reaper H lookup terminate stale s = (case reap_stale H stale lookup terminate s of
      (Inl e, s') \<Rightarrow> (Inl e, s') | (Inr rs, s') \<Rightarrow> (Inr (Some rs), s'))"

definition default_pruner :: "'w process_host \<Rightarrow> pyfloat \<Rightarrow> int \<Rightarrow> 'w process_world \<Rightarrow> (py_exc + pyval) \<times> 'w process_world" where
  "default_pruner H retain limit s = (case prune_terminal H retain (PInt limit) s of
      (Inl e, s') \<Rightarrow> (Inl e, s') | (Inr n, s') \<Rightarrow> (Inr (PInt (int n)), s'))"

text \<open>\<open>JsonServiceRunReportStore\<close> as the store of the reports.\<close>

definition json_report_sink :: "json_codec \<Rightarrow> service_report \<Rightarrow> 'w process_world \<Rightarrow> py_exc option \<times> 'w process_world" where
  "json_report_sink J r s = (case save_report J r (pw_files s) of
      Inl e \<Rightarrow> (Some e, s) | Inr files \<Rightarrow> (None, s\<lparr>pw_files := files\<rparr>))"

definition report_run ::
  "'w reaper_service \<Rightarrow> string \<Rightarrow> string \<Rightarrow> string \<Rightarrow> rat \<Rightarrow> cycle_report list \<Rightarrow> string option \<Rightarrow> 'w process_world
   \<Rightarrow> reaper_report \<times> 'w process_world"
where
  "report_run S status stop_reason run_id started cycles error s =
     (let (finished, s1) = consult (rs_clock S) s;
          report = \<lparr>rr_run_id = run_id, rr_status = status, rr_stop_reason = stop_reason, rr_started_at = started,
            rr_finished_at = finished, rr_cycles = cycles, rr_error = error\<rparr>;
          failed = (\<lambda>e s2. let (finished, s3) = consult (rs_clock S) s2 in
            (\<lparr>rr_run_id = run_id, rr_status = ''failed'', rr_stop_reason = ''error'', rr_started_at = started,
               rr_finished_at = finished, rr_cycles = cycles,
               rr_error = Some (''service_report_persistence_error:'' @ show_exc e)\<rparr>, s3))
      in case rs_report_store S of
          None \<Rightarrow> (report, s1)
        | Some save \<Rightarrow> (case to_service_report (rs_codec S) report of
            Inl e \<Rightarrow> failed e s1
          | Inr r \<Rightarrow> (case save r s1 of
              (Some e, s2) \<Rightarrow> failed e s2
            | (None, s2) \<Rightarrow> (report, s2))))"

text \<open>The guarded part of a cycle, and its pruning.\<close>

definition reap_cycle :: "'w reaper_service \<Rightarrow> nat \<Rightarrow> 'w process_world \<Rightarrow> (py_exc + cycle_report) \<times> 'w process_world" where
  "reap_cycle S cycle s =
     (let (started, s1) = consult (rs_clock S) s
      in case rs_reaper S (rp_stale_after_seconds (rs_policy S)) s1 of
          (Inl e, s2) \<Rightarrow> (Inl e, s2)
        | (Inr records, s2) \<Rightarrow>
            let (finished, s3) = consult (rs_clock S) s2
            in (cycle_report_of cycle started finished records, s3))"

definition prune_cycle ::
  "'w reaper_service \<Rightarrow> retention_policy \<Rightarrow> cycle_report \<Rightarrow> 'w process_world \<Rightarrow> (py_exc + cycle_report) \<times> 'w process_world"
where
  "prune_cycle S t c s = (case rs_pruner S (rt_retain_seconds t) (rt_max_pruned_per_cycle t) s of
      (Inl e, s1) \<Rightarrow> (Inl e, s1)
    | (Inr v, s1) \<Rightarrow> (case plain_int v of
          None \<Rightarrow> (Inl (TypeError ''process pruner must return a non-negative integer''), s1)
        | Some n \<Rightarrow>
            if n < 0 then (Inl (TypeError ''process pruner must return a non-negative integer''), s1)
            else (Inr (with_pruning c n None), s1)))"

definition prune_due :: "reaper_policy \<Rightarrow> nat \<Rightarrow> retention_policy option" where
  "prune_due p cycle = (case rp_retention p of
      None \<Rightarrow> None
    | Some t \<Rightarrow> if int cycle mod rt_prune_every_cycles t = 0 then Some t else None)"

text \<open>\<open>for cycle_number in range(1, max_cycles + 1)\<close>: the first argument counts the cycles left.\<close>

fun reap_cycles ::
  "nat \<Rightarrow> 'w reaper_service \<Rightarrow> string \<Rightarrow> rat \<Rightarrow> nat \<Rightarrow> cycle_report list \<Rightarrow> 'w process_world
   \<Rightarrow> (py_exc + reaper_report) \<times> 'w process_world"
where
  "reap_cycles 0 S run_id started cycle cycles s =
     (Inl (PyExc ''AssertionError'' ''bounded reaper loop did not terminate''), s)"
| "reap_cycles (Suc n) S run_id started cycle cycles s =
     (case reap_cycle S cycle s of
        (Inl e, s1) \<Rightarrow> apfst Inr (report_run S ''failed'' ''error'' run_id started cycles (Some (show_exc e)) s1)
      | (Inr c, s1) \<Rightarrow>
          (case (case prune_due (rs_policy S) cycle of None \<Rightarrow> (Inr c, s1) | Some t \<Rightarrow> prune_cycle S t c s1) of
             (Inl e, s2) \<Rightarrow> apfst Inr (report_run S ''failed'' ''error'' run_id started
               (cycles @ [with_pruning c 0 (Some (show_exc e))]) (Some (''process_retention_error:'' @ show_exc e)) s2)
           | (Inr c', s2) \<Rightarrow>
               if int cycle = rp_max_cycles (rs_policy S)
                 then apfst Inr (report_run S ''completed'' ''max_cycles'' run_id started (cycles @ [c']) None s2)
               else
                 let (stop, s3) = consult (rs_wait S (rp_interval_seconds (rs_policy S))) s2
                 in if stop
                      then apfst Inr (report_run S ''completed'' ''stop_requested'' run_id started (cycles @ [c']) None s3)
                    else reap_cycles n S run_id started (cycle + 1) (cycles @ [c']) s3))"

definition reaper_run :: "'w reaper_service \<Rightarrow> 'w reaper_world \<Rightarrow> (py_exc + reaper_report) \<times> 'w reaper_world" where
  "reaper_run S w =
     (if rw_running w then (Inl (RuntimeError ''process reaper service is already running''), w)
      else
        let (run_id, s1) = consult (rs_uuid S) (rw_process w);
            (started, s2) = consult (rs_clock S) s1;
            (stopped, s3) = consult (rs_is_set S) s2;
            (out, s4) = (if stopped
              then apfst Inr (report_run S ''completed'' ''stop_requested'' run_id started [] None s3)
              else reap_cycles (nat (rp_max_cycles (rs_policy S))) S run_id started 1 [] s3)
        in (out, w\<lparr>rw_process := s4, rw_running := False\<rparr>))"

section \<open>What a run ends in\<close>

text \<open>Every run ends by reporting: the report before its save, and the state it was made in.\<close>

definition ending :: "reaper_policy \<Rightarrow> string \<Rightarrow> string \<Rightarrow> cycle_report list \<Rightarrow> string option \<Rightarrow> bool" where
  "ending p status stop cycles error \<longleftrightarrow> numbered cr_cycle cycles \<and> int (length cycles) \<le> rp_max_cycles p \<and>
     (status = ''failed'' \<and> stop = ''error'' \<and> error \<noteq> None \<or>
      status = ''completed'' \<and> error = None \<and>
        (stop = ''stop_requested'' \<or> stop = ''max_cycles'' \<and> int (length cycles) = rp_max_cycles p))"

lemma reap_cycle_number: "reap_cycle S cycle s = (Inr c, s') \<Longrightarrow> cr_cycle c = cycle"
  by (auto simp: reap_cycle_def cycle_report_of_def Let_def split: prod.splits sum.splits option.splits)

lemma prune_cycle_number: "prune_cycle S t c s = (Inr c', s') \<Longrightarrow> cr_cycle c' = cr_cycle c"
  by (auto simp: prune_cycle_def with_pruning_def split: prod.splits sum.splits option.splits if_splits)

lemma reap_cycles_report:
  assumes "numbered cr_cycle cycles" "cycle = Suc (length cycles)" "int cycle \<le> rp_max_cycles (rs_policy S)"
    "int n = rp_max_cycles (rs_policy S) - int (length cycles)"
  shows "\<exists>status stop cycles' error s0. ending (rs_policy S) status stop cycles' error \<and>
    reap_cycles n S run_id started cycle cycles s = apfst Inr (report_run S status stop run_id started cycles' error s0)"
  using assms
proof (induction n S run_id started cycle cycles s rule: reap_cycles.induct)
  case (2 n S run_id started cycle cycles s)
  let ?max = "rp_max_cycles (rs_policy S)"
  obtain oc s1 where reap: "reap_cycle S cycle s = (oc, s1)" by fastforce
  show ?case
  proof (cases oc)
    case (Inl e)
    have "ending (rs_policy S) ''failed'' ''error'' cycles (Some (show_exc e))"
      using 2 by (simp add: ending_def)
    then show ?thesis using reap Inl by fastforce
  next
    case (Inr c)
    with reap have c: "cr_cycle c = Suc (length cycles)" using reap_cycle_number 2 by metis
    obtain op s2 where prune: "(case prune_due (rs_policy S) cycle of None \<Rightarrow> (Inr c, s1) | Some t \<Rightarrow> prune_cycle S t c s1) = (op, s2)"
      by fastforce
    show ?thesis
    proof (cases op)
      case (Inl e)
      have "ending (rs_policy S) ''failed'' ''error'' (cycles @ [with_pruning c 0 (Some (show_exc e))])
          (Some (''process_retention_error:'' @ show_exc e))"
        using 2 c by (simp add: ending_def numbered_snoc with_pruning_def)
      then show ?thesis using reap prune \<open>oc = Inr c\<close> Inl by fastforce
    next
      case (Inr c')
      with prune have c': "cr_cycle c' = Suc (length cycles)"
        using c prune_cycle_number by (fastforce split: option.splits)
      then have numbered: "numbered cr_cycle (cycles @ [c'])" using 2 by (simp add: numbered_snoc)
      note run = reap prune \<open>oc = Inr c\<close> Inr
      show ?thesis
      proof (cases "int cycle = ?max")
        case True
        have "ending (rs_policy S) ''completed'' ''max_cycles'' (cycles @ [c']) None"
          using numbered 2 True by (simp add: ending_def)
        then show ?thesis using run True by fastforce
      next
        case False
        obtain stop s3 where wait: "consult (rs_wait S (rp_interval_seconds (rs_policy S))) s2 = (stop, s3)" by fastforce
        show ?thesis
        proof (cases stop)
          case True
          have "ending (rs_policy S) ''completed'' ''stop_requested'' (cycles @ [c']) None"
            using numbered 2 by (simp add: ending_def)
          then show ?thesis using run False wait True by fastforce
        next
          case go: False
          have "\<exists>status stop cycles' error s0. ending (rs_policy S) status stop cycles' error \<and>
              reap_cycles n S run_id started (cycle + 1) (cycles @ [c']) s3 =
                apfst Inr (report_run S status stop run_id started cycles' error s0)"
            by (rule 2(1)) (use run False wait go numbered 2 in auto)
          then show ?thesis using run False wait go by simp
        qed
      qed
    qed
  qed
qed simp

lemma report_run_cases:
  assumes "report_run S status stop run_id started cycles error s = (r, s')"
  obtains (reported) "rr_status r = status" "rr_stop_reason r = stop" "rr_error r = error" "rr_run_id r = run_id"
      "rr_started_at r = started" "rr_cycles r = cycles"
      "rs_report_store S = None \<or> (\<exists>save sr s1. rs_report_store S = Some save \<and>
        to_service_report (rs_codec S) r = Inr sr \<and> save sr s1 = (None, s'))"
  | (unsaved) e where "rr_status r = ''failed''" "rr_stop_reason r = ''error''" "rr_run_id r = run_id"
      "rr_started_at r = started" "rr_cycles r = cycles"
      "rr_error r = Some (''service_report_persistence_error:'' @ show_exc e)"
proof -
  have "(rr_status r = status \<and> rr_stop_reason r = stop \<and> rr_error r = error \<and> rr_run_id r = run_id \<and>
      rr_started_at r = started \<and> rr_cycles r = cycles \<and>
      (rs_report_store S = None \<or> (\<exists>save sr s1. rs_report_store S = Some save \<and>
        to_service_report (rs_codec S) r = Inr sr \<and> save sr s1 = (None, s')))) \<or>
    (\<exists>e. rr_status r = ''failed'' \<and> rr_stop_reason r = ''error'' \<and> rr_run_id r = run_id \<and>
      rr_started_at r = started \<and> rr_cycles r = cycles \<and>
      rr_error r = Some (''service_report_persistence_error:'' @ show_exc e))"
    using assms by (auto simp: report_run_def consult_eq Let_def split: option.splits sum.splits prod.splits)
  then show thesis using that by blast
qed

lemma reaper_run_ends:
  assumes "\<not> rw_running w" "0 < rp_max_cycles (rs_policy S)"
  shows "\<exists>status stop run_id started cycles error s0 r s1.
    ending (rs_policy S) status stop cycles error \<and>
    report_run S status stop run_id started cycles error s0 = (r, s1) \<and>
    reaper_run S w = (Inr r, w\<lparr>rw_process := s1, rw_running := False\<rparr>)"
proof -
  obtain run_id s1 where 1: "consult (rs_uuid S) (rw_process w) = (run_id, s1)" by fastforce
  obtain started s2 where 2: "consult (rs_clock S) s1 = (started, s2)" by fastforce
  obtain stopped s3 where 3: "consult (rs_is_set S) s2 = (stopped, s3)" by fastforce
  show ?thesis
  proof (cases stopped)
    case True
    have "ending (rs_policy S) ''completed'' ''stop_requested'' [] None"
      using assms(2) by (simp add: ending_def)
    moreover obtain r s4 where "report_run S ''completed'' ''stop_requested'' run_id started [] None s3 = (r, s4)" by fastforce
    moreover from this have "reaper_run S w = (Inr r, w\<lparr>rw_process := s4, rw_running := False\<rparr>)"
      using assms(1) 1 2 3 True by (simp add: reaper_run_def)
    ultimately show ?thesis by blast
  next
    case False
    have "\<exists>status stop cycles' error s0. ending (rs_policy S) status stop cycles' error \<and>
        reap_cycles (nat (rp_max_cycles (rs_policy S))) S run_id started 1 [] s3 =
          apfst Inr (report_run S status stop run_id started cycles' error s0)"
      by (rule reap_cycles_report) (use assms(2) in auto)
    then obtain status stop cycles' error s0 where e: "ending (rs_policy S) status stop cycles' error"
      "reap_cycles (nat (rp_max_cycles (rs_policy S))) S run_id started 1 [] s3 =
          apfst Inr (report_run S status stop run_id started cycles' error s0)" by blast
    moreover obtain r s4 where "report_run S status stop run_id started cycles' error s0 = (r, s4)" by fastforce
    moreover from this have "reaper_run S w = (Inr r, w\<lparr>rw_process := s4, rw_running := False\<rparr>)"
      using assms(1) 1 2 3 False e(2) by (simp add: reaper_run_def)
    ultimately show ?thesis by blast
  qed
qed

end
