(* ===== verification/Process_Properties.thy ===== *)
theory Process_Properties
  imports Process_Registry
begin

text \<open>
  The properties of the process registry: how a record may change, that the file gives back what
  is in memory after any operations, and exactly what reaping and pruning do.
\<close>

section \<open>Opening and listing\<close>

lemma read_processes_ok:
  assumes "read_processes rows loaded = Inr d" "records_ok loaded"
  shows "records_ok d"
  using assms by (induction rows arbitrary: loaded) (auto simp: exc_bind_Inr records_ok_dset split: if_splits)

lemma load_processes_ok: "load_processes J path files = Inr d \<Longrightarrow> records_ok d"
  using read_processes_ok [of _ "[]" d]
  by (auto simp: load_processes_def records_ok_def split: option.splits if_splits)

lemma open_registry_mirrors: "open_registry H files w = Inr s \<Longrightarrow> mirrors H s"
  using load_processes_ok [of "ph_codec H" "the (ph_path H)" files]
  by (cases "ph_path H") (auto simp: open_registry_def mirrors_def exc_bind_Inr, simp add: records_ok_def)

lemma registry_op_mirrors:
  assumes "registry_op H s s'" "codec_ok (ph_codec H)" "mirrors H s"
  shows "mirrors H s'"
proof -
  have "records_ok (pw_records s)" using assms(3) by (simp add: mirrors_def)
  from registry_op_updates [OF assms(1) this] show ?thesis
    using assms(2,3) prune_mirrors by (auto simp: updates_def)
qed

lemma registry_ops_mirrors:
  "registry_ops H s s' \<Longrightarrow> codec_ok (ph_codec H) \<Longrightarrow> mirrors H s \<Longrightarrow> mirrors H s'"
  by (induction rule: registry_ops.induct) (use registry_op_mirrors in blast)+

lemma records_of_dget:
  assumes "records_ok d"
  shows "snd ` set d = {r. dget d (pr_record_id r) = Some r}"
proof (intro set_eqI iffI)
  have wf: "wf_dict d" using assms by (simp add: records_ok_def)
  fix r
  { assume "r \<in> snd ` set d"
    then obtain k where "(k, r) \<in> set d" by force
    moreover from this assms have "pr_record_id r = k" by (auto simp: records_ok_def)
    ultimately show "r \<in> {r. dget d (pr_record_id r) = Some r}" using dget_in [OF wf] by simp }
  { assume "r \<in> {r. dget d (pr_record_id r) = Some r}"
    then show "r \<in> snd ` set d" using dget_in [OF wf] by force }
qed

lemma distinct_ids:
  assumes "records_ok d"
  shows "distinct (map pr_record_id (map snd d))"
proof -
  have "map pr_record_id (map snd d) = map fst d"
    unfolding map_map using assms by (intro map_cong) (auto simp: records_ok_def)
  then show ?thesis using assms by (metis records_ok_def wf_dict_def)
qed

text \<open>A list sorted by a key that holds the id depends on the set of records only.\<close>

lemma sort_by_id_unique:
  fixes f :: "process_record \<Rightarrow> 'k::linorder"
  assumes "distinct (map pr_record_id xs)" "distinct (map pr_record_id ys)" "set xs = set ys"
  shows "sort_key (\<lambda>r. (f r, pr_record_id r)) xs = sort_key (\<lambda>r. (f r, pr_record_id r)) ys"
proof -
  let ?g = "\<lambda>r. (f r, pr_record_id r)"
  have inj: "inj_on ?g (set xs)" using assms(1) by (auto simp: inj_on_def distinct_map)
  have "distinct xs" "distinct ys" using assms(1,2) by (simp_all add: distinct_map)
  then show ?thesis
    using inj assms(3)
    by (intro map_sorted_distinct_set_unique [where f = ?g]) (simp_all add: distinct_map)
qed

lemma list_records_agree:
  assumes "records_ok (pw_records s)" "records_ok (pw_records t)"
    "\<forall>k. dget (pw_records s) k = dget (pw_records t) k"
  shows "list_records status s = list_records status t"
proof -
  have "snd ` set (pw_records s) = snd ` set (pw_records t)"
    using assms by (simp add: records_of_dget)
  moreover have "distinct (map pr_record_id (filter P (map snd (pw_records s))))"
    "distinct (map pr_record_id (filter P (map snd (pw_records t))))" for P
    using assms(1,2) distinct_ids distinct_map_filter by blast+
  moreover note distinct_ids [OF assms(1)] distinct_ids [OF assms(2)]
  ultimately show ?thesis
    by (cases status) (auto simp: list_records_def Let_def intro!: sort_by_id_unique)
qed

section \<open>What reaping does\<close>

text \<open>The record that reaping makes of a stale one, given the identity the system reports for its
  process.\<close>

definition reaped_as :: "(int \<Rightarrow> string option) \<Rightarrow> process_record \<Rightarrow> process_record \<Rightarrow> bool" where
  "reaped_as ident r r' \<longleftrightarrow>
     r' = r\<lparr>pr_status := (if ident (pr_pid r) = Some (pr_identity r) then ''terminated'' else ''lost''),
       pr_heartbeat_at := pr_heartbeat_at r', pr_finished_at := Some (pr_heartbeat_at r'), pr_exit_code := None,
       pr_reason := Some (if ident (pr_pid r) = Some (pr_identity r) then ''stale_heartbeat''
         else ''process_identity_missing_or_changed'')\<rparr>"

definition alive :: "(int \<Rightarrow> string option) \<Rightarrow> process_record \<Rightarrow> bool" where
  "alive ident r \<longleftrightarrow> ident (pr_pid r) = Some (pr_identity r)"

lemma reaped_as_status:
  assumes "reaped_as ident r r'"
  shows "pr_status r' = (if alive ident r then ''terminated'' else ''lost'')"
  by (subst assms [unfolded reaped_as_def]) (simp add: alive_def)

text \<open>The outside world as reaping needs it: looking up an identity changes nothing, terminating a
  process succeeds and is logged, and the clock leaves that log alone.\<close>

definition kills_logged ::
  "'w process_host \<Rightarrow> (int \<Rightarrow> string option) \<Rightarrow> (int \<Rightarrow> 'w \<Rightarrow> string option \<times> 'w)
   \<Rightarrow> (int \<Rightarrow> 'w \<Rightarrow> py_exc option \<times> 'w) \<Rightarrow> ('w \<Rightarrow> int list) \<Rightarrow> bool"
where
  "kills_logged H ident lookup terminate killed \<longleftrightarrow>
     (\<forall>pid w. lookup pid w = (ident pid, w)) \<and>
     (\<forall>pid w. fst (terminate pid w) = None \<and> killed (snd (terminate pid w)) = killed w @ [pid]) \<and>
     (\<forall>w. killed (snd (ph_clock H w)) = killed w)"

lemma finish_running:
  assumes "dget (pw_records s) k = Some r" "pr_status r = ''running''" "status \<noteq> ''running''"
  shows "finish H k status code reason s =
    (let t = fst (ph_clock H (pw_world s));
         r' = r\<lparr>pr_status := status, pr_heartbeat_at := t, pr_finished_at := Some t, pr_exit_code := code, pr_reason := reason\<rparr>
     in (Inr r', store_record H k r' (s\<lparr>pw_world := snd (ph_clock H (pw_world s))\<rparr>)))"
  using assms by (simp add: finish_def consult_eq Let_def)

lemma reap_all_exact:
  assumes "kills_logged H ident lookup terminate killed" "distinct (map pr_record_id rs)"
    "\<forall>r\<in>set rs. dget (pw_records s) (pr_record_id r) = Some r \<and> pr_status r = ''running''"
  shows "\<exists>rs' s'. reap_all H lookup terminate rs s = (Inr rs', s') \<and> list_all2 (reaped_as ident) rs rs' \<and>
    (\<forall>r\<in>set rs'. dget (pw_records s') (pr_record_id r) = Some r) \<and>
    (\<forall>k. k \<notin> pr_record_id ` set rs \<longrightarrow> dget (pw_records s') k = dget (pw_records s) k) \<and>
    killed (pw_world s') = killed (pw_world s) @ map pr_pid (filter (alive ident) rs)"
  using assms(2,3)
proof (induction rs arbitrary: s)
  case (Cons r rs)
  have kl: "lookup pid w = (ident pid, w)" "fst (terminate pid w) = None"
    "killed (snd (terminate pid w)) = killed w @ [pid]" "killed (snd (ph_clock H w)) = killed w" for pid w
    using assms(1) by (simp_all add: kills_logged_def)
  have r: "dget (pw_records s) (pr_record_id r) = Some r" "pr_status r = ''running''" using Cons.prems(2) by simp_all
  define s0 where "s0 = (if alive ident r then s\<lparr>pw_world := snd (terminate (pr_pid r) (pw_world s))\<rparr> else s)"
  have s0: "pw_records s0 = pw_records s"
    "killed (pw_world s0) = killed (pw_world s) @ (if alive ident r then [pr_pid r] else [])"
    by (simp_all add: s0_def kl)
  define r' where "r' = r\<lparr>pr_status := (if alive ident r then ''terminated'' else ''lost''),
       pr_heartbeat_at := fst (ph_clock H (pw_world s0)), pr_finished_at := Some (fst (ph_clock H (pw_world s0))),
       pr_exit_code := None,
       pr_reason := Some (if alive ident r then ''stale_heartbeat'' else ''process_identity_missing_or_changed'')\<rparr>"
  define s1 where "s1 = store_record H (pr_record_id r) r' (s0\<lparr>pw_world := snd (ph_clock H (pw_world s0))\<rparr>)"
  have reaped: "reaped_as ident r r'" "pr_record_id r' = pr_record_id r"
    by (auto simp: reaped_as_def alive_def r'_def)
  have s1: "dget (pw_records s1) k = (if k = pr_record_id r then Some r' else dget (pw_records s) k)"
    "killed (pw_world s1) = killed (pw_world s0)" for k
    by (auto simp: s1_def s0 kl)
  have step: "reap_all H lookup terminate (r # rs) s = (case reap_all H lookup terminate rs s1 of
      (Inl e, s4) \<Rightarrow> (Inl e, s4) | (Inr others, s4) \<Rightarrow> (Inr (r' # others), s4))"
  proof (cases "alive ident r")
    case True
    then have "finish H (pr_record_id r) ''terminated'' None (Some ''stale_heartbeat'') s0 = (Inr r', s1)"
      using r s0 by (simp add: finish_running r'_def s1_def Let_def)
    moreover have "consult (terminate (pr_pid r)) s = (None, s0)" using True by (simp add: s0_def consult_eq kl)
    ultimately show ?thesis using True by (simp add: consult_eq kl alive_def)
  next
    case False
    then have "finish H (pr_record_id r) ''lost'' None (Some ''process_identity_missing_or_changed'') s0 = (Inr r', s1)"
      using r s0 by (simp add: finish_running r'_def s1_def Let_def)
    moreover have "s0 = s" using False by (simp add: s0_def)
    ultimately show ?thesis using False by (simp add: consult_eq kl alive_def)
  qed
  have "dget (pw_records s1) (pr_record_id x) = Some x \<and> pr_status x = ''running''" if "x \<in> set rs" for x
  proof -
    have "pr_record_id x \<noteq> pr_record_id r" using Cons.prems(1) that by (metis distinct.simps(2) imageI list.set_map list.simps(9))
    then show ?thesis using Cons.prems(2) that by (simp add: s1)
  qed
  then have "\<forall>x\<in>set rs. dget (pw_records s1) (pr_record_id x) = Some x \<and> pr_status x = ''running''"
    and "distinct (map pr_record_id rs)" using Cons.prems(1) by simp_all
  from Cons.IH [OF this(2,1)] obtain rs' s' where IH: "reap_all H lookup terminate rs s1 = (Inr rs', s')"
    "list_all2 (reaped_as ident) rs rs'" "\<forall>x\<in>set rs'. dget (pw_records s') (pr_record_id x) = Some x"
    "\<forall>k. k \<notin> pr_record_id ` set rs \<longrightarrow> dget (pw_records s') k = dget (pw_records s1) k"
    "killed (pw_world s') = killed (pw_world s1) @ map pr_pid (filter (alive ident) rs)" by blast
  have "dget (pw_records s') (pr_record_id r) = Some r'"
    using IH(4) Cons.prems(1) by (simp add: s1)
  then show ?case
    using IH(1-3) reaped step
    by (intro exI [of _ "r' # rs'"] exI [of _ s']) (simp add: IH(4,5) s0(2) s1)
qed simp

lemma stale_running_records:
  assumes "records_ok (pw_records s)"
  shows "distinct (map pr_record_id (stale_running now stale s))"
    "set (stale_running now stale s) = {r. dget (pw_records s) (pr_record_id r) = Some r \<and>
       pr_status r = ''running'' \<and> now - pr_heartbeat_at r > stale}"
proof -
  show "distinct (map pr_record_id (stale_running now stale s))"
    using distinct_ids [OF assms] by (simp add: stale_running_def list_records_def Let_def distinct_map_filter)
  show "set (stale_running now stale s) = {r. dget (pw_records s) (pr_record_id r) = Some r \<and>
       pr_status r = ''running'' \<and> now - pr_heartbeat_at r > stale}"
    using records_of_dget [OF assms] by (auto simp: stale_running_def list_records_def Let_def image_iff)
qed

section \<open>What pruning does\<close>

lemma removable_sorted:
  "sorted (map (\<lambda>r. (the (pr_finished_at r), pr_record_id r)) (removable cutoff limit s))"
  by (auto simp: removable_def Let_def take_map [symmetric] sorted_wrt_take split: option.split)

lemma removable_oldest:
  assumes "x \<in> set (removable cutoff limit s)" "y \<in> snd ` set (pw_records s)" "expired cutoff y"
    "y \<notin> set (removable cutoff limit s)"
  shows "(the (pr_finished_at x), pr_record_id x) \<le> (the (pr_finished_at y), pr_record_id y)"
proof (cases limit)
  case None
  with assms show ?thesis by (auto simp: removable_def Let_def)
next
  case (Some m)
  define key where "key = (\<lambda>r :: process_record. (the (pr_finished_at r), pr_record_id r))"
  define rs where "rs = sort_key key (filter (expired cutoff) (map snd (pw_records s)))"
  have taken: "removable cutoff limit s = take (nat m) rs" by (simp add: removable_def Let_def Some rs_def key_def)
  have "y \<in> set rs" using assms(2,3) by (simp add: rs_def)
  then have "y \<in> set (take (nat m) rs @ drop (nat m) rs)" by simp
  then have y: "y \<in> set (drop (nat m) rs)" unfolding set_append using assms(4) by (simp add: taken)
  have "sorted (map key (take (nat m) rs @ drop (nat m) rs))" by (simp add: rs_def)
  then have "\<forall>a\<in>set (map key (take (nat m) rs)). \<forall>b\<in>set (map key (drop (nat m) rs)). a \<le> b"
    unfolding map_append sorted_append by blast
  moreover have "key x \<in> set (map key (take (nat m) rs))" using assms(1) by (simp add: taken)
  moreover have "key y \<in> set (map key (drop (nat m) rs))" using y by simp
  ultimately have "key x \<le> key y" by blast
  then show ?thesis by (simp add: key_def)
qed

lemma removable_length:
  "length (removable cutoff limit s) =
    (let n = length (filter (expired cutoff) (map snd (pw_records s)))
     in case limit of None \<Rightarrow> n | Some m \<Rightarrow> min (nat m) n)"
  by (simp add: removable_def Let_def min.commute split: option.split)

lemma prune_keeps:
  assumes "prune_terminal H retain limit s = (out, s')" "records_ok (pw_records s)"
  shows "records_ok (pw_records s') \<and> (\<forall>k. dget (pw_records s') k = dget (pw_records s) k \<or>
    dget (pw_records s') k = None \<and> (\<exists>r cutoff. dget (pw_records s) k = Some r \<and> expired cutoff r \<and> pr_finished_at r \<noteq> None))"
proof (cases out)
  case (Inl e)
  with assms(1) have "s' = s" by (auto simp: prune_terminal_def consult_eq Let_def split: if_splits)
  with assms(2) show ?thesis by simp
next
  case (Inr n)
  with assms(1) have "prune_terminal H retain limit s = (Inr n, s')" by simp
  from prune_records [OF this] obtain cutoff where s': "pw_records s' =
      fold (\<lambda>r d. ddel (pr_record_id r) d) (removable cutoff (plain_int limit) s) (pw_records s)" by blast
  have gone: "dget (pw_records s) (pr_record_id x) = Some x \<and> expired cutoff x \<and> pr_finished_at x \<noteq> None"
    if "x \<in> set (removable cutoff (plain_int limit) s)" for x
    using that removable_sub [of cutoff "plain_int limit" s] records_of_dget [OF assms(2)]
    by (auto simp: expired_def split: option.splits)
  have "records_ok (pw_records s')"
    using assms(2) wf_fold_ddel [of "pw_records s" pr_record_id] by (simp add: s' records_ok_iff dget_fold_ddel)
  moreover have "dget (pw_records s') k = dget (pw_records s) k \<or> dget (pw_records s') k = None \<and>
      (\<exists>r cutoff. dget (pw_records s) k = Some r \<and> expired cutoff r \<and> pr_finished_at r \<noteq> None)" for k
    using gone by (force simp: s' dget_fold_ddel)
  ultimately show ?thesis by blast
qed

section \<open>Properties\<close>

text \<open>
  C16: whatever the registry does to a record, the fields that identify the process stay as they
  were registered, a terminal record never changes, and a record disappears only when it is
  terminal and has a finish time; a running process is never forgotten.
\<close>

theorem record_lifecycle:
  assumes "registry_op H s s'" "records_ok (pw_records s)" "get_record k s = Some r"
  shows "records_ok (pw_records s') \<and>
    (case get_record k s' of
       Some r' \<Rightarrow> same_process r r' \<and> (pr_status r = ''running'' \<or> r' = r)
     | None \<Rightarrow> pr_status r \<noteq> ''running'' \<and> pr_finished_at r \<noteq> None)"
proof -
  have r: "dget (pw_records s) k = Some r" using assms(3) by (simp add: get_record_def)
  from registry_op_updates [OF assms(1,2)] consider "updates H s s'"
    | retain limit out where "prune_terminal H retain limit s = (out, s')" by blast
  then show ?thesis
  proof cases
    case 1
    then obtain r' where "dget (pw_records s') k = Some r'" "follows r r'"
      using r by (auto simp: updates_def evolves_def)
    with 1 assms(2) show ?thesis by (auto simp: updates_def get_record_def follows_def)
  next
    case 2
    note keeps = prune_keeps [OF this assms(2)]
    then have "dget (pw_records s') k = Some r \<or>
        dget (pw_records s') k = None \<and> pr_status r \<noteq> ''running'' \<and> pr_finished_at r \<noteq> None"
      using r by (metis expired_def option.inject)
    with keeps show ?thesis by (auto simp: get_record_def same_process_def)
  qed
qed

text \<open>The world of the examples: a clock that stands still and the list of killed processes.\<close>

definition still_host :: "string option \<Rightarrow> rat \<Rightarrow> int list process_host" where
  "still_host path now = \<lparr>ph_codec = tally_codec, ph_path = path, ph_clock = (\<lambda>w. (now, w)),
     ph_uuid = (\<lambda>w. (''r1'', w)), ph_hostname = (\<lambda>w. (''host'', w)), ph_sha256 = (\<lambda>x. x)\<rparr>"

definition example_record :: "string \<Rightarrow> int \<Rightarrow> string \<Rightarrow> process_record" where
  "example_record k pid status = \<lparr>pr_record_id = k, pr_owner_run_id = ''run'', pr_pid = pid, pr_identity = ''id'',
     pr_command_sha256 = ''00'', pr_cwd = ''/'', pr_timeout_seconds = 60, pr_hostname = ''host'', pr_status = status,
     pr_started_at = 0, pr_heartbeat_at = 0, pr_finished_at = (if status = ''running'' then None else Some 0),
     pr_exit_code = None, pr_reason = None\<rparr>"

definition example_registry :: "int list process_world" where
  "example_registry = \<lparr>pw_records = [(''a'', example_record ''a'' 7 ''running''), (''b'', example_record ''b'' 8 ''completed''),
     (''c'', example_record ''c'' 9 ''running'')], pw_files = [], pw_world = []\<rparr>"

definition example_lookup :: "int \<Rightarrow> int list \<Rightarrow> string option \<times> int list" where
  "example_lookup pid w = (if pid = 7 then Some ''id'' else None, w)"

definition example_terminate :: "int \<Rightarrow> int list \<Rightarrow> py_exc option \<times> int list" where
  "example_terminate pid w = (None, w @ [pid])"

lemma example_registry_ok: "records_ok (pw_records example_registry)"
  by (simp add: records_ok_def wf_dict_def example_registry_def example_record_def)

lemma record_lifecycle_witness:
  "\<exists>s'. registry_op (still_host None 5) example_registry s' \<and>
    get_record ''a'' example_registry \<noteq> None \<and> get_record ''a'' s' \<noteq> None \<and>
    same_process (the (get_record ''a'' example_registry)) (the (get_record ''a'' s'))"
proof -
  define s' where "s' = snd (heartbeat (still_host None 5) ''a'' example_registry)"
  have op: "registry_op (still_host None 5) example_registry s'"
    unfolding s'_def by (rule registry_op.beat [of _ _ _ "fst (heartbeat (still_host None 5) ''a'' example_registry)"]) simp
  have a: "get_record ''a'' example_registry = Some (example_record ''a'' 7 ''running'')"
    by (simp add: get_record_def example_registry_def)
  have "pr_status (example_record ''a'' 7 ''running'') = ''running''" by (simp add: example_record_def)
  with record_lifecycle [OF op example_registry_ok a] obtain r' where
    "get_record ''a'' s' = Some r'" "same_process (example_record ''a'' 7 ''running'') r'"
    by (auto split: option.splits)
  with a op show ?thesis by (intro exI [of _ s']) simp
qed

text \<open>
  A registry opened on the file of another one, after any operations on that one, holds and
  lists exactly the same records: nothing is lost or reordered by a restart.
\<close>

theorem registry_survives_restart:
  assumes "codec_ok (ph_codec H)" "ph_path H = Some path" "open_registry H files w = Inr s" "registry_ops H s s'"
  shows "\<exists>t. open_registry H (pw_files s') w' = Inr t \<and> (\<forall>k. get_record k t = get_record k s') \<and>
    (\<forall>status. list_records status t = list_records status s')"
proof -
  have m: "mirrors H s'"
    using registry_ops_mirrors [OF assms(4,1)] open_registry_mirrors [OF assms(3)] by blast
  then obtain d where d: "load_processes (ph_codec H) path (pw_files s') = Inr d" "\<forall>k. dget d k = dget (pw_records s') k"
    using assms(2) by (auto simp: mirrors_def)
  let ?t = "\<lparr>pw_records = d, pw_files = pw_files s', pw_world = w'\<rparr>"
  have "records_ok (pw_records s')" using m by (simp add: mirrors_def)
  then have "list_records status ?t = list_records status s'" for status
    using load_processes_ok [OF d(1)] d(2) by (intro list_records_agree) simp_all
  then show ?thesis using assms(2) d by (simp add: open_registry_def get_record_def)
qed

lemma registry_survives_restart_witness:
  "\<exists>s s' t. open_registry (still_host (Some ''p.json'') 5) [] [] = Inr s \<and>
    registry_ops (still_host (Some ''p.json'') 5) s s' \<and> get_record ''r1'' s' \<noteq> None \<and>
    open_registry (still_host (Some ''p.json'') 5) (pw_files s') [] = Inr t \<and> get_record ''r1'' t = get_record ''r1'' s'"
proof -
  let ?H = "still_host (Some ''p.json'') 5"
  define s where "s = \<lparr>pw_records = [], pw_files = [], pw_world = [] :: int list\<rparr>"
  define s' where "s' = snd (register_process ?H ''run'' 7 ''id'' [] ''/'' 60 s)"
  have s: "open_registry ?H [] [] = Inr s"
    by (simp add: open_registry_def still_host_def load_processes_def s_def)
  have "registry_op ?H s s'"
    unfolding s'_def
    by (rule registry_op.register [of _ "''run''" 7 "''id''" "[]" "''/''" 60 _
          "fst (register_process ?H ''run'' 7 ''id'' [] ''/'' 60 s)"]) (simp_all add: s_def dkeys_def)
  then have ops: "registry_ops ?H s s'" by (blast intro: registry_ops.intros)
  have "strip ''run'' \<noteq> []" by code_simp
  then have "get_record ''r1'' s' \<noteq> None"
    by (simp add: s'_def register_process_def consult_eq Let_def get_record_def still_host_def)
  moreover have "codec_ok (ph_codec ?H)" "ph_path ?H = Some ''p.json''"
    by (simp_all add: still_host_def tally_codec_ok)
  moreover note registry_survives_restart [OF this s ops, of "[]"]
  ultimately show ?thesis using s ops by blast
qed

text \<open>
  C15: reaping takes exactly the running records whose heartbeat is older than the threshold, in the
  order of their start, and kills exactly those of them whose process still has the identity that
  was registered: a process id that the system has reused is never killed, its record becomes
  lost. Every other record stays as it was.
\<close>

theorem reap_exact:
  assumes "kills_logged H ident lookup terminate killed" "records_ok (pw_records s)" "0 < stale_after"
    and stale: "stale = stale_running (fst (ph_clock H (pw_world s))) stale_after s"
  shows "set stale = {r. get_record (pr_record_id r) s = Some r \<and> pr_status r = ''running'' \<and>
      stale_after < fst (ph_clock H (pw_world s)) - pr_heartbeat_at r} \<and>
    (\<exists>rs s'. reap_stale H stale_after lookup terminate s = (Inr rs, s') \<and> list_all2 (reaped_as ident) stale rs \<and>
      (\<forall>r\<in>set rs. get_record (pr_record_id r) s' = Some r) \<and>
      (\<forall>k. k \<notin> pr_record_id ` set stale \<longrightarrow> get_record k s' = get_record k s) \<and>
      killed (pw_world s') = killed (pw_world s) @ map pr_pid (filter (alive ident) stale))"
proof -
  let ?s = "s\<lparr>pw_world := snd (ph_clock H (pw_world s))\<rparr>"
  have w: "stale_running now a ?s = stale_running now a s" for now a
    by (simp add: stale_running_def list_records_def)
  have recs: "\<forall>r\<in>set stale. dget (pw_records ?s) (pr_record_id r) = Some r \<and> pr_status r = ''running''"
    "distinct (map pr_record_id stale)"
    using stale_running_records [OF assms(2)] by (simp_all add: stale)
  have "reap_stale H stale_after lookup terminate s = reap_all H lookup terminate stale ?s"
    using assms(3) by (simp add: reap_stale_def consult_eq stale w)
  moreover have "killed (pw_world ?s) = killed (pw_world s)" using assms(1) by (simp add: kills_logged_def)
  moreover have "set stale = {r. get_record (pr_record_id r) s = Some r \<and> pr_status r = ''running'' \<and>
      stale_after < fst (ph_clock H (pw_world s)) - pr_heartbeat_at r}"
    using stale_running_records(2) [OF assms(2)] by (simp add: stale get_record_def)
  ultimately show ?thesis
    using reap_all_exact [OF assms(1) recs(2,1)] by (simp add: get_record_def)
qed

lemma reap_exact_witness:
  "\<exists>rs s'. reap_stale (still_host None 99) 60 example_lookup example_terminate example_registry = (Inr rs, s') \<and>
    pw_world s' = [7] \<and> map pr_status rs = [''terminated'', ''lost'']"
proof -
  let ?ident = "\<lambda>pid. if pid = 7 then Some ''id'' else None"
  have k: "kills_logged (still_host None 99) ?ident example_lookup example_terminate (\<lambda>w. w)"
    by (simp add: kills_logged_def still_host_def example_lookup_def example_terminate_def)
  have stale: "stale_running (fst (ph_clock (still_host None 99) (pw_world example_registry))) 60 example_registry =
      [example_record ''a'' 7 ''running'', example_record ''c'' 9 ''running'']"
    by (simp add: stale_running_def list_records_def example_registry_def example_record_def still_host_def)
  have world: "pw_world example_registry = []" by (simp add: example_registry_def)
  from reap_exact [OF k example_registry_ok _ refl, of 60] stale world
  obtain rs s' where r: "reap_stale (still_host None 99) 60 example_lookup example_terminate example_registry = (Inr rs, s')"
    "list_all2 (reaped_as ?ident) [example_record ''a'' 7 ''running'', example_record ''c'' 9 ''running''] rs"
    "pw_world s' = map pr_pid (filter (alive ?ident) [example_record ''a'' 7 ''running'', example_record ''c'' 9 ''running''])"
    by auto
  from r(2) obtain x y where xy: "rs = [x, y]" "reaped_as ?ident (example_record ''a'' 7 ''running'') x"
    "reaped_as ?ident (example_record ''c'' 9 ''running'') y" by (auto simp: list_all2_Cons1)
  have "pr_status x = ''terminated''" "pr_status y = ''lost''"
    using reaped_as_status [OF xy(2)] reaped_as_status [OF xy(3)] by (simp_all add: alive_def example_record_def)
  moreover have "pw_world s' = [7]" using r(3) by (simp add: alive_def example_record_def)
  ultimately show ?thesis using r(1) xy(1) by simp
qed

text \<open>
  Pruning removes exactly the records that are terminal and finished before the retention time,
  the oldest of them first and at most the given number, returns how many it removed, and leaves
  every other record as it was.
\<close>

theorem prune_exact:
  assumes "records_ok (pw_records s)" "prune_terminal H retain limit s = (Inr n, s')"
    and cutoff: "cutoff = seconds_ago (fst (ph_clock H (pw_world s))) retain"
    and old: "old = {r. get_record (pr_record_id r) s = Some r \<and> expired cutoff r}"
    and gone: "gone = {r. get_record (pr_record_id r) s = Some r \<and> get_record (pr_record_id r) s' = None}"
  shows "gone \<subseteq> old \<and> card gone = n \<and>
    n = (case plain_int limit of None \<Rightarrow> card old | Some m \<Rightarrow> min (nat m) (card old)) \<and>
    (\<forall>x\<in>gone. \<forall>y\<in>old - gone. (the (pr_finished_at x), pr_record_id x) \<le> (the (pr_finished_at y), pr_record_id y)) \<and>
    (\<forall>k r. get_record k s = Some r \<longrightarrow> r \<notin> gone \<longrightarrow> get_record k s' = Some r)"
proof -
  let ?rs = "removable cutoff (plain_int limit) s"
  obtain s': "pw_records s' = fold (\<lambda>r d. ddel (pr_record_id r) d) ?rs (pw_records s)" and n: "n = length ?rs"
    using prune_records [OF assms(2)] by (metis cutoff fst_conv)
  have get: "get_record k s' = (if k \<in> pr_record_id ` set ?rs then None else get_record k s)" for k
    by (simp add: get_record_def s' dget_fold_ddel)
  have all: "snd ` set (pw_records s) = {r. get_record (pr_record_id r) s = Some r}"
    using records_of_dget [OF assms(1)] by (simp add: get_record_def)
  have rs: "set ?rs \<subseteq> {r. get_record (pr_record_id r) s = Some r}"
    using removable_sub [of cutoff "plain_int limit" s] all by blast
  have gone_rs: "gone = set ?rs"
    using rs by (auto simp: gone get)
  have old_list: "old = set (filter (expired cutoff) (map snd (pw_records s)))"
    using all by (auto simp: old)
  have ids: "distinct (map pr_record_id (map snd (pw_records s)))" by (rule distinct_ids [OF assms(1)])
  then have "distinct (map snd (pw_records s))" by (simp only: distinct_map)
  then have "distinct ?rs" and card_old: "card old = length (filter (expired cutoff) (map snd (pw_records s)))"
    unfolding old_list by (simp add: removable_def Let_def split: option.split, metis distinct_card distinct_filter)
  then have "card gone = n" by (simp add: gone_rs n distinct_card)
  moreover have "gone \<subseteq> old"
    using removable_sub [of cutoff "plain_int limit" s] by (auto simp: gone_rs old_list)
  moreover have "n = (case plain_int limit of None \<Rightarrow> card old | Some m \<Rightarrow> min (nat m) (card old))"
    unfolding n card_old removable_length Let_def by (rule refl)
  moreover have "\<forall>x\<in>gone. \<forall>y\<in>old - gone. (the (pr_finished_at x), pr_record_id x) \<le> (the (pr_finished_at y), pr_record_id y)"
    by (intro ballI removable_oldest [where cutoff = cutoff and limit = "plain_int limit" and s = s]) (simp_all add: gone_rs old all)
  moreover have "\<forall>k r. get_record k s = Some r \<longrightarrow> r \<notin> gone \<longrightarrow> get_record k s' = Some r"
  proof (intro allI impI)
    fix k r assume k: "get_record k s = Some r" and r: "r \<notin> gone"
    have "x = r" if "x \<in> set ?rs" "pr_record_id x = k" for x using rs that k by force
    then have "k \<notin> pr_record_id ` set ?rs" using r unfolding gone_rs by blast
    then show "get_record k s' = Some r" by (simp add: get k)
  qed
  ultimately show ?thesis by blast
qed

lemma prune_exact_witness:
  "\<exists>s'. prune_terminal (still_host None 99) (FFin 60) (PInt 5) example_registry = (Inr 1, s') \<and>
    get_record ''b'' s' = None"
proof -
  let ?H = "still_host None 99"
  let ?out = "prune_terminal ?H (FFin 60) (PInt 5) example_registry"
  have out: "?out = (Inr 1, snd ?out)" by (simp add: prune_terminal_def consult_eq Let_def negative_def removable_def
      seconds_ago_def expired_def example_registry_def example_record_def still_host_def)
  note prune_exact [OF example_registry_ok out refl refl refl]
  then have "card {r. get_record (pr_record_id r) example_registry = Some r \<and> get_record (pr_record_id r) (snd ?out) = None} = 1"
    and sub: "{r. get_record (pr_record_id r) example_registry = Some r \<and> get_record (pr_record_id r) (snd ?out) = None}
      \<subseteq> {r. get_record (pr_record_id r) example_registry = Some r \<and>
          expired (seconds_ago (fst (ph_clock ?H (pw_world example_registry))) (FFin 60)) r}" by blast+
  then obtain r where r: "get_record (pr_record_id r) example_registry = Some r" "get_record (pr_record_id r) (snd ?out) = None"
    by (auto simp: card_1_singleton_iff)
  with sub have "pr_status r \<noteq> ''running''" by (auto simp: expired_def)
  with r(1) have "pr_record_id r = ''b''"
    by (auto simp: get_record_def example_registry_def example_record_def dest: arg_cong [of _ _ pr_status] split: if_splits)
  with out r(2) show ?thesis by auto
qed

text \<open>
  When the operations refuse. Registering raises exactly when owner, process id or identity are
  missing; a heartbeat raises exactly when there is no running record; finishing raises exactly
  when the status is no terminal one or the record is unknown, and finishing a finished record
  again gives it back as it is. What raises changes nothing, what returns is what is stored.
\<close>

theorem registry_refuses_exactly:
  "(case register_process H owner pid identity argv cwd timeout s of
      (Inl e, s') \<Rightarrow> s' = s \<and> (strip owner = [] \<or> pid \<le> 0 \<or> identity = [])
    | (Inr r, s') \<Rightarrow> strip owner \<noteq> [] \<and> 0 < pid \<and> identity \<noteq> [] \<and>
        get_record (pr_record_id r) s' = Some r \<and> pr_status r = ''running'' \<and> pr_pid r = pid \<and> pr_identity r = identity) \<and>
   (case heartbeat H k s of
      (Inl e, s') \<Rightarrow> s' = s \<and> map_option pr_status (get_record k s) \<noteq> Some ''running''
    | (Inr r, s') \<Rightarrow> map_option pr_status (get_record k s) = Some ''running'' \<and> get_record k s' = Some r \<and>
        pr_heartbeat_at r = fst (ph_clock H (pw_world s))) \<and>
   (case finish H k status code reason s of
      (Inl e, s') \<Rightarrow> s' = s \<and> (status = ''running'' \<or> get_record k s = None)
    | (Inr r, s') \<Rightarrow> status \<noteq> ''running'' \<and> get_record k s' = Some r \<and> pr_status r \<noteq> ''running'' \<and>
        (if map_option pr_status (get_record k s) = Some ''running'' then pr_status r = status
         else s' = s \<and> get_record k s = Some r) \<and>
        finish H k status code reason s' = (Inr r, s'))"
proof (intro conjI)
  show "case register_process H owner pid identity argv cwd timeout s of
      (Inl e, s') \<Rightarrow> s' = s \<and> (strip owner = [] \<or> pid \<le> 0 \<or> identity = [])
    | (Inr r, s') \<Rightarrow> strip owner \<noteq> [] \<and> 0 < pid \<and> identity \<noteq> [] \<and>
        get_record (pr_record_id r) s' = Some r \<and> pr_status r = ''running'' \<and> pr_pid r = pid \<and> pr_identity r = identity"
    by (simp add: register_process_def consult_eq Let_def get_record_def)
  show "case heartbeat H k s of
      (Inl e, s') \<Rightarrow> s' = s \<and> map_option pr_status (get_record k s) \<noteq> Some ''running''
    | (Inr r, s') \<Rightarrow> map_option pr_status (get_record k s) = Some ''running'' \<and> get_record k s' = Some r \<and>
        pr_heartbeat_at r = fst (ph_clock H (pw_world s))"
    by (auto simp: heartbeat_def require_running_def consult_eq Let_def get_record_def split: option.split)
  show "case finish H k status code reason s of
      (Inl e, s') \<Rightarrow> s' = s \<and> (status = ''running'' \<or> get_record k s = None)
    | (Inr r, s') \<Rightarrow> status \<noteq> ''running'' \<and> get_record k s' = Some r \<and> pr_status r \<noteq> ''running'' \<and>
        (if map_option pr_status (get_record k s) = Some ''running'' then pr_status r = status
         else s' = s \<and> get_record k s = Some r) \<and>
        finish H k status code reason s' = (Inr r, s')"
    by (cases "dget (pw_records s) k") (simp_all add: finish_def consult_eq Let_def get_record_def)
qed

end
