(* ===== verification/Service_Properties.thy ===== *)
theory Service_Properties
  imports Reaper_Service Process_Properties
begin

text \<open>
  The properties of the report store and of the reaper service: reports are loaded and listed as
  they were saved, a run of the service is bounded and always releases its lock, a completed run
  has its report in the store, and no run damages the registry.
\<close>

section \<open>Names of report files\<close>

lemma split_at_unique: "c \<notin> set xs \<Longrightarrow> c \<notin> set ys \<Longrightarrow> xs @ c # us = ys @ c # vs \<Longrightarrow> xs = ys \<and> us = vs"
proof (induction xs arbitrary: ys)
  case Nil
  then show ?case by (cases ys) auto
next
  case (Cons x xs)
  then show ?case by (cases ys) auto
qed

lemma identifier_no_slash: "is_identifier s \<Longrightarrow> CHR ''/'' \<notin> set s"
  by (auto simp: is_identifier_def identifier_char_def Let_def list_all_iff)

lemma report_target_inject:
  assumes "is_identifier a" "is_identifier b"
  shows "a @ ''/'' @ x @ ''.json'' = b @ ''/'' @ y @ ''.json'' \<longleftrightarrow> a = b \<and> x = y"
  using split_at_unique [of "CHR ''/''" a b "x @ ''.json''" "y @ ''.json''"] identifier_no_slash assms by auto

lemma report_stem_target:
  assumes "is_identifier service" "is_identifier a" "is_identifier run_id"
  shows "report_stem service (a @ ''/'' @ run_id @ ''.json'') = (if a = service then Some run_id else None)"
  using assms report_target_inject [of a service] by (auto simp: report_stem_def Let_def)

section \<open>Saving several reports\<close>

definition save_reports :: "json_codec \<Rightarrow> service_report list \<Rightarrow> directory \<Rightarrow> py_exc + directory" where
  "save_reports J rs files = fold (\<lambda>r acc. exc_bind acc (save_report J r)) rs (Inr files)"

abbreviation report_key :: "service_report \<Rightarrow> string" where
  "report_key r \<equiv> sr_service r @ ''/'' @ sr_run_id r @ ''.json''"

abbreviation report_text :: "json_codec \<Rightarrow> service_report \<Rightarrow> string" where
  "report_text J r \<equiv> jc_dumps J (PDict [(''schema_version'', PInt 1), (''report'', PDict (service_report_dict r))]) @ [CHR 0x0A]"

lemma save_report_ok: "report_ok J r \<Longrightarrow> save_report J r files = Inr (dset (report_key r) (report_text J r) files)"
  using report_ok_ids [of J r] by (simp add: save_report_def report_target_ok)

lemma save_reports_ok:
  assumes "\<forall>r\<in>set rs. report_ok J r" "distinct (map report_key rs)" "set (dkeys files) \<inter> set (map report_key rs) = {}"
  shows "save_reports J rs files = Inr (files @ map (\<lambda>r. (report_key r, report_text J r)) rs)"
  using assms
proof (induction rs arbitrary: files)
  case (Cons r rs)
  have "save_report J r files = Inr (files @ [(report_key r, report_text J r)])"
    using Cons.prems by (simp add: save_report_ok dset_new)
  moreover have "save_reports J rs (files @ [(report_key r, report_text J r)]) =
      Inr ((files @ [(report_key r, report_text J r)]) @ map (\<lambda>r. (report_key r, report_text J r)) rs)"
    by (rule Cons.IH) (use Cons.prems in \<open>auto simp: dkeys_def\<close>)
  ultimately show ?case by (simp add: save_reports_def)
qed (simp add: save_reports_def)

lemma load_report_text:
  assumes "codec_ok J" "report_ok J r" "dget files (report_key r) = Some (report_text J r)"
  shows "load_report J (sr_service r) (sr_run_id r) files = Inr r"
  using assms report_ok_ids [OF assms(2)] report_round_trip [OF assms(2)]
  by (simp add: load_report_def report_target_ok codec_loads_line [OF assms(1)] eq_num_def dget_or_def field_exc_def)

lemma newest_first_sorted: "sorted_wrt (\<lambda>a b. (sr_started_at b, sr_run_id b) \<le> (sr_started_at a, sr_run_id a)) (newest_first rs)"
proof -
  have "sorted (map (\<lambda>r. (sr_started_at r, sr_run_id r)) (sort_key (\<lambda>r. (sr_started_at r, sr_run_id r)) (rev rs)))"
    by (rule sorted_sort_key)
  then show ?thesis by (simp add: newest_first_def sorted_wrt_rev sorted_wrt_map)
qed

lemma set_newest_first [simp]: "set (newest_first rs) = set rs" "length (newest_first rs) = length rs"
  by (simp_all add: newest_first_def)

lemma sorted_wrt_take_drop: "sorted_wrt P xs \<Longrightarrow> x \<in> set (take n xs) \<Longrightarrow> y \<in> set (drop n xs) \<Longrightarrow> P x y"
  by (metis append_take_drop_id sorted_wrt_append)

section \<open>Properties\<close>

text \<open>
  Reports saved in any order are loaded as they were saved, and listing a service gives its newest
  reports first, at most the limit, no other service's report, and no older one in place of a
  newer one.
\<close>

theorem saved_reports_listed:
  assumes J: "codec_ok J" and ok: "\<forall>r\<in>set rs. report_ok J r"
    and keys: "distinct (map (\<lambda>r. (sr_service r, sr_run_id r)) rs)"
    and saved: "save_reports J rs [] = Inr files" and service: "is_identifier service" and n: "0 < n" "n \<le> 100"
  shows "(\<forall>r\<in>set rs. load_report J (sr_service r) (sr_run_id r) files = Inr r) \<and>
    (\<exists>out. list_reports J service (PInt n) files = Inr out \<and>
      length out = min (nat n) (length (filter (\<lambda>r. sr_service r = service) rs)) \<and>
      set out \<subseteq> {r \<in> set rs. sr_service r = service} \<and>
      sorted_wrt (\<lambda>a b. (sr_started_at b, sr_run_id b) \<le> (sr_started_at a, sr_run_id a)) out \<and>
      (\<forall>a\<in>set out. \<forall>b\<in>{r \<in> set rs. sr_service r = service} - set out.
        (sr_started_at b, sr_run_id b) \<le> (sr_started_at a, sr_run_id a)))"
proof -
  let ?mine = "filter (\<lambda>r. sr_service r = service) rs"
  have ids: "is_identifier (sr_service r) \<and> is_identifier (sr_run_id r)" if "r \<in> set rs" for r
    using ok that report_ok_ids by blast
  have distinct: "distinct (map report_key rs)"
    using keys ids report_target_inject by (auto simp: distinct_map inj_on_def)
  have files: "files = map (\<lambda>r. (report_key r, report_text J r)) rs"
    using save_reports_ok [OF ok distinct, of "[]"] saved by (simp add: dkeys_def)
  have wf: "wf_dict files" using distinct by (simp add: files wf_dict_def comp_def)
  have load: "load_report J (sr_service r) (sr_run_id r) files = Inr r" if "r \<in> set rs" for r
  proof -
    have "dget files (report_key r) = Some (report_text J r)"
      unfolding dget_in [OF wf, symmetric] using that by (auto simp: files)
    then show ?thesis using J ok that by (simp add: load_report_text)
  qed
  have stems: "report_stems service files = map sr_run_id ?mine"
  proof -
    have "List.map_filter (report_stem service) (map report_key xs) = map sr_run_id (filter (\<lambda>r. sr_service r = service) xs)"
      if "set xs \<subseteq> set rs" for xs
      using that
    proof (induction xs)
      case (Cons x xs)
      then have "report_stem service (report_key x) = (if sr_service x = service then Some (sr_run_id x) else None)"
        by (intro report_stem_target) (use ids service in auto)
      with Cons show ?case by (simp add: List.map_filter_simps)
    qed (simp add: List.map_filter_simps)
    then show ?thesis by (simp add: report_stems_def files dkeys_def comp_def)
  qed
  have "map_exc (\<lambda>stem. load_report J service stem files) (map sr_run_id ?mine) = Inr ?mine"
    by (rule map_exc_Inr) (use load in auto)
  then have out: "list_reports J service (PInt n) files = Inr (take (nat n) (newest_first ?mine))"
    using service n by (simp add: list_reports_def report_identifier_def stems)
  have rest: "b \<in> set (drop (nat n) (newest_first ?mine))"
    if "b \<in> {r \<in> set rs. sr_service r = service} - set (take (nat n) (newest_first ?mine))" for b
  proof -
    have "b \<in> set (take (nat n) (newest_first ?mine) @ drop (nat n) (newest_first ?mine))" using that by simp
    then show ?thesis unfolding set_append using that by blast
  qed
  show ?thesis
  proof (intro conjI exI [of _ "take (nat n) (newest_first ?mine)"])
    show "\<forall>r\<in>set rs. load_report J (sr_service r) (sr_run_id r) files = Inr r" using load by blast
    show "list_reports J service (PInt n) files = Inr (take (nat n) (newest_first ?mine))" by (rule out)
    show "length (take (nat n) (newest_first ?mine)) = min (nat n) (length ?mine)" by simp
    show "set (take (nat n) (newest_first ?mine)) \<subseteq> {r \<in> set rs. sr_service r = service}"
      by (auto dest: in_set_takeD)
    show "sorted_wrt (\<lambda>a b. (sr_started_at b, sr_run_id b) \<le> (sr_started_at a, sr_run_id a)) (take (nat n) (newest_first ?mine))"
      by (rule sorted_wrt_take [OF newest_first_sorted])
    show "\<forall>a\<in>set (take (nat n) (newest_first ?mine)).
        \<forall>b\<in>{r \<in> set rs. sr_service r = service} - set (take (nat n) (newest_first ?mine)).
          (sr_started_at b, sr_run_id b) \<le> (sr_started_at a, sr_run_id a)"
      using rest sorted_wrt_take_drop [OF newest_first_sorted] by blast
  qed
qed

definition example_report :: "string \<Rightarrow> rat \<Rightarrow> service_report" where
  "example_report run_id started = \<lparr>sr_run_id = run_id, sr_service = ''svc'', sr_status = ''completed'',
     sr_stop_reason = ''done'', sr_started_at = started, sr_finished_at = started, sr_metrics = [],
     sr_details = FMap [], sr_error = None\<rparr>"

lemma saved_reports_listed_witness:
  "\<exists>files. save_reports tally_codec [example_report ''r1'' 1, example_report ''r2'' 2] [] = Inr files \<and>
    load_report tally_codec ''svc'' ''r2'' files = Inr (example_report ''r2'' 2) \<and>
    (\<exists>out. list_reports tally_codec ''svc'' (PInt 1) files = Inr out \<and> length out = 1)"
proof -
  let ?rs = "[example_report ''r1'' 1, example_report ''r2'' 2]"
  have ids: "is_identifier ''r1''" "is_identifier ''r2''" "is_identifier ''svc''" by code_simp+
  have strip: "strip ''done'' = ''done''" by code_simp
  have ok: "\<forall>r\<in>set ?rs. report_ok tally_codec r"
    using ids strip by (simp add: report_ok_def mk_service_report_def example_report_def report_identifier_def
        json_snapshot_def codec_loads [OF tally_codec_ok])
  have keys: "distinct (map (\<lambda>r. (sr_service r, sr_run_id r)) ?rs)" by (simp add: example_report_def)
  have "distinct (map report_key ?rs)" by (simp add: example_report_def)
  from save_reports_ok [OF ok this, of "[]"] obtain files where files: "save_reports tally_codec ?rs [] = Inr files"
    by (simp add: dkeys_def)
  from saved_reports_listed [OF tally_codec_ok ok keys files ids(3), of 1] obtain out where
    "list_reports tally_codec ''svc'' (PInt 1) files = Inr out" "length out = 1"
    "load_report tally_codec ''svc'' ''r2'' files = Inr (example_report ''r2'' 2)"
    by (auto simp: example_report_def)
  with files show ?thesis by blast
qed

text \<open>
  A run of the reaper under a valid policy always returns: it refuses, and changes nothing, exactly
  when another run holds the registry's run lock; otherwise it makes at most the given number of
  cycles, numbers them from one, ends completed at a stop request or after all its cycles, or
  failed with an error, and always releases the lock.
\<close>

theorem reaper_run_bounded:
  assumes "mk_reaper_policy stale interval max_cycles retention = Inr (rs_policy S)"
  shows "case reaper_run S w of
      (Inl e, w') \<Rightarrow> rw_running w \<and> w' = w
    | (Inr r, w') \<Rightarrow> \<not> rw_running w \<and> \<not> rw_running w' \<and> numbered cr_cycle (rr_cycles r) \<and>
        int (length (rr_cycles r)) \<le> max_cycles \<and>
        (rr_status r = ''failed'' \<and> rr_stop_reason r = ''error'' \<and> rr_error r \<noteq> None \<or>
         rr_status r = ''completed'' \<and> rr_error r = None \<and>
           (rr_stop_reason r = ''stop_requested'' \<or>
            rr_stop_reason r = ''max_cycles'' \<and> int (length (rr_cycles r)) = max_cycles))"
proof (cases "rw_running w")
  case True
  then show ?thesis by (simp add: reaper_run_def)
next
  case False
  have p: "0 < rp_max_cycles (rs_policy S)" "rp_max_cycles (rs_policy S) = max_cycles"
    using assms by (auto simp: mk_reaper_policy_def dest: arg_cong [of _ _ rp_max_cycles] split: if_splits)
  from reaper_run_ends [OF False p(1)] obtain status stop run_id started cycles error s0 r s1 where
    e: "ending (rs_policy S) status stop cycles error"
    "report_run S status stop run_id started cycles error s0 = (r, s1)"
    "reaper_run S w = (Inr r, w\<lparr>rw_process := s1, rw_running := False\<rparr>)" by metis
  from e(2) show ?thesis
    by (cases rule: report_run_cases) (use e(1,3) p False in \<open>simp_all add: ending_def\<close>)
qed

text \<open>The service of the examples: default functions, a JSON report store, no stop request.\<close>

definition example_policy :: reaper_policy where
  "example_policy = \<lparr>rp_stale_after_seconds = 60, rp_interval_seconds = 5, rp_max_cycles = 2,
     rp_retention = Some \<lparr>rt_retain_seconds = FFin 10, rt_prune_every_cycles = 2, rt_max_pruned_per_cycle = 100\<rparr>\<rparr>"

definition example_service :: "int list reaper_service" where
  "example_service = \<lparr>rs_policy = example_policy,
     rs_reaper = default_reaper (still_host (Some ''p'') 99) example_lookup example_terminate,
     rs_pruner = default_pruner (still_host (Some ''p'') 99), rs_clock = (\<lambda>w. (99, w)), rs_uuid = (\<lambda>w. (''run'', w)),
     rs_is_set = (\<lambda>w. (False, w)), rs_wait = (\<lambda>t w. (False, w)), rs_codec = tally_codec,
     rs_report_store = Some (json_report_sink tally_codec)\<rparr>"

definition example_world :: "int list reaper_world" where
  "example_world = \<lparr>rw_process = example_registry, rw_running = False\<rparr>"

lemma example_policy_ok:
  "mk_reaper_policy 60 5 2 (rp_retention example_policy) = Inr (rs_policy example_service)"
  by (simp add: mk_reaper_policy_def example_service_def example_policy_def)

lemma reaper_run_bounded_witness:
  "\<exists>r w'. reaper_run example_service example_world = (Inr r, w') \<and> \<not> rw_running w' \<and> length (rr_cycles r) \<le> 2"
proof -
  have "\<not> rw_running example_world" by (simp add: example_world_def)
  with reaper_run_bounded [OF example_policy_ok, of example_world] show ?thesis
    by (auto split: prod.splits sum.splits)
qed

text \<open>
  When a run that saves its reports with the JSON store returns as completed, its report is in the
  store: loading the service's name and the run's id gives back the very report of the run, with
  its counts as metrics.
\<close>

theorem completed_run_is_stored:
  assumes "codec_ok (rs_codec S)" "rs_report_store S = Some (json_report_sink (rs_codec S))"
    "0 < rp_max_cycles (rs_policy S)" "reaper_run S w = (Inr r, w')" "rr_status r = ''completed''"
  shows "\<exists>sr. to_service_report (rs_codec S) r = Inr sr \<and>
    load_report (rs_codec S) ''process_reaper'' (rr_run_id r) (pw_files (rw_process w')) = Inr sr \<and>
    sr_status sr = ''completed'' \<and> sr_error sr = None \<and>
    dget (sr_metrics sr) ''cycle_count'' = Some (PInt (int (length (rr_cycles r)))) \<and>
    dget (sr_metrics sr) ''reaped_count'' = Some (PInt (int (reaped_count r)))"
proof -
  have free: "\<not> rw_running w" using assms(4) by (auto simp: reaper_run_def split: if_splits)
  from reaper_run_ends [OF free assms(3)] obtain status stop run_id started cycles error s0 s1 where
    e: "ending (rs_policy S) status stop cycles error"
    "report_run S status stop run_id started cycles error s0 = (r, s1)" "w' = w\<lparr>rw_process := s1, rw_running := False\<rparr>"
    using assms(4) by (metis Pair_inject sum.inject(2))
  from e(2) show ?thesis
  proof (cases rule: report_run_cases)
    case reported
    then obtain sr s where sr: "to_service_report (rs_codec S) r = Inr sr" "json_report_sink (rs_codec S) sr s = (None, s1)"
      using assms(2) by auto
    have "report_ok (rs_codec S) sr"
      using sr(1) unfolding to_service_report_def by (rule mk_service_report_ok [OF assms(1)])
    from save_load_report [OF assms(1) this, of "pw_files s"] sr(2)
    have "load_report (rs_codec S) (sr_service sr) (sr_run_id sr) (pw_files s1) = Inr sr"
      by (auto simp: json_report_sink_def)
    moreover have "sr_service sr = ''process_reaper''" "sr_run_id sr = rr_run_id r" "sr_status sr = rr_status r"
      "sr_error sr = rr_error r" "dget (sr_metrics sr) ''cycle_count'' = Some (PInt (int (length (rr_cycles r))))"
      "dget (sr_metrics sr) ''reaped_count'' = Some (PInt (int (reaped_count r)))"
      using sr(1) by (auto simp: to_service_report_def mk_service_report_def exc_bind_Inr report_identifier_def split: if_splits)
    moreover have "rr_error r = None" using e(1) reported assms(5) by (auto simp: ending_def)
    ultimately show ?thesis using sr(1) e(3) assms(5) by simp
  next
    case unsaved
    with assms(5) show ?thesis by simp
  qed
qed

lemma completed_run_is_stored_witness:
  "\<exists>r w' sr. reaper_run (example_service\<lparr>rs_is_set := (\<lambda>w. (True, w))\<rparr>) example_world = (Inr r, w') \<and>
    load_report tally_codec ''process_reaper'' ''run'' (pw_files (rw_process w')) = Inr sr \<and> sr_status sr = ''completed''"
proof -
  let ?S = "example_service\<lparr>rs_is_set := (\<lambda>w. (True, w))\<rparr>"
  have ids: "is_identifier ''run''" "is_identifier ''process_reaper''" by code_simp+
  have strips: "strip ''stop_requested'' = ''stop_requested''" "strip ''cycle_count'' \<noteq> []" "strip ''reaped_count'' \<noteq> []"
    "strip ''terminated_count'' \<noteq> []" "strip ''lost_count'' \<noteq> []" "strip ''pruned_count'' \<noteq> []" by code_simp+
  have run: "\<exists>r w'. reaper_run ?S example_world = (Inr r, w') \<and> rr_status r = ''completed'' \<and> rr_run_id r = ''run''"
    by (simp add: reaper_run_def example_world_def example_service_def consult_eq report_run_def Let_def json_report_sink_def
        to_service_report_def mk_service_report_def report_identifier_def ids strips json_snapshot_def codec_loads [OF tally_codec_ok]
        save_report_def report_target_def)
  then obtain r w' where r: "reaper_run ?S example_world = (Inr r, w')" "rr_status r = ''completed''" "rr_run_id r = ''run''"
    by blast
  have "codec_ok (rs_codec ?S)" "rs_report_store ?S = Some (json_report_sink (rs_codec ?S))" "0 < rp_max_cycles (rs_policy ?S)"
    by (simp_all add: example_service_def example_policy_def tally_codec_ok)
  from completed_run_is_stored [OF this r(1,2)] r show ?thesis by (auto simp: example_service_def)
qed

section \<open>A run and the registry\<close>

text \<open>What sweeping may do to the registry: no record is added, records that stay follow the old
  ones, records disappear only under a retention policy, and the file still mirrors the records.\<close>

definition swept :: "bool \<Rightarrow> 'w process_host \<Rightarrow> 'w process_world \<Rightarrow> 'w process_world \<Rightarrow> bool" where
  "swept prunes H s s' \<longleftrightarrow> (mirrors H s \<longrightarrow> mirrors H s') \<and>
     (records_ok (pw_records s) \<longrightarrow> records_ok (pw_records s') \<and>
      (\<forall>k r'. get_record k s' = Some r' \<longrightarrow> (\<exists>r. get_record k s = Some r \<and> follows r r')) \<and>
      (prunes \<or> (\<forall>k. get_record k s' = None \<longrightarrow> get_record k s = None)))"

lemma swept_refl [simp]: "swept b H s (s\<lparr>pw_world := w\<rparr>)" "swept b H s s"
  by (auto simp: swept_def get_record_def)

lemma swept_trans: "swept b H s s' \<Longrightarrow> swept b H s' s'' \<Longrightarrow> swept b H s s''"
  unfolding swept_def using follows_trans by blast

lemma finish_keys: "finish H k status code reason s = (out, s') \<Longrightarrow> dkeys (pw_records s') = dkeys (pw_records s)"
  by (auto simp: finish_def consult_eq Let_def dkeys_dset_old dget_Some_key split: if_splits option.splits)

lemma reap_all_keys: "reap_all H lookup terminate rs s = (out, s') \<Longrightarrow> dkeys (pw_records s') = dkeys (pw_records s)"
proof (induction rs arbitrary: s out)
  case (Cons r rs)
  then show ?case
    by (auto simp: consult_eq Let_def finish_keys split: prod.splits sum.splits option.splits if_splits)
qed simp

lemma reap_stale_swept:
  assumes "reap_stale H stale lookup terminate s = (out, s')" "codec_ok (ph_codec H)"
  shows "swept b H s s'"
proof -
  have keys: "dkeys (pw_records s') = dkeys (pw_records s)"
    using assms(1) by (auto simp: reap_stale_def consult_eq Let_def dest: reap_all_keys split: if_splits)
  have "\<exists>r. get_record k s = Some r \<and> follows r r'"
    if "records_ok (pw_records s)" "get_record k s' = Some r'" for k r'
  proof -
    have "k \<in> set (dkeys (pw_records s))" using that(2) keys dget_Some_key unfolding get_record_def by metis
    then obtain r where r: "dget (pw_records s) k = Some r" using dkey_dget by blast
    with reap_stale_updates [OF assms(1) that(1)] that(2) show ?thesis
      by (force simp: updates_def evolves_def get_record_def)
  qed
  moreover have "get_record k s' = None \<longleftrightarrow> get_record k s = None" for k
    unfolding get_record_def dget_None_iff keys by (rule refl)
  ultimately show ?thesis
    using reap_stale_updates [OF assms(1)] registry_op_mirrors [OF registry_op.reaped [OF assms(1)] assms(2)]
    by (auto simp: swept_def updates_def)
qed

lemma prune_terminal_swept:
  assumes "prune_terminal H retain limit s = (out, s')" "codec_ok (ph_codec H)"
  shows "swept True H s s'"
proof -
  have "\<exists>r. get_record k s = Some r \<and> follows r r'"
    if "records_ok (pw_records s)" "get_record k s' = Some r'" for k r'
    using prune_keeps [OF assms(1) that(1)] that(2) unfolding get_record_def
    by (metis follows_refl option.distinct(1))
  then show ?thesis
    using prune_keeps [OF assms(1)] prune_mirrors [OF assms(1,2)] by (simp add: swept_def)
qed

lemma swept_consult: "consult f s = (x, s') \<Longrightarrow> swept b H s s'"
  by (auto simp: consult_eq)

text \<open>A service on the registry's own functions; its reports go to other files than the registry's.\<close>

definition on_registry :: "'w process_host \<Rightarrow> 'w reaper_service \<Rightarrow> bool" where
  "on_registry H S \<longleftrightarrow> codec_ok (ph_codec H) \<and>
     (\<exists>lookup terminate. rs_reaper S = default_reaper H lookup terminate) \<and> rs_pruner S = default_pruner H \<and>
     (\<forall>path run_id. ph_path H = Some path \<longrightarrow> path \<noteq> ''process_reaper/'' @ run_id @ ''.json'') \<and>
     (rs_report_store S = None \<or> rs_report_store S = Some (json_report_sink (rs_codec S)))"

definition sound_cycle :: "cycle_report \<Rightarrow> bool" where
  "sound_cycle c \<longleftrightarrow> cr_terminated_count c + cr_lost_count c = length (cr_reaped_record_ids c)"

lemma reap_all_Cons_Inr:
  assumes "reap_all H lookup terminate (r # rs) s = (Inr rs', s')"
  shows "\<exists>st re s0 q s2 others. st \<in> {''terminated'', ''lost''} \<and> pw_records s0 = pw_records s \<and>
    finish H (pr_record_id r) st None re s0 = (Inr q, s2) \<and>
    reap_all H lookup terminate rs s2 = (Inr others, s') \<and> rs' = q # others"
proof -
  obtain found s1 where l: "consult (lookup (pr_pid r)) s = (found, s1)" by fastforce
  obtain te s3 where t: "consult (terminate (pr_pid r)) s1 = (te, s3)" by fastforce
  have same: "pw_records s1 = pw_records s" "pw_records s3 = pw_records s" using l t by (auto simp: consult_eq)
  show ?thesis
  proof (cases "found = Some (pr_identity r)")
    case True
    with assms l t have "te = None" by (auto split: option.splits)
    with True assms l t same show ?thesis
      by (auto split: sum.splits prod.splits intro!: exI [of _ "''terminated''"] exI [of _ "Some ''stale_heartbeat''"] exI [of _ s3])
  next
    case False
    with assms l same show ?thesis
      by (auto split: sum.splits prod.splits intro!: exI [of _ "''lost''"]
          exI [of _ "Some ''process_identity_missing_or_changed''"] exI [of _ s1])
  qed
qed

lemma reap_all_statuses:
  assumes "reap_all H lookup terminate rs s = (Inr rs', s')" "distinct (map pr_record_id rs)"
    "\<forall>r\<in>set rs. \<exists>x. dget (pw_records s) (pr_record_id r) = Some x \<and> pr_status x = ''running''"
  shows "\<forall>r\<in>set rs'. pr_status r \<in> {''terminated'', ''lost''}"
  using assms
proof (induction rs arbitrary: s rs')
  case (Cons r rs)
  from reap_all_Cons_Inr [OF Cons.prems(1)] obtain st re s0 q s2 others where step:
    "st \<in> {''terminated'', ''lost''}" "pw_records s0 = pw_records s" "finish H (pr_record_id r) st None re s0 = (Inr q, s2)"
    "reap_all H lookup terminate rs s2 = (Inr others, s')" "rs' = q # others" by blast
  obtain x where "dget (pw_records s) (pr_record_id r) = Some x" "pr_status x = ''running''" using Cons.prems(3) by auto
  then have "pr_status q = st" using step(2,3) by (auto simp: finish_def consult_eq Let_def split: if_splits)
  moreover have "\<forall>q\<in>set others. pr_status q \<in> {''terminated'', ''lost''}"
  proof (rule Cons.IH [OF step(4)])
    show "distinct (map pr_record_id rs)" using Cons.prems(2) by simp
    have "pr_record_id y \<noteq> pr_record_id r" if "y \<in> set rs" for y
      using Cons.prems(2) that by (metis distinct.simps(2) imageI list.set_map list.simps(9))
    then show "\<forall>y\<in>set rs. \<exists>x. dget (pw_records s2) (pr_record_id y) = Some x \<and> pr_status x = ''running''"
      using finish_terminal [OF step(3)] Cons.prems(3) step(2) by simp
  qed
  ultimately show ?case using step(1,5) by simp
qed simp

lemma reap_cycle_keeps:
  assumes "reap_cycle S cycle s = (out, s')" "on_registry H S"
  shows "swept b H s s' \<and> (records_ok (pw_records s) \<longrightarrow> (\<forall>c. out = Inr c \<longrightarrow> sound_cycle c))"
proof -
  let ?stale = "rp_stale_after_seconds (rs_policy S)"
  obtain lookup terminate where S: "rs_reaper S = default_reaper H lookup terminate" and J: "codec_ok (ph_codec H)"
    using assms(2) by (auto simp: on_registry_def)
  obtain started s1 where 1: "consult (rs_clock S) s = (started, s1)" by fastforce
  obtain outs s2 where 2: "reap_stale H ?stale lookup terminate s1 = (outs, s2)" by fastforce
  have swept: "swept b H s s2"
    using swept_consult [OF 1] reap_stale_swept [OF 2 J] swept_trans by blast
  show ?thesis
  proof (cases outs)
    case (Inl e)
    with assms(1) 1 2 S swept show ?thesis by (auto simp: reap_cycle_def default_reaper_def)
  next
    case (Inr rs)
    obtain finished s3 where 3: "consult (rs_clock S) s2 = (finished, s3)" by fastforce
    have out: "out = cycle_report_of cycle started finished (Some rs)" "s' = s3"
      using assms(1) 1 2 3 S Inr by (auto simp: reap_cycle_def default_reaper_def)
    have "sound_cycle c" if ok: "records_ok (pw_records s)" and c: "out = Inr c" for c
    proof -
      have ok1: "records_ok (pw_records s1)" using swept_consult [OF 1, of True H] ok by (simp add: swept_def)
      let ?s = "s1\<lparr>pw_world := snd (ph_clock H (pw_world s1))\<rparr>"
      have all: "reap_all H lookup terminate (stale_running (fst (ph_clock H (pw_world s1))) ?stale ?s) ?s = (Inr rs, s2)"
        using 2 Inr by (auto simp: reap_stale_def consult_eq Let_def split: if_splits)
      have "\<forall>r\<in>set rs. pr_status r \<in> {''terminated'', ''lost''}"
        using stale_running_records [of ?s] ok1 by (intro reap_all_statuses [OF all]) auto
      then have "length (filter (\<lambda>r. pr_status r = ''terminated'') rs) + length (filter (\<lambda>r. pr_status r = ''lost'') rs) = length rs"
        by (induction rs) auto
      with out c show ?thesis by (auto simp: cycle_report_of_def sound_cycle_def)
    qed
    with out swept swept_consult [OF 3] show ?thesis using swept_trans by blast
  qed
qed

lemma prune_cycle_keeps:
  assumes "prune_cycle S t c s = (out, s')" "on_registry H S"
  shows "swept True H s s' \<and> (sound_cycle c \<longrightarrow> (\<forall>c'. out = Inr c' \<longrightarrow> sound_cycle c'))"
proof -
  obtain outs s1 where p: "prune_terminal H (rt_retain_seconds t) (PInt (rt_max_pruned_per_cycle t)) s = (outs, s1)" by fastforce
  have "swept True H s s1" using prune_terminal_swept [OF p] assms(2) by (simp add: on_registry_def)
  moreover have "s' = s1 \<and> (sound_cycle c \<longrightarrow> (\<forall>c'. out = Inr c' \<longrightarrow> sound_cycle c'))"
    using assms p by (auto simp: on_registry_def prune_cycle_def default_pruner_def sound_cycle_def with_pruning_def
        split: sum.splits)
  ultimately show ?thesis by simp
qed

lemma report_run_keeps:
  assumes "report_run S status stop run_id started cycles error s = (r, s')" "on_registry H S"
  shows "swept b H s s' \<and> rr_cycles r = cycles"
proof -
  have world: "swept b H s (s\<lparr>pw_world := w\<rparr>)" for s :: "'a process_world" and w by simp
  have sink: "swept b H s s1" if "save_report J sr (pw_files s) = Inr files" "sr_service sr = ''process_reaper''"
    "s1 = s\<lparr>pw_world := w, pw_files := files\<rparr>" for J sr files s s1 w
  proof -
    have "dget files path = dget (pw_files s) path" if "ph_path H = Some path" for path
      using \<open>save_report J sr (pw_files s) = Inr files\<close> assms(2) \<open>sr_service sr = ''process_reaper''\<close> that
      by (auto simp: save_report_def exc_bind_Inr report_target_def report_identifier_def on_registry_def split: if_splits)
    then have "mirrors H s \<longrightarrow> mirrors H s1" using that(3) by (auto simp: mirrors_def load_processes_def)
    then show ?thesis using that(3) by (auto simp: swept_def get_record_def)
  qed
  have service: "sr_service sr = ''process_reaper''" if "to_service_report J rep = Inr sr" for J rep sr
    using that by (auto simp: to_service_report_def mk_service_report_def exc_bind_Inr report_identifier_def split: if_splits)
  show ?thesis
  proof (cases "rs_report_store S")
    case None
    with assms(1) show ?thesis by (auto simp: report_run_def consult_eq Let_def)
  next
    case (Some save)
    then have "save = json_report_sink (rs_codec S)" using assms(2) by (auto simp: on_registry_def)
    note run = assms(1) [unfolded report_run_def consult_eq Let_def Some this json_report_sink_def]
    show ?thesis
    proof (cases "to_service_report (rs_codec S) \<lparr>rr_run_id = run_id, rr_status = status, rr_stop_reason = stop,
        rr_started_at = started, rr_finished_at = fst (rs_clock S (pw_world s)), rr_cycles = cycles, rr_error = error\<rparr>")
      case (Inl e)
      with run show ?thesis by auto
    next
      case (Inr sr)
      show ?thesis
      proof (cases "save_report (rs_codec S) sr (pw_files s)")
        case (Inl e)
        with run Inr show ?thesis by auto
      next
        case (Inr files)
        with run \<open>_ = Inr sr\<close> show ?thesis by (auto intro: sink [OF Inr service [OF \<open>_ = Inr sr\<close>]])
      qed
    qed
  qed
qed

lemma prune_due_retention: "prune_due p cycle = Some t \<Longrightarrow> rp_retention p \<noteq> None"
  by (auto simp: prune_due_def split: option.splits)

lemma swept_True: "swept b H s s' \<Longrightarrow> swept True H s s'"
  by (auto simp: swept_def)

lemma sound_with_pruning: "sound_cycle (with_pruning c n e) = sound_cycle c"
  by (simp add: sound_cycle_def with_pruning_def)

lemma reap_cycles_keeps:
  assumes "on_registry H S"
  shows "reap_cycles n S run_id started cycle cycles s = (Inr r, s') \<Longrightarrow> records_ok (pw_records s) \<Longrightarrow>
    \<forall>c\<in>set cycles. sound_cycle c \<Longrightarrow>
    swept (rp_retention (rs_policy S) \<noteq> None) H s s' \<and> (\<forall>c\<in>set (rr_cycles r). sound_cycle c)"
proof (induction n arbitrary: cycle cycles s)
  case (Suc n)
  let ?b = "rp_retention (rs_policy S) \<noteq> None"
  have ended: "swept ?b H s s' \<and> (\<forall>c\<in>set (rr_cycles r). sound_cycle c)"
    if "apfst Inr (report_run S status stop run_id started cs error s0) = (Inr r, s')" "swept ?b H s s0"
      "\<forall>c\<in>set cs. sound_cycle c" for status stop cs error s0
  proof -
    have "report_run S status stop run_id started cs error s0 = (r, s')"
      using that(1) by (cases "report_run S status stop run_id started cs error s0") simp
    from report_run_keeps [OF this assms] that show ?thesis using swept_trans by blast
  qed
  obtain oc s1 where reap: "reap_cycle S cycle s = (oc, s1)" by fastforce
  note kept = reap_cycle_keeps [OF reap assms]
  show ?case
  proof (cases oc)
    case (Inl e)
    then show ?thesis using Suc.prems reap kept by (intro ended) auto
  next
    case (Inr c)
    with kept Suc.prems have c: "sound_cycle c" by blast
    obtain op s2 where prune: "(case prune_due (rs_policy S) cycle of None \<Rightarrow> (Inr c, s1) | Some t \<Rightarrow> prune_cycle S t c s1) = (op, s2)"
      by fastforce
    have 2: "swept ?b H s s2 \<and> (\<forall>c'. op = Inr c' \<longrightarrow> sound_cycle c')"
    proof (cases "prune_due (rs_policy S) cycle")
      case None
      with prune kept c show ?thesis by auto
    next
      case (Some t)
      with prune have "swept True H s1 s2 \<and> (\<forall>c'. op = Inr c' \<longrightarrow> sound_cycle c')"
        using prune_cycle_keeps [OF _ assms, of t c s1 op s2] c by simp
      with kept [of True] prune_due_retention [OF Some] show ?thesis using swept_trans by (metis (full_types))
    qed
    note run = Suc.prems(1) reap prune \<open>oc = Inr c\<close>
    show ?thesis
    proof (cases op)
      case (Inl e)
      have "apfst Inr (report_run S ''failed'' ''error'' run_id started (cycles @ [with_pruning c 0 (Some (show_exc e))])
          (Some (''process_retention_error:'' @ show_exc e)) s2) = (Inr r :: py_exc + reaper_report, s')"
        using run Inl by simp
      from ended [OF this] 2 c Suc.prems(3) show ?thesis by (auto simp: sound_with_pruning)
    next
      case (Inr c')
      with 2 Suc.prems(3) have cs: "\<forall>x\<in>set (cycles @ [c']). sound_cycle x" by auto
      show ?thesis
      proof (cases "int cycle = rp_max_cycles (rs_policy S)")
        case True
        then show ?thesis using run Inr 2 cs by (intro ended) auto
      next
        case False
        obtain stop s3 where wait: "consult (rs_wait S (rp_interval_seconds (rs_policy S))) s2 = (stop, s3)" by fastforce
        have 3: "swept ?b H s s3" using 2 swept_consult [OF wait] swept_trans by blast
        show ?thesis
        proof (cases stop)
          case True
          then show ?thesis using run Inr False wait 3 cs by (intro ended) auto
        next
          case go: False
          have "records_ok (pw_records s3)" using 3 Suc.prems(2) by (simp add: swept_def)
          moreover have "reap_cycles n S run_id started (cycle + 1) (cycles @ [c']) s3 = (Inr r, s')"
            using run Inr False wait go by simp
          ultimately show ?thesis using Suc.IH cs 3 swept_trans by blast
        qed
      qed
    qed
  qed
qed simp

text \<open>
  A run of the service on the registry's own functions keeps the registry whole: its file still
  mirrors its records, no record is added, a record that stays is the same process and unchanged
  if it was terminal, none disappears unless a retention policy is set, and every cycle of the
  report accounts for each reaped record as either terminated or lost.
\<close>

theorem reaper_run_keeps_registry:
  assumes "on_registry H S" "mirrors H (rw_process w)" "reaper_run S w = (Inr r, w')"
  shows "mirrors H (rw_process w') \<and>
    (\<forall>k x'. get_record k (rw_process w') = Some x' \<longrightarrow>
      (\<exists>x. get_record k (rw_process w) = Some x \<and> same_process x x' \<and> (pr_status x = ''running'' \<or> x' = x))) \<and>
    (rp_retention (rs_policy S) = None \<longrightarrow>
      (\<forall>k. get_record k (rw_process w') = None \<longrightarrow> get_record k (rw_process w) = None)) \<and>
    (\<forall>c\<in>set (rr_cycles r). cr_terminated_count c + cr_lost_count c = length (cr_reaped_record_ids c))"
proof -
  let ?b = "rp_retention (rs_policy S) \<noteq> None"
  obtain run_id s1 where 1: "consult (rs_uuid S) (rw_process w) = (run_id, s1)" by fastforce
  obtain started s2 where 2: "consult (rs_clock S) s1 = (started, s2)" by fastforce
  obtain stopped s3 where 3: "consult (rs_is_set S) s2 = (stopped, s3)" by fastforce
  have ok: "records_ok (pw_records (rw_process w))" using assms(2) by (simp add: mirrors_def)
  have pre: "swept ?b H (rw_process w) s3"
    by (rule swept_trans [OF swept_consult [OF 1] swept_trans [OF swept_consult [OF 2] swept_consult [OF 3]]])
  then have ok3: "records_ok (pw_records s3)" using ok by (simp add: swept_def)
  have "swept ?b H s3 (rw_process w') \<and> (\<forall>c\<in>set (rr_cycles r). sound_cycle c)"
  proof (cases stopped)
    case True
    obtain r' s4 where rep: "report_run S ''completed'' ''stop_requested'' run_id started [] None s3 = (r', s4)" by fastforce
    with True 1 2 3 assms(3) have "r' = r" "rw_process w' = s4" by (auto simp: reaper_run_def split: if_splits)
    with report_run_keeps [OF rep assms(1)] show ?thesis by simp
  next
    case False
    obtain out s4 where run: "reap_cycles (nat (rp_max_cycles (rs_policy S))) S run_id started 1 [] s3 = (out, s4)" by fastforce
    with False 1 2 3 assms(3) have "out = Inr r" "rw_process w' = s4" by (auto simp: reaper_run_def split: if_splits)
    with reap_cycles_keeps [OF assms(1), of _ run_id started 1 "[]" s3 r s4] run ok3 show ?thesis by simp
  qed
  then have "swept ?b H (rw_process w) (rw_process w')" and cycles: "\<forall>c\<in>set (rr_cycles r). sound_cycle c"
    using pre swept_trans by blast+
  then have "mirrors H (rw_process w') \<and>
      (\<forall>k r'. get_record k (rw_process w') = Some r' \<longrightarrow> (\<exists>r. get_record k (rw_process w) = Some r \<and> follows r r')) \<and>
      (?b \<or> (\<forall>k. get_record k (rw_process w') = None \<longrightarrow> get_record k (rw_process w) = None))"
    using ok assms(2) by (simp add: swept_def)
  moreover have "follows x x' \<longleftrightarrow> same_process x x' \<and> (pr_status x = ''running'' \<or> x' = x)" for x x'
    by (auto simp: follows_def)
  ultimately show ?thesis using cycles by (auto simp: sound_cycle_def)
qed

lemma reaper_run_keeps_registry_witness:
  "\<exists>r w'. reaper_run example_service (example_world\<lparr>rw_process := example_registry\<lparr>pw_records := []\<rparr>\<rparr>) = (Inr r, w') \<and>
    mirrors (still_host (Some ''p'') 99) (rw_process w')"
proof -
  let ?H = "still_host (Some ''p'') 99" and ?w = "example_world\<lparr>rw_process := example_registry\<lparr>pw_records := []\<rparr>\<rparr>"
  have on: "on_registry ?H example_service"
    by (auto simp: on_registry_def still_host_def example_service_def tally_codec_ok)
  have m: "mirrors ?H (rw_process ?w)"
    by (simp add: mirrors_def records_ok_def load_processes_def still_host_def example_registry_def)
  have free: "\<not> rw_running ?w" by (simp add: example_world_def)
  have "0 < rp_max_cycles (rs_policy example_service)" by (simp add: example_service_def example_policy_def)
  from reaper_run_ends [OF free this] obtain r w' where run: "reaper_run example_service ?w = (Inr r, w')" by blast
  from reaper_run_keeps_registry [OF on m run] run show ?thesis by blast
qed

end
