(* ===== verification/Task_Integration.thy ===== *)
theory Task_Integration
  imports Json_Files Task_Models
begin

text \<open>
  The checks of a completed parent: typed selectors that route a parent to a plan
  (\<open>loop_engine/tasks/integration_selectors.py\<close>), the all-of composition of independent verifiers
  (\<open>loop_engine/tasks/integration_composition.py\<close>), and the verifier that runs one configured
  command (\<open>loop_engine/tasks/integration.py\<close>). Arguments that the code checks for being of a class
  of its own are of that type here; a verifier may raise, and may return something that is no
  leaf result. The workspace paths and the bounded subprocess are arguments.
\<close>

section \<open>Selectors\<close>

datatype integration_selector =
    Node_Id_Prefix string
  | Depth_Is int
  | Required_Capability string

datatype group_operator = All_Of | Any_Of

datatype selector_expr =
    Sel integration_selector
  | Group group_operator "selector_expr list"

definition mk_selector :: "pyval \<Rightarrow> pyval \<Rightarrow> py_exc + integration_selector" where
  "mk_selector kind val = (case kind of
      PStr k \<Rightarrow>
        let kind = strip k in
        if kind \<notin> {''node_id_prefix'', ''depth'', ''required_capability''}
          then Inl (ValueError (''unsupported integration selector kind: '' @ kind))
        else if kind = ''depth'' then
          (case plain_int val of
             None \<Rightarrow> Inl (ValueError ''integration depth selector must be non-negative'')
           | Some i \<Rightarrow> if i < 0 then Inl (ValueError ''integration depth selector must be non-negative'')
               else Inr (Depth_Is i))
        else
          (case val of
             PStr s \<Rightarrow> if strip s = [] then Inl (ValueError ''integration selector string value is required'')
               else Inr (if kind = ''node_id_prefix'' then Node_Id_Prefix (strip s) else Required_Capability (strip s))
           | _ \<Rightarrow> Inl (ValueError ''integration selector string value is required''))
    | _ \<Rightarrow> Inl (TypeError ''integration selector kind must be a string''))"

fun selector_node_count :: "selector_expr \<Rightarrow> nat" where
  "selector_node_count (Sel s) = 1"
| "selector_node_count (Group oper es) = 1 + sum_list (map selector_node_count es)"

text \<open>\<open>max\<close> of the depths of a non-empty group.\<close>

fun group_depth :: "selector_expr \<Rightarrow> nat" where
  "group_depth (Sel s) = 0"
| "group_depth (Group oper es) =
     fold max (map (\<lambda>e. case e of Sel s \<Rightarrow> 0 | Group o' es' \<Rightarrow> 1 + group_depth e) es) 0"

definition selector_shape :: "selector_expr list \<Rightarrow> nat \<times> nat" where
  "selector_shape es =
     (let depths = map (\<lambda>e. case e of Sel s \<Rightarrow> 0 | Group oper es' \<Rightarrow> 1 + group_depth e) es
      in (fold max depths 0 + 1, 1 + sum_list (map selector_node_count es)))"

definition mk_selector_group :: "pyval \<Rightarrow> selector_expr list \<Rightarrow> py_exc + selector_expr" where
  "mk_selector_group oper selectors = (case oper of
      PStr s \<Rightarrow>
        let operator = strip s; (depth, node_count) = selector_shape selectors in
        if operator \<notin> {''all'', ''any''} then Inl (ValueError (''unsupported integration selector group operator: '' @ operator))
        else if selectors = [] then Inl (ValueError ''integration selector group must be non-empty'')
        else if depth > 4 then Inl (ValueError ''integration selector group exceeds maximum depth 4'')
        else if node_count > 16 then Inl (ValueError ''integration selector group exceeds maximum node count 16'')
        else Inr (Group (if operator = ''all'' then All_Of else Any_Of) selectors)
    | _ \<Rightarrow> Inl (TypeError ''integration selector group operator must be a string''))"

fun selector_matches :: "task_node \<Rightarrow> integration_selector \<Rightarrow> bool" where
  "selector_matches n (Node_Id_Prefix p) = (take (length p) (nd_id n) = p)"
| "selector_matches n (Depth_Is i) = (int (nd_depth n) = i)"
| "selector_matches n (Required_Capability c) = (c \<in> set (nd_required_capabilities n))"

fun expr_matches :: "task_node \<Rightarrow> selector_expr \<Rightarrow> bool" where
  "expr_matches n (Sel s) = selector_matches n s"
| "expr_matches n (Group oper es) = (case oper of
      All_Of \<Rightarrow> list_all (expr_matches n) es
    | Any_Of \<Rightarrow> list_ex (expr_matches n) es)"

fun selector_dict :: "integration_selector \<Rightarrow> pydict" where
  "selector_dict (Node_Id_Prefix p) = [(''kind'', PStr ''node_id_prefix''), (''value'', PStr p)]"
| "selector_dict (Depth_Is i) = [(''kind'', PStr ''depth''), (''value'', PInt i)]"
| "selector_dict (Required_Capability c) = [(''kind'', PStr ''required_capability''), (''value'', PStr c)]"

fun expr_dict :: "selector_expr \<Rightarrow> pydict" where
  "expr_dict (Sel s) = selector_dict s"
| "expr_dict (Group oper es) = [(''operator'', PStr (case oper of All_Of \<Rightarrow> ''all'' | Any_Of \<Rightarrow> ''any'')),
     (''selectors'', PList (map (\<lambda>e. PDict (expr_dict e)) es))]"

text \<open>Expressions made by the constructors are bounded, however deep they are composed.\<close>

inductive built :: "selector_expr \<Rightarrow> bool" where
  built_sel: "mk_selector kind val = Inr s \<Longrightarrow> built (Sel s)"
| built_group: "\<forall>e\<in>set es. built e \<Longrightarrow> mk_selector_group oper es = Inr g \<Longrightarrow> built g"

fun nesting :: "selector_expr \<Rightarrow> nat" where
  "nesting (Sel s) = 0"
| "nesting (Group oper es) = Suc (fold max (map nesting es) 0)"

lemma nesting_group_depth: "nesting e = (case e of Sel s \<Rightarrow> 0 | Group oper es \<Rightarrow> 1 + group_depth e)"
proof (induction e)
  case (Group oper es)
  then have eq: "map nesting es = map (\<lambda>e. case e of Sel s \<Rightarrow> 0 | Group oper es' \<Rightarrow> 1 + group_depth e) es" by simp
  show ?case unfolding nesting.simps eq by simp
qed simp

lemma selector_shape_eq: "selector_shape es = (nesting (Group oper es), selector_node_count (Group oper es))"
  unfolding selector_shape_def Let_def nesting_group_depth [symmetric] by simp

lemma built_bounded: "built e \<Longrightarrow> nesting e \<le> 4 \<and> selector_node_count e \<le> 16"
proof (induction rule: built.induct)
  case (built_group es oper g)
  obtain depth count where shape: "selector_shape es = (depth, count)" by fastforce
  with built_group(2) obtain op' where "g = Group op' es" "depth \<le> 4" "count \<le> 16"
    by (auto simp: mk_selector_group_def Let_def split: pyval.splits if_splits)
  then show ?case using shape by (simp add: selector_shape_eq [of es op'])
qed simp

section \<open>Plans and routes\<close>

definition mk_plan :: "string list \<Rightarrow> py_exc + string list" where
  "mk_plan verifier_names =
     (let names = map strip verifier_names in
      if names = [] \<or> [] \<in> set names then Inl (ValueError ''integration plan verifier names must be non-empty'')
      else if \<not> distinct names then Inl (ValueError ''integration plan verifier names must be unique'')
      else Inr names)"

record integration_route =
  ir_name :: string
  ir_selector :: selector_expr
  ir_plan :: "string list"

definition mk_route :: "pyval \<Rightarrow> selector_expr \<Rightarrow> string list \<Rightarrow> py_exc + integration_route" where
  "mk_route name selector plan = (case name of
      PStr s \<Rightarrow>
        if strip s = [] then Inl (ValueError ''integration selector route name is required'')
        else Inr \<lparr>ir_name = strip s, ir_selector = selector, ir_plan = plan\<rparr>
    | _ \<Rightarrow> Inl (TypeError ''integration selector route name must be a string''))"

record composition_policy =
  cp_routes :: "(string \<times> string list) list"
  cp_selector_routes :: "integration_route list"
  cp_default_plan :: "string list option"

text \<open>A dictionary under stripped keys, as the constructors of the policy and of the verifier build it.\<close>

fun strip_keys :: "string \<Rightarrow> string \<Rightarrow> (string \<times> 'v) list \<Rightarrow> (string \<times> 'v) list \<Rightarrow> py_exc + (string \<times> 'v) list" where
  "strip_keys required duplicate [] normalized = Inr normalized"
| "strip_keys required duplicate ((k, v) # kvs) normalized =
     (let key = strip k in
      if key = [] then Inl (ValueError required)
      else if key \<in> set (dkeys normalized) then Inl (ValueError (duplicate @ key))
      else strip_keys required duplicate kvs (dset key v normalized))"

definition mk_composition_policy ::
  "(string \<times> string list) list \<Rightarrow> integration_route list \<Rightarrow> string list option \<Rightarrow> py_exc + composition_policy"
where
  "mk_composition_policy routes selector_routes default_plan =
     exc_bind (strip_keys ''integration route node id is required'' ''duplicate integration route node id: '' routes [])
       (\<lambda>normalized.
       if \<not> distinct (map ir_name selector_routes) then Inl (ValueError ''integration selector route names must be unique'')
       else if normalized = [] \<and> selector_routes = [] \<and> default_plan = None
         then Inl (ValueError ''at least one integration route, selector route, or default plan is required'')
       else Inr \<lparr>cp_routes = normalized, cp_selector_routes = selector_routes, cp_default_plan = default_plan\<rparr>)"

definition resolve_route ::
  "composition_policy \<Rightarrow> task_node \<Rightarrow> (string \<times> string list \<times> selector_expr option) option" where
  "resolve_route p n = (case dget (cp_routes p) (nd_id n) of
      Some plan \<Rightarrow> Some (nd_id n, plan, None)
    | None \<Rightarrow> (case find (\<lambda>r. expr_matches n (ir_selector r)) (cp_selector_routes p) of
          Some r \<Rightarrow> Some (''selector:'' @ ir_name r, ir_plan r, Some (ir_selector r))
        | None \<Rightarrow> map_option (\<lambda>plan. (''default'', plan, None)) (cp_default_plan p)))"

section \<open>Children\<close>

text \<open>The same two functions in both modules.\<close>

definition children_error :: "task_node \<Rightarrow> task_graph \<Rightarrow> string option" where
  "children_error n g =
     (let missing = filter (\<lambda>k. node_at g k = None) (nd_children n);
          incomplete = filter (\<lambda>k. status_at g k \<noteq> Some TS_COMPLETED) (nd_children n) in
      if nd_children n = [] then Some ''integration_parent_has_no_children''
      else if missing \<noteq> [] then Some (''integration_children_missing:'' @ str_join '','' (sort missing))
      else if incomplete \<noteq> [] then Some (''integration_children_incomplete:'' @ str_join '','' (sort incomplete))
      else None)"

definition child_evidence :: "task_node \<Rightarrow> task_graph \<Rightarrow> pydict" where
  "child_evidence n g = [(''children'', PDict (dupdate [] (map (\<lambda>k.
      (k, PDict (case Option.bind (node_at g k) nd_result of None \<Rightarrow> [] | Some r \<Rightarrow> lr_evidence r))) (nd_children n))))]"

section \<open>The composite verifier\<close>

text \<open>What a verifier returns: a leaf result, or a value of another class, of which the code reads the
  name.\<close>

datatype check_value = Check_Result leaf_result | Check_Other string

type_synonym 'w integration_check = "task_node \<Rightarrow> task_graph \<Rightarrow> 'w \<Rightarrow> (py_exc + check_value) \<times> 'w"

record 'w composite_verifier =
  cv_verifiers :: "(string \<times> 'w integration_check) list"
  cv_policy :: composition_policy

definition referenced_names :: "composition_policy \<Rightarrow> string list" where
  "referenced_names p = concat (map snd (cp_routes p) @ map ir_plan (cp_selector_routes p) @
     (case cp_default_plan p of None \<Rightarrow> [] | Some plan \<Rightarrow> [plan]))"

definition mk_composite ::
  "(string \<times> 'w integration_check) list \<Rightarrow> composition_policy \<Rightarrow> py_exc + 'w composite_verifier" where
  "mk_composite verifiers policy =
     exc_bind (strip_keys ''integration verifier name is required'' ''duplicate integration verifier name: '' verifiers [])
       (\<lambda>normalized.
       if normalized = [] then Inl (ValueError ''integration verifier registry must be non-empty'')
       else let unknown = sort (remdups (filter (\<lambda>name. name \<notin> set (dkeys normalized)) (referenced_names policy))) in
         if unknown \<noteq> [] then Inl (ValueError (''unknown integration verifiers: '' @ repr_str_list unknown))
         else Inr \<lparr>cv_verifiers = normalized, cv_policy = policy\<rparr>)"

definition check_result :: "py_exc + check_value \<Rightarrow> leaf_result" where
  "check_result out = (case out of
      Inl e \<Rightarrow> plain_result ''failed'' ''integration verifier raised an exception'' (Some (show_exc e))
    | Inr (Check_Other class) \<Rightarrow> plain_result ''failed'' ''integration verifier returned an invalid result''
        (Some (''integration_verifier_invalid_result:'' @ class))
    | Inr (Check_Result r) \<Rightarrow>
        if lr_status r \<notin> {''completed'', ''blocked'', ''failed''}
          then (plain_result ''failed'' ''integration verifier returned an invalid status''
                 (Some (''integration_verifier_invalid_status:'' @ lr_status r)))
                 \<lparr>lr_evidence := [(''original_evidence'', PDict (lr_evidence r))]\<rparr>
        else r)"

fun run_checks ::
  "(string \<times> 'w integration_check) list \<Rightarrow> task_node \<Rightarrow> task_graph \<Rightarrow> string list \<Rightarrow> 'w
   \<Rightarrow> (string \<times> leaf_result) list \<times> 'w"
where
  "run_checks verifiers n g [] w = ([], w)"
| "run_checks verifiers n g (name # names) w =
     (let (out, w1) = (case dget verifiers name of
            None \<Rightarrow> (Inl (PyExc ''KeyError'' (repr_str name)), w)
          | Some verify \<Rightarrow> verify n g w);
          (results, w2) = run_checks verifiers n g names w1
      in ((name, check_result out) # results, w2))"

definition check_dict :: "leaf_result \<Rightarrow> pydict" where
  "check_dict r = [(''status'', PStr (lr_status r)), (''summary'', PStr (lr_summary r)),
     (''error'', popt_str (lr_error r)), (''evidence'', PDict (lr_evidence r))]"

definition with_status :: "string \<Rightarrow> (string \<times> leaf_result) list \<Rightarrow> (string \<times> leaf_result) option" where
  "with_status status results = find (\<lambda>(name, r). lr_status r = status) results"

definition composite_verdict :: "(string \<times> leaf_result) list \<Rightarrow> leaf_result" where
  "composite_verdict results = (case with_status ''failed'' results of
      Some (name, r) \<Rightarrow> plain_result ''failed'' ''one or more integration checks failed''
        (Some (''integration_check_failed:'' @ name @ '':'' @ str_or (lr_error r) (lr_summary r)))
    | None \<Rightarrow> (case with_status ''blocked'' results of
        Some (name, r) \<Rightarrow> plain_result ''blocked'' ''one or more integration checks are blocked''
          (Some (''integration_check_blocked:'' @ name @ '':'' @ str_or (lr_error r) (lr_summary r)))
      | None \<Rightarrow> plain_result ''completed'' ''all integration checks passed'' None))"

definition composite_evidence ::
  "string \<Rightarrow> string list \<Rightarrow> selector_expr option \<Rightarrow> (string \<times> leaf_result) list \<Rightarrow> pydict \<Rightarrow> pydict" where
  "composite_evidence route plan selector results children = dupdate children
     [(''integration_route'', PStr route),
      (''integration_selector'', case selector of None \<Rightarrow> PNone | Some e \<Rightarrow> PDict (expr_dict e)),
      (''integration_plan'', pstrs plan),
      (''integration_checks'', PDict (dupdate [] (map (\<lambda>(name, r). (name, PDict (check_dict r))) results)))]"

definition composite_verify ::
  "'w composite_verifier \<Rightarrow> task_node \<Rightarrow> task_graph \<Rightarrow> 'w \<Rightarrow> leaf_result \<times> 'w" where
  "composite_verify V n g w = (case children_error n g of
      Some error \<Rightarrow> ((plain_result ''blocked'' ''composite integration is not ready'' (Some error))
          \<lparr>lr_evidence := child_evidence n g\<rparr>, w)
    | None \<Rightarrow> (case resolve_route (cv_policy V) n of
        None \<Rightarrow> ((plain_result ''blocked'' ''composite integration route is not configured''
            (Some (''integration_route_missing:'' @ nd_id n)))\<lparr>lr_evidence := child_evidence n g\<rparr>, w)
      | Some (route, plan, selector) \<Rightarrow>
          let (results, w') = run_checks (cv_verifiers V) n g plan w
          in ((composite_verdict results)\<lparr>lr_evidence :=
                composite_evidence route plan selector results (child_evidence n g)\<rparr>, w')))"

section \<open>One configured command\<close>

record command_spec =
  ic_argv :: "string list"
  ic_cwd :: string

definition mk_command :: "string list \<Rightarrow> string \<Rightarrow> py_exc + command_spec" where
  "mk_command argv cwd =
     (if argv = [] \<or> [] \<in> set argv then Inl (ValueError ''integration verification command is required'')
      else if strip cwd = [] then Inl (ValueError ''integration verification cwd is required'')
      else Inr \<lparr>ic_argv = argv, ic_cwd = strip cwd\<rparr>)"

text \<open>Paths: \<open>resolve\<close> gives the parts of the resolved path of a working directory under the root.\<close>

record workspace_paths =
  wp_root :: "string list"
  wp_resolve :: "string \<Rightarrow> string list"
  wp_is_dir :: "string list \<Rightarrow> bool"

definition path_text :: "string list \<Rightarrow> string" where
  "path_text parts = ''/'' @ str_join ''/'' parts"

definition validate_cwd :: "workspace_paths \<Rightarrow> command_spec \<Rightarrow> py_exc option" where
  "validate_cwd P spec =
     (let resolved = wp_resolve P (ic_cwd spec) in
      if take (length (wp_root P)) resolved \<noteq> wp_root P
        then Some (ValueError (''integration verification cwd escapes workspace: '' @ path_text resolved))
      else if \<not> wp_is_dir P resolved
        then Some (ValueError (''integration verification cwd does not exist: '' @ path_text resolved))
      else None)"

record integration_policy =
  ip_commands :: "(string \<times> command_spec) list"
  ip_default_command :: "command_spec option"
  ip_timeout_seconds :: rat
  ip_max_output_bytes :: int

fun normalize_commands ::
  "workspace_paths \<Rightarrow> (string \<times> command_spec) list \<Rightarrow> (string \<times> command_spec) list \<Rightarrow> py_exc + (string \<times> command_spec) list"
where
  "normalize_commands P [] normalized = Inr normalized"
| "normalize_commands P ((node_id, spec) # rest) normalized =
     (let key = strip node_id in
      if key = [] then Inl (ValueError ''integration verification node id is required'')
      else (case validate_cwd P spec of
          Some e \<Rightarrow> Inl e
        | None \<Rightarrow> normalize_commands P rest (dset key spec normalized)))"

definition mk_integration_policy ::
  "workspace_paths \<Rightarrow> (string \<times> command_spec) list \<Rightarrow> command_spec option \<Rightarrow> rat \<Rightarrow> int \<Rightarrow> py_exc + integration_policy"
where
  "mk_integration_policy P commands default_command timeout max_output =
     (if \<not> wp_is_dir P (wp_root P)
        then Inl (ValueError ''integration verification workspace_root must be an existing directory'')
      else if timeout \<le> 0 \<or> max_output \<le> 0 then Inl (ValueError ''integration verification bounds must be positive'')
      else exc_bind (normalize_commands P commands []) (\<lambda>normalized.
        case Option.bind default_command (validate_cwd P) of
          Some e \<Rightarrow> Inl e
        | None \<Rightarrow>
            if normalized = [] \<and> default_command = None
              then Inl (ValueError ''at least one integration verification command is required'')
            else Inr \<lparr>ip_commands = normalized, ip_default_command = default_command,
              ip_timeout_seconds = timeout, ip_max_output_bytes = max_output\<rparr>))"

text \<open>What the bounded subprocess is asked for, and what it returns.\<close>

record process_request =
  pq_argv :: "string list"
  pq_cwd :: string
  pq_timeout_seconds :: rat
  pq_max_output_bytes :: int
  pq_environment :: "(string \<times> string) list"
  pq_run_id :: string

record process_outcome =
  po_cwd :: string
  po_exit_code :: int
  po_timed_out :: bool
  po_stdout :: string
  po_stderr :: string
  po_stdout_truncated :: bool
  po_stderr_truncated :: bool
  po_duration_seconds :: rat

definition process_evidence :: "process_outcome \<Rightarrow> pydict" where
  "process_evidence p = [(''cwd'', PStr (po_cwd p)), (''exit_code'', PInt (po_exit_code p)),
     (''timed_out'', PBool (po_timed_out p)), (''stdout'', PStr (po_stdout p)), (''stderr'', PStr (po_stderr p)),
     (''stdout_truncated'', PBool (po_stdout_truncated p)), (''stderr_truncated'', PBool (po_stderr_truncated p)),
     (''duration_seconds'', pnum (po_duration_seconds p))]"

definition command_request :: "integration_policy \<Rightarrow> command_spec \<Rightarrow> task_node \<Rightarrow> task_graph \<Rightarrow> process_request" where
  "command_request p spec n g = \<lparr>pq_argv = ic_argv spec, pq_cwd = ic_cwd spec,
     pq_timeout_seconds = ip_timeout_seconds p, pq_max_output_bytes = ip_max_output_bytes p,
     pq_environment = [(''PYTHONIOENCODING'', ''utf-8''), (''PYTHONUTF8'', ''1'')],
     pq_run_id = ''integration-'' @ tg_id g @ ''-'' @ nd_id n\<rparr>"

definition command_verdict :: "process_outcome \<Rightarrow> leaf_result" where
  "command_verdict p =
     (if po_timed_out p then plain_result ''blocked'' ''parent integration command timed out'' (Some ''integration_command_timeout'')
      else if po_stdout_truncated p \<or> po_stderr_truncated p
        then plain_result ''failed'' ''parent integration command output was truncated'' (Some ''integration_command_output_truncated'')
      else if po_exit_code p \<noteq> 0
        then plain_result ''failed'' ''parent integration command failed''
          (Some (''integration_command_exit_code:'' @ str_of_int (po_exit_code p)))
      else plain_result ''completed'' ''parent integration command passed'' None)"

definition command_verify ::
  "integration_policy \<Rightarrow> (process_request \<Rightarrow> 'w \<Rightarrow> (py_exc + process_outcome) \<times> 'w)
   \<Rightarrow> task_node \<Rightarrow> task_graph \<Rightarrow> 'w \<Rightarrow> (py_exc + leaf_result) \<times> 'w"
where
  "command_verify p run n g w = (case children_error n g of
      Some error \<Rightarrow> (Inr ((plain_result ''blocked'' ''parent integration command is not ready'' (Some error))
          \<lparr>lr_evidence := child_evidence n g\<rparr>), w)
    | None \<Rightarrow>
        (case (case dget (ip_commands p) (nd_id n) of Some spec \<Rightarrow> Some spec | None \<Rightarrow> ip_default_command p) of
          None \<Rightarrow> (Inr ((plain_result ''blocked'' ''parent integration command is not configured''
              (Some (''integration_command_missing:'' @ nd_id n)))\<lparr>lr_evidence := child_evidence n g\<rparr>), w)
        | Some spec \<Rightarrow> (case run (command_request p spec n g) w of
              (Inl e, w') \<Rightarrow> (Inl e, w')
            | (Inr outcome, w') \<Rightarrow> (Inr ((command_verdict outcome)\<lparr>lr_evidence :=
                dupdate (child_evidence n g) [(''integration_process'', PDict (process_evidence outcome))]\<rparr>), w'))))"

end
