(* ===== verification/Py_Text.thy ===== *)
theory Py_Text
  imports Json_Files "HOL-Library.Sublist"
begin

text \<open>
  More of Python's functions on texts and numbers, as the file tools, the language-model clients and
  the plugin components use them: splitting, decoding, counting and replacing, lines, \<open>re.escape\<close> and
  \<open>int()\<close>.
\<close>

section \<open>Functions on texts\<close>

text \<open>\<open>text.split(c)\<close>.\<close>

fun split_char :: "char \<Rightarrow> string \<Rightarrow> string list" where
  "split_char c [] = [[]]"
| "split_char c (x # xs) = (case split_char c xs of
      [] \<Rightarrow> [[x]]
    | p # ps \<Rightarrow> if x = c then [] # p # ps else (x # p) # ps)"

text \<open>\<open>bytes.decode("utf-8")\<close>; \<^const>\<open>None\<close> is an error, or a code point that the model does not have.\<close>

fun utf8_decode :: "8 word list \<Rightarrow> string option" where
  "utf8_decode [] = Some []"
| "utf8_decode (b # bs) =
     (if unat b < 128 then map_option (Cons (char_of (unat b))) (utf8_decode bs)
      else case bs of
        [] \<Rightarrow> None
      | c # cs \<Rightarrow> if unat b \<in> {194, 195} \<and> 128 \<le> unat c \<and> unat c < 192
          then map_option (Cons (char_of ((unat b - 192) * 64 + (unat c - 128)))) (utf8_decode cs)
          else None)"

text \<open>\<open>text.count(sub)\<close> and \<open>text.replace(sub, new, n)\<close> for a non-empty \<open>sub\<close>: occurrences from the
  left that do not overlap.\<close>

fun str_count :: "string \<Rightarrow> string \<Rightarrow> nat" where
  "str_count sub [] = 0"
| "str_count sub (x # xs) = (if prefix sub (x # xs) then Suc (str_count sub (drop (length sub - 1) xs))
     else str_count sub xs)"

fun str_replace :: "string \<Rightarrow> string \<Rightarrow> nat \<Rightarrow> string \<Rightarrow> string" where
  "str_replace sub new n [] = []"
| "str_replace sub new n (x # xs) =
     (if n = 0 then x # xs
      else if prefix sub (x # xs) then new @ str_replace sub new (n - 1) (drop (length sub - 1) xs)
      else x # str_replace sub new n xs)"

text \<open>Reading a text file translates line ends; \<open>splitlines\<close> splits at every line boundary, where a
  carriage return and a line feed are one.\<close>

fun universal_newlines :: "string \<Rightarrow> string" where
  "universal_newlines [] = []"
| "universal_newlines (c # cs) =
     (if c = CHR 0x0D then CHR 0x0A # universal_newlines (drop (if cs \<noteq> [] \<and> hd cs = CHR 0x0A then 1 else 0) cs)
      else c # universal_newlines cs)"

definition line_boundary :: "char \<Rightarrow> bool" where
  "line_boundary c \<longleftrightarrow> c \<in> {CHR 0x0A, CHR 0x0B, CHR 0x0C, CHR 0x0D, CHR 0x1C, CHR 0x1D, CHR 0x1E, CHR 0x85}"

fun split_lines :: "string \<Rightarrow> string list" where
  "split_lines [] = []"
| "split_lines (c # cs) =
     (if line_boundary c
        then [] # split_lines (drop (if c = CHR 0x0D \<and> cs \<noteq> [] \<and> hd cs = CHR 0x0A then 1 else 0) cs)
      else case split_lines cs of
        [] \<Rightarrow> [[c]]
      | l # ls \<Rightarrow> (c # l) # ls)"

text \<open>\<open>re.escape\<close>.\<close>

definition re_special :: "char \<Rightarrow> bool" where
  "re_special c \<longleftrightarrow> c \<in> set ''()[]{}?*+-|^$.&~# '' \<or> c \<in> {CHR 0x5C, CHR 0x09, CHR 0x0A, CHR 0x0D, CHR 0x0B, CHR 0x0C}"

definition re_escape :: "string \<Rightarrow> string" where
  "re_escape s = concat (map (\<lambda>c. if re_special c then [CHR 0x5C, c] else [c]) s)"

text \<open>\<open>int(value)\<close>.\<close>

fun digits_value :: "nat \<Rightarrow> string \<Rightarrow> int option" where
  "digits_value acc [] = Some (int acc)"
| "digits_value acc (c # cs) = (let n = (of_char c :: nat) in
     if 48 \<le> n \<and> n \<le> 57 then digits_value (acc * 10 + (n - 48)) cs
     else if n = 95 \<and> cs \<noteq> [] \<and> hd cs \<noteq> c then digits_value acc cs else None)"

definition parse_int :: "string \<Rightarrow> int option" where
  "parse_int s = (case strip s of
      [] \<Rightarrow> None
    | c # cs \<Rightarrow>
        let body = (if c \<in> {CHR ''+'', CHR ''-''} then cs else c # cs) in
        if body = [] \<or> hd body = CHR ''_'' then None
        else map_option (\<lambda>i. if c = CHR ''-'' then - i else i) (digits_value 0 body))"

fun py_int :: "pyval \<Rightarrow> py_exc + int" where
  "py_int (PInt i) = Inr i"
| "py_int (PBool b) = Inr (if b then 1 else 0)"
| "py_int (PFloat (FFin r)) = Inr (if r < 0 then - \<lfloor>- r\<rfloor> else \<lfloor>r\<rfloor>)"
| "py_int (PFloat FNaN) = Inl (ValueError ''cannot convert float NaN to integer'')"
| "py_int (PFloat _) = Inl (PyExc ''OverflowError'' ''cannot convert float infinity to integer'')"
| "py_int (PStr s) = (case parse_int s of
      None \<Rightarrow> Inl (ValueError (''invalid literal for int() with base 10: '' @ repr_str s))
    | Some i \<Rightarrow> Inr i)"
| "py_int _ = Inl (TypeError ''int() argument must be a string, a bytes-like object or a real number'')"

text \<open>\<open>lower()\<close>, \<open>lstrip()\<close> and \<open>rstrip(c)\<close>.\<close>

definition lower_of :: "char \<Rightarrow> char" where
  "lower_of c = (let n = (of_char c :: nat) in
     if (65 \<le> n \<and> n \<le> 90) \<or> (192 \<le> n \<and> n \<le> 222 \<and> n \<noteq> 215) then char_of (n + 32) else c)"

definition lstrip :: "string \<Rightarrow> string" where
  "lstrip s = dropWhile py_space s"

definition rstrip_char :: "char \<Rightarrow> string \<Rightarrow> string" where
  "rstrip_char c s = rev (dropWhile (\<lambda>x. x = c) (rev s))"

section \<open>Facts on texts\<close>

lemma utf8_decode_char:
  "utf8_decode (utf8_char c @ bs) = map_option (Cons c) (utf8_decode bs)"
proof -
  define n where "n = (of_char c :: nat)"
  have n: "n < 256" "c = char_of n" by (simp_all add: n_def)
  show ?thesis
  proof (cases "n < 128")
    case True
    then have "unat (of_nat n :: 8 word) = n" by (simp add: unat_of_nat)
    with True n show ?thesis by (simp add: utf8_char_def n_def [symmetric])
  next
    case False
    have d: "n div 64 \<in> {2, 3}" using False n(1) by auto
    then have "unat (of_nat (192 + n div 64) :: 8 word) = 192 + n div 64" by (auto simp: unat_of_nat)
    moreover have "unat (of_nat (128 + n mod 64) :: 8 word) = 128 + n mod 64" by (subst unat_of_nat) simp
    moreover have "n div 64 * 64 + n mod 64 = n" by simp
    ultimately show ?thesis using False n d
      by (auto simp: utf8_char_def n_def [symmetric] simp del: of_nat_add)
  qed
qed

lemma utf8_decode_utf8 [simp]: "utf8_decode (utf8 s) = Some s"
  by (induction s) (simp_all add: utf8_def utf8_decode_char)

lemma str_join_Cons: "ps \<noteq> [] \<Longrightarrow> str_join sep (p # ps) = p @ sep @ str_join sep ps"
  by (cases ps) simp_all

lemma str_join_front: "ps \<noteq> [] \<Longrightarrow> str_join sep ((x # hd ps) # tl ps) = x # str_join sep ps"
  by (cases ps; cases "tl ps") (auto simp: str_join_Cons)

text \<open>Replacing cuts the text at occurrences of the old string and joins the pieces with the new one.\<close>

fun pieces_of :: "string \<Rightarrow> nat \<Rightarrow> string \<Rightarrow> string list" where
  "pieces_of sub n [] = [[]]"
| "pieces_of sub n (x # xs) =
     (if n = 0 then [x # xs]
      else if prefix sub (x # xs) then [] # pieces_of sub (n - 1) (drop (length sub - 1) xs)
      else (x # hd (pieces_of sub n xs)) # tl (pieces_of sub n xs))"

lemma pieces_of_ne [simp]: "pieces_of sub n s \<noteq> []"
  by (cases s) auto

lemma length_pieces_of: "length (pieces_of sub n s) = Suc (min n (str_count sub s))"
proof (induction sub n s rule: pieces_of.induct)
  case (2 sub n x xs)
  then show ?case by (cases n) auto
qed simp

lemma join_pieces_of: "sub \<noteq> [] \<Longrightarrow> str_join sub (pieces_of sub n s) = s"
proof (induction sub n s rule: pieces_of.induct)
  case (2 sub n x xs)
  show ?case
  proof (cases "n = 0 \<or> \<not> prefix sub (x # xs)")
    case False
    then obtain zs where "x # xs = sub @ zs" by (auto elim: prefixE)
    with "2.prems" have "drop (length sub - 1) xs = zs" by (cases sub) auto
    with False have "pieces_of sub n (x # xs) = [] # pieces_of sub (n - 1) zs" by simp
    with 2 False \<open>x # xs = sub @ zs\<close> \<open>drop (length sub - 1) xs = zs\<close> show ?thesis
      by (simp add: str_join_Cons del: pieces_of.simps)
  qed (use 2 in \<open>auto simp: str_join_front\<close>)
qed simp

lemma str_replace_join: "str_replace sub new n s = str_join new (pieces_of sub n s)"
  by (induction sub new n s rule: str_replace.induct) (auto simp: str_join_Cons str_join_front)

end
