(* ===== verification/LLM_Client.thy ===== *)
theory LLM_Client
  imports Py_Text
begin

text \<open>
  Language-model clients. Planner, evidence verifier and decomposer see a client as a function on
  messages that returns a JSON object or raises (\<open>JSONLLMClient\<close> of \<open>loop_engine/ports.py\<close>); the
  gateway client (\<open>loop_engine/adapters/llm_http.py\<close>) is one, over an HTTP transport. The checks on
  responses that the three share are here too.
\<close>

section \<open>The client\<close>

text \<open>An exception of the client, whether it is a \<open>ValueError\<close>, and its attribute \<open>raw_content\<close>.\<close>

record llm_failure =
  lf_exc :: py_exc
  lf_is_value_error :: bool
  lf_raw_content :: "string option"

type_synonym llm_message = "string \<times> string"

type_synonym 'w llm_client = "llm_message list \<Rightarrow> 'w \<Rightarrow> (llm_failure + pydict) \<times> 'w"

section \<open>Checks on responses\<close>

text \<open>\<open>value.get(k)\<close>.\<close>

abbreviation dget_none :: "pydict \<Rightarrow> string \<Rightarrow> pyval" where
  "dget_none d k \<equiv> dget_or PNone d k"

definition short_string :: "pyval \<Rightarrow> string \<Rightarrow> nat \<Rightarrow> py_exc + string" where
  "short_string v name limit = (case v of
      PStr s \<Rightarrow> if length s > limit
        then Inl (ValueError (name @ '' exceeds '' @ str_of_nat limit @ '' characters'')) else Inr s
    | _ \<Rightarrow> Inl (ValueError (name @ '' must be a string'')))"

definition exact_fields :: "string \<Rightarrow> pydict \<Rightarrow> string list \<Rightarrow> py_exc + unit" where
  "exact_fields name d expected =
     (let unknown = sort (filter (\<lambda>k. k \<notin> set expected) (dkeys d));
          missing = sort (filter (\<lambda>k. k \<notin> set (dkeys d)) expected) in
      if unknown \<noteq> [] then Inl (ValueError (''unknown '' @ name @ '' fields: '' @ repr_str_list unknown))
      else if missing \<noteq> [] then Inl (ValueError (''missing '' @ name @ '' fields: '' @ repr_str_list missing))
      else Inr ())"

text \<open>A response may be wrapped in \<open>response\<close>.\<close>

definition unwrap_response :: "pydict \<Rightarrow> pydict" where
  "unwrap_response payload = (case payload of
      [(k, PDict d)] \<Rightarrow> if k = ''response'' then d else payload
    | _ \<Rightarrow> payload)"

lemma short_string_Inr: "short_string v name n = Inr s \<Longrightarrow> v = PStr s \<and> length s \<le> n"
  by (auto simp: short_string_def split: pyval.splits if_splits)

lemma sort_filter_Nil [simp]: "sort (filter P xs) = [] \<longleftrightarrow> (\<forall>x\<in>set xs. \<not> P x)"
  by (metis filter_empty_conv set_empty set_sort)

lemma map_exc_all: "map_exc f xs = Inr ys \<Longrightarrow> length ys = length xs \<and> (\<forall>y\<in>set ys. \<exists>x\<in>set xs. f x = Inr y)"
  by (induction xs arbitrary: ys) (auto simp: exc_bind_Inr, blast+)

section \<open>The gateway client\<close>

text \<open>The transport returns the text of an answer, an HTTP error with its body, a URL error with its
  reason, or raises something else, a \<open>ValueError\<close> perhaps.\<close>

datatype http_answer =
    Http_Text string
  | Http_Error int string
  | Url_Error string
  | Http_Raised py_exc bool

record http_request =
  hr_url :: string
  hr_data :: string
  hr_headers :: "(string \<times> string) list"
  hr_timeout :: rat

record 'w gateway =
  gw_url :: string
  gw_model :: string
  gw_timeout_seconds :: rat
  gw_api_key :: "string option"
  gw_max_tokens :: int
  gw_codec :: json_codec
  gw_json_error :: "string \<Rightarrow> string"
  gw_open :: "http_request \<Rightarrow> 'w \<Rightarrow> http_answer \<times> 'w"

definition mk_gateway :: "'w gateway \<Rightarrow> string \<Rightarrow> py_exc + 'w gateway" where
  "mk_gateway G base_url =
     (if gw_timeout_seconds G \<le> 0 then Inl (ValueError ''LLM timeout must be positive'')
      else Inr (G\<lparr>gw_url := rstrip_char CHR ''/'' base_url @ ''/v1/chat/completions''\<rparr>))"

text \<open>\<open>parse_json_object\<close>; a text in a code fence is unwrapped.\<close>

definition fence :: string where
  "fence = [CHR 0x60, CHR 0x60, CHR 0x60]"

definition unfenced :: "string \<Rightarrow> string" where
  "unfenced content = (let normalized = strip content; ls = split_lines normalized in
     if prefix fence normalized \<and> suffix fence normalized \<and> 3 \<le> length ls then
       let inner = strip (str_join [CHR 0x0A] (butlast (tl ls))) in
       if prefix (''json'' @ [CHR 0x0A]) (map lower_of inner) then lstrip (drop 5 inner) else inner
     else normalized)"

definition parse_json_object :: "'w gateway \<Rightarrow> string \<Rightarrow> py_exc + pydict" where
  "parse_json_object G content = (let s = unfenced content in
     case jc_loads (gw_codec G) s of
       None \<Rightarrow> Inl (ValueError (''LLM response is not valid JSON: '' @ gw_json_error G s))
     | Some (PDict d) \<Rightarrow> Inr d
     | Some _ \<Rightarrow> Inl (ValueError ''LLM response must be a JSON object''))"

definition request_body :: "'w gateway \<Rightarrow> llm_message list \<Rightarrow> pyval" where
  "request_body G messages = PDict [(''model'', PStr (gw_model G)),
     (''messages'', PList (map (\<lambda>(role, content). PDict [(''role'', PStr role), (''content'', PStr content)]) messages)),
     (''stream'', PBool False), (''temperature'', pnum 0), (''max_tokens'', PInt (gw_max_tokens G))]"

definition gateway_request :: "'w gateway \<Rightarrow> llm_message list \<Rightarrow> http_request" where
  "gateway_request G messages = \<lparr>hr_url = gw_url G, hr_data = jc_dumps (gw_codec G) (request_body G messages),
     hr_headers = (''Content-Type'', ''application/json'') #
       (if str_truthy (gw_api_key G) then [(''Authorization'', ''Bearer '' @ the (gw_api_key G))] else []),
     hr_timeout = gw_timeout_seconds G\<rparr>"

definition assistant_content :: "pyval \<Rightarrow> pyval option" where
  "assistant_content payload = (case payload of
      PDict d \<Rightarrow> (case dget d ''choices'' of
          Some (PList (PDict choice # rest)) \<Rightarrow> (case dget choice ''message'' of
              Some (PDict message) \<Rightarrow> dget message ''content''
            | _ \<Rightarrow> None)
        | _ \<Rightarrow> None)
    | _ \<Rightarrow> None)"

text \<open>What the client does with the text of an answer; a content that is not a string has no
  \<open>strip\<close>.\<close>

definition read_answer :: "'w gateway \<Rightarrow> string \<Rightarrow> llm_failure + pydict" where
  "read_answer G body =
     (let failure = (\<lambda>e is_value raw. \<lparr>lf_exc = e, lf_is_value_error = is_value, lf_raw_content = raw\<rparr>) in
      case jc_loads (gw_codec G) body of
        None \<Rightarrow> Inl (failure (PyExc ''JSONDecodeError'' (gw_json_error G body)) True None)
      | Some payload \<Rightarrow> (case assistant_content payload of
          None \<Rightarrow> Inl (failure (ValueError ''LLM gateway response has no assistant content'') True None)
        | Some (PStr content) \<Rightarrow> (case parse_json_object G content of
              Inl e \<Rightarrow> Inl (failure (PyExc ''LLMJSONDecodeError'' (exc_msg e)) True (Some content))
            | Inr d \<Rightarrow> Inr d)
        | Some _ \<Rightarrow> Inl (failure (PyExc ''AttributeError'' ''object has no attribute strip'') False None)))"

definition complete_json :: "'w gateway \<Rightarrow> 'w llm_client" where
  "complete_json G messages w = (case gw_open G (gateway_request G messages) w of
      (Http_Text body, w') \<Rightarrow> (read_answer G body, w')
    | (Http_Error code body, w') \<Rightarrow> (Inl \<lparr>lf_exc = RuntimeError (''LLM gateway HTTP '' @ str_of_int code @ '': '' @ take 1000 body),
        lf_is_value_error = False, lf_raw_content = None\<rparr>, w')
    | (Url_Error reason, w') \<Rightarrow> (Inl \<lparr>lf_exc = RuntimeError (''LLM gateway unavailable: '' @ reason),
        lf_is_value_error = False, lf_raw_content = None\<rparr>, w')
    | (Http_Raised e is_value, w') \<Rightarrow> (Inl \<lparr>lf_exc = e, lf_is_value_error = is_value, lf_raw_content = None\<rparr>, w'))"

end
