(* ===== verification/Decomposition_Validation.thy ===== *)
theory Decomposition_Validation
  imports LLM_Client Task_Decomposition
begin

text \<open>
  The validation of an untrusted decomposition decision
  (\<open>loop_engine/tasks/llm_decomposition_validation.py\<close>): from a parsed JSON object to an
  \<open>AtomicityDecision\<close>, with every check in the order of the code. The nested depth-first search of
  the code is the one of \<open>Task_Decomposition\<close>. The length of the serialised metadata is an
  argument (\<open>json.dumps\<close>).
\<close>

section \<open>Fields and strings\<close>

definition require_exact_fields :: "pydict \<Rightarrow> string list \<Rightarrow> py_exc + unit" where
  "require_exact_fields d expected = exact_fields ''decomposition'' d expected"

definition required_string :: "pyval \<Rightarrow> string \<Rightarrow> nat \<Rightarrow> py_exc + string" where
  "required_string v name limit = exc_bind (short_string v name limit) (\<lambda>s.
     if strip s = [] then Inl (ValueError (name @ '' must be non-empty'')) else Inr (strip s))"

definition string_list :: "pyval \<Rightarrow> string \<Rightarrow> bool \<Rightarrow> py_exc + string list" where
  "string_list v name required = (case as_list v of
      None \<Rightarrow> Inl (ValueError (name @ '' must be an array of strings''))
    | Some items \<Rightarrow>
        if list_ex (\<lambda>x. as_str x = None) items then Inl (ValueError (name @ '' must be an array of strings''))
        else if required \<and> items = [] then Inl (ValueError (name @ '' must be non-empty''))
        else if length items > 16 then Inl (ValueError (name @ '' is too large''))
        else map_exc (\<lambda>x. required_string x (name @ '' item'') 1000) items)"

text \<open>\<open>[a-z][a-z0-9_-]{0,39}\<close> and \<open>[a-z][a-z0-9_.-]{0,63}\<close>, matched against the whole text.\<close>

definition is_lower :: "char \<Rightarrow> bool" where
  "is_lower c = (let n = (of_char c :: nat) in 97 \<le> n \<and> n \<le> 122)"

definition key_char :: "char \<Rightarrow> bool" where
  "key_char c = (let n = (of_char c :: nat) in is_lower c \<or> (48 \<le> n \<and> n \<le> 57) \<or> n = 95 \<or> n = 45)"

fun is_child_key :: "string \<Rightarrow> bool" where
  "is_child_key [] = False"
| "is_child_key (c # cs) = (is_lower c \<and> list_all key_char cs \<and> length cs \<le> 39)"

fun is_capability :: "string \<Rightarrow> bool" where
  "is_capability [] = False"
| "is_capability (c # cs) = (is_lower c \<and> list_all (\<lambda>x. key_char x \<or> x = CHR ''.'') cs \<and> length cs \<le> 63)"

definition capability_list :: "pyval \<Rightarrow> bool \<Rightarrow> py_exc + string list" where
  "capability_list v required = exc_bind (string_list v ''required_capabilities'' required) (\<lambda>capabilities.
     let invalid = filter (\<lambda>c. \<not> is_capability c) capabilities in
     if \<not> distinct capabilities then Inl (ValueError ''required_capabilities must be unique'')
     else if invalid \<noteq> [] then Inl (ValueError (''invalid capability names: '' @ repr_str_list invalid))
     else Inr capabilities)"

definition checked_metadata :: "(pyval \<Rightarrow> string) \<Rightarrow> pyval \<Rightarrow> py_exc + pydict" where
  "checked_metadata dumps v = (case v of
      PDict d \<Rightarrow> if length (dumps v) > 4000 then Inl (ValueError ''metadata exceeds 4000 characters'') else Inr d
    | _ \<Rightarrow> Inl (ValueError ''metadata must be a JSON object''))"

section \<open>Leaf and children\<close>

definition validate_leaf :: "(pyval \<Rightarrow> string) \<Rightarrow> pyval \<Rightarrow> py_exc + atomic_leaf_spec" where
  "validate_leaf dumps v = (case v of
      PDict d \<Rightarrow>
        exc_bind (require_exact_fields d [''goal'', ''success_criteria'', ''required_capabilities'', ''metadata'']) (\<lambda>_.
        exc_bind (required_string (dget_none d ''goal'') ''leaf goal'' 4000) (\<lambda>goal.
        exc_bind (string_list (dget_none d ''success_criteria'') ''leaf success_criteria'' True) (\<lambda>criteria.
        exc_bind (capability_list (dget_none d ''required_capabilities'') True) (\<lambda>capabilities.
        exc_bind (checked_metadata dumps (dget_none d ''metadata'')) (\<lambda>metadata.
          Inr \<lparr>al_goal = goal, al_success_criteria = criteria, al_required_capabilities = capabilities,
            al_metadata = metadata\<rparr>)))))
    | _ \<Rightarrow> Inl (ValueError ''leaf must be a JSON object''))"

definition validate_child :: "(pyval \<Rightarrow> string) \<Rightarrow> pyval \<Rightarrow> py_exc + child_task_spec" where
  "validate_child dumps v = (case v of
      PDict d \<Rightarrow>
        exc_bind (require_exact_fields d [''key'', ''goal'', ''success_criteria'', ''required_capabilities'',
          ''depends_on'', ''metadata'']) (\<lambda>_.
        exc_bind (required_string (dget_none d ''key'') ''child key'' 40) (\<lambda>key.
        if \<not> is_child_key key then Inl (ValueError (''invalid child key: '' @ key))
        else
        exc_bind (required_string (dget_none d ''goal'') ''child goal'' 4000) (\<lambda>goal.
        exc_bind (string_list (dget_none d ''success_criteria'') ''child success_criteria'' False) (\<lambda>criteria.
        exc_bind (capability_list (dget_none d ''required_capabilities'') False) (\<lambda>capabilities.
        exc_bind (string_list (dget_none d ''depends_on'') ''child depends_on'' False) (\<lambda>deps.
        exc_bind (checked_metadata dumps (dget_none d ''metadata'')) (\<lambda>metadata.
          Inr \<lparr>cs_key = key, cs_goal = goal, cs_success_criteria = criteria, cs_required_capabilities = capabilities,
            cs_depends_on = deps, cs_metadata = metadata\<rparr>)))))))
    | _ \<Rightarrow> Inl (ValueError ''each child must be a JSON object''))"

fun known_dependencies :: "string list \<Rightarrow> child_task_spec list \<Rightarrow> py_exc + unit" where
  "known_dependencies keys [] = Inr ()"
| "known_dependencies keys (c # cs) =
     (let unknown = sort (remdups (filter (\<lambda>k. k \<notin> set keys) (cs_depends_on c))) in
      if unknown \<noteq> []
        then Inl (ValueError (''unknown dependencies for '' @ cs_key c @ '': '' @ repr_str_list unknown))
      else if cs_key c \<in> set (cs_depends_on c)
        then Inl (ValueError (''child '' @ cs_key c @ '' cannot depend on itself''))
      else known_dependencies keys cs)"

definition validate_dependencies :: "child_task_spec list \<Rightarrow> py_exc + unit" where
  "validate_dependencies children =
     (let keys = map cs_key children in
      if \<not> distinct keys then Inl (ValueError ''child keys must be unique'')
      else exc_bind (known_dependencies keys children) (\<lambda>_.
        let deps = dependency_table children in
        (case visit_all (Suc (length deps)) deps {} keys {} of
           None \<Rightarrow> Inl (ValueError ''child dependencies contain a cycle'')
         | Some visited \<Rightarrow> Inr ())))"

section \<open>The decision\<close>

text \<open>A response may be wrapped once in \<open>response\<close> and once in the name of its decision.\<close>

definition unwrap_decision :: "pydict \<Rightarrow> pydict" where
  "unwrap_decision payload = (case payload of
      [(k, PDict d)] \<Rightarrow> if k \<in> {''atomic'', ''decompose''} then d else payload
    | _ \<Rightarrow> payload)"

definition validate_decision ::
  "(pyval \<Rightarrow> string) \<Rightarrow> int \<Rightarrow> pydict \<Rightarrow> py_exc + atomicity_decision" where
  "validate_decision dumps max_children raw =
     (let payload = unwrap_decision (unwrap_response raw); decision = dget_none payload ''decision'' in
      if decision = PStr ''atomic'' then
        exc_bind (require_exact_fields payload [''decision'', ''reason'', ''leaf'']) (\<lambda>_.
        exc_bind (short_string (dget_none payload ''reason'') ''reason'' 2000) (\<lambda>reason.
        exc_bind (validate_leaf dumps (dget_none payload ''leaf'')) (\<lambda>leaf.
          Inr \<lparr>ad_is_atomic = True, ad_reason = reason, ad_children = [], ad_leaf = Some leaf\<rparr>)))
      else if decision = PStr ''decompose'' then
        exc_bind (require_exact_fields payload [''decision'', ''reason'', ''children'']) (\<lambda>_.
        case as_list (dget_none payload ''children'') of
          None \<Rightarrow> Inl (ValueError ''children must be a non-empty array'')
        | Some raws \<Rightarrow>
            if raws = [] then Inl (ValueError ''children must be a non-empty array'')
            else if int (length raws) > max_children then Inl (ValueError ''decomposition exceeds max_children'')
            else exc_bind (map_exc (validate_child dumps) raws) (\<lambda>children.
              exc_bind (validate_dependencies children) (\<lambda>_.
              exc_bind (short_string (dget_none payload ''reason'') ''reason'' 2000) (\<lambda>reason.
                Inr \<lparr>ad_is_atomic = False, ad_reason = reason, ad_children = children, ad_leaf = None\<rparr>))))
      else Inl (ValueError ''decision must be atomic or decompose''))"

section \<open>What the checks give\<close>

lemma required_string_Inr:
  assumes "required_string v name limit = Inr s"
  shows "s \<noteq> [] \<and> strip s = s \<and> length s \<le> limit"
proof -
  obtain t where t: "short_string v name limit = Inr t" "strip t \<noteq> []" "s = strip t"
    using assms by (auto simp: required_string_def exc_bind_Inr split: if_splits)
  then have "length t \<le> limit" by (auto simp: short_string_def split: pyval.splits if_splits)
  then show ?thesis using t length_strip [of t] by simp
qed

lemma string_list_Inr:
  "string_list v name required = Inr ys \<Longrightarrow>
    length ys \<le> 16 \<and> (required \<longrightarrow> ys \<noteq> []) \<and> (\<forall>y\<in>set ys. y \<noteq> [] \<and> strip y = y \<and> length y \<le> 1000)"
  using required_string_Inr
  by (auto simp: string_list_def split: option.splits if_splits dest!: map_exc_all) fastforce+

lemma capability_list_Inr:
  "capability_list v required = Inr cs \<Longrightarrow>
    distinct cs \<and> list_all is_capability cs \<and> length cs \<le> 16 \<and> (required \<longrightarrow> cs \<noteq> [])"
  by (auto simp: capability_list_def exc_bind_Inr Let_def list_all_iff filter_empty_conv dest!: string_list_Inr split: if_splits)

lemma child_key_plain: "is_child_key k \<Longrightarrow> CHR ''.'' \<notin> set k \<and> strip k = k \<and> k \<noteq> []"
proof -
  assume k: "is_child_key k"
  then obtain c cs where kc: "k = c # cs" "is_lower c" "list_all key_char cs" by (cases k) auto
  have chars: "key_char x" if "x \<in> set k" for x using kc that by (auto simp: key_char_def Let_def list_all_iff)
  have "\<not> py_space x" if "key_char x" for x
    using that by (auto simp: key_char_def is_lower_def py_space_def Let_def)
  then have "\<not> py_space (hd k)" "\<not> py_space (last k)" using chars kc(1) by simp_all
  moreover have "\<not> key_char (CHR ''.'')" by (simp add: key_char_def is_lower_def)
  ultimately show ?thesis using chars kc(1) by (auto intro: strip_fixed)
qed

lemma known_dependencies_Inr:
  "known_dependencies keys cs = Inr u \<Longrightarrow> \<forall>c\<in>set cs. set (cs_depends_on c) \<subseteq> set keys \<and> cs_key c \<notin> set (cs_depends_on c)"
proof (induction cs)
  case (Cons c cs)
  from Cons.prems have "sort (remdups (filter (\<lambda>k. k \<notin> set keys) (cs_depends_on c))) = []"
    "cs_key c \<notin> set (cs_depends_on c)" "known_dependencies keys cs = Inr u"
    by (auto simp: Let_def split: if_splits)
  moreover from this(1) have "filter (\<lambda>k. k \<notin> set keys) (cs_depends_on c) = []"
    by (metis remdups_eq_nil_iff set_empty set_sort)
  ultimately show ?case using Cons.IH by (auto simp: filter_empty_conv)
qed simp

lemma validate_child_Inr:
  assumes "validate_child dumps v = Inr c"
  shows "is_child_key (cs_key c)" "cs_goal c \<noteq> []" "distinct (cs_required_capabilities c)"
    "list_all is_capability (cs_required_capabilities c)"
proof -
  have "is_child_key (cs_key c) \<and> cs_goal c \<noteq> [] \<and> distinct (cs_required_capabilities c) \<and>
      list_all is_capability (cs_required_capabilities c)"
    using assms by (auto simp: validate_child_def exc_bind_Inr split: pyval.splits if_splits
        dest!: capability_list_Inr required_string_Inr)
  then show "is_child_key (cs_key c)" "cs_goal c \<noteq> []" "distinct (cs_required_capabilities c)"
    "list_all is_capability (cs_required_capabilities c)" by blast+
qed

end
