(* ===== verification/Strategy_Metrics.thy ===== *)
theory Strategy_Metrics
  imports Json_Files Task_Models
begin

text \<open>
  What is measured of a run of a decomposition strategy (\<open>loop_engine/tasks/strategy_metrics.py\<close>):
  the validated metrics with their latency samples, the counts taken from a finished graph and the
  attached usage. Counters are integers of the declared type, of which the code checks the sign.
  Canonical serialisation (\<open>json.dumps\<close> with sorted keys) and SHA-256 are arguments.
\<close>

section \<open>Data\<close>

record replay_case =
  rc_name :: string
  rc_goal :: string
  rc_success_criteria :: "string list"
  rc_required_capabilities :: "string list"
  rc_budget :: task_budget

definition case_graph :: "replay_case \<Rightarrow> string \<Rightarrow> py_exc + task_graph" where
  "case_graph c graph_id = create_graph (rc_goal c) (rc_success_criteria c) (rc_required_capabilities c)
     (Some (rc_budget c)) graph_id"

record strategy_usage =
  su_input_tokens :: int
  su_output_tokens :: int
  su_cost_microunits :: int
  su_cost_basis :: string

definition mk_strategy_usage :: "int \<Rightarrow> int \<Rightarrow> int \<Rightarrow> string \<Rightarrow> py_exc + strategy_usage" where
  "mk_strategy_usage input_tokens output_tokens cost basis =
     (if input_tokens < 0 \<or> output_tokens < 0 \<or> cost < 0
        then Inl (ValueError ''strategy usage counters must be non-negative integers'')
      else if strip basis = [] then Inl (ValueError ''strategy usage cost_basis is required'')
      else Inr \<lparr>su_input_tokens = input_tokens, su_output_tokens = output_tokens, su_cost_microunits = cost,
        su_cost_basis = strip basis\<rparr>)"

record strategy_metrics =
  sm_strategy :: string
  sm_case :: string
  sm_root_status :: string
  sm_node_count :: int
  sm_leaf_count :: int
  sm_max_depth :: int
  sm_dependency_edge_count :: int
  sm_leaf_executions :: int
  sm_event_count :: int
  sm_failed_count :: int
  sm_blocked_count :: int
  sm_topology_sha256 :: string
  sm_outcome_sha256 :: string
  sm_elapsed_ms :: int
  sm_elapsed_sample_count :: "int option"
  sm_elapsed_samples_ms :: "int list"
  sm_elapsed_min_ms :: "int option"
  sm_elapsed_max_ms :: "int option"
  sm_elapsed_mad_ms :: "int option"
  sm_input_tokens :: "int option"
  sm_output_tokens :: "int option"
  sm_total_tokens :: "int option"
  sm_cost_microunits :: "int option"
  sm_cost_basis :: "string option"

section \<open>Validation\<close>

text \<open>\<open>statistics.median\<close> of an odd number of integers.\<close>

definition median :: "int list \<Rightarrow> int" where
  "median xs = sort xs ! (length xs div 2)"

definition mad :: "int list \<Rightarrow> int" where
  "mad xs = median (map (\<lambda>x. \<bar>x - median xs\<bar>) xs)"

definition negative_counter :: "string \<Rightarrow> py_exc" where
  "negative_counter name = ValueError (''strategy '' @ name @ '' must be a non-negative integer'')"

fun check_counters :: "(string \<times> int option) list \<Rightarrow> py_exc + unit" where
  "check_counters [] = Inr ()"
| "check_counters ((name, v) # rest) = (case v of
      Some i \<Rightarrow> if i < 0 then Inl (negative_counter name) else check_counters rest
    | None \<Rightarrow> check_counters rest)"

fun check_derived :: "(string \<times> int option \<times> int) list \<Rightarrow> py_exc + unit" where
  "check_derived [] = Inr ()"
| "check_derived ((name, given, expected) # rest) =
     (if given \<noteq> None \<and> given \<noteq> Some expected
        then Inl (ValueError (''strategy '' @ name @ '' does not match samples''))
      else check_derived rest)"

text \<open>\<open>__post_init__\<close> on the fields as they were given.\<close>

definition mk_strategy_metrics :: "strategy_metrics \<Rightarrow> py_exc + strategy_metrics" where
  "mk_strategy_metrics m =
     exc_bind (check_counters [(''elapsed_ms'', Some (sm_elapsed_ms m))]) (\<lambda>_.
     let samples = (if sm_elapsed_samples_ms m = [] then [sm_elapsed_ms m] else sm_elapsed_samples_ms m) in
     if even (length samples) then Inl (ValueError ''strategy latency sample count must be odd'')
     else exc_bind (check_counters (map (\<lambda>x. (''elapsed sample'', Some x)) samples)) (\<lambda>_.
     if sm_elapsed_ms m \<noteq> median samples then Inl (ValueError ''strategy elapsed_ms must equal sample median'')
     else
     let low = Min (set samples); high = Max (set samples); basis = map_option strip (sm_cost_basis m) in
     exc_bind (check_derived [(''elapsed_sample_count'', sm_elapsed_sample_count m, int (length samples)),
       (''elapsed_min_ms'', sm_elapsed_min_ms m, low), (''elapsed_max_ms'', sm_elapsed_max_ms m, high),
       (''elapsed_mad_ms'', sm_elapsed_mad_ms m, mad samples)]) (\<lambda>_.
     exc_bind (check_counters [(''input_tokens'', sm_input_tokens m), (''output_tokens'', sm_output_tokens m),
       (''total_tokens'', sm_total_tokens m), (''cost_microunits'', sm_cost_microunits m)]) (\<lambda>_.
     let tokens = [sm_input_tokens m, sm_output_tokens m, sm_total_tokens m] in
     if None \<in> set tokens \<and> list_ex (\<lambda>v. v \<noteq> None) tokens
       then Inl (ValueError ''strategy token metrics must be complete'')
     else if sm_total_tokens m \<noteq> None \<and> the (sm_total_tokens m) \<noteq> the (sm_input_tokens m) + the (sm_output_tokens m)
       then Inl (ValueError ''strategy total_tokens must equal input plus output'')
     else if (sm_cost_microunits m = None) \<noteq> (basis = None)
       then Inl (ValueError ''strategy cost and cost_basis must be provided together'')
     else Inr (m\<lparr>sm_elapsed_sample_count := Some (int (length samples)), sm_elapsed_min_ms := Some low,
       sm_elapsed_max_ms := Some high, sm_elapsed_mad_ms := Some (mad samples), sm_elapsed_samples_ms := samples,
       sm_cost_basis := basis\<rparr>)))))"

section \<open>Metrics of a graph\<close>

definition canonical_sha256 :: "(pyval \<Rightarrow> string) \<Rightarrow> (8 word list \<Rightarrow> 8 word list) \<Rightarrow> pyval \<Rightarrow> string" where
  "canonical_sha256 dumps sha256 v = hexdigest (sha256 (utf8 (dumps v)))"

definition sorted_nodes :: "task_graph \<Rightarrow> task_node list" where
  "sorted_nodes g = sort_key nd_id (map snd (tg_nodes g))"

definition node_topology :: "task_node \<Rightarrow> pyval" where
  "node_topology n = PDict [(''id'', PStr (nd_id n)), (''parent_id'', popt_str (nd_parent_id n)),
     (''goal'', PStr (nd_goal n)), (''criteria'', pstrs (nd_success_criteria n)),
     (''capabilities'', pstrs (nd_required_capabilities n)), (''dependencies'', pstrs (nd_dependencies n)),
     (''children'', pstrs (nd_children n)), (''depth'', PInt (int (nd_depth n)))]"

definition node_outcome :: "task_node \<Rightarrow> pyval" where
  "node_outcome n = PDict [(''id'', PStr (nd_id n)), (''status'', PStr (task_status_str (nd_status n))),
     (''attempts'', PInt (int (nd_attempts n))), (''error'', popt_str (nd_error n)),
     (''summary'', case nd_result n of None \<Rightarrow> PNone | Some r \<Rightarrow> PStr (lr_summary r))]"

definition count_status :: "task_status \<Rightarrow> task_graph \<Rightarrow> int" where
  "count_status st g = int (length (filter (\<lambda>n. nd_status n = st) (map snd (tg_nodes g))))"

definition strategy_metrics_of ::
  "(pyval \<Rightarrow> string) \<Rightarrow> (8 word list \<Rightarrow> 8 word list) \<Rightarrow> string \<Rightarrow> string \<Rightarrow> task_graph \<Rightarrow> int \<Rightarrow> int list
   \<Rightarrow> strategy_usage option \<Rightarrow> py_exc + strategy_metrics"
where
  "strategy_metrics_of dumps sha256 strategy case_name g elapsed_ms elapsed_samples usage =
     (let samples = (if elapsed_samples = [] then [elapsed_ms] else elapsed_samples); nodes = map snd (tg_nodes g) in
      if even (length samples) then Inl (ValueError ''strategy latency sample count must be odd'')
      else exc_bind (check_counters (map (\<lambda>x. (''elapsed sample'', Some x)) samples)) (\<lambda>_.
        case root_node g of
          None \<Rightarrow> Inl (PyExc ''KeyError'' (repr_str (tg_root_id g)))
        | Some rt \<Rightarrow> mk_strategy_metrics
            \<lparr>sm_strategy = strategy, sm_case = case_name, sm_root_status = task_status_str (nd_status rt),
             sm_node_count = int (length nodes),
             sm_leaf_count = int (length (filter (\<lambda>n. nd_children n = []) nodes)),
             sm_max_depth = int (Max (set (map nd_depth nodes))),
             sm_dependency_edge_count = int (sum_list (map (\<lambda>n. length (nd_dependencies n)) nodes)),
             sm_leaf_executions = int (tg_leaf_executions g), sm_event_count = int (length (tg_events g)),
             sm_failed_count = count_status TS_FAILED g, sm_blocked_count = count_status TS_BLOCKED g,
             sm_topology_sha256 = canonical_sha256 dumps sha256 (PList (map node_topology (sorted_nodes g))),
             sm_outcome_sha256 = canonical_sha256 dumps sha256 (PList (map node_outcome (sorted_nodes g))),
             sm_elapsed_ms = median samples, sm_elapsed_sample_count = None, sm_elapsed_samples_ms = samples,
             sm_elapsed_min_ms = None, sm_elapsed_max_ms = None, sm_elapsed_mad_ms = None,
             sm_input_tokens = map_option su_input_tokens usage, sm_output_tokens = map_option su_output_tokens usage,
             sm_total_tokens = map_option (\<lambda>u. su_input_tokens u + su_output_tokens u) usage,
             sm_cost_microunits = map_option su_cost_microunits usage,
             sm_cost_basis = map_option su_cost_basis usage\<rparr>))"

definition attach_strategy_usage :: "strategy_metrics \<Rightarrow> strategy_usage option \<Rightarrow> py_exc + strategy_metrics" where
  "attach_strategy_usage m usage = (case usage of
      None \<Rightarrow> Inr m
    | Some u \<Rightarrow> mk_strategy_metrics (m\<lparr>sm_input_tokens := Some (su_input_tokens u),
        sm_output_tokens := Some (su_output_tokens u),
        sm_total_tokens := Some (su_input_tokens u + su_output_tokens u),
        sm_cost_microunits := Some (su_cost_microunits u), sm_cost_basis := Some (su_cost_basis u)\<rparr>))"

end
