(* ===== verification/Task_Replay.thy ===== *)
theory Task_Replay
  imports LLM_Decomposer Strategy_Metrics
begin

text \<open>
  Recording and replaying decomposition decisions, and the runner that compares strategies
  (\<open>loop_engine/tasks/replay.py\<close>). A recorder keeps the entries of its trace; a player keeps the ids
  it has used. The decisions of a delegate, the runs of a scheduler, the clock and the usage
  provider are the outside world.
\<close>

section \<open>Decisions as JSON\<close>

definition child_spec_dict :: "child_task_spec \<Rightarrow> pydict" where
  "child_spec_dict c = [(''key'', PStr (cs_key c)), (''goal'', PStr (cs_goal c)),
     (''success_criteria'', pstrs (cs_success_criteria c)), (''required_capabilities'', pstrs (cs_required_capabilities c)),
     (''depends_on'', pstrs (cs_depends_on c)), (''metadata'', PDict (cs_metadata c))]"

definition leaf_spec_dict :: "atomic_leaf_spec \<Rightarrow> pydict" where
  "leaf_spec_dict l = [(''goal'', PStr (al_goal l)), (''success_criteria'', pstrs (al_success_criteria l)),
     (''required_capabilities'', pstrs (al_required_capabilities l)), (''metadata'', PDict (al_metadata l))]"

definition decision_dict :: "atomicity_decision \<Rightarrow> pydict" where
  "decision_dict d = [(''is_atomic'', PBool (ad_is_atomic d)), (''reason'', PStr (ad_reason d)),
     (''children'', PList (map (\<lambda>c. PDict (child_spec_dict c)) (ad_children d))),
     (''leaf'', case ad_leaf d of None \<Rightarrow> PNone | Some l \<Rightarrow> PDict (leaf_spec_dict l))]"

definition child_spec_from :: "pyval \<Rightarrow> py_exc + child_task_spec" where
  "child_spec_from v = (case Option.bind (as_dict v) (\<lambda>d.
      if \<not> only_keys [''key'', ''goal'', ''success_criteria'', ''required_capabilities'', ''depends_on'', ''metadata''] d then None
      else Option.bind (req_arg d ''key'' as_str) (\<lambda>key.
        Option.bind (req_arg d ''goal'' as_str) (\<lambda>goal.
        Option.bind (opt_arg d ''success_criteria'' [] as_strs) (\<lambda>criteria.
        Option.bind (opt_arg d ''required_capabilities'' [] as_strs) (\<lambda>capabilities.
        Option.bind (opt_arg d ''depends_on'' [] as_strs) (\<lambda>deps.
        Option.bind (opt_arg d ''metadata'' [] as_dict) (\<lambda>metadata.
          Some \<lparr>cs_key = key, cs_goal = goal, cs_success_criteria = criteria, cs_required_capabilities = capabilities,
            cs_depends_on = deps, cs_metadata = metadata\<rparr>))))))) of
      None \<Rightarrow> Inl (malformed ''child'') | Some c \<Rightarrow> Inr c)"

definition leaf_spec_from :: "pyval \<Rightarrow> py_exc + atomic_leaf_spec option" where
  "leaf_spec_from v = (if v = PNone then Inr None else
     (case Option.bind (as_dict v) (\<lambda>d.
      if \<not> only_keys [''goal'', ''success_criteria'', ''required_capabilities'', ''metadata''] d then None
      else Option.bind (req_arg d ''goal'' as_str) (\<lambda>goal.
        Option.bind (req_arg d ''success_criteria'' as_strs) (\<lambda>criteria.
        Option.bind (req_arg d ''required_capabilities'' as_strs) (\<lambda>capabilities.
        Option.bind (opt_arg d ''metadata'' [] as_dict) (\<lambda>metadata.
          Some \<lparr>al_goal = goal, al_success_criteria = criteria, al_required_capabilities = capabilities,
            al_metadata = metadata\<rparr>))))) of
      None \<Rightarrow> Inl (malformed ''leaf'') | Some l \<Rightarrow> Inr (Some l)))"

definition decision_from :: "pydict \<Rightarrow> py_exc + atomicity_decision" where
  "decision_from d =
     (if set (dkeys d) \<noteq> {''is_atomic'', ''reason'', ''children'', ''leaf''}
        then Inl (ValueError ''decomposition trace decision fields are invalid'')
      else (case dget_none d ''is_atomic'' of
        PBool atomic \<Rightarrow> (case as_str (dget_none d ''reason'') of
            None \<Rightarrow> Inl (ValueError ''decomposition trace reason must be a string'')
          | Some reason \<Rightarrow> (case as_list (dget_none d ''children'') of
              None \<Rightarrow> Inl (ValueError ''decomposition trace children must be an array'')
            | Some rows \<Rightarrow> exc_bind (map_exc child_spec_from rows) (\<lambda>children.
                exc_bind (leaf_spec_from (dget_none d ''leaf'')) (\<lambda>leaf.
                if atomic \<and> children \<noteq> [] then Inl (ValueError ''atomic replay decision cannot have children'')
                else if \<not> atomic \<and> (children = [] \<or> leaf \<noteq> None)
                  then Inl (ValueError ''non-atomic replay decision requires only children'')
                else Inr \<lparr>ad_is_atomic = atomic, ad_reason = reason, ad_children = children, ad_leaf = leaf\<rparr>))))
      | _ \<Rightarrow> Inl (ValueError ''decomposition trace is_atomic must be boolean'')))"

section \<open>Traces\<close>

record trace_entry =
  dt_node_id :: string
  dt_context_sha256 :: string
  dt_decision :: pydict

definition hex_digit :: "char \<Rightarrow> bool" where
  "hex_digit c = (let n = (of_char c :: nat) in (48 \<le> n \<and> n \<le> 57) \<or> (97 \<le> n \<and> n \<le> 102))"

definition is_sha256 :: "string \<Rightarrow> bool" where
  "is_sha256 s \<longleftrightarrow> length s = 64 \<and> list_all hex_digit s"

definition trace_entry_dict :: "trace_entry \<Rightarrow> pydict" where
  "trace_entry_dict e = [(''node_id'', PStr (dt_node_id e)), (''context_sha256'', PStr (dt_context_sha256 e)),
     (''decision'', PDict (dt_decision e))]"

definition save_trace :: "json_codec \<Rightarrow> string \<Rightarrow> trace_entry list \<Rightarrow> directory \<Rightarrow> directory" where
  "save_trace J path entries files = dset path (jc_dumps J (PDict [(''schema_version'', PInt 1),
     (''entries'', PList (map (\<lambda>e. PDict (trace_entry_dict e)) entries))]) @ [CHR 0x0A]) files"

definition trace_entry_from :: "pyval \<Rightarrow> py_exc + trace_entry" where
  "trace_entry_from v = (case as_dict v of
      None \<Rightarrow> Inl (malformed ''trace entry'')
    | Some d \<Rightarrow> exc_bind (field_exc d ''node_id'' as_str) (\<lambda>node_id.
        exc_bind (field_exc d ''context_sha256'' as_str) (\<lambda>sha.
        exc_bind (field_exc d ''decision'' as_dict) (\<lambda>decision.
          Inr \<lparr>dt_node_id = node_id, dt_context_sha256 = sha, dt_decision = decision\<rparr>))))"

definition check_trace :: "trace_entry list \<Rightarrow> py_exc + trace_entry list" where
  "check_trace entries =
     (if \<not> distinct (map dt_node_id entries) then Inl (ValueError ''decomposition trace node ids must be unique'')
      else if list_ex (\<lambda>e. strip (dt_node_id e) = [] \<or> \<not> is_sha256 (dt_context_sha256 e)) entries
        then Inl (ValueError ''decomposition trace identity fields are invalid'')
      else exc_bind (map_exc (\<lambda>e. decision_from (dt_decision e)) entries) (\<lambda>_. Inr entries))"

definition load_trace :: "json_codec \<Rightarrow> string \<Rightarrow> directory \<Rightarrow> py_exc + trace_entry list" where
  "load_trace J path files = (case dget files path of
      None \<Rightarrow> Inl (PyExc ''FileNotFoundError'' path)
    | Some text \<Rightarrow> (case Option.bind (jc_loads J text) as_dict of
        None \<Rightarrow> Inl (malformed ''decomposition trace'')
      | Some payload \<Rightarrow>
          if \<not> eq_num (dget_none payload ''schema_version'') 1
            then Inl (ValueError ''unsupported decomposition trace schema_version'')
          else (case as_list (dget_none payload ''entries'') of
              None \<Rightarrow> Inl (ValueError ''decomposition trace entries must be an array'')
            | Some rows \<Rightarrow> exc_bind (map_exc trace_entry_from rows) check_trace)))"

section \<open>The context of a decision\<close>

record digest_host =
  dh_dumps :: "pyval \<Rightarrow> string"
  dh_sha256 :: "8 word list \<Rightarrow> 8 word list"

definition budget_context :: "task_budget \<Rightarrow> pyval" where
  "budget_context b = PDict [(''max_nodes'', PInt (tb_max_nodes b)), (''max_depth'', PInt (tb_max_depth b)),
     (''max_leaf_executions'', PInt (tb_max_leaf_executions b))]"

definition decision_context :: "task_node \<Rightarrow> task_graph \<Rightarrow> (string \<times> string) list \<Rightarrow> pyval" where
  "decision_context n g ancestors = PDict
     [(''node'', PDict [(''id'', PStr (nd_id n)), (''parent_id'', popt_str (nd_parent_id n)), (''goal'', PStr (nd_goal n)),
        (''success_criteria'', pstrs (nd_success_criteria n)),
        (''required_capabilities'', pstrs (nd_required_capabilities n)),
        (''dependencies'', pstrs (nd_dependencies n)), (''depth'', PInt (int (nd_depth n))),
        (''metadata'', PDict (nd_metadata n))]),
      (''ancestors'', PList (map (\<lambda>(k, goal). PDict [(''id'', PStr k), (''goal'', PStr goal)]) ancestors)),
      (''budget'', budget_context (tg_budget g)), (''node_count'', PInt (int (length (tg_nodes g)))),
      (''leaf_executions'', PInt (int (tg_leaf_executions g)))]"

definition context_sha256 :: "digest_host \<Rightarrow> task_node \<Rightarrow> task_graph \<Rightarrow> (py_exc + string) option" where
  "context_sha256 D n g = map_option (\<lambda>r. exc_bind r (\<lambda>ancestors.
     Inr (canonical_sha256 (dh_dumps D) (dh_sha256 D) (decision_context n g ancestors)))) (node_ancestors n g)"

section \<open>Recorder and player\<close>

type_synonym 'w task_decomposer = "task_node \<Rightarrow> task_graph \<Rightarrow> 'w \<Rightarrow> (py_exc + atomicity_decision) \<times> 'w"

text \<open>\<^const>\<open>None\<close> stands for a loop among the parents of the node.\<close>

definition record_assess ::
  "digest_host \<Rightarrow> 'w task_decomposer \<Rightarrow> task_node \<Rightarrow> task_graph \<Rightarrow> trace_entry list \<times> 'w
   \<Rightarrow> ((py_exc + atomicity_decision) \<times> trace_entry list \<times> 'w) option"
where
  "record_assess D delegate n g s = (case delegate n g (snd s) of
      (Inl e, w) \<Rightarrow> Some (Inl e, fst s, w)
    | (Inr d, w) \<Rightarrow>
        if list_ex (\<lambda>e. dt_node_id e = nd_id n) (fst s)
          then Some (Inl (ValueError (''decomposition node assessed more than once: '' @ nd_id n)), fst s, w)
        else map_option (\<lambda>r. case r of
            Inl e \<Rightarrow> (Inl e, fst s, w)
          | Inr sha \<Rightarrow> (Inr d, fst s @ [\<lparr>dt_node_id = nd_id n, dt_context_sha256 = sha, dt_decision = decision_dict d\<rparr>], w))
          (context_sha256 D n g))"

definition trace_table :: "trace_entry list \<Rightarrow> (string \<times> trace_entry) list" where
  "trace_table entries = dupdate [] (map (\<lambda>e. (dt_node_id e, e)) entries)"

definition replay_assess ::
  "digest_host \<Rightarrow> (string \<times> trace_entry) list \<Rightarrow> task_node \<Rightarrow> task_graph \<Rightarrow> string list
   \<Rightarrow> ((py_exc + atomicity_decision) \<times> string list) option"
where
  "replay_assess D table n g used = (case dget table (nd_id n) of
      None \<Rightarrow> Some (Inl (ValueError (''decomposition trace has no node: '' @ nd_id n)), used)
    | Some entry \<Rightarrow> map_option (\<lambda>r. case r of
          Inl e \<Rightarrow> (Inl e, used)
        | Inr sha \<Rightarrow>
            if sha \<noteq> dt_context_sha256 entry
              then (Inl (ValueError (''decomposition replay context mismatch: '' @ nd_id n)), used)
            else if nd_id n \<in> set used
              then (Inl (ValueError (''decomposition trace node reused: '' @ nd_id n)), used)
            else (decision_from (dt_decision entry), nd_id n # used))
        (context_sha256 D n g))"

definition unused_node_ids :: "(string \<times> trace_entry) list \<Rightarrow> string list \<Rightarrow> string list" where
  "unused_node_ids table used = sort (filter (\<lambda>k. k \<notin> set used) (dkeys table))"

section \<open>Comparing strategies\<close>

definition mk_sample_count :: "pyval \<Rightarrow> py_exc + nat" where
  "mk_sample_count v = (case plain_int v of
      None \<Rightarrow> Inl (ValueError ''strategy sample_count must be odd and between 1 and 21'')
    | Some i \<Rightarrow> if i \<le> 0 \<or> i > 21 \<or> even i
        then Inl (ValueError ''strategy sample_count must be odd and between 1 and 21'') else Inr (nat i))"

definition validate_repeated_samples :: "string \<Rightarrow> strategy_metrics list \<Rightarrow> py_exc + unit" where
  "validate_repeated_samples strategy samples =
     (if length (remdups (map sm_topology_sha256 samples)) > 1
        then Inl (ValueError (''strategy repeated samples changed topology:'' @ strategy))
      else if length (remdups (map sm_outcome_sha256 samples)) > 1
        then Inl (ValueError (''strategy repeated samples changed outcome:'' @ strategy))
      else Inr ())"

definition group_runs :: "strategy_metrics list \<Rightarrow> (strategy_metrics \<Rightarrow> string) \<Rightarrow> (string \<times> string list) list" where
  "group_runs runs field = map (\<lambda>(fingerprint, names). (fingerprint, sort names)) (sort_key fst
     (fold (\<lambda>m groups. dset (field m) (dget_or [] groups (field m) @ [sm_strategy m]) groups) runs []))"

definition stable_graph_id :: "(8 word list \<Rightarrow> 8 word list) \<Rightarrow> string \<Rightarrow> string \<Rightarrow> string" where
  "stable_graph_id sha256 case_name strategy =
     ''replay-'' @ take 16 (hexdigest (sha256 (utf8 (case_name @ [CHR 0x00] @ strategy))))"

text \<open>\<open>round\<close> to the nearest integer, halves to the even one.\<close>

definition py_round :: "rat \<Rightarrow> int" where
  "py_round x = (let f = \<lfloor>x\<rfloor>; r = x - of_int f in
     if r < 1/2 then f else if r > 1/2 then f + 1 else if even f then f else f + 1)"

record 'w strategy_runner =
  sn_digest :: digest_host
  sn_run :: "string \<Rightarrow> task_graph \<Rightarrow> 'w \<Rightarrow> (py_exc + task_graph) \<times> 'w"
  sn_clock :: "'w \<Rightarrow> rat \<times> 'w"
  sn_usage :: "(string \<Rightarrow> replay_case \<Rightarrow> task_graph \<Rightarrow> 'w \<Rightarrow> (py_exc + strategy_usage option) \<times> 'w) option"
  sn_sample_count :: nat

definition sample_once ::
  "'w strategy_runner \<Rightarrow> replay_case \<Rightarrow> string \<Rightarrow> string \<Rightarrow> 'w \<Rightarrow> (py_exc + strategy_metrics \<times> task_graph) \<times> 'w"
where
  "sample_once S c name strategy w =
     (case case_graph c (stable_graph_id (dh_sha256 (sn_digest S)) (rc_name c) strategy) of
        Inl e \<Rightarrow> (Inl e, w)
      | Inr g \<Rightarrow>
          let (started, w1) = sn_clock S w
          in case sn_run S name g w1 of
              (Inl e, w2) \<Rightarrow> (Inl e, w2)
            | (Inr result, w2) \<Rightarrow>
                let (finished, w3) = sn_clock S w2; elapsed = finished - started
                in if elapsed < 0 then (Inl (ValueError ''strategy measurement clock moved backwards''), w3)
                   else (exc_bind (strategy_metrics_of (dh_dumps (sn_digest S)) (dh_sha256 (sn_digest S)) strategy (rc_name c)
                       result (py_round (elapsed * 1000)) [] None) (\<lambda>m. Inr (m, result)), w3))"

fun take_samples ::
  "nat \<Rightarrow> 'w strategy_runner \<Rightarrow> replay_case \<Rightarrow> string \<Rightarrow> string \<Rightarrow> 'w
   \<Rightarrow> (py_exc + (strategy_metrics \<times> task_graph) list) \<times> 'w"
where
  "take_samples 0 S c name strategy w = (Inr [], w)"
| "take_samples (Suc k) S c name strategy w = (case sample_once S c name strategy w of
      (Inl e, w1) \<Rightarrow> (Inl e, w1)
    | (Inr x, w1) \<Rightarrow> (case take_samples k S c name strategy w1 of
        (Inl e, w2) \<Rightarrow> (Inl e, w2)
      | (Inr xs, w2) \<Rightarrow> (Inr (x # xs), w2)))"

definition measure_strategy ::
  "'w strategy_runner \<Rightarrow> replay_case \<Rightarrow> string \<Rightarrow> 'w \<Rightarrow> (py_exc + strategy_metrics) \<times> 'w"
where
  "measure_strategy S c name w =
     (let strategy = strip name in
      if strategy = [] then (Inl (ValueError ''strategy names must be non-empty''), w)
      else (case take_samples (sn_sample_count S) S c name strategy w of
          (Inl e, w1) \<Rightarrow> (Inl e, w1)
        | (Inr samples, w1) \<Rightarrow>
            (case validate_repeated_samples strategy (map fst samples) of
               Inl e \<Rightarrow> (Inl e, w1)
             | Inr _ \<Rightarrow>
               (if samples = [] then (Inl (PyExc ''AssertionError'' []), w1)
                else let result = snd (last samples) in
                (case strategy_metrics_of (dh_dumps (sn_digest S)) (dh_sha256 (sn_digest S)) strategy (rc_name c) result 0
                      (map (\<lambda>x. sm_elapsed_ms (fst x)) samples) None of
                   Inl e \<Rightarrow> (Inl e, w1)
                 | Inr m \<Rightarrow>
                   (case (case sn_usage S of None \<Rightarrow> (Inr None, w1) | Some usage \<Rightarrow> usage strategy c result w1) of
                      (Inl e, w2) \<Rightarrow> (Inl e, w2)
                    | (Inr u, w2) \<Rightarrow> (attach_strategy_usage m u, w2)))))))"

fun measure_all ::
  "'w strategy_runner \<Rightarrow> replay_case \<Rightarrow> string list \<Rightarrow> 'w \<Rightarrow> (py_exc + strategy_metrics list) \<times> 'w"
where
  "measure_all S c [] w = (Inr [], w)"
| "measure_all S c (name # names) w = (case measure_strategy S c name w of
      (Inl e, w1) \<Rightarrow> (Inl e, w1)
    | (Inr m, w1) \<Rightarrow> (case measure_all S c names w1 of
        (Inl e, w2) \<Rightarrow> (Inl e, w2)
      | (Inr ms, w2) \<Rightarrow> (Inr (m # ms), w2)))"

record strategy_comparison =
  sx_case :: string
  sx_runs :: "strategy_metrics list"
  sx_topology_groups :: "(string \<times> string list) list"
  sx_outcome_groups :: "(string \<times> string list) list"

definition compare_strategies ::
  "'w strategy_runner \<Rightarrow> replay_case \<Rightarrow> string list \<Rightarrow> 'w \<Rightarrow> (py_exc + strategy_comparison) \<times> 'w"
where
  "compare_strategies S c strategies w =
     (if strategies = [] then (Inl (ValueError ''at least one decomposition strategy is required''), w)
      else (case measure_all S c (sort strategies) w of
          (Inl e, w1) \<Rightarrow> (Inl e, w1)
        | (Inr runs, w1) \<Rightarrow> (Inr \<lparr>sx_case = rc_name c, sx_runs = runs,
            sx_topology_groups = group_runs runs sm_topology_sha256,
            sx_outcome_groups = group_runs runs sm_outcome_sha256\<rparr>, w1)))"

definition topology_diverged :: "strategy_comparison \<Rightarrow> bool" where
  "topology_diverged c \<longleftrightarrow> length (sx_topology_groups c) > 1"

definition outcome_diverged :: "strategy_comparison \<Rightarrow> bool" where
  "outcome_diverged c \<longleftrightarrow> length (sx_outcome_groups c) > 1"

definition opt_int :: "int option \<Rightarrow> pyval" where
  "opt_int x = (case x of None \<Rightarrow> PNone | Some i \<Rightarrow> PInt i)"

definition metrics_dict :: "strategy_metrics \<Rightarrow> pydict" where
  "metrics_dict m = [(''strategy'', PStr (sm_strategy m)), (''case'', PStr (sm_case m)),
     (''root_status'', PStr (sm_root_status m)), (''node_count'', PInt (sm_node_count m)),
     (''leaf_count'', PInt (sm_leaf_count m)), (''max_depth'', PInt (sm_max_depth m)),
     (''dependency_edge_count'', PInt (sm_dependency_edge_count m)), (''leaf_executions'', PInt (sm_leaf_executions m)),
     (''event_count'', PInt (sm_event_count m)), (''failed_count'', PInt (sm_failed_count m)),
     (''blocked_count'', PInt (sm_blocked_count m)), (''topology_sha256'', PStr (sm_topology_sha256 m)),
     (''outcome_sha256'', PStr (sm_outcome_sha256 m)), (''elapsed_ms'', PInt (sm_elapsed_ms m)),
     (''elapsed_sample_count'', opt_int (sm_elapsed_sample_count m)),
     (''elapsed_samples_ms'', PList (map PInt (sm_elapsed_samples_ms m))),
     (''elapsed_min_ms'', opt_int (sm_elapsed_min_ms m)), (''elapsed_max_ms'', opt_int (sm_elapsed_max_ms m)),
     (''elapsed_mad_ms'', opt_int (sm_elapsed_mad_ms m)), (''input_tokens'', opt_int (sm_input_tokens m)),
     (''output_tokens'', opt_int (sm_output_tokens m)), (''total_tokens'', opt_int (sm_total_tokens m)),
     (''cost_microunits'', opt_int (sm_cost_microunits m)), (''cost_basis'', popt_str (sm_cost_basis m))]"

definition groups_dict :: "(string \<times> string list) list \<Rightarrow> pyval" where
  "groups_dict groups = PDict (map (\<lambda>(k, names). (k, pstrs names)) groups)"

definition comparison_dict :: "strategy_comparison \<Rightarrow> pydict" where
  "comparison_dict c = [(''schema_version'', PInt 3), (''case'', PStr (sx_case c)),
     (''topology_diverged'', PBool (topology_diverged c)), (''outcome_diverged'', PBool (outcome_diverged c)),
     (''topology_groups'', groups_dict (sx_topology_groups c)), (''outcome_groups'', groups_dict (sx_outcome_groups c)),
     (''runs'', PList (map (\<lambda>m. PDict (metrics_dict m)) (sx_runs c)))]"

definition save_comparison :: "json_codec \<Rightarrow> string \<Rightarrow> strategy_comparison \<Rightarrow> directory \<Rightarrow> directory" where
  "save_comparison J path c files = dset path (jc_dumps J (PDict (comparison_dict c)) @ [CHR 0x0A]) files"

section \<open>Round trips\<close>

lemma child_spec_round_trip: "child_spec_from (PDict (child_spec_dict c)) = Inr c"
  by (simp add: child_spec_from_def child_spec_dict_def only_keys_def dkeys_def req_arg_def opt_arg_def)

lemma leaf_spec_round_trip: "leaf_spec_from (PDict (leaf_spec_dict l)) = Inr (Some l)"
  by (simp add: leaf_spec_from_def leaf_spec_dict_def only_keys_def dkeys_def req_arg_def opt_arg_def)

text \<open>The decisions a trace can hold.\<close>

definition replayable :: "atomicity_decision \<Rightarrow> bool" where
  "replayable d \<longleftrightarrow> (if ad_is_atomic d then ad_children d = [] else ad_children d \<noteq> [] \<and> ad_leaf d = None)"

lemma decision_round_trip:
  assumes "replayable d"
  shows "decision_from (decision_dict d) = Inr d"
proof -
  have keys: "set (dkeys (decision_dict d)) = {''is_atomic'', ''reason'', ''children'', ''leaf''}"
    by (simp add: decision_dict_def dkeys_def)
  have children: "map_exc child_spec_from (map (\<lambda>c. PDict (child_spec_dict c)) (ad_children d)) = Inr (ad_children d)"
    by (rule map_exc_Inr) (rule child_spec_round_trip)
  have leaf: "leaf_spec_from (case ad_leaf d of None \<Rightarrow> PNone | Some l \<Rightarrow> PDict (leaf_spec_dict l)) = Inr (ad_leaf d)"
    by (cases "ad_leaf d") (simp_all add: leaf_spec_round_trip, simp add: leaf_spec_from_def)
  show ?thesis
    unfolding decision_from_def keys
    using assms by (auto simp: decision_dict_def dget_or_def dget_def [symmetric] children leaf replayable_def split: if_splits)
qed

lemma trace_entry_round_trip: "trace_entry_from (PDict (trace_entry_dict e)) = Inr e"
  by (simp add: trace_entry_from_def trace_entry_dict_def field_exc_def)

lemma hex_char_digit: "d < 16 \<Longrightarrow> hex_digit (hex_char d)"
  by (auto simp: hex_digit_def hex_char_def Let_def)

lemma hexdigest_sha256:
  assumes "length bs = 32"
  shows "is_sha256 (hexdigest bs)"
proof -
  have "length (hexdigest bs) = 2 * length bs" for bs by (induction bs) (simp_all add: hexdigest_def hex_byte_def)
  moreover have "unat b div 16 < 16" for b :: "8 word"
  proof -
    have "unat b < 2 ^ LENGTH(8)" by (rule unsigned_less)
    then show ?thesis by (simp add: less_mult_imp_div_less)
  qed
  then have "list_all hex_digit (hexdigest bs)" for bs
    by (induction bs) (simp_all add: hexdigest_def hex_byte_def hex_char_digit)
  ultimately show ?thesis using assms by (simp add: is_sha256_def)
qed

section \<open>A recorded trace replays\<close>

fun record_all ::
  "digest_host \<Rightarrow> 'w task_decomposer \<Rightarrow> (task_node \<times> task_graph) list \<Rightarrow> trace_entry list \<times> 'w
   \<Rightarrow> (atomicity_decision list \<times> trace_entry list \<times> 'w) option"
where
  "record_all D delegate [] s = Some ([], s)"
| "record_all D delegate ((n, g) # calls) s = (case record_assess D delegate n g s of
      Some (Inr d, s') \<Rightarrow> map_option (\<lambda>(ds, s''). (d # ds, s'')) (record_all D delegate calls s')
    | _ \<Rightarrow> None)"

fun replay_all ::
  "digest_host \<Rightarrow> (string \<times> trace_entry) list \<Rightarrow> (task_node \<times> task_graph) list \<Rightarrow> string list
   \<Rightarrow> (atomicity_decision list \<times> string list) option"
where
  "replay_all D table [] used = Some ([], used)"
| "replay_all D table ((n, g) # calls) used = (case replay_assess D table n g used of
      Some (Inr d, used') \<Rightarrow> map_option (\<lambda>(ds, used''). (d # ds, used'')) (replay_all D table calls used')
    | _ \<Rightarrow> None)"

definition entry_of :: "digest_host \<Rightarrow> task_node \<Rightarrow> task_graph \<Rightarrow> atomicity_decision \<Rightarrow> trace_entry \<Rightarrow> bool" where
  "entry_of D n g d e \<longleftrightarrow> dt_node_id e = nd_id n \<and> dt_decision e = decision_dict d \<and>
     context_sha256 D n g = Some (Inr (dt_context_sha256 e))"

lemma record_assess_Inr:
  assumes "record_assess D delegate n g s = Some (Inr d, s')"
  shows "\<exists>e. fst s' = fst s @ [e] \<and> entry_of D n g d e \<and> nd_id n \<notin> dt_node_id ` set (fst s)"
proof -
  obtain out w where call: "delegate n g (snd s) = (out, w)" by fastforce
  then have out: "out = Inr d" and fresh: "\<not> list_ex (\<lambda>e. dt_node_id e = nd_id n) (fst s)"
    using assms by (cases out; cases "context_sha256 D n g"; cases "the (context_sha256 D n g)";
        auto simp: record_assess_def split: if_splits)+
  have "\<exists>sha. context_sha256 D n g = Some (Inr sha) \<and>
      s' = (fst s @ [\<lparr>dt_node_id = nd_id n, dt_context_sha256 = sha, dt_decision = decision_dict d\<rparr>], w)"
    using assms call out fresh
    by (cases "context_sha256 D n g"; cases "the (context_sha256 D n g)") (auto simp: record_assess_def)
  with fresh show ?thesis by (force simp: entry_of_def list_ex_iff)
qed

lemma record_all_entries:
  "record_all D delegate calls s = Some (ds, s') \<Longrightarrow> distinct (map dt_node_id (fst s)) \<Longrightarrow>
    \<exists>new. fst s' = fst s @ new \<and> distinct (map dt_node_id (fst s')) \<and> length ds = length calls \<and>
      list_all2 (\<lambda>(n, g) (d, e). entry_of D n g d e) calls (zip ds new) \<and> length new = length calls"
proof (induction calls arbitrary: s ds)
  case (Cons c calls)
  obtain n g where c: "c = (n, g)" by fastforce
  from Cons.prems(1) obtain d s1 ds' where 1: "record_assess D delegate n g s = Some (Inr d, s1)"
    "record_all D delegate calls s1 = Some (ds', s')" "ds = d # ds'"
    by (auto simp: c split: option.splits sum.splits prod.splits)
  from record_assess_Inr [OF 1(1)] obtain e where e: "fst s1 = fst s @ [e]" "entry_of D n g d e"
    "nd_id n \<notin> dt_node_id ` set (fst s)" by blast
  then have "distinct (map dt_node_id (fst s1))" using Cons.prems(2) by (simp add: entry_of_def)
  from Cons.IH [OF 1(2) this] obtain new where new: "fst s' = fst s1 @ new" "distinct (map dt_node_id (fst s'))"
    "length ds' = length calls" "list_all2 (\<lambda>(n, g) (d, e). entry_of D n g d e) calls (zip ds' new)"
    "length new = length calls" by blast
  then show ?case using e 1(3) c by (intro exI [of _ "e # new"]) auto
qed simp

lemma trace_table_get: "distinct (map dt_node_id es) \<Longrightarrow> e \<in> set es \<Longrightarrow> dget (trace_table es) (dt_node_id e) = Some e"
  unfolding trace_table_def dupdate_def by (rule dict.lookup_fold_store_in) (auto simp: comp_def)

lemma replay_all_entries:
  "list_all2 (\<lambda>(n, g) (d, e). entry_of D n g d e) calls (zip ds new) \<Longrightarrow> length ds = length calls \<Longrightarrow>
    length new = length calls \<Longrightarrow> \<forall>e\<in>set new. dget table (dt_node_id e) = Some e \<Longrightarrow>
    distinct (map dt_node_id new) \<Longrightarrow> set used \<inter> dt_node_id ` set new = {} \<Longrightarrow> \<forall>d\<in>set ds. replayable d \<Longrightarrow>
    replay_all D table calls used = Some (ds, rev (map dt_node_id new) @ used)"
proof (induction calls arbitrary: ds new used)
  case (Cons c calls)
  obtain n g where c: "c = (n, g)" by fastforce
  obtain d ds' where ds: "ds = d # ds'" using Cons.prems(2) by (cases ds) auto
  obtain e new' where new: "new = e # new'" using Cons.prems(3) by (cases new) auto
  have e: "entry_of D n g d e" using Cons.prems(1) by (simp add: c ds new)
  then have id: "dt_node_id e = nd_id n" by (simp add: entry_of_def)
  have "replay_assess D table n g used = Some (Inr d, nd_id n # used)"
    using e Cons.prems(4,6,7) decision_round_trip [of d] by (auto simp: replay_assess_def entry_of_def ds new id [symmetric])
  moreover have "replay_all D table calls (nd_id n # used) = Some (ds', rev (map dt_node_id new') @ nd_id n # used)"
    by (rule Cons.IH) (use Cons.prems id in \<open>auto simp: c ds new\<close>)
  ultimately show ?case by (simp add: c ds new id)
qed simp

end
