(* ===== verification/Strategy_Judge.thy ===== *)
theory Strategy_Judge
  imports Task_Replay Py_Text
begin

text \<open>
  The ranking of measured strategies by an external policy
  (\<open>loop_engine/tasks/strategy_judge.py\<close>): lexicographic objectives over the eligible runs, with
  equal runs sharing a rank. Ranking raises on runs that cannot be compared.
\<close>

section \<open>Policy\<close>

definition numeric_metrics :: "string list" where
  "numeric_metrics = [''node_count'', ''leaf_count'', ''max_depth'', ''dependency_edge_count'', ''leaf_executions'',
     ''event_count'', ''failed_count'', ''blocked_count'', ''elapsed_ms'', ''input_tokens'', ''output_tokens'',
     ''total_tokens'', ''cost_microunits'']"

datatype objective_direction = Minimise | Maximise

record strategy_objective =
  so_metric :: string
  so_direction :: objective_direction

definition direction_str :: "objective_direction \<Rightarrow> string" where
  "direction_str d = (case d of Minimise \<Rightarrow> ''min'' | Maximise \<Rightarrow> ''max'')"

definition mk_objective :: "string \<Rightarrow> string \<Rightarrow> py_exc + strategy_objective" where
  "mk_objective metric direction =
     (let metric = strip metric; direction = map lower_of (strip direction) in
      if metric \<notin> set numeric_metrics then Inl (ValueError (''unsupported strategy objective metric: '' @ metric))
      else if direction \<notin> {''min'', ''max''} then Inl (ValueError ''strategy objective direction must be min or max'')
      else Inr \<lparr>so_metric = metric, so_direction = (if direction = ''min'' then Minimise else Maximise)\<rparr>)"

record judge_policy =
  jp_eligible_root_statuses :: "string list"
  jp_objectives :: "strategy_objective list"

definition all_task_statuses :: "task_status list" where
  "all_task_statuses = [TS_PENDING, TS_READY, TS_RUNNING, TS_WAITING, TS_COMPLETED, TS_FAILED, TS_BLOCKED]"

definition mk_judge_policy :: "string list \<Rightarrow> strategy_objective list \<Rightarrow> py_exc + judge_policy" where
  "mk_judge_policy eligible objectives =
     (let statuses = map strip eligible;
          unknown = sort (remdups (filter (\<lambda>s. s \<notin> set (map task_status_str all_task_statuses)) statuses)) in
      if statuses = [] \<or> [] \<in> set statuses then Inl (ValueError ''eligible strategy root statuses must be non-empty'')
      else if unknown \<noteq> [] then Inl (ValueError (''unsupported eligible root statuses: '' @ repr_str_list unknown))
      else if objectives = [] then Inl (ValueError ''at least one strategy objective is required'')
      else if \<not> distinct (map so_metric objectives) then Inl (ValueError ''strategy objective metrics must be unique'')
      else Inr \<lparr>jp_eligible_root_statuses = statuses, jp_objectives = objectives\<rparr>)"

section \<open>Values of a run\<close>

text \<open>\<open>getattr(run, metric)\<close> for the supported metrics.\<close>

definition measured :: "strategy_metrics \<Rightarrow> string \<Rightarrow> int option" where
  "measured m metric =
     (if metric = ''node_count'' then Some (sm_node_count m)
      else if metric = ''leaf_count'' then Some (sm_leaf_count m)
      else if metric = ''max_depth'' then Some (sm_max_depth m)
      else if metric = ''dependency_edge_count'' then Some (sm_dependency_edge_count m)
      else if metric = ''leaf_executions'' then Some (sm_leaf_executions m)
      else if metric = ''event_count'' then Some (sm_event_count m)
      else if metric = ''failed_count'' then Some (sm_failed_count m)
      else if metric = ''blocked_count'' then Some (sm_blocked_count m)
      else if metric = ''elapsed_ms'' then Some (sm_elapsed_ms m)
      else if metric = ''input_tokens'' then sm_input_tokens m
      else if metric = ''output_tokens'' then sm_output_tokens m
      else if metric = ''total_tokens'' then sm_total_tokens m
      else sm_cost_microunits m)"

definition objective_values :: "strategy_metrics \<Rightarrow> strategy_objective list \<Rightarrow> py_exc + int list" where
  "objective_values m objectives = map_exc (\<lambda>o'. case measured m (so_metric o') of
      None \<Rightarrow> Inl (ValueError (''strategy objective '' @ so_metric o' @ '' is not measured:'' @ sm_strategy m))
    | Some v \<Rightarrow> Inr v) objectives"

definition ranking_key :: "int list \<Rightarrow> strategy_objective list \<Rightarrow> int list" where
  "ranking_key vs objectives =
     map (\<lambda>(v, o'). if so_direction o' = Minimise then v else - v) (zip vs objectives)"

definition ranking_reason :: "int list \<Rightarrow> strategy_objective list \<Rightarrow> string" where
  "ranking_reason vs objectives = ''lexicographic:'' @ str_join '',''
     (map (\<lambda>(v, o'). so_metric o' @ '':'' @ direction_str (so_direction o') @ ''='' @ str_of_int v) (zip vs objectives))"

section \<open>Ranking\<close>

record strategy_rank =
  sk_strategy :: string
  sk_rank :: "nat option"
  sk_eligible :: bool
  sk_root_status :: string
  sk_objective_values :: "int list"
  sk_reason :: string

record strategy_ranking =
  sg_case :: string
  sg_policy :: judge_policy
  sg_entries :: "strategy_rank list"

definition eligible :: "judge_policy \<Rightarrow> strategy_metrics \<Rightarrow> bool" where
  "eligible p m \<longleftrightarrow> sm_root_status m \<in> set (jp_eligible_root_statuses p)"

definition check_compatibility :: "judge_policy \<Rightarrow> strategy_metrics list \<Rightarrow> py_exc + unit" where
  "check_compatibility p runs =
     (let bases = remdups (map sm_cost_basis (filter (eligible p) runs)) in
      if ''cost_microunits'' \<notin> set (map so_metric (jp_objectives p)) then Inr ()
      else if None \<in> set bases then Inl (ValueError ''strategy objective cost_microunits is not measured'')
      else if length bases > 1 then Inl (ValueError ''strategy cost_basis values are not comparable'')
      else Inr ())"

definition ineligible_entry :: "int list \<Rightarrow> strategy_metrics \<Rightarrow> strategy_rank" where
  "ineligible_entry vs m = \<lparr>sk_strategy = sm_strategy m, sk_rank = None, sk_eligible = False,
     sk_root_status = sm_root_status m, sk_objective_values = vs,
     sk_reason = ''ineligible_root_status:'' @ sm_root_status m\<rparr>"

definition eligible_entry :: "judge_policy \<Rightarrow> nat \<Rightarrow> int list \<Rightarrow> strategy_metrics \<Rightarrow> strategy_rank" where
  "eligible_entry p rank vs m = \<lparr>sk_strategy = sm_strategy m, sk_rank = Some rank, sk_eligible = True,
     sk_root_status = sm_root_status m, sk_objective_values = vs,
     sk_reason = ranking_reason vs (jp_objectives p)\<rparr>"

text \<open>\<open>enumerate(eligible, start=1)\<close> with the previous key and its rank.\<close>

fun assign_ranks :: "nat \<Rightarrow> 'k option \<Rightarrow> nat \<Rightarrow> ('k \<times> 'r) list \<Rightarrow> (nat \<times> 'r) list" where
  "assign_ranks position previous current [] = []"
| "assign_ranks position previous current ((key, r) # rest) =
     (if previous = Some key then (current, r) # assign_ranks (position + 1) previous current rest
      else (position, r) # assign_ranks (position + 1) (Some key) position rest)"

definition rank_strategies :: "judge_policy \<Rightarrow> strategy_comparison \<Rightarrow> py_exc + strategy_ranking" where
  "rank_strategies p c =
     (let runs = sx_runs c in
      if runs = [] then Inl (ValueError ''strategy comparison has no runs'')
      else if \<not> distinct (map sm_strategy runs) then Inl (ValueError ''strategy comparison names must be unique'')
      else if list_ex (\<lambda>m. strip (sm_strategy m) = []) runs
        then Inl (ValueError ''strategy comparison names must be non-empty'')
      else if list_ex (\<lambda>m. sm_case m \<noteq> sx_case c) runs then Inl (ValueError ''strategy comparison run case mismatch'')
      else exc_bind (check_compatibility p runs) (\<lambda>_.
        exc_bind (map_exc (\<lambda>m. exc_bind (objective_values m (jp_objectives p)) (\<lambda>vs. Inr (vs, m))) runs) (\<lambda>valued.
        let ranked = assign_ranks 1 None 0 (sort_key (\<lambda>(key, (vs, m)). (key, sm_strategy m))
              (map (\<lambda>(vs, m). (ranking_key vs (jp_objectives p), (vs, m))) (filter (\<lambda>(vs, m). eligible p m) valued)));
            ineligible = filter (\<lambda>(vs, m). \<not> eligible p m) valued
        in Inr \<lparr>sg_case = sx_case c, sg_policy = p,
             sg_entries = map (\<lambda>(rank, (vs, m)). eligible_entry p rank vs m) ranked @
               sort_key sk_strategy (map (\<lambda>(vs, m). ineligible_entry vs m) ineligible)\<rparr>)))"

definition ranking_winners :: "strategy_ranking \<Rightarrow> string list" where
  "ranking_winners g = map sk_strategy (filter (\<lambda>e. sk_rank e = Some 1) (sg_entries g))"

definition rank_dict :: "strategy_rank \<Rightarrow> pydict" where
  "rank_dict e = [(''strategy'', PStr (sk_strategy e)), (''rank'', case sk_rank e of None \<Rightarrow> PNone | Some k \<Rightarrow> PInt (int k)),
     (''eligible'', PBool (sk_eligible e)), (''root_status'', PStr (sk_root_status e)),
     (''objective_values'', PList (map PInt (sk_objective_values e))), (''reason'', PStr (sk_reason e))]"

definition ranking_dict :: "strategy_ranking \<Rightarrow> pydict" where
  "ranking_dict g = [(''schema_version'', PInt 1), (''case'', PStr (sg_case g)),
     (''policy'', PDict
        [(''eligible_root_statuses'', pstrs (sort (remdups (jp_eligible_root_statuses (sg_policy g))))),
         (''objectives'', PList (map (\<lambda>o'. PDict [(''metric'', PStr (so_metric o')),
            (''direction'', PStr (direction_str (so_direction o')))]) (jp_objectives (sg_policy g))))]),
     (''winners'', pstrs (ranking_winners g)), (''entries'', PList (map (\<lambda>e. PDict (rank_dict e)) (sg_entries g)))]"

definition save_ranking :: "json_codec \<Rightarrow> string \<Rightarrow> strategy_ranking \<Rightarrow> directory \<Rightarrow> directory" where
  "save_ranking J path g files = dset path (jc_dumps J (PDict (ranking_dict g)) @ [CHR 0x0A]) files"

section \<open>Ranks count the better runs\<close>

lemma assign_ranks_snd: "map snd (assign_ranks position previous current krs) = map snd krs"
  by (induction krs arbitrary: position previous current) auto

lemma assign_ranks_count:
  fixes krs :: "('k::linorder \<times> 'r) list"
  assumes "sorted (map fst (pre @ krs))" "position = Suc (length pre)"
    "pre = [] \<and> previous = None \<or> pre \<noteq> [] \<and> previous = Some (fst (last pre)) \<and>
      current = Suc (length (filter (\<lambda>x. fst x < fst (last pre)) pre))"
  shows "map fst (assign_ranks position previous current krs) =
    map (\<lambda>kr. Suc (length (filter (\<lambda>x. fst x < fst kr) (pre @ krs)))) krs"
  using assms
proof (induction krs arbitrary: pre position previous current)
  case (Cons kr krs)
  obtain key r where kr: "kr = (key, r)" by fastforce
  have later: "filter (\<lambda>x. fst x < key) ((key, r) # krs) = []"
    using Cons.prems(1) by (auto simp: kr sorted_append filter_empty_conv)
  have IH: "map fst (assign_ranks (position + 1) previous' current' krs) =
      map (\<lambda>kr. Suc (length (filter (\<lambda>x. fst x < fst kr) ((pre @ [(key, r)]) @ krs)))) krs"
    if "previous' = Some key" "current' = Suc (length (filter (\<lambda>x. fst x < key) (pre @ [(key, r)])))" for previous' current'
    by (rule Cons.IH) (use Cons.prems that in \<open>simp_all add: kr\<close>)
  show ?case
  proof (cases "previous = Some key")
    case True
    with Cons.prems(3) have "fst (last pre) = key" "current = Suc (length (filter (\<lambda>x. fst x < key) pre))" by auto
    with IH [of previous current] True later show ?thesis by (simp add: kr)
  next
    case False
    have "fst x < key" if x: "x \<in> set pre" for x
    proof -
      have le: "fst x \<le> key" using Cons.prems(1) x by (auto simp: kr sorted_append)
      obtain ys z where pre: "pre = ys @ [z]" using x by (cases pre rule: rev_cases) auto
      then have "fst x \<le> fst (last pre)" "fst (last pre) \<le> key"
        using Cons.prems(1) x by (auto simp: kr sorted_append)
      moreover have "fst (last pre) \<noteq> key" using False Cons.prems(3) x by auto
      ultimately show ?thesis by simp
    qed
    then have "filter (\<lambda>x. fst x < key) pre = pre" by simp
    with IH [of "Some key" position] False later Cons.prems(2) show ?thesis by (simp add: kr)
  qed
qed simp

end
