(* ===== verification/Decision_Properties.thy ===== *)
theory Decision_Properties
  imports Task_Integration Strategy_Judge Task_Properties
begin

text \<open>
  The properties of the decisions around the scheduler: what an untrusted decomposition can be once
  it is accepted, and that no language model can break the runtime; recorded decisions replay;
  what the composed checks of a parent decide; and how measured strategies are ranked.
\<close>

section \<open>Accepted decompositions\<close>

definition valid_children :: "int \<Rightarrow> child_task_spec list \<Rightarrow> bool" where
  "valid_children max_children cs \<longleftrightarrow> cs \<noteq> [] \<and> int (length cs) \<le> max_children \<and> distinct (map cs_key cs) \<and>
     list_all (\<lambda>c. is_child_key (cs_key c) \<and> cs_goal c \<noteq> [] \<and> distinct (cs_required_capabilities c) \<and>
       list_all is_capability (cs_required_capabilities c) \<and> set (cs_depends_on c) \<subseteq> cs_key ` set cs) cs"

lemma validate_dependencies_Inr:
  assumes "validate_dependencies cs = Inr u"
  shows "distinct (map cs_key cs)" "\<forall>c\<in>set cs. set (cs_depends_on c) \<subseteq> cs_key ` set cs"
    "validate_dependency_graph cs = None"
proof -
  show d: "distinct (map cs_key cs)" using assms by (auto simp: validate_dependencies_def Let_def split: if_splits)
  have "known_dependencies (map cs_key cs) cs = Inr ()"
    using assms d by (auto simp: validate_dependencies_def Let_def exc_bind_Inr)
  from known_dependencies_Inr [OF this] show "\<forall>c\<in>set cs. set (cs_depends_on c) \<subseteq> cs_key ` set cs" by simp
  show "validate_dependency_graph cs = None"
    using assms d dependency_table_keys(1) [OF d]
    by (auto simp: validate_dependencies_def validate_dependency_graph_def Let_def exc_bind_Inr split: option.splits)
qed

lemma validate_decision_Inr:
  assumes "validate_decision dumps max_children raw = Inr d"
  shows "if ad_is_atomic d
    then ad_children d = [] \<and> (\<exists>l. ad_leaf d = Some l \<and> al_goal l \<noteq> [] \<and> al_success_criteria l \<noteq> [] \<and>
      al_required_capabilities l \<noteq> [] \<and> distinct (al_required_capabilities l))
    else ad_leaf d = None \<and> valid_children max_children (ad_children d) \<and> validate_dependency_graph (ad_children d) = None"
proof -
  let ?p = "unwrap_decision (unwrap_response raw)"
  consider "dget_none ?p ''decision'' = PStr ''atomic''" | "dget_none ?p ''decision'' = PStr ''decompose''"
    using assms by (auto simp: validate_decision_def Let_def split: if_splits)
  then show ?thesis
  proof cases
    case 1
    with assms obtain reason l where l: "validate_leaf dumps (dget_none ?p ''leaf'') = Inr l"
      and d: "d = \<lparr>ad_is_atomic = True, ad_reason = reason, ad_children = [], ad_leaf = Some l\<rparr>"
      by (auto simp: validate_decision_def Let_def exc_bind_Inr)
    from l have "al_goal l \<noteq> [] \<and> al_success_criteria l \<noteq> [] \<and> al_required_capabilities l \<noteq> [] \<and>
        distinct (al_required_capabilities l)"
      by (auto simp: validate_leaf_def exc_bind_Inr split: pyval.splits
          dest!: required_string_Inr string_list_Inr capability_list_Inr)
    with d show ?thesis by simp
  next
    case 2
    with assms obtain reason raws cs where raws: "raws \<noteq> []" "int (length raws) \<le> max_children"
      and cs: "map_exc (validate_child dumps) raws = Inr cs" "validate_dependencies cs = Inr ()"
      and d: "d = \<lparr>ad_is_atomic = False, ad_reason = reason, ad_children = cs, ad_leaf = None\<rparr>"
      by (auto simp: validate_decision_def Let_def exc_bind_Inr split: option.splits if_splits)
    note all = map_exc_all [OF cs(1)]
    then have "cs \<noteq> []" "int (length cs) \<le> max_children" using raws by auto
    moreover have "is_child_key (cs_key c) \<and> cs_goal c \<noteq> [] \<and> distinct (cs_required_capabilities c) \<and>
        list_all is_capability (cs_required_capabilities c)" if "c \<in> set cs" for c
      using all that validate_child_Inr by blast
    ultimately show ?thesis
      using validate_dependencies_Inr [OF cs(2)] by (simp add: d valid_children_def list_all_iff)
  qed
qed

lemma valid_children_accepted:
  assumes "valid_children max_children cs" "validate_dependency_graph cs = None"
  shows "child_specs_error cs = None" "\<forall>c\<in>set cs. dot_free (cs_key c)"
proof -
  have c: "strip (cs_key c) \<noteq> [] \<and> CHR ''.'' \<notin> set (cs_key c)" if "c \<in> set cs" for c
    using assms(1) that child_key_plain by (auto simp: valid_children_def list_all_iff)
  then show "\<forall>c\<in>set cs. dot_free (cs_key c)" by (simp add: dot_free_def)
  have "unknown_dependency (set (map cs_key cs)) cs = None"
    using assms(1) by (simp add: unknown_dependency_None valid_children_def list_all_iff)
  then show "child_specs_error cs = None"
    using assms c by (auto simp: child_specs_error_def Let_def valid_children_def)
qed

lemma ask_client_Inr: "ask_client L ms w = (Inr d, w') \<Longrightarrow> \<exists>payload. validate_decision (dc_dumps L) (dc_max_children L) payload = Inr d"
  by (auto simp: ask_client_def split: prod.splits sum.splits)

lemma repair_decision_Inr: "repair_decision L f w = (Inr d, w') \<Longrightarrow> \<exists>ms v. ask_client L ms v = (Inr d, w')"
  by (auto simp: repair_decision_def split: if_splits prod.splits sum.splits)

lemma llm_assess_Inr:
  assumes "llm_assess L n g w = Some (Inr d, w')"
  shows "\<exists>payload. validate_decision (dc_dumps L) (dc_max_children L) payload = Inr d"
proof -
  obtain m where m: "decomposition_messages L n g = Some m" using assms by (auto simp: llm_assess_def)
  have "\<exists>ms v. ask_client L ms v = (Inr d, w')"
  proof (cases m)
    case (Inl e)
    with assms m show ?thesis by (auto simp: llm_assess_def dest: repair_decision_Inr)
  next
    case (Inr ms)
    obtain out v where out: "ask_client L ms w = (out, v)" by fastforce
    with assms m Inr show ?thesis
      by (cases out) (auto simp: llm_assess_def dest: repair_decision_Inr)
  qed
  then obtain ms v where "ask_client L ms v = (Inr d, w')" by (elim exE)
  then show ?thesis by (rule ask_client_Inr)
qed

text \<open>
  Whatever the language model answers or raises, and whether or not its answer had to be repaired,
  a decision the decomposer returns is either one leaf with a goal, criteria and capabilities, or
  at most the allowed number of children with distinct keys of the documented form, known
  dependencies without a cycle, and no other content; and the scheduler accepts such children.
\<close>

theorem llm_decisions_valid:
  assumes "llm_assess L n g w = Some (Inr d, w')"
  shows "if ad_is_atomic d
    then ad_children d = [] \<and> (\<exists>l. ad_leaf d = Some l \<and> al_goal l \<noteq> [] \<and> al_success_criteria l \<noteq> [] \<and>
      al_required_capabilities l \<noteq> [] \<and> distinct (al_required_capabilities l))
    else ad_leaf d = None \<and> valid_children (dc_max_children L) (ad_children d) \<and>
      acyclic {(cs_key c, k) | c k. c \<in> set (ad_children d) \<and> k \<in> set (cs_depends_on c)} \<and>
      (\<forall>parent h. \<exists>h'. add_child_tasks (nd_id parent) parent (ad_children d) h = Inr h')"
proof -
  obtain payload where "validate_decision (dc_dumps L) (dc_max_children L) payload = Inr d"
    using llm_assess_Inr [OF assms] by blast
  note v = validate_decision_Inr [OF this]
  show ?thesis
  proof (cases "ad_is_atomic d")
    case True
    with v show ?thesis by simp
  next
    case False
    with v have cs: "ad_leaf d = None" "valid_children (dc_max_children L) (ad_children d)"
      "validate_dependency_graph (ad_children d) = None" by simp_all
    have "acyclic {(cs_key c, k) | c k. c \<in> set (ad_children d) \<and> k \<in> set (cs_depends_on c)}"
      using dependency_graph_acyclic [of "ad_children d"] cs by (auto simp: valid_children_def list_all_iff)
    moreover have "\<exists>h'. add_child_tasks (nd_id parent) parent (ad_children d) h = Inr h'" for parent h
      using valid_children_accepted(1) [OF cs(2,3)] by (simp add: add_child_tasks_def)
    ultimately show ?thesis using False cs by simp
  qed
qed

text \<open>A model that answers with two ordered children, and one that answers nothing usable.\<close>

definition two_children_answer :: pydict where
  "two_children_answer = [(''decision'', PStr ''decompose''), (''reason'', PStr ''r''), (''children'', PList
     (map (\<lambda>(k, deps). PDict [(''key'', PStr k), (''goal'', PStr ''g''), (''success_criteria'', PList []),
        (''required_capabilities'', PList []), (''depends_on'', pstrs deps), (''metadata'', PDict [])])
      [(''a'', []), (''b'', [''a''])]))]"

definition example_llm :: "(llm_failure + pydict) \<Rightarrow> nat llm_decomposer" where
  "example_llm answer = \<lparr>dc_client = (\<lambda>ms calls. (answer, Suc calls)), dc_available_capabilities = [], dc_max_children = 4,
     dc_max_context_chars = 100, dc_contract_repair_attempts = 1, dc_max_repair_source_chars = 100,
     dc_dumps = (\<lambda>v. []), dc_dumps_indented = (\<lambda>v. [])\<rparr>"

lemma llm_decisions_valid_witness:
  "\<exists>d. llm_assess (example_llm (Inr two_children_answer)) (new_node ''root'' ''g'') demo_task_graph 0 = Some (Inr d, 1) \<and>
    valid_children 4 (ad_children d)"
proof -
  have "(case llm_assess (example_llm (Inr two_children_answer)) (new_node ''root'' ''g'') demo_task_graph 0 of
      Some (Inr d, w) \<Rightarrow> \<not> ad_is_atomic d \<and> w = 1 | _ \<Rightarrow> False)" by code_simp
  then obtain d where d: "llm_assess (example_llm (Inr two_children_answer)) (new_node ''root'' ''g'') demo_task_graph 0 =
      Some (Inr d, 1)" "\<not> ad_is_atomic d" by (auto split: option.splits prod.splits sum.splits)
  from llm_decisions_valid [OF d(1)] d show ?thesis by (auto simp: example_llm_def)
qed

section \<open>The runtime under a language model\<close>

lemma llm_port_dot_free:
  assumes "sc_decomposer E = llm_port L"
  shows "dot_free_keys E"
  unfolding dot_free_keys_def
proof (intro allI impI)
  fix n g w d w'
  assume "sc_decomposer E n g w = (Inr d, w')"
  then have "llm_assess L n g w = Some (Inr d, w')" using assms by (auto simp: llm_port_def split: option.splits)
  from llm_assess_Inr [OF this] obtain payload where "validate_decision (dc_dumps L) (dc_max_children L) payload = Inr d" by blast
  from validate_decision_Inr [OF this] valid_children_accepted(2) show "\<forall>s\<in>set (ad_children d). dot_free (cs_key s)"
    by (cases "ad_is_atomic d") auto
qed

text \<open>
  C33: no language model can break the runtime. A scheduler whose decomposer asks one, on a new graph,
  returns with a terminal root, within its budgets of nodes, depth and leaf executions, every
  task that progressed having its dependencies completed, and a completed root meaning that
  everything is completed. Nothing is assumed of the model, the executor or any other port.
\<close>

theorem llm_runtime_sound:
  assumes "create_graph goal cr cap (Some b) gid = Inr g" "0 < tb_max_nodes b" "0 \<le> tb_max_depth b"
    "0 < tb_max_leaf_executions b" "sc_decomposer E = llm_port L"
  shows "\<exists>g' w'. run_scheduler E (g, w) = Inr (Some (g', w')) \<and>
    status_at g' (tg_root_id g') \<in> {Some TS_COMPLETED, Some TS_FAILED, Some TS_BLOCKED} \<and>
    int (tg_leaf_executions g') \<le> tb_max_leaf_executions b \<and> int (length (tg_nodes g')) \<le> tb_max_nodes b \<and>
    (\<forall>k n. node_at g' k = Some n \<longrightarrow> int (nd_depth n) \<le> tb_max_depth b \<and>
      (nd_status n \<in> {TS_READY, TS_RUNNING, TS_WAITING, TS_COMPLETED} \<longrightarrow>
        (\<forall>d\<in>set (nd_dependencies n). status_at g' d = Some TS_COMPLETED)) \<and>
      (status_at g' (tg_root_id g') = Some TS_COMPLETED \<longrightarrow> nd_status n = TS_COMPLETED))"
proof -
  note dots = llm_port_dot_free [OF assms(5)]
  note c = create_valid [OF assms(1-4), of "retry_bound E"]
  then have "graph_wf (fst (g, w))" "validate_task_graph (fst (g, w)) = None" using validated_wf by simp_all
  from run_scheduler_result [OF this(2,1), of True E] dots obtain g' w' where
    r: "run_scheduler E (g, w) = Inr (Some (g', w'))" by auto
  note good = run_created [OF assms(1-4) dots r]
  have "int (nd_depth n) \<le> tb_max_depth b \<and>
      (nd_status n \<in> {TS_READY, TS_RUNNING, TS_WAITING, TS_COMPLETED} \<longrightarrow>
        (\<forall>d\<in>set (nd_dependencies n). status_at g' d = Some TS_COMPLETED))" if "node_at g' k = Some n" for k n
  proof -
    have "node_ok (retry_bound E) g' n" using good that by (auto simp: graph_good_def)
    then show ?thesis using good by (auto simp: node_ok_def dependencies_met_def all_completed_def list_all_iff)
  qed
  moreover have "nd_status n = TS_COMPLETED"
    if "node_at g' k = Some n" "status_at g' (tg_root_id g') = Some TS_COMPLETED" for k n
    using root_completed_all good that by blast
  moreover have "status_at g' (tg_root_id g') \<in> {Some TS_COMPLETED, Some TS_FAILED, Some TS_BLOCKED}"
    using good by (auto simp: root_terminal_def root_node_def status_at_def terminal_status_def split: option.splits)
  moreover have "int (tg_leaf_executions g') \<le> tb_max_leaf_executions b" "int (length (tg_nodes g')) \<le> tb_max_nodes b"
    using good by (auto simp: graph_good_def graph_wf_def)
  ultimately show ?thesis using r by blast
qed

lemma llm_runtime_sound_witness:
  "\<exists>g' w'. run_scheduler ((still_scheduler None [] ok_executor)\<lparr>sc_decomposer := llm_port (example_llm (Inr two_children_answer))\<rparr>)
      (demo_task_graph, 0) = Inr (Some (g', w')) \<and> length (tg_nodes g') \<le> 8 \<and> tg_leaf_executions g' \<le> 4"
proof -
  let ?E = "(still_scheduler None [] ok_executor)\<lparr>sc_decomposer := llm_port (example_llm (Inr two_children_answer))\<rparr>"
  have "sc_decomposer ?E = llm_port (example_llm (Inr two_children_answer))" by simp
  from llm_runtime_sound [OF demo_created _ _ _ this, of 0] show ?thesis by auto
qed

section \<open>Replays\<close>

lemma recorded_entry:
  assumes "list_all2 (\<lambda>(n, g) (d, e). entry_of D n g d e) calls (zip ds es)" "length ds = length calls"
    "length es = length calls" "e \<in> set es"
  shows "\<exists>n g d. (n, g) \<in> set calls \<and> d \<in> set ds \<and> entry_of D n g d e"
proof -
  obtain i where i: "i < length es" "es ! i = e" using assms(4) by (auto simp: in_set_conv_nth)
  obtain n g where c: "calls ! i = (n, g)" by fastforce
  have "entry_of D n g (ds ! i) e"
    using list_all2_nthD2 [OF assms(1), of i] i c assms(2,3) by simp
  moreover have "(n, g) \<in> set calls" "ds ! i \<in> set ds" using i c assms(2,3) nth_mem [of i calls] by auto
  ultimately show ?thesis by blast
qed

lemma entry_sha256:
  assumes "entry_of D n g d e" "\<forall>bs. length (dh_sha256 D bs) = 32"
  shows "is_sha256 (dt_context_sha256 e)"
proof -
  have "context_sha256 D n g = Some (Inr (dt_context_sha256 e))" using assms(1) by (simp add: entry_of_def)
  then obtain v where "dt_context_sha256 e = canonical_sha256 (dh_dumps D) (dh_sha256 D) v"
    by (auto simp: context_sha256_def exc_bind_Inr dest!: sym [of "canonical_sha256 _ _ _"])
  then show ?thesis using assms(2) by (simp add: canonical_sha256_def hexdigest_sha256)
qed

lemma recorded_decisions:
  "list_all2 (\<lambda>(n, g) (d, e). entry_of D n g d e) calls (zip ds es) \<Longrightarrow> length ds = length calls \<Longrightarrow>
    length es = length calls \<Longrightarrow> \<forall>d\<in>set ds. replayable d \<Longrightarrow> map_exc (\<lambda>e. decision_from (dt_decision e)) es = Inr ds"
proof (induction calls arbitrary: ds es)
  case (Cons c calls)
  obtain d ds' where ds: "ds = d # ds'" using Cons.prems(2) by (cases ds) auto
  obtain e es' where es: "es = e # es'" using Cons.prems(3) by (cases es) auto
  have "dt_decision e = decision_dict d" using Cons.prems(1) by (auto simp: ds es entry_of_def split: prod.splits)
  moreover have "map_exc (\<lambda>e. decision_from (dt_decision e)) es' = Inr ds'"
    by (rule Cons.IH) (use Cons.prems in \<open>auto simp: ds es\<close>)
  ultimately show ?case using Cons.prems(4) by (simp add: ds es decision_round_trip)
qed simp

text \<open>Loading checks every decision: the first one that cannot be replayed is the error.\<close>

lemma decision_not_replayable:
  assumes "\<not> replayable d"
  shows "\<exists>e. decision_from (decision_dict d) = Inl e"
proof -
  have keys: "set (dkeys (decision_dict d)) = {''is_atomic'', ''reason'', ''children'', ''leaf''}"
    by (simp add: decision_dict_def dkeys_def)
  have children: "map_exc child_spec_from (map (\<lambda>c. PDict (child_spec_dict c)) (ad_children d)) = Inr (ad_children d)"
    by (rule map_exc_Inr) (rule child_spec_round_trip)
  have leaf: "leaf_spec_from (case ad_leaf d of None \<Rightarrow> PNone | Some l \<Rightarrow> PDict (leaf_spec_dict l)) = Inr (ad_leaf d)"
    by (cases "ad_leaf d") (simp_all add: leaf_spec_round_trip, simp add: leaf_spec_from_def)
  show ?thesis
    unfolding decision_from_def keys
    using assms by (auto simp: decision_dict_def dget_or_def dget_def [symmetric] children leaf replayable_def split: if_splits)
qed

lemma recorded_decisions_refused:
  "list_all2 (\<lambda>(n, g) (d, e). entry_of D n g d e) calls (zip ds es) \<Longrightarrow> length ds = length calls \<Longrightarrow>
    length es = length calls \<Longrightarrow> \<not> (\<forall>d\<in>set ds. replayable d) \<Longrightarrow> \<exists>x. map_exc (\<lambda>e. decision_from (dt_decision e)) es = Inl x"
proof (induction calls arbitrary: ds es)
  case (Cons c calls)
  obtain d ds' where ds: "ds = d # ds'" using Cons.prems(2) by (cases ds) auto
  obtain e es' where es: "es = e # es'" using Cons.prems(3) by (cases es) auto
  have dec: "dt_decision e = decision_dict d" using Cons.prems(1) by (auto simp: ds es entry_of_def split: prod.splits)
  show ?case
  proof (cases "replayable d")
    case True
    then have "\<not> (\<forall>d\<in>set ds'. replayable d)" using Cons.prems(4) by (simp add: ds)
    then obtain x where "map_exc (\<lambda>e. decision_from (dt_decision e)) es' = Inl x"
      using Cons.IH [of ds' es'] Cons.prems(1-3) by (auto simp: ds es)
    with True dec show ?thesis by (simp add: es decision_round_trip)
  next
    case False
    from decision_not_replayable [OF this] dec show ?thesis by (auto simp: es)
  qed
qed simp

lemma recorded_check:
  assumes "record_all D delegate calls ([], w) = Some (ds, es, w')" "\<forall>bs. length (dh_sha256 D bs) = 32"
  shows "check_trace es = Inr es \<longleftrightarrow> (\<forall>d\<in>set ds. replayable d) \<and> (\<forall>(n, g)\<in>set calls. strip (nd_id n) \<noteq> [])"
    "check_trace es = Inr es \<or> (\<exists>x. check_trace es = Inl x)"
proof -
  from record_all_entries [OF assms(1)] have es: "distinct (map dt_node_id es)" "length ds = length calls"
    "list_all2 (\<lambda>(n, g) (d, e). entry_of D n g d e) calls (zip ds es)" "length es = length calls" by auto
  have digests: "is_sha256 (dt_context_sha256 e)" if "e \<in> set es" for e
    using recorded_entry [OF es(3,2,4) that] entry_sha256 [OF _ assms(2)] by blast
  have "map dt_node_id es = map (\<lambda>(n, g). nd_id n) calls"
    using es(2-4) by (auto simp: list_all2_conv_all_nth entry_of_def split: prod.splits intro!: nth_equalityI)
  then have "dt_node_id ` set es = (\<lambda>(n, g). nd_id n) ` set calls" by (metis set_map)
  then have "(\<forall>k\<in>dt_node_id ` set es. strip k \<noteq> []) \<longleftrightarrow> (\<forall>k\<in>(\<lambda>(n, g). nd_id n) ` set calls. strip k \<noteq> [])" by simp
  then have ids: "(\<forall>e\<in>set es. strip (dt_node_id e) \<noteq> []) \<longleftrightarrow> (\<forall>(n, g)\<in>set calls. strip (nd_id n) \<noteq> [])"
    by (simp add: case_prod_beta)
  show "check_trace es = Inr es \<longleftrightarrow> (\<forall>d\<in>set ds. replayable d) \<and> (\<forall>(n, g)\<in>set calls. strip (nd_id n) \<noteq> [])"
  proof (cases "\<forall>d\<in>set ds. replayable d")
    case True
    with recorded_decisions [OF es(3,2,4)] es(1) digests show ?thesis
      unfolding ids [symmetric] by (auto simp: check_trace_def list_ex_iff)
  next
    case False
    with recorded_decisions_refused [OF es(3,2,4)] obtain x where
      "map_exc (\<lambda>e. decision_from (dt_decision e)) es = Inl x" by blast
    with False show ?thesis by (simp add: check_trace_def)
  qed
  show "check_trace es = Inr es \<or> (\<exists>x. check_trace es = Inl x)"
    by (cases "map_exc (\<lambda>e. decision_from (dt_decision e)) es") (auto simp: check_trace_def)
qed

lemma load_saved_trace:
  assumes "codec_ok J"
  shows "load_trace J path (save_trace J path es files) = check_trace es"
proof -
  have "map_exc trace_entry_from (map (\<lambda>e. PDict (trace_entry_dict e)) es) = Inr es"
    by (rule map_exc_Inr) (rule trace_entry_round_trip)
  then show ?thesis
    by (simp add: load_trace_def save_trace_def codec_loads_line [OF assms] eq_num_def dget_or_def)
qed

text \<open>
  C34: when a recorder has answered a sequence of requests, its trace can be saved, and loading what was saved gives the
  trace back exactly when every decision is one that can be replayed (an atomic one without children, or one with
  children and no leaf) and the ids of the nodes are not blank; otherwise loading raises. When the decisions can be
  replayed, a player on the trace answers the same requests with the same decisions, checks every context, and has
  no entry left over.
\<close>

theorem recorded_trace_replays:
  assumes "codec_ok J" "\<forall>bs. length (dh_sha256 D bs) = 32"
    "record_all D delegate calls ([], w) = Some (ds, es, w')"
  shows "(if (\<forall>d\<in>set ds. replayable d) \<and> (\<forall>(n, g)\<in>set calls. strip (nd_id n) \<noteq> [])
      then load_trace J path (save_trace J path es files) = Inr es
      else \<exists>x. load_trace J path (save_trace J path es files) = Inl x) \<and>
    ((\<forall>d\<in>set ds. replayable d) \<longrightarrow> (\<exists>used. replay_all D (trace_table es) calls [] = Some (ds, used) \<and>
      unused_node_ids (trace_table es) used = []))"
proof -
  from record_all_entries [OF assms(3)] have es: "distinct (map dt_node_id es)" "length ds = length calls"
    "list_all2 (\<lambda>(n, g) (d, e). entry_of D n g d e) calls (zip ds es)" "length es = length calls" by auto
  have "\<forall>e\<in>set es. dget (trace_table es) (dt_node_id e) = Some e" using trace_table_get es(1) by blast
  from replay_all_entries [OF es(3,2,4) this es(1), of "[]"]
  have "(\<forall>d\<in>set ds. replayable d) \<longrightarrow> replay_all D (trace_table es) calls [] = Some (ds, rev (map dt_node_id es))" by simp
  moreover have "unused_node_ids (trace_table es) (rev (map dt_node_id es)) = []"
  proof -
    have "set (dkeys (trace_table es)) = dt_node_id ` set es"
      using dkeys_fold_dset [of "map (\<lambda>e. (dt_node_id e, e)) es" "[]"]
      by (simp add: trace_table_def dupdate_def dkeys_def image_image)
    then have "filter (\<lambda>k. k \<notin> set (rev (map dt_node_id es))) (dkeys (trace_table es)) = []"
      by (auto simp: filter_empty_conv)
    then show ?thesis by (simp add: unused_node_ids_def)
  qed
  ultimately show ?thesis
    using recorded_check [OF assms(3,2)] unfolding load_saved_trace [OF assms(1)] by auto
qed

definition example_digest :: digest_host where
  "example_digest = \<lparr>dh_dumps = (\<lambda>v. []), dh_sha256 = (\<lambda>bs. replicate 32 0)\<rparr>"

text \<open>A split is recorded, loaded and replayed; a decision to split into nothing is recorded as well, but what is saved
  of it is refused.\<close>

theorem recorded_trace_replays_witness:
  "\<exists>ds es used. record_all example_digest (scripted_assess two_steps) [(new_node ''root'' ''g'', demo_task_graph)] ([], ()) =
      Some (ds, es, ()) \<and> length ds = 1 \<and> load_trace tally_codec ''t'' (save_trace tally_codec ''t'' es []) = Inr es \<and>
    replay_all example_digest (trace_table es) [(new_node ''root'' ''g'', demo_task_graph)] [] = Some (ds, used) \<and>
    (\<exists>ds es x. record_all example_digest (scripted_assess [(''root'', [])]) [(new_node ''root'' ''g'', demo_task_graph)] ([], ()) =
      Some (ds, es, ()) \<and> load_trace tally_codec ''t'' (save_trace tally_codec ''t'' es []) = Inl x)"
proof -
  let ?calls = "[(new_node ''root'' ''g'', demo_task_graph)]"
  let ?d = "\<lambda>children. \<lparr>ad_is_atomic = False, ad_reason = ''scripted decomposition is available'',
    ad_children = children, ad_leaf = None\<rparr>"
  obtain es where rec: "record_all example_digest (scripted_assess two_steps) ?calls ([], ()) = Some ([?d (snd (hd two_steps))], es, ())"
    by (simp add: record_assess_def scripted_assess_def two_steps_def new_node_def context_sha256_def node_ancestors_def
        demo_task_graph_def)
  obtain es0 where rec0: "record_all example_digest (scripted_assess [(''root'', [])]) ?calls ([], ()) = Some ([?d []], es0, ())"
    by (simp add: record_assess_def scripted_assess_def new_node_def context_sha256_def node_ancestors_def
        demo_task_graph_def)
  have "strip ''root'' = ''root''" by (rule strip_fixed) (simp add: py_space_def)
  then have ids: "\<forall>(n, g)\<in>set ?calls. strip (nd_id n) \<noteq> []" by (simp add: new_node_def)
  have sha: "\<forall>bs. length (dh_sha256 example_digest bs) = 32" by (simp add: example_digest_def)
  have "\<forall>d\<in>set [?d (snd (hd two_steps))]. replayable d" by (simp add: replayable_def two_steps_def)
  with ids recorded_trace_replays [OF tally_codec_ok sha rec, of "''t''" "[]"] obtain used where
    "load_trace tally_codec ''t'' (save_trace tally_codec ''t'' es []) = Inr es"
    "replay_all example_digest (trace_table es) ?calls [] = Some ([?d (snd (hd two_steps))], used)" by (auto split: if_splits)
  moreover have "\<not> (\<forall>d\<in>set [?d []]. replayable d)" by (simp add: replayable_def)
  with recorded_trace_replays [OF tally_codec_ok sha rec0, of "''t''" "[]"]
  obtain x where "load_trace tally_codec ''t'' (save_trace tally_codec ''t'' es0 []) = Inl x" by (auto split: if_splits)
  ultimately show ?thesis using rec rec0 by (intro exI conjI) auto
qed

section \<open>Rankings\<close>













section \<open>Composed checks\<close>

lemma run_checks_results:
  "run_checks vs n g names w = (results, w') \<Longrightarrow>
    map fst results = names \<and> (\<forall>(name, r)\<in>set results. lr_status r \<in> {''completed'', ''blocked'', ''failed''})"
proof (induction names arbitrary: w results)
  case (Cons name names)
  have "lr_status (check_result out) \<in> {''completed'', ''blocked'', ''failed''}" for out
    by (auto simp: check_result_def plain_result_def split: sum.split check_value.split)
  moreover obtain out w1 rest where "run_checks vs n g names w1 = (rest, w')" "results = (name, check_result out) # rest"
    using Cons.prems by (auto split: prod.splits)
  ultimately show ?case using Cons.IH by simp
qed simp

lemma resolve_route_referenced:
  "resolve_route p n = Some (route, plan, sel) \<Longrightarrow> set plan \<subseteq> set (referenced_names p)"
  by (auto simp: resolve_route_def referenced_names_def dget_def find_Some_iff dest!: map_of_SomeD split: option.splits)

lemma mk_composite_registered:
  assumes "mk_composite verifiers policy = Inr V"
  shows "cv_policy V = policy" "set (referenced_names policy) \<subseteq> set (dkeys (cv_verifiers V))"
proof -
  obtain d where "V = \<lparr>cv_verifiers = d, cv_policy = policy\<rparr>"
    "sort (remdups (filter (\<lambda>name. name \<notin> set (dkeys d)) (referenced_names policy))) = []"
    using assms by (auto simp: mk_composite_def exc_bind_Inr Let_def split: if_splits)
  moreover from this(2) have "filter (\<lambda>name. name \<notin> set (dkeys d)) (referenced_names policy) = []"
    by (metis remdups_eq_nil_iff set_empty set_sort)
  ultimately show "cv_policy V = policy" "set (referenced_names policy) \<subseteq> set (dkeys (cv_verifiers V))"
    by (auto simp: filter_empty_conv)
qed

lemma with_status_iff: "with_status st results = None \<longleftrightarrow> (\<forall>(name, r)\<in>set results. lr_status r \<noteq> st)"
  by (auto simp: with_status_def find_None_iff)

lemma composite_verdict_status:
  "lr_status (composite_verdict results) =
    (if \<exists>(name, r)\<in>set results. lr_status r = ''failed'' then ''failed''
     else if \<exists>(name, r)\<in>set results. lr_status r = ''blocked'' then ''blocked'' else ''completed'')"
  using with_status_iff [of "''failed''" results] with_status_iff [of "''blocked''" results]
  by (auto simp: composite_verdict_def plain_result_def split: option.split)

lemma children_error_iff:
  "children_error n g = None \<longleftrightarrow> nd_children n \<noteq> [] \<and> (\<forall>k\<in>set (nd_children n). status_at g k = Some TS_COMPLETED)"
  by (auto simp: children_error_def Let_def filter_empty_conv status_at_def)

text \<open>
  The composed check of a parent. With children missing or unfinished, or without a route, it
  blocks and runs no verifier. Otherwise it runs every verifier of the routed plan, all of them
  registered, once and in order, whatever the earlier ones gave; one that raises or returns
  anything else than a result counts as failed; and the parent passes exactly when all of them
  pass, fails when one fails, and is blocked otherwise.
\<close>

theorem composite_verdict_exact:
  assumes "mk_composite verifiers policy = Inr V"
  shows "case composite_verify V n g w of (r, w'') \<Rightarrow>
    if nd_children n = [] \<or> (\<exists>k\<in>set (nd_children n). status_at g k \<noteq> Some TS_COMPLETED) \<or> resolve_route policy n = None
    then lr_status r = ''blocked'' \<and> w'' = w
    else (\<exists>route plan sel results. resolve_route policy n = Some (route, plan, sel) \<and>
      set plan \<subseteq> set (dkeys (cv_verifiers V)) \<and> run_checks (cv_verifiers V) n g plan w = (results, w'') \<and>
      map fst results = plan \<and> (\<forall>(name, x)\<in>set results. lr_status x \<in> {''completed'', ''blocked'', ''failed''}) \<and>
      lr_status r = (if \<exists>(name, x)\<in>set results. lr_status x = ''failed'' then ''failed''
        else if \<exists>(name, x)\<in>set results. lr_status x = ''blocked'' then ''blocked'' else ''completed''))"
proof (cases "children_error n g")
  case (Some e)
  then have "nd_children n = [] \<or> (\<exists>k\<in>set (nd_children n). status_at g k \<noteq> Some TS_COMPLETED)"
    using children_error_iff [of n g] by auto
  with Some show ?thesis by (auto simp: composite_verify_def plain_result_def)
next
  case None
  then have ready: "\<not> (nd_children n = [] \<or> (\<exists>k\<in>set (nd_children n). status_at g k \<noteq> Some TS_COMPLETED))"
    using children_error_iff [of n g] by auto
  note V = mk_composite_registered [OF assms]
  show ?thesis
  proof (cases "resolve_route policy n")
    case none: None
    with None V(1) show ?thesis by (simp add: composite_verify_def plain_result_def)
  next
    case (Some res)
    obtain route plan sel where res: "resolve_route policy n = Some (route, plan, sel)" using Some by (cases res) auto
    obtain results w' where run: "run_checks (cv_verifiers V) n g plan w = (results, w')" by fastforce
    have "composite_verify V n g w = ((composite_verdict results)\<lparr>lr_evidence :=
        composite_evidence route plan sel results (child_evidence n g)\<rparr>, w')"
      using None V(1) res run by (simp add: composite_verify_def)
    moreover have "set plan \<subseteq> set (dkeys (cv_verifiers V))" using resolve_route_referenced [OF res] V(2) by blast
    ultimately show ?thesis
      using ready res run run_checks_results [OF run] by (simp add: composite_verdict_status)
  qed
qed

text \<open>A parent with one completed child, checked by a verifier that passes and one that raises.\<close>

definition checked_parent :: task_graph where
  "checked_parent = demo_task_graph\<lparr>tg_nodes := [(''root'', (new_node ''root'' ''g'')\<lparr>nd_children := [''root.a'']\<rparr>),
     (''root.a'', (new_node ''root.a'' ''g'')\<lparr>nd_status := TS_COMPLETED\<rparr>)]\<rparr>"

definition example_checks :: "(string \<times> nat integration_check) list" where
  "example_checks = [(''pass'', \<lambda>n g w. (Inr (Check_Result (completed_result ''ok'' [])), Suc w)),
     (''crash'', \<lambda>n g w. (Inl (RuntimeError ''x''), Suc w))]"

definition example_composition :: composition_policy where
  "example_composition = \<lparr>cp_routes = [], cp_selector_routes = [], cp_default_plan = Some [''crash'', ''pass'']\<rparr>"

lemma composite_verdict_exact_witness:
  "\<exists>V. mk_composite example_checks example_composition = Inr V \<and>
    (case composite_verify V ((new_node ''root'' ''g'')\<lparr>nd_children := [''root.a'']\<rparr>) checked_parent 0 of
      (r, w) \<Rightarrow> lr_status r = ''failed'' \<and> w = 2)"
proof -
  define n where "n = (new_node ''root'' ''g'')\<lparr>nd_children := [''root.a'']\<rparr>"
  have strips: "strip ''pass'' = ''pass''" "strip ''crash'' = ''crash''" by code_simp+
  obtain V where V: "mk_composite example_checks example_composition = Inr V"
    and Vs: "cv_verifiers V = example_checks"
    by (simp add: mk_composite_def example_checks_def example_composition_def referenced_names_def strips Let_def dkeys_def
        dset_def)
  have route: "resolve_route example_composition n = Some (''default'', [''crash'', ''pass''], None)"
    by (simp add: resolve_route_def example_composition_def)
  have "\<not> (nd_children n = [] \<or> (\<exists>k\<in>set (nd_children n). status_at checked_parent k \<noteq> Some TS_COMPLETED) \<or>
      resolve_route example_composition n = None)"
    using route by (simp add: n_def checked_parent_def status_at_def node_at_def)
  moreover have run: "run_checks example_checks n checked_parent [''crash'', ''pass''] 0 =
      ([(''crash'', check_result (Inl (RuntimeError ''x''))), (''pass'', completed_result ''ok'' [])], 2)"
    by (simp add: example_checks_def check_result_def completed_result_def)
  moreover obtain r v where rv: "composite_verify V n checked_parent 0 = (r, v)" by fastforce
  ultimately have "v = 2 \<and> lr_status r = ''failed''"
    using composite_verdict_exact [OF V, of n checked_parent 0] route Vs
    by (simp add: check_result_def plain_result_def split: if_splits)
  with V rv show ?thesis by (auto simp: n_def)
qed

end
