(* ===== verification/Workspace_Files.thy ===== *)
theory Workspace_Files
  imports Loop_Adapters Py_Text
begin

text \<open>
  The bounded file tools of one workspace (\<open>loop_engine/adapters/filesystem.py\<close>) over a tree of
  files, directories and symbolic links, with POSIX paths: how a path given by a caller is
  normalised, checked and resolved, and the tools \<open>list_files\<close>, \<open>read_text\<close>, \<open>search_text\<close> and
  \<open>apply_patch\<close>. A tree lists its entries in the order in which directories are scanned. Hashing,
  the replacement of undecodable bytes, the text of values that are not strings, and regular
  expressions are arguments; texts hold code points below 256, and bytes that encode others do not
  decode in this model. Names hold no NUL.
\<close>

section \<open>Paths\<close>

text \<open>A path is its anchor (empty for a relative one) and its parts, where \<open>.\<close> and empty parts are
  dropped and \<open>..\<close> is kept.\<close>

type_synonym py_path = "string \<times> string list"

definition path_anchor :: "string \<Rightarrow> string" where
  "path_anchor s = (if prefix ''//'' s \<and> \<not> prefix ''///'' s then ''//''
     else if prefix ''/'' s then ''/'' else [])"

definition py_path_of :: "string \<Rightarrow> py_path" where
  "py_path_of s = (path_anchor s, filter (\<lambda>p. p \<noteq> [] \<and> p \<noteq> ''.'') (split_char CHR ''/'' s))"

definition path_str :: "py_path \<Rightarrow> string" where
  "path_str p = (if fst p = [] \<and> snd p = [] then ''.'' else fst p @ str_join ''/'' (snd p))"

text \<open>\<open>os.path.abspath\<close> of an absolute path: \<open>..\<close> drops the part before it, and nothing at the
  top.\<close>

definition lexical_parts :: "string list \<Rightarrow> string list" where
  "lexical_parts ps = fold (\<lambda>p cur. if p = ''..'' then butlast cur else cur @ [p]) ps []"

section \<open>Trees\<close>

datatype fs_entry = File_Entry "8 word list" | Dir_Entry | Link_Entry bool "string list"

type_synonym file_tree = "(string list \<times> fs_entry) list"

definition tree_at :: "file_tree \<Rightarrow> string list \<Rightarrow> fs_entry option" where
  "tree_at t p = (if p = [] then Some Dir_Entry else map_of t p)"

definition tree_put :: "string list \<Rightarrow> fs_entry \<Rightarrow> file_tree \<Rightarrow> file_tree" where
  "tree_put p e t = AList.update p e t"

definition tree_del :: "string list \<Rightarrow> file_tree \<Rightarrow> file_tree" where
  "tree_del p t = filter (\<lambda>(q, e). q \<noteq> p) t"

fun is_link :: "fs_entry option \<Rightarrow> bool" where
  "is_link (Some (Link_Entry a ps)) = True"
| "is_link _ = False"

fun is_file :: "fs_entry option \<Rightarrow> bool" where
  "is_file (Some (File_Entry b)) = True"
| "is_file _ = False"

definition os_error :: "string \<Rightarrow> string list \<Rightarrow> py_exc" where
  "os_error name p = PyExc name (path_str (''/'', p))"

text \<open>
  \<open>os.path.realpath\<close>: part by part, following links; \<open>..\<close> goes up from where the links have led.
  A missing part is an error, or allowed at the end only (a file to be created). The number of
  links that may still be followed is the operating system's limit.
\<close>

function resolve_parts :: "bool \<Rightarrow> nat \<Rightarrow> file_tree \<Rightarrow> string list \<Rightarrow> string list \<Rightarrow> py_exc + string list" where
  "resolve_parts strict n t cur [] = Inr cur"
| "resolve_parts strict n t cur (p # ps) =
     (if p = ''..'' then resolve_parts strict n t (butlast cur) ps
      else case tree_at t (cur @ [p]) of
        None \<Rightarrow> if \<not> strict \<and> ps = [] then Inr (cur @ [p])
          else Inl (os_error (if is_file (tree_at t cur) then ''NotADirectoryError'' else ''FileNotFoundError'') (cur @ [p]))
      | Some (Link_Entry absolute target) \<Rightarrow> (case n of
            0 \<Rightarrow> Inl (os_error ''OSError'' (cur @ [p]))
          | Suc m \<Rightarrow> resolve_parts strict m t (if absolute then [] else cur) (target @ ps))
      | Some _ \<Rightarrow> resolve_parts strict n t (cur @ [p]) ps)"
  by pat_completeness auto

termination by (relation "measures [\<lambda>(strict, n, t, cur, ps). n, \<lambda>(strict, n, t, cur, ps). length ps]") auto

section \<open>The workspace\<close>

record workspace =
  wk_root :: "string list"
  wk_max_read_bytes :: int
  wk_max_list_entries :: int
  wk_max_search_matches :: int
  wk_link_limit :: nat
  wk_sha256 :: "8 word list \<Rightarrow> 8 word list"
  wk_decode_replace :: "8 word list \<Rightarrow> string"
  wk_str :: "pyval \<Rightarrow> string"
  wk_regex :: "string \<Rightarrow> bool \<Rightarrow> py_exc + (string \<Rightarrow> bool)"

text \<open>\<open>__init__\<close>, from the resolved root.\<close>

definition open_workspace :: "workspace \<Rightarrow> file_tree \<Rightarrow> py_exc + workspace" where
  "open_workspace W t = (if tree_at t (wk_root W) = Some Dir_Entry then Inr W
     else Inl (ValueError (''workspace does not exist: '' @ path_str (''/'', wk_root W))))"

text \<open>\<open>str(value)\<close>.\<close>

definition text_of :: "workspace \<Rightarrow> pyval \<Rightarrow> string" where
  "text_of W v = (case v of PStr s \<Rightarrow> s | _ \<Rightarrow> wk_str W v)"

definition is_protected :: "string list \<Rightarrow> bool" where
  "is_protected relative \<longleftrightarrow>
     list_ex (\<lambda>p. p \<in> {''.git'', ''__pycache__'', ''.pytest_cache''}) relative \<or>
     (let name = (if relative = [] then [] else last relative) in
      name = ''.env'' \<or> (prefix ''.env.'' name \<and> name \<noteq> ''.env.example''))"

text \<open>\<open>path.relative_to(root)\<close>.\<close>

definition relative_to :: "string list \<Rightarrow> string list \<Rightarrow> string list option" where
  "relative_to base p = (if prefix base p then Some (drop (length base) p) else None)"

definition not_in_subpath :: "workspace \<Rightarrow> string list \<Rightarrow> py_exc" where
  "not_in_subpath W p = ValueError (repr_str (path_str (''/'', p)) @ '' is not in the subpath of '' @
     repr_str (path_str (''/'', wk_root W)))"

definition is_ignored :: "workspace \<Rightarrow> file_tree \<Rightarrow> string list \<Rightarrow> bool" where
  "is_ignored W t p \<longleftrightarrow> is_link (tree_at t p) \<or>
     (case relative_to (wk_root W) p of None \<Rightarrow> True | Some relative \<Rightarrow> is_protected relative)"

definition required_arg :: "pydict \<Rightarrow> string \<Rightarrow> py_exc + pyval" where
  "required_arg args name = (case dget args name of
      None \<Rightarrow> Inl (ValueError (name @ '' is required'')) | Some v \<Rightarrow> Inr v)"

datatype wanted_kind = Want_File | Want_Directory

definition kind_error :: "wanted_kind \<Rightarrow> file_tree \<Rightarrow> string list \<Rightarrow> py_exc option" where
  "kind_error k t p = (case k of
      Want_File \<Rightarrow> if is_file (tree_at t p) then None
        else Some (ValueError (''path is not a file: '' @ path_str (''/'', p)))
    | Want_Directory \<Rightarrow> if tree_at t p = Some Dir_Entry then None
        else Some (ValueError (''path is not a directory: '' @ path_str (''/'', p))))"

definition candidate_path :: "workspace \<Rightarrow> string \<Rightarrow> py_path" where
  "candidate_path W s = (let p = py_path_of s in
     if fst p = [] then (''/'', wk_root W @ snd p) else p)"

definition resolve_existing :: "workspace \<Rightarrow> file_tree \<Rightarrow> wanted_kind \<Rightarrow> pyval \<Rightarrow> py_exc + string list" where
  "resolve_existing W t kind v = (case v of
      PStr s \<Rightarrow>
        let candidate = candidate_path W s; lexical = lexical_parts (snd candidate) in
        (case if fst candidate = ''/'' then relative_to (wk_root W) lexical else None of
           None \<Rightarrow> Inl (ValueError (''path escapes workspace: '' @ path_str (fst candidate, lexical)))
         | Some relative \<Rightarrow>
             if is_protected relative then Inl (ValueError (''path is protected: '' @ path_str ([], relative)))
             else if list_ex (\<lambda>i. is_link (tree_at t (wk_root W @ take i relative))) [1..<Suc (length relative)]
               then Inl (ValueError (''symlink paths are not allowed: '' @ path_str ([], relative)))
             else exc_bind (resolve_parts True (wk_link_limit W) t [] (snd candidate)) (\<lambda>resolved.
               case kind_error kind t resolved of Some e \<Rightarrow> Inl e | None \<Rightarrow> Inr resolved))
    | _ \<Rightarrow> Inl (TypeError ''argument should be a str or an os.PathLike object''))"

section \<open>Reading\<close>

definition bounded_limit :: "int \<Rightarrow> int \<Rightarrow> nat" where
  "bounded_limit requested bound = nat (min (max 1 requested) bound)"

text \<open>\<open>base.rglob("*")\<close> and \<open>base.iterdir()\<close>: neither follows links to directories, whose entries are
  under another path.\<close>

definition below :: "file_tree \<Rightarrow> string list \<Rightarrow> bool \<Rightarrow> string list list" where
  "below t base recursive = filter (\<lambda>p. strict_prefix base p \<and> (recursive \<or> length p = Suc (length base))) (map fst t)"

definition shown_entry :: "workspace \<Rightarrow> file_tree \<Rightarrow> string list \<Rightarrow> pyval" where
  "shown_entry W t p = PDict
     [(''path'', PStr (path_str ([], drop (length (wk_root W)) p))),
      (''type'', PStr (if tree_at t p = Some Dir_Entry then ''directory'' else ''file'')),
      (''size'', case tree_at t p of Some (File_Entry b) \<Rightarrow> PInt (int (length b)) | _ \<Rightarrow> PNone)]"

definition list_files :: "workspace \<Rightarrow> file_tree \<Rightarrow> pydict \<Rightarrow> py_exc + pydict" where
  "list_files W t args =
     exc_bind (resolve_existing W t Want_Directory (dget_or (PStr ''.'') args ''path'')) (\<lambda>base.
     exc_bind (py_int (dget_or (PInt (wk_max_list_entries W)) args ''max_entries'')) (\<lambda>requested.
       let limit = bounded_limit requested (wk_max_list_entries W);
           recursive = truthy (dget_or (PBool True) args ''recursive'');
           visible = filter (\<lambda>p. \<not> is_ignored W t p) (below t base recursive)
       in Inr [(''entries'', PList (map (shown_entry W t) (take limit visible))),
            (''truncated'', PBool (limit < length visible)),
            (''root'', PStr (path_str (''/'', wk_root W)))]))"

definition file_bytes :: "file_tree \<Rightarrow> string list \<Rightarrow> 8 word list" where
  "file_bytes t p = (case tree_at t p of Some (File_Entry b) \<Rightarrow> b | _ \<Rightarrow> [])"

definition shown_path :: "workspace \<Rightarrow> string list \<Rightarrow> py_exc + string" where
  "shown_path W p = (case relative_to (wk_root W) p of
      None \<Rightarrow> Inl (not_in_subpath W p) | Some relative \<Rightarrow> Inr (path_str ([], relative)))"

definition read_text :: "workspace \<Rightarrow> file_tree \<Rightarrow> pydict \<Rightarrow> py_exc + pydict" where
  "read_text W t args =
     exc_bind (required_arg args ''path'') (\<lambda>v.
     exc_bind (resolve_existing W t Want_File v) (\<lambda>path.
     exc_bind (py_int (dget_or (PInt (wk_max_read_bytes W)) args ''max_bytes'')) (\<lambda>requested.
       let limit = bounded_limit requested (wk_max_read_bytes W); data = file_bytes t path in
       exc_bind (shown_path W path) (\<lambda>shown.
         Inr [(''path'', PStr shown),
           (''text'', PStr (wk_decode_replace W (take limit data))),
           (''size'', PInt (int (length data))),
           (''sha256'', PStr (hexdigest (wk_sha256 W data))),
           (''truncated'', PBool (int (length data) > min (max 1 requested) (wk_max_read_bytes W)))]))))"

definition searchable_lines :: "workspace \<Rightarrow> file_tree \<Rightarrow> string list \<Rightarrow> string list" where
  "searchable_lines W t p = (case tree_at t p of
      Some (File_Entry b) \<Rightarrow>
        if is_ignored W t p \<or> int (length b) > wk_max_read_bytes W then []
        else (case utf8_decode b of None \<Rightarrow> [] | Some s \<Rightarrow> split_lines (universal_newlines s))
    | _ \<Rightarrow> [])"

definition line_matches :: "workspace \<Rightarrow> file_tree \<Rightarrow> (string \<Rightarrow> bool) \<Rightarrow> string list \<Rightarrow> pyval list" where
  "line_matches W t matches p = map (\<lambda>(i, l). PDict
       [(''path'', PStr (path_str ([], drop (length (wk_root W)) p))), (''line'', PInt (int i)), (''text'', PStr l)])
     (filter (\<lambda>(i, l). matches l) (enumerate 1 (searchable_lines W t p)))"

definition search_text :: "workspace \<Rightarrow> file_tree \<Rightarrow> pydict \<Rightarrow> py_exc + pydict" where
  "search_text W t args =
     exc_bind (resolve_existing W t Want_Directory (dget_or (PStr ''.'') args ''path'')) (\<lambda>base.
     exc_bind (required_arg args ''query'') (\<lambda>q.
     exc_bind (py_int (dget_or (PInt (wk_max_search_matches W)) args ''max_matches'')) (\<lambda>requested.
       let query = text_of W q;
           limit = bounded_limit requested (wk_max_search_matches W);
           pattern = (if truthy (dget_or (PBool False) args ''regex'') then query else re_escape query)
       in exc_bind (wk_regex W pattern (\<not> truthy (dget_or (PBool True) args ''case_sensitive''))) (\<lambda>matches.
         let found = concat (map (line_matches W t matches) (below t base True))
         in Inr [(''matches'', PList (take limit found)), (''truncated'', PBool (limit < length found)),
              (''query'', PStr query)]))))"

section \<open>Patching\<close>

text \<open>\<open>write_bytes\<close>: opening for writing follows links and creates a missing file in an existing
  directory.\<close>

definition write_bytes :: "workspace \<Rightarrow> file_tree \<Rightarrow> string list \<Rightarrow> 8 word list \<Rightarrow> py_exc + file_tree" where
  "write_bytes W t p b = exc_bind (resolve_parts False (wk_link_limit W) t [] p) (\<lambda>q.
     if tree_at t q = Some Dir_Entry then Inl (os_error ''IsADirectoryError'' q)
     else if tree_at t (butlast q) \<noteq> Some Dir_Entry then Inl (os_error ''NotADirectoryError'' q)
     else Inr (tree_put q (File_Entry b) t))"

text \<open>\<open>os.replace(temporary, path)\<close>: the entry itself is moved, a link included.\<close>

definition move_entry :: "string list \<Rightarrow> string list \<Rightarrow> file_tree \<Rightarrow> file_tree" where
  "move_entry source target t = (case tree_at t source of
      None \<Rightarrow> t | Some e \<Rightarrow> tree_put target e (tree_del source t))"

text \<open>The \<open>finally\<close> block after a failed write: an existing temporary is unlinked, which raises for a
  directory.\<close>

definition discard_temporary :: "workspace \<Rightarrow> string list \<Rightarrow> py_exc \<Rightarrow> file_tree \<Rightarrow> py_exc \<times> file_tree" where
  "discard_temporary W temporary e t = (case resolve_parts True (wk_link_limit W) t [] temporary of
      Inl _ \<Rightarrow> (e, t)
    | Inr _ \<Rightarrow> if tree_at t temporary = Some Dir_Entry then (os_error ''IsADirectoryError'' temporary, t)
        else (e, tree_del temporary t))"

definition temporary_name :: "workspace \<Rightarrow> string \<Rightarrow> string list \<Rightarrow> string list" where
  "temporary_name W run_id path = butlast path @
     [''.'' @ last path @ ''.'' @ take 12 (hexdigest (wk_sha256 W (utf8 run_id))) @ ''.tmp'']"

definition replace_file ::
  "workspace \<Rightarrow> string \<Rightarrow> string list \<Rightarrow> 8 word list \<Rightarrow> file_tree \<Rightarrow> (py_exc + unit) \<times> file_tree" where
  "replace_file W run_id path b t = (let temporary = temporary_name W run_id path in
     case write_bytes W t temporary b of
       Inr t' \<Rightarrow> (Inr (), move_entry temporary path t')
     | Inl e \<Rightarrow> (let (e', t') = discard_temporary W temporary e t in (Inl e', t')))"

text \<open>The checks before anything is written: the path, the occurrences expected, the digest and the
  new text, or the answer that the patch is there already.\<close>

record patch_request =
  pa_path :: "string list"
  pa_old :: string
  pa_new :: string
  pa_expected :: int

definition patch_arguments :: "workspace \<Rightarrow> file_tree \<Rightarrow> pydict \<Rightarrow> py_exc + patch_request" where
  "patch_arguments W t args =
     exc_bind (required_arg args ''path'') (\<lambda>v.
     exc_bind (resolve_existing W t Want_File v) (\<lambda>path.
     exc_bind (required_arg args ''old_text'') (\<lambda>old_value.
     exc_bind (py_int (dget_or (PInt 1) args ''expected_replacements'')) (\<lambda>expected.
       let old = text_of W old_value; new = text_of W (dget_or (PStr []) args ''new_text'') in
       if old = [] then Inl (ValueError ''old_text must not be empty'')
       else if expected \<le> 0 then Inl (ValueError ''expected_replacements must be positive'')
       else Inr \<lparr>pa_path = path, pa_old = old, pa_new = new, pa_expected = expected\<rparr>))))"

definition patch_source :: "workspace \<Rightarrow> file_tree \<Rightarrow> pydict \<Rightarrow> string list \<Rightarrow> py_exc + string" where
  "patch_source W t args path =
     (let raw = file_bytes t path; expected_sha = dget_or PNone args ''expected_sha256'' in
      if int (length raw) > wk_max_read_bytes W
        then Inl (ValueError (''file exceeds patch size limit: '' @ str_of_int (wk_max_read_bytes W) @ '' bytes''))
      else if truthy expected_sha \<and> hexdigest (wk_sha256 W raw) \<noteq> text_of W expected_sha
        then Inl (ValueError ''file sha256 does not match expected_sha256'')
      else (case utf8_decode raw of
          None \<Rightarrow> Inl (PyExc ''UnicodeDecodeError'' ''invalid utf-8'')
        | Some text \<Rightarrow> Inr text))"

definition patch_report :: "string \<Rightarrow> string \<Rightarrow> int \<Rightarrow> string \<Rightarrow> string \<Rightarrow> pydict" where
  "patch_report shown status count before after = [(''path'', PStr shown), (''status'', PStr status),
     (''replacements'', PInt count), (''before_sha256'', PStr before), (''after_sha256'', PStr after)]"

definition apply_patch :: "workspace \<Rightarrow> pydict \<Rightarrow> string \<Rightarrow> file_tree \<Rightarrow> (py_exc + pydict) \<times> file_tree" where
  "apply_patch W args run_id t = (case patch_arguments W t args of
      Inl e \<Rightarrow> (Inl e, t)
    | Inr q \<Rightarrow> (case patch_source W t args (pa_path q) of
        Inl e \<Rightarrow> (Inl e, t)
      | Inr text \<Rightarrow>
          let path = pa_path q; found = str_count (pa_old q) text;
              before = hexdigest (wk_sha256 W (file_bytes t path)) in
          if found = 0 \<and> pa_new q \<noteq> [] \<and> int (str_count (pa_new q) text) \<ge> pa_expected q
            then (exc_bind (shown_path W path) (\<lambda>shown. Inr (patch_report shown ''already_applied'' 0 before before)), t)
          else if int found \<noteq> pa_expected q
            then (Inl (ValueError (''expected '' @ str_of_int (pa_expected q) @ '' old_text occurrence(s), found '' @
              str_of_nat found)), t)
          else
            let encoded = utf8 (str_replace (pa_old q) (pa_new q) (nat (pa_expected q)) text) in
            (case replace_file W run_id path encoded t of
               (Inl e, t') \<Rightarrow> (Inl e, t')
             | (Inr _, t') \<Rightarrow> (exc_bind (shown_path W path) (\<lambda>shown. Inr (patch_report shown ''applied'' (pa_expected q)
                 before (hexdigest (wk_sha256 W encoded)))), t'))))"

section \<open>As tools of the engine\<close>

text \<open>The world of an engine with file tools: the tree and the rest.\<close>

record 'w site =
  st_tree :: file_tree
  st_world :: 'w

definition reading_tool :: "(file_tree \<Rightarrow> pydict \<Rightarrow> py_exc + pydict) \<Rightarrow> 'w site tool" where
  "reading_tool f args s w = (map_sum (\<lambda>e. e) PDict (f (st_tree w) args), w)"

definition patch_tool :: "workspace \<Rightarrow> 'w site tool" where
  "patch_tool W args s w = (let (r, t) = apply_patch W args (ls_run_id s) (st_tree w)
     in (map_sum (\<lambda>e. e) PDict r, w\<lparr>st_tree := t\<rparr>))"

definition read_only_tools :: "workspace \<Rightarrow> 'w site tool_registry" where
  "read_only_tools W = [(''list_files'', reading_tool (list_files W)), (''read_text'', reading_tool (read_text W)),
     (''search_text'', reading_tool (search_text W))]"

fun register_all :: "(string \<times> 'w tool) list \<Rightarrow> 'w tool_registry \<Rightarrow> py_exc + 'w tool_registry" where
  "register_all [] tools = Inr tools"
| "register_all ((name, f) # fs) tools = exc_bind (register_tool name f tools) (register_all fs)"

definition register_read_only ::
  "workspace \<Rightarrow> string list option \<Rightarrow> 'w site tool_registry \<Rightarrow> py_exc + 'w site tool_registry" where
  "register_read_only W tools executor =
     (let available = read_only_tools W;
          selected = sort (remdups (case tools of None \<Rightarrow> map fst available | Some ts \<Rightarrow> ts));
          unknown = filter (\<lambda>k. k \<notin> set (map fst available)) selected
      in if unknown \<noteq> [] then Inl (ValueError (''unknown read-only filesystem tools: '' @ repr_str_list unknown))
         else if selected = [] then Inl (ValueError ''read-only filesystem tools must be non-empty'')
         else register_all (map (\<lambda>k. (k, the (dget available k))) selected) executor)"

definition register_file_tools :: "workspace \<Rightarrow> 'w site tool_registry \<Rightarrow> py_exc + 'w site tool_registry" where
  "register_file_tools W executor =
     exc_bind (register_read_only W None executor) (register_tool ''apply_patch'' (patch_tool W))"

section \<open>Paths without \<open>..\<close>\<close>

lemma lexical_parts_plain: "''..'' \<notin> set ps \<Longrightarrow> lexical_parts ps = ps"
proof -
  have "''..'' \<notin> set ps \<Longrightarrow> fold (\<lambda>p cur. if p = ''..'' then butlast cur else cur @ [p]) ps cur = cur @ ps" for cur
    by (induction ps arbitrary: cur) auto
  then show "''..'' \<notin> set ps \<Longrightarrow> lexical_parts ps = ps" by (simp add: lexical_parts_def)
qed

lemma resolve_plain:
  assumes "''..'' \<notin> set ps" "\<forall>i\<in>{1..length ps}. \<not> is_link (tree_at t (cur @ take i ps))"
    "resolve_parts strict n t cur ps = Inr q"
  shows "q = cur @ ps"
  using assms
proof (induction ps arbitrary: cur)
  case (Cons p ps)
  have "\<not> is_link (tree_at t (cur @ [p]))" using Cons.prems(2) by (auto dest: bspec [of _ _ 1])
  moreover have "\<forall>i\<in>{1..length ps}. \<not> is_link (tree_at t ((cur @ [p]) @ take i ps))"
    using Cons.prems(2) by (auto dest: bspec [of _ _ "Suc _"])
  ultimately show ?case
    using Cons.IH [of "cur @ [p]"] Cons.prems by (auto split: option.splits fs_entry.splits if_splits)
qed simp

text \<open>The root as \<open>Path.resolve\<close> leaves it: a directory, with no link on the way to it.\<close>

definition root_ok :: "workspace \<Rightarrow> file_tree \<Rightarrow> bool" where
  "root_ok W t \<longleftrightarrow> ''..'' \<notin> set (wk_root W) \<and> tree_at t (wk_root W) = Some Dir_Entry \<and>
     (\<forall>i. \<not> is_link (tree_at t (take i (wk_root W))))"

text \<open>A place of the workspace that the tools may show or change.\<close>

definition open_place :: "workspace \<Rightarrow> file_tree \<Rightarrow> string list \<Rightarrow> bool" where
  "open_place W t p \<longleftrightarrow> (\<exists>relative. p = wk_root W @ relative \<and> \<not> is_protected relative \<and>
     (\<forall>i. \<not> is_link (tree_at t (take i p))))"

definition plain_path :: "pyval \<Rightarrow> bool" where
  "plain_path v = (case v of PStr s \<Rightarrow> ''..'' \<notin> set (snd (py_path_of s)) | _ \<Rightarrow> True)"

lemma resolve_existing_plain:
  assumes "root_ok W t" "resolve_existing W t kind v = Inr p" "plain_path v"
  shows "open_place W t p \<and> kind_error kind t p = None \<and> ''..'' \<notin> set p \<and>
    (\<exists>s. v = PStr s \<and> candidate_path W s = (''/'', p))"
proof -
  from assms(2) obtain s where v: "v = PStr s" by (auto simp: resolve_existing_def split: pyval.splits)
  define c where "c = candidate_path W s"
  have dots: "''..'' \<notin> set (snd c)"
    using assms(1,3) by (auto simp: v plain_path_def c_def candidate_path_def root_ok_def Let_def)
  from assms(2) obtain relative where slash: "fst c = ''/''" and rel: "prefix (wk_root W) (snd c)" "relative = drop (length (wk_root W)) (snd c)"
    "\<not> is_protected relative"
    "\<And>i. 1 \<le> i \<Longrightarrow> i \<le> length relative \<Longrightarrow> \<not> is_link (tree_at t (wk_root W @ take i relative))"
    "resolve_parts True (wk_link_limit W) t [] (snd c) = Inr p" "kind_error kind t p = None"
    by (simp add: resolve_existing_def v c_def [symmetric] Let_def lexical_parts_plain [OF dots] relative_to_def
        exc_bind_Inr list_ex_iff less_Suc_eq_le del: upt_Suc split: if_splits option.splits) auto
  have c: "snd c = wk_root W @ relative" using rel(1,2) by (auto elim: prefixE)
  have links: "\<not> is_link (tree_at t (take i (snd c)))" for i
  proof (cases "i \<le> length (wk_root W)")
    case True
    then show ?thesis using assms(1) by (simp add: c root_ok_def)
  next
    case False
    define j where "j = min (i - length (wk_root W)) (length relative)"
    have "take i (snd c) = wk_root W @ take j relative" using False by (simp add: c j_def min_def)
    moreover have "relative = [] \<or> (1 \<le> j \<and> j \<le> length relative)" using False by (cases relative) (auto simp: j_def)
    moreover have "\<not> is_link (tree_at t (wk_root W))" using assms(1) by (simp add: root_ok_def)
    ultimately show ?thesis using rel(4) by auto
  qed
  have "p = [] @ snd c" by (rule resolve_plain [OF dots _ rel(5)]) (use links in simp)
  moreover from this slash have "c = (''/'', p)" by (simp add: prod_eq_iff)
  ultimately show ?thesis using c links rel(3,6) dots v c_def [symmetric] by (auto simp: open_place_def)
qed

section \<open>What a patch changes\<close>

lemma tree_at_put [simp]: "tree_at (tree_put p e t) q = (if q = p \<and> p \<noteq> [] then Some e else tree_at t q)"
  by (simp add: tree_at_def tree_put_def update_conv')

lemma tree_at_del [simp]: "tree_at (tree_del p t) q = (if q = p \<and> p \<noteq> [] then None else tree_at t q)"
  by (induction t) (auto simp: tree_at_def tree_del_def)

lemma temporary_name_facts:
  "temporary_name W i p \<noteq> []" "butlast (temporary_name W i p) = butlast p"
  "suffix ''.tmp'' (last (temporary_name W i p))" "last (temporary_name W i p) \<noteq> ''..''"
  "p \<noteq> [] \<Longrightarrow> temporary_name W i p \<noteq> p"
proof -
  show "p \<noteq> [] \<Longrightarrow> temporary_name W i p \<noteq> p"
    by (rule rev_cases [of p]) (auto simp: temporary_name_def dest: arg_cong [where f = length])
qed (auto simp: temporary_name_def suffix_def)

lemma temporary_plain:
  assumes "\<not> is_link (tree_at t (temporary_name W run p))" "\<And>i. \<not> is_link (tree_at t (take i p))" "''..'' \<notin> set p"
    "resolve_parts strict n t [] (temporary_name W run p) = Inr q"
  shows "q = temporary_name W run p"
proof -
  let ?tmp = "temporary_name W run p"
  have split: "?tmp = butlast p @ [last ?tmp]"
    using temporary_name_facts(1,2) [of W run p] by (metis append_butlast_last_id)
  have "\<not> is_link (tree_at t (take i ?tmp))" for i
  proof (cases "i \<le> length (butlast p)")
    case True
    then have "take i ?tmp = take i (butlast p)" by (subst split) simp
    also have "\<dots> = take i p" using True by (cases p rule: rev_cases) simp_all
    finally have "take i ?tmp = take i p" .
    with assms(2) show ?thesis by simp
  next
    case False
    then have "take i ?tmp = ?tmp" by (subst (1 2) split) simp
    with assms(1) show ?thesis by simp
  qed
  moreover have "''..'' \<notin> set ?tmp"
    using assms(3) temporary_name_facts(4) [of W run p] by (subst split) (auto dest: in_set_butlastD)
  ultimately have "q = [] @ ?tmp" using assms(4) by (intro resolve_plain [of ?tmp t "[]" strict n]) auto
  then show ?thesis by simp
qed

text \<open>
  Replacing a file changes that file and its temporary. Where a link stands at the temporary's name, writing follows
  it, and the place to which it leads changes too.
\<close>

lemma replace_file_touches:
  assumes "replace_file W run p b t = (r, t')"
  shows "\<forall>q. q \<noteq> p \<longrightarrow> q \<noteq> temporary_name W run p \<longrightarrow> tree_at t' q = tree_at t q \<or>
    resolve_parts False (wk_link_limit W) t [] (temporary_name W run p) = Inr q"
proof (cases "write_bytes W t (temporary_name W run p) b")
  case (Inl e)
  with assms obtain e' where "(e', t') = discard_temporary W (temporary_name W run p) e t"
    by (auto simp: replace_file_def Let_def split: prod.splits)
  then show ?thesis by (auto simp: discard_temporary_def split: sum.splits if_splits)
next
  case (Inr u)
  then obtain q where q: "resolve_parts False (wk_link_limit W) t [] (temporary_name W run p) = Inr q"
    "u = tree_put q (File_Entry b) t" by (auto simp: write_bytes_def exc_bind_Inr split: if_splits)
  from Inr assms have "t' = move_entry (temporary_name W run p) p u"
    by (auto simp: replace_file_def Let_def)
  then show ?thesis using q by (auto simp: move_entry_def split: option.splits)
qed

lemma replace_file_changes:
  assumes "\<not> is_link (tree_at t (temporary_name W run p))" "open_place W t p" "''..'' \<notin> set p" "p \<noteq> []"
    "replace_file W run p b t = (r, t')"
  shows "(\<forall>q. q \<noteq> p \<longrightarrow> q \<noteq> temporary_name W run p \<longrightarrow> tree_at t' q = tree_at t q) \<and>
    tree_at t' p = (if r = Inr () then Some (File_Entry b) else tree_at t p) \<and>
    (tree_at t' (temporary_name W run p) = None \<or>
      r \<noteq> Inr () \<and> tree_at t' (temporary_name W run p) = tree_at t (temporary_name W run p))"
proof -
  let ?tmp = "temporary_name W run p"
  note tmp = temporary_name_facts(1-4) [of W run p] temporary_name_facts(5) [OF assms(4), of W run]
  have links: "\<not> is_link (tree_at t (take i p))" for i using assms(2) by (auto simp: open_place_def)
  note plain = temporary_plain [OF assms(1) links assms(3)]
  show ?thesis
  proof (cases "write_bytes W t ?tmp b")
    case (Inl e)
    with assms(5) obtain e' where r: "r = Inl e'" "(e', t') = discard_temporary W ?tmp e t"
      by (auto simp: replace_file_def Let_def split: prod.splits)
    then show ?thesis using tmp(1,5) assms(4)
      by (auto simp: discard_temporary_def split: sum.splits if_splits)
  next
    case (Inr u)
    then have u: "u = tree_put ?tmp (File_Entry b) t"
      using plain by (auto simp: write_bytes_def exc_bind_Inr split: if_splits)
    with Inr assms(5) have "r = Inr ()" "t' = move_entry ?tmp p u"
      by (auto simp: replace_file_def Let_def)
    then show ?thesis using u tmp(1,5) assms(4) by (auto simp: move_entry_def)
  qed
qed

text \<open>
  The places strictly inside the workspace that are not protected, and the names the temporaries of their files have.
  Such a name may itself be protected: the temporary of a file \<open>env\<close> is \<open>.env.<key>.tmp\<close>.
\<close>

definition changeable :: "workspace \<Rightarrow> string list \<Rightarrow> bool" where
  "changeable W p \<longleftrightarrow> strict_prefix (wk_root W) p \<and> \<not> is_protected (drop (length (wk_root W)) p)"

definition temporary_place :: "workspace \<Rightarrow> string list \<Rightarrow> bool" where
  "temporary_place W q \<longleftrightarrow> (\<exists>run p. changeable W p \<and> q = temporary_name W run p)"

text \<open>
  No symbolic link stands at the name of a temporary. The tools do not check for one: they follow it.
\<close>

definition no_planted_links :: "workspace \<Rightarrow> file_tree \<Rightarrow> bool" where
  "no_planted_links W t \<longleftrightarrow> (\<forall>q. temporary_place W q \<longrightarrow> \<not> is_link (tree_at t q))"

lemma file_place:
  assumes "root_ok W t" "resolve_existing W t Want_File v = Inr p" "plain_path v"
  shows "open_place W t p \<and> ''..'' \<notin> set p \<and> p \<noteq> [] \<and> changeable W p \<and> is_file (tree_at t p)"
proof -
  from resolve_existing_plain [OF assms] have p: "open_place W t p" "''..'' \<notin> set p" "is_file (tree_at t p)"
    by (auto simp: kind_error_def split: if_splits)
  moreover have "p \<noteq> wk_root W" using p(3) assms(1) by (auto simp: root_ok_def)
  ultimately show ?thesis by (auto simp: changeable_def open_place_def strict_prefix_def tree_at_def)
qed

text \<open>What one patch of the file \<open>p\<close> may change.\<close>

definition patch_touches :: "workspace \<Rightarrow> string \<Rightarrow> string list \<Rightarrow> file_tree \<Rightarrow> file_tree \<Rightarrow> bool" where
  "patch_touches W run p t t' \<longleftrightarrow> (let temporary = temporary_name W run p; planted = is_link (tree_at t temporary) in
     (\<forall>q. q \<noteq> p \<longrightarrow> q \<noteq> temporary \<longrightarrow> tree_at t' q = tree_at t q \<or>
        planted \<and> resolve_parts False (wk_link_limit W) t [] temporary = Inr q) \<and>
     (\<not> planted \<longrightarrow> is_file (tree_at t' p) \<and>
        (tree_at t' temporary = None \<or> tree_at t' temporary = tree_at t temporary)))"

lemma patch_confined:
  assumes "root_ok W t" "plain_path (dget_or PNone args ''path'')" "apply_patch W args run t = (r, t')"
  shows "t' = t \<or> (\<exists>p. changeable W p \<and> open_place W t p \<and> is_file (tree_at t p) \<and> patch_touches W run p t t')"
proof (cases "t' = t")
  case False
  obtain q b r' where q: "patch_arguments W t args = Inr q" and rep: "replace_file W run (pa_path q) b t = (r', t')"
    using assms(3) False unfolding apply_patch_def
    by (auto simp: Let_def split: sum.splits if_splits prod.splits)
  then obtain v where v: "dget args ''path'' = Some v" "resolve_existing W t Want_File v = Inr (pa_path q)"
    by (auto simp: patch_arguments_def required_arg_def exc_bind_Inr Let_def split: option.splits if_splits)
  then have "plain_path v" using assms(2) by (simp add: dget_or_def dget_def)
  with file_place [OF assms(1) v(2)] have p: "open_place W t (pa_path q)" "''..'' \<notin> set (pa_path q)"
    "is_file (tree_at t (pa_path q))" and ne: "pa_path q \<noteq> []" and "changeable W (pa_path q)" by blast+
  have "patch_touches W run (pa_path q) t t'"
  proof (cases "is_link (tree_at t (temporary_name W run (pa_path q)))")
    case True
    with replace_file_touches [OF rep] show ?thesis by (auto simp: patch_touches_def)
  next
    case False
    from replace_file_changes [OF this p(1,2) ne rep] False p(3) show ?thesis
      by (auto simp: patch_touches_def Let_def split: if_splits)
  qed
  with p \<open>changeable W (pa_path q)\<close> show ?thesis by blast
qed simp

section \<open>What a sequence of patches keeps\<close>

text \<open>
  Two trees between which only unprotected places strictly inside the workspace differ, and protected names of
  temporaries, which may have gone.
\<close>

definition tree_kept :: "workspace \<Rightarrow> file_tree \<Rightarrow> file_tree \<Rightarrow> bool" where
  "tree_kept W t u \<longleftrightarrow> root_ok W u \<and> no_planted_links W u \<and>
     (\<forall>p. \<not> changeable W p \<longrightarrow> tree_at u p = tree_at t p \<or>
        strict_prefix (wk_root W) p \<and> temporary_place W p \<and> tree_at u p = None)"

lemma tree_kept_refl [simp]: "root_ok W t \<Longrightarrow> no_planted_links W t \<Longrightarrow> tree_kept W t t"
  by (simp add: tree_kept_def)

lemma tree_kept_trans: "tree_kept W t u \<Longrightarrow> tree_kept W u v \<Longrightarrow> tree_kept W t v"
  unfolding tree_kept_def by metis

lemma changeable_temporary:
  assumes "changeable W p"
  shows "strict_prefix (wk_root W) (temporary_name W run p)"
proof -
  have "p \<noteq> []" "prefix (wk_root W) (butlast p)"
    using assms by (cases p rule: rev_cases; auto simp: changeable_def strict_prefix_def)+
  then show ?thesis by (auto simp: temporary_name_def strict_prefix_def prefix_def)
qed

lemma patch_keeps:
  assumes "root_ok W t" "no_planted_links W t" "plain_path (dget_or PNone args ''path'')"
    "apply_patch W args run t = (r, t')"
  shows "tree_kept W t t'"
  using patch_confined [OF assms(1,3,4)]
proof
  assume "\<exists>p. changeable W p \<and> open_place W t p \<and> is_file (tree_at t p) \<and> patch_touches W run p t t'"
  then obtain p where p: "changeable W p" "is_file (tree_at t p)" "patch_touches W run p t t'" by blast
  let ?tmp = "temporary_name W run p"
  have place: "temporary_place W ?tmp" using p(1) by (auto simp: temporary_place_def)
  with assms(2) have nl: "\<not> is_link (tree_at t ?tmp)" by (auto simp: no_planted_links_def)
  with p(3) have same: "\<And>q. q \<noteq> p \<Longrightarrow> q \<noteq> ?tmp \<Longrightarrow> tree_at t' q = tree_at t q" and file': "is_file (tree_at t' p)"
    and tmp: "tree_at t' ?tmp = None \<or> tree_at t' ?tmp = tree_at t ?tmp"
    by (auto simp: patch_touches_def Let_def)
  have deep: "strict_prefix (wk_root W) p" "strict_prefix (wk_root W) ?tmp"
    using p(1) changeable_temporary by (auto simp: changeable_def)
  then have above: "tree_at t' (take i (wk_root W)) = tree_at t (take i (wk_root W))" for i
    by (intro same) (auto simp: strict_prefix_def dest: prefix_length_le, (metis prefix_order.antisym take_is_prefix)+)
  then have root: "root_ok W t'" using assms(1) above [of "length (wk_root W)"] by (simp add: root_ok_def)
  have "\<not> is_link (tree_at t' q)" if "temporary_place W q" for q
    using that same [of q] tmp file' assms(2) nl
    by (cases "q = p"; cases "q = ?tmp") (auto simp: no_planted_links_def elim: is_file.elims)
  moreover have "tree_at t' q = tree_at t q \<or> strict_prefix (wk_root W) q \<and> temporary_place W q \<and> tree_at t' q = None"
    if "\<not> changeable W q" for q
    using that same [of q] tmp deep(2) place p(1) by (cases "q = ?tmp") auto
  ultimately show ?thesis using root by (simp add: tree_kept_def no_planted_links_def)
qed (use assms(1,2) in simp)

section \<open>Doing a patch again\<close>

fun entry_kind :: "fs_entry option \<Rightarrow> nat" where
  "entry_kind None = 0"
| "entry_kind (Some (File_Entry b)) = 1"
| "entry_kind (Some Dir_Entry) = 2"
| "entry_kind (Some (Link_Entry a ps)) = 3"

lemma entry_kind_eqs: "is_link e \<longleftrightarrow> entry_kind e = 3" "is_file e \<longleftrightarrow> entry_kind e = 1" "e = Some Dir_Entry \<longleftrightarrow> entry_kind e = 2"
  "e = None \<longleftrightarrow> entry_kind e = 0"
  by (cases e rule: entry_kind.cases; simp)+

lemma resolve_parts_same_kinds:
  assumes "''..'' \<notin> set ps" "\<And>i. \<not> is_link (tree_at t (cur @ take i ps))"
    "\<And>i. entry_kind (tree_at t' (cur @ take i ps)) = entry_kind (tree_at t (cur @ take i ps))"
    "resolve_parts True n t cur ps = Inr q"
  shows "resolve_parts True n t' cur ps = Inr q"
  using assms
proof (induction ps arbitrary: cur)
  case (Cons p ps)
  have kinds: "\<not> is_link (tree_at t (cur @ [p]))" "entry_kind (tree_at t' (cur @ [p])) = entry_kind (tree_at t (cur @ [p]))"
    using Cons.prems(2,3) [of 1] by simp_all
  have deeper: "\<not> is_link (tree_at t ((cur @ [p]) @ take i ps))"
    "entry_kind (tree_at t' ((cur @ [p]) @ take i ps)) = entry_kind (tree_at t ((cur @ [p]) @ take i ps))" for i
    using Cons.prems(2,3) [of "Suc i"] by simp_all
  from Cons.prems(1,4) kinds(1) have sub: "resolve_parts True n t (cur @ [p]) ps = Inr q" and some: "tree_at t (cur @ [p]) \<noteq> None"
    by (auto split: option.splits fs_entry.splits)
  have "resolve_parts True n t' (cur @ [p]) ps = Inr q"
    using Cons.IH [of "cur @ [p]", OF _ deeper sub] Cons.prems(1) by simp
  moreover have "tree_at t' (cur @ [p]) = Some Dir_Entry \<or> (\<exists>b. tree_at t' (cur @ [p]) = Some (File_Entry b))"
    using kinds some by (cases "tree_at t' (cur @ [p])" rule: entry_kind.cases; cases "tree_at t (cur @ [p])" rule: entry_kind.cases) auto
  ultimately show ?case using Cons.prems(1) by auto
qed simp

lemma resolve_existing_same_kinds:
  assumes "root_ok W t" "plain_path v" "resolve_existing W t kind v = Inr p"
    "\<And>i. entry_kind (tree_at t' (take i p)) = entry_kind (tree_at t (take i p))"
  shows "resolve_existing W t' kind v = Inr p"
proof -
  obtain s where c: "v = PStr s" "candidate_path W s = (''/'', p)" and place: "open_place W t p" "''..'' \<notin> set p"
    "kind_error kind t p = None"
    using resolve_existing_plain [OF assms(1,3,2)] by blast
  have links: "\<not> is_link (tree_at t (take i p))" for i using place(1) by (auto simp: open_place_def)
  note unfold = resolve_existing_def c Let_def lexical_parts_plain [OF place(2)] relative_to_def
  have "resolve_parts True (wk_link_limit W) t [] p = Inr p"
    using assms(3) by (auto simp: unfold exc_bind_Inr simp del: upt_Suc split: if_splits option.splits)
  from resolve_parts_same_kinds [OF place(2) _ _ this, of t'] links assms(4)
  have "resolve_parts True (wk_link_limit W) t' [] p = Inr p" by simp
  moreover have "kind_error kind t' p = None"
    using place(3) assms(4) [of "length p"] by (auto simp: kind_error_def entry_kind_eqs split: wanted_kind.splits if_splits)
  moreover obtain relative where rel: "p = wk_root W @ relative" "\<not> is_protected relative"
    using place(1) by (auto simp: open_place_def)
  moreover have "\<not> is_link (tree_at t' (wk_root W @ take i relative))" for i
    using links [of "length (wk_root W) + i"] assms(4) [of "length (wk_root W) + i"] by (simp add: entry_kind_eqs rel(1))
  moreover have "lexical_parts (wk_root W @ relative) = wk_root W @ relative"
    using lexical_parts_plain [OF place(2)] rel(1) by simp
  ultimately show ?thesis by (simp add: unfold list_ex_iff del: upt_Suc)
qed

text \<open>A patch that was applied: what it read, what it wrote, and what it needed.\<close>

lemma apply_patch_applied:
  assumes "apply_patch W args run t = (Inr d, t')" "dget d ''status'' = Some (PStr ''applied'')"
  shows "\<exists>q content. patch_arguments W t args = Inr q \<and> patch_source W t args (pa_path q) = Inr content \<and>
    int (str_count (pa_old q) content) = pa_expected q \<and>
    replace_file W run (pa_path q) (utf8 (str_replace (pa_old q) (pa_new q) (nat (pa_expected q)) content)) t = (Inr (), t')"
  using assms unfolding apply_patch_def
  by (auto simp: Let_def exc_bind_Inr patch_report_def split: sum.splits if_splits prod.splits)

lemma patch_arguments_Inr:
  assumes "patch_arguments W t args = Inr q"
  shows "\<exists>v old. dget args ''path'' = Some v \<and> resolve_existing W t Want_File v = Inr (pa_path q) \<and>
    dget args ''old_text'' = Some old \<and> pa_old q = text_of W old \<and> pa_old q \<noteq> [] \<and> 0 < pa_expected q \<and>
    pa_new q = text_of W (dget_or (PStr []) args ''new_text'') \<and>
    py_int (dget_or (PInt 1) args ''expected_replacements'') = Inr (pa_expected q)"
  using assms by (auto simp: patch_arguments_def required_arg_def exc_bind_Inr Let_def split: option.splits if_splits)

lemma patch_arguments_again:
  assumes "patch_arguments W t args = Inr q" "resolve_existing W t Want_File v = Inr (pa_path q) \<Longrightarrow>
    resolve_existing W t' Want_File v = Inr (pa_path q)" "dget args ''path'' = Some v"
  shows "patch_arguments W t' args = Inr q"
  using assms by (auto simp: patch_arguments_def required_arg_def exc_bind_Inr Let_def split: option.splits if_splits)

lemma patch_exact:
  assumes "root_ok W t" "no_planted_links W t" "plain_path (dget_or PNone args ''path'')"
    "apply_patch W args run t = (Inr d, t')" "dget d ''status'' = Some (PStr ''applied'')"
  shows "\<exists>p v old pieces. dget args ''path'' = Some v \<and> resolve_existing W t Want_File v = Inr p \<and>
    dget args ''old_text'' = Some old \<and> utf8_decode (file_bytes t p) = Some (str_join (text_of W old) pieces) \<and>
    py_int (dget_or (PInt 1) args ''expected_replacements'') = Inr (int (length pieces) - 1) \<and>
    tree_at t' p = Some (File_Entry (utf8 (str_join (text_of W (dget_or (PStr []) args ''new_text'')) pieces))) \<and>
    tree_at t' (temporary_name W run p) = None \<and>
    (\<forall>q. q \<noteq> p \<longrightarrow> q \<noteq> temporary_name W run p \<longrightarrow> tree_at t' q = tree_at t q)"
proof -
  from apply_patch_applied [OF assms(4,5)] obtain q content where q: "patch_arguments W t args = Inr q"
    "patch_source W t args (pa_path q) = Inr content" "int (str_count (pa_old q) content) = pa_expected q"
    "replace_file W run (pa_path q) (utf8 (str_replace (pa_old q) (pa_new q) (nat (pa_expected q)) content)) t = (Inr (), t')"
    by blast
  from patch_arguments_Inr [OF q(1)] obtain v old where v: "dget args ''path'' = Some v"
    "resolve_existing W t Want_File v = Inr (pa_path q)" "dget args ''old_text'' = Some old" "pa_old q = text_of W old"
    "pa_old q \<noteq> []" "0 < pa_expected q" "pa_new q = text_of W (dget_or (PStr []) args ''new_text'')"
    "py_int (dget_or (PInt 1) args ''expected_replacements'') = Inr (pa_expected q)" by blast
  have "plain_path v" using assms(3) v(1) by (simp add: dget_or_def dget_def)
  with file_place [OF assms(1) v(2)] have p: "open_place W t (pa_path q)" "''..'' \<notin> set (pa_path q)"
    "pa_path q \<noteq> []" "changeable W (pa_path q)" by blast+
  with assms(2) have "\<not> is_link (tree_at t (temporary_name W run (pa_path q)))"
    by (auto simp: no_planted_links_def temporary_place_def)
  note change = replace_file_changes [OF this p(1-3) q(4)]
  let ?pieces = "pieces_of (pa_old q) (nat (pa_expected q)) content"
  have "utf8_decode (file_bytes t (pa_path q)) = Some content"
    using q(2) by (auto simp: patch_source_def Let_def split: if_splits option.splits)
  then have "utf8_decode (file_bytes t (pa_path q)) = Some (str_join (text_of W old) ?pieces)"
    using join_pieces_of [OF v(5)] v(4) by simp
  moreover have "int (length ?pieces) - 1 = pa_expected q" using q(3) v(6) by (simp add: length_pieces_of)
  moreover have "tree_at t' (pa_path q) = Some (File_Entry (utf8 (str_join (pa_new q) ?pieces)))"
    using change by (simp add: str_replace_join)
  ultimately show ?thesis using v change by metis
qed

text \<open>When a patch finds that it is there already.\<close>

definition patch_reports :: "string \<Rightarrow> py_exc + pydict \<Rightarrow> bool" where
  "patch_reports status r \<longleftrightarrow> (case r of Inl e \<Rightarrow> False | Inr d \<Rightarrow> dget d ''status'' = Some (PStr status))"

lemma already_applied:
  assumes "patch_arguments W t args = Inr q" "shown_path W (pa_path q) = Inr shown"
  shows "patch_reports ''already_applied'' (fst (apply_patch W args run t)) \<longleftrightarrow>
    (\<exists>content. patch_source W t args (pa_path q) = Inr content \<and> str_count (pa_old q) content = 0 \<and> pa_new q \<noteq> [] \<and>
       pa_expected q \<le> int (str_count (pa_new q) content))"
    "patch_reports ''already_applied'' (fst (apply_patch W args run t)) \<Longrightarrow> snd (apply_patch W args run t) = t"
  by (auto simp: apply_patch_def assms Let_def patch_reports_def patch_report_def split: sum.splits prod.splits if_splits)

lemma patch_again:
  assumes "root_ok W t" "no_planted_links W t" "plain_path (dget_or PNone args ''path'')"
    "apply_patch W args run t = (Inr d, t')" "dget d ''status'' = Some (PStr ''applied'')"
    "dget args ''path'' = Some v" "resolve_existing W t Want_File v = Inr p" "dget args ''old_text'' = Some old"
    "py_int (dget_or (PInt 1) args ''expected_replacements'') = Inr n"
  shows "(patch_reports ''already_applied'' (fst (apply_patch W args run' t')) \<longleftrightarrow>
      (\<exists>after. patch_source W t' args p = Inr after \<and> str_count (text_of W old) after = 0 \<and>
         text_of W (dget_or (PStr []) args ''new_text'') \<noteq> [] \<and>
         n \<le> int (str_count (text_of W (dget_or (PStr []) args ''new_text'')) after))) \<and>
    (patch_reports ''already_applied'' (fst (apply_patch W args run' t')) \<longrightarrow> snd (apply_patch W args run' t') = t')"
proof -
  from apply_patch_applied [OF assms(4,5)] obtain q content where q: "patch_arguments W t args = Inr q"
    "replace_file W run (pa_path q) (utf8 (str_replace (pa_old q) (pa_new q) (nat (pa_expected q)) content)) t = (Inr (), t')"
    by blast
  note args = patch_arguments_Inr [OF q(1)]
  have pq: "pa_path q = p" "pa_expected q = n" "pa_old q = text_of W old"
    "pa_new q = text_of W (dget_or (PStr []) args ''new_text'')" using args assms(6-9) by auto
  have v: "plain_path v" using assms(3,6) by (simp add: dget_or_def dget_def)
  from file_place [OF assms(1,7) v] have p: "open_place W t p" "''..'' \<notin> set p" "p \<noteq> []" "changeable W p" "is_file (tree_at t p)"
    by blast+
  with assms(2) have "\<not> is_link (tree_at t (temporary_name W run p))"
    by (auto simp: no_planted_links_def temporary_place_def)
  note change = replace_file_changes [OF this p(1-3) q(2) [unfolded pq(1)]]
  have "take i p \<noteq> temporary_name W run p" for i
  proof
    assume tmp: "take i p = temporary_name W run p"
    then have "length (take i p) = length p" using p(3) by (simp add: temporary_name_def)
    then have "take i p = p" by simp
    with tmp temporary_name_facts(5) [OF p(3), of W run] show False by simp
  qed
  then have "entry_kind (tree_at t' (take i p)) = entry_kind (tree_at t (take i p))" for i
    using change p(5) by (cases "take i p = p") (auto simp: entry_kind_eqs)
  from resolve_existing_same_kinds [OF assms(1) v assms(7) this]
  have again: "patch_arguments W t' args = Inr q"
    using patch_arguments_again [OF q(1) _ assms(6), of t'] pq(1) by simp
  have "shown_path W (pa_path q) = Inr (path_str ([], drop (length (wk_root W)) p))"
    using p(1) pq(1) by (auto simp: shown_path_def relative_to_def open_place_def)
  from already_applied [OF again this] show ?thesis by (simp add: pq)
qed

end
