(* ===== verification/Workspace_Properties.thy ===== *)
theory Workspace_Properties
  imports Workspace_Files
begin

text \<open>
  What the file tools guarantee: what they show lies in the workspace and is not protected, a patch
  changes its file and its temporary, applies exactly, and when it is there already says so; and where
  the guarantee ends: at paths with \<open>..\<close> that lead through a link, and at a link planted under the
  name of a patch's temporary.
\<close>

section \<open>What reading shows\<close>

text \<open>In a tree of the file system, entries have directories above them.\<close>

definition tree_ok :: "file_tree \<Rightarrow> bool" where
  "tree_ok t \<longleftrightarrow> (\<forall>p\<in>set (map fst t). p \<noteq> [] \<and> tree_at t (butlast p) = Some Dir_Entry)"

lemma tree_ok_above:
  assumes "tree_ok t" "tree_at t p = Some e" "i < length p"
  shows "tree_at t (take i p) = Some Dir_Entry"
  using assms(2,3)
proof (induction p arbitrary: e rule: rev_induct)
  case (snoc x p)
  have "p @ [x] \<in> set (map fst t)" using snoc.prems(1) by (force simp: tree_at_def dest: map_of_SomeD)
  then have "tree_at t p = Some Dir_Entry" using assms(1) by (auto simp: tree_ok_def dest!: bspec)
  with snoc.IH [OF this] snoc.prems(2) show ?case by (cases "i = length p") auto
qed simp

lemma visible_open:
  assumes "tree_ok t" "p \<in> set (below t base recursive)" "\<not> is_ignored W t p"
  shows "open_place W t p \<and> tree_at t p \<noteq> None"
proof -
  have "p \<in> set (map fst t)" using assms(2) by (auto simp: below_def)
  moreover from this have "p \<noteq> []" using assms(1) by (auto simp: tree_ok_def)
  ultimately obtain e where e: "tree_at t p = Some e" by (cases "map_of t p") (auto simp: tree_at_def map_of_eq_None_iff)
  have nl: "\<not> is_link (tree_at t p)" using assms(3) by (simp add: is_ignored_def)
  have "\<not> is_link (tree_at t (take i p))" for i
    using tree_ok_above [OF assms(1) e, of i] nl by (cases "i < length p") auto
  moreover obtain relative where "p = wk_root W @ relative" "\<not> is_protected relative"
    using assms(3) by (auto simp: is_ignored_def relative_to_def split: if_splits elim!: prefixE)
  ultimately show ?thesis using e by (auto simp: open_place_def)
qed

lemma list_files_confined:
  assumes "tree_ok t" "list_files W t args = Inr d"
  shows "\<exists>ps. dget d ''entries'' = Some (PList (map (shown_entry W t) ps)) \<and> length ps \<le> nat (wk_max_list_entries W) \<and>
    (\<forall>p\<in>set ps. open_place W t p \<and> tree_at t p \<noteq> None)"
proof -
  from assms(2) obtain base requested where
    "dget d ''entries'' = Some (PList (map (shown_entry W t) (take (bounded_limit requested (wk_max_list_entries W))
      (filter (\<lambda>p. \<not> is_ignored W t p) (below t base (truthy (dget_or (PBool True) args ''recursive'')))))))"
    by (auto simp: list_files_def exc_bind_Inr Let_def)
  moreover have "bounded_limit requested (wk_max_list_entries W) \<le> nat (wk_max_list_entries W)"
    by (simp add: bounded_limit_def)
  ultimately show ?thesis using visible_open [OF assms(1)]
    by (intro exI conjI) (auto dest!: in_set_takeD)
qed

lemma line_matches_open:
  assumes "tree_ok t" "m \<in> set (line_matches W t f p)" "p \<in> set (below t base True)"
  shows "\<exists>i l. m = PDict [(''path'', PStr (path_str ([], drop (length (wk_root W)) p))), (''line'', PInt i), (''text'', PStr l)] \<and>
    l \<in> set (searchable_lines W t p) \<and> f l \<and> open_place W t p \<and> is_file (tree_at t p)"
proof -
  from assms(2) obtain i l where m: "m = PDict [(''path'', PStr (path_str ([], drop (length (wk_root W)) p))),
      (''line'', PInt (int i)), (''text'', PStr l)]" "f l" "(i, l) \<in> set (enumerate 1 (searchable_lines W t p))"
    by (auto simp: line_matches_def)
  then have "l \<in> set (searchable_lines W t p)" using nth_mem [of "i - 1" "searchable_lines W t p"]
    by (auto simp: in_set_enumerate_eq)
  moreover from this have "\<not> is_ignored W t p" "is_file (tree_at t p)"
    by (cases "tree_at t p" rule: is_file.cases; simp add: searchable_lines_def split: if_splits)+
  ultimately show ?thesis using m visible_open [OF assms(1,3)] by blast
qed

lemma search_text_confined:
  assumes "tree_ok t" "search_text W t args = Inr d"
  shows "\<exists>ms. dget d ''matches'' = Some (PList ms) \<and> length ms \<le> nat (wk_max_search_matches W) \<and>
    (\<forall>m\<in>set ms. \<exists>p i l. m = PDict [(''path'', PStr (path_str ([], drop (length (wk_root W)) p))), (''line'', PInt i), (''text'', PStr l)] \<and>
       l \<in> set (searchable_lines W t p) \<and> open_place W t p \<and> is_file (tree_at t p))"
proof -
  from assms(2) obtain base requested f where
    "dget d ''matches'' = Some (PList (take (bounded_limit requested (wk_max_search_matches W))
      (concat (map (line_matches W t f) (below t base True)))))"
    by (auto simp: search_text_def exc_bind_Inr Let_def)
  moreover have "bounded_limit requested (wk_max_search_matches W) \<le> nat (wk_max_search_matches W)"
    by (simp add: bounded_limit_def)
  ultimately show ?thesis using line_matches_open [OF assms(1), of _ W f]
    by (intro exI conjI) (auto dest!: in_set_takeD, blast+)
qed

lemma read_text_confined:
  assumes "root_ok W t" "plain_path (dget_or PNone args ''path'')" "read_text W t args = Inr d"
  shows "\<exists>p n. open_place W t p \<and> is_file (tree_at t p) \<and> n \<le> nat (wk_max_read_bytes W) \<and>
    dget d ''path'' = Some (PStr (path_str ([], drop (length (wk_root W)) p))) \<and>
    dget d ''text'' = Some (PStr (wk_decode_replace W (take n (file_bytes t p)))) \<and>
    dget d ''sha256'' = Some (PStr (hexdigest (wk_sha256 W (file_bytes t p))))"
proof -
  from assms(3) obtain v path requested shown where r: "dget args ''path'' = Some v" "resolve_existing W t Want_File v = Inr path"
    "shown_path W path = Inr shown" "dget d ''path'' = Some (PStr shown)"
    "dget d ''text'' = Some (PStr (wk_decode_replace W (take (bounded_limit requested (wk_max_read_bytes W)) (file_bytes t path))))"
    "dget d ''sha256'' = Some (PStr (hexdigest (wk_sha256 W (file_bytes t path))))"
    by (auto simp: read_text_def required_arg_def exc_bind_Inr Let_def split: option.splits)
  have "plain_path v" using assms(2) r(1) by (simp add: dget_or_def dget_def)
  with resolve_existing_plain [OF assms(1) r(2)] have "open_place W t path" "is_file (tree_at t path)"
    by (auto simp: kind_error_def split: if_splits)
  moreover have "shown = path_str ([], drop (length (wk_root W)) path)"
    using r(3) by (auto simp: shown_path_def split: option.splits simp: relative_to_def split: if_splits)
  moreover have "bounded_limit requested (wk_max_read_bytes W) \<le> nat (wk_max_read_bytes W)"
    by (simp add: bounded_limit_def)
  ultimately show ?thesis using r(4-6) by blast
qed

section \<open>A link and \<open>..\<close>\<close>

text \<open>
  Paths with \<open>..\<close> are checked as they are written and resolved as the links lead: through a link to
  a directory elsewhere, \<open>link/../f\<close> is \<open>f\<close> in the workspace for the checks, and a file beside the
  link's target when it is opened.
\<close>

definition plain_workspace :: "string list \<Rightarrow> workspace" where
  "plain_workspace base = \<lparr>wk_root = base, wk_max_read_bytes = 1000, wk_max_list_entries = 10, wk_max_search_matches = 10,
     wk_link_limit = 40, wk_sha256 = (\<lambda>b. []), wk_decode_replace = (\<lambda>b. []), wk_str = (\<lambda>v. []),
     wk_regex = (\<lambda>p i. Inr (\<lambda>s. True))\<rparr>"

definition linked_tree :: file_tree where
  "linked_tree = [([''w''], Dir_Entry), ([''w'', ''link''], Link_Entry True [''o'', ''d'']), ([''o''], Dir_Entry),
     ([''o'', ''d''], Dir_Entry), ([''o'', ''f''], File_Entry [97])]"

definition escaping_patch :: pydict where
  "escaping_patch = [(''path'', PStr ''link/../f''), (''old_text'', PStr ''a''), (''new_text'', PStr ''b'')]"

lemma escape_runs:
  "tree_at (snd (apply_patch (plain_workspace [''w'']) escaping_patch ''r'' linked_tree)) [''o'', ''f''] = Some (File_Entry [98])"
  by code_simp

lemma one_part: "root_ok (plain_workspace [a]) t \<longleftrightarrow> a \<noteq> ''..'' \<and> tree_at t [a] = Some Dir_Entry"
proof -
  have "\<not> is_link (tree_at t (take i [a]))" if "tree_at t [a] = Some Dir_Entry" for i
    using that by (cases i) (simp_all add: tree_at_def)
  then show ?thesis by (auto simp: root_ok_def plain_workspace_def)
qed

lemma linked_ok: "root_ok (plain_workspace [''w'']) linked_tree" "no_planted_links (plain_workspace [''w'']) linked_tree"
proof -
  show "root_ok (plain_workspace [''w'']) linked_tree" by (simp add: one_part linked_tree_def tree_at_def)
  have "q = [''w'', ''link'']" if "is_link (tree_at linked_tree q)" for q
    using that by (auto simp: linked_tree_def tree_at_def split: if_splits)
  moreover have "\<not> temporary_place W [''w'', ''link'']" for W
    by (auto simp: temporary_place_def temporary_name_def)
  ultimately show "no_planted_links (plain_workspace [''w'']) linked_tree" by (auto simp: no_planted_links_def)
qed

text \<open>
  The name of a temporary is known beforehand: the file's name and twelve digits of the digest of the run's name. Where
  a link of that name leads to a file elsewhere, a patch writes its result there and puts the link in the place of its file.
\<close>

definition planted_tree :: file_tree where
  "planted_tree = [([''w''], Dir_Entry), ([''w'', ''f''], File_Entry [97]),
     ([''w'', ''.f..tmp''], Link_Entry True [''o'']), ([''o''], File_Entry [99])]"

section \<open>Properties\<close>

text \<open>
  C20: in a workspace whose root is a directory reached through no link, whatever the file tools show lies in the
  workspace, in a place that is not protected and not reached through a link, within the configured limits: the entries
  of a listing, the lines of a search, and, for a path without \<open>..\<close>, the file that is read. A patch whose path has no
  \<open>..\<close> changes nothing, or it names an unprotected file strictly inside the workspace and changes that file, its
  temporary beside it, and, only if a symbolic link stands at the temporary's name, the place to which that link
  leads; with no such link the file stays a file, and the temporary's place is afterwards as before or empty. A patch,
  successful or not, in a tree with no links at the names of temporaries therefore changes nothing outside the workspace
  and nothing protected but those names.
\<close>

theorem file_tools_confined:
  assumes "root_ok W t" "tree_ok t"
  shows "(\<forall>args d. list_files W t args = Inr d \<longrightarrow>
      (\<exists>ps. dget d ''entries'' = Some (PList (map (shown_entry W t) ps)) \<and> length ps \<le> nat (wk_max_list_entries W) \<and>
        (\<forall>p\<in>set ps. open_place W t p \<and> tree_at t p \<noteq> None))) \<and>
    (\<forall>args d. search_text W t args = Inr d \<longrightarrow>
      (\<exists>ms. dget d ''matches'' = Some (PList ms) \<and> length ms \<le> nat (wk_max_search_matches W) \<and>
        (\<forall>m\<in>set ms. \<exists>p i l. m = PDict [(''path'', PStr (path_str ([], drop (length (wk_root W)) p))), (''line'', PInt i), (''text'', PStr l)] \<and>
           l \<in> set (searchable_lines W t p) \<and> open_place W t p \<and> is_file (tree_at t p)))) \<and>
    (\<forall>args d. read_text W t args = Inr d \<longrightarrow> plain_path (dget_or PNone args ''path'') \<longrightarrow>
      (\<exists>p n. open_place W t p \<and> is_file (tree_at t p) \<and> n \<le> nat (wk_max_read_bytes W) \<and>
        dget d ''path'' = Some (PStr (path_str ([], drop (length (wk_root W)) p))) \<and>
        dget d ''text'' = Some (PStr (wk_decode_replace W (take n (file_bytes t p)))) \<and>
        dget d ''sha256'' = Some (PStr (hexdigest (wk_sha256 W (file_bytes t p)))))) \<and>
    (\<forall>args run r t'. apply_patch W args run t = (r, t') \<longrightarrow> plain_path (dget_or PNone args ''path'') \<longrightarrow>
      (t' = t \<or> (\<exists>p. changeable W p \<and> open_place W t p \<and> is_file (tree_at t p) \<and> patch_touches W run p t t')) \<and>
      (no_planted_links W t \<longrightarrow> tree_kept W t t'))"
  by (intro conjI allI impI list_files_confined [OF assms(2)] search_text_confined [OF assms(2)]
      read_text_confined [OF assms(1)])
    (use patch_confined [OF assms(1)] patch_keeps [OF assms(1)] in blast)+

text \<open>A workspace with one file and one protected file.\<close>

definition small_tree :: file_tree where
  "small_tree = [([''w''], Dir_Entry), ([''w'', ''f''], File_Entry [97]), ([''w'', ''.env''], File_Entry [97])]"

definition small_patch :: pydict where
  "small_patch = [(''path'', PStr ''f''), (''old_text'', PStr ''a''), (''new_text'', PStr ''b'')]"

lemma small_ok: "root_ok (plain_workspace [''w'']) small_tree" "no_planted_links (plain_workspace [''w'']) small_tree"
  "tree_ok small_tree" "plain_path (dget_or PNone small_patch ''path'')"
proof -
  show "root_ok (plain_workspace [''w'']) small_tree" by (simp add: one_part small_tree_def tree_at_def)
  have "\<not> is_link (tree_at small_tree p)" for p by (auto simp: small_tree_def tree_at_def)
  then show "no_planted_links (plain_workspace [''w'']) small_tree" by (simp add: no_planted_links_def)
  show "tree_ok small_tree" by (simp add: tree_ok_def small_tree_def tree_at_def)
  show "plain_path (dget_or PNone small_patch ''path'')" by code_simp
qed


theorem file_tools_confined_witness:
  "tree_kept (plain_workspace [''w'']) small_tree
     (snd (apply_patch (plain_workspace [''w'']) small_patch ''r'' small_tree)) \<and>
   tree_at (snd (apply_patch (plain_workspace [''w'']) small_patch ''r'' small_tree)) [''w'', ''.env''] = Some (File_Entry [97])"
proof -
  obtain r t' where run: "apply_patch (plain_workspace [''w'']) small_patch ''r'' small_tree = (r, t')" by fastforce
  have g: "\<not> changeable (plain_workspace [''w'']) [''w'', ''.env'']"
    by (simp add: changeable_def plain_workspace_def is_protected_def)
  have n: "\<not> temporary_place W [''w'', ''.env'']" for W
    by (auto simp: temporary_place_def temporary_name_def dest: arg_cong [where f = rev])
  from file_tools_confined [OF small_ok(1,3)] run small_ok(2,4)
  have "tree_kept (plain_workspace [''w'']) small_tree t'" by blast
  moreover from this g n have "tree_at t' [''w'', ''.env''] = tree_at small_tree [''w'', ''.env'']"
    unfolding tree_kept_def by blast
  ultimately show ?thesis using run by (simp add: small_tree_def tree_at_def)
qed



text \<open>
  With \<open>..\<close> in the path the guarantee does not hold: in this tree, which satisfies everything else,
  a patch of \<open>link/../f\<close> raises, but has already changed a file outside the workspace.
\<close>

theorem dotdot_patch_escapes:
  "root_ok (plain_workspace [''w'']) linked_tree \<and> no_planted_links (plain_workspace [''w'']) linked_tree \<and>
   tree_at linked_tree [''o'', ''f''] = Some (File_Entry [97]) \<and>
   tree_at (snd (apply_patch (plain_workspace [''w'']) escaping_patch ''r'' linked_tree)) [''o'', ''f''] = Some (File_Entry [98])"
  using linked_ok escape_runs by (simp add: linked_tree_def tree_at_def)

text \<open>Nor does it where a link stands at the temporary's name: the patch below names a file of the workspace without
  \<open>..\<close>, reports success, and has changed a file outside.\<close>

theorem planted_link_escapes:
  "root_ok (plain_workspace [''w'']) planted_tree \<and> plain_path (dget_or PNone small_patch ''path'') \<and>
   tree_at planted_tree [''o''] = Some (File_Entry [99]) \<and>
   (case apply_patch (plain_workspace [''w'']) small_patch ''r'' planted_tree of (r, t') \<Rightarrow>
      patch_reports ''applied'' r \<and> tree_at t' [''o''] = Some (File_Entry [98]) \<and>
      tree_at t' [''w'', ''f''] = Some (Link_Entry True [''o'']))"
proof -
  have "plain_path (dget_or PNone small_patch ''path'')" by (rule small_ok(4))
  moreover have "case apply_patch (plain_workspace [''w'']) small_patch ''r'' planted_tree of (r, t') \<Rightarrow>
      patch_reports ''applied'' r \<and> tree_at t' [''o''] = Some (File_Entry [98]) \<and>
      tree_at t' [''w'', ''f''] = Some (Link_Entry True [''o''])" by code_simp
  ultimately show ?thesis by (simp add: one_part) (simp add: planted_tree_def tree_at_def)
qed

end
