(* ===== verification/Bounded_Subprocess.thy ===== *)
theory Bounded_Subprocess
  imports Process_Registry Workspace_Files
begin

text \<open>
  The bounded subprocess tool (\<open>loop_engine/adapters/subprocesses.py\<close>) on POSIX: one fixed command in
  a directory of the workspace, registered in the process registry while it runs, watched with
  heartbeats until it exits or its time is over, and killed with its process group then. The
  operating system is an argument. While the tool waits for the process, other threads may act on
  the registry. A drain thread is described by whether it can be started and by the chunks it has read when it
  is joined.
\<close>

section \<open>The command\<close>

record subprocess_spec =
  ss_argv :: "string list"
  ss_cwd :: string
  ss_timeout_seconds :: rat
  ss_max_output_bytes :: int
  ss_heartbeat_seconds :: rat
  ss_environment :: "(string \<times> string) list"

definition default_subprocess_spec :: subprocess_spec where
  "default_subprocess_spec = \<lparr>ss_argv = [], ss_cwd = ''.'', ss_timeout_seconds = 60,
     ss_max_output_bytes = 64 * 1024, ss_heartbeat_seconds = 1, ss_environment = []\<rparr>"

definition mk_subprocess_spec :: "subprocess_spec \<Rightarrow> py_exc + subprocess_spec" where
  "mk_subprocess_spec S =
     (if ss_argv S = [] \<or> strip (hd (ss_argv S)) = [] then Inl (ValueError ''subprocess argv is required'')
      else if ss_timeout_seconds S \<le> 0 then Inl (ValueError ''subprocess timeout must be positive'')
      else if ss_max_output_bytes S \<le> 0 then Inl (ValueError ''subprocess output limit must be positive'')
      else if ss_heartbeat_seconds S \<le> 0 then Inl (ValueError ''subprocess heartbeat interval must be positive'')
      else Inr S)"

text \<open>
  \<open>Path.resolve()\<close> of an absolute path, which need not exist: links are followed, missing parts
  are kept. The number of links that are followed is bounded here; the code detects a loop.
\<close>

function real_path :: "nat \<Rightarrow> file_tree \<Rightarrow> string list \<Rightarrow> string list \<Rightarrow> py_exc + string list" where
  "real_path n t cur [] = Inr cur"
| "real_path n t cur (p # ps) =
     (if p = ''..'' then real_path n t (butlast cur) ps
      else case tree_at t (cur @ [p]) of
        Some (Link_Entry absolute target) \<Rightarrow> (case n of
            0 \<Rightarrow> Inl (RuntimeError (''Symlink loop from '' @ repr_str (path_str (''/'', cur @ [p]))))
          | Suc m \<Rightarrow> real_path m t (if absolute then [] else cur) (target @ ps))
      | _ \<Rightarrow> real_path n t (cur @ [p]) ps)"
  by pat_completeness auto

termination by (relation "measures [\<lambda>(n, t, cur, ps). n, \<lambda>(n, t, cur, ps). length ps]") auto

record subprocess_tool =
  bt_workspace_root :: "string list"
  bt_spec :: subprocess_spec
  bt_cwd :: "string list"

definition resolve_cwd :: "nat \<Rightarrow> file_tree \<Rightarrow> string list \<Rightarrow> string \<Rightarrow> py_exc + string list" where
  "resolve_cwd links t base cwd =
     (let p = py_path_of cwd; parts = (if fst p = [] then base @ snd p else snd p) in
      exc_bind (real_path links t [] parts) (\<lambda>resolved.
        if \<not> prefix base resolved then Inl (ValueError (''subprocess cwd escapes workspace: '' @ path_str (''/'', resolved)))
        else if tree_at t resolved \<noteq> Some Dir_Entry
          then Inl (ValueError (''subprocess cwd does not exist: '' @ path_str (''/'', resolved)))
        else Inr resolved))"

text \<open>\<open>__init__\<close>, from the resolved root.\<close>

definition mk_subprocess_tool ::
  "nat \<Rightarrow> file_tree \<Rightarrow> string list \<Rightarrow> subprocess_spec \<Rightarrow> py_exc + subprocess_tool" where
  "mk_subprocess_tool links t base spec = exc_bind (resolve_cwd links t base (ss_cwd spec)) (\<lambda>cwd.
     Inr \<lparr>bt_workspace_root = base, bt_spec = spec, bt_cwd = cwd\<rparr>)"

section \<open>Output\<close>

record bounded_stream =
  bs_data :: "8 word list"
  bs_truncated :: bool

definition drain_chunk :: "int \<Rightarrow> 8 word list \<Rightarrow> bounded_stream \<Rightarrow> bounded_stream" where
  "drain_chunk limit chunk b =
     (let remaining = limit - int (length (bs_data b)) in
      \<lparr>bs_data = (if remaining > 0 then bs_data b @ take (nat remaining) chunk else bs_data b),
       bs_truncated = (bs_truncated b \<or> int (length chunk) > remaining)\<rparr>)"

text \<open>An empty chunk is the end of the stream.\<close>

fun drain :: "int \<Rightarrow> 8 word list list \<Rightarrow> bounded_stream \<Rightarrow> bounded_stream" where
  "drain limit [] b = b"
| "drain limit ([] # chunks) b = b"
| "drain limit (chunk # chunks) b = drain limit chunks (drain_chunk limit chunk b)"

definition new_stream :: bounded_stream where
  "new_stream = \<lparr>bs_data = [], bs_truncated = False\<rparr>"

section \<open>The operating system\<close>

datatype wait_outcome = Exited int | Wait_Timeout | Interrupted py_exc

record 'w process_os =
  po_environ :: "'w \<Rightarrow> (string \<times> string) list \<times> 'w"
  po_popen :: "string list \<Rightarrow> string \<Rightarrow> (string \<times> string) list \<Rightarrow> 'w \<Rightarrow> (py_exc + int) \<times> 'w"
  po_stat :: "int \<Rightarrow> 'w \<Rightarrow> string option \<times> 'w"
  po_poll :: "int \<Rightarrow> 'w \<Rightarrow> int option \<times> 'w"
  po_wait :: "int \<Rightarrow> rat \<Rightarrow> 'w process_world \<Rightarrow> wait_outcome \<times> 'w process_world"
  po_killpg :: "int \<Rightarrow> 'w \<Rightarrow> py_exc option \<times> 'w"
  po_kill :: "int \<Rightarrow> 'w \<Rightarrow> py_exc option \<times> 'w"
  po_start_drain :: "int \<Rightarrow> bool \<Rightarrow> 'w \<Rightarrow> py_exc option \<times> 'w"
  po_chunks :: "int \<Rightarrow> bool \<Rightarrow> 'w \<Rightarrow> 8 word list list \<times> 'w"
  po_perf_counter :: "'w \<Rightarrow> rat \<times> 'w"
  po_decode_replace :: "8 word list \<Rightarrow> string"

text \<open>\<open>text.split()\<close>.\<close>

fun words_of :: "string \<Rightarrow> string list" where
  "words_of [] = []"
| "words_of (c # cs) = (if py_space c then words_of cs
     else (case (cs, words_of cs) of
         (d # ds, w # ws) \<Rightarrow> if py_space d then [c] # w # ws else (c # w) # ws
       | (_, ws) \<Rightarrow> [c] # ws))"

definition lookup_process_identity :: "'w process_os \<Rightarrow> int \<Rightarrow> 'w \<Rightarrow> string option \<times> 'w" where
  "lookup_process_identity OS pid w =
     (if pid \<le> 0 then (None, w)
      else case po_stat OS pid w of
        (None, w') \<Rightarrow> (None, w')
      | (Some text, w') \<Rightarrow> let fields = words_of text in
          (if length fields > 21 then Some (fields ! 21) else None, w'))"

definition process_identity :: "'w process_os \<Rightarrow> int \<Rightarrow> 'w \<Rightarrow> (py_exc + string) \<times> 'w" where
  "process_identity OS pid w = (case lookup_process_identity OS pid w of
      (None, w') \<Rightarrow> (Inl (RuntimeError (''cannot determine process identity: '' @ str_of_int pid)), w')
    | (Some identity, w') \<Rightarrow> (Inr identity, w'))"

text \<open>\<open>os.killpg\<close> where a missing process group is no error.\<close>

definition killpg_quietly :: "'w process_os \<Rightarrow> int \<Rightarrow> 'w \<Rightarrow> py_exc option \<times> 'w" where
  "killpg_quietly OS pid w = (case po_killpg OS pid w of
      (Some e, w') \<Rightarrow> (if exc_type e = ''ProcessLookupError'' then None else Some e, w')
    | (None, w') \<Rightarrow> (None, w'))"

definition terminate_process_tree :: "'w process_os \<Rightarrow> int \<Rightarrow> 'w \<Rightarrow> py_exc option \<times> 'w" where
  "terminate_process_tree OS pid w =
     (if pid \<le> 0 then (Some (ValueError ''process pid must be positive''), w) else killpg_quietly OS pid w)"

definition reap_stale_processes ::
  "'w process_os \<Rightarrow> 'w process_host \<Rightarrow> rat \<Rightarrow> 'w process_world \<Rightarrow> (py_exc + process_record list) \<times> 'w process_world" where
  "reap_stale_processes OS H stale_after s =
     reap_stale H stale_after (lookup_process_identity OS) (terminate_process_tree OS) s"

section \<open>A child process\<close>

text \<open>\<open>Popen\<close> keeps the return code once it knows it.\<close>

definition os_poll :: "'w process_os \<Rightarrow> int \<Rightarrow> int option \<Rightarrow> 'w process_world \<Rightarrow> int option \<times> 'w process_world" where
  "os_poll OS pid returncode s = (case returncode of
      Some c \<Rightarrow> (Some c, s) | None \<Rightarrow> consult (po_poll OS pid) s)"

definition os_wait ::
  "'w process_os \<Rightarrow> int \<Rightarrow> rat \<Rightarrow> int option \<Rightarrow> 'w process_world \<Rightarrow> wait_outcome \<times> 'w process_world" where
  "os_wait OS pid timeout returncode s = (case returncode of
      Some c \<Rightarrow> (Exited c, s) | None \<Rightarrow> po_wait OS pid timeout s)"

definition terminate_tree ::
  "'w process_os \<Rightarrow> int \<Rightarrow> int option \<Rightarrow> 'w process_world \<Rightarrow> (py_exc option \<times> int option) \<times> 'w process_world" where
  "terminate_tree OS pid returncode s =
     (let (rc1, s1) = os_poll OS pid returncode s in
      if rc1 \<noteq> None then ((None, rc1), s1)
      else let (failure, s2) = consult (killpg_quietly OS pid) s1 in
        if failure \<noteq> None then ((failure, rc1), s2)
        else let (rc2, s3) = os_poll OS pid rc1 s2 in
          if rc2 \<noteq> None then ((None, rc2), s3)
          else let (failure, s4) = consult (po_kill OS pid) s3 in ((failure, rc2), s4))"

text \<open>\<open>self._terminate_tree(process); process.wait(timeout=5)\<close>.\<close>

definition kill_and_wait ::
  "'w process_os \<Rightarrow> int \<Rightarrow> int option \<Rightarrow> 'w process_world \<Rightarrow> (py_exc option \<times> int option) \<times> 'w process_world" where
  "kill_and_wait OS pid returncode s = (case terminate_tree OS pid returncode s of
      ((Some e, rc), s1) \<Rightarrow> ((Some e, rc), s1)
    | ((None, rc), s1) \<Rightarrow> (case os_wait OS pid 5 rc s1 of
          (Exited c, s2) \<Rightarrow> ((None, Some c), s2)
        | (Wait_Timeout, s2) \<Rightarrow> ((Some (PyExc ''TimeoutExpired'' ''process did not exit''), rc), s2)
        | (Interrupted e, s2) \<Rightarrow> ((Some e, rc), s2)))"

text \<open>The watching loop: whether it raised, whether the time was over, and the return code.\<close>

type_synonym watched = "py_exc option \<times> bool \<times> int option"

partial_function (option) watch ::
  "'w process_os \<Rightarrow> 'w process_host \<Rightarrow> rat \<Rightarrow> int \<Rightarrow> string \<Rightarrow> rat \<Rightarrow> int option \<Rightarrow> 'w process_world
   \<Rightarrow> (watched \<times> 'w process_world) option"
where
  "watch OS H heartbeat_seconds pid record_id deadline returncode s =
     (let (rc, s1) = os_poll OS pid returncode s in
      if rc \<noteq> None then Some ((None, False, rc), s1)
      else let (t, s2) = consult (po_perf_counter OS) s1 in
        if deadline - t \<le> 0 then let ((failure, rc'), s3) = kill_and_wait OS pid rc s2 in Some ((failure, True, rc'), s3)
        else case os_wait OS pid (min heartbeat_seconds (deadline - t)) rc s2 of
          (Exited c, s3) \<Rightarrow> watch OS H heartbeat_seconds pid record_id deadline (Some c) s3
        | (Interrupted e, s3) \<Rightarrow> Some ((Some e, False, rc), s3)
        | (Wait_Timeout, s3) \<Rightarrow> (case heartbeat H record_id s3 of
              (Inl e, s4) \<Rightarrow> Some ((Some e, False, rc), s4)
            | (Inr r, s4) \<Rightarrow> watch OS H heartbeat_seconds pid record_id deadline rc s4))"

declare watch.simps [code]

section \<open>Calling the tool\<close>

record started_process =
  sp_pid :: int
  sp_record :: process_record
  sp_started :: rat

text \<open>Up to the registration; a process that cannot be registered is killed.\<close>

definition start_process ::
  "'w process_os \<Rightarrow> 'w process_host \<Rightarrow> subprocess_tool \<Rightarrow> pydict \<Rightarrow> loop_state \<Rightarrow> 'w process_world
   \<Rightarrow> (py_exc + started_process) \<times> 'w process_world"
where
  "start_process OS H B args state s =
     (let spec = bt_spec B; cwd = path_str (''/'', bt_cwd B) in
      if args \<noteq> [] then (Inl (ValueError ''bounded subprocess tool does not accept runtime arguments''), s)
      else
        let (started, s1) = consult (po_perf_counter OS) s;
            (environ, s2) = consult (po_environ OS) s1
        in case consult (po_popen OS (ss_argv spec) cwd (dupdate environ (ss_environment spec))) s2 of
            (Inl e, s3) \<Rightarrow> (Inl e, s3)
          | (Inr pid, s3) \<Rightarrow>
              (case (case consult (process_identity OS pid) s3 of
                  (Inl e, s4) \<Rightarrow> (Inl e, s4)
                | (Inr identity, s4) \<Rightarrow>
                    register_process H (ls_run_id state) pid identity (ss_argv spec) cwd (ss_timeout_seconds spec) s4) of
                (Inr r, s5) \<Rightarrow> (Inr \<lparr>sp_pid = pid, sp_record = r, sp_started = started\<rparr>, s5)
              | (Inl e, s5) \<Rightarrow> let ((failure, rc), s6) = kill_and_wait OS pid None s5
                  in (Inl (case failure of Some e' \<Rightarrow> e' | None \<Rightarrow> e), s6)))"

definition run_status :: "bool \<Rightarrow> int option \<Rightarrow> string" where
  "run_status timed_out returncode = (if timed_out then ''timed_out''
     else if returncode = Some 0 then ''completed'' else ''failed'')"

text \<open>The \<open>finally\<close> clause and the report.\<close>

definition conclude ::
  "'w process_os \<Rightarrow> 'w process_host \<Rightarrow> subprocess_tool \<Rightarrow> started_process \<Rightarrow> watched \<Rightarrow> 'w process_world
   \<Rightarrow> (py_exc + pydict) \<times> 'w process_world"
where
  "conclude OS H B p watched s =
     (let (failure, timed_out, rc) = watched;
          record_id = pr_record_id (sp_record p); limit = ss_max_output_bytes (bt_spec B);
          (chunks, s1) = consult (po_chunks OS (sp_pid p) False) s;
          (error_chunks, s2) = consult (po_chunks OS (sp_pid p) True) s1;
          out = drain limit chunks new_stream; err = drain limit error_chunks new_stream;
          (finished, s3) = finish H record_id (run_status timed_out rc) rc
             (if timed_out then Some ''timeout'' else None) s2
      in case finished of
          Inl e \<Rightarrow> (Inl e, s3)
        | Inr r \<Rightarrow> (case failure of
              Some e \<Rightarrow> (Inl e, s3)
            | None \<Rightarrow> let (t, s4) = consult (po_perf_counter OS) s3 in
                (Inr [(''process_record_id'', PStr record_id), (''argv'', pstrs (ss_argv (bt_spec B))),
                  (''cwd'', PStr (path_str (''/'', bt_cwd B))), (''exit_code'', popt_int rc),
                  (''timed_out'', PBool timed_out), (''stdout'', PStr (po_decode_replace OS (bs_data out))),
                  (''stderr'', PStr (po_decode_replace OS (bs_data err))), (''stdout_truncated'', PBool (bs_truncated out)),
                  (''stderr_truncated'', PBool (bs_truncated err)), (''duration_seconds'', pnum (t - sp_started p))], s4)))"

text \<open>The threads that read the process's output and its errors are started after the registration and before the
  \<open>try\<close>: when one cannot be started, nothing kills the process or closes its record.\<close>

definition start_drains :: "'w process_os \<Rightarrow> int \<Rightarrow> 'w process_world \<Rightarrow> py_exc option \<times> 'w process_world" where
  "start_drains OS pid s = (case consult (po_start_drain OS pid False) s of
      (Some e, s1) \<Rightarrow> (Some e, s1)
    | (None, s1) \<Rightarrow> consult (po_start_drain OS pid True) s1)"

text \<open>The \<open>try\<close>, its \<open>except\<close> and its \<open>finally\<close>.\<close>

definition attend ::
  "'w process_os \<Rightarrow> 'w process_host \<Rightarrow> subprocess_tool \<Rightarrow> started_process \<Rightarrow> 'w process_world
   \<Rightarrow> ((py_exc + pydict) \<times> 'w process_world) option"
where
  "attend OS H B p s =
     (let spec = bt_spec B; (t, s1) = consult (po_perf_counter OS) s in
      case watch OS H (ss_heartbeat_seconds spec) (sp_pid p) (pr_record_id (sp_record p)) (t + ss_timeout_seconds spec) None s1 of
        None \<Rightarrow> None
      | Some ((None, timed_out, rc), s2) \<Rightarrow> Some (conclude OS H B p (None, timed_out, rc) s2)
      | Some ((Some e, timed_out, rc), s2) \<Rightarrow>
          let ((failure, rc'), s3) = kill_and_wait OS (sp_pid p) rc s2
          in Some (conclude OS H B p (Some (case failure of Some e' \<Rightarrow> e' | None \<Rightarrow> e), timed_out, rc') s3))"

definition supervise ::
  "'w process_os \<Rightarrow> 'w process_host \<Rightarrow> subprocess_tool \<Rightarrow> started_process \<Rightarrow> 'w process_world
   \<Rightarrow> ((py_exc + pydict) \<times> 'w process_world) option"
where
  "supervise OS H B p s = (case start_drains OS (sp_pid p) s of
      (Some e, s1) \<Rightarrow> Some (Inl e, s1)
    | (None, s1) \<Rightarrow> attend OS H B p s1)"

definition subprocess_call ::
  "'w process_os \<Rightarrow> 'w process_host \<Rightarrow> subprocess_tool \<Rightarrow> pydict \<Rightarrow> loop_state \<Rightarrow> 'w process_world
   \<Rightarrow> ((py_exc + pydict) \<times> 'w process_world) option"
where
  "subprocess_call OS H B args state s = (case start_process OS H B args state s of
      (Inl e, s1) \<Rightarrow> Some (Inl e, s1)
    | (Inr p, s1) \<Rightarrow> supervise OS H B p s1)"

section \<open>What is captured\<close>

lemma drain_exact:
  assumes "int (length (bs_data b)) \<le> limit"
  shows "bs_data (drain limit chunks b) = take (nat limit) (bs_data b @ concat (takeWhile (\<lambda>c. c \<noteq> []) chunks)) \<and>
    (bs_truncated (drain limit chunks b) \<longleftrightarrow>
       bs_truncated b \<or> int (length (bs_data b @ concat (takeWhile (\<lambda>c. c \<noteq> []) chunks))) > limit)"
  using assms
proof (induction limit chunks b rule: drain.induct)
  case (3 limit x xs chunks b)
  let ?c = "x # xs" and ?b = "drain_chunk limit (x # xs) b"
  have b': "bs_data ?b = take (nat limit) (bs_data b @ ?c)"
    using "3.prems" by (auto simp: drain_chunk_def Let_def nat_diff_distrib)
  then have "int (length (bs_data ?b)) \<le> limit" using "3.prems" by simp
  note IH = "3.IH" [OF this]
  have cut: "take n (take n zs @ ys) = take n (zs @ ys)" for n and zs ys :: "8 word list"
    by (cases "n \<le> length zs") simp_all
  have "take (nat limit) (bs_data ?b @ ys) = take (nat limit) (bs_data b @ ?c @ ys)" for ys
    unfolding b' cut by simp
  moreover have "bs_truncated ?b \<longleftrightarrow> bs_truncated b \<or> int (length (bs_data b @ ?c)) > limit"
    by (auto simp: drain_chunk_def Let_def)
  ultimately show ?case using IH b' "3.prems" by (auto simp: min_def split: if_splits)
qed auto

section \<open>Invariants of the watching\<close>

text \<open>What stays true of the registry and its file while a process is watched and killed: what
  other threads, which act during a wait, and the heartbeats keep.\<close>

definition wait_keeps :: "'w process_os \<Rightarrow> ('w process_world \<Rightarrow> bool) \<Rightarrow> bool" where
  "wait_keeps OS I \<longleftrightarrow> (\<forall>s w. I s \<longrightarrow> I (s\<lparr>pw_world := w\<rparr>)) \<and> (\<forall>pid t s. I s \<longrightarrow> I (snd (po_wait OS pid t s)))"

lemma keeps_consult: "wait_keeps OS I \<Longrightarrow> I s \<Longrightarrow> I (snd (consult f s))"
  by (simp add: wait_keeps_def consult_eq)

lemma keeps_poll: "wait_keeps OS I \<Longrightarrow> I s \<Longrightarrow> I (snd (os_poll OS pid rc s))"
  by (simp add: os_poll_def keeps_consult split: option.split)

lemma keeps_wait: "wait_keeps OS I \<Longrightarrow> I s \<Longrightarrow> I (snd (os_wait OS pid t rc s))"
  by (simp add: os_wait_def wait_keeps_def split: option.split)

lemma keeps_terminate:
  assumes "wait_keeps OS I" "I s"
  shows "I (snd (terminate_tree OS pid rc s))"
proof -
  obtain rc1 s1 where 1: "os_poll OS pid rc s = (rc1, s1)" by fastforce
  obtain e s2 where 2: "consult (killpg_quietly OS pid) s1 = (e, s2)" by fastforce
  obtain rc2 s3 where 3: "os_poll OS pid rc1 s2 = (rc2, s3)" by fastforce
  obtain e' s4 where 4: "consult (po_kill OS pid) s3 = (e', s4)" by fastforce
  have "I s1" "I s2" "I s3" "I s4"
    using assms keeps_poll [of OS I s pid rc] keeps_consult [of OS I s1 "killpg_quietly OS pid"]
      keeps_poll [of OS I s2 pid rc1] keeps_consult [of OS I s3 "po_kill OS pid"] 1 2 3 4 by simp_all
  then show ?thesis
    using 1 2 3 4 by (cases rc1; cases e; cases rc2) (simp_all add: terminate_tree_def)
qed

lemma keeps_kill:
  assumes "wait_keeps OS I" "I s"
  shows "I (snd (kill_and_wait OS pid rc s))"
proof -
  obtain e rc1 s1 where t: "terminate_tree OS pid rc s = ((e, rc1), s1)" by (metis surj_pair)
  then have "I s1" using keeps_terminate [OF assms, of pid rc] by simp
  with keeps_wait [OF assms(1) this, of pid 5 rc1] t show ?thesis
    by (auto simp: kill_and_wait_def split: option.split wait_outcome.split prod.split)
qed

definition watch_keeps :: "'w process_os \<Rightarrow> 'w process_host \<Rightarrow> string \<Rightarrow> ('w process_world \<Rightarrow> bool) \<Rightarrow> bool" where
  "watch_keeps OS H k I \<longleftrightarrow> wait_keeps OS I \<and> (\<forall>s. I s \<longrightarrow> I (snd (heartbeat H k s)))"

lemma watch_invariant:
  fixes OS :: "'w process_os"
  assumes "watch OS H hb pid k deadline rc s = Some (out, s')" "watch_keeps OS H k I" "I s"
  shows "I s' \<and> (fst out = None \<longrightarrow> \<not> fst (snd out) \<longrightarrow> snd (snd out) \<noteq> None)"
proof -
  define G where "G OS' H' hb' pid' k' dl rc s y \<longleftrightarrow> (watch_keeps OS' H' k' I \<longrightarrow> I s \<longrightarrow>
      I (snd y) \<and> (fst (fst y) = None \<longrightarrow> \<not> fst (snd (fst y)) \<longrightarrow> snd (snd (fst y)) \<noteq> None))"
    for OS' :: "'w process_os" and H' and hb' dl :: rat and pid' :: int and k' and rc :: "int option" and s and y :: "watched \<times> 'w process_world"
  have "G OS H hb pid k deadline rc s (out, s')"
  proof (rule watch.raw_induct [of G, OF _ assms(1)])
    fix loop and OS :: "'w process_os" and H hb pid k deadline rc s y
    assume IH: "\<And>OS H hb pid k deadline rc s y. loop OS H hb pid k deadline rc s = Some y \<Longrightarrow> G OS H hb pid k deadline rc s y"
      and body: "(let (rc, s1) = os_poll OS pid rc s
        in if rc \<noteq> None then Some ((None, False, rc), s1)
           else let (t, s2) = consult (po_perf_counter OS) s1
                in if deadline - t \<le> 0 then let ((failure, rc'), s3) = kill_and_wait OS pid rc s2 in Some ((failure, True, rc'), s3)
                   else case os_wait OS pid (min hb (deadline - t)) rc s2 of
                       (Exited c, s3) \<Rightarrow> loop OS H hb pid k deadline (Some c) s3
                     | (Wait_Timeout, s3) \<Rightarrow> (case heartbeat H k s3 of (Inl e, s4) \<Rightarrow> Some ((Some e, False, rc), s4)
                         | (Inr r, s4) \<Rightarrow> loop OS H hb pid k deadline rc s4)
                     | (Interrupted e, s3) \<Rightarrow> Some ((Some e, False, rc), s3)) = Some y"
    show "G OS H hb pid k deadline rc s y"
      unfolding G_def
    proof (intro impI)
      assume keeps: "watch_keeps OS H k I" and I: "I s"
      obtain rc1 s1 where 1: "os_poll OS pid rc s = (rc1, s1)" by fastforce
      obtain t s2 where 2: "consult (po_perf_counter OS) s1 = (t, s2)" by fastforce
      obtain e rc' sk where k: "kill_and_wait OS pid rc1 s2 = ((e, rc'), sk)" by (metis surj_pair)
      obtain x s3 where 3: "os_wait OS pid (min hb (deadline - t)) rc1 s2 = (x, s3)" by fastforce
      obtain h s4 where 4: "heartbeat H k s3 = (h, s4)" by fastforce
      have Is: "I s1" "I s2" "I sk" "I s3" "I s4"
        using keeps I keeps_poll [of OS I s pid rc] keeps_consult [of OS I s1 "po_perf_counter OS"]
          keeps_kill [of OS I s2 pid rc1] keeps_wait [of OS I s2 pid "min hb (deadline - t)" rc1] 1 2 3 4 k
        by (simp_all add: watch_keeps_def) (metis snd_conv)
      show "I (snd y) \<and> (fst (fst y) = None \<longrightarrow> \<not> fst (snd (fst y)) \<longrightarrow> snd (snd (fst y)) \<noteq> None)"
      proof (cases rc1)
        case (Some c)
        with body 1 Is show ?thesis by auto
      next
        case None
        note body' = body [unfolded 1 None Let_def, simplified]
        have IH1: "loop OS H hb pid k deadline (Some c) s3 = Some y \<Longrightarrow> ?thesis" for c
          using IH [of OS H hb pid k deadline "Some c" s3 y] keeps Is unfolding G_def by blast
        have IH2: "loop OS H hb pid k deadline None s4 = Some y \<Longrightarrow> ?thesis"
          using IH [of OS H hb pid k deadline None s4 y] keeps Is unfolding G_def by blast
        show ?thesis
          using body' 2 3 [unfolded None] 4 k [unfolded None] Is IH1 IH2
          by (cases x; cases h) (auto split: if_splits)
      qed
    qed
  qed
  with assms(2,3) show ?thesis by (simp add: G_def)
qed

section \<open>What the registry holds\<close>

text \<open>Other threads leave the registry alone while the tool waits.\<close>

definition others_quiet :: "'w process_os \<Rightarrow> bool" where
  "others_quiet OS \<longleftrightarrow> (\<forall>pid t s. pw_records (snd (po_wait OS pid t s)) = pw_records s)"

text \<open>While the process is watched its record stays as registered, but for the heartbeat.\<close>

definition beaten :: "process_record \<Rightarrow> process_records \<Rightarrow> process_records \<Rightarrow> bool" where
  "beaten r d d' \<longleftrightarrow> (\<exists>t. dget d' (pr_record_id r) = Some (r\<lparr>pr_heartbeat_at := t\<rparr>)) \<and>
     (\<forall>j. j \<noteq> pr_record_id r \<longrightarrow> dget d' j = dget d j)"

lemma beaten_heartbeat:
  "beaten r d (pw_records s) \<Longrightarrow> beaten r d (pw_records (snd (heartbeat H (pr_record_id r) s)))"
  by (auto simp: heartbeat_def require_running_def beaten_def consult_eq Let_def split: option.split)

lemma quiet_keeps_beaten:
  "others_quiet OS \<Longrightarrow> watch_keeps OS H (pr_record_id r) (\<lambda>s. beaten r d (pw_records s))"
  by (simp add: watch_keeps_def wait_keeps_def others_quiet_def beaten_heartbeat)

lemma quiet_kill_records: "others_quiet OS \<Longrightarrow> pw_records (snd (kill_and_wait OS pid rc s)) = pw_records s"
  by (rule keeps_kill [of OS "\<lambda>s'. pw_records s' = pw_records s"]) (simp_all add: wait_keeps_def others_quiet_def)

text \<open>The \<open>finally\<close> clause closes the record, whatever happened before.\<close>

lemma conclude_finishes:
  assumes "conclude OS H B p (failure, timed_out, rc) s = (out, s')"
  shows "\<exists>w fin s3. finish H (pr_record_id (sp_record p)) (run_status timed_out rc) rc
      (if timed_out then Some ''timeout'' else None) (s\<lparr>pw_world := w\<rparr>) = (fin, s3) \<and> pw_records s' = pw_records s3 \<and>
    (\<forall>d. out = Inr d \<longrightarrow> failure = None \<and> dget d ''process_record_id'' = Some (PStr (pr_record_id (sp_record p))) \<and>
       dget d ''exit_code'' = Some (popt_int rc) \<and> dget d ''timed_out'' = Some (PBool timed_out))"
proof -
  obtain c1 s1 where 1: "consult (po_chunks OS (sp_pid p) False) s = (c1, s1)" by fastforce
  obtain c2 s2 where 2: "consult (po_chunks OS (sp_pid p) True) s1 = (c2, s2)" by fastforce
  obtain fin s3 where 3: "finish H (pr_record_id (sp_record p)) (run_status timed_out rc) rc
      (if timed_out then Some ''timeout'' else None) s2 = (fin, s3)" by fastforce
  obtain t s4 where 4: "consult (po_perf_counter OS) s3 = (t, s4)" by fastforce
  have "s2 = s\<lparr>pw_world := pw_world s2\<rparr>" using 1 2 by (auto simp: consult_eq)
  moreover have "pw_records s' = pw_records s3"
    using assms 1 2 3 4 by (cases fin; cases failure) (simp_all add: conclude_def Let_def, auto simp: consult_eq)
  moreover have "\<forall>d. out = Inr d \<longrightarrow> failure = None \<and> dget d ''process_record_id'' = Some (PStr (pr_record_id (sp_record p))) \<and>
       dget d ''exit_code'' = Some (popt_int rc) \<and> dget d ''timed_out'' = Some (PBool timed_out)"
    using assms 1 2 3 4 by (cases fin; cases failure) (auto simp: conclude_def Let_def dget_def)
  ultimately show ?thesis using 3 by metis
qed

lemma run_status_values [simp]: "run_status a b \<noteq> ''running''"
  by (simp add: run_status_def)

lemma finish_closes:
  "finish H k status rc reason s = (fin, s') \<Longrightarrow> status \<noteq> ''running'' \<Longrightarrow> dget (pw_records s') k = Some r \<Longrightarrow>
   pr_status r \<noteq> ''running''"
  by (auto simp: finish_def consult_eq Let_def split: option.splits if_splits)

lemma attend_conclude:
  assumes "attend OS H B p s = Some (out, s')"
  shows "\<exists>w watched s1 failure timed_out rc s2. conclude OS H B p (failure, timed_out, rc) s2 = (out, s') \<and>
    watch OS H (ss_heartbeat_seconds (bt_spec B)) (sp_pid p) (pr_record_id (sp_record p))
      (fst (po_perf_counter OS (pw_world s)) + ss_timeout_seconds (bt_spec B)) None (s\<lparr>pw_world := w\<rparr>) = Some (watched, s1) \<and>
    (failure = None \<and> watched = (None, timed_out, rc) \<and> s2 = s1 \<or>
     failure \<noteq> None \<and> fst (snd watched) = timed_out \<and> s2 = snd (kill_and_wait OS (sp_pid p) (snd (snd watched)) s1))"
proof -
  obtain e timed_out rc s1 where w: "watch OS H (ss_heartbeat_seconds (bt_spec B)) (sp_pid p) (pr_record_id (sp_record p))
      (fst (po_perf_counter OS (pw_world s)) + ss_timeout_seconds (bt_spec B)) None
      (s\<lparr>pw_world := snd (po_perf_counter OS (pw_world s))\<rparr>) = Some ((e, timed_out, rc), s1)"
    using assms by (auto simp: attend_def Let_def consult_eq split: option.splits)
  show ?thesis
  proof (cases e)
    case None
    with assms w have "conclude OS H B p (None, timed_out, rc) s1 = (out, s')"
      by (simp add: attend_def Let_def consult_eq)
    with w None show ?thesis
      by (intro exI [of _ "snd (po_perf_counter OS (pw_world s))"] exI [of _ "(None, timed_out, rc)"] exI [of _ s1]
          exI [of _ None] exI [of _ timed_out] exI [of _ rc] exI [of _ s1]) simp
  next
    case (Some x)
    obtain f rc' s2 where k: "kill_and_wait OS (sp_pid p) rc s1 = ((f, rc'), s2)" by (metis surj_pair)
    with assms w Some have "conclude OS H B p (Some (case f of Some e' \<Rightarrow> e' | None \<Rightarrow> x), timed_out, rc') s2 = (out, s')"
      by (simp add: attend_def Let_def consult_eq)
    moreover have "s2 = snd (kill_and_wait OS (sp_pid p) rc s1)" using k by simp
    ultimately show ?thesis using w by (metis fst_conv option.distinct(1) snd_conv)
  qed
qed

end
