(* ===== verification/Subprocess_Properties.thy ===== *)
theory Subprocess_Properties
  imports Bounded_Subprocess
begin

text \<open>
  What the bounded subprocess tool guarantees: once the threads that read its output have been started, the record of a
  process is closed when the call is over, the report agrees with it, the registry's file follows, a call returns
  once the clock passes its deadline, and the captured output is a bounded prefix. At the end, what the
  process identity does not tell apart.
\<close>

section \<open>The registry\<close>








section \<open>The watching ends\<close>

text \<open>What the watching relies on of clock and operating system: a reading lies between the times before
  and after it, nothing turns the time back, and a wait that times out has lasted as long as asked.\<close>

definition waiting_law :: "'w process_os \<Rightarrow> 'w process_host \<Rightarrow> ('w \<Rightarrow> rat) \<Rightarrow> bool" where
  "waiting_law OS H now \<longleftrightarrow>
     (\<forall>w. now w \<le> fst (po_perf_counter OS w) \<and> fst (po_perf_counter OS w) \<le> now (snd (po_perf_counter OS w))) \<and>
     (\<forall>pid w. now w \<le> now (snd (po_poll OS pid w))) \<and> (\<forall>w. now w \<le> now (snd (ph_clock H w))) \<and>
     (\<forall>pid t s s'. po_wait OS pid t s = (Wait_Timeout, s') \<longrightarrow> now (pw_world s) + t \<le> now (pw_world s'))"

lemma watch_known: "watch OS H hb pid k deadline (Some c) s = Some ((None, False, Some c), s)"
  by (simp add: watch.simps os_poll_def)

lemma watch_over:
  assumes "os_poll OS pid rc s = (rc1, s1)" "rc1 \<noteq> None \<or> deadline \<le> fst (po_perf_counter OS (pw_world s1))"
  shows "watch OS H hb pid k deadline rc s \<noteq> None"
proof -
  obtain t s2 where 2: "consult (po_perf_counter OS) s1 = (t, s2)" by fastforce
  obtain e rc' s3 where 3: "kill_and_wait OS pid rc1 s2 = ((e, rc'), s3)" by (metis surj_pair)
  have "t = fst (po_perf_counter OS (pw_world s1))" using 2 by (auto simp: consult_eq)
  with assms 2 3 show ?thesis by (cases rc1) (auto simp: watch.simps [of OS H hb pid k deadline rc s])
qed

lemma watch_returns:
  assumes law: "waiting_law OS H now" and hb: "0 < hb"
  shows "watch OS H hb pid k deadline rc s \<noteq> None"
proof -
  have perf: "now w \<le> fst (po_perf_counter OS w)" "fst (po_perf_counter OS w) \<le> now (snd (po_perf_counter OS w))" for w
    using law by (simp_all add: waiting_law_def)
  have "deadline - now (pw_world s) \<le> of_nat n * hb \<Longrightarrow> ?thesis" for n
  proof (induction n arbitrary: s rc)
    case 0
    obtain rc1 s1 where 1: "os_poll OS pid rc s = (rc1, s1)" by fastforce
    then have "now (pw_world s) \<le> now (pw_world s1)"
      using law by (auto simp: os_poll_def consult_eq waiting_law_def split: option.splits)
    then have "deadline \<le> fst (po_perf_counter OS (pw_world s1))" using 0 perf(1) [of "pw_world s1"] by simp
    then show ?case using watch_over [OF 1] by blast
  next
    case (Suc n)
    obtain rc1 s1 where 1: "os_poll OS pid rc s = (rc1, s1)" by fastforce
    then have up1: "now (pw_world s) \<le> now (pw_world s1)"
      using law by (auto simp: os_poll_def consult_eq waiting_law_def split: option.splits)
    define t where "t = fst (po_perf_counter OS (pw_world s1))"
    define s2 where "s2 = snd (consult (po_perf_counter OS) s1)"
    have 2: "consult (po_perf_counter OS) s1 = (t, s2)" by (simp add: consult_eq t_def s2_def)
    have up2: "now (pw_world s1) \<le> t" "t \<le> now (pw_world s2)"
      using perf [of "pw_world s1"] by (simp_all add: t_def s2_def consult_eq)
    show ?case
    proof (cases "rc1 = None \<and> t < deadline")
      case False
      then show ?thesis using watch_over [OF 1] by (auto simp: t_def)
    next
      case True
      let ?d = "min hb (deadline - t)"
      obtain y s3 where 3: "os_wait OS pid ?d None s2 = (y, s3)" by fastforce
      obtain h s4 where 4: "heartbeat H k s3 = (h, s4)" by fastforce
      have step: "watch OS H hb pid k deadline rc s = (case y of
          Exited c \<Rightarrow> watch OS H hb pid k deadline (Some c) s3
        | Interrupted e \<Rightarrow> Some ((Some e, False, None), s3)
        | Wait_Timeout \<Rightarrow> (case h of Inl e \<Rightarrow> Some ((Some e, False, None), s4) | Inr r \<Rightarrow> watch OS H hb pid k deadline None s4))"
        using True 1 2 3 4 by (simp add: watch.simps [of OS H hb pid k deadline rc s] split: wait_outcome.split)
      have "watch OS H hb pid k deadline None s4 \<noteq> None" if "y = Wait_Timeout"
      proof -
        have "now (pw_world s2) + ?d \<le> now (pw_world s3)"
          using 3 that law by (auto simp: os_wait_def waiting_law_def)
        moreover have "now (pw_world s3) \<le> now (pw_world s4)"
          using 4 law by (auto simp: heartbeat_def consult_eq Let_def waiting_law_def split: sum.splits)
        ultimately have "deadline \<le> now (pw_world s4) \<or> now (pw_world s) + hb \<le> now (pw_world s4)"
          using up1 up2 by (auto simp: min_def split: if_splits)
        moreover have "0 \<le> of_nat n * hb" using hb by simp
        ultimately have "deadline - now (pw_world s4) \<le> of_nat n * hb"
          using Suc.prems by (auto simp: algebra_simps)
        then show ?thesis by (rule Suc.IH)
      qed
      with step show ?thesis by (cases y; cases h) (simp_all add: watch_known)
    qed
  qed
  moreover obtain n :: nat where "(deadline - now (pw_world s)) / hb \<le> of_nat n" using real_arch_simple by blast
  ultimately show ?thesis using hb by (simp add: divide_le_eq)
qed

section \<open>An example\<close>

text \<open>The outside world is the time; the process exits at time 3.\<close>

definition stat_line :: "string \<Rightarrow> string \<Rightarrow> string" where
  "stat_line command start = ''7 '' @ command @ '' S 1 7 7 0 -1 4194304 100 0 0 0 1 1 0 0 20 0 1 0 '' @ start @ '' 0''"

definition example_os :: "rat process_os" where
  "example_os = \<lparr>po_environ = (\<lambda>w. ([], w)), po_popen = (\<lambda>argv cwd env w. (Inr 7, w)), po_stat = (\<lambda>pid w. (Some (stat_line ''(make)'' ''55''), w)),
     po_poll = (\<lambda>pid w. (if 3 \<le> w then Some 0 else None, w)),
     po_wait = (\<lambda>pid t s. if 3 \<le> pw_world s + t then (Exited 0, s\<lparr>pw_world := max 3 (pw_world s)\<rparr>)
       else (Wait_Timeout, s\<lparr>pw_world := pw_world s + t\<rparr>)),
     po_killpg = (\<lambda>pid w. (None, w)), po_kill = (\<lambda>pid w. (None, w)),
     po_start_drain = (\<lambda>pid err w. (None, w)), po_chunks = (\<lambda>pid err w. ([utf8 ''x''], w)),
     po_perf_counter = (\<lambda>w. (w, w)), po_decode_replace = (\<lambda>b. [])\<rparr>"

definition example_command :: subprocess_tool where
  "example_command = \<lparr>bt_workspace_root = [''w''], bt_spec = default_subprocess_spec\<lparr>ss_argv := [''make'']\<rparr>, bt_cwd = [''w'']\<rparr>"

lemma example_law: "waiting_law example_os H (\<lambda>w. w) \<longleftrightarrow> (\<forall>w. w \<le> snd (ph_clock H w))"
  by (auto simp: waiting_law_def example_os_def split: if_splits)

definition example_host :: "rat process_host" where
  "example_host = \<lparr>ph_codec = \<lparr>jc_dumps = (\<lambda>v. []), jc_loads = (\<lambda>t. None)\<rparr>, ph_path = None, ph_clock = (\<lambda>w. (w, w)), ph_uuid = (\<lambda>w. (''r1'', w)),
     ph_hostname = (\<lambda>w. (''host'', w)), ph_sha256 = (\<lambda>x. x)\<rparr>"

definition example_state :: loop_state where
  "example_state = \<lparr>ls_run_id = ''run'', ls_definition = counter_definition 1, ls_status = LS_RUNNING, ls_phase = LP_EXECUTING,
     ls_iteration = 1, ls_action_count = 0, ls_started_at = None, ls_finished_at = None, ls_current_focus = [],
     ls_latest_plan = None, ls_next_action_index = 0, ls_iteration_results = [], ls_action_results = [],
     ls_latest_verification = None, ls_latest_judgement = None, ls_observation_signatures = [], ls_stop_reason = None,
     ls_events = []\<rparr>"

definition empty_registry :: "rat process_world" where
  "empty_registry = \<lparr>pw_records = [], pw_files = [], pw_world = 0\<rparr>"








section \<open>Properties\<close>



text \<open>
  C27: a call of the tool, with a command that the class accepts, returns on every world whose clock
  advances with the time that is waited: the process is watched for at most as many rounds as heartbeats fit
  into its time, whatever the operating system answers.
\<close>

theorem subprocess_returns:
  assumes "waiting_law OS H now" "mk_subprocess_spec spec = Inr (bt_spec B)"
  shows "\<exists>out s'. subprocess_call OS H B args state s = Some (out, s')"
proof -
  have hb: "0 < ss_heartbeat_seconds (bt_spec B)" using assms(2) by (auto simp: mk_subprocess_spec_def split: if_splits)
  obtain x s1 where start: "start_process OS H B args state s = (x, s1)" by fastforce
  show ?thesis
  proof (cases x)
    case (Inr p)
    obtain d s2 where drains: "start_drains OS (sp_pid p) s1 = (d, s2)" by fastforce
    let ?s = "s2\<lparr>pw_world := snd (po_perf_counter OS (pw_world s2))\<rparr>"
    obtain e timed_out rc s3 where "watch OS H (ss_heartbeat_seconds (bt_spec B)) (sp_pid p) (pr_record_id (sp_record p))
        (fst (po_perf_counter OS (pw_world s2)) + ss_timeout_seconds (bt_spec B)) None ?s = Some ((e, timed_out, rc), s3)"
      using watch_returns [OF assms(1) hb] by (metis not_None_eq surj_pair)
    moreover obtain f rc' s4 where "kill_and_wait OS (sp_pid p) rc s3 = ((f, rc'), s4)" by (metis surj_pair)
    ultimately have "attend OS H B p s2 \<noteq> None"
      by (cases e) (simp_all add: attend_def consult_eq)
    with drains have "supervise OS H B p s1 \<noteq> None" by (cases d) (simp_all add: supervise_def)
    with start Inr show ?thesis by (auto simp: subprocess_call_def)
  qed (use start in \<open>simp add: subprocess_call_def\<close>)
qed

theorem subprocess_returns_witness:
  "\<exists>out s'. subprocess_call example_os example_host example_command [] example_state empty_registry = Some (out, s')"
  by (rule subprocess_returns [of _ _ "\<lambda>w. w" "bt_spec example_command"])
    (simp add: example_law example_host_def, code_simp)

text \<open>
  What is captured of a stream is the longest prefix of it within the limit, and the mark tells
  exactly whether anything was left out; reading goes on to the end of the stream in any case.
\<close>

theorem captured_output_exact:
  assumes "0 < limit"
  shows "bs_data (drain limit chunks new_stream) = take (nat limit) (concat (takeWhile (\<lambda>c. c \<noteq> []) chunks)) \<and>
    (bs_truncated (drain limit chunks new_stream) \<longleftrightarrow> limit < int (length (concat (takeWhile (\<lambda>c. c \<noteq> []) chunks))))"
  using drain_exact [of new_stream limit chunks] assms by (simp add: new_stream_def)

theorem captured_output_exact_witness:
  "bs_data (drain 3 [[1, 2], [3, 4], [5]] new_stream) = [1, 2, 3] \<and> bs_truncated (drain 3 [[1, 2], [3, 4], [5]] new_stream)"
  using captured_output_exact [of 3 "[[1, 2], [3, 4], [5]]"] by simp

definition named_os :: "string \<Rightarrow> string \<Rightarrow> int list process_os" where
  "named_os command start = \<lparr>po_environ = (\<lambda>w. ([], w)), po_popen = (\<lambda>argv cwd env w. (Inr 7, w)),
     po_stat = (\<lambda>pid w. (Some (stat_line command start), w)), po_poll = (\<lambda>pid w. (None, w)),
     po_wait = (\<lambda>pid t s. (Wait_Timeout, s)), po_killpg = (\<lambda>pid w. (None, w @ [pid])), po_kill = (\<lambda>pid w. (None, w)),
     po_start_drain = (\<lambda>pid err w. (None, w)), po_chunks = (\<lambda>pid err w. ([], w)),
     po_perf_counter = (\<lambda>w. (0, w)), po_decode_replace = (\<lambda>b. [])\<rparr>"

definition host_at :: "rat \<Rightarrow> int list process_host" where
  "host_at t = \<lparr>ph_codec = \<lparr>jc_dumps = (\<lambda>v. []), jc_loads = (\<lambda>t. None)\<rparr>, ph_path = None, ph_clock = (\<lambda>w. (t, w)),
     ph_uuid = (\<lambda>w. (''r1'', w)), ph_hostname = (\<lambda>w. (''host'', w)), ph_sha256 = (\<lambda>x. x)\<rparr>"

text \<open>Process 7, started at \<open>100\<close>, is registered; later the stale records are reaped, and process 7 is
  one that was started at \<open>999\<close>. The value is the list of killed processes.\<close>

definition reaped_later :: "string \<Rightarrow> int list" where
  "reaped_later command = pw_world (snd (reap_stale_processes (named_os command ''999'') (host_at 100) 30
     (snd (start_process (named_os command ''100'') (host_at 0) example_command [] example_state
        \<lparr>pw_records = [], pw_files = [], pw_world = []\<rparr>))))"

text \<open>
  The identity of a process is the 22nd word of its \<open>stat\<close> line, which is its start time only when
  the command's name holds no blank: a process that has taken over the number of a registered one is left alone,
  as it should be, when its name has no blank, and is killed when it has one.
\<close>

theorem blank_hides_start_time:
  "reaped_later ''(make)'' = [] \<and> reaped_later ''(my tool)'' = [7]"
  by code_simp

end
