(* ===== verification/Loop_Profiles.thy ===== *)
theory Loop_Profiles
  imports Bounded_Subprocess LLM_Planner Evidence_Verifier Loop_Provenance
begin

text \<open>
  The loops that the repository builds for coding work (\<open>loop_engine/profiles/\<close>): one check command,
  scripted repair, repair planned by a language model, and the collection of read-only evidence. A
  builder checks its arguments, wires file tools, subprocess tool, planner, verifier and judge into
  an engine, and gives the definition of the run. Clocks, checkpoint store and language model act on
  the rest of the world, not on the workspace's tree; how a checked subprocess tool runs is an argument.
\<close>

section \<open>The host\<close>

record 'w loop_host =
  lh_utc_now :: "'w \<Rightarrow> string \<times> 'w"
  lh_now :: "'w \<Rightarrow> rat \<times> 'w"
  lh_perf_counter :: "'w \<Rightarrow> rat \<times> 'w"
  lh_fromisoformat :: "string \<Rightarrow> rat"
  lh_digest :: "pyval \<Rightarrow> string"
  lh_store :: "(loop_state \<Rightarrow> 'w \<Rightarrow> 'w) option"
  lh_root :: "string list"
  lh_workspace :: workspace
  lh_subprocess :: "subprocess_tool \<Rightarrow> 'w site tool"
  lh_dumps :: "pyval \<Rightarrow> string"
  lh_dumps_indented :: "pyval \<Rightarrow> string"
  lh_str :: "pyval \<Rightarrow> string"

definition on_world :: "('w \<Rightarrow> 'a \<times> 'w) \<Rightarrow> 'w site \<Rightarrow> 'a \<times> 'w site" where
  "on_world f s = (let (x, w) = f (st_world s) in (x, s\<lparr>st_world := w\<rparr>))"

definition site_client :: "'w llm_client \<Rightarrow> 'w site llm_client" where
  "site_client client messages = on_world (client messages)"

definition profile_engine ::
  "'w loop_host \<Rightarrow> (loop_state \<Rightarrow> 'w site \<Rightarrow> (py_exc + plan) \<times> 'w site) \<Rightarrow> 'w site tool_registry
   \<Rightarrow> (loop_state \<Rightarrow> action_result list \<Rightarrow> 'w site \<Rightarrow> (py_exc + verification_result) \<times> 'w site)
   \<Rightarrow> (loop_state \<Rightarrow> verification_result \<Rightarrow> py_exc + judgement) \<Rightarrow> 'w site loop_engine"
where
  "profile_engine H planner tools verifier judge =
     \<lparr>eng_planner = planner, eng_executor = execute_tool (on_world (lh_perf_counter H)) tools,
      eng_verifier = verifier, eng_judge = (\<lambda>s v w. (judge s v, w)),
      eng_checkpoint_store = map_option (\<lambda>save s w. w\<lparr>st_world := save s (st_world w)\<rparr>) (lh_store H),
      eng_utc_now = on_world (lh_utc_now H), eng_now = on_world (lh_now H),
      eng_perf_counter = on_world (lh_perf_counter H), eng_fromisoformat = lh_fromisoformat H,
      eng_digest = lh_digest H\<rparr>"

text \<open>\<open>BoundedFilesystem(workspace_root)\<close> with its default limits.\<close>

definition default_workspace :: "'w loop_host \<Rightarrow> file_tree \<Rightarrow> py_exc + workspace" where
  "default_workspace H t = open_workspace ((lh_workspace H)\<lparr>wk_root := lh_root H, wk_max_read_bytes := 256 * 1024,
     wk_max_list_entries := 500, wk_max_search_matches := 200\<rparr>) t"

text \<open>\<open>BoundedSubprocessTool(workspace_root, SubprocessSpec(...))\<close>.\<close>

definition command_tool ::
  "'w loop_host \<Rightarrow> file_tree \<Rightarrow> string list \<Rightarrow> rat \<Rightarrow> int \<Rightarrow> py_exc + 'w site tool" where
  "command_tool H t command timeout_seconds max_output_bytes =
     exc_bind (mk_subprocess_spec (default_subprocess_spec\<lparr>ss_argv := command, ss_timeout_seconds := timeout_seconds,
         ss_max_output_bytes := max_output_bytes\<rparr>)) (\<lambda>spec.
     exc_bind (mk_subprocess_tool (wk_link_limit (lh_workspace H)) t (lh_root H) spec) (\<lambda>B.
       Inr (lh_subprocess H B)))"

definition plain_action :: "string \<Rightarrow> pydict \<Rightarrow> string \<Rightarrow> action" where
  "plain_action tool args reason = \<lparr>ac_tool = tool, ac_arguments = args, ac_reason = reason\<rparr>"

section \<open>One check command\<close>

definition check_plan :: plan where
  "check_plan = \<lparr>pl_actions = [plain_action ''run_verification'' [] ''collect objective coding verification evidence''],
     pl_rationale = ''run the configured verification command once'',
     pl_expected_evidence = [''process exit code'', ''bounded stdout'', ''bounded stderr'']\<rparr>"

definition check_definition :: "'w loop_host \<Rightarrow> string list \<Rightarrow> rat \<Rightarrow> int \<Rightarrow> loop_definition" where
  "check_definition H command timeout_seconds max_output_bytes =
     \<lparr>ld_goal = ''Run a bounded coding verification command and evaluate its evidence'',
      ld_success_criteria = [''verification command exits with code 0''],
      ld_constraints = [''command is immutable after loop construction'',
        ''working directory remains inside workspace root'', ''process tree is terminated on timeout'',
        ''captured output is bounded''],
      ld_budget = default_loop_budget\<lparr>lb_max_iterations := 1, lb_max_actions := 1,
        lb_timeout_seconds := max (timeout_seconds + 10) 15\<rparr>,
      ld_metadata = [(''workspace_root'', PStr (path_str (''/'', lh_root H))), (''command'', pstrs command),
        (''subprocess_timeout_seconds'', pnum timeout_seconds), (''max_output_bytes'', PInt max_output_bytes)]\<rparr>"

definition build_coding_check_loop ::
  "'w loop_host \<Rightarrow> file_tree \<Rightarrow> string list \<Rightarrow> rat \<Rightarrow> int \<Rightarrow> py_exc + 'w site loop_engine \<times> loop_definition"
where
  "build_coding_check_loop H t command timeout_seconds max_output_bytes =
     exc_bind (command_tool H t command timeout_seconds max_output_bytes) (\<lambda>verification.
     exc_bind (register_tool ''run_verification'' verification []) (\<lambda>tools.
       Inr (profile_engine H (\<lambda>s w. (Inr check_plan, w)) tools (\<lambda>s results w. (Inr (coding_verify results), w))
              (\<lambda>s v. Inr (coding_check_judge s v)),
         check_definition H command timeout_seconds max_output_bytes)))"

section \<open>Scripted repair\<close>

text \<open>\<open>str(value)\<close>, and \<open>xs[i]\<close> with Python's indices.\<close>

definition py_str_of :: "'w loop_host \<Rightarrow> pyval \<Rightarrow> string" where
  "py_str_of H v = (case v of PStr s \<Rightarrow> s | _ \<Rightarrow> lh_str H v)"

definition py_item :: "'a list \<Rightarrow> int \<Rightarrow> py_exc + 'a" where
  "py_item xs i = (if 0 \<le> i \<and> i < int (length xs) then Inr (xs ! nat i)
     else if i < 0 \<and> - int (length xs) \<le> i then Inr (xs ! nat (int (length xs) + i))
     else Inl (PyExc ''IndexError'' ''list index out of range''))"

definition dict_item :: "pydict \<Rightarrow> string \<Rightarrow> py_exc + pyval" where
  "dict_item d k = (case dget d k of None \<Rightarrow> Inl (PyExc ''KeyError'' (repr_str k)) | Some v \<Rightarrow> Inr v)"

definition inspection_actions :: "'w loop_host \<Rightarrow> string \<Rightarrow> pydict \<Rightarrow> py_exc + action list" where
  "inspection_actions H path patch = exc_bind (dict_item patch ''old_text'') (\<lambda>old.
     Inr [plain_action ''list_files'' [(''path'', PStr ''.''), (''recursive'', PBool True)] ''inspect workspace structure'',
          plain_action ''read_text'' [(''path'', PStr path)] ''inspect target file before editing'',
          plain_action ''search_text'' [(''path'', PStr ''.''), (''query'', PStr (py_str_of H old))]
            ''locate the exact repair target''])"

definition scripted_repair_plan :: "'w loop_host \<Rightarrow> pydict list \<Rightarrow> loop_state \<Rightarrow> py_exc + plan" where
  "scripted_repair_plan H patches s =
     exc_bind (py_item patches (ls_iteration s - 1)) (\<lambda>patch.
     exc_bind (dict_item patch ''path'') (\<lambda>path.
     exc_bind (if ls_iteration s = 1 then inspection_actions H (py_str_of H path) patch else Inr []) (\<lambda>inspect.
       Inr \<lparr>pl_actions = inspect @
              [plain_action ''apply_patch'' patch ''apply one bounded exact-text repair'',
               plain_action ''run_verification'' [] ''verify the repaired workspace''],
            pl_rationale = ''inspect, apply repair attempt '' @ str_of_int (ls_iteration s) @ '', and verify'',
            pl_expected_evidence = [''target file evidence'', ''patch result'', ''verification exit code'']\<rparr>)))"

text \<open>File tools and the verification command, as both repair profiles register them.\<close>

definition repair_tools ::
  "'w loop_host \<Rightarrow> file_tree \<Rightarrow> string list \<Rightarrow> rat \<Rightarrow> int \<Rightarrow> py_exc + 'w site tool_registry" where
  "repair_tools H t command timeout_seconds max_output_bytes =
     exc_bind (default_workspace H t) (\<lambda>W.
     exc_bind (register_file_tools W []) (\<lambda>tools.
     exc_bind (command_tool H t command timeout_seconds max_output_bytes) (\<lambda>verification.
       register_tool ''run_verification'' verification tools)))"

definition scripted_definition ::
  "'w loop_host \<Rightarrow> pydict list \<Rightarrow> string list \<Rightarrow> rat \<Rightarrow> int \<Rightarrow> loop_definition" where
  "scripted_definition H patches command timeout_seconds max_output_bytes =
     \<lparr>ld_goal = ''Inspect, repair, and verify a workspace with bounded tools'',
      ld_success_criteria = [''verification command exits with code 0 after a patch''],
      ld_constraints = [''all filesystem paths remain inside workspace root'',
        ''patches replace exact text in existing UTF-8 files'', ''each repair attempt is bounded and checkpointed'',
        ''verification runs through the process-tree supervisor''],
      ld_budget = default_loop_budget\<lparr>lb_max_iterations := int (length patches),
        lb_max_actions := 5 + max 0 (int (length patches) - 1) * 2,
        lb_timeout_seconds := max ((timeout_seconds + 10) * of_nat (length patches)) 30\<rparr>,
      ld_metadata = [(''profile'', PStr ''scripted_repair''), (''workspace_root'', PStr (path_str (''/'', lh_root H))),
        (''patches'', PList (map PDict patches)), (''command'', pstrs command),
        (''subprocess_timeout_seconds'', pnum timeout_seconds), (''max_output_bytes'', PInt max_output_bytes)]\<rparr>"

definition build_scripted_repair_loop ::
  "'w loop_host \<Rightarrow> file_tree \<Rightarrow> pydict list \<Rightarrow> string list \<Rightarrow> rat \<Rightarrow> int
   \<Rightarrow> py_exc + 'w site loop_engine \<times> loop_definition"
where
  "build_scripted_repair_loop H t patches command timeout_seconds max_output_bytes =
     (if patches = [] then Inl (ValueError ''at least one patch is required'')
      else exc_bind (repair_tools H t command timeout_seconds max_output_bytes) (\<lambda>tools.
        Inr (profile_engine H (\<lambda>s w. (scripted_repair_plan H patches s, w)) tools
               (\<lambda>s results w. (Inr (verify_repair_results results), w)) (\<lambda>s v. Inr (scripted_repair_judge s v)),
          scripted_definition H patches command timeout_seconds max_output_bytes)))"

section \<open>Repair planned by a language model\<close>

definition llm_repair_judge :: "loop_state \<Rightarrow> verification_result \<Rightarrow> judgement" where
  "llm_repair_judge s v =
     (if vr_status v = ''passed'' then
        \<lparr>jd_decision = COMPLETE, jd_reason = ''LLM-planned repair passed verification'',
         jd_progress_signals = vr_passed v, jd_next_focus = None\<rparr>
      else if vr_status v = ''blocked'' then
        \<lparr>jd_decision = STOP, jd_reason = ''repair tool or verification is blocked'',
         jd_progress_signals = [], jd_next_focus = first_failed v\<rparr>
      else if ls_iteration s < lb_max_iterations (ld_budget (ls_definition s)) then
        \<lparr>jd_decision = REPLAN, jd_reason = ''more inspection or repair is required'',
         jd_progress_signals = [],
         jd_next_focus = Some (case first_failed v of Some f \<Rightarrow> f | None \<Rightarrow> ls_current_focus s)\<rparr>
      else
        \<lparr>jd_decision = STOP, jd_reason = ''LLM repair iteration budget exhausted'',
         jd_progress_signals = [], jd_next_focus = first_failed v\<rparr>)"

text \<open>\<open>ValidatedLLMPlanner\<close> and \<open>ValidatedEvidenceVerifier\<close> as the profiles construct them.\<close>

definition profile_planner ::
  "'w loop_host \<Rightarrow> 'w llm_client \<Rightarrow> string list option \<Rightarrow> int \<Rightarrow> int \<Rightarrow> py_exc + 'w site llm_planner" where
  "profile_planner H client allowed max_actions_per_plan repair_attempts = mk_llm_planner allowed
     \<lparr>lp_client = site_client client, lp_allowed_tools = [], lp_max_actions_per_plan = max_actions_per_plan,
      lp_max_context_chars = 24000, lp_max_result_chars = 8000, lp_contract_repair_attempts = repair_attempts,
      lp_max_repair_source_chars = 12000, lp_dumps = lh_dumps H, lp_dumps_indented = lh_dumps_indented H,
      lp_str = lh_str H\<rparr>"

definition profile_verifier :: "'w loop_host \<Rightarrow> 'w llm_client \<Rightarrow> int \<Rightarrow> py_exc + 'w site evidence_verifier" where
  "profile_verifier H client repair_attempts = mk_evidence_verifier
     \<lparr>ev_client = site_client client, ev_max_evidence_items = 12, ev_max_item_chars = 8000,
      ev_contract_repair_attempts = repair_attempts, ev_max_repair_source_chars = 12000,
      ev_dumps = lh_dumps H, ev_dumps_indented = lh_dumps_indented H\<rparr>"

record llm_limits =
  ll_max_iterations :: int
  ll_max_actions :: int
  ll_max_actions_per_plan :: int
  ll_contract_repair_attempts :: int
  ll_metadata :: pydict

definition llm_repair_definition ::
  "'w loop_host \<Rightarrow> string \<Rightarrow> string list \<Rightarrow> llm_limits \<Rightarrow> rat \<Rightarrow> int \<Rightarrow> loop_definition" where
  "llm_repair_definition H goal command limits timeout_seconds max_output_bytes =
     \<lparr>ld_goal = goal, ld_success_criteria = [''configured verification command exits with code 0''],
      ld_constraints = [''LLM may only propose registered bounded capabilities'',
        ''all paths must be workspace-relative'', ''filesystem mutations use exact-text apply_patch'',
        ''completion authority belongs to verifier and judge''],
      ld_budget = default_loop_budget\<lparr>lb_max_iterations := ll_max_iterations limits,
        lb_max_actions := ll_max_actions limits,
        lb_timeout_seconds := max ((timeout_seconds + 15) * of_int (ll_max_iterations limits)) 60\<rparr>,
      ld_metadata = [(''profile'', PStr ''llm_repair''), (''workspace_root'', PStr (path_str (''/'', lh_root H))),
        (''goal'', PStr goal), (''command'', pstrs command), (''max_iterations'', PInt (ll_max_iterations limits)),
        (''max_actions'', PInt (ll_max_actions limits)), (''max_actions_per_plan'', PInt (ll_max_actions_per_plan limits)),
        (''contract_repair_attempts'', PInt (ll_contract_repair_attempts limits)),
        (''subprocess_timeout_seconds'', pnum timeout_seconds), (''max_output_bytes'', PInt max_output_bytes),
        (''llm'', PDict (ll_metadata limits))]\<rparr>"

definition build_llm_repair_loop ::
  "'w loop_host \<Rightarrow> file_tree \<Rightarrow> string \<Rightarrow> 'w llm_client \<Rightarrow> string list \<Rightarrow> llm_limits \<Rightarrow> rat \<Rightarrow> int
   \<Rightarrow> py_exc + 'w site loop_engine \<times> loop_definition"
where
  "build_llm_repair_loop H t goal client command limits timeout_seconds max_output_bytes =
     (if ll_max_iterations limits \<le> 0 \<or> ll_max_actions limits \<le> 0
        then Inl (ValueError ''LLM repair budgets must be positive'')
      else exc_bind (repair_tools H t command timeout_seconds max_output_bytes) (\<lambda>tools.
        exc_bind (profile_planner H client None (ll_max_actions_per_plan limits) (ll_contract_repair_attempts limits)) (\<lambda>L.
        Inr (profile_engine H (llm_plan L) tools (\<lambda>s results w. (Inr (verify_repair_results results), w))
               (\<lambda>s v. Inr (llm_repair_judge s v)),
          llm_repair_definition H goal command limits timeout_seconds max_output_bytes))))"

section \<open>Read-only evidence\<close>

definition read_only_tool_names :: "string list" where
  "read_only_tool_names = [''list_files'', ''read_text'', ''search_text'']"

definition evidence_definition ::
  "'w loop_host \<Rightarrow> string \<Rightarrow> string list \<Rightarrow> string list \<Rightarrow> llm_limits \<Rightarrow> loop_definition" where
  "evidence_definition H goal criteria selected limits =
     \<lparr>ld_goal = goal, ld_success_criteria = criteria,
      ld_constraints = [''only bounded read-only filesystem tools are available'',
        ''all paths must be workspace-relative'', ''every satisfied criterion requires catalogue evidence references'',
        ''completion authority belongs to evidence verifier and judge''],
      ld_budget = default_loop_budget\<lparr>lb_max_iterations := ll_max_iterations limits,
        lb_max_actions := ll_max_actions limits,
        lb_timeout_seconds := max (45 * of_int (ll_max_iterations limits)) 60\<rparr>,
      ld_metadata = [(''profile'', PStr ''llm_evidence''), (''workspace_root'', PStr (path_str (''/'', lh_root H))),
        (''goal'', PStr goal), (''allowed_tools'', pstrs (sort selected)),
        (''max_iterations'', PInt (ll_max_iterations limits)), (''max_actions'', PInt (ll_max_actions limits)),
        (''max_actions_per_plan'', PInt (ll_max_actions_per_plan limits)),
        (''contract_repair_attempts'', PInt (ll_contract_repair_attempts limits)),
        (''llm'', PDict (ll_metadata limits))]\<rparr>"

definition build_llm_evidence_loop ::
  "'w loop_host \<Rightarrow> file_tree \<Rightarrow> string \<Rightarrow> string list \<Rightarrow> 'w llm_client \<Rightarrow> string list option \<Rightarrow> llm_limits
   \<Rightarrow> py_exc + 'w site loop_engine \<times> loop_definition"
where
  "build_llm_evidence_loop H t goal success_criteria client allowed limits =
     (let criteria = filter (\<lambda>c. c \<noteq> []) (map strip success_criteria);
          selected = remdups (case allowed of None \<Rightarrow> read_only_tool_names | Some ts \<Rightarrow> ts);
          unknown = sort (filter (\<lambda>k. k \<notin> set read_only_tool_names) selected)
      in if criteria = [] then Inl (ValueError ''read-only evidence success_criteria are required'')
         else if unknown \<noteq> [] then Inl (ValueError (''non-read-only tools requested: '' @ repr_str_list unknown))
         else if selected = [] then Inl (ValueError ''allowed_tools must be non-empty'')
         else if ll_max_iterations limits \<le> 0 \<or> ll_max_actions limits \<le> 0
           then Inl (ValueError ''read-only evidence budgets must be positive'')
         else exc_bind (default_workspace H t) (\<lambda>W.
           exc_bind (register_read_only W (Some selected) []) (\<lambda>tools.
           exc_bind (profile_planner H client (Some selected) (ll_max_actions_per_plan limits)
               (ll_contract_repair_attempts limits)) (\<lambda>L.
           exc_bind (profile_verifier H client (ll_contract_repair_attempts limits)) (\<lambda>V.
           Inr (profile_engine H (llm_plan L) tools (evidence_verify V) (evidence_judge (lh_str H)),
             evidence_definition H goal criteria selected limits))))))"

section \<open>What the ports keep\<close>

lemma on_world_tree [simp]: "st_tree (snd (on_world f w)) = st_tree w"
  by (simp add: on_world_def split: prod.split)

lemma ask_plan_keeps:
  "(\<And>ms w. I w \<Longrightarrow> I (snd (lp_client L ms w))) \<Longrightarrow> I w \<Longrightarrow> I (snd (ask_plan L ms w))"
  by (auto simp: ask_plan_def split: prod.splits sum.splits) (metis snd_conv)+

lemma llm_plan_keeps:
  assumes "\<And>ms w. I w \<Longrightarrow> I (snd (lp_client L ms w))" "I w"
  shows "I (snd (llm_plan L s w))"
proof -
  obtain x w1 where 1: "ask_plan L (planning_messages L s) w = (x, w1)" by fastforce
  have "I w1" using ask_plan_keeps [of I L, OF assms(1,2), of "planning_messages L s"] 1 by simp
  with ask_plan_keeps [of I L, OF assms(1)] 1 show ?thesis
    by (auto simp: llm_plan_def split: sum.split prod.split) (metis snd_conv)+
qed

lemma ask_assessment_keeps:
  "(\<And>ms w. I w \<Longrightarrow> I (snd (ev_client V ms w))) \<Longrightarrow> I w \<Longrightarrow> I (snd (ask_assessment V s c ms w))"
  by (auto simp: ask_assessment_def split: prod.splits sum.splits) (metis snd_conv)+

lemma evidence_verify_keeps:
  assumes "\<And>ms w. I w \<Longrightarrow> I (snd (ev_client V ms w))" "I w"
  shows "I (snd (evidence_verify V s rs w))"
proof -
  let ?c = "catalogue V s"
  obtain x w1 where 1: "ask_assessment V s ?c (evidence_messages V s ?c) w = (x, w1)" by fastforce
  have "I w1" using ask_assessment_keeps [of I V, OF assms(1,2), of s ?c "evidence_messages V s ?c"] 1 by simp
  with ask_assessment_keeps [of I V, OF assms(1)] 1 have "I (snd (assess_evidence V s ?c w))"
    by (auto simp: assess_evidence_def split: sum.split prod.split) (metis snd_conv)+
  with assms(2) show ?thesis by (auto simp: evidence_verify_def Let_def split: prod.split sum.split)
qed

lemma execute_tool_keeps:
  assumes "\<And>w. I w \<Longrightarrow> I (snd (perf w))" "I w"
    "\<And>f w. dget tools (ac_tool a) = Some f \<Longrightarrow> I w \<Longrightarrow> I (snd (f (ac_arguments a) s w))"
  shows "I (snd (execute_tool perf tools a s w))"
proof (cases "dget tools (ac_tool a)")
  case (Some f)
  obtain t0 w0 where 0: "perf w = (t0, w0)" by fastforce
  obtain x w1 where 1: "f (ac_arguments a) s w0 = (x, w1)" by fastforce
  obtain t2 w2 where 2: "perf w1 = (t2, w2)" by fastforce
  have "I w0" using assms(1) [OF assms(2)] 0 by simp
  then have "I w1" using assms(3) [OF Some, of w0] 1 by simp
  then have "I w2" using assms(1) [of w1] 2 by simp
  with 0 1 2 Some show ?thesis by (simp add: execute_tool_def)
qed (use assms(2) in \<open>simp add: execute_tool_def\<close>)

text \<open>A profile's engine keeps what planner and verifier keep and its tools keep on planned actions, when
  it is about the tree.\<close>

lemma profile_ports_keep:
  assumes "\<And>s w. P (st_tree w) \<Longrightarrow> P (st_tree (snd (planner s w)))"
    "\<And>s rs w. P (st_tree w) \<Longrightarrow> P (st_tree (snd (verifier s rs w)))"
    "\<And>a f s w. planned (profile_engine H planner tools verifier judge) a \<Longrightarrow> dget tools (ac_tool a) = Some f \<Longrightarrow>
      P (st_tree w) \<Longrightarrow> P (st_tree (snd (f (ac_arguments a) s w)))"
  shows "ports_keep (profile_engine H planner tools verifier judge) (\<lambda>w. P (st_tree w))"
  unfolding ports_keep_def
proof (intro conjI allI impI)
  let ?E = "profile_engine H planner tools verifier judge"
  show "P (st_tree (snd (eng_executor ?E a s w)))" if "planned ?E a" "P (st_tree w)" for a s w
    using execute_tool_keeps [of "\<lambda>w. P (st_tree w)" "on_world (lh_perf_counter H)" w tools a s] assms(3) [OF that(1)] that(2)
    by (simp add: profile_engine_def)
  show "P (st_tree (save s w))" if "eng_checkpoint_store ?E = Some save" "P (st_tree w)" for save s w
    using that by (auto simp: profile_engine_def)
qed (use assms(1,2) in \<open>simp_all add: profile_engine_def\<close>)

section \<open>The tools of a profile\<close>

lemma register_all_tools:
  "register_all fs tools = Inr tools' \<Longrightarrow> dget tools' k = Some f \<Longrightarrow>
   (\<exists>name. (name, f) \<in> set fs \<and> strip name = k) \<or> dget tools k = Some f"
proof (induction fs arbitrary: tools)
  case (Cons nf fs)
  obtain name g where nf: "nf = (name, g)" by fastforce
  with Cons.prems obtain u where u: "register_tool name g tools = Inr u" "register_all fs u = Inr tools'"
    by (auto simp: exc_bind_Inr)
  from Cons.IH [OF u(2) Cons.prems(2)] u(1) nf show ?case
    by (auto simp: register_tool_def Let_def split: if_splits)
qed simp

text \<open>What a registered tool does to the tree: nothing, or what a patch or the command does.\<close>

definition reads_only :: "'w site tool \<Rightarrow> bool" where
  "reads_only f \<longleftrightarrow> (\<forall>args s w. snd (f args s w) = w)"

lemma reading_tool_reads: "reads_only (reading_tool g)"
  by (simp add: reads_only_def reading_tool_def)

lemma read_only_tools_read: "(k, f) \<in> set (read_only_tools W) \<Longrightarrow> reads_only f"
  by (auto simp: read_only_tools_def reading_tool_reads)

lemma register_read_only_tools:
  fixes tools :: "'w site tool_registry"
  assumes "register_read_only W sel executor = Inr tools" "dget tools k = Some f"
  shows "reads_only f \<or> dget executor k = Some f"
proof -
  from assms(1) obtain names where all: "register_all (map (\<lambda>k. (k, the (dget (read_only_tools W) k))) names) executor = Inr tools"
    and known: "\<forall>k\<in>set names. k \<in> fst ` set (read_only_tools W :: 'w site tool_registry)"
    by (auto simp: register_read_only_def Let_def filter_empty_conv simp del: set_sort split: if_splits)
  have "reads_only (the (dget (read_only_tools W :: 'w site tool_registry) k))" if "k \<in> set names" for k
  proof -
    from known that have "k \<in> set (dkeys (read_only_tools W :: 'w site tool_registry))" by (simp add: dkeys_def)
    then obtain g :: "'w site tool" where "dget (read_only_tools W) k = Some g" using dkey_dget by blast
    then show ?thesis using read_only_tools_read by (fastforce simp: dget_def dest: map_of_SomeD)
  qed
  with register_all_tools [OF all assms(2)] show ?thesis by auto
qed

lemma repair_tools_do:
  assumes "repair_tools H t command timeout out = Inr tools" "dget tools k = Some f"
  shows "\<exists>W. default_workspace H t = Inr W \<and>
    (reads_only f \<or> f = patch_tool W \<or> command_tool H t command timeout out = Inr f)"
proof -
  from assms(1) obtain W u v where W: "default_workspace H t = Inr W" and u: "register_file_tools W [] = Inr u"
    and v: "command_tool H t command timeout out = Inr v" "register_tool ''run_verification'' v u = Inr tools"
    by (auto simp: repair_tools_def exc_bind_Inr)
  from u obtain r where r: "register_read_only W None [] = Inr r" "register_tool ''apply_patch'' (patch_tool W) r = Inr u"
    by (auto simp: register_file_tools_def exc_bind_Inr)
  have "dget tools k = Some f \<Longrightarrow> f = v \<or> dget u k = Some f"
    using v(2) by (auto simp: register_tool_def Let_def split: if_splits)
  moreover have "dget u k = Some f \<Longrightarrow> f = patch_tool W \<or> dget r k = Some f"
    using r(2) by (auto simp: register_tool_def Let_def split: if_splits)
  ultimately show ?thesis using assms(2) register_read_only_tools [OF r(1), of k f] W v(1) by auto
qed

end
