(* ===== verification/Coding_Leaf.thy ===== *)
theory Coding_Leaf
  imports Loop_Profiles Task_Adapters
begin

text \<open>
  The executor of coding leaves (\<open>loop_engine/tasks/coding_leaf.py\<close>): a leaf names the capabilities it
  needs; they decide which of the coding loops runs it, or that it is refused.
\<close>

section \<open>Capabilities\<close>

definition read_capabilities :: "(string \<times> string) list" where
  "read_capabilities = [(''filesystem.list'', ''list_files''), (''filesystem.read'', ''read_text''),
     (''filesystem.search'', ''search_text'')]"

definition known_capabilities :: "string list" where
  "known_capabilities = map fst read_capabilities @ [''filesystem.patch'', ''process.verify'']"

definition reserved_metadata :: "string list" where
  "reserved_metadata = [''api_key'', ''command'', ''gateway_url'', ''llm'', ''model'', ''process_command'',
     ''verification_command'', ''workspace_root'']"

section \<open>The policy\<close>

text \<open>The root and the checkpoint store are part of the host.\<close>

record leaf_policy =
  cp_verification_command :: "string list"
  cp_timeout_seconds :: rat
  cp_max_output_bytes :: int
  cp_max_iterations :: int
  cp_max_actions :: int
  cp_max_actions_per_plan :: int
  cp_contract_repair_attempts :: int

definition mk_leaf_policy :: "'w loop_host \<Rightarrow> file_tree \<Rightarrow> leaf_policy \<Rightarrow> py_exc + leaf_policy" where
  "mk_leaf_policy H t p =
     (if tree_at t (lh_root H) \<noteq> Some Dir_Entry
        then Inl (ValueError ''coding leaf workspace_root must be an existing directory'')
      else if [] \<in> set (cp_verification_command p)
        then Inl (ValueError ''coding leaf verification_command items must be non-empty'')
      else if cp_timeout_seconds p \<le> 0 \<or> cp_max_output_bytes p \<le> 0
        then Inl (ValueError ''coding leaf subprocess bounds must be positive'')
      else if cp_max_iterations p \<le> 0 \<or> cp_max_actions p \<le> 0 \<or> cp_max_actions_per_plan p \<le> 0
        then Inl (ValueError ''coding leaf LLM budgets must be positive'')
      else if cp_contract_repair_attempts p \<notin> {0, 1}
        then Inl (ValueError ''contract_repair_attempts must be 0 or 1'')
      else Inr p)"

record 'w coding_leaf =
  cl_host :: "'w loop_host"
  cl_policy :: leaf_policy
  cl_client :: "'w llm_client option"
  cl_llm_metadata :: pydict

section \<open>The contract of a leaf\<close>

definition leaf_contract_error :: "task_node \<Rightarrow> string option" where
  "leaf_contract_error n =
     (let capabilities = remdups (nd_required_capabilities n);
          unknown = sort (filter (\<lambda>c. c \<notin> set known_capabilities) capabilities);
          reserved = sort (filter (\<lambda>k. k \<in> set reserved_metadata) (dkeys (nd_metadata n)))
      in if strip (nd_goal n) = [] then Some ''coding_leaf_goal_missing''
         else if nd_success_criteria n = [] then Some ''coding_leaf_success_criteria_missing''
         else if capabilities = [] then Some ''coding_leaf_capabilities_missing''
         else if unknown \<noteq> [] then Some (''unsupported_coding_capabilities:'' @ str_join '','' unknown)
         else if reserved \<noteq> [] then Some (''reserved_coding_metadata:'' @ str_join '','' reserved)
         else if ''filesystem.patch'' \<in> set capabilities \<and> ''process.verify'' \<notin> set capabilities
           then Some ''coding_patch_requires_process_verify''
         else None)"

section \<open>Building the loop\<close>

definition leaf_limits :: "'w coding_leaf \<Rightarrow> llm_limits" where
  "leaf_limits C = \<lparr>ll_max_iterations = cp_max_iterations (cl_policy C), ll_max_actions = cp_max_actions (cl_policy C),
     ll_max_actions_per_plan = cp_max_actions_per_plan (cl_policy C),
     ll_contract_repair_attempts = cp_contract_repair_attempts (cl_policy C), ll_metadata = cl_llm_metadata C\<rparr>"

definition with_task_ids :: "task_node \<Rightarrow> task_graph \<Rightarrow> loop_definition \<Rightarrow> loop_definition" where
  "with_task_ids n g d = d\<lparr>ld_metadata := dset ''task_node_id'' (PStr (nd_id n))
     (dset ''task_graph_id'' (PStr (tg_id g)) (ld_metadata d))\<rparr>"

definition build_check :: "'w coding_leaf \<Rightarrow> 'w site leaf_factory" where
  "build_check C n g w = exc_bind
     (build_coding_check_loop (cl_host C) (st_tree w) (cp_verification_command (cl_policy C))
        (cp_timeout_seconds (cl_policy C)) (cp_max_output_bytes (cl_policy C)))
     (\<lambda>(E, d). Inr (E, with_task_ids n g (d\<lparr>ld_goal := nd_goal n, ld_success_criteria := nd_success_criteria n\<rparr>)))"

text \<open>\<open>_CAPABILITY_TO_TOOL[capability]\<close> for every capability, as a set.\<close>

definition leaf_tools :: "task_node \<Rightarrow> py_exc + string list" where
  "leaf_tools n = map_exc (\<lambda>c. case dget read_capabilities c of
      None \<Rightarrow> Inl (PyExc ''KeyError'' (repr_str c)) | Some tool \<Rightarrow> Inr tool) (remdups (nd_required_capabilities n))"

definition build_evidence :: "'w coding_leaf \<Rightarrow> 'w site leaf_factory" where
  "build_evidence C n g w = (case cl_client C of
      None \<Rightarrow> Inl (RuntimeError ''coding leaf LLM client is unavailable'')
    | Some client \<Rightarrow>
        exc_bind (leaf_tools n) (\<lambda>tools.
        exc_bind (build_llm_evidence_loop (cl_host C) (st_tree w) (nd_goal n) (nd_success_criteria n) client
            (Some tools) (leaf_limits C)) (\<lambda>(E, d). Inr (E, with_task_ids n g d))))"

definition build_repair :: "'w coding_leaf \<Rightarrow> 'w site leaf_factory" where
  "build_repair C n g w = (case cl_client C of
      None \<Rightarrow> Inl (RuntimeError ''coding leaf LLM client is unavailable'')
    | Some client \<Rightarrow> exc_bind
        (build_llm_repair_loop (cl_host C) (st_tree w) (nd_goal n) client (cp_verification_command (cl_policy C))
          (leaf_limits C) (cp_timeout_seconds (cl_policy C)) (cp_max_output_bytes (cl_policy C)))
        (\<lambda>(E, d). Inr (E, with_task_ids n g (d\<lparr>ld_success_criteria := nd_success_criteria n\<rparr>))))"

section \<open>Executing\<close>

definition refused_leaf :: "string \<Rightarrow> string \<Rightarrow> pydict \<Rightarrow> leaf_result" where
  "refused_leaf summary error evidence =
     (plain_result ''blocked'' summary (Some error))\<lparr>lr_evidence := evidence\<rparr>"

definition with_profile :: "string \<Rightarrow> leaf_result \<Rightarrow> leaf_result" where
  "with_profile profile r = r\<lparr>lr_evidence := dset ''coding_leaf_profile'' (PStr profile) (lr_evidence r)\<rparr>"

definition coding_leaf_execute :: "'w coding_leaf \<Rightarrow> 'w site leaf_executor" where
  "coding_leaf_execute C n g w = (case leaf_contract_error n of
      Some e \<Rightarrow> (Inr (refused_leaf ''coding leaf contract is not executable'' e
        [(''required_capabilities'', pstrs (nd_required_capabilities n))]), w)
    | None \<Rightarrow>
        let capabilities = set (nd_required_capabilities n);
            run = (\<lambda>profile factory. let (r, w') = loop_leaf_execute factory n g w
              in (map_sum (\<lambda>e. e) (with_profile profile) r, w')) in
        if (''process.verify'' \<in> capabilities \<or> ''filesystem.patch'' \<in> capabilities) \<and>
            cp_verification_command (cl_policy C) = []
          then (Inr (refused_leaf ''coding leaf verification command is unavailable''
            ''coding_leaf_verification_command_missing'' []), w)
        else if capabilities = {''process.verify''} then run ''coding_check'' (build_check C)
        else if ''filesystem.patch'' \<in> capabilities then
          if cl_client C = None then (Inr (refused_leaf ''coding repair leaf requires an LLM client''
            ''coding_leaf_llm_client_missing'' []), w)
          else run ''llm_repair'' (build_repair C)
        else if cl_client C = None then (Inr (refused_leaf ''read-only evidence leaf requires an LLM client''
          ''coding_leaf_llm_client_missing'' []), w)
        else run ''llm_evidence'' (build_evidence C))"

end
