(* ===== verification/Steady_Runs.thy ===== *)
theory Steady_Runs
  imports Loop_Provenance
begin

text \<open>
  A run that succeeds at its first attempt: when the plan fits the action budget and planner,
  tools, verifier and judge answer, and the judge completes, the run ends COMPLETED with the results of
  the plan, in order, and what the actions did to the world. Clocks that stand still and no checkpoint
  store keep the outside world out of the picture. The examples of the profiles use it.
\<close>

definition steady :: "'w loop_engine \<Rightarrow> bool" where
  "steady E \<longleftrightarrow> (\<exists>t. \<forall>w. eng_utc_now E w = (t, w)) \<and> (\<forall>w. eng_now E w = (0, w)) \<and>
     (\<forall>w. eng_perf_counter E w = (0, w)) \<and> (\<forall>x. eng_fromisoformat E x = 0) \<and> eng_checkpoint_store E = None"

lemma steady_record: "steady E \<Longrightarrow> snd (eng_record E ty p r) = snd r"
  by (auto simp: steady_def eng_record_def split: prod.split)

lemma steady_checkpoint: "steady E \<Longrightarrow> eng_checkpoint E r = r"
  by (simp add: steady_def eng_checkpoint_def)

lemma steady_budget:
  assumes "steady E" "ls_action_count (fst r) < max 1 (lb_max_actions (ld_budget (ls_definition (fst r))))"
    "c \<longrightarrow> ls_iteration (fst r) < max 1 (lb_max_iterations (ld_budget (ls_definition (fst r))))"
  shows "eng_budget E c r = (None, r)"
  using assms by (auto simp: steady_def eng_budget_def budget_stop_reason_def Let_def)

text \<open>What an action leaves behind when the executor answers.\<close>

definition timed :: "action_result \<Rightarrow> action_result" where
  "timed x = x\<lparr>ar_duration_seconds := max (ar_duration_seconds x) 0\<rparr>"

lemma steady_action:
  assumes "steady E" "eng_executor E a (fst r) (snd r) = (Inr x, w')"
  shows "snd (execute_action E a r) = w' \<and> (\<exists>ev. fst (execute_action E a r) = record_event ev
    ((fst r)\<lparr>ls_action_count := ls_action_count (fst r) + 1, ls_action_results := ls_action_results (fst r) @ [timed x],
       ls_iteration_results := ls_iteration_results (fst r) @ [timed x],
       ls_next_action_index := ls_next_action_index (fst r) + 1\<rparr>))"
proof -
  have perf: "eng_perf_counter E w = (0, w)" for w using assms(1) by (simp add: steady_def)
  show ?thesis
    using assms(2) by (simp add: execute_action_def Let_def perf steady_checkpoint [OF assms(1)] steady_record [OF assms(1)]
        eng_record_fst timed_def) blast
qed

text \<open>The executor's answers to a list of actions, from one external state to the next.\<close>

inductive answers :: "'w loop_engine \<Rightarrow> string \<Rightarrow> action list \<Rightarrow> 'w \<Rightarrow> action_result list \<Rightarrow> 'w \<Rightarrow> bool" for E i where
  answers_Nil: "answers E i [] w [] w"
| answers_Cons: "(\<And>s. ls_run_id s = i \<Longrightarrow> eng_executor E a s w = (Inr x, w1)) \<Longrightarrow> answers E i as w1 xs w2 \<Longrightarrow>
    answers E i (a # as) w (x # xs) w2"

lemma steady_actions:
  assumes "steady E" "answers E i as w xs w'" "snd r = w" "ls_run_id (fst r) = i"
    "ls_action_count (fst r) + int (length as) \<le> max 1 (lb_max_actions (ld_budget (ls_definition (fst r))))"
  shows "snd (run_actions E as r) = w' \<and>
    ls_status (fst (run_actions E as r)) = ls_status (fst r) \<and> ls_phase (fst (run_actions E as r)) = ls_phase (fst r) \<and>
    ls_definition (fst (run_actions E as r)) = ls_definition (fst r) \<and>
    ls_observation_signatures (fst (run_actions E as r)) = ls_observation_signatures (fst r) \<and>
    ls_action_results (fst (run_actions E as r)) = ls_action_results (fst r) @ map timed xs \<and>
    ls_iteration_results (fst (run_actions E as r)) = ls_iteration_results (fst r) @ map timed xs"
  using assms(2-5)
proof (induction arbitrary: r)
  case (answers_Cons a w x w1 as xs w2)
  have "eng_executor E a (fst r) (snd r) = (Inr x, w1)" using answers_Cons.hyps(1) answers_Cons.prems by simp
  from steady_action [OF assms(1) this] obtain ev where
    e: "snd (execute_action E a r) = w1" "fst (execute_action E a r) = record_event ev
      ((fst r)\<lparr>ls_action_count := ls_action_count (fst r) + 1, ls_action_results := ls_action_results (fst r) @ [timed x],
         ls_iteration_results := ls_iteration_results (fst r) @ [timed x],
         ls_next_action_index := ls_next_action_index (fst r) + 1\<rparr>)" by blast
  have "eng_budget E False r = (None, r)" using answers_Cons.prems(3) by (intro steady_budget [OF assms(1)]) auto
  then have "run_actions E (a # as) r = run_actions E as (execute_action E a r)" by simp
  moreover note answers_Cons.IH [of "execute_action E a r"]
  ultimately show ?case using answers_Cons.prems e by simp
qed simp

text \<open>The first pass of a run, phase by phase; no phase changes the definition or the earlier results.\<close>

lemma steady_utc: "steady E \<Longrightarrow> snd (eng_utc_now E w) = w" "steady E \<Longrightarrow> eng_utc_now E w = (fst (eng_utc_now E w), w)"
  by (auto simp: steady_def)

lemma steady_begin:
  assumes "steady E" "create_state d i = Inr s0"
  shows "snd (begin_run E (s0, w)) = w \<and> ls_status (fst (begin_run E (s0, w))) = LS_RUNNING \<and>
    ls_run_id (fst (begin_run E (s0, w))) = i \<and> ls_phase (fst (begin_run E (s0, w))) = LP_READY \<and> ls_definition (fst (begin_run E (s0, w))) = d\<lparr>ld_goal := strip (ld_goal d)\<rparr> \<and>
    ls_iteration (fst (begin_run E (s0, w))) = 0 \<and> ls_action_count (fst (begin_run E (s0, w))) = 0 \<and>
    ls_action_results (fst (begin_run E (s0, w))) = [] \<and> ls_observation_signatures (fst (begin_run E (s0, w))) = []"
proof -
  have s0: "ls_run_id s0 = i" "ls_started_at s0 = None" "ls_phase s0 = LP_READY" "ls_definition s0 = d\<lparr>ld_goal := strip (ld_goal d)\<rparr>"
    "ls_iteration s0 = 0" "ls_action_count s0 = 0" "ls_action_results s0 = []" "ls_observation_signatures s0 = []"
    using assms(2) by (auto simp: create_state_def Let_def split: if_splits)
  obtain t where "eng_utc_now E w = (t, w)" using steady_utc(2) [OF assms(1)] by blast
  with s0 show ?thesis
    by (simp add: begin_run_def Let_def steady_checkpoint [OF assms(1)] steady_record [OF assms(1)] eng_record_fst)
qed

lemma steady_start:
  assumes "steady E" "ls_phase (fst r) = LP_READY"
  shows "snd (start_iteration E r) = snd r \<and> ls_status (fst (start_iteration E r)) = ls_status (fst r) \<and>
    ls_run_id (fst (start_iteration E r)) = ls_run_id (fst r) \<and> ls_phase (fst (start_iteration E r)) = LP_PLANNING \<and> ls_definition (fst (start_iteration E r)) = ls_definition (fst r) \<and>
    ls_action_count (fst (start_iteration E r)) = ls_action_count (fst r) \<and>
    ls_action_results (fst (start_iteration E r)) = ls_action_results (fst r) \<and>
    ls_observation_signatures (fst (start_iteration E r)) = ls_observation_signatures (fst r)"
  using assms by (simp add: start_iteration_def Let_def steady_checkpoint steady_record eng_record_fst)

lemma steady_plan:
  assumes "steady E" "ls_phase (fst r) = LP_PLANNING" "eng_planner E (fst r) (snd r) = (Inr p, w1)" "pl_actions p \<noteq> []"
  shows "snd (plan_phase E r) = w1 \<and> ls_status (fst (plan_phase E r)) = ls_status (fst r) \<and>
    ls_run_id (fst (plan_phase E r)) = ls_run_id (fst r) \<and> ls_phase (fst (plan_phase E r)) = LP_EXECUTING \<and> ls_definition (fst (plan_phase E r)) = ls_definition (fst r) \<and>
    ls_action_count (fst (plan_phase E r)) = ls_action_count (fst r) \<and>
    ls_action_results (fst (plan_phase E r)) = ls_action_results (fst r) \<and>
    ls_observation_signatures (fst (plan_phase E r)) = ls_observation_signatures (fst r) \<and>
    ls_latest_plan (fst (plan_phase E r)) = Some p \<and> ls_next_action_index (fst (plan_phase E r)) = 0 \<and>
    ls_iteration_results (fst (plan_phase E r)) = []"
  using assms by (simp add: plan_phase_def Let_def steady_checkpoint steady_record eng_record_fst)

lemma steady_execute:
  assumes "steady E" "ls_phase (fst r) = LP_EXECUTING" "ls_status (fst r) = LS_RUNNING" "ls_latest_plan (fst r) = Some p"
    "ls_next_action_index (fst r) = 0" "ls_iteration_results (fst r) = []" "ls_run_id (fst r) = i"
    "answers E i (pl_actions p) (snd r) xs w'"
    "ls_action_count (fst r) + int (length (pl_actions p)) \<le> max 1 (lb_max_actions (ld_budget (ls_definition (fst r))))"
  shows "snd (execute_phase E r) = w' \<and> ls_status (fst (execute_phase E r)) = LS_RUNNING \<and>
    ls_phase (fst (execute_phase E r)) = LP_VERIFYING \<and> ls_definition (fst (execute_phase E r)) = ls_definition (fst r) \<and>
    ls_observation_signatures (fst (execute_phase E r)) = ls_observation_signatures (fst r) \<and>
    ls_action_results (fst (execute_phase E r)) = ls_action_results (fst r) @ map timed xs \<and>
    ls_iteration_results (fst (execute_phase E r)) = map timed xs"
  using steady_actions [OF assms(1,8) refl assms(7,9)] assms(1-7) by (simp add: execute_phase_def Let_def steady_checkpoint)

lemma steady_verify:
  assumes "steady E" "ls_phase (fst r) = LP_VERIFYING" "ls_observation_signatures (fst r) = []"
    "eng_verifier E (fst r) (ls_iteration_results (fst r)) (snd r) = (Inr v, w3)"
  shows "snd (verify_phase E r) = w3 \<and> ls_status (fst (verify_phase E r)) = ls_status (fst r) \<and>
    ls_phase (fst (verify_phase E r)) = LP_JUDGING \<and>
    ls_action_results (fst (verify_phase E r)) = ls_action_results (fst r) \<and>
    ls_latest_verification (fst (verify_phase E r)) = Some v"
proof -
  have "stagnation_stop_reason s x = None" if "ls_observation_signatures s = []" for s x
    using that by (auto simp: stagnation_stop_reason_def Let_def last_n_def)
  then show ?thesis
    using assms by (simp add: verify_phase_def Let_def steady_checkpoint steady_record eng_record_fst)
qed

lemma steady_judge:
  assumes "steady E" "ls_phase (fst r) = LP_JUDGING" "ls_latest_verification (fst r) = Some v"
    "eng_judge E (fst r) v (snd r) = (Inr j, w4)" "jd_decision j = COMPLETE"
  shows "snd (judge_phase E r) = w4 \<and> ls_status (fst (judge_phase E r)) = LS_COMPLETED \<and>
    ls_action_results (fst (judge_phase E r)) = ls_action_results (fst r)"
proof -
  obtain t where "\<And>w. eng_utc_now E w = (t, w)" using assms(1) unfolding steady_def by blast
  then show ?thesis
    using assms(2-5) by (simp add: judge_phase_def apply_judgement_def Let_def steady_checkpoint [OF assms(1)]
        steady_record [OF assms(1)] eng_record_fst)
qed

lemma first_attempt_completes:
  assumes E: "steady E" and goal: "strip (ld_goal d) \<noteq> []"
    and plan: "\<And>s. eng_planner E s w = (Inr p, w1)" "pl_actions p \<noteq> []"
      "int (length (pl_actions p)) \<le> max 1 (lb_max_actions (ld_budget d))"
    and act: "answers E i (pl_actions p) w1 xs w2"
    and verify: "\<And>s. ls_definition s = d\<lparr>ld_goal := strip (ld_goal d)\<rparr> \<Longrightarrow>
        ls_action_results s = map timed xs \<Longrightarrow>
        eng_verifier E s (map timed xs) w2 = (Inr v, w3)"
    and judge: "\<And>s. eng_judge E s v w3 = (Inr j, w4)" "jd_decision j = COMPLETE"
  shows "\<exists>s. run_engine E d i w = Inr (Some (s, w4)) \<and> ls_status s = LS_COMPLETED \<and>
    ls_action_results s = map timed xs"
proof -
  from goal obtain s0 where s0: "create_state d i = Inr s0" by (simp add: create_state_def Let_def)
  let ?r0 = "begin_run E (s0, w)" let ?r1 = "start_iteration E ?r0" let ?r2 = "plan_phase E ?r1"
  let ?r3 = "execute_phase E ?r2" let ?r4 = "verify_phase E ?r3" let ?r5 = "judge_phase E ?r4"
  note f0 = steady_begin [OF E s0, of w]
  note f1 = steady_start [OF E, of ?r0]
  have f2: "snd ?r2 = w1 \<and> ls_run_id (fst ?r2) = i \<and> ls_status (fst ?r2) = LS_RUNNING \<and> ls_phase (fst ?r2) = LP_EXECUTING \<and>
      ls_definition (fst ?r2) = d\<lparr>ld_goal := strip (ld_goal d)\<rparr> \<and> ls_action_count (fst ?r2) = 0 \<and>
      ls_action_results (fst ?r2) = [] \<and> ls_observation_signatures (fst ?r2) = [] \<and>
      ls_latest_plan (fst ?r2) = Some p \<and> ls_next_action_index (fst ?r2) = 0 \<and> ls_iteration_results (fst ?r2) = []"
    using steady_plan [OF E, of ?r1 p w1] f0 f1 plan by simp
  have f3: "snd ?r3 = w2 \<and> ls_status (fst ?r3) = LS_RUNNING \<and> ls_phase (fst ?r3) = LP_VERIFYING \<and>
      ls_definition (fst ?r3) = d\<lparr>ld_goal := strip (ld_goal d)\<rparr> \<and> ls_observation_signatures (fst ?r3) = [] \<and>
      ls_action_results (fst ?r3) = map timed xs \<and>
      ls_iteration_results (fst ?r3) = map timed xs"
    using steady_execute [OF E, of ?r2 p i xs w2] f2 act plan(3) by simp
  have f4: "snd ?r4 = w3 \<and> ls_phase (fst ?r4) = LP_JUDGING \<and> ls_latest_verification (fst ?r4) = Some v \<and>
      ls_action_results (fst ?r4) = map timed xs"
    using steady_verify [OF E, of ?r3 v w3] f3 verify [of "fst ?r3"] by simp
  have f5: "snd ?r5 = w4 \<and> ls_status (fst ?r5) = LS_COMPLETED \<and> ls_action_results (fst ?r5) = map timed xs"
    using steady_judge [OF E, of ?r4 v j w4] f4 judge by simp
  have "eng_budget E (ls_phase (fst ?r0) = LP_READY) ?r0 = (None, ?r0)"
    using f0 by (intro steady_budget [OF E]) auto
  then have pass: "loop_pass E ?r0 = ?r5" by (simp add: loop_pass_def)
  have "run_loop E ?r0 = run_loop E ?r5" using f0 pass by (subst run_loop.simps) simp
  also have "\<dots> = Some ?r5" using f5 by (subst run_loop.simps) simp
  finally have "run_engine E d i w = Inr (Some ?r5)"
    using s0 create_state_inv [OF s0] by (simp add: run_engine_def resume_def loop_terminal_def)
  with f5 show ?thesis by (metis prod.collapse)
qed

end
