(* ===== verification/Profile_Examples.thy ===== *)
theory Profile_Examples
  imports Coding_Leaf Steady_Runs
begin

text \<open>
  Small runs of the coding profiles, for the witnesses of their properties: a workspace with one file, a
  language model that answers from a list, and a check command that succeeds when the file holds a \<open>b\<close>.
  An evidence run that lists the files, a repair run that patches and verifies, and a repair run that
  verifies and then patches.
\<close>

section \<open>The host\<close>

definition listed_client :: "pydict list \<Rightarrow> nat llm_client" where
  "listed_client xs messages n = (if n < length xs then (Inr (xs ! n), Suc n)
     else (Inl \<lparr>lf_exc = RuntimeError ''no answer'', lf_is_value_error = False, lf_raw_content = None\<rparr>, n))"

definition check_tool :: "nat site tool" where
  "check_tool args s w = (Inr (PDict [(''exit_code'',
     PInt (if tree_at (st_tree w) [''w'', ''f''] = Some (File_Entry [98]) then 0 else 1)), (''timed_out'', PBool False)]), w)"

definition profile_host :: "nat loop_host" where
  "profile_host = \<lparr>lh_utc_now = (\<lambda>w. (''t'', w)), lh_now = (\<lambda>w. (0, w)), lh_perf_counter = (\<lambda>w. (0, w)),
     lh_fromisoformat = (\<lambda>t. 0), lh_digest = (\<lambda>v. []), lh_store = None, lh_root = [''w''],
     lh_workspace = \<lparr>wk_root = [], wk_max_read_bytes = 0, wk_max_list_entries = 0, wk_max_search_matches = 0,
       wk_link_limit = 40, wk_sha256 = (\<lambda>b. []), wk_decode_replace = (\<lambda>b. []), wk_str = (\<lambda>v. []),
       wk_regex = (\<lambda>p i. Inr (\<lambda>s. True))\<rparr>,
     lh_subprocess = (\<lambda>B. check_tool), lh_dumps = (\<lambda>v. []), lh_dumps_indented = (\<lambda>v. []), lh_str = (\<lambda>v. [])\<rparr>"

definition one_file :: "8 word list \<Rightarrow> file_tree" where
  "one_file b = [([''w''], Dir_Entry), ([''w'', ''f''], File_Entry b)]"

definition two_per_plan :: llm_limits where
  "two_per_plan = \<lparr>ll_max_iterations = 2, ll_max_actions = 4, ll_max_actions_per_plan = 2,
     ll_contract_repair_attempts = 0, ll_metadata = []\<rparr>"

definition action_json :: "string \<Rightarrow> pydict \<Rightarrow> pyval" where
  "action_json tool args = PDict [(''tool'', PStr tool), (''arguments'', PDict args)]"

definition one_workspace :: workspace where
  "one_workspace = (lh_workspace profile_host)\<lparr>wk_root := [''w''], wk_max_read_bytes := 256 * 1024,
     wk_max_list_entries := 500, wk_max_search_matches := 200\<rparr>"

lemma one_workspace_opens: "default_workspace profile_host (one_file b) = Inr one_workspace"
  by (simp add: default_workspace_def open_workspace_def one_workspace_def profile_host_def one_file_def tree_at_def)

definition one_planner :: "pydict list \<Rightarrow> string list \<Rightarrow> nat site llm_planner" where
  "one_planner xs tools = \<lparr>lp_client = site_client (listed_client xs), lp_allowed_tools = tools,
     lp_max_actions_per_plan = 2, lp_max_context_chars = 24000, lp_max_result_chars = 8000, lp_contract_repair_attempts = 0,
     lp_max_repair_source_chars = 12000, lp_dumps = lh_dumps profile_host,
     lp_dumps_indented = lh_dumps_indented profile_host, lp_str = lh_str profile_host\<rparr>"

lemma profile_steady: "steady (profile_engine profile_host planner tools verifier judge)"
  by (simp add: steady_def profile_engine_def profile_host_def on_world_def)

lemma one_plans:
  assumes "validate_plan (one_planner (x # xs) tools) x = Inr p"
  shows "llm_plan (one_planner (x # xs) tools) s \<lparr>st_tree = t, st_world = 0\<rparr> = (Inr p, \<lparr>st_tree = t, st_world = 1\<rparr>)"
proof -
  have "ask_plan (one_planner (x # xs) tools) ms \<lparr>st_tree = t, st_world = 0\<rparr> = (Inr p, \<lparr>st_tree = t, st_world = 1\<rparr>)" for ms
    using assms by (simp add: ask_plan_def one_planner_def site_client_def on_world_def listed_client_def)
  then show ?thesis by (simp add: llm_plan_def)
qed

definition tool_result :: "action \<Rightarrow> pydict \<Rightarrow> action_result" where
  "tool_result a out = \<lparr>ar_action = a, ar_status = ''ok'', ar_output = out, ar_error = None, ar_duration_seconds = 0\<rparr>"

lemma profile_executes:
  assumes "dget tools (ac_tool a) = Some f" "f (ac_arguments a) s w = (Inr (PDict out), w')"
  shows "eng_executor (profile_engine profile_host planner tools verifier judge) a s w = (Inr (tool_result a out), w')"
  using assms by (simp add: profile_engine_def execute_tool_def on_world_def profile_host_def tool_result_def)

lemma timed_tool_result [simp]: "timed (tool_result a out) = tool_result a out"
  by (simp add: timed_def tool_result_def)

lemma strip_names: "strip ''g'' = ''g''" "strip ''c'' = ''c''" "strip ''list_files'' = ''list_files''" "strip ''read_text'' = ''read_text''"
  "strip ''search_text'' = ''search_text''" "strip ''apply_patch'' = ''apply_patch''" "strip ''run_verification'' = ''run_verification''"
  by code_simp+

section \<open>An evidence run\<close>

definition look_plan :: pydict where
  "look_plan = [(''actions'', PList [action_json ''list_files'' []])]"

definition look_assessment :: pydict where
  "look_assessment = [(''criteria'', PList [PDict [(''criterion'', PStr ''c''), (''satisfied'', PBool True),
      (''evidence_refs'', pstrs [''evidence:0'']), (''reason'', PStr [])]]),
     (''missing_evidence'', PList []), (''summary'', PStr [])]"

definition look_verifier :: "nat site evidence_verifier" where
  "look_verifier = \<lparr>ev_client = site_client (listed_client [look_plan, look_assessment]), ev_max_evidence_items = 12,
     ev_max_item_chars = 8000, ev_contract_repair_attempts = 0, ev_max_repair_source_chars = 12000,
     ev_dumps = lh_dumps profile_host, ev_dumps_indented = lh_dumps_indented profile_host\<rparr>"

definition look_tools :: "nat site tool_registry" where
  "look_tools = [(''list_files'', reading_tool (list_files one_workspace))]"

definition look_engine :: "nat site loop_engine" where
  "look_engine = profile_engine profile_host (llm_plan (one_planner [look_plan, look_assessment] [''list_files'']))
     look_tools (evidence_verify look_verifier) (evidence_judge (lh_str profile_host))"

definition look_definition :: loop_definition where
  "look_definition = evidence_definition profile_host ''g'' [''c''] [''list_files''] two_per_plan"

definition look_action :: action where
  "look_action = plain_action ''list_files'' [] []"

definition look_output :: pydict where
  "look_output = [(''entries'', PList [PDict [(''path'', PStr ''f''), (''type'', PStr ''file''), (''size'', PInt 1)]]),
     (''truncated'', PBool False), (''root'', PStr ''/w'')]"

definition look_judged :: assessment where
  "look_judged = \<lparr>am_criteria = [\<lparr>cr_criterion = ''c'', cr_satisfied = True, cr_refs = [''evidence:0''], cr_reason = []\<rparr>],
     am_missing = [], am_summary = []\<rparr>"

lemma look_lists: "list_files one_workspace (one_file [97]) [] = Inr look_output"
  by code_simp

lemma look_planned: "validate_plan (one_planner [look_plan, look_assessment] [''list_files'']) look_plan =
    Inr \<lparr>pl_actions = [look_action], pl_rationale = [], pl_expected_evidence = []\<rparr>"
  by code_simp

lemma look_assessed: "validate_assessment [''c''] [''evidence:0''] look_assessment = Inr look_judged"
  by code_simp

lemma look_built: "build_llm_evidence_loop profile_host (one_file [97]) ''g'' [''c''] (listed_client [look_plan, look_assessment])
    (Some [''list_files'']) two_per_plan = Inr (look_engine, look_definition)"
proof -
  have "register_read_only one_workspace (Some [''list_files'']) [] = Inr look_tools"
    by (simp add: register_read_only_def Let_def read_only_tools_def register_tool_def look_tools_def dget_def strip_names dset_def)
  moreover have "profile_planner profile_host (listed_client [look_plan, look_assessment]) (Some [''list_files'']) 2 0 =
      Inr (one_planner [look_plan, look_assessment] [''list_files''])"
    by (simp add: profile_planner_def mk_llm_planner_def one_planner_def Let_def action_arguments_def dkeys_def)
  moreover have "profile_verifier profile_host (listed_client [look_plan, look_assessment]) 0 = Inr look_verifier"
    by (simp add: profile_verifier_def mk_evidence_verifier_def look_verifier_def)
  ultimately show ?thesis
    using one_workspace_opens [of "[97]"]
    by (simp add: strip_names build_llm_evidence_loop_def Let_def read_only_tool_names_def two_per_plan_def look_engine_def look_definition_def)
qed

lemma look_verifies:
  assumes "ld_success_criteria (ls_definition s) = [''c'']" "ls_action_results s = [tool_result look_action look_output]"
  shows "evidence_verify look_verifier s [tool_result look_action look_output] \<lparr>st_tree = t, st_world = 1\<rparr> =
    (Inr (evidence_verdict [''evidence:0''] look_judged), \<lparr>st_tree = t, st_world = 2\<rparr>)"
proof -
  have c: "catalogue look_verifier s = [(0, tool_result look_action look_output)]"
    by (simp add: catalogue_def assms(2) last_n_def look_verifier_def tool_result_def)
  have "catalogue_ids [(0, tool_result look_action look_output)] = [''evidence:0'']" by code_simp
  then have "ask_assessment look_verifier s (catalogue look_verifier s) ms \<lparr>st_tree = t, st_world = 1\<rparr> =
      (Inr look_judged, \<lparr>st_tree = t, st_world = 2\<rparr>)" for ms
    unfolding ask_assessment_def using look_assessed
    by (simp add: look_verifier_def site_client_def on_world_def listed_client_def assms(1) c [unfolded look_verifier_def])
  then show ?thesis
    using \<open>catalogue_ids _ = _\<close> by (simp add: evidence_verify_def assess_evidence_def c tool_result_def)
qed

lemma look_runs: "\<exists>s w'. run_engine look_engine look_definition ''r'' \<lparr>st_tree = one_file [97], st_world = 0\<rparr> = Inr (Some (s, w')) \<and>
    ls_status s = LS_COMPLETED \<and> ls_action_results s = [tool_result look_action look_output]"
proof -
  let ?v = "evidence_verdict [''evidence:0''] look_judged"
  have "\<exists>s. run_engine look_engine look_definition ''r'' \<lparr>st_tree = one_file [97], st_world = 0\<rparr> =
      Inr (Some (s, \<lparr>st_tree = one_file [97], st_world = 2\<rparr>)) \<and>
    ls_status s = LS_COMPLETED \<and> ls_action_results s = map timed [tool_result look_action look_output]"
  proof (rule first_attempt_completes)
    show "steady look_engine" by (simp add: look_engine_def profile_steady)
    show "eng_planner look_engine s \<lparr>st_tree = one_file [97], st_world = 0\<rparr> =
        (Inr \<lparr>pl_actions = [look_action], pl_rationale = [], pl_expected_evidence = []\<rparr>, \<lparr>st_tree = one_file [97], st_world = 1\<rparr>)" for s
      using one_plans [OF look_planned] by (simp add: look_engine_def profile_engine_def)
    show "answers look_engine ''r'' (pl_actions \<lparr>pl_actions = [look_action], pl_rationale = [], pl_expected_evidence = []\<rparr>)
        \<lparr>st_tree = one_file [97], st_world = 1\<rparr> [tool_result look_action look_output] \<lparr>st_tree = one_file [97], st_world = 1\<rparr>"
      using look_lists by (auto simp: look_engine_def look_tools_def look_action_def plain_action_def reading_tool_def
          intro!: answers.intros profile_executes)
    show "eng_verifier look_engine s (map timed [tool_result look_action look_output]) \<lparr>st_tree = one_file [97], st_world = 1\<rparr> =
        (Inr ?v, \<lparr>st_tree = one_file [97], st_world = 2\<rparr>)"
      if "ls_definition s = look_definition\<lparr>ld_goal := strip (ld_goal look_definition)\<rparr>"
        "ls_action_results s = map timed [tool_result look_action look_output]" for s
      using look_verifies [of s] that by (simp add: look_engine_def profile_engine_def look_definition_def evidence_definition_def)
    show "eng_judge look_engine s ?v \<lparr>st_tree = one_file [97], st_world = 2\<rparr> =
        (Inr \<lparr>jd_decision = COMPLETE, jd_reason = ''read-only evidence satisfies all success criteria'',
          jd_progress_signals = vr_passed ?v, jd_next_focus = None\<rparr>, \<lparr>st_tree = one_file [97], st_world = 2\<rparr>)" for s
      by (simp add: look_engine_def profile_engine_def evidence_judge_def evidence_verdict_def look_judged_def)
  qed (simp_all add: look_definition_def evidence_definition_def two_per_plan_def strip_names)
  then show ?thesis by auto
qed


section \<open>Repair runs\<close>

definition edit :: "string \<Rightarrow> string \<Rightarrow> action" where
  "edit old new = plain_action ''apply_patch'' [(''path'', PStr ''f''), (''old_text'', PStr old), (''new_text'', PStr new)] []"

definition check :: action where
  "check = plain_action ''run_verification'' [] []"

definition fix_answer :: "action list \<Rightarrow> pydict" where
  "fix_answer as = [(''actions'', PList (map (\<lambda>a. action_json (ac_tool a) (ac_arguments a)) as))]"

definition fix_plan :: "action list \<Rightarrow> plan" where
  "fix_plan as = \<lparr>pl_actions = as, pl_rationale = [], pl_expected_evidence = []\<rparr>"

definition fix_tools :: "nat site tool_registry" where
  "fix_tools = [(''list_files'', reading_tool (list_files one_workspace)), (''read_text'', reading_tool (read_text one_workspace)),
     (''search_text'', reading_tool (search_text one_workspace)), (''apply_patch'', patch_tool one_workspace),
     (''run_verification'', check_tool)]"

definition fix_engine :: "action list \<Rightarrow> nat site loop_engine" where
  "fix_engine as = profile_engine profile_host (llm_plan (one_planner [fix_answer as] (dkeys action_arguments))) fix_tools
     (\<lambda>s results w. (Inr (verify_repair_results results), w)) (\<lambda>s v. Inr (llm_repair_judge s v))"

definition fix_definition :: loop_definition where
  "fix_definition = llm_repair_definition profile_host ''g'' [''check''] two_per_plan 30 1000"

definition patched :: pydict where
  "patched = patch_report ''f'' ''applied'' 1 [] []"

definition checked :: "int \<Rightarrow> pydict" where
  "checked code = [(''exit_code'', PInt code), (''timed_out'', PBool False)]"

lemma edits:
  "apply_patch one_workspace (ac_arguments (edit ''a'' ''b'')) ''r'' (one_file [97]) = (Inr patched, one_file [98])"
  "apply_patch one_workspace (ac_arguments (edit ''b'' ''a'')) ''r'' (one_file [98]) = (Inr patched, one_file [97])"
  by code_simp+

lemma fixes_planned:
  "validate_plan (one_planner [fix_answer [edit ''a'' ''b'', check]] (dkeys action_arguments)) (fix_answer [edit ''a'' ''b'', check])
     = Inr (fix_plan [edit ''a'' ''b'', check])"
  "validate_plan (one_planner [fix_answer [check, edit ''b'' ''a'']] (dkeys action_arguments)) (fix_answer [check, edit ''b'' ''a''])
     = Inr (fix_plan [check, edit ''b'' ''a''])"
  by code_simp+

lemma check_command: "command_tool profile_host (one_file b) [''check''] 30 1000 = Inr check_tool"
proof -
  have "py_path_of ''.'' = ([], [])" "strip ''check'' = ''check''" by code_simp+
  then have "resolve_cwd 40 (one_file b) [''w''] ''.'' = Inr [''w'']"
    by (simp add: resolve_cwd_def one_file_def tree_at_def)
  with \<open>strip ''check'' = _\<close> show ?thesis
    by (simp add: command_tool_def mk_subprocess_spec_def default_subprocess_spec_def mk_subprocess_tool_def profile_host_def)
qed

lemma fix_tools_registered: "repair_tools profile_host (one_file b) [''check''] 30 1000 = Inr fix_tools"
proof -
  have "register_file_tools one_workspace [] = Inr (butlast fix_tools)"
    by (simp add: register_file_tools_def register_read_only_def Let_def read_only_tools_def register_tool_def fix_tools_def
        dget_def strip_names dset_def)
  then show ?thesis
    using one_workspace_opens check_command by (simp add: repair_tools_def register_tool_def strip_names fix_tools_def dset_def)
qed

lemma fix_built: "build_llm_repair_loop profile_host (one_file b) ''g'' (listed_client [fix_answer as]) [''check''] two_per_plan 30 1000 =
    Inr (fix_engine as, fix_definition)"
proof -
  have "profile_planner profile_host (listed_client [fix_answer as]) None 2 0 = Inr (one_planner [fix_answer as] (dkeys action_arguments))"
    by (simp add: profile_planner_def mk_llm_planner_def one_planner_def Let_def action_arguments_def dkeys_def)
  then show ?thesis
    using fix_tools_registered
    by (simp add: build_llm_repair_loop_def two_per_plan_def fix_engine_def fix_definition_def)
qed

lemma fix_steps:
  "tree_at (st_tree w) [''w'', ''f''] = Some (File_Entry [98]) \<Longrightarrow>
   eng_executor (fix_engine as) check s w = (Inr (tool_result check (checked 0)), w)"
  "ls_run_id s = ''r'' \<Longrightarrow> apply_patch one_workspace (ac_arguments (edit x y)) ''r'' (st_tree w) = (Inr out, t) \<Longrightarrow>
   eng_executor (fix_engine as) (edit x y) s w = (Inr (tool_result (edit x y) out), w\<lparr>st_tree := t\<rparr>)"
  unfolding fix_engine_def
  by (rule profile_executes [where f = check_tool], simp_all add: fix_tools_def check_def plain_action_def check_tool_def checked_def dget_def)
    (rule profile_executes [where f = "patch_tool one_workspace"], simp_all add: fix_tools_def edit_def plain_action_def dget_def patch_tool_def)

lemma fix_runs:
  assumes "validate_plan (one_planner [fix_answer as] (dkeys action_arguments)) (fix_answer as) = Inr (fix_plan as)"
    "answers (fix_engine as) ''r'' as \<lparr>st_tree = t, st_world = 1\<rparr> rs w'" "as \<noteq> []" "length as \<le> 4"
    "vr_status (verify_repair_results (map timed rs)) = ''passed''"
  shows "\<exists>s. run_engine (fix_engine as) fix_definition ''r'' \<lparr>st_tree = t, st_world = 0\<rparr> = Inr (Some (s, w')) \<and>
    ls_status s = LS_COMPLETED \<and> ls_action_results s = map timed rs"
proof (rule first_attempt_completes)
  show "steady (fix_engine as)" by (simp add: fix_engine_def profile_steady)
  show "eng_planner (fix_engine as) s \<lparr>st_tree = t, st_world = 0\<rparr> = (Inr (fix_plan as), \<lparr>st_tree = t, st_world = 1\<rparr>)" for s
    using one_plans [OF assms(1)] by (simp add: fix_engine_def profile_engine_def)
  show "answers (fix_engine as) ''r'' (pl_actions (fix_plan as)) \<lparr>st_tree = t, st_world = 1\<rparr> rs w'"
    using assms(2) by (simp add: fix_plan_def)
  show "eng_judge (fix_engine as) s (verify_repair_results (map timed rs)) w' =
      (Inr \<lparr>jd_decision = COMPLETE, jd_reason = ''LLM-planned repair passed verification'',
         jd_progress_signals = vr_passed (verify_repair_results (map timed rs)), jd_next_focus = None\<rparr>, w')" for s
    by (simp add: fix_engine_def profile_engine_def llm_repair_judge_def assms(5))
qed (use assms(3,4) in \<open>simp_all add: fix_definition_def llm_repair_definition_def two_per_plan_def strip_names fix_plan_def
    fix_engine_def profile_engine_def\<close>)

lemma fix_then_check:
  "\<exists>s. run_engine (fix_engine [edit ''a'' ''b'', check]) fix_definition ''r'' \<lparr>st_tree = one_file [97], st_world = 0\<rparr> =
      Inr (Some (s, \<lparr>st_tree = one_file [98], st_world = 1\<rparr>)) \<and> ls_status s = LS_COMPLETED \<and>
    ls_action_results s = [tool_result (edit ''a'' ''b'') patched, tool_result check (checked 0)]"
proof -
  have "vr_status (verify_repair_results [tool_result (edit ''a'' ''b'') patched, tool_result check (checked 0)]) = ''passed''"
    by code_simp
  moreover have "answers (fix_engine [edit ''a'' ''b'', check]) ''r'' [edit ''a'' ''b'', check] \<lparr>st_tree = one_file [97], st_world = 1\<rparr>
     [tool_result (edit ''a'' ''b'') patched, tool_result check (checked 0)] \<lparr>st_tree = one_file [98], st_world = 1\<rparr>"
    by (rule answers.intros, rule fix_steps(2), assumption, simp add: edits, rule answers.intros, rule fix_steps(1))
      (simp_all add: one_file_def tree_at_def answers_Nil)
  ultimately show ?thesis using fix_runs [OF fixes_planned(1)] by fastforce
qed

lemma check_then_break:
  "\<exists>s. run_engine (fix_engine [check, edit ''b'' ''a'']) fix_definition ''r'' \<lparr>st_tree = one_file [98], st_world = 0\<rparr> =
      Inr (Some (s, \<lparr>st_tree = one_file [97], st_world = 1\<rparr>)) \<and> ls_status s = LS_COMPLETED \<and>
    ls_action_results s = [tool_result check (checked 0), tool_result (edit ''b'' ''a'') patched]"
proof -
  have "vr_status (verify_repair_results [tool_result check (checked 0), tool_result (edit ''b'' ''a'') patched]) = ''passed''"
    by code_simp
  moreover have "answers (fix_engine [check, edit ''b'' ''a'']) ''r'' [check, edit ''b'' ''a''] \<lparr>st_tree = one_file [98], st_world = 1\<rparr>
     [tool_result check (checked 0), tool_result (edit ''b'' ''a'') patched] \<lparr>st_tree = one_file [97], st_world = 1\<rparr>"
    by (rule answers.intros, rule fix_steps(1), simp add: one_file_def tree_at_def, rule answers.intros, rule fix_steps(2), assumption)
      (simp_all add: edits, rule answers_Nil)
  ultimately show ?thesis using fix_runs [OF fixes_planned(2)] by fastforce
qed

end
