(* ===== verification/Profile_Properties.thy ===== *)
theory Profile_Properties
  imports Profile_Examples
begin

text \<open>
  Whole runs of the coding profiles: what a language model can bring about through the loops that
  the repository builds for it. The proofs carry the guarantees of planner, tools, verifier and judge
  over to runs with the facts of \<open>Loop_Provenance\<close>.
\<close>

section \<open>The engines the builders make\<close>

lemma mk_llm_planner_Inr:
  assumes "mk_llm_planner allowed L = Inr L'"
  shows "\<exists>tools. L' = L\<lparr>lp_allowed_tools := tools\<rparr> \<and> (\<forall>ts. allowed = Some ts \<longrightarrow> set tools = set ts)"
  using assms by (auto simp: mk_llm_planner_def Let_def split: if_splits)


lemma repair_loop_parts:
  assumes "build_llm_repair_loop H t goal client command limits timeout out = Inr (E, d)"
  shows "\<exists>tools L. repair_tools H t command timeout out = Inr tools \<and> lp_client L = site_client client \<and>
    E = profile_engine H (llm_plan L) tools (\<lambda>s results w. (Inr (verify_repair_results results), w)) (\<lambda>s v. Inr (llm_repair_judge s v))"
proof -
  have "exc_bind (repair_tools H t command timeout out) (\<lambda>tools.
      exc_bind (profile_planner H client None (ll_max_actions_per_plan limits) (ll_contract_repair_attempts limits)) (\<lambda>L.
      Inr (profile_engine H (llm_plan L) tools (\<lambda>s results w. (Inr (verify_repair_results results), w))
          (\<lambda>s v. Inr (llm_repair_judge s v)),
        llm_repair_definition H goal command limits timeout out))) = Inr (E, d)"
    using assms unfolding build_llm_repair_loop_def by (simp split: if_split_asm)
  then obtain tools L where parts: "repair_tools H t command timeout out = Inr tools"
    "profile_planner H client None (ll_max_actions_per_plan limits) (ll_contract_repair_attempts limits) = Inr L"
    "E = profile_engine H (llm_plan L) tools (\<lambda>s results w. (Inr (verify_repair_results results), w)) (\<lambda>s v. Inr (llm_repair_judge s v))"
    unfolding exc_bind_Inr by blast
  from mk_llm_planner_Inr [OF parts(2) [unfolded profile_planner_def]] have "lp_client L = site_client client"
    by (elim exE conjE) simp
  with parts show ?thesis by blast
qed



lemma profile_answered:
  assumes "answered (profile_engine H planner tools verifier judge) a r"
  shows "ar_action r = a"
proof -
  let ?E = "profile_engine H planner tools verifier judge"
  have "ar_action x = a" if "fst (eng_executor ?E a s w) = Inr x" for s w x
    using execute_tool_total [of "on_world (lh_perf_counter H)" tools a s w] that by (auto simp: profile_engine_def)
  with assms show ?thesis unfolding answered_def by fastforce
qed

lemma site_client_tree [simp]: "st_tree (snd (site_client client ms w)) = st_tree w"
  by (simp add: site_client_def)






section \<open>Properties\<close>

lemma llm_planned:
  assumes "llm_plan L s w = (Inr p, w')"
  shows "pl_actions p \<noteq> [] \<and> int (length (pl_actions p)) \<le> lp_max_actions_per_plan L \<and>
     (\<forall>a\<in>set (pl_actions p). ac_tool a \<in> set (lp_allowed_tools L) \<and> validate_arguments (ac_tool a) (ac_arguments a) = Inr () \<and>
        (\<exists>c. dget action_arguments (ac_tool a) = Some c \<and> set (dkeys (ac_arguments a)) \<subseteq> set (tc_allowed c) \<and>
           set (tc_required c) \<subseteq> set (dkeys (ac_arguments a))))"
  using llm_plan_Inr [OF assms] validate_plan_Inr unfolding action_meets_contract_def validate_arguments_iff by blast

text \<open>
  C17: every plan that the language-model planner returns has at least one and at most the allowed number of actions, and
  each action names an allowed tool, with only arguments of its contract and all the required ones, and arguments that
  pass the planner's checks. These pass exactly when a path, if present and not null, is a string that is not blank,
  relative and without \<open>..\<close>; the old text of a patch is a string that is not empty, its new text a string and
  the number of replacements, if present, a positive integer; the query of a search is a string that is not empty; and the
  limits that are present are positive integers and the flags booleans. A null path passes for every tool, and
  \<open>expected_sha256\<close> is not checked.
\<close>

theorem llm_plans_checked:
  "(\<forall>s w p w'. llm_plan L s w = (Inr p, w') \<longrightarrow>
     pl_actions p \<noteq> [] \<and> int (length (pl_actions p)) \<le> lp_max_actions_per_plan L \<and>
     (\<forall>a\<in>set (pl_actions p). ac_tool a \<in> set (lp_allowed_tools L) \<and> validate_arguments (ac_tool a) (ac_arguments a) = Inr () \<and>
        (\<exists>c. dget action_arguments (ac_tool a) = Some c \<and> set (dkeys (ac_arguments a)) \<subseteq> set (tc_allowed c) \<and>
           set (tc_required c) \<subseteq> set (dkeys (ac_arguments a))))) \<and>
   (\<forall>tool args. validate_arguments tool args = Inr () \<longleftrightarrow>
     (case dget_none args ''path'' of PNone \<Rightarrow> True
       | PStr s \<Rightarrow> strip s \<noteq> [] \<and> fst (py_path_of s) = [] \<and> ''..'' \<notin> set (snd (py_path_of s)) | _ \<Rightarrow> False) \<and>
     (tool = ''apply_patch'' \<longrightarrow> (\<exists>old new n. dget_none args ''old_text'' = PStr old \<and> old \<noteq> [] \<and>
        dget_none args ''new_text'' = PStr new \<and> dget_or (PInt 1) args ''expected_replacements'' = PInt n \<and> 0 < n)) \<and>
     (tool = ''search_text'' \<longrightarrow> (\<exists>q. dget_none args ''query'' = PStr q \<and> q \<noteq> [])) \<and>
     (\<forall>k\<in>{''max_entries'', ''max_bytes'', ''max_matches''}. \<forall>v. dget args k = Some v \<longrightarrow> (\<exists>n. v = PInt n \<and> 0 < n)) \<and>
     (\<forall>k\<in>{''recursive'', ''regex'', ''case_sensitive''}. \<forall>v. dget args k = Some v \<longrightarrow> (\<exists>b. v = PBool b)))"
  by (intro conjI [OF allI allI] allI impI llm_planned validate_arguments_iff [unfolded arguments_checked_def])

theorem llm_plans_checked_witness:
  "validate_arguments ''apply_patch'' (ac_arguments (edit ''a'' ''b'')) = Inr () \<and>
   ac_tool (edit ''a'' ''b'') \<in> set (dkeys action_arguments) \<and>
   validate_arguments ''read_text'' [(''path'', PNone)] = Inr () \<and>
   validate_arguments ''read_text'' [(''path'', PStr ''../x'')] \<noteq> Inr ()"
proof -
  have "llm_plan (one_planner [fix_answer [edit ''a'' ''b'', check]] (dkeys action_arguments))
      (undefined :: loop_state) \<lparr>st_tree = [], st_world = 0\<rparr> = (Inr (fix_plan [edit ''a'' ''b'', check]), \<lparr>st_tree = [], st_world = 1\<rparr>)"
    by (rule one_plans [OF fixes_planned(1)])
  with llm_plans_checked [of "one_planner [fix_answer [edit ''a'' ''b'', check]] (dkeys action_arguments)"]
  have "\<forall>a\<in>set (pl_actions (fix_plan [edit ''a'' ''b'', check])).
    ac_tool a \<in> set (lp_allowed_tools (one_planner [fix_answer [edit ''a'' ''b'', check]] (dkeys action_arguments))) \<and>
    validate_arguments (ac_tool a) (ac_arguments a) = Inr ()" by blast
  moreover have "validate_arguments ''read_text'' [(''path'', PStr ''../x'')] \<noteq> Inr ()" by code_simp
  moreover have "validate_arguments ''read_text'' [(''path'', PNone)] = Inr ()" by code_simp
  ultimately show ?thesis by (simp add: fix_plan_def edit_def plain_action_def one_planner_def)
qed



section \<open>Repair\<close>




text \<open>
  C18: when a repair run completes, the results of its last iteration, which are the last of the run, answer the actions
  of its last plan one by one, and all of them succeeded; among them is a result of the check command, and the last such
  result has exit code 0 and did not time out.
\<close>

theorem completed_repair_verified:
  assumes "build_llm_repair_loop H t goal client command limits timeout out = Inr (E, d)"
    "run_engine E d i w = Inr (Some (s, w'))" "ls_status s = LS_COMPLETED"
  shows "\<exists>p xs r ys. ls_latest_plan s = Some p \<and> ls_iteration_results s = xs @ r # ys \<and>
    suffix (ls_iteration_results s) (ls_action_results s) \<and> map ar_action (ls_iteration_results s) = pl_actions p \<and>
    (\<forall>x\<in>set (ls_iteration_results s). ar_status x = ''ok'') \<and>
    ac_tool (ar_action r) = ''run_verification'' \<and> (\<forall>y\<in>set ys. ac_tool (ar_action y) \<noteq> ''run_verification'') \<and>
    \<not> truthy (dget_or PNone (ar_output r) ''timed_out'') \<and> eq_num (dget_or PNone (ar_output r) ''exit_code'') 0"
proof -
  from repair_loop_parts [OF assms(1)] obtain tools L where
    E: "E = profile_engine H (llm_plan L) tools (\<lambda>s results w. (Inr (verify_repair_results results), w)) (\<lambda>s v. Inr (llm_repair_judge s v))"
    by blast
  have src: "sourced E s" by (rule run_engine_sourced [OF assms(2)])
  with assms(3) obtain v j s0 u where v: "just_verified E s v" "jd_decision j = COMPLETE" "fst (eng_judge E s0 v u) = Inr j"
    unfolding sourced_def by blast
  from src assms(3) have "carried_out E s" by (simp add: sourced_def)
  then obtain p where p: "ls_latest_plan s = Some p" "list_all2 (answered E) (pl_actions p) (ls_iteration_results s)"
    using assms(3) unfolding carried_out_def by blast
  have "ar_action r = a" if "answered E a r" for a r
    using that profile_answered unfolding E by blast
  with p(2) have acts: "map ar_action (ls_iteration_results s) = pl_actions p"
    by (auto simp: list_all2_conv_all_nth intro!: nth_equalityI)
  have "vr_status v = ''passed''" using v(2,3) by (auto simp: E profile_engine_def llm_repair_judge_def split: if_splits)
  moreover from v(1) obtain s1 u1 where s1: "suffix (ls_iteration_results s1) (ls_action_results s)"
    "ls_iteration_results s1 = ls_iteration_results s" "fst (eng_verifier E s1 (ls_iteration_results s1) u1) = Inr v"
    unfolding just_verified_def by metis
  moreover from s1(2,3) have "v = verify_repair_results (ls_iteration_results s)" by (simp add: E profile_engine_def)
  ultimately obtain xs r ys where "ls_iteration_results s = xs @ r # ys" "\<forall>x\<in>set (ls_iteration_results s). ar_status x = ''ok''"
    "ac_tool (ar_action r) = ''run_verification''" "\<forall>y\<in>set ys. ac_tool (ar_action y) \<noteq> ''run_verification''"
    "\<not> truthy (dget_or PNone (ar_output r) ''timed_out'')" "eq_num (dget_or PNone (ar_output r) ''exit_code'') 0"
    using repair_passed_iff [of "ls_iteration_results s"] by fastforce
  with p(1) acts s1(1,2) show ?thesis by (intro exI conjI) simp_all
qed

theorem completed_repair_verified_witness:
  "\<exists>s w'. run_engine (fix_engine [edit ''a'' ''b'', check]) fix_definition ''r'' \<lparr>st_tree = one_file [97], st_world = (0::nat)\<rparr> =
      Inr (Some (s, w')) \<and> ls_iteration_results s \<noteq> [] \<and> (\<forall>r\<in>set (ls_iteration_results s). ar_status r = ''ok'') \<and>
      (\<exists>r\<in>set (ls_iteration_results s). ac_tool (ar_action r) = ''run_verification'' \<and>
        eq_num (dget_or PNone (ar_output r) ''exit_code'') 0)"
proof -
  obtain s w' where run: "run_engine (fix_engine [edit ''a'' ''b'', check]) fix_definition ''r''
      \<lparr>st_tree = one_file [97], st_world = 0\<rparr> = Inr (Some (s, w'))" "ls_status s = LS_COMPLETED"
    using fix_then_check by blast
  from completed_repair_verified [OF fix_built run] obtain xs r ys where
    "ls_iteration_results s = xs @ r # ys" "ac_tool (ar_action r) = ''run_verification''"
    "eq_num (dget_or PNone (ar_output r) ''exit_code'') 0" "\<forall>r\<in>set (ls_iteration_results s). ar_status r = ''ok''" by blast
  then have "ls_iteration_results s \<noteq> []" "r \<in> set (ls_iteration_results s)" "ac_tool (ar_action r) = ''run_verification'' \<and>
    eq_num (dget_or PNone (ar_output r) ''exit_code'') 0" "\<forall>r\<in>set (ls_iteration_results s). ar_status r = ''ok''" by simp_all
  with run(1) show ?thesis by blast
qed

text \<open>
  This does not mean that the workspace at the end was checked: the verifier looks for the last check
  among the results, not for a check after the last patch. Here the model checks first and patches then: the
  run completes, and in the workspace it leaves the check command fails.
\<close>

theorem unchecked_patch_completes:
  "build_llm_repair_loop profile_host (one_file [98]) ''g'' (listed_client [fix_answer [check, edit ''b'' ''a'']]) [''check'']
      two_per_plan 30 1000 = Inr (fix_engine [check, edit ''b'' ''a''], fix_definition) \<and>
   command_tool profile_host (one_file [98]) [''check''] 30 1000 = Inr check_tool \<and>
   (\<exists>s w'. run_engine (fix_engine [check, edit ''b'' ''a'']) fix_definition ''r'' \<lparr>st_tree = one_file [98], st_world = 0\<rparr> =
      Inr (Some (s, w')) \<and> ls_status s = LS_COMPLETED \<and> st_tree w' = one_file [97] \<and>
      check_tool [] s w' = (Inr (PDict (checked 1)), w'))"
  using check_then_break fix_built [of "[98]"] check_command
  by (fastforce simp: check_tool_def checked_def one_file_def tree_at_def)

end
