(* ===== verification/Leaf_Properties.thy ===== *)
theory Leaf_Properties
  imports Profile_Properties
begin

text \<open>
  What the executor of coding leaves (\<open>loop_engine/tasks/coding_leaf.py\<close>) lets a leaf do, by the capabilities
  it names, whichever loop runs it and whatever the language model answers; and the combination of
  capabilities for which it raises.
\<close>

section \<open>The loops a leaf runs\<close>






text \<open>A leaf is refused, with the world untouched, or one of the three loops runs.\<close>

lemma refused_leaf_fields [simp]:
  "lr_status (refused_leaf summary e ev) = ''blocked''" "lr_error (refused_leaf summary e ev) = Some e"
  by (simp_all add: refused_leaf_def plain_result_def)

definition leaf_needs_command :: "task_node \<Rightarrow> bool" where
  "leaf_needs_command n \<longleftrightarrow> ''process.verify'' \<in> set (nd_required_capabilities n) \<or> ''filesystem.patch'' \<in> set (nd_required_capabilities n)"



lemma leaf_runs:
  assumes "leaf_contract_error n = None" "leaf_needs_command n \<Longrightarrow> cp_verification_command (cl_policy C) \<noteq> []"
  shows "set (nd_required_capabilities n) = {''process.verify''} \<Longrightarrow>
      snd (coding_leaf_execute C n g w) = snd (loop_leaf_execute (build_check C) n g w)"
    "''filesystem.patch'' \<in> set (nd_required_capabilities n) \<Longrightarrow> cl_client C \<noteq> None \<Longrightarrow>
      snd (coding_leaf_execute C n g w) = snd (loop_leaf_execute (build_repair C) n g w)"
    "''filesystem.patch'' \<notin> set (nd_required_capabilities n) \<Longrightarrow> set (nd_required_capabilities n) \<noteq> {''process.verify''} \<Longrightarrow>
      cl_client C \<noteq> None \<Longrightarrow> coding_leaf_execute C n g w =
        (let (r, w') = loop_leaf_execute (build_evidence C) n g w in (map_sum (\<lambda>e. e) (with_profile ''llm_evidence'') r, w'))"
    "set (nd_required_capabilities n) \<noteq> {''process.verify''} \<Longrightarrow> cl_client C = None \<Longrightarrow>
      \<exists>summary e. coding_leaf_execute C n g w = (Inr (refused_leaf summary e []), w)"
proof -
  have command: "((''process.verify'' \<in> set (nd_required_capabilities n) \<or> ''filesystem.patch'' \<in> set (nd_required_capabilities n)) \<and>
      cp_verification_command (cl_policy C) = []) = False"
    using assms(2) by (auto simp: leaf_needs_command_def)
  note eq = coding_leaf_execute_def Let_def assms(1) option.case command if_False case_prod_beta
  let ?caps = "set (nd_required_capabilities n)"
  show "snd (coding_leaf_execute C n g w) = snd (loop_leaf_execute (build_check C) n g w)" if "?caps = {''process.verify''}"
    unfolding eq if_P [OF that] by (rule snd_conv)
  have patch_only: "?caps \<noteq> {''process.verify''}" if "''filesystem.patch'' \<in> ?caps"
  proof
    assume "?caps = {''process.verify''}"
    with that have "''filesystem.patch'' = ''process.verify''" by (simp only: singleton_iff)
    then show False by simp
  qed
  show "snd (coding_leaf_execute C n g w) = snd (loop_leaf_execute (build_repair C) n g w)"
    if "''filesystem.patch'' \<in> ?caps" "cl_client C \<noteq> None"
    unfolding eq if_not_P [OF patch_only [OF that(1)]] if_P [OF that(1)] if_not_P [OF that(2)] by (rule snd_conv)
  show "coding_leaf_execute C n g w =
        (let (r, w') = loop_leaf_execute (build_evidence C) n g w in (map_sum (\<lambda>e. e) (with_profile ''llm_evidence'') r, w'))"
    if "''filesystem.patch'' \<notin> ?caps" "?caps \<noteq> {''process.verify''}" "cl_client C \<noteq> None"
    unfolding eq if_not_P [OF that(2)] if_not_P [OF that(1)] if_not_P [OF that(3)] by (rule refl)
  show "\<exists>summary e. coding_leaf_execute C n g w = (Inr (refused_leaf summary e []), w)"
    if "?caps \<noteq> {''process.verify''}" "cl_client C = None"
    unfolding eq if_not_P [OF that(1)] if_P [OF that(2)] by (cases "''filesystem.patch'' \<in> ?caps") auto
qed

lemma read_capability: "c \<in> set known_capabilities \<Longrightarrow> c \<noteq> ''filesystem.patch'' \<Longrightarrow> c \<noteq> ''process.verify'' \<Longrightarrow>
    dget read_capabilities c \<noteq> None"
  by (auto simp: known_capabilities_def read_capabilities_def dget_def)

lemma no_reading_verify: "dget read_capabilities ''process.verify'' = None"
  by code_simp

lemma leaf_tools_raise:
  assumes "set (nd_required_capabilities n) \<subseteq> set known_capabilities" "''process.verify'' \<in> set (nd_required_capabilities n)"
    "''filesystem.patch'' \<notin> set (nd_required_capabilities n)"
  shows "leaf_tools n = Inl (PyExc ''KeyError'' (repr_str ''process.verify''))"
proof -
  let ?find = "\<lambda>c. case dget read_capabilities c of None \<Rightarrow> Inl (PyExc ''KeyError'' (repr_str c)) | Some tool \<Rightarrow> Inr tool"
  have "map_exc ?find cs = Inl (PyExc ''KeyError'' (repr_str ''process.verify''))"
    if "set cs \<subseteq> set known_capabilities" "''process.verify'' \<in> set cs" "''filesystem.patch'' \<notin> set cs" for cs
    using that
  proof (induction cs)
    case (Cons c cs)
    show ?case
    proof (cases "c = ''process.verify''")
      case True
      have "?find c = Inl (PyExc ''KeyError'' (repr_str ''process.verify''))" unfolding True by (simp only: no_reading_verify option.case)
      then show ?thesis by simp
    next
      case False
      then obtain tool where "?find c = Inr tool" using read_capability [of c] Cons.prems by fastforce
      moreover have "map_exc ?find cs = Inl (PyExc ''KeyError'' (repr_str ''process.verify''))"
        using Cons.prems False by (intro Cons.IH) (simp_all only: list.set insert_iff insert_subset de_Morgan_disj, blast+)
      ultimately show ?thesis by simp
    qed
  qed (simp only: list.set empty_iff)
  then show ?thesis unfolding leaf_tools_def by this (simp_all only: set_remdups assms not_False_eq_True)
qed


section \<open>Properties\<close>


text \<open>A leaf with the given capabilities, and the executor of the examples.\<close>

definition capable_leaf :: "string list \<Rightarrow> task_node" where
  "capable_leaf capabilities = \<lparr>nd_id = ''root'', nd_goal = ''g'', nd_parent_id = None, nd_success_criteria = [''c''],
     nd_required_capabilities = capabilities, nd_dependencies = [], nd_children = [], nd_status = TS_READY, nd_depth = 0,
     nd_attempts = 0, nd_retries = 0, nd_retry_started_at = PNone, nd_result = None, nd_error = None, nd_metadata = []\<rparr>"

definition lone_leaf :: "string list \<Rightarrow> task_graph" where
  "lone_leaf capabilities = \<lparr>tg_id = ''d'', tg_root_id = ''root'', tg_nodes = [(''root'', capable_leaf capabilities)],
     tg_budget = \<lparr>tb_max_nodes = 8, tb_max_depth = 2, tb_max_leaf_executions = 4\<rparr>,
     tg_leaf_executions = 0, tg_events = [], tg_stop_reason = None\<rparr>"

definition leaf_runner :: "pydict list \<Rightarrow> nat coding_leaf" where
  "leaf_runner xs = \<lparr>cl_host = profile_host, cl_policy = \<lparr>cp_verification_command = [''check''], cp_timeout_seconds = 30,
     cp_max_output_bytes = 1000, cp_max_iterations = 2, cp_max_actions = 4, cp_max_actions_per_plan = 2,
     cp_contract_repair_attempts = 0\<rparr>, cl_client = Some (listed_client xs), cl_llm_metadata = []\<rparr>"



text \<open>
  A leaf that meets the contract and asks to read and to run the check, but not to patch, is not blocked
  as unsupported: the executor raises, when it looks up the reading tool of the capability \<open>process.verify\<close>.
\<close>

theorem read_and_verify_leaf_raises:
  assumes "leaf_contract_error n = None" "''process.verify'' \<in> set (nd_required_capabilities n)"
    "''filesystem.patch'' \<notin> set (nd_required_capabilities n)" "set (nd_required_capabilities n) \<noteq> {''process.verify''}"
    "cl_client C \<noteq> None" "cp_verification_command (cl_policy C) \<noteq> []"
  shows "coding_leaf_execute C n g w = (Inl (PyExc ''KeyError'' (repr_str ''process.verify'')), w)"
proof -
  have known: "set (nd_required_capabilities n) \<subseteq> set known_capabilities"
    using assms(1) by (auto simp: leaf_contract_error_def Let_def filter_empty_conv split: if_splits)
  from leaf_tools_raise [OF known assms(2,3)] have "leaf_tools n = Inl (PyExc ''KeyError'' (repr_str ''process.verify''))" .
  moreover obtain client where "cl_client C = Some client" using assms(5) by blast
  ultimately have "loop_leaf_execute (build_evidence C) n g w = (Inl (PyExc ''KeyError'' (repr_str ''process.verify'')), w)"
    by (simp add: loop_leaf_execute_def build_evidence_def)
  with leaf_runs(3) [OF assms(1) _ assms(3,4,5), of g w] assms(6) show ?thesis by simp
qed

theorem read_and_verify_leaf_raises_witness:
  "fst (coding_leaf_execute (leaf_runner []) (capable_leaf [''filesystem.read'', ''process.verify''])
     (lone_leaf [''filesystem.read'', ''process.verify'']) \<lparr>st_tree = one_file [97], st_world = 0\<rparr>) =
     Inl (PyExc ''KeyError'' (repr_str ''process.verify''))"
proof -
  have "leaf_contract_error (capable_leaf [''filesystem.read'', ''process.verify'']) = None" by code_simp
  from read_and_verify_leaf_raises [OF this, of "leaf_runner []" "lone_leaf [''filesystem.read'', ''process.verify'']"
    "\<lparr>st_tree = one_file [97], st_world = 0\<rparr>"] show ?thesis
    by (simp add: capable_leaf_def leaf_runner_def)
qed

end
