(* ===== verification/Snapshot_Store.thy ===== *)
theory Snapshot_Store
  imports Service_Reports Py_Text
begin

text \<open>
  What the histories of releases (\<open>loop_engine/release_history.py\<close>) and of benchmarks
  (\<open>loop_engine/benchmarks/history_store.py\<close>) share: immutable snapshots, one JSON file each, that are recorded
  once, loaded by their identifier and listed newest first; and the medians of both.
  The two stores are one contract, the locale \<open>snapshots\<close>.
\<close>

section \<open>Reading JSON\<close>

text \<open>The codec, \<open>str\<close> of the values that the model does not print, and the message of a decoding error.\<close>

record json_io =
  ji_codec :: json_codec
  ji_str :: "pyval \<Rightarrow> string"
  ji_error :: "string \<Rightarrow> string"

text \<open>\<open>str(value)\<close>.\<close>

definition show_val :: "json_io \<Rightarrow> pyval \<Rightarrow> string" where
  "show_val IO v = (case v of PStr s \<Rightarrow> s | PInt i \<Rightarrow> str_of_int i | PNone \<Rightarrow> ''None''
     | PBool b \<Rightarrow> (if b then ''True'' else ''False'') | _ \<Rightarrow> ji_str IO v)"

definition json_loads :: "json_io \<Rightarrow> string \<Rightarrow> py_exc + pyval" where
  "json_loads IO s = (case jc_loads (ji_codec IO) s of
      None \<Rightarrow> Inl (PyExc ''JSONDecodeError'' (ji_error IO s)) | Some v \<Rightarrow> Inr v)"

text \<open>\<open>float(value)\<close> of a number.\<close>

definition py_float :: "pyval \<Rightarrow> py_exc + rat" where
  "py_float v = (case num_value v of None \<Rightarrow> Inl (malformed ''number'') | Some r \<Rightarrow> Inr r)"

section \<open>Statistics\<close>

text \<open>\<open>statistics.median\<close>.\<close>

definition median_rat :: "rat list \<Rightarrow> rat" where
  "median_rat xs = (let s = sort xs; n = length xs in
     if odd n then s ! (n div 2) else (s ! (n div 2 - 1) + s ! (n div 2)) / 2)"

text \<open>\<open>int(x)\<close>.\<close>

definition py_trunc :: "rat \<Rightarrow> int" where
  "py_trunc x = (if x < 0 then - \<lfloor>- x\<rfloor> else \<lfloor>x\<rfloor>)"

section \<open>Snapshots\<close>

definition snapshot_identifier :: "string \<Rightarrow> string \<Rightarrow> py_exc + string" where
  "snapshot_identifier what s = (if is_identifier s then Inr s
     else Inl (ValueError (what @ '' may contain only letters, digits, underscore, and hyphen'')))"

definition snapshot_target :: "string \<Rightarrow> string" where
  "snapshot_target i = i @ ''.json''"

definition snapshot_text :: "json_io \<Rightarrow> pydict \<Rightarrow> string" where
  "snapshot_text IO d = jc_dumps (ji_codec IO) (PDict [(''schema_version'', PInt 1), (''entry'', PDict d)]) @ [CHR 0x0A]"

definition record_snapshot :: "json_io \<Rightarrow> string \<Rightarrow> string \<Rightarrow> pydict \<Rightarrow> directory \<Rightarrow> py_exc + directory" where
  "record_snapshot IO label i d files = (if dget files (snapshot_target i) \<noteq> None
      then Inl (PyExc ''FileExistsError'' (label @ '' snapshot already exists: '' @ i))
      else Inr (dset (snapshot_target i) (snapshot_text IO d) files))"

definition load_snapshot ::
  "json_io \<Rightarrow> string \<Rightarrow> string \<Rightarrow> (string \<Rightarrow> pydict \<Rightarrow> py_exc + 'e) \<Rightarrow> string \<Rightarrow> directory \<Rightarrow> py_exc + 'e" where
  "load_snapshot IO what label decode i files = exc_bind (snapshot_identifier what i) (\<lambda>i.
     case dget files (snapshot_target i) of
       None \<Rightarrow> Inl (PyExc ''FileNotFoundError'' (snapshot_target i))
     | Some s \<Rightarrow> exc_bind (json_loads IO s) (\<lambda>v. case as_dict v of
         None \<Rightarrow> Inl (malformed label)
       | Some payload \<Rightarrow> let version = dget_or PNone payload ''schema_version'' in
           if \<not> eq_num version 1
             then Inl (ValueError (''unsupported '' @ label @ '' schema version: '' @ show_val IO version))
           else exc_bind (field_exc payload ''entry'' as_dict) (decode i)))"

text \<open>The stems of \<open>*.json\<close> that are identifiers, in the order of the directory.\<close>

definition snapshot_stem :: "string \<Rightarrow> string option" where
  "snapshot_stem key = (let stem = take (length key - 5) key in
     if key = snapshot_target stem \<and> is_identifier stem then Some stem else None)"

definition snapshot_ids :: "directory \<Rightarrow> string list" where
  "snapshot_ids files = List.map_filter snapshot_stem (dkeys files)"

text \<open>\<open>sort(key=..., reverse=True)\<close> is stable.\<close>

definition sort_down :: "('e \<Rightarrow> 'k::linorder) \<Rightarrow> 'e list \<Rightarrow> 'e list" where
  "sort_down key es = rev (sort_key key (rev es))"

definition list_snapshots ::
  "string \<Rightarrow> (string \<Rightarrow> directory \<Rightarrow> py_exc + 'e) \<Rightarrow> ('e \<Rightarrow> rat \<times> string) \<Rightarrow> pyval \<Rightarrow> directory \<Rightarrow> py_exc + 'e list" where
  "list_snapshots label load key limit files =
     (let refused = Inl (ValueError (label @ '' limit must be between 1 and 100'')) in
      case plain_int limit of
        None \<Rightarrow> refused
      | Some n \<Rightarrow> if n \<le> 0 \<or> n > 100 then refused
          else exc_bind (map_exc (\<lambda>i. load i files) (snapshot_ids files)) (\<lambda>es. Inr (take (nat n) (sort_down key es))))"

text \<open>Recording one entry after another.\<close>

definition record_each :: "('e \<Rightarrow> directory \<Rightarrow> py_exc + directory) \<Rightarrow> 'e list \<Rightarrow> directory \<Rightarrow> py_exc + directory" where
  "record_each rec es files = fold (\<lambda>e acc. exc_bind acc (rec e)) es (Inr files)"

lemma set_sort_down [simp]: "set (sort_down key es) = set es" "length (sort_down key es) = length es"
  by (simp_all add: sort_down_def)

lemma sort_down_sorted: "sorted_wrt (\<lambda>a b. key b \<le> key a) (sort_down key es)"
proof -
  have "sorted (map key (sort_key key (rev es)))" by (rule sorted_sort_key)
  then show ?thesis by (simp add: sort_down_def sorted_wrt_rev sorted_wrt_map)
qed

lemma sort_down_newest:
  assumes "a \<in> set (take n (sort_down key es))" "b \<in> set es - set (take n (sort_down key es))"
  shows "key b \<le> key a"
proof -
  have "b \<in> set (drop n (sort_down key es))"
    using assms(2) append_take_drop_id [of n "sort_down key es"] by (metis DiffE Un_iff set_append set_sort_down(1))
  with sort_down_sorted [of key es] assms(1) show ?thesis
    by (metis (no_types, lifting) append_take_drop_id sorted_wrt_append)
qed

lemma sort_down_take: "sort_down key (take n (sort_down key es)) = take n (sort_down key es)"
proof -
  have "sorted (map key (drop m (sort_key key (rev es))))" for m
    by (metis drop_map sorted_sort_key sorted_wrt_drop)
  then show ?thesis by (simp add: sort_down_def rev_take sort_key_id_if_sorted) (simp add: take_rev)
qed

lemma sort_down_newer: "\<forall>e\<in>set es. key e < key x \<Longrightarrow> sort_down key (es @ [x]) = x # sort_down key es"
proof -
  have "insort_key key x xs = xs @ [x]" if "\<forall>e\<in>set xs. key e < key x" for xs
    using that by (induction xs) auto
  then show "\<forall>e\<in>set es. key e < key x \<Longrightarrow> sort_down key (es @ [x]) = x # sort_down key es"
    by (simp add: sort_down_def)
qed

lemma snapshot_stem_target: "is_identifier i \<Longrightarrow> snapshot_stem (snapshot_target i) = Some i"
  by (simp add: snapshot_stem_def snapshot_target_def)

lemma snapshot_target_inject [simp]: "snapshot_target i = snapshot_target j \<longleftrightarrow> i = j"
  by (simp add: snapshot_target_def)

lemma record_each_Cons: "record_each rec (e # es) files = exc_bind (rec e files) (record_each rec es)"
proof -
  have "fold (\<lambda>e acc. exc_bind acc (rec e)) es (Inl x) = Inl x" for x by (induction es) simp_all
  then show ?thesis by (cases "rec e files") (simp_all add: record_each_def)
qed

section \<open>Interface: a store of immutable snapshots\<close>

text \<open>
  What a store provides: encoding an entry and decoding it under its own identifier gives it back, and its
  identifier is one. What its clients get: nothing is ever overwritten, everything that was recorded is loaded
  as it was, and a listing gives the newest entries.
\<close>

locale snapshots =
  fixes IO :: json_io and what label :: string
    and enc :: "'e \<Rightarrow> pydict" and dec :: "string \<Rightarrow> pydict \<Rightarrow> py_exc + 'e"
    and ident :: "'e \<Rightarrow> string" and stamp :: "'e \<Rightarrow> rat" and ok :: "'e \<Rightarrow> bool"
  assumes dec_enc: "ok e \<Longrightarrow> dec (ident e) (enc e) = Inr e"
    and ok_ident: "ok e \<Longrightarrow> is_identifier (ident e)"
begin

abbreviation rec :: "'e \<Rightarrow> directory \<Rightarrow> py_exc + directory" where
  "rec e \<equiv> record_snapshot IO label (ident e) (enc e)"

abbreviation ld :: "string \<Rightarrow> directory \<Rightarrow> py_exc + 'e" where
  "ld \<equiv> load_snapshot IO what label dec"

lemma never_overwrites: "rec e files = Inr files' \<Longrightarrow> dget files k = Some s \<Longrightarrow> dget files' k = Some s"
  by (auto simp: record_snapshot_def split: if_splits)

lemma recorded_once:
  "rec e files = Inr files' \<Longrightarrow> dget files (snapshot_target (ident e)) = None \<and>
   files' = files @ [(snapshot_target (ident e), snapshot_text IO (enc e))]"
  by (auto simp: record_snapshot_def dset_new dget_None_iff split: if_splits)

lemma load_recorded:
  assumes "codec_ok (ji_codec IO)" "ok e" "dget files (snapshot_target (ident e)) = Some (snapshot_text IO (enc e))"
  shows "ld (ident e) files = Inr e"
  using assms ok_ident [OF assms(2)] dec_enc [OF assms(2)]
  by (simp add: load_snapshot_def snapshot_identifier_def json_loads_def snapshot_text_def codec_loads_line eq_num_def
      dget_or_def field_exc_def)

lemma recorded_files:
  assumes "record_each rec es files = Inr files'"
  shows "files' = files @ map (\<lambda>e. (snapshot_target (ident e), snapshot_text IO (enc e))) es \<and>
    distinct (map ident es) \<and> (\<forall>e\<in>set es. dget files (snapshot_target (ident e)) = None)"
  using assms
proof (induction es arbitrary: files)
  case (Cons e es)
  let ?kv = "(snapshot_target (ident e), snapshot_text IO (enc e))"
  from Cons.prems have new: "dget files (snapshot_target (ident e)) = None"
    and rest: "record_each rec es (files @ [?kv]) = Inr files'"
    using recorded_once by (auto simp: record_each_Cons exc_bind_Inr)
  have split: "dget (files @ [?kv]) k = None \<longleftrightarrow> dget files k = None \<and> k \<noteq> snapshot_target (ident e)" for k
    by (auto simp: dget_None_iff dkeys_def)
  from Cons.IH [OF rest] new split show ?case by auto
qed (simp add: record_each_def)

lemma recorded_wf: "record_each rec es [] = Inr files \<Longrightarrow> wf_dict files"
  using recorded_files [of es "[]" files] by (auto simp: wf_dict_def distinct_map inj_on_def)

lemma load_each:
  assumes J: "codec_ok (ji_codec IO)" and ok: "\<forall>e\<in>set es. ok e" and recorded: "record_each rec es [] = Inr files"
    and e: "e \<in> set es"
  shows "ld (ident e) files = Inr e"
proof (rule load_recorded [OF J])
  show "ok e" using ok e by blast
  show "dget files (snapshot_target (ident e)) = Some (snapshot_text IO (enc e))"
    unfolding dget_in [OF recorded_wf [OF recorded], symmetric] using recorded_files [OF recorded] e by auto
qed

lemma list_each:
  assumes J: "codec_ok (ji_codec IO)" and ok: "\<forall>e\<in>set es. ok e" and recorded: "record_each rec es [] = Inr files"
    and n: "0 < n" "n \<le> 100"
  shows "list_snapshots label ld (\<lambda>e. (stamp e, ident e)) (PInt n) files =
    Inr (take (nat n) (sort_down (\<lambda>e. (stamp e, ident e)) es))"
proof -
  have "List.map_filter snapshot_stem (map (\<lambda>e. snapshot_target (ident e)) xs) = map ident xs" if "set xs \<subseteq> set es" for xs
    using that ok ok_ident by (induction xs) (auto simp: List.map_filter_simps snapshot_stem_target)
  then have "snapshot_ids files = map ident es"
    using recorded_files [OF recorded] by (simp add: snapshot_ids_def dkeys_def comp_def)
  moreover have "map_exc (\<lambda>i. ld i files) (map ident es) = Inr es"
    by (rule map_exc_Inr) (rule load_each [OF J ok recorded])
  ultimately show ?thesis using n by (simp add: list_snapshots_def Let_def)
qed

end

end
