(* ===== verification/Release_Gate.thy ===== *)
theory Release_Gate
  imports Bounded_Subprocess Snapshot_Store
begin

text \<open>
  The release gates (\<open>loop_engine/sandbox_release_gate.py\<close>, \<open>loop_engine/release_gate.py\<close>): the interpretation of
  the sandbox smoke test, and the composite gate that runs the tests, the wheel smoke test and the sandbox smoke
  test as bounded subprocesses, in this order, and derives one verdict. The gates run on the registry and the
  operating system of \<open>Bounded_Subprocess\<close>; reports are JSON files of the same directory, and replacing one is
  one step.
\<close>

section \<open>Commands\<close>

record release_command =
  rc_argv :: "string list"
  rc_timeout_seconds :: rat
  rc_max_output_bytes :: int

definition mk_release_command :: "string list \<Rightarrow> rat \<Rightarrow> int \<Rightarrow> py_exc + release_command" where
  "mk_release_command argv timeout_seconds max_output_bytes =
     (if argv = [] \<or> strip (hd argv) = [] then Inl (ValueError ''release gate command is required'')
      else if timeout_seconds \<le> 0 \<or> max_output_bytes \<le> 0 then Inl (ValueError ''release gate command bounds must be positive'')
      else Inr \<lparr>rc_argv = argv, rc_timeout_seconds = timeout_seconds, rc_max_output_bytes = max_output_bytes\<rparr>)"

text \<open>\<open>Path(s).resolve()\<close> from the working directory \<open>cwd\<close> of the process.\<close>

definition resolve_path :: "nat \<Rightarrow> file_tree \<Rightarrow> string list \<Rightarrow> string \<Rightarrow> py_exc + string list" where
  "resolve_path links t cwd s = (let p = py_path_of s in
     real_path links t [] (if fst p = [] then cwd @ snd p else snd p))"

definition workspace_and_report ::
  "nat \<Rightarrow> file_tree \<Rightarrow> string list \<Rightarrow> string \<Rightarrow> string \<Rightarrow> string \<Rightarrow> string \<Rightarrow> py_exc + string list \<times> string list" where
  "workspace_and_report links t cwd workspace report missing escapes =
     exc_bind (resolve_path links t cwd workspace) (\<lambda>base.
     if tree_at t base \<noteq> Some Dir_Entry then Inl (ValueError missing)
     else exc_bind (resolve_path links t base report) (\<lambda>target.
       if \<not> prefix base target then Inl (ValueError escapes) else Inr (base, target)))"

record release_policy =
  gp_workspace_root :: "string list"
  gp_pytest :: release_command
  gp_wheel_smoke :: release_command
  gp_sandbox :: release_command
  gp_report_path :: "string list"

definition mk_release_policy ::
  "nat \<Rightarrow> file_tree \<Rightarrow> string list \<Rightarrow> string \<Rightarrow> release_command \<Rightarrow> release_command \<Rightarrow> release_command \<Rightarrow> string
   \<Rightarrow> py_exc + release_policy"
where
  "mk_release_policy links t cwd workspace pytest wheel_smoke sandbox report =
     exc_bind (workspace_and_report links t cwd workspace report ''release gate workspace must exist''
       ''release gate report escapes workspace'') (\<lambda>(base, target).
       Inr \<lparr>gp_workspace_root = base, gp_pytest = pytest, gp_wheel_smoke = wheel_smoke, gp_sandbox = sandbox,
         gp_report_path = target\<rparr>)"

record sandbox_gate_policy =
  sp_workspace_root :: "string list"
  sp_command :: release_command
  sp_report_path :: "string list"

definition mk_sandbox_policy ::
  "nat \<Rightarrow> file_tree \<Rightarrow> string list \<Rightarrow> string \<Rightarrow> string list \<Rightarrow> string \<Rightarrow> rat \<Rightarrow> int \<Rightarrow> py_exc + sandbox_gate_policy"
where
  "mk_sandbox_policy links t cwd workspace command report timeout_seconds max_output_bytes =
     exc_bind (resolve_path links t cwd workspace) (\<lambda>base.
     if tree_at t base \<noteq> Some Dir_Entry then Inl (ValueError ''sandbox release gate workspace must exist'')
     else if command = [] \<or> strip (hd command) = [] then Inl (ValueError ''sandbox release gate command is required'')
     else exc_bind (resolve_path links t base report) (\<lambda>target.
       if \<not> prefix base target then Inl (ValueError ''sandbox release report escapes workspace'')
       else if timeout_seconds \<le> 0 \<or> max_output_bytes \<le> 0 then Inl (ValueError ''sandbox release gate bounds must be positive'')
       else Inr \<lparr>sp_workspace_root = base, sp_command = \<lparr>rc_argv = command, rc_timeout_seconds = timeout_seconds,
           rc_max_output_bytes = max_output_bytes\<rparr>, sp_report_path = target\<rparr>))"

section \<open>The sandbox smoke test\<close>

definition required_sandbox_checks :: "string list" where
  "required_sandbox_checks = [''completed'', ''backend'', ''data_write_blocked'', ''host_hidden'', ''network_blocked'',
     ''output_written'', ''read_only_data_unchanged'', ''output_materialized'']"

record sandbox_report =
  sb_status :: string
  sb_releasable :: bool
  sb_backend :: string
  sb_checks :: "(string \<times> bool) list"
  sb_exit_code :: pyval
  sb_timed_out :: bool
  sb_stdout_truncated :: bool
  sb_stderr_truncated :: bool
  sb_duration_seconds :: rat
  sb_error :: "string option"

text \<open>\<open>_failed\<close> on the fields that all reports share.\<close>

definition failed_sandbox :: "sandbox_report \<Rightarrow> string \<Rightarrow> (string \<times> bool) list \<Rightarrow> sandbox_report" where
  "failed_sandbox common error checks =
     common\<lparr>sb_status := ''failed'', sb_releasable := False, sb_checks := checks, sb_error := Some error\<rparr>"

definition sandbox_common :: "pydict \<Rightarrow> rat \<Rightarrow> sandbox_report" where
  "sandbox_common process duration = \<lparr>sb_status = [], sb_releasable = False, sb_backend = ''wsl_bubblewrap'', sb_checks = [],
     sb_exit_code = dget_or PNone process ''exit_code'', sb_timed_out = truthy (dget_or PNone process ''timed_out''),
     sb_stdout_truncated = truthy (dget_or PNone process ''stdout_truncated''),
     sb_stderr_truncated = truthy (dget_or PNone process ''stderr_truncated''), sb_duration_seconds = duration,
     sb_error = None\<rparr>"

text \<open>\<open>str(payload.get("error") or dflt)\<close>.\<close>

definition error_or :: "json_io \<Rightarrow> pydict \<Rightarrow> string \<Rightarrow> string" where
  "error_or IO payload dflt = (let v = dget_or PNone payload ''error'' in if truthy v then show_val IO v else dflt)"

definition normalized_checks :: "pydict \<Rightarrow> (string \<times> bool) list" where
  "normalized_checks payload = (case dget payload ''checks'' of
      Some (PDict checks) \<Rightarrow> map (\<lambda>name. (name, dget checks name = Some (PBool True))) required_sandbox_checks
    | _ \<Rightarrow> [])"

definition interpret_payload :: "json_io \<Rightarrow> sandbox_report \<Rightarrow> pydict \<Rightarrow> bool \<Rightarrow> sandbox_report" where
  "interpret_payload IO common payload degraded_ok =
     (if eq_num (sb_exit_code common) 2 \<and> dget payload ''status'' = Some (PStr ''blocked'') then
        let error = error_or IO payload ''sandbox_backend_unavailable'' in
        if error \<noteq> ''wsl_bubblewrap_unavailable''
          then failed_sandbox common (''sandbox_release_unexpected_block:'' @ error) []
        else common\<lparr>sb_status := (if degraded_ok then ''degraded'' else ''blocked''), sb_releasable := degraded_ok,
          sb_error := Some error\<rparr>
      else let checks = normalized_checks payload in
        if eq_num (sb_exit_code common) 0 \<and> dget payload ''status'' = Some (PStr ''completed'') \<and>
           length checks = length required_sandbox_checks \<and> list_all snd checks
          then common\<lparr>sb_status := ''passed'', sb_releasable := True, sb_checks := checks\<rparr>
        else failed_sandbox common (error_or IO payload ''sandbox_release_smoke_checks_failed'') checks)"

definition interpret_sandbox_process :: "json_io \<Rightarrow> pydict \<Rightarrow> bool \<Rightarrow> py_exc + sandbox_report" where
  "interpret_sandbox_process IO process degraded_ok =
     exc_bind (py_float (dget_or (pnum 0) process ''duration_seconds'')) (\<lambda>duration.
     let common = sandbox_common process duration in
     if sb_timed_out common then Inr (failed_sandbox common ''sandbox_release_smoke_timeout'' [])
     else if sb_stdout_truncated common \<or> sb_stderr_truncated common
       then Inr (failed_sandbox common ''sandbox_release_smoke_output_truncated'' [])
     else case json_loads IO (show_val IO (dget_or (PStr []) process ''stdout'')) of
         Inl e \<Rightarrow> Inr (failed_sandbox common (''sandbox_release_smoke_invalid_json:'' @ exc_msg e) [])
       | Inr (PDict payload) \<Rightarrow> Inr (interpret_payload IO common payload degraded_ok)
       | Inr _ \<Rightarrow> Inr (failed_sandbox common ''sandbox_release_smoke_non_object'' []))"

definition checks_dict :: "(string \<times> bool) list \<Rightarrow> pyval" where
  "checks_dict checks = PDict (map (\<lambda>(name, b). (name, PBool b)) checks)"

definition sandbox_report_dict :: "sandbox_report \<Rightarrow> pydict" where
  "sandbox_report_dict r = [(''schema_version'', PInt 1), (''status'', PStr (sb_status r)),
     (''releasable'', PBool (sb_releasable r)), (''backend'', PStr (sb_backend r)), (''checks'', checks_dict (sb_checks r)),
     (''smoke_exit_code'', sb_exit_code r), (''timed_out'', PBool (sb_timed_out r)),
     (''stdout_truncated'', PBool (sb_stdout_truncated r)), (''stderr_truncated'', PBool (sb_stderr_truncated r)),
     (''duration_seconds'', pnum (sb_duration_seconds r)), (''error'', popt_str (sb_error r))]"

section \<open>Launching a command\<close>

record 'w release_host =
  rh_os :: "'w process_os"
  rh_process :: "'w process_host"
  rh_links :: nat
  rh_tree :: "'w \<Rightarrow> file_tree"
  rh_time :: "'w \<Rightarrow> rat \<times> 'w"
  rh_io :: json_io

text \<open>\<open>LoopState(run_id=..., definition=LoopDefinition(goal=...))\<close>.\<close>

definition bare_state :: "string \<Rightarrow> string \<Rightarrow> loop_state" where
  "bare_state run_id goal = \<lparr>ls_run_id = run_id,
     ls_definition = \<lparr>ld_goal = goal, ld_success_criteria = [], ld_constraints = [], ld_budget = default_loop_budget,
       ld_metadata = []\<rparr>,
     ls_status = LS_READY, ls_phase = LP_READY, ls_iteration = 0, ls_action_count = 0, ls_started_at = None,
     ls_finished_at = None, ls_current_focus = [], ls_latest_plan = None, ls_next_action_index = 0,
     ls_iteration_results = [], ls_action_results = [], ls_latest_verification = None, ls_latest_judgement = None,
     ls_observation_signatures = [], ls_stop_reason = None, ls_events = []\<rparr>"

text \<open>\<open>BoundedSubprocessTool(root, SubprocessSpec(...))({}, state)\<close>.\<close>

definition call_bounded ::
  "'w release_host \<Rightarrow> string list \<Rightarrow> subprocess_spec \<Rightarrow> loop_state \<Rightarrow> 'w process_world
   \<Rightarrow> ((py_exc + pydict) \<times> 'w process_world) option"
where
  "call_bounded H base spec state s =
     (case exc_bind (mk_subprocess_spec spec) (mk_subprocess_tool (rh_links H) (rh_tree H (pw_world s)) base) of
        Inl e \<Rightarrow> Some (Inl e, s)
      | Inr B \<Rightarrow> subprocess_call (rh_os H) (rh_process H) B [] state s)"

definition stage_spec :: "release_command \<Rightarrow> subprocess_spec" where
  "stage_spec c = default_subprocess_spec\<lparr>ss_argv := rc_argv c, ss_timeout_seconds := rc_timeout_seconds c,
     ss_max_output_bytes := rc_max_output_bytes c\<rparr>"

definition write_json :: "json_io \<Rightarrow> string list \<Rightarrow> pydict \<Rightarrow> 'w process_world \<Rightarrow> 'w process_world" where
  "write_json IO path d s =
     s\<lparr>pw_files := dset (path_str (''/'', path)) (jc_dumps (ji_codec IO) (PDict d) @ [CHR 0x0A]) (pw_files s)\<rparr>"

text \<open>\<open>SandboxReleaseGate.run\<close>: every exception of the launch or the interpretation is a failed report.\<close>

definition sandbox_gate_run ::
  "'w release_host \<Rightarrow> sandbox_gate_policy \<Rightarrow> bool \<Rightarrow> 'w process_world \<Rightarrow> (sandbox_report \<times> 'w process_world) option" where
  "sandbox_gate_run H P degraded_ok s =
     (let (started, s1) = consult (po_perf_counter (rh_os H)) s in
      case call_bounded H (sp_workspace_root P) (stage_spec (sp_command P))
          (bare_state ''sandbox-release-gate'' ''Verify release sandbox backend'') s1 of
        None \<Rightarrow> None
      | Some (out, s2) \<Rightarrow>
          let (report, s3) = (case exc_bind out (\<lambda>process. interpret_sandbox_process (rh_io H) process degraded_ok) of
              Inr r \<Rightarrow> (r, s2)
            | Inl e \<Rightarrow> let (t, s3) = consult (po_perf_counter (rh_os H)) s2 in
                (failed_sandbox (sandbox_common [] (t - started)) (''sandbox_release_smoke_launch_error:'' @ show_exc_tight e) [], s3))
          in Some (report, write_json (rh_io H) (sp_report_path P) (sandbox_report_dict report) s3))"

section \<open>The composite gate\<close>

definition required_release_stages :: "string list" where
  "required_release_stages = [''pytest'', ''wheel_smoke'', ''sandbox'']"

record release_stage =
  re_name :: string
  re_status :: string
  re_releasable :: bool
  re_exit_code :: pyval
  re_timed_out :: bool
  re_stdout_truncated :: bool
  re_stderr_truncated :: bool
  re_duration_seconds :: rat
  re_error :: pyval
  re_details :: "pydict option"

record release_report =
  cg_status :: string
  cg_releasable :: bool
  cg_degraded :: bool
  cg_started_at :: rat
  cg_finished_at :: rat
  cg_stages :: "release_stage list"
  cg_error :: pyval

definition launch_failure :: "string \<Rightarrow> string \<Rightarrow> release_stage" where
  "launch_failure name error = \<lparr>re_name = name, re_status = ''failed'', re_releasable = False, re_exit_code = PNone,
     re_timed_out = False, re_stdout_truncated = False, re_stderr_truncated = False, re_duration_seconds = 0,
     re_error = PStr error, re_details = None\<rparr>"

definition interpret_command :: "json_io \<Rightarrow> string \<Rightarrow> pydict \<Rightarrow> py_exc + release_stage" where
  "interpret_command IO name process =
     (let timed_out = truthy (dget_or PNone process ''timed_out'');
          out = truthy (dget_or PNone process ''stdout_truncated'');
          err = truthy (dget_or PNone process ''stderr_truncated'');
          exit_code = dget_or PNone process ''exit_code'';
          error = (if timed_out then Some ''stage_timeout''
            else if out \<or> err then Some ''stage_output_truncated''
            else if \<not> eq_num exit_code 0 then Some (''stage_exit_code:'' @ show_val IO exit_code) else None)
      in exc_bind (py_float (dget_or (pnum 0) process ''duration_seconds'')) (\<lambda>duration.
        Inr \<lparr>re_name = name, re_status = (if error = None then ''passed'' else ''failed''), re_releasable = (error = None),
          re_exit_code = exit_code, re_timed_out = timed_out, re_stdout_truncated = out, re_stderr_truncated = err,
          re_duration_seconds = duration, re_error = popt_str error, re_details = None\<rparr>))"

definition sandbox_stage :: "sandbox_report \<Rightarrow> release_stage" where
  "sandbox_stage r = \<lparr>re_name = ''sandbox'', re_status = sb_status r, re_releasable = sb_releasable r,
     re_exit_code = sb_exit_code r, re_timed_out = sb_timed_out r, re_stdout_truncated = sb_stdout_truncated r,
     re_stderr_truncated = sb_stderr_truncated r, re_duration_seconds = sb_duration_seconds r,
     re_error = popt_str (sb_error r),
     re_details = Some [(''backend'', PStr (sb_backend r)), (''checks'', checks_dict (sb_checks r))]\<rparr>"

text \<open>The two ways to read what a launch brought; a launch that raised is a failed stage.\<close>

definition stage_of :: "json_io \<Rightarrow> string \<Rightarrow> (pydict \<Rightarrow> py_exc + release_stage) \<Rightarrow> py_exc + pydict \<Rightarrow> py_exc + release_stage" where
  "stage_of IO name interpret out = (case out of
      Inl e \<Rightarrow> Inr (launch_failure name (''release_stage_launch_error:'' @ show_exc_tight e))
    | Inr process \<Rightarrow> interpret process)"

definition launch ::
  "'w release_host \<Rightarrow> release_policy \<Rightarrow> string \<Rightarrow> release_command \<Rightarrow> 'w process_world
   \<Rightarrow> ((py_exc + pydict) \<times> 'w process_world) option"
where
  "launch H P name command s = call_bounded H (gp_workspace_root P) (stage_spec command)
     (bare_state (''release-gate-'' @ name) (''Run release stage '' @ name)) s"

definition run_command ::
  "'w release_host \<Rightarrow> release_policy \<Rightarrow> string \<Rightarrow> release_command \<Rightarrow> 'w process_world
   \<Rightarrow> ((py_exc + release_stage) \<times> 'w process_world) option"
where
  "run_command H P name command s = map_option (map_prod (stage_of (rh_io H) name (interpret_command (rh_io H) name)) id)
     (launch H P name command s)"

definition run_sandbox ::
  "'w release_host \<Rightarrow> release_policy \<Rightarrow> release_command \<Rightarrow> bool \<Rightarrow> 'w process_world
   \<Rightarrow> ((py_exc + release_stage) \<times> 'w process_world) option"
where
  "run_sandbox H P command degraded_ok s = map_option (map_prod (stage_of (rh_io H) ''sandbox'' (\<lambda>process.
       exc_bind (interpret_sandbox_process (rh_io H) process degraded_ok) (\<lambda>r. Inr (sandbox_stage r)))) id)
     (launch H P ''sandbox'' command s)"

text \<open>The next stage runs when the one before returned; an exception ends the run.\<close>

definition and_then ::
  "((py_exc + 'a) \<times> 'w) option \<Rightarrow> ('a \<Rightarrow> 'w \<Rightarrow> ((py_exc + 'b) \<times> 'w) option) \<Rightarrow> ((py_exc + 'b) \<times> 'w) option" where
  "and_then x f = (case x of None \<Rightarrow> None | Some (Inl e, w) \<Rightarrow> Some (Inl e, w) | Some (Inr v, w) \<Rightarrow> f v w)"

definition release_verdict :: "release_stage list \<Rightarrow> rat \<Rightarrow> rat \<Rightarrow> release_report" where
  "release_verdict stages started finished =
     (let degraded = list_ex (\<lambda>stage. re_status stage = ''degraded'') stages; releasable = list_all re_releasable stages in
      \<lparr>cg_status = (if releasable \<and> degraded then ''degraded'' else if releasable then ''passed'' else ''failed''),
       cg_releasable = releasable, cg_degraded = degraded, cg_started_at = started, cg_finished_at = finished,
       cg_stages = stages,
       cg_error = (if releasable then PNone
         else PStr (''release_stages_failed:'' @ str_join '','' (map re_name (filter (\<lambda>stage. \<not> re_releasable stage) stages))))\<rparr>)"

definition release_stage_dict :: "release_stage \<Rightarrow> pydict" where
  "release_stage_dict r = [(''name'', PStr (re_name r)), (''status'', PStr (re_status r)), (''releasable'', PBool (re_releasable r)),
     (''exit_code'', re_exit_code r), (''timed_out'', PBool (re_timed_out r)),
     (''stdout_truncated'', PBool (re_stdout_truncated r)), (''stderr_truncated'', PBool (re_stderr_truncated r)),
     (''duration_seconds'', pnum (re_duration_seconds r)), (''error'', re_error r),
     (''details'', case re_details r of None \<Rightarrow> PNone | Some d \<Rightarrow> PDict d)]"

definition release_report_dict :: "release_report \<Rightarrow> pydict" where
  "release_report_dict r = [(''schema_version'', PInt 1), (''status'', PStr (cg_status r)),
     (''releasable'', PBool (cg_releasable r)), (''degraded'', PBool (cg_degraded r)), (''started_at'', pnum (cg_started_at r)),
     (''finished_at'', pnum (cg_finished_at r)), (''stages'', PList (map (\<lambda>x. PDict (release_stage_dict x)) (cg_stages r))),
     (''error'', cg_error r)]"

definition release_gate_run ::
  "'w release_host \<Rightarrow> release_policy \<Rightarrow> bool \<Rightarrow> 'w process_world \<Rightarrow> ((py_exc + release_report) \<times> 'w process_world) option" where
  "release_gate_run H P degraded_ok s =
     (let (started, s) = consult (rh_time H) s in
      and_then (run_command H P ''pytest'' (gp_pytest P) s) (\<lambda>pytest s.
      and_then (run_command H P ''wheel_smoke'' (gp_wheel_smoke P) s) (\<lambda>wheel_smoke s.
      and_then (run_sandbox H P (gp_sandbox P) degraded_ok s) (\<lambda>sandbox s.
        let (finished, s) = consult (rh_time H) s;
            report = release_verdict [pytest, wheel_smoke, sandbox] started finished
        in Some (Inr report, write_json (rh_io H) (gp_report_path P) (release_report_dict report) s)))))"

section \<open>Reading reports\<close>

text \<open>\<open>from_dict\<close>; \<open>str\<close>, \<open>bool\<close> and \<open>float\<close> are applied to fields of the type they give.\<close>

definition as_bool :: "pyval \<Rightarrow> bool option" where
  "as_bool v = Some (truthy v)"

definition as_opt_dict_val :: "pyval \<Rightarrow> pydict option option" where
  "as_opt_dict_val v = (case v of PNone \<Rightarrow> Some None | PDict d \<Rightarrow> Some (Some d) | _ \<Rightarrow> None)"

definition release_stage_from :: "pydict \<Rightarrow> py_exc + release_stage" where
  "release_stage_from d =
     exc_bind (field_exc d ''name'' as_str) (\<lambda>name.
     exc_bind (field_exc d ''status'' as_str) (\<lambda>status.
     exc_bind (field_exc d ''releasable'' as_bool) (\<lambda>releasable.
     exc_bind (field_exc d ''timed_out'' as_bool) (\<lambda>timed_out.
     exc_bind (field_exc d ''stdout_truncated'' as_bool) (\<lambda>out.
     exc_bind (field_exc d ''stderr_truncated'' as_bool) (\<lambda>err.
     exc_bind (field_exc d ''duration_seconds'' num_value) (\<lambda>duration.
     case as_opt_dict_val (dget_or PNone d ''details'') of
       None \<Rightarrow> Inl (malformed ''details'')
     | Some details \<Rightarrow> Inr \<lparr>re_name = name, re_status = status, re_releasable = releasable,
         re_exit_code = dget_or PNone d ''exit_code'', re_timed_out = timed_out, re_stdout_truncated = out,
         re_stderr_truncated = err, re_duration_seconds = duration, re_error = dget_or PNone d ''error'',
         re_details = details\<rparr>)))))))"

definition release_report_from :: "pydict \<Rightarrow> py_exc + release_report" where
  "release_report_from d =
     exc_bind (field_exc d ''schema_version'' Some) (\<lambda>v. exc_bind (py_int v) (\<lambda>version.
     if version \<noteq> 1 then Inl (ValueError (''unsupported release gate schema version: '' @ str_of_int version))
     else case as_list (dget_or (PList []) d ''stages'') of
       None \<Rightarrow> Inl (malformed ''stages'')
     | Some rows \<Rightarrow> exc_bind (map_exc (\<lambda>row. case as_dict row of
           None \<Rightarrow> Inl (malformed ''stage'') | Some x \<Rightarrow> release_stage_from x) rows) (\<lambda>stages.
         if map re_name stages \<noteq> required_release_stages
           then Inl (ValueError ''release gate report stages do not match contract'')
         else
         exc_bind (field_exc d ''status'' as_str) (\<lambda>status.
         exc_bind (field_exc d ''releasable'' as_bool) (\<lambda>releasable.
         exc_bind (field_exc d ''degraded'' as_bool) (\<lambda>degraded.
         exc_bind (field_exc d ''started_at'' num_value) (\<lambda>started.
         exc_bind (field_exc d ''finished_at'' num_value) (\<lambda>finished.
           Inr \<lparr>cg_status = status, cg_releasable = releasable, cg_degraded = degraded, cg_started_at = started,
             cg_finished_at = finished, cg_stages = stages, cg_error = dget_or PNone d ''error''\<rparr>))))))))"

lemma release_stage_round_trip: "release_stage_from (release_stage_dict r) = Inr r"
  by (cases "re_details r") (simp_all add: release_stage_from_def release_stage_dict_def field_exc_def as_bool_def dget_or_def
    as_opt_dict_val_def)

lemma release_report_round_trip:
  assumes "map re_name (cg_stages r) = required_release_stages"
  shows "release_report_from (release_report_dict r) = Inr r"
proof -
  have rows: "map_exc (\<lambda>row. case as_dict row of None \<Rightarrow> Inl (malformed ''stage'') | Some x \<Rightarrow> release_stage_from x)
      (map (\<lambda>x. PDict (release_stage_dict x)) (cg_stages r)) = Inr (cg_stages r)"
    by (rule map_exc_Inr) (simp add: release_stage_round_trip)
  then show ?thesis
    using assms by (simp add: release_report_from_def release_report_dict_def field_exc_def as_bool_def dget_or_def)
qed

section \<open>What the verdict means\<close>

text \<open>A process that ended with exit code zero, in time, with its output read completely.\<close>

definition clean_exit :: "pydict \<Rightarrow> bool" where
  "clean_exit d \<longleftrightarrow> eq_num (dget_or PNone d ''exit_code'') 0 \<and> \<not> truthy (dget_or PNone d ''timed_out'') \<and>
     \<not> truthy (dget_or PNone d ''stdout_truncated'') \<and> \<not> truthy (dget_or PNone d ''stderr_truncated'')"

text \<open>What the sandbox smoke test has to say: every required check, or that the backend is not there.\<close>

definition all_checks_hold :: "pydict \<Rightarrow> bool" where
  "all_checks_hold payload \<longleftrightarrow> dget payload ''status'' = Some (PStr ''completed'') \<and>
     (\<exists>checks. dget payload ''checks'' = Some (PDict checks) \<and>
       (\<forall>name\<in>set required_sandbox_checks. dget checks name = Some (PBool True)))"

definition backend_missing :: "json_io \<Rightarrow> pydict \<Rightarrow> bool" where
  "backend_missing IO payload \<longleftrightarrow> dget payload ''status'' = Some (PStr ''blocked'') \<and>
     error_or IO payload ''sandbox_backend_unavailable'' = ''wsl_bubblewrap_unavailable''"

definition said :: "json_io \<Rightarrow> pydict \<Rightarrow> (pydict \<Rightarrow> bool) \<Rightarrow> bool" where
  "said IO d Q \<longleftrightarrow> \<not> truthy (dget_or PNone d ''timed_out'') \<and> \<not> truthy (dget_or PNone d ''stdout_truncated'') \<and>
     \<not> truthy (dget_or PNone d ''stderr_truncated'') \<and>
     (\<exists>payload. json_loads IO (show_val IO (dget_or (PStr []) d ''stdout'')) = Inr (PDict payload) \<and> Q payload)"

lemma interpret_command_Inr:
  "interpret_command IO name d = Inr r \<Longrightarrow> re_name r = name \<and> (re_releasable r \<longleftrightarrow> clean_exit d) \<and>
   re_status r = (if clean_exit d then ''passed'' else ''failed'')"
  by (auto simp: interpret_command_def clean_exit_def exc_bind_Inr Let_def split: if_splits)

lemma normalized_checks_hold:
  "length (normalized_checks payload) = length required_sandbox_checks \<and> list_all snd (normalized_checks payload) \<longleftrightarrow>
   (\<exists>checks. dget payload ''checks'' = Some (PDict checks) \<and>
     (\<forall>name\<in>set required_sandbox_checks. dget checks name = Some (PBool True)))"
proof (cases "\<exists>checks. dget payload ''checks'' = Some (PDict checks)")
  case True
  then obtain checks where c: "dget payload ''checks'' = Some (PDict checks)" by blast
  have "list_all snd (map (\<lambda>name. (name, dget checks name = Some (PBool True))) names) \<longleftrightarrow>
      (\<forall>name\<in>set names. dget checks name = Some (PBool True))" for names
    by (induction names) simp_all
  with c show ?thesis by (simp add: normalized_checks_def)
next
  case False
  then have "normalized_checks payload = []" by (auto simp: normalized_checks_def split: option.split pyval.split)
  with False show ?thesis by (auto simp: required_sandbox_checks_def)
qed

lemma eq_num_unique: "eq_num v i \<Longrightarrow> eq_num v j \<Longrightarrow> i = j"
  by (simp add: eq_num_def)

lemma interpret_payload_status:
  "sb_status (interpret_payload IO common payload degraded_ok) =
     (if eq_num (sb_exit_code common) 0 \<and> all_checks_hold payload then ''passed''
      else if eq_num (sb_exit_code common) 2 \<and> backend_missing IO payload then (if degraded_ok then ''degraded'' else ''blocked'')
      else ''failed'') \<and>
   (sb_releasable (interpret_payload IO common payload degraded_ok) \<longleftrightarrow>
      sb_status (interpret_payload IO common payload degraded_ok) \<in> {''passed'', ''degraded''})"
proof -
  have all: "all_checks_hold payload \<longleftrightarrow> dget payload ''status'' = Some (PStr ''completed'') \<and>
      length (normalized_checks payload) = length required_sandbox_checks \<and> list_all snd (normalized_checks payload)"
    unfolding all_checks_hold_def normalized_checks_hold ..
  show ?thesis
    using eq_num_unique [of "sb_exit_code common" 0 2]
    by (simp add: interpret_payload_def all backend_missing_def failed_sandbox_def Let_def)
qed

lemma interpret_sandbox_Inr:
  assumes "interpret_sandbox_process IO d degraded_ok = Inr r"
  shows "sb_status r = (if eq_num (dget_or PNone d ''exit_code'') 0 \<and> said IO d all_checks_hold then ''passed''
      else if eq_num (dget_or PNone d ''exit_code'') 2 \<and> said IO d (backend_missing IO)
        then (if degraded_ok then ''degraded'' else ''blocked'') else ''failed'') \<and>
    (sb_releasable r \<longleftrightarrow> sb_status r \<in> {''passed'', ''degraded''})"
proof -
  from assms obtain duration where d: "py_float (dget_or (pnum 0) d ''duration_seconds'') = Inr duration"
    by (auto simp: interpret_sandbox_process_def exc_bind_Inr)
  let ?c = "sandbox_common d duration"
  show ?thesis
  proof (cases "truthy (dget_or PNone d ''timed_out'') \<or> truthy (dget_or PNone d ''stdout_truncated'') \<or>
      truthy (dget_or PNone d ''stderr_truncated'')")
    case True
    then have "sb_status r = ''failed'' \<and> \<not> sb_releasable r" using assms d
      by (auto simp: interpret_sandbox_process_def sandbox_common_def failed_sandbox_def Let_def split: if_splits)
    with True show ?thesis by (auto simp: said_def)
  next
    case False
    let ?v = "json_loads IO (show_val IO (dget_or (PStr []) d ''stdout''))"
    show ?thesis
    proof (cases "\<exists>payload. ?v = Inr (PDict payload)")
      case True
      then obtain payload where v: "?v = Inr (PDict payload)" by blast
      have "r = interpret_payload IO ?c payload degraded_ok" and c: "sb_exit_code ?c = dget_or PNone d ''exit_code''"
        using assms d False v by (simp_all add: interpret_sandbox_process_def sandbox_common_def Let_def)
      then show ?thesis using interpret_payload_status [of IO ?c payload degraded_ok] False v by (simp add: said_def)
    next
      case no: False
      have "sb_status r = ''failed'' \<and> \<not> sb_releasable r"
      proof (cases ?v)
        case (Inl e)
        then show ?thesis using assms d False
          by (auto simp: interpret_sandbox_process_def sandbox_common_def failed_sandbox_def Let_def)
      next
        case (Inr v)
        with no show ?thesis using assms d False
          by (cases v) (auto simp: interpret_sandbox_process_def sandbox_common_def failed_sandbox_def Let_def)
      qed
      with no show ?thesis by (simp add: said_def)
    qed
  qed
qed

end
