(* ===== verification/Release_History.thy ===== *)
theory Release_History
  imports Release_Gate
begin

text \<open>
  The history of releases and its trend analysis (\<open>loop_engine/release_history.py\<close>): gate reports are recorded as
  immutable snapshots, and the newest one is compared with the one before it (status) and with the median of a
  window (duration). The store is an instance of the locale \<open>snapshots\<close>. The end of \<open>tools/release_gate.py\<close> and of
  \<open>tools/release_trends.py\<close> put gate, store and analysis together.
\<close>

section \<open>The store\<close>

record release_entry =
  he_release_id :: string
  he_recorded_at :: rat
  he_report :: release_report

text \<open>\<open>__init__\<close>: the directory of the history, inside the workspace when one is given.\<close>

definition history_root ::
  "string \<Rightarrow> nat \<Rightarrow> file_tree \<Rightarrow> string list \<Rightarrow> string \<Rightarrow> string option \<Rightarrow> py_exc + string list" where
  "history_root label links t cwd dir workspace =
     exc_bind (resolve_path links t cwd dir) (\<lambda>p. case workspace of
       None \<Rightarrow> Inr p
     | Some s \<Rightarrow> exc_bind (resolve_path links t cwd s) (\<lambda>base.
         if \<not> prefix base p then Inl (ValueError (label @ '' history root escapes workspace'')) else Inr p))"

definition release_entry_dict :: "release_entry \<Rightarrow> pydict" where
  "release_entry_dict e = [(''release_id'', PStr (he_release_id e)), (''recorded_at'', pnum (he_recorded_at e)),
     (''report'', PDict (release_report_dict (he_report e)))]"

definition release_entry_from :: "string \<Rightarrow> pydict \<Rightarrow> py_exc + release_entry" where
  "release_entry_from release raw = (if dget_or PNone raw ''release_id'' \<noteq> PStr release
      then Inl (ValueError ''release history identity does not match its path'')
      else exc_bind (field_exc raw ''recorded_at'' num_value) (\<lambda>recorded_at.
        exc_bind (field_exc raw ''report'' as_dict) (\<lambda>d.
        exc_bind (release_report_from d) (\<lambda>report.
          Inr \<lparr>he_release_id = release, he_recorded_at = recorded_at, he_report = report\<rparr>))))"

definition save_entry :: "json_io \<Rightarrow> release_entry \<Rightarrow> directory \<Rightarrow> py_exc + directory" where
  "save_entry IO e = record_snapshot IO ''release history'' (he_release_id e) (release_entry_dict e)"

text \<open>\<open>release_id or uuid4().hex\<close> is the caller's.\<close>

definition record_release ::
  "json_io \<Rightarrow> release_report \<Rightarrow> string \<Rightarrow> directory \<Rightarrow> py_exc + release_entry \<times> directory" where
  "record_release IO report i files = exc_bind (snapshot_identifier ''release_id'' i) (\<lambda>i.
     let e = \<lparr>he_release_id = i, he_recorded_at = cg_finished_at report, he_report = report\<rparr> in
     exc_bind (save_entry IO e files) (\<lambda>files'. Inr (e, files')))"

definition load_release :: "json_io \<Rightarrow> string \<Rightarrow> directory \<Rightarrow> py_exc + release_entry" where
  "load_release IO = load_snapshot IO ''release_id'' ''release history'' release_entry_from"

definition entry_key :: "release_entry \<Rightarrow> rat \<times> string" where
  "entry_key e = (he_recorded_at e, he_release_id e)"

definition list_releases :: "json_io \<Rightarrow> pyval \<Rightarrow> directory \<Rightarrow> py_exc + release_entry list" where
  "list_releases IO = list_snapshots ''release history'' (load_release IO) entry_key"

definition entry_complete :: "release_entry \<Rightarrow> bool" where
  "entry_complete e \<longleftrightarrow> is_identifier (he_release_id e) \<and> map re_name (cg_stages (he_report e)) = required_release_stages"

interpretation releases: snapshots IO "''release_id''" "''release history''" release_entry_dict release_entry_from
  he_release_id he_recorded_at entry_complete for IO
  by unfold_locales (simp_all add: entry_complete_def release_entry_from_def release_entry_dict_def dget_or_def field_exc_def
    release_report_round_trip)

section \<open>Trends\<close>

record regression_policy =
  tp_history_window :: nat
  tp_duration_ratio :: rat
  tp_duration_absolute_seconds :: rat

definition mk_regression_policy :: "pyval \<Rightarrow> rat \<Rightarrow> rat \<Rightarrow> py_exc + regression_policy" where
  "mk_regression_policy window ratio absolute =
     (let refused = Inl (ValueError ''release history window must be between 1 and 99'') in
      case plain_int window of
        None \<Rightarrow> refused
      | Some n \<Rightarrow>
          if n \<le> 0 \<or> n > 99 then refused
          else if ratio \<le> 1 then Inl (ValueError ''release duration ratio must be greater than 1'')
          else if absolute < 0 then Inl (ValueError ''release duration absolute threshold must not be negative'')
          else Inr \<lparr>tp_history_window = nat n, tp_duration_ratio = ratio, tp_duration_absolute_seconds = absolute\<rparr>)"

record stage_trend =
  tr_name :: string
  tr_current_seconds :: rat
  tr_baseline_median_seconds :: rat
  tr_delta_seconds :: rat
  tr_ratio :: "rat option"
  tr_regressed :: bool

record trend_report =
  tn_status :: string
  tn_current_release_id :: string
  tn_baseline_release_ids :: "string list"
  tn_current_gate_status :: string
  tn_previous_gate_status :: "string option"
  tn_regressions :: "string list"
  tn_stage_trends :: "stage_trend list"

definition status_rank :: "string \<Rightarrow> py_exc + nat" where
  "status_rank status = (if status = ''failed'' then Inr 0 else if status = ''degraded'' then Inr 1
     else if status = ''passed'' then Inr 2 else Inl (ValueError (''unsupported release status: '' @ status)))"

text \<open>\<open>{stage.name: stage for stage in report.stages}\<close>.\<close>

definition stages_by_name :: "release_report \<Rightarrow> (string \<times> release_stage) list" where
  "stages_by_name r = fold (\<lambda>x. dset (re_name x) x) (cg_stages r) []"

text \<open>\<open>next(stage for stage in report.stages if stage.name == name).duration_seconds\<close>.\<close>

definition sample_of :: "string \<Rightarrow> release_entry \<Rightarrow> py_exc + rat" where
  "sample_of name e = (case find (\<lambda>x. re_name x = name) (cg_stages (he_report e)) of
      None \<Rightarrow> Inl (PyExc ''StopIteration'' []) | Some x \<Rightarrow> Inr (re_duration_seconds x))"

definition duration_trend :: "regression_policy \<Rightarrow> release_stage \<Rightarrow> string \<Rightarrow> rat list \<Rightarrow> stage_trend" where
  "duration_trend P current name samples =
     (let seconds = re_duration_seconds current; m = median_rat samples; delta = seconds - m;
          ratio = (if m > 0 then Some (seconds / m) else None)
      in \<lparr>tr_name = name, tr_current_seconds = seconds, tr_baseline_median_seconds = m, tr_delta_seconds = delta,
        tr_ratio = ratio, tr_regressed = (delta \<ge> tp_duration_absolute_seconds P \<and>
          (case ratio of None \<Rightarrow> False | Some q \<Rightarrow> q \<ge> tp_duration_ratio P))\<rparr>)"

definition stage_status_regression :: "string \<Rightarrow> release_stage \<Rightarrow> release_stage \<Rightarrow> py_exc + string list" where
  "stage_status_regression name current previous =
     exc_bind (status_rank (re_status current)) (\<lambda>c. exc_bind (status_rank (re_status previous)) (\<lambda>p.
       Inr (if c < p then [''stage_status:'' @ name @ '':'' @ re_status previous @ ''->'' @ re_status current] else [])))"

definition analyze_stage ::
  "regression_policy \<Rightarrow> release_entry list \<Rightarrow> (string \<times> release_stage) list \<Rightarrow> string \<times> release_stage
   \<Rightarrow> py_exc + string list \<times> stage_trend"
where
  "analyze_stage P baseline previous_stages named = (let (name, current) = named in
     case dget previous_stages name of
       None \<Rightarrow> Inl (PyExc ''KeyError'' (repr_str name))
     | Some previous \<Rightarrow> exc_bind (stage_status_regression name current previous) (\<lambda>regressions.
         exc_bind (map_exc (sample_of name) baseline) (\<lambda>samples.
         let trend = duration_trend P current name samples in
         Inr (regressions @ (if tr_regressed trend then [''stage_duration:'' @ name] else []), trend))))"

definition insufficient_history :: "release_entry \<Rightarrow> trend_report" where
  "insufficient_history current = \<lparr>tn_status = ''insufficient_history'', tn_current_release_id = he_release_id current,
     tn_baseline_release_ids = [], tn_current_gate_status = cg_status (he_report current), tn_previous_gate_status = None,
     tn_regressions = [], tn_stage_trends = []\<rparr>"

definition compare_releases :: "regression_policy \<Rightarrow> release_entry \<Rightarrow> release_entry list \<Rightarrow> py_exc + trend_report" where
  "compare_releases P current baseline =
     (let previous = hd baseline; now_status = cg_status (he_report current); old_status = cg_status (he_report previous) in
      exc_bind (status_rank now_status) (\<lambda>current_rank.
      exc_bind (status_rank old_status) (\<lambda>previous_rank.
      exc_bind (map_exc (analyze_stage P baseline (stages_by_name (he_report previous)))
        (stages_by_name (he_report current))) (\<lambda>rows.
      let regressions = (if current_rank < previous_rank then [''gate_status:'' @ old_status @ ''->'' @ now_status] else []) @
            concat (map fst rows)
      in Inr \<lparr>tn_status = (if regressions \<noteq> [] then ''regressed'' else if current_rank > previous_rank then ''improved'' else ''stable''),
          tn_current_release_id = he_release_id current, tn_baseline_release_ids = map he_release_id baseline,
          tn_current_gate_status = now_status, tn_previous_gate_status = Some old_status,
          tn_regressions = regressions, tn_stage_trends = map snd rows\<rparr>))))"

definition analyze_releases :: "regression_policy \<Rightarrow> release_entry list \<Rightarrow> py_exc + trend_report" where
  "analyze_releases P entries = (case sort_down entry_key entries of
      [] \<Rightarrow> Inl (ValueError ''release history analysis requires at least one entry'')
    | current # older \<Rightarrow> let baseline = take (tp_history_window P) older in
        if baseline = [] then Inr (insufficient_history current) else compare_releases P current baseline)"

definition trend_dict :: "trend_report \<Rightarrow> pydict" where
  "trend_dict r = [(''schema_version'', PInt 1), (''status'', PStr (tn_status r)),
     (''current_release_id'', PStr (tn_current_release_id r)), (''baseline_release_ids'', pstrs (tn_baseline_release_ids r)),
     (''current_gate_status'', PStr (tn_current_gate_status r)), (''previous_gate_status'', popt_str (tn_previous_gate_status r)),
     (''regressions'', pstrs (tn_regressions r)),
     (''stage_trends'', PList (map (\<lambda>x. PDict [(''name'', PStr (tr_name x)), (''current_seconds'', pnum (tr_current_seconds x)),
        (''baseline_median_seconds'', pnum (tr_baseline_median_seconds x)), (''delta_seconds'', pnum (tr_delta_seconds x)),
        (''ratio'', popt_num (tr_ratio x)), (''regressed'', PBool (tr_regressed x))]) (tn_stage_trends r)))]"

definition write_trend :: "json_io \<Rightarrow> string \<Rightarrow> trend_report \<Rightarrow> directory \<Rightarrow> directory" where
  "write_trend IO target r files = dset target (jc_dumps (ji_codec IO) (PDict (trend_dict r)) @ [CHR 0x0A]) files"

text \<open>The body of \<open>tools/release_trends.py\<close>, after the arguments are parsed, on the directory of the history:
  the exit code and what is written.\<close>

definition release_trends :: "json_io \<Rightarrow> regression_policy \<Rightarrow> (release_report \<times> string) option \<Rightarrow> string \<Rightarrow> directory
   \<Rightarrow> (py_exc + int) \<times> directory"
where
  "release_trends IO P recorded target files =
     (case (case recorded of None \<Rightarrow> Inr files | Some (report, i) \<Rightarrow> exc_bind (record_release IO report i files) (\<lambda>r. Inr (snd r))) of
        Inl e \<Rightarrow> (Inl e, files)
      | Inr files1 \<Rightarrow>
          (case exc_bind (list_releases IO (PInt (int (tp_history_window P) + 1)) files1) (analyze_releases P) of
            Inl e \<Rightarrow> (Inl e, files1)
          | Inr trend \<Rightarrow> (Inr (if tn_status trend = ''regressed'' then 1 else 0), write_trend IO target trend files1)))"

section \<open>What a trend reports\<close>

text \<open>An entry whose statuses all have a rank.\<close>

definition ranked :: "string \<Rightarrow> nat" where
  "ranked status = (if status = ''passed'' then 2 else if status = ''degraded'' then 1 else 0)"

definition known_status :: "string \<Rightarrow> bool" where
  "known_status status \<longleftrightarrow> status \<in> {''failed'', ''degraded'', ''passed''}"

definition entry_ranked :: "release_entry \<Rightarrow> bool" where
  "entry_ranked e \<longleftrightarrow> entry_complete e \<and> known_status (cg_status (he_report e)) \<and>
     list_all (\<lambda>x. known_status (re_status x)) (cg_stages (he_report e))"

text \<open>The stage \<open>i\<close> of an entry, in the order of the gate.\<close>

abbreviation stage_at :: "release_entry \<Rightarrow> nat \<Rightarrow> release_stage" where
  "stage_at e i \<equiv> cg_stages (he_report e) ! i"

definition slower :: "regression_policy \<Rightarrow> release_entry \<Rightarrow> release_entry list \<Rightarrow> nat \<Rightarrow> bool" where
  "slower P current baseline i = (let m = median_rat (map (\<lambda>e. re_duration_seconds (stage_at e i)) baseline) in
     m > 0 \<and> re_duration_seconds (stage_at current i) \<ge> m + tp_duration_absolute_seconds P \<and>
     re_duration_seconds (stage_at current i) \<ge> tp_duration_ratio P * m)"

definition stage_worse :: "release_entry \<Rightarrow> release_entry \<Rightarrow> nat \<Rightarrow> bool" where
  "stage_worse current previous i \<longleftrightarrow> ranked (re_status (stage_at current i)) < ranked (re_status (stage_at previous i))"

lemma status_rank_known: "known_status s \<Longrightarrow> status_rank s = Inr (ranked s)"
  by (auto simp: known_status_def status_rank_def ranked_def)

lemma status_rank_unknown: "\<not> known_status s \<Longrightarrow> status_rank s = Inl (ValueError (''unsupported release status: '' @ s))"
  by (auto simp: known_status_def status_rank_def)

lemma three_stages:
  assumes "map re_name (cg_stages r) = required_release_stages"
  obtains a b c where "cg_stages r = [a, b, c]" "re_name a = ''pytest''" "re_name b = ''wheel_smoke''" "re_name c = ''sandbox''"
proof -
  from assms have "length (cg_stages r) = Suc (Suc (Suc 0))"
    by (metis length_map list.size(3,4) required_release_stages_def One_nat_def add.right_neutral add_Suc_right)
  then obtain a b c where "cg_stages r = [a, b, c]" by (auto simp: length_Suc_conv)
  with assms that show thesis by (simp add: required_release_stages_def)
qed

lemma stages_by_name_complete:
  "map re_name (cg_stages r) = required_release_stages \<Longrightarrow>
   stages_by_name r = map (\<lambda>i. (required_release_stages ! i, cg_stages r ! i)) [0, 1, 2]"
  by (erule three_stages) (simp add: stages_by_name_def dset_def required_release_stages_def)

lemma sample_of_complete:
  assumes "entry_complete e" "i \<in> {0, 1, 2}"
  shows "sample_of (required_release_stages ! i) e = Inr (re_duration_seconds (stage_at e i))"
proof -
  from assms(1) have "map re_name (cg_stages (he_report e)) = required_release_stages" by (simp add: entry_complete_def)
  then show ?thesis using assms(2)
    by (elim three_stages) (auto simp: sample_of_def required_release_stages_def)
qed

lemma duration_trend_slower:
  "tr_regressed (duration_trend P (stage_at current i) name (map (\<lambda>e. re_duration_seconds (stage_at e i)) baseline)) \<longleftrightarrow>
   slower P current baseline i"
  by (auto simp: duration_trend_def slower_def Let_def field_simps)

lemma entry_ranked_stage: "entry_ranked e \<Longrightarrow> i \<in> {0, 1, 2} \<Longrightarrow> known_status (re_status (stage_at e i))"
  by (auto simp: entry_ranked_def entry_complete_def elim!: three_stages)

lemma previous_stage:
  "entry_complete e \<Longrightarrow> i \<in> {0, 1, 2} \<Longrightarrow>
   dget (stages_by_name (he_report e)) (required_release_stages ! i) = Some (stage_at e i)"
  by (auto simp: entry_complete_def stages_by_name_complete required_release_stages_def)

lemma analyze_stage_complete:
  assumes "entry_ranked previous" "\<forall>e\<in>set baseline. entry_complete e" "i \<in> {0, 1, 2}"
    "known_status (re_status (stage_at current i))"
  shows "\<exists>row. analyze_stage P baseline (stages_by_name (he_report previous)) (required_release_stages ! i, stage_at current i) =
    Inr row \<and> (fst row \<noteq> [] \<longleftrightarrow> stage_worse current previous i \<or> slower P current baseline i)"
proof -
  have "dget (stages_by_name (he_report previous)) (required_release_stages ! i) = Some (stage_at previous i)"
    using assms(1,3) previous_stage by (simp add: entry_ranked_def)
  moreover have "known_status (re_status (stage_at previous i))" using assms(1,3) by (rule entry_ranked_stage)
  moreover have "map_exc (sample_of (required_release_stages ! i)) baseline =
      Inr (map (\<lambda>e. re_duration_seconds (stage_at e i)) baseline)"
    using assms(2) sample_of_complete [OF _ assms(3)] by (induction baseline) simp_all
  ultimately show ?thesis using assms(4)
    by (simp add: analyze_stage_def stage_status_regression_def status_rank_known stage_worse_def duration_trend_slower Let_def)
qed

lemma analyze_stage_unknown:
  assumes "entry_complete previous" "i \<in> {0, 1, 2}" "\<not> known_status (re_status (stage_at current i))"
  shows "analyze_stage P baseline (stages_by_name (he_report previous)) (required_release_stages ! i, stage_at current i) =
    Inl (ValueError (''unsupported release status: '' @ re_status (stage_at current i)))"
  using previous_stage [OF assms(1,2)] assms(3)
  by (simp add: analyze_stage_def stage_status_regression_def status_rank_unknown Let_def)

lemma compare_releases_complete:
  assumes "entry_ranked current" "\<forall>e\<in>set baseline. entry_ranked e" "baseline \<noteq> []"
  shows "\<exists>T. compare_releases P current baseline = Inr T \<and> tn_current_release_id T = he_release_id current \<and>
    tn_baseline_release_ids T = map he_release_id baseline \<and>
    (let now_rank = ranked (cg_status (he_report current)); old_rank = ranked (cg_status (he_report (hd baseline)));
         worse = (now_rank < old_rank \<or> (\<exists>i\<in>{0, 1, 2}. stage_worse current (hd baseline) i \<or> slower P current baseline i))
     in tn_status T = (if worse then ''regressed'' else if now_rank > old_rank then ''improved'' else ''stable''))"
proof -
  let ?f = "analyze_stage P baseline (stages_by_name (he_report (hd baseline)))"
  have prev: "entry_ranked (hd baseline)" using assms(2,3) by simp
  have complete: "\<forall>e\<in>set baseline. entry_complete e" using assms(2) by (auto simp: entry_ranked_def)
  note row = analyze_stage_complete [OF prev complete _ entry_ranked_stage [OF assms(1)], where P = P]
  obtain x where x: "?f (required_release_stages ! 0, stage_at current 0) = Inr x"
    "fst x \<noteq> [] \<longleftrightarrow> stage_worse current (hd baseline) 0 \<or> slower P current baseline 0" using row [of 0] by auto
  obtain y where y: "?f (required_release_stages ! 1, stage_at current 1) = Inr y"
    "fst y \<noteq> [] \<longleftrightarrow> stage_worse current (hd baseline) 1 \<or> slower P current baseline 1" using row [of 1] by auto
  obtain z where z: "?f (required_release_stages ! 2, stage_at current 2) = Inr z"
    "fst z \<noteq> [] \<longleftrightarrow> stage_worse current (hd baseline) 2 \<or> slower P current baseline 2" using row [of 2] by auto
  let ?now = "cg_status (he_report current)" and ?old = "cg_status (he_report (hd baseline))"
  let ?regs = "(if ranked ?now < ranked ?old then [''gate_status:'' @ ?old @ ''->'' @ ?now] else []) @ fst x @ fst y @ fst z"
  have rows: "map_exc ?f (stages_by_name (he_report current)) = Inr [x, y, z]"
    using assms(1) x(1) y(1) z(1) by (simp add: entry_ranked_def entry_complete_def stages_by_name_complete)
  have ranks: "status_rank ?now = Inr (ranked ?now)" "status_rank ?old = Inr (ranked ?old)"
    using assms(1) prev by (simp_all add: entry_ranked_def status_rank_known)
  have some: "?regs \<noteq> [] \<longleftrightarrow> ranked ?now < ranked ?old \<or>
      (\<exists>i\<in>{0, 1, 2}. stage_worse current (hd baseline) i \<or> slower P current baseline i)"
    unfolding append_is_Nil_conv using x(2) y(2) z(2) by auto
  define status where "status = (if ?regs \<noteq> [] then ''regressed'' else if ranked ?now > ranked ?old then ''improved'' else ''stable'')"
  have "compare_releases P current baseline = Inr \<lparr>tn_status = status,
      tn_current_release_id = he_release_id current, tn_baseline_release_ids = map he_release_id baseline,
      tn_current_gate_status = ?now, tn_previous_gate_status = Some ?old, tn_regressions = ?regs,
      tn_stage_trends = [snd x, snd y, snd z]\<rparr>"
    unfolding compare_releases_def Let_def rows ranks exc_bind_simps status_def by (simp only: list.map concat.simps append_Nil2)
  moreover have "status = (if ranked ?now < ranked ?old \<or>
        (\<exists>i\<in>{0, 1, 2}. stage_worse current (hd baseline) i \<or> slower P current baseline i)
      then ''regressed'' else if ranked ?now > ranked ?old then ''improved'' else ''stable'')"
    unfolding status_def some ..
  ultimately show ?thesis by (metis (no_types, lifting) trend_report.select_convs(1-3))
qed

end
