(* ===== verification/Release_Properties.thy ===== *)
theory Release_Properties
  imports Release_History
begin

text \<open>
  What the release gate and the release history decide: the verdict of a gate run in terms of what its three
  processes did, the report on disk, the comparison of the newest release with those before it; and a report that
  the trend analysis cannot read.
\<close>

section \<open>The stages of a run\<close>

lemma run_command_stage:
  assumes "run_command H P name command s = Some (Inr st, s')"
  shows "\<exists>out. launch H P name command s = Some (out, s') \<and> re_name st = name \<and>
    (re_releasable st \<longleftrightarrow> (\<exists>d. out = Inr d \<and> clean_exit d)) \<and>
    re_status st = (if re_releasable st then ''passed'' else ''failed'')"
proof -
  from assms obtain out where out: "launch H P name command s = Some (out, s')"
    "stage_of (rh_io H) name (interpret_command (rh_io H) name) out = Inr st"
    by (auto simp: run_command_def)
  then show ?thesis
    by (cases out) (auto simp: stage_of_def launch_failure_def dest: interpret_command_Inr)
qed

lemma run_sandbox_stage:
  assumes "run_sandbox H P command degraded_ok s = Some (Inr st, s')"
  shows "\<exists>out. launch H P ''sandbox'' command s = Some (out, s') \<and> re_name st = ''sandbox'' \<and>
    re_status st = (if \<exists>d. out = Inr d \<and> eq_num (dget_or PNone d ''exit_code'') 0 \<and> said (rh_io H) d all_checks_hold
        then ''passed''
      else if \<exists>d. out = Inr d \<and> eq_num (dget_or PNone d ''exit_code'') 2 \<and> said (rh_io H) d (backend_missing (rh_io H))
        then (if degraded_ok then ''degraded'' else ''blocked'') else ''failed'') \<and>
    (re_releasable st \<longleftrightarrow> re_status st \<in> {''passed'', ''degraded''})"
proof -
  from assms obtain out where out: "launch H P ''sandbox'' command s = Some (out, s')"
    "stage_of (rh_io H) ''sandbox'' (\<lambda>process. exc_bind (interpret_sandbox_process (rh_io H) process degraded_ok)
       (\<lambda>r. Inr (sandbox_stage r))) out = Inr st"
    by (auto simp: run_sandbox_def)
  show ?thesis
  proof (cases out)
    case (Inl e)
    with out show ?thesis by (simp add: stage_of_def launch_failure_def) (auto simp: launch_failure_def)
  next
    case (Inr d)
    with out(2) obtain r where r: "interpret_sandbox_process (rh_io H) d degraded_ok = Inr r" "st = sandbox_stage r"
      by (auto simp: stage_of_def exc_bind_Inr)
    with interpret_sandbox_Inr [OF r(1)] out(1) Inr show ?thesis by (simp add: sandbox_stage_def)
  qed
qed

lemma and_then_Some:
  "and_then x f = Some (Inr r, w) \<longleftrightarrow> (\<exists>v u. x = Some (Inr v, u) \<and> f v u = Some (Inr r, w))"
  by (auto simp: and_then_def split: option.split prod.split sum.split)

lemma gate_stages:
  assumes "release_gate_run H P degraded_ok s = Some (Inr R, s')"
  obtains a s2 b s3 c s4 started finished s5 where
    "run_command H P ''pytest'' (gp_pytest P) (snd (consult (rh_time H) s)) = Some (Inr a, s2)"
    "run_command H P ''wheel_smoke'' (gp_wheel_smoke P) s2 = Some (Inr b, s3)"
    "run_sandbox H P (gp_sandbox P) degraded_ok s3 = Some (Inr c, s4)"
    "R = release_verdict [a, b, c] started finished"
    "s' = write_json (rh_io H) (gp_report_path P) (release_report_dict R) s5"
  using assms by (auto simp: release_gate_run_def Let_def and_then_Some case_prod_beta)

lemma verdict_status:
  "cg_status (release_verdict stages started finished) =
     (if list_all re_releasable stages then if list_ex (\<lambda>x. re_status x = ''degraded'') stages then ''degraded'' else ''passed''
      else ''failed'')"
  "cg_releasable (release_verdict stages started finished) = list_all re_releasable stages"
  "cg_stages (release_verdict stages started finished) = stages"
  by (simp_all add: release_verdict_def Let_def)

section \<open>The verdict\<close>

text \<open>
  C36: the verdict of the composite gate. A run starts its three processes one after another; it passes
  exactly when tests and wheel smoke test ended with exit code zero, in time and with complete output, and the
  sandbox smoke test reported every required check as true; it is degraded exactly when instead the sandbox
  backend is missing and this was allowed; otherwise nothing is releasable. The report on disk is the one returned.
\<close>

theorem release_verdict_exact:
  assumes "release_gate_run H P degraded_ok s = Some (Inr R, s')" and J: "codec_ok (ji_codec (rh_io H))"
  shows "\<exists>o1 o2 o3 s2 s3 s4.
     launch H P ''pytest'' (gp_pytest P) (snd (consult (rh_time H) s)) = Some (o1, s2) \<and>
     launch H P ''wheel_smoke'' (gp_wheel_smoke P) s2 = Some (o2, s3) \<and>
     launch H P ''sandbox'' (gp_sandbox P) s3 = Some (o3, s4) \<and>
     (let clean = ((\<exists>d. o1 = Inr d \<and> clean_exit d) \<and> (\<exists>d. o2 = Inr d \<and> clean_exit d));
          checked = (\<exists>d. o3 = Inr d \<and> eq_num (dget_or PNone d ''exit_code'') 0 \<and> said (rh_io H) d all_checks_hold);
          missing = (\<exists>d. o3 = Inr d \<and> eq_num (dget_or PNone d ''exit_code'') 2 \<and> said (rh_io H) d (backend_missing (rh_io H)))
      in cg_status R = (if clean \<and> checked then ''passed'' else if clean \<and> missing \<and> degraded_ok then ''degraded'' else ''failed'')) \<and>
     (cg_releasable R \<longleftrightarrow> cg_status R \<in> {''passed'', ''degraded''}) \<and>
     (\<exists>text payload. dget (pw_files s') (path_str (''/'', gp_report_path P)) = Some text \<and>
        jc_loads (ji_codec (rh_io H)) text = Some (PDict payload) \<and> release_report_from payload = Inr R)"
proof -
  from gate_stages [OF assms(1)] obtain a s2 b s3 c s4 started finished s5 where
    1: "run_command H P ''pytest'' (gp_pytest P) (snd (consult (rh_time H) s)) = Some (Inr a, s2)" and
    2: "run_command H P ''wheel_smoke'' (gp_wheel_smoke P) s2 = Some (Inr b, s3)" and
    3: "run_sandbox H P (gp_sandbox P) degraded_ok s3 = Some (Inr c, s4)" and
    R: "R = release_verdict [a, b, c] started finished" and
    s': "s' = write_json (rh_io H) (gp_report_path P) (release_report_dict R) s5" by metis
  from run_command_stage [OF 1] obtain o1 where o1: "launch H P ''pytest'' (gp_pytest P) (snd (consult (rh_time H) s)) = Some (o1, s2)" "re_name a = ''pytest''"
    "re_releasable a \<longleftrightarrow> (\<exists>d. o1 = Inr d \<and> clean_exit d)" "re_status a = (if re_releasable a then ''passed'' else ''failed'')" by blast
  from run_command_stage [OF 2] obtain o2 where o2: "launch H P ''wheel_smoke'' (gp_wheel_smoke P) s2 = Some (o2, s3)"
    "re_name b = ''wheel_smoke''" "re_releasable b \<longleftrightarrow> (\<exists>d. o2 = Inr d \<and> clean_exit d)"
    "re_status b = (if re_releasable b then ''passed'' else ''failed'')" by blast
  from run_sandbox_stage [OF 3] obtain o3 where o3: "launch H P ''sandbox'' (gp_sandbox P) s3 = Some (o3, s4)" "re_name c = ''sandbox''"
    "re_status c = (if \<exists>d. o3 = Inr d \<and> eq_num (dget_or PNone d ''exit_code'') 0 \<and> said (rh_io H) d all_checks_hold
        then ''passed''
      else if \<exists>d. o3 = Inr d \<and> eq_num (dget_or PNone d ''exit_code'') 2 \<and> said (rh_io H) d (backend_missing (rh_io H))
        then (if degraded_ok then ''degraded'' else ''blocked'') else ''failed'')"
    "re_releasable c \<longleftrightarrow> re_status c \<in> {''passed'', ''degraded''}" by blast
  have names: "map re_name (cg_stages R) = required_release_stages"
    using o1(2) o2(2) o3(2) by (simp add: R verdict_status required_release_stages_def)
  have status: "cg_status R = (if re_releasable a \<and> re_releasable b \<and> re_status c = ''passed'' then ''passed''
      else if re_releasable a \<and> re_releasable b \<and> re_status c = ''degraded'' then ''degraded'' else ''failed'')"
    using o1(4) o2(4) o3(4) by (auto simp: R verdict_status)
  define clean where "clean \<longleftrightarrow> (\<exists>d. o1 = Inr d \<and> clean_exit d) \<and> (\<exists>d. o2 = Inr d \<and> clean_exit d)"
  define checked where "checked \<longleftrightarrow> (\<exists>d. o3 = Inr d \<and> eq_num (dget_or PNone d ''exit_code'') 0 \<and> said (rh_io H) d all_checks_hold)"
  define missing where "missing \<longleftrightarrow> (\<exists>d. o3 = Inr d \<and> eq_num (dget_or PNone d ''exit_code'') 2 \<and>
      said (rh_io H) d (backend_missing (rh_io H)))"
  have "re_status c = (if checked then ''passed'' else if missing then (if degraded_ok then ''degraded'' else ''blocked'') else ''failed'')"
    unfolding checked_def missing_def by (rule o3(3))
  moreover have "re_releasable a \<and> re_releasable b \<longleftrightarrow> clean" by (simp add: o1(3) o2(3) clean_def)
  ultimately have verdict: "cg_status R = (if clean \<and> checked then ''passed'' else if clean \<and> missing \<and> degraded_ok then ''degraded'' else ''failed'')"
    using status by (cases clean; cases checked; cases missing; cases degraded_ok) simp_all
  have releasable: "cg_releasable R \<longleftrightarrow> cg_status R \<in> {''passed'', ''degraded''}"
    by (simp add: R verdict_status)
  obtain text_on_disk payload where on_disk: "dget (pw_files s') (path_str (''/'', gp_report_path P)) = Some text_on_disk"
      "jc_loads (ji_codec (rh_io H)) text_on_disk = Some (PDict payload)" "release_report_from payload = Inr R"
    using codec_loads_line [OF J] release_report_round_trip [OF names] by (simp add: s' write_json_def)
  show ?thesis
    unfolding Let_def
    using o1(1) o2(1) o3(1) verdict [unfolded clean_def checked_def missing_def] releasable on_disk
    by (intro exI conjI)
qed

text \<open>The host of the examples: every process ends at once with the given exit code and prints a text that the codec reads
  as the given payload.\<close>

definition reading_codec :: "pydict \<Rightarrow> json_codec" where
  "reading_codec payload = tally_codec\<lparr>jc_loads := (\<lambda>s. if s = ''ok'' then Some (PDict payload) else jc_loads tally_codec s)\<rparr>"

definition prompt_os :: "int \<Rightarrow> unit process_os" where
  "prompt_os code = \<lparr>po_environ = (\<lambda>w. ([], w)), po_popen = (\<lambda>argv cwd env w. (Inr 7, w)),
     po_stat = (\<lambda>pid w. (Some (str_join '' '' (replicate 22 ''1'')), w)), po_poll = (\<lambda>pid w. (Some code, w)),
     po_wait = (\<lambda>pid t s. (Exited code, s)), po_killpg = (\<lambda>pid w. (None, w)), po_kill = (\<lambda>pid w. (None, w)),
     po_start_drain = (\<lambda>pid err w. (None, w)), po_chunks = (\<lambda>pid err w. ([], w)),
     po_perf_counter = (\<lambda>w. (0, w)), po_decode_replace = (\<lambda>b. ''ok'')\<rparr>"

definition gate_host :: "int \<Rightarrow> json_io \<Rightarrow> unit release_host" where
  "gate_host code IO = \<lparr>rh_os = prompt_os code,
     rh_process = \<lparr>ph_codec = \<lparr>jc_dumps = (\<lambda>v. []), jc_loads = (\<lambda>s. None)\<rparr>, ph_path = None, ph_clock = (\<lambda>w. (0, w)),
       ph_uuid = (\<lambda>w. (''p'', w)), ph_hostname = (\<lambda>w. (''h'', w)), ph_sha256 = (\<lambda>bs. bs)\<rparr>,
     rh_links = 0, rh_tree = (\<lambda>w. [([''w''], Dir_Entry)]), rh_time = (\<lambda>w. (5, w)), rh_io = IO\<rparr>"

definition gate_io :: "pydict \<Rightarrow> json_io" where
  "gate_io payload = \<lparr>ji_codec = reading_codec payload, ji_str = (\<lambda>v. []), ji_error = (\<lambda>s. [])\<rparr>"

definition gate_command :: release_command where
  "gate_command = \<lparr>rc_argv = [''t''], rc_timeout_seconds = 60, rc_max_output_bytes = 1000\<rparr>"

definition gate_policy :: release_policy where
  "gate_policy = \<lparr>gp_workspace_root = [''w''], gp_pytest = gate_command, gp_wheel_smoke = gate_command,
     gp_sandbox = gate_command, gp_report_path = [''w'', ''r.json'']\<rparr>"

definition gate_world :: "unit process_world" where
  "gate_world = \<lparr>pw_records = [], pw_files = [], pw_world = ()\<rparr>"

lemma reading_codec_ok: "codec_ok (reading_codec payload)"
proof -
  have o_free: "CHR ''o'' \<notin> set (jc_dumps tally_codec v)" "CHR ''o'' \<notin> set (jc_dumps tally_codec v @ [CHR 0x0A])" for v
    by (simp_all add: tally_codec_def)
  have "jc_dumps tally_codec v \<noteq> ''ok''" "jc_dumps tally_codec v @ [CHR 0x0A] \<noteq> ''ok''" for v
    using o_free [of v] by (metis list.set_intros(1))+
  then show ?thesis using tally_codec_ok by (simp add: reading_codec_def codec_ok_def)
qed

definition prompt_exit :: "int \<Rightarrow> pydict \<Rightarrow> bool" where
  "prompt_exit code d \<longleftrightarrow> dget d ''exit_code'' = Some (PInt code) \<and> dget d ''timed_out'' = Some (PBool False) \<and>
     dget d ''stdout_truncated'' = Some (PBool False) \<and> dget d ''stderr_truncated'' = Some (PBool False) \<and>
     dget d ''stdout'' = Some (PStr ''ok'') \<and> dget d ''duration_seconds'' = Some (pnum 0)"

lemma prompt_identity:
  "process_identity (prompt_os code) 7 w = (Inr ''1'', w)"
proof -
  have "words_of (str_join '' '' (replicate 22 ''1'')) = replicate 22 ''1''" by code_simp
  then show ?thesis by (simp add: process_identity_def lookup_process_identity_def prompt_os_def)
qed

lemma prompt_os_simps:
  "po_environ (prompt_os code) w = ([], w)" "po_popen (prompt_os code) argv cwd env w = (Inr 7, w)"
  "po_poll (prompt_os code) pid w = (Some code, w)" "po_start_drain (prompt_os code) pid err w = (None, w)"
  "po_chunks (prompt_os code) pid err w = ([], w)" "po_perf_counter (prompt_os code) w = (0, w)"
  "po_decode_replace (prompt_os code) b = ''ok''"
  by (simp_all add: prompt_os_def)

lemma prompt_watch: "watch (prompt_os code) H hb pid k deadline None s = Some ((None, False, Some code), s)"
  by (subst watch.simps) (simp add: os_poll_def consult_eq prompt_os_simps)

lemma gate_tool: "mk_subprocess_spec (stage_spec gate_command) = Inr (stage_spec gate_command) \<and>
    mk_subprocess_tool 0 [([''w''], Dir_Entry)] [''w''] (stage_spec gate_command) =
      Inr \<lparr>bt_workspace_root = [''w''], bt_spec = stage_spec gate_command, bt_cwd = [''w'']\<rparr>"
  by (intro conjI; code_simp)

lemma prompt_launch:
  assumes "strip (''release-gate-'' @ name) \<noteq> []"
  shows "\<exists>d s'. launch (gate_host code IO) gate_policy name gate_command s = Some (Inr d, s') \<and> prompt_exit code d"
  using assms by (simp add: launch_def call_bounded_def gate_tool gate_policy_def gate_host_def subprocess_call_def start_process_def
      supervise_def start_drains_def attend_def consult_eq prompt_os_simps prompt_identity prompt_watch register_process_def bare_state_def
      Let_def conclude_def finish_def run_status_def store_record_def pg_save_def prompt_exit_def dget_def popt_int_def
      new_stream_def dget_dset [unfolded dget_def])

lemma stage_runs: "strip (''release-gate-'' @ ''pytest'') \<noteq> []" "strip (''release-gate-'' @ ''wheel_smoke'') \<noteq> []"
  "strip (''release-gate-'' @ ''sandbox'') \<noteq> []"
  by code_simp+

lemma prompt_launches:
  shows "case launch (gate_host code IO) gate_policy ''pytest'' gate_command gate_world of
     Some (Inr a, s2) \<Rightarrow> prompt_exit code a \<and>
       (case launch (gate_host code IO) gate_policy ''wheel_smoke'' gate_command s2 of
          Some (Inr b, s3) \<Rightarrow> prompt_exit code b \<and>
            (case launch (gate_host code IO) gate_policy ''sandbox'' gate_command s3 of
               Some (Inr c, s4) \<Rightarrow> prompt_exit code c | _ \<Rightarrow> False)
        | _ \<Rightarrow> False)
   | _ \<Rightarrow> False"
proof -
  obtain a s2 where "launch (gate_host code IO) gate_policy ''pytest'' gate_command gate_world = Some (Inr a, s2)" "prompt_exit code a"
    using prompt_launch [OF stage_runs(1)] by blast
  moreover obtain b s3 where "launch (gate_host code IO) gate_policy ''wheel_smoke'' gate_command s2 = Some (Inr b, s3)" "prompt_exit code b"
    using prompt_launch [OF stage_runs(2)] by blast
  moreover obtain c s4 where "launch (gate_host code IO) gate_policy ''sandbox'' gate_command s3 = Some (Inr c, s4)" "prompt_exit code c"
    using prompt_launch [OF stage_runs(3)] by blast
  ultimately show ?thesis by simp
qed

lemma case_launched:
  assumes "case x of Some (Inr a, s) \<Rightarrow> Q a s | _ \<Rightarrow> False"
  shows "\<exists>a s. x = Some (Inr a, s) \<and> Q a s"
proof (cases x)
  case (Some p)
  obtain out s where p: "p = (out, s)" by fastforce
  with Some assms show ?thesis by (cases out) simp_all
qed (use assms in simp)

lemma gate_parts:
  "gp_pytest gate_policy = gate_command" "gp_wheel_smoke gate_policy = gate_command" "gp_sandbox gate_policy = gate_command"
  "rh_io (gate_host code IO) = IO" "consult (rh_time (gate_host code IO)) s = (5, s)"
  "ji_codec (gate_io payload) = reading_codec payload"
  by (simp_all add: gate_policy_def gate_host_def gate_io_def consult_eq)

lemma prompt_stages:
  assumes "prompt_exit code d"
  shows "\<exists>st. interpret_command IO name d = Inr st"
    "\<exists>r. interpret_sandbox_process (gate_io payload) d degraded_ok = Inr r"
  using assms
  by (simp_all add: prompt_exit_def interpret_command_def interpret_sandbox_process_def dget_or_def dget_def py_float_def Let_def
      sandbox_common_def show_val_def json_loads_def gate_io_def reading_codec_def)

lemma prompt_run:
  assumes "code \<in> {0, 2}"
  obtains R s' a b c s2 s3 s4 where
    "release_gate_run (gate_host code (gate_io payload)) gate_policy False gate_world = Some (Inr R, s')"
    "launch (gate_host code (gate_io payload)) gate_policy ''pytest'' gate_command gate_world = Some (Inr a, s2)" "prompt_exit code a"
    "launch (gate_host code (gate_io payload)) gate_policy ''wheel_smoke'' gate_command s2 = Some (Inr b, s3)" "prompt_exit code b"
    "launch (gate_host code (gate_io payload)) gate_policy ''sandbox'' gate_command s3 = Some (Inr c, s4)" "prompt_exit code c"
    "cg_finished_at R = 5" "run_sandbox (gate_host code (gate_io payload)) gate_policy gate_command False s3 = Some (Inr (cg_stages R ! 2), s4)"
proof -
  let ?H = "gate_host code (gate_io payload)"
  from case_launched [OF prompt_launches [of code "gate_io payload"]] obtain a s2 where
    1: "launch ?H gate_policy ''pytest'' gate_command gate_world = Some (Inr a, s2)" "prompt_exit code a" and
    rest: "case launch ?H gate_policy ''wheel_smoke'' gate_command s2 of
          Some (Inr b, s3) \<Rightarrow> prompt_exit code b \<and>
            (case launch ?H gate_policy ''sandbox'' gate_command s3 of
               Some (Inr c, s4) \<Rightarrow> prompt_exit code c | _ \<Rightarrow> False)
        | _ \<Rightarrow> False" by blast
  from case_launched [OF rest] obtain b s3 where
    2: "launch ?H gate_policy ''wheel_smoke'' gate_command s2 = Some (Inr b, s3)" "prompt_exit code b" and
    rest: "case launch ?H gate_policy ''sandbox'' gate_command s3 of Some (Inr c, s4) \<Rightarrow> prompt_exit code c | _ \<Rightarrow> False" by blast
  from case_launched [OF rest] obtain c s4 where
    3: "launch ?H gate_policy ''sandbox'' gate_command s3 = Some (Inr c, s4)" "prompt_exit code c" by blast
  from prompt_stages(1) [OF 1(2)] prompt_stages(1) [OF 2(2)] prompt_stages(2) [OF 3(2)] obtain x y z where
    "interpret_command (gate_io payload) ''pytest'' a = Inr x" "interpret_command (gate_io payload) ''wheel_smoke'' b = Inr y"
    "interpret_sandbox_process (gate_io payload) c False = Inr z" by metis
  then have runs: "run_command ?H gate_policy ''pytest'' gate_command gate_world = Some (Inr x, s2)"
    "run_command ?H gate_policy ''wheel_smoke'' gate_command s2 = Some (Inr y, s3)"
    "run_sandbox ?H gate_policy gate_command False s3 = Some (Inr (sandbox_stage z), s4)"
    using 1(1) 2(1) 3(1) by (simp_all add: run_command_def run_sandbox_def stage_of_def gate_parts)
  then have "\<exists>s'. release_gate_run ?H gate_policy False gate_world = Some (Inr (release_verdict [x, y, sandbox_stage z] 5 5), s')"
    by (simp add: release_gate_run_def gate_parts and_then_def Let_def)
  moreover have "cg_finished_at (release_verdict [x, y, sandbox_stage z] 5 5) = 5"
    "cg_stages (release_verdict [x, y, sandbox_stage z] 5 5) ! 2 = sandbox_stage z"
    by (simp_all add: release_verdict_def Let_def)
  ultimately show thesis using that 1 2 3 runs(3) by metis
qed

definition all_true :: pydict where
  "all_true = [(''status'', PStr ''completed''), (''checks'', PDict (map (\<lambda>name. (name, PBool True)) required_sandbox_checks))]"

lemma prompt_said:
  assumes "prompt_exit code d"
  shows "eq_num (dget_or PNone d ''exit_code'') i \<longleftrightarrow> code = i" "clean_exit d \<longleftrightarrow> code = 0"
    "said (gate_io payload) d Q \<longleftrightarrow> Q payload"
  using assms
  by (simp_all add: prompt_exit_def clean_exit_def said_def dget_or_def dget_def eq_num_def show_val_def json_loads_def gate_io_def
      reading_codec_def)

theorem release_verdict_exact_witness:
  "\<exists>R s' text payload. release_gate_run (gate_host 0 (gate_io all_true)) gate_policy False gate_world = Some (Inr R, s') \<and>
     cg_status R = ''passed'' \<and> cg_releasable R \<and> dget (pw_files s') ''/w/r.json'' = Some text \<and>
     jc_loads (reading_codec all_true) text = Some (PDict payload) \<and> release_report_from payload = Inr R"
proof -
  let ?H = "gate_host 0 (gate_io all_true)"
  obtain R s' a b c s2 s3 s4 where run: "release_gate_run ?H gate_policy False gate_world = Some (Inr R, s')" and
    launches: "launch ?H gate_policy ''pytest'' gate_command gate_world = Some (Inr a, s2)"
      "launch ?H gate_policy ''wheel_smoke'' gate_command s2 = Some (Inr b, s3)"
      "launch ?H gate_policy ''sandbox'' gate_command s3 = Some (Inr c, s4)" and
    exits: "prompt_exit 0 a" "prompt_exit 0 b" "prompt_exit 0 c"
    by (rule prompt_run [of 0 all_true]) simp_all
  have codec: "codec_ok (ji_codec (rh_io ?H))" by (simp add: gate_parts reading_codec_ok)
  have path: "path_str (''/'', gp_report_path gate_policy) = ''/w/r.json''" by code_simp
  have checks: "all_checks_hold all_true" by (simp add: all_checks_hold_def all_true_def) (simp add: required_sandbox_checks_def)
  from release_verdict_exact [OF run codec] show ?thesis
    unfolding gate_parts snd_conv path using run launches prompt_said [OF exits(1)] prompt_said [OF exits(2)] prompt_said [OF exits(3)] checks
    by (auto simp: Let_def)
qed

section \<open>Trends over the history\<close>

lemma entry_ranked_complete: "entry_ranked e \<Longrightarrow> entry_complete e"
  by (simp add: entry_ranked_def)

lemma list_recorded:
  assumes "codec_ok (ji_codec IO)" "\<forall>e\<in>set es. entry_complete e" "record_each (save_entry IO) es [] = Inr files"
    "0 < n" "n \<le> 100"
  shows "list_releases IO (PInt n) files = Inr (take (nat n) (sort_down entry_key es))"
  using releases.list_each [of IO es files n] assms unfolding list_releases_def load_release_def save_entry_def entry_key_def
  by blast

text \<open>The analysis of a listing of one entry more than the window.\<close>

lemma analyze_listed:
  assumes "sort_down entry_key es = current # older" "0 < tp_history_window P"
  shows "analyze_releases P (take (Suc (tp_history_window P)) (sort_down entry_key es)) =
    (if older = [] then Inr (insufficient_history current)
     else compare_releases P current (take (tp_history_window P) older))"
  using sort_down_take [of entry_key "Suc (tp_history_window P)" es] assms by (simp add: analyze_releases_def)

lemma regression_policy_window: "mk_regression_policy w r a = Inr P \<Longrightarrow> 0 < tp_history_window P \<and> tp_history_window P < 100"
  by (auto simp: mk_regression_policy_def Let_def split: option.splits if_splits)


text \<open>Releases of the examples: every stage passed and took the same time.\<close>

definition even_release :: "string \<Rightarrow> rat \<Rightarrow> rat \<Rightarrow> release_entry" where
  "even_release i t seconds = (let stage = (\<lambda>name. \<lparr>re_name = name, re_status = ''passed'', re_releasable = True, re_exit_code = PInt 0,
       re_timed_out = False, re_stdout_truncated = False, re_stderr_truncated = False, re_duration_seconds = seconds,
       re_error = PNone, re_details = None\<rparr>)
     in \<lparr>he_release_id = i, he_recorded_at = t, he_report = \<lparr>cg_status = ''passed'', cg_releasable = True, cg_degraded = False,
       cg_started_at = t, cg_finished_at = t, cg_stages = map stage required_release_stages, cg_error = PNone\<rparr>\<rparr>)"

lemma even_release_ranked: "is_identifier i \<Longrightarrow> entry_ranked (even_release i t seconds)"
  by (simp add: entry_ranked_def entry_complete_def even_release_def Let_def known_status_def comp_def list_all_iff)



text \<open>
  C40: when a gate run found the sandbox backend missing and this was not allowed, the status of its sandbox stage is
  one that the trend analysis does not know: recorded after any earlier release, the report makes the analysis
  raise, instead of reporting the regression.
\<close>

theorem blocked_release_breaks_trends:
  assumes "release_gate_run H G degraded_ok s = Some (Inr R, s')" "re_status (cg_stages R ! 2) = ''blocked''"
    "codec_ok (ji_codec IO)" "\<forall>e\<in>set es. entry_ranked e \<and> he_recorded_at e < cg_finished_at R"
    "record_each (save_entry IO) es [] = Inr files" "es \<noteq> []" "is_identifier i" "i \<notin> he_release_id ` set es"
    "mk_regression_policy w r a = Inr P"
  shows "fst (release_trends IO P (Some (R, i)) target files) = Inl (ValueError ''unsupported release status: blocked'')"
proof -
  let ?e = "\<lparr>he_release_id = i, he_recorded_at = cg_finished_at R, he_report = R\<rparr>"
  from gate_stages [OF assms(1)] obtain x s1 y s2 z s3 t u s4 where
    1: "run_command H G ''pytest'' (gp_pytest G) (snd (consult (rh_time H) s)) = Some (Inr x, s1)" and
    2: "run_command H G ''wheel_smoke'' (gp_wheel_smoke G) s1 = Some (Inr y, s2)" and
    3: "run_sandbox H G (gp_sandbox G) degraded_ok s2 = Some (Inr z, s3)" and R: "R = release_verdict [x, y, z] t u" by metis
  from run_command_stage [OF 1] run_command_stage [OF 2] run_sandbox_stage [OF 3]
  have stages: "re_name x = ''pytest''" "re_name y = ''wheel_smoke''" "re_name z = ''sandbox''"
    "known_status (re_status x)" "known_status (re_status y)"
    by (auto simp: known_status_def split: if_splits)
  have blocked: "re_status z = ''blocked''" using assms(2) by (simp add: R verdict_status)
  have e: "entry_complete ?e" "known_status (cg_status R)"
    using assms(7) stages by (simp_all add: entry_complete_def R verdict_status required_release_stages_def known_status_def)
  have complete: "\<forall>e\<in>set es. entry_complete e" using assms(4) entry_ranked_complete by blast
  from releases.recorded_files [of IO es "[]" files] assms(5) have kv:
    "files = map (\<lambda>e. (snapshot_target (he_release_id e), snapshot_text IO (release_entry_dict e))) es"
    unfolding save_entry_def by auto
  have "dget files (snapshot_target i) = None"
    using assms(8) by (auto simp: kv dget_None_iff dkeys_def)
  then obtain files1 where files1: "save_entry IO ?e files = Inr files1" by (simp add: save_entry_def record_snapshot_def)
  then have recorded: "record_release IO R i files = Inr (?e, files1)"
    using assms(7) by (simp add: record_release_def snapshot_identifier_def Let_def)
  have each: "record_each (save_entry IO) (es @ [?e]) [] = Inr files1"
    using assms(5) files1 by (simp add: record_each_def)
  have P: "0 < tp_history_window P" "tp_history_window P < 100" using regression_policy_window [OF assms(9)] by simp_all
  have sorted: "sort_down entry_key (es @ [?e]) = ?e # sort_down entry_key es"
    by (rule sort_down_newer) (use assms(4) in \<open>auto simp: entry_key_def\<close>)
  let ?w = "take (tp_history_window P) (sort_down entry_key es)"
  have w: "?w \<noteq> []" "\<forall>e\<in>set ?w. entry_ranked e"
    using P assms(4,6) set_sort_down [of entry_key es] by (auto dest: in_set_takeD simp del: set_sort_down)
  then have prev: "entry_ranked (hd ?w)" using hd_in_set [OF w(1)] by blast
  have "list_releases IO (PInt (int (tp_history_window P) + 1)) files1 =
      Inr (take (nat (int (tp_history_window P) + 1)) (sort_down entry_key (es @ [?e])))"
    by (rule list_recorded [OF assms(3) _ each]) (use e complete P in auto)
  moreover have "analyze_releases P (take (Suc (tp_history_window P)) (sort_down entry_key (es @ [?e]))) = compare_releases P ?e ?w"
    using analyze_listed [OF sorted P(1)] w(1) P(1) by auto
  moreover have "compare_releases P ?e ?w = Inl (ValueError ''unsupported release status: blocked'')"
  proof -
    let ?f = "analyze_stage P ?w (stages_by_name (he_report (hd ?w)))"
    have st: "cg_stages R = [x, y, z]" by (simp add: R verdict_status)
    have wc: "\<forall>e\<in>set ?w. entry_complete e" using w(2) entry_ranked_complete by blast
    obtain row0 where 0: "?f (''pytest'', x) = Inr row0"
      using analyze_stage_complete [OF prev wc, of 0 ?e P] stages st by (auto simp: required_release_stages_def)
    obtain row1 where 1: "?f (''wheel_smoke'', y) = Inr row1"
      using analyze_stage_complete [OF prev wc, of 1 ?e P] stages st by (auto simp: required_release_stages_def)
    have 2: "?f (''sandbox'', z) = Inl (ValueError ''unsupported release status: blocked'')"
      using analyze_stage_unknown [OF entry_ranked_complete [OF prev], of 2 ?e P ?w] st blocked
      by (simp add: required_release_stages_def known_status_def)
    have "stages_by_name R = [(''pytest'', x), (''wheel_smoke'', y), (''sandbox'', z)]"
      using stages_by_name_complete [of R] stages st by (simp add: required_release_stages_def)
    moreover have "status_rank (cg_status R) = Inr (ranked (cg_status R))" "status_rank (cg_status (he_report (hd ?w))) =
        Inr (ranked (cg_status (he_report (hd ?w))))"
      using e(2) prev by (simp_all add: status_rank_known entry_ranked_def)
    ultimately show ?thesis using 0 1 2 by (simp add: compare_releases_def Let_def)
  qed
  ultimately show ?thesis by (simp add: release_trends_def recorded nat_add_distrib)
qed

definition no_backend :: pydict where
  "no_backend = [(''status'', PStr ''blocked''), (''error'', PStr ''wsl_bubblewrap_unavailable'')]"

theorem blocked_release_breaks_trends_witness:
  "\<exists>R s' files. release_gate_run (gate_host 2 (gate_io no_backend)) gate_policy False gate_world = Some (Inr R, s') \<and>
     record_each (save_entry (gate_io [])) [even_release ''a'' 1 2] [] = Inr files \<and>
     fst (release_trends (gate_io []) \<lparr>tp_history_window = 5, tp_duration_ratio = 5/4, tp_duration_absolute_seconds = 1\<rparr>
       (Some (R, ''b'')) ''trend.json'' files) = Inl (ValueError ''unsupported release status: blocked'')"
proof -
  let ?H = "gate_host 2 (gate_io no_backend)" and ?IO = "gate_io []"
  let ?P = "\<lparr>tp_history_window = 5, tp_duration_ratio = 5/4, tp_duration_absolute_seconds = 1\<rparr> :: regression_policy"
  obtain R s' a b c s2 s3 s4 where run: "release_gate_run ?H gate_policy False gate_world = Some (Inr R, s')" and
    sandbox: "launch ?H gate_policy ''sandbox'' gate_command s3 = Some (Inr c, s4)" "prompt_exit 2 c" "cg_finished_at R = 5"
      "run_sandbox ?H gate_policy gate_command False s3 = Some (Inr (cg_stages R ! 2), s4)"
    by (rule prompt_run [of 2 no_backend]) simp_all
  have "backend_missing (gate_io no_backend) no_backend"
    by (simp add: backend_missing_def no_backend_def error_or_def dget_or_def show_val_def)
  with run_sandbox_stage [OF sandbox(4)] sandbox(1) prompt_said [OF sandbox(2)]
  have blocked: "re_status (cg_stages R ! 2) = ''blocked''" by (auto simp: gate_parts split: if_splits)
  have ids: "is_identifier ''a''" "is_identifier ''b''" by code_simp+
  obtain files where files: "record_each (save_entry ?IO) [even_release ''a'' 1 2] [] = Inr files"
    by (simp add: record_each_def save_entry_def record_snapshot_def)
  have P: "mk_regression_policy (PInt 5) (5/4) 1 = Inr ?P" by (simp add: mk_regression_policy_def Let_def)
  have J: "codec_ok (ji_codec ?IO)" by (simp add: gate_parts reading_codec_ok)
  have es: "\<forall>e\<in>set [even_release ''a'' 1 2]. entry_ranked e \<and> he_recorded_at e < cg_finished_at R"
    using ids(1) even_release_ranked [of "''a''" 1 2] sandbox(3) by (simp add: even_release_def Let_def)
  have new: "''b'' \<notin> he_release_id ` set [even_release ''a'' 1 2]" by (simp add: even_release_def Let_def)
  from blocked_release_breaks_trends [OF run blocked J es files _ ids(2) new P] run files show ?thesis by blast
qed

end
