(* ===== verification/Benchmark_History.thy ===== *)
theory Benchmark_History
  imports Release_History Strategy_Judge
begin

text \<open>
  Benchmark reports (\<open>loop_engine/benchmarks/models.py\<close>), the history of ranked runs
  (\<open>benchmarks/history_models.py\<close>, \<open>benchmarks/history_store.py\<close>), an instance of the locale \<open>snapshots\<close>, and the
  confidence in a winner over the runs of a window (\<open>benchmarks/history.py\<close>).
\<close>

section \<open>Reports\<close>

record acceptance_check =
  bc_name :: string
  bc_passed :: bool
  bc_details :: string

record benchmark_report =
  br_benchmark :: string
  br_comparison :: strategy_comparison
  br_ranking :: strategy_ranking
  br_checks :: "acceptance_check list"

definition mk_benchmark_report ::
  "string \<Rightarrow> strategy_comparison \<Rightarrow> strategy_ranking \<Rightarrow> acceptance_check list \<Rightarrow> py_exc + benchmark_report" where
  "mk_benchmark_report benchmark comparison ranking checks =
     (if strip benchmark = [] then Inl (ValueError ''benchmark name is required'')
      else if sx_case comparison \<noteq> sg_case ranking then Inl (ValueError ''benchmark comparison and ranking case differ'')
      else Inr \<lparr>br_benchmark = strip benchmark, br_comparison = comparison, br_ranking = ranking, br_checks = checks\<rparr>)"

definition benchmark_passed :: "benchmark_report \<Rightarrow> bool" where
  "benchmark_passed r = list_all bc_passed (br_checks r)"

definition benchmark_dict :: "benchmark_report \<Rightarrow> pydict" where
  "benchmark_dict r = [(''schema_version'', PInt 1), (''benchmark'', PStr (br_benchmark r)),
     (''passed'', PBool (benchmark_passed r)),
     (''checks'', PList (map (\<lambda>c. PDict [(''name'', PStr (bc_name c)), (''passed'', PBool (bc_passed c)),
        (''details'', PStr (bc_details c))]) (br_checks r))),
     (''comparison'', PDict (comparison_dict (br_comparison r))), (''ranking'', PDict (ranking_dict (br_ranking r)))]"

definition save_benchmark :: "json_codec \<Rightarrow> string \<Rightarrow> benchmark_report \<Rightarrow> directory \<Rightarrow> directory" where
  "save_benchmark J path r files = dset path (jc_dumps J (PDict (benchmark_dict r)) @ [CHR 0x0A]) files"

section \<open>Entries\<close>

record strategy_snapshot =
  bk_strategy :: string
  bk_rank :: "int option"
  bk_elapsed_ms :: int

text \<open>\<open>eligible\<close> is what the constructor requires it to be: whether there is a rank.\<close>

definition bk_eligible :: "strategy_snapshot \<Rightarrow> bool" where
  "bk_eligible s \<longleftrightarrow> bk_rank s \<noteq> None"

definition mk_snapshot :: "string \<Rightarrow> pyval \<Rightarrow> pyval \<Rightarrow> pyval \<Rightarrow> py_exc + strategy_snapshot" where
  "mk_snapshot strategy place flag elapsed_ms =
     (if strip strategy = [] then Inl (ValueError ''benchmark strategy name is required'')
      else if place \<noteq> PNone \<and> (case plain_int place of None \<Rightarrow> True | Some k \<Rightarrow> k \<le> 0)
        then Inl (ValueError ''benchmark strategy rank must be positive'')
      else case plain_int elapsed_ms of
        None \<Rightarrow> Inl (ValueError ''benchmark strategy elapsed_ms must be non-negative'')
      | Some ms \<Rightarrow>
          if ms < 0 then Inl (ValueError ''benchmark strategy elapsed_ms must be non-negative'')
          else if \<not> eq_num flag (if place \<noteq> PNone then 1 else 0)
            then Inl (ValueError ''benchmark eligibility and rank must agree'')
          else Inr \<lparr>bk_strategy = strip strategy, bk_rank = plain_int place, bk_elapsed_ms = ms\<rparr>)"

record history_entry =
  bh_run_id :: string
  bh_recorded_at :: rat
  bh_benchmark :: string
  bh_case :: string
  bh_passed :: bool
  bh_policy_sha256 :: string
  bh_strategies :: "strategy_snapshot list"
  bh_winners :: "string list"

definition first_ranked :: "strategy_snapshot list \<Rightarrow> string list" where
  "first_ranked ss = map bk_strategy (filter (\<lambda>s. bk_rank s = Some 1) ss)"

definition mk_history_entry ::
  "string \<Rightarrow> pyfloat \<Rightarrow> string \<Rightarrow> string \<Rightarrow> bool \<Rightarrow> string \<Rightarrow> strategy_snapshot list \<Rightarrow> string list \<Rightarrow> py_exc + history_entry" where
  "mk_history_entry run_id recorded_at benchmark case_name passed sha strategies winners =
     (if \<not> is_identifier run_id then Inl (ValueError ''benchmark history run_id is invalid'')
      else case recorded_at of
        FFin t \<Rightarrow>
          if strip benchmark = [] \<or> strip case_name = [] then Inl (ValueError ''benchmark history identity fields are required'')
          else if \<not> is_sha256 sha then Inl (ValueError ''benchmark policy_sha256 is invalid'')
          else if strategies = [] then Inl (ValueError ''benchmark history requires strategies'')
          else if \<not> distinct (map bk_strategy strategies) then Inl (ValueError ''benchmark history strategies must be unique'')
          else if \<not> distinct winners \<or> \<not> set winners \<subseteq> set (map bk_strategy strategies)
            then Inl (ValueError ''benchmark history winners are invalid'')
          else if set winners \<noteq> set (first_ranked strategies)
            then Inl (ValueError ''benchmark winners must match first-ranked strategies'')
          else Inr \<lparr>bh_run_id = run_id, bh_recorded_at = t, bh_benchmark = strip benchmark, bh_case = strip case_name,
            bh_passed = passed, bh_policy_sha256 = sha, bh_strategies = strategies, bh_winners = winners\<rparr>
      | _ \<Rightarrow> Inl (ValueError ''benchmark history recorded_at must be finite''))"

text \<open>\<open>_snapshot\<close>.\<close>

definition metrics_by_strategy :: "strategy_comparison \<Rightarrow> (string \<times> strategy_metrics) list" where
  "metrics_by_strategy c = fold (\<lambda>m. dset (sm_strategy m) m) (sx_runs c) []"

definition ranks_by_strategy :: "strategy_ranking \<Rightarrow> (string \<times> strategy_rank) list" where
  "ranks_by_strategy g = fold (\<lambda>e. dset (sk_strategy e) e) (sg_entries g) []"

definition snapshot_of ::
  "(string \<times> strategy_metrics) list \<Rightarrow> (string \<times> strategy_rank) list \<Rightarrow> string \<Rightarrow> py_exc + strategy_snapshot" where
  "snapshot_of metrics ranks name = (case (dget metrics name, dget ranks name) of
      (Some m, Some e) \<Rightarrow> mk_snapshot name (case sk_rank e of None \<Rightarrow> PNone | Some k \<Rightarrow> PInt (int k)) (PBool (sk_eligible e))
        (PInt (sm_elapsed_ms m))
    | _ \<Rightarrow> Inl (PyExc ''KeyError'' (repr_str name)))"

definition history_snapshot ::
  "(pyval \<Rightarrow> string) \<Rightarrow> (8 word list \<Rightarrow> 8 word list) \<Rightarrow> benchmark_report \<Rightarrow> string \<Rightarrow> pyfloat \<Rightarrow> py_exc + history_entry" where
  "history_snapshot dumps sha256 r run_id recorded_at =
     (let metrics = metrics_by_strategy (br_comparison r); ranks = ranks_by_strategy (br_ranking r) in
      if set (dkeys metrics) \<noteq> set (dkeys ranks) then Inl (ValueError ''benchmark comparison and ranking strategies differ'')
      else exc_bind (map_exc (snapshot_of metrics ranks) (sort (dkeys metrics))) (\<lambda>strategies.
        mk_history_entry run_id recorded_at (br_benchmark r) (sx_case (br_comparison r)) (benchmark_passed r)
          (canonical_sha256 dumps sha256 (dget_or PNone (ranking_dict (br_ranking r)) ''policy''))
          strategies (sort (ranking_winners (br_ranking r)))))"

section \<open>The store\<close>

definition snapshot_dict :: "strategy_snapshot \<Rightarrow> pydict" where
  "snapshot_dict s = [(''strategy'', PStr (bk_strategy s)), (''rank'', popt_int (bk_rank s)), (''eligible'', PBool (bk_eligible s)),
     (''elapsed_ms'', PInt (bk_elapsed_ms s))]"

definition history_entry_dict :: "history_entry \<Rightarrow> pydict" where
  "history_entry_dict e = [(''run_id'', PStr (bh_run_id e)), (''recorded_at'', pnum (bh_recorded_at e)),
     (''benchmark'', PStr (bh_benchmark e)), (''case'', PStr (bh_case e)), (''passed'', PBool (bh_passed e)),
     (''policy_sha256'', PStr (bh_policy_sha256 e)),
     (''strategies'', PList (map (\<lambda>s. PDict (snapshot_dict s)) (bh_strategies e))), (''winners'', pstrs (bh_winners e))]"

text \<open>\<open>BenchmarkStrategySnapshot(**dict(item))\<close>.\<close>

definition snapshot_from :: "pyval \<Rightarrow> py_exc + strategy_snapshot" where
  "snapshot_from v = (case as_dict v of
      Some d \<Rightarrow>
        if \<not> only_keys [''strategy'', ''rank'', ''eligible'', ''elapsed_ms''] d then Inl (malformed ''strategy snapshot'')
        else (case (req_arg d ''strategy'' as_str, dget d ''rank'', dget d ''eligible'', dget d ''elapsed_ms'') of
          (Some strategy, Some place, Some flag, Some elapsed) \<Rightarrow> mk_snapshot strategy place flag elapsed
        | _ \<Rightarrow> Inl (malformed ''strategy snapshot''))
    | None \<Rightarrow> Inl (malformed ''strategy snapshot''))"

text \<open>\<open>float(value)\<close>, infinities and NaN included.\<close>

definition as_float :: "pyval \<Rightarrow> pyfloat option" where
  "as_float v = (case v of PFloat f \<Rightarrow> Some f | _ \<Rightarrow> map_option FFin (num_value v))"

definition history_entry_from :: "string \<Rightarrow> pydict \<Rightarrow> py_exc + history_entry" where
  "history_entry_from identity d = (case dget_or PNone d ''passed'' of
      PBool passed \<Rightarrow>
        exc_bind (field_exc d ''run_id'' as_str) (\<lambda>run_id.
        exc_bind (snapshot_identifier ''run_id'' run_id) (\<lambda>run_id.
        exc_bind (field_exc d ''recorded_at'' as_float) (\<lambda>recorded_at.
        exc_bind (field_exc d ''benchmark'' as_str) (\<lambda>benchmark.
        exc_bind (field_exc d ''case'' as_str) (\<lambda>case_name.
        exc_bind (field_exc d ''policy_sha256'' as_str) (\<lambda>sha.
        exc_bind (field_exc d ''strategies'' as_list) (\<lambda>rows.
        exc_bind (map_exc snapshot_from rows) (\<lambda>strategies.
        exc_bind (field_exc d ''winners'' as_strs) (\<lambda>winners.
        exc_bind (mk_history_entry run_id recorded_at benchmark case_name passed sha strategies winners) (\<lambda>e.
          if bh_run_id e \<noteq> identity then Inl (ValueError ''benchmark history identity does not match its path'')
          else Inr e))))))))))
    | _ \<Rightarrow> Inl (ValueError ''benchmark history passed must be boolean''))"

definition save_run :: "json_io \<Rightarrow> history_entry \<Rightarrow> directory \<Rightarrow> py_exc + directory" where
  "save_run IO e = record_snapshot IO ''benchmark history'' (bh_run_id e) (history_entry_dict e)"

definition record_benchmark ::
  "json_io \<Rightarrow> (pyval \<Rightarrow> string) \<Rightarrow> (8 word list \<Rightarrow> 8 word list) \<Rightarrow> benchmark_report \<Rightarrow> string \<Rightarrow> pyfloat \<Rightarrow> directory
   \<Rightarrow> py_exc + history_entry \<times> directory"
where
  "record_benchmark IO dumps sha256 r run_id recorded_at files =
     exc_bind (snapshot_identifier ''run_id'' run_id) (\<lambda>run_id.
     exc_bind (history_snapshot dumps sha256 r run_id recorded_at) (\<lambda>e.
     exc_bind (save_run IO e files) (\<lambda>files'. Inr (e, files'))))"

definition load_run :: "json_io \<Rightarrow> string \<Rightarrow> directory \<Rightarrow> py_exc + history_entry" where
  "load_run IO = load_snapshot IO ''run_id'' ''benchmark history'' history_entry_from"

definition run_key :: "history_entry \<Rightarrow> rat \<times> string" where
  "run_key e = (bh_recorded_at e, bh_run_id e)"

definition list_runs :: "json_io \<Rightarrow> pyval \<Rightarrow> directory \<Rightarrow> py_exc + history_entry list" where
  "list_runs IO = list_snapshots ''benchmark history'' (load_run IO) run_key"

text \<open>What the constructors establish.\<close>

definition snapshot_ok :: "strategy_snapshot \<Rightarrow> bool" where
  "snapshot_ok s \<longleftrightarrow> bk_strategy s \<noteq> [] \<and> strip (bk_strategy s) = bk_strategy s \<and> 0 \<le> bk_elapsed_ms s \<and>
     (\<forall>k. bk_rank s = Some k \<longrightarrow> 0 < k)"

definition run_ok :: "history_entry \<Rightarrow> bool" where
  "run_ok e \<longleftrightarrow> (\<forall>s\<in>set (bh_strategies e). snapshot_ok s) \<and>
     mk_history_entry (bh_run_id e) (FFin (bh_recorded_at e)) (bh_benchmark e) (bh_case e) (bh_passed e) (bh_policy_sha256 e)
       (bh_strategies e) (bh_winners e) = Inr e"

lemma mk_snapshot_ok: "mk_snapshot name place flag elapsed = Inr s \<Longrightarrow> snapshot_ok s"
  by (auto simp: mk_snapshot_def snapshot_ok_def split: if_splits option.splits)

lemma snapshot_of_ok: "snapshot_of metrics ranks name = Inr s \<Longrightarrow> snapshot_ok s"
  by (cases "dget metrics name"; cases "dget ranks name") (auto simp: snapshot_of_def intro: mk_snapshot_ok)

lemma mk_snapshot_again:
  "snapshot_ok s \<Longrightarrow> mk_snapshot (bk_strategy s) (popt_int (bk_rank s)) (PBool (bk_eligible s)) (PInt (bk_elapsed_ms s)) = Inr s"
  by (cases s; cases "bk_rank s") (auto simp: mk_snapshot_def snapshot_ok_def bk_eligible_def popt_int_def eq_num_def)

lemma snapshot_round_trip: "snapshot_ok s \<Longrightarrow> snapshot_from (PDict (snapshot_dict s)) = Inr s"
  using mk_snapshot_again [of s] by (simp add: snapshot_from_def snapshot_dict_def only_keys_def dkeys_def req_arg_def)

lemma run_ok_facts:
  assumes "run_ok e"
  shows "is_identifier (bh_run_id e)" "bh_strategies e \<noteq> []" "distinct (map bk_strategy (bh_strategies e))"
    "set (bh_winners e) = set (first_ranked (bh_strategies e))" "distinct (bh_winners e)"
  using assms by (auto simp: run_ok_def mk_history_entry_def split: if_splits)

lemma mk_history_entry_ok:
  "mk_history_entry i t b c p sha ss ws = Inr e \<Longrightarrow> \<forall>s\<in>set ss. snapshot_ok s \<Longrightarrow> run_ok e"
  by (auto simp: run_ok_def mk_history_entry_def split: if_splits pyfloat.splits)

lemma run_round_trip:
  assumes "run_ok e"
  shows "history_entry_from (bh_run_id e) (history_entry_dict e) = Inr e"
proof -
  have "map_exc snapshot_from (map (\<lambda>s. PDict (snapshot_dict s)) (bh_strategies e)) = Inr (bh_strategies e)"
    by (rule map_exc_Inr) (use assms snapshot_round_trip in \<open>auto simp: run_ok_def\<close>)
  then show ?thesis
    using assms run_ok_facts(1) [OF assms]
    by (simp add: history_entry_from_def history_entry_dict_def dget_or_def field_exc_def snapshot_identifier_def as_float_def run_ok_def)
qed

interpretation runs: snapshots IO "''run_id''" "''benchmark history''" history_entry_dict history_entry_from bh_run_id
  bh_recorded_at run_ok for IO
  by unfold_locales (simp_all add: run_round_trip run_ok_facts(1))

text \<open>What is recorded from a report is such an entry.\<close>

lemma history_snapshot_ok:
  assumes "history_snapshot dumps sha256 r run_id t = Inr e"
  shows "run_ok e"
proof -
  from assms obtain strategies where
    all: "map_exc (snapshot_of (metrics_by_strategy (br_comparison r)) (ranks_by_strategy (br_ranking r)))
      (sort (dkeys (metrics_by_strategy (br_comparison r)))) = Inr strategies" and
    e: "mk_history_entry run_id t (br_benchmark r) (sx_case (br_comparison r)) (benchmark_passed r)
      (canonical_sha256 dumps sha256 (dget_or PNone (ranking_dict (br_ranking r)) ''policy''))
      strategies (sort (ranking_winners (br_ranking r))) = Inr e"
    by (auto simp: history_snapshot_def Let_def exc_bind_Inr split: if_splits)
  have "\<forall>s\<in>set strategies. snapshot_ok s"
    using map_exc_all [OF all] snapshot_of_ok by blast
  with e show ?thesis by (rule mk_history_entry_ok)
qed

section \<open>Confidence\<close>

record confidence_policy =
  bp_history_window :: nat
  bp_minimum_runs :: nat
  bp_minimum_share :: int

definition mk_confidence_policy :: "pyval \<Rightarrow> pyval \<Rightarrow> pyval \<Rightarrow> py_exc + confidence_policy" where
  "mk_confidence_policy window minimum share =
     (case plain_int window of
        None \<Rightarrow> Inl (ValueError ''benchmark history window must be between 1 and 100'')
      | Some w \<Rightarrow>
          if w \<le> 0 \<or> w > 100 then Inl (ValueError ''benchmark history window must be between 1 and 100'')
          else case plain_int minimum of
            None \<Rightarrow> Inl (ValueError ''benchmark minimum runs must fit the history window'')
          | Some m \<Rightarrow>
              if m \<le> 0 \<or> m > w then Inl (ValueError ''benchmark minimum runs must fit the history window'')
              else case plain_int share of
                None \<Rightarrow> Inl (ValueError ''benchmark winner share must be between 5001 and 10000 basis points'')
              | Some x \<Rightarrow>
                  if x \<le> 5000 \<or> x > 10000
                    then Inl (ValueError ''benchmark winner share must be between 5001 and 10000 basis points'')
                  else Inr \<lparr>bp_history_window = nat w, bp_minimum_runs = nat m, bp_minimum_share = x\<rparr>)"

record strategy_confidence =
  sf_strategy :: string
  sf_first_place_count :: int
  sf_first_place_share :: int
  sf_rank_sum :: int
  sf_average_rank_millis :: int
  sf_median_elapsed_ms :: int
  sf_elapsed_mad_ms :: int

record confidence_report =
  bf_status :: string
  bf_benchmark :: string
  bf_case :: string
  bf_run_ids :: "string list"
  bf_passed_run_count :: int
  bf_consensus_winners :: "string list"
  bf_winner_share :: int
  bf_policy :: confidence_policy
  bf_strategies :: "strategy_confidence list"
  bf_reason :: string

definition comparison_identity :: "history_entry \<Rightarrow> string \<times> string \<times> string \<times> string list" where
  "comparison_identity e = (bh_benchmark e, bh_case e, bh_policy_sha256 e, map bk_strategy (bh_strategies e))"

definition check_history :: "history_entry list \<Rightarrow> py_exc + unit" where
  "check_history entries =
     (if \<not> distinct (map bh_run_id entries) then Inl (ValueError ''benchmark history run ids must be unique'')
      else if list_ex (\<lambda>e. comparison_identity e \<noteq> comparison_identity (hd entries)) (tl entries)
        then Inl (ValueError ''benchmark history entries are not comparable'')
      else Inr ())"

definition strategy_in :: "string \<Rightarrow> history_entry \<Rightarrow> py_exc + strategy_snapshot" where
  "strategy_in name e = (case find (\<lambda>s. bk_strategy s = name) (bh_strategies e) of
      None \<Rightarrow> Inl (PyExc ''StopIteration'' []) | Some s \<Rightarrow> Inr s)"

text \<open>\<open>int(statistics.median(values))\<close>, and the mean of \<open>amount\<close> over \<open>n\<close> runs, scaled and rounded.\<close>

definition int_median :: "int list \<Rightarrow> int" where
  "int_median xs = py_trunc (median_rat (map of_int xs))"

definition scaled_mean :: "int \<Rightarrow> int \<Rightarrow> nat \<Rightarrow> int" where
  "scaled_mean factor amount n = py_round (of_int (amount * factor) / of_nat n)"

definition rank_or :: "int \<Rightarrow> strategy_snapshot \<Rightarrow> int" where
  "rank_or worst s = (case bk_rank s of None \<Rightarrow> worst | Some k \<Rightarrow> k)"

definition first_places :: "string \<Rightarrow> history_entry list \<Rightarrow> int" where
  "first_places name entries = int (length (filter (\<lambda>e. name \<in> set (bh_winners e) \<and> length (bh_winners e) = 1) entries))"

definition confidence_of :: "history_entry list \<Rightarrow> nat \<Rightarrow> string \<Rightarrow> py_exc + strategy_confidence" where
  "confidence_of entries strategy_count name = exc_bind (map_exc (strategy_in name) entries) (\<lambda>snapshots.
     let ranks = map (rank_or (int strategy_count + 1)) snapshots; elapsed = map bk_elapsed_ms snapshots;
         first = first_places name entries; m = int_median elapsed
     in Inr \<lparr>sf_strategy = name, sf_first_place_count = first,
          sf_first_place_share = scaled_mean 10000 first (length entries), sf_rank_sum = sum_list ranks,
          sf_average_rank_millis = scaled_mean 1000 (sum_list ranks) (length ranks),
          sf_median_elapsed_ms = m, sf_elapsed_mad_ms = int_median (map (\<lambda>v. \<bar>v - m\<bar>) elapsed)\<rparr>)"

definition confidence_status :: "confidence_policy \<Rightarrow> nat \<Rightarrow> nat \<Rightarrow> string list \<Rightarrow> int \<Rightarrow> string \<times> string" where
  "confidence_status P run_count passed_count consensus winner_share =
     (if run_count < bp_minimum_runs P then (''insufficient_history'', ''minimum benchmark run count not reached'')
      else if passed_count \<noteq> run_count then (''low_confidence'', ''one or more benchmark runs failed acceptance'')
      else if length consensus \<noteq> 1 then (''low_confidence'', ''consensus ranking is tied'')
      else if winner_share < bp_minimum_share P then (''low_confidence'', ''winner first-place share is below policy'')
      else (''confident'', ''unique consensus winner meets confidence policy''))"

definition confidence_key :: "strategy_confidence \<Rightarrow> int \<times> int \<times> int \<times> string" where
  "confidence_key a = (sf_rank_sum a, - sf_first_place_count a, sf_median_elapsed_ms a, sf_strategy a)"

definition confidence_over :: "confidence_policy \<Rightarrow> history_entry list \<Rightarrow> strategy_confidence list \<Rightarrow> confidence_report" where
  "confidence_over P entries aggregates =
     (let lowest = Min (set (map sf_rank_sum aggregates));
          consensus = map sf_strategy (filter (\<lambda>a. sf_rank_sum a = lowest) aggregates);
          top_share = Max (set (map sf_first_place_share (filter (\<lambda>a. sf_strategy a \<in> set consensus) aggregates)));
          passed_count = length (filter bh_passed entries);
          (status, reason) = confidence_status P (length entries) passed_count consensus top_share
      in \<lparr>bf_status = status, bf_benchmark = bh_benchmark (hd entries), bf_case = bh_case (hd entries),
        bf_run_ids = map bh_run_id entries, bf_passed_run_count = int passed_count, bf_consensus_winners = consensus,
        bf_winner_share = top_share, bf_policy = P, bf_strategies = sort_key confidence_key aggregates, bf_reason = reason\<rparr>)"

definition analyze_runs :: "confidence_policy \<Rightarrow> history_entry list \<Rightarrow> py_exc + confidence_report" where
  "analyze_runs P entries =
     (if entries = [] then Inl (ValueError ''benchmark confidence requires history'')
      else let ordered = take (bp_history_window P) (sort_down run_key entries) in
        exc_bind (check_history ordered) (\<lambda>_.
        let names = map bk_strategy (bh_strategies (hd ordered)) in
        exc_bind (map_exc (confidence_of ordered (length names)) names) (\<lambda>aggregates.
          Inr (confidence_over P ordered aggregates))))"

section \<open>Confidence reports as JSON\<close>

definition confidence_policy_dict :: "confidence_policy \<Rightarrow> pydict" where
  "confidence_policy_dict P = [(''history_window'', PInt (int (bp_history_window P))), (''minimum_runs'', PInt (int (bp_minimum_runs P))),
     (''minimum_winner_share_basis_points'', PInt (bp_minimum_share P))]"

definition strategy_confidence_dict :: "strategy_confidence \<Rightarrow> pydict" where
  "strategy_confidence_dict a = [(''strategy'', PStr (sf_strategy a)), (''first_place_count'', PInt (sf_first_place_count a)),
     (''first_place_share_basis_points'', PInt (sf_first_place_share a)), (''rank_sum'', PInt (sf_rank_sum a)),
     (''average_rank_millis'', PInt (sf_average_rank_millis a)), (''median_elapsed_ms'', PInt (sf_median_elapsed_ms a)),
     (''elapsed_mad_ms'', PInt (sf_elapsed_mad_ms a))]"

definition confidence_dict :: "confidence_report \<Rightarrow> pydict" where
  "confidence_dict r = [(''schema_version'', PInt 1), (''status'', PStr (bf_status r)), (''benchmark'', PStr (bf_benchmark r)),
     (''case'', PStr (bf_case r)), (''run_ids'', pstrs (bf_run_ids r)), (''passed_run_count'', PInt (bf_passed_run_count r)),
     (''consensus_winners'', pstrs (bf_consensus_winners r)), (''winner_share_basis_points'', PInt (bf_winner_share r)),
     (''policy'', PDict (confidence_policy_dict (bf_policy r))),
     (''strategies'', PList (map (\<lambda>a. PDict (strategy_confidence_dict a)) (bf_strategies r))), (''reason'', PStr (bf_reason r))]"

definition write_confidence :: "json_io \<Rightarrow> string \<Rightarrow> confidence_report \<Rightarrow> directory \<Rightarrow> directory" where
  "write_confidence IO target r files = dset target (jc_dumps (ji_codec IO) (PDict (confidence_dict r)) @ [CHR 0x0A]) files"

definition confidence_policy_from :: "pydict \<Rightarrow> py_exc + confidence_policy" where
  "confidence_policy_from d =
     (if \<not> only_keys [''history_window'', ''minimum_runs'', ''minimum_winner_share_basis_points''] d then Inl (malformed ''policy'')
      else mk_confidence_policy (dget_or (PInt 7) d ''history_window'') (dget_or (PInt 3) d ''minimum_runs'')
        (dget_or (PInt 6700) d ''minimum_winner_share_basis_points''))"

text \<open>\<open>StrategyConfidence(**dict(item))\<close> on fields of the declared types.\<close>

definition strategy_confidence_from :: "pyval \<Rightarrow> strategy_confidence option" where
  "strategy_confidence_from v = Option.bind (as_dict v) (\<lambda>d.
     if \<not> only_keys [''strategy'', ''first_place_count'', ''first_place_share_basis_points'', ''rank_sum'', ''average_rank_millis'',
       ''median_elapsed_ms'', ''elapsed_mad_ms''] d then None
     else Option.bind (req_arg d ''strategy'' as_str) (\<lambda>name.
       Option.bind (req_arg d ''first_place_count'' plain_int) (\<lambda>first.
       Option.bind (req_arg d ''first_place_share_basis_points'' plain_int) (\<lambda>share.
       Option.bind (req_arg d ''rank_sum'' plain_int) (\<lambda>rank_sum.
       Option.bind (req_arg d ''average_rank_millis'' plain_int) (\<lambda>average.
       Option.bind (req_arg d ''median_elapsed_ms'' plain_int) (\<lambda>m.
       Option.bind (req_arg d ''elapsed_mad_ms'' plain_int) (\<lambda>spread.
         Some \<lparr>sf_strategy = name, sf_first_place_count = first, sf_first_place_share = share, sf_rank_sum = rank_sum,
           sf_average_rank_millis = average, sf_median_elapsed_ms = m, sf_elapsed_mad_ms = spread\<rparr>))))))))"

definition check_confidence :: "confidence_report \<Rightarrow> py_exc + unit" where
  "check_confidence r = (let names = map sf_strategy (bf_strategies r) in
     if bf_status r \<notin> {''insufficient_history'', ''low_confidence'', ''confident''}
       then Inl (ValueError ''unsupported benchmark confidence status'')
     else if strip (bf_benchmark r) = [] \<or> strip (bf_case r) = []
       then Inl (ValueError ''benchmark confidence identity fields are required'')
     else if names = [] \<or> \<not> distinct names then Inl (ValueError ''benchmark confidence strategies must be unique'')
     else if \<not> set (bf_consensus_winners r) \<subseteq> set names then Inl (ValueError ''benchmark confidence winners are invalid'')
     else if bf_passed_run_count r < 0 \<or> bf_passed_run_count r > int (length (bf_run_ids r))
       then Inl (ValueError ''benchmark confidence passed count is invalid'')
     else Inr ())"

definition confidence_from :: "pydict \<Rightarrow> py_exc + confidence_report" where
  "confidence_from d =
     (if \<not> eq_num (dget_or PNone d ''schema_version'') 1 then Inl (ValueError ''unsupported benchmark confidence schema version'')
      else
      exc_bind (field_exc d ''policy'' as_dict) (\<lambda>policy. exc_bind (confidence_policy_from policy) (\<lambda>policy.
      exc_bind (field_exc d ''strategies'' (\<lambda>v. Option.bind (as_list v) (map_all strategy_confidence_from))) (\<lambda>strategies.
      exc_bind (field_exc d ''status'' as_str) (\<lambda>status.
      exc_bind (field_exc d ''benchmark'' as_str) (\<lambda>benchmark.
      exc_bind (field_exc d ''case'' as_str) (\<lambda>case_name.
      exc_bind (field_exc d ''run_ids'' as_strs) (\<lambda>run_ids.
      exc_bind (field_exc d ''passed_run_count'' Some) (\<lambda>passed. exc_bind (py_int passed) (\<lambda>passed.
      exc_bind (field_exc d ''consensus_winners'' as_strs) (\<lambda>consensus.
      exc_bind (field_exc d ''winner_share_basis_points'' Some) (\<lambda>share. exc_bind (py_int share) (\<lambda>share.
      exc_bind (field_exc d ''reason'' as_str) (\<lambda>reason.
      let r = \<lparr>bf_status = status, bf_benchmark = benchmark, bf_case = case_name, bf_run_ids = run_ids,
        bf_passed_run_count = passed, bf_consensus_winners = consensus, bf_winner_share = share, bf_policy = policy,
        bf_strategies = strategies, bf_reason = reason\<rparr>
      in exc_bind (check_confidence r) (\<lambda>_. Inr r)))))))))))))))"

text \<open>The body of \<open>tools/benchmark_confidence.py\<close> after the arguments are parsed; a benchmark that was run is an
  argument.\<close>

definition benchmark_confidence ::
  "json_io \<Rightarrow> (pyval \<Rightarrow> string) \<Rightarrow> (8 word list \<Rightarrow> 8 word list) \<Rightarrow> confidence_policy
   \<Rightarrow> (benchmark_report \<times> string \<times> pyfloat) option \<Rightarrow> string \<Rightarrow> directory \<Rightarrow> (py_exc + int) \<times> directory"
where
  "benchmark_confidence IO dumps sha256 P run target files =
     (case (case run of None \<Rightarrow> Inr files
          | Some (r, i, t) \<Rightarrow> exc_bind (record_benchmark IO dumps sha256 r i t files) (\<lambda>x. Inr (snd x))) of
        Inl e \<Rightarrow> (Inl e, files)
      | Inr files1 \<Rightarrow> (case exc_bind (list_runs IO (PInt (int (bp_history_window P))) files1) (analyze_runs P) of
            Inl e \<Rightarrow> (Inl e, files1)
          | Inr report \<Rightarrow> (Inr (case run of None \<Rightarrow> 0 | Some (r, _) \<Rightarrow> if benchmark_passed r then 0 else 1),
              write_confidence IO target report files1)))"

end
