(* ===== verification/Cross_Case.thy ===== *)
theory Cross_Case
  imports Benchmark_History
begin

text \<open>
  Profiles of strategy roles over independent benchmark cases (\<open>loop_engine/benchmarks/cross_case_models.py\<close>,
  \<open>loop_engine/benchmarks/cross_case.py\<close>): the policy maps the strategies of every case to roles, the confidence
  reports of the cases are read from their files, and the roles are ranked by their places. The body of
  \<open>tools/cross_case_profile.py\<close> puts these together.
\<close>

section \<open>Policy\<close>

record cross_policy =
  xp_role_mappings :: "(string \<times> (string \<times> string) list) list"
  xp_minimum_cases :: int
  xp_minimum_share :: int

text \<open>\<open>{strategy.strip(): role.strip() for ...}\<close>.\<close>

definition stripped_mapping :: "(string \<times> string) list \<Rightarrow> (string \<times> string) list" where
  "stripped_mapping mapping = fold (\<lambda>(strategy, role). dset (strip strategy) (strip role)) mapping []"

definition mapping_invalid :: "string \<Rightarrow> (string \<times> string) list \<Rightarrow> bool" where
  "mapping_invalid case_name values' \<longleftrightarrow> case_name = [] \<or> values' = [] \<or> [] \<in> set (dkeys values') \<or>
     [] \<in> set (map snd values') \<or> \<not> distinct (map snd values')"

fun normalize_mappings ::
  "(string \<times> (string \<times> string) list) list \<Rightarrow> (string \<times> (string \<times> string) list) list
   \<Rightarrow> py_exc + (string \<times> (string \<times> string) list) list"
where
  "normalize_mappings [] acc = Inr acc"
| "normalize_mappings ((case_name, mapping) # rest) acc =
     (if mapping_invalid (strip case_name) (stripped_mapping mapping)
        then Inl (ValueError ''cross-case role mapping is invalid'')
      else normalize_mappings rest (dset (strip case_name) (stripped_mapping mapping) acc))"

definition mk_cross_policy ::
  "(string \<times> (string \<times> string) list) list \<Rightarrow> pyval \<Rightarrow> pyval \<Rightarrow> py_exc + cross_policy" where
  "mk_cross_policy mappings minimum share =
     (case plain_int minimum of
        None \<Rightarrow> Inl (ValueError ''cross-case minimum cases must be between 2 and 100'')
      | Some m \<Rightarrow>
          if m < 2 \<or> m > 100 then Inl (ValueError ''cross-case minimum cases must be between 2 and 100'')
          else case plain_int share of
            None \<Rightarrow> Inl (ValueError ''cross-case winner share must be between 5001 and 10000'')
          | Some x \<Rightarrow>
              if x \<le> 5000 \<or> x > 10000 then Inl (ValueError ''cross-case winner share must be between 5001 and 10000'')
              else exc_bind (normalize_mappings mappings []) (\<lambda>normalized.
                if int (length normalized) < m then Inl (ValueError ''cross-case mappings do not meet minimum cases'')
                else Inr \<lparr>xp_role_mappings = normalized, xp_minimum_cases = m, xp_minimum_share = x\<rparr>))"

section \<open>Profiles\<close>

record case_result =
  xc_case :: string
  xc_source_status :: string
  xc_winning_roles :: "string list"
  xc_role_order :: "string list"

record role_profile =
  xr_role :: string
  xr_case_wins :: int
  xr_win_share :: int
  xr_ordinal_sum :: int
  xr_average_ordinal_millis :: int

record cross_report =
  xf_status :: string
  xf_cases :: "case_result list"
  xf_profiles :: "role_profile list"
  xf_consensus_roles :: "string list"
  xf_winner_share :: int
  xf_policy :: cross_policy
  xf_reason :: string

text \<open>\<open>mapping[strategy]\<close>.\<close>

definition role_of :: "(string \<times> string) list \<Rightarrow> string \<Rightarrow> py_exc + string" where
  "role_of mapping strategy = (case dget mapping strategy of
      None \<Rightarrow> Inl (PyExc ''KeyError'' (repr_str strategy)) | Some role \<Rightarrow> Inr role)"

definition case_result_of :: "cross_policy \<Rightarrow> confidence_report \<Rightarrow> py_exc + case_result" where
  "case_result_of P r = (case dget (xp_role_mappings P) (bf_case r) of
      None \<Rightarrow> Inl (PyExc ''KeyError'' (repr_str (bf_case r)))
    | Some mapping \<Rightarrow> let strategies = map sf_strategy (bf_strategies r) in
        if set strategies \<noteq> set (dkeys mapping) then Inl (ValueError (''cross-case strategy mapping mismatch:'' @ bf_case r))
        else exc_bind (map_exc (role_of mapping) (bf_consensus_winners r)) (\<lambda>winning.
          exc_bind (map_exc (role_of mapping) strategies) (\<lambda>order.
          Inr \<lparr>xc_case = bf_case r, xc_source_status = bf_status r, xc_winning_roles = sort winning, xc_role_order = order\<rparr>)))"

text \<open>\<open>role_order.index(role)\<close>.\<close>

fun index_of :: "string \<Rightarrow> string list \<Rightarrow> py_exc + nat" where
  "index_of x [] = Inl (ValueError ''tuple.index(x): x not in tuple'')"
| "index_of x (y # ys) = (if x = y then Inr 0 else exc_bind (index_of x ys) (\<lambda>i. Inr (Suc i)))"

definition role_profile_of :: "case_result list \<Rightarrow> string \<Rightarrow> py_exc + role_profile" where
  "role_profile_of cases role = exc_bind (map_exc (\<lambda>c. index_of role (xc_role_order c)) cases) (\<lambda>positions.
     let ordinals = map (\<lambda>i. int i + 1) positions;
         wins = int (length (filter (\<lambda>c. role \<in> set (xc_winning_roles c) \<and> length (xc_winning_roles c) = 1) cases))
     in Inr \<lparr>xr_role = role, xr_case_wins = wins, xr_win_share = scaled_mean 10000 wins (length cases),
          xr_ordinal_sum = sum_list ordinals, xr_average_ordinal_millis = scaled_mean 1000 (sum_list ordinals) (length ordinals)\<rparr>)"

definition profile_status :: "cross_policy \<Rightarrow> case_result list \<Rightarrow> string list \<Rightarrow> int \<Rightarrow> string \<times> string" where
  "profile_status P cases consensus winner_share =
     (if list_ex (\<lambda>c. xc_source_status c \<noteq> ''confident'') cases
        then (''low_confidence'', ''one or more source cases are not confident'')
      else if length consensus \<noteq> 1 then (''low_confidence'', ''cross-case role consensus is tied'')
      else if winner_share < xp_minimum_share P then (''low_confidence'', ''role case-win share is below policy'')
      else (''confident'', ''unique role consensus meets cross-case policy''))"

definition profile_over :: "cross_policy \<Rightarrow> case_result list \<Rightarrow> role_profile list \<Rightarrow> cross_report" where
  "profile_over P cases profiles =
     (let lowest = Min (set (map xr_ordinal_sum profiles));
          consensus = map xr_role (filter (\<lambda>p. xr_ordinal_sum p = lowest) profiles);
          top_share = Max (set (map xr_win_share (filter (\<lambda>p. xr_role p \<in> set consensus) profiles)));
          (status, reason) = profile_status P cases consensus top_share
      in \<lparr>xf_status = status, xf_cases = cases,
        xf_profiles = sort_key (\<lambda>p. (xr_ordinal_sum p, - xr_case_wins p, xr_role p)) profiles,
        xf_consensus_roles = consensus, xf_winner_share = top_share, xf_policy = P, xf_reason = reason\<rparr>)"

definition report_for :: "confidence_report list \<Rightarrow> string \<Rightarrow> py_exc + confidence_report" where
  "report_for reports case_name = (case find (\<lambda>r. bf_case r = case_name) reports of
      None \<Rightarrow> Inl (PyExc ''StopIteration'' []) | Some r \<Rightarrow> Inr r)"

definition analyze_cases :: "cross_policy \<Rightarrow> confidence_report list \<Rightarrow> py_exc + cross_report" where
  "analyze_cases P reports =
     (let names = sort (map bf_case reports) in
      if int (length reports) < xp_minimum_cases P then Inl (ValueError ''cross-case profile has insufficient cases'')
      else if \<not> distinct names then Inl (ValueError ''cross-case confidence cases must be unique'')
      else if set names \<noteq> set (dkeys (xp_role_mappings P)) then Inl (ValueError ''cross-case reports do not match role mappings'')
      else exc_bind (map_exc (\<lambda>name. exc_bind (report_for reports name) (case_result_of P)) names) (\<lambda>cases.
        let roles = sort (xc_role_order (hd cases)) in
        if list_ex (\<lambda>c. sort (xc_role_order c) \<noteq> roles) cases
          then Inl (ValueError ''cross-case cases must expose the same roles'')
        else exc_bind (map_exc (role_profile_of cases) roles) (\<lambda>profiles. Inr (profile_over P cases profiles))))"

section \<open>Files\<close>

definition case_result_dict :: "case_result \<Rightarrow> pydict" where
  "case_result_dict c = [(''case'', PStr (xc_case c)), (''source_status'', PStr (xc_source_status c)),
     (''winning_roles'', pstrs (xc_winning_roles c)), (''role_order'', pstrs (xc_role_order c))]"

definition role_profile_dict :: "role_profile \<Rightarrow> pydict" where
  "role_profile_dict p = [(''role'', PStr (xr_role p)), (''case_wins'', PInt (xr_case_wins p)),
     (''win_share_basis_points'', PInt (xr_win_share p)), (''ordinal_sum'', PInt (xr_ordinal_sum p)),
     (''average_ordinal_millis'', PInt (xr_average_ordinal_millis p))]"

definition cross_dict :: "cross_report \<Rightarrow> pydict" where
  "cross_dict r = [(''schema_version'', PInt 1), (''status'', PStr (xf_status r)),
     (''cases'', PList (map (\<lambda>c. PDict (case_result_dict c)) (xf_cases r))),
     (''profiles'', PList (map (\<lambda>p. PDict (role_profile_dict p)) (xf_profiles r))),
     (''consensus_roles'', pstrs (xf_consensus_roles r)), (''winner_share_basis_points'', PInt (xf_winner_share r)),
     (''policy'', PDict [(''minimum_cases'', PInt (xp_minimum_cases (xf_policy r))),
        (''minimum_winner_share_basis_points'', PInt (xp_minimum_share (xf_policy r))),
        (''role_mappings'', PDict (map (\<lambda>(name, mapping). (name, PDict (map (\<lambda>(k, v). (k, PStr v)) mapping)))
           (xp_role_mappings (xf_policy r))))]),
     (''reason'', PStr (xf_reason r))]"

definition load_confidence :: "json_io \<Rightarrow> string \<Rightarrow> directory \<Rightarrow> py_exc + confidence_report" where
  "load_confidence IO path files = (case dget files path of
      None \<Rightarrow> Inl (PyExc ''FileNotFoundError'' path)
    | Some s \<Rightarrow> exc_bind (json_loads IO s) (\<lambda>v. case as_dict v of
        None \<Rightarrow> Inl (malformed ''confidence report'') | Some d \<Rightarrow> confidence_from d))"

definition write_cross_case :: "json_io \<Rightarrow> string \<Rightarrow> cross_report \<Rightarrow> directory \<Rightarrow> directory" where
  "write_cross_case IO target r files = dset target (jc_dumps (ji_codec IO) (PDict (cross_dict r)) @ [CHR 0x0A]) files"

text \<open>The body of \<open>tools/cross_case_profile.py\<close> after the arguments are parsed, with the mapping of the repository's own
  benchmark cases.\<close>

definition repository_mappings :: "(string \<times> (string \<times> string) list) list" where
  "repository_mappings =
     [(''python-project-change'', [(''monolithic'', ''monolithic''), (''sequential_staged'', ''sequential''),
        (''parallel_staged'', ''parallel'')]),
      (''python-project-audit'', [(''monolithic'', ''monolithic''), (''sequential_evidence'', ''sequential''),
        (''parallel_evidence'', ''parallel'')]),
      (''resource-contention-recovery'', [(''monolithic'', ''monolithic''), (''sequential_recovery'', ''sequential''),
        (''parallel_recovery'', ''parallel'')]),
      (''retryable-idempotent-side-effect'', [(''monolithic'', ''monolithic''), (''sequential_retry'', ''sequential''),
        (''parallel_retry'', ''parallel'')])]"

definition cross_case_profile ::
  "json_io \<Rightarrow> string \<times> string \<times> string \<times> string \<Rightarrow> int \<Rightarrow> string \<Rightarrow> directory \<Rightarrow> (py_exc + int) \<times> directory" where
  "cross_case_profile IO paths share target files = (let (change, audit, recovery, retry) = paths in
     case exc_bind (map_exc (\<lambda>path. load_confidence IO path files) [change, audit, recovery, retry]) (\<lambda>reports.
        exc_bind (mk_cross_policy repository_mappings (PInt 4) (PInt share)) (\<lambda>P. analyze_cases P reports)) of
       Inl e \<Rightarrow> (Inl e, files)
     | Inr r \<Rightarrow> (Inr (if xf_status r = ''confident'' then 0 else 1), write_cross_case IO target r files))"

end
