(* ===== verification/Benchmark_Properties.thy ===== *)
theory Benchmark_Properties
  imports Cross_Case
begin

text \<open>
  What the confidence over a history of benchmark runs means: when runs can be compared, who wins over a window, and
  that a confident winner really won most of the runs; and that histories and confidence reports are read as they
  were written.
\<close>

section \<open>The aggregates of a window\<close>

definition result_in :: "string \<Rightarrow> history_entry \<Rightarrow> strategy_snapshot" where
  "result_in name e = the (find (\<lambda>s. bk_strategy s = name) (bh_strategies e))"

text \<open>The rank sum; a run without a rank counts as one place behind the last.\<close>

definition score :: "history_entry list \<Rightarrow> nat \<Rightarrow> string \<Rightarrow> int" where
  "score entries n name = sum_list (map (\<lambda>e. rank_or (int n + 1) (result_in name e)) entries)"

definition comparable :: "history_entry list \<Rightarrow> bool" where
  "comparable entries \<longleftrightarrow> distinct (map bh_run_id entries) \<and>
     (\<forall>e\<in>set entries. comparison_identity e = comparison_identity (hd entries))"

lemma check_history_iff: "entries \<noteq> [] \<Longrightarrow> check_history entries = Inr () \<longleftrightarrow> comparable entries"
  by (cases entries) (auto simp: check_history_def comparable_def list_ex_iff)

lemma check_history_Inr: "check_history entries = Inr u \<longleftrightarrow> check_history entries = Inr ()"
  by (cases u) simp

lemma strategy_in_named:
  assumes "name \<in> set (map bk_strategy (bh_strategies e))"
  shows "strategy_in name e = Inr (result_in name e)"
proof -
  from assms have "find (\<lambda>s. bk_strategy s = name) (bh_strategies e) \<noteq> None" by (auto simp: find_None_iff)
  then show ?thesis by (auto simp: strategy_in_def result_in_def)
qed

definition aggregate :: "history_entry list \<Rightarrow> nat \<Rightarrow> string \<Rightarrow> strategy_confidence" where
  "aggregate entries n name = (let elapsed = map (\<lambda>e. bk_elapsed_ms (result_in name e)) entries; m = int_median elapsed in
     \<lparr>sf_strategy = name, sf_first_place_count = first_places name entries,
      sf_first_place_share = scaled_mean 10000 (first_places name entries) (length entries), sf_rank_sum = score entries n name,
      sf_average_rank_millis = scaled_mean 1000 (score entries n name) (length entries),
      sf_median_elapsed_ms = m, sf_elapsed_mad_ms = int_median (map (\<lambda>v. \<bar>v - m\<bar>) elapsed)\<rparr>)"

lemma aggregate_fields [simp]:
  "sf_strategy (aggregate entries n name) = name" "sf_rank_sum (aggregate entries n name) = score entries n name"
  "sf_first_place_share (aggregate entries n name) = scaled_mean 10000 (first_places name entries) (length entries)"
  by (simp_all add: aggregate_def Let_def)

lemma confidence_of_comparable:
  assumes "comparable entries" "name \<in> set (map bk_strategy (bh_strategies (hd entries)))"
  shows "confidence_of entries n name = Inr (aggregate entries n name)"
proof -
  have "name \<in> set (map bk_strategy (bh_strategies e))" if "e \<in> set entries" for e
    using assms that by (auto simp: comparable_def comparison_identity_def)
  then have "map_exc (strategy_in name) entries = Inr (map (result_in name) entries)"
  proof (induction entries)
    case (Cons e es)
    then show ?case by (simp add: strategy_in_named)
  qed simp
  then show ?thesis
    by (simp add: confidence_of_def aggregate_def score_def Let_def comp_def)
qed

lemma aggregates_comparable:
  assumes "comparable entries" "set names \<subseteq> set (map bk_strategy (bh_strategies (hd entries)))"
  shows "map_exc (confidence_of entries n) names = Inr (map (aggregate entries n) names)"
  using assms(2) confidence_of_comparable [OF assms(1)] by (induction names) simp_all

text \<open>When an analysis returns, and what it returns.\<close>

lemma analyze_runs_window:
  fixes P :: confidence_policy
  assumes "entries \<noteq> []"
  defines "w \<equiv> take (bp_history_window P) (sort_down run_key entries)"
  assumes "w \<noteq> []"
  shows "comparable w \<Longrightarrow> analyze_runs P entries = (let names = map bk_strategy (bh_strategies (hd w)) in
      Inr (confidence_over P w (map (aggregate w (length names)) names)))"
    and "\<not> comparable w \<Longrightarrow> \<exists>e. analyze_runs P entries = Inl e"
proof -
  show "analyze_runs P entries = (let names = map bk_strategy (bh_strategies (hd w)) in
      Inr (confidence_over P w (map (aggregate w (length names)) names)))" if comp: "comparable w"
  proof -
    have "check_history w = Inr ()" using comp assms(3) check_history_iff by blast
    with assms(1) aggregates_comparable [OF comp] show ?thesis
      by (simp add: analyze_runs_def w_def [symmetric] Let_def)
  qed
  show "\<exists>e. analyze_runs P entries = Inl e" if no: "\<not> comparable w"
  proof -
    obtain e where "check_history w = Inl e"
      using no assms(3) check_history_iff [of w] by (cases "check_history w") auto
    with assms(1) show ?thesis by (simp add: analyze_runs_def w_def [symmetric] Let_def)
  qed
qed

section \<open>The winner\<close>

lemma consensus_of:
  "map sf_strategy (filter (\<lambda>a. sf_rank_sum a = Min (set (map sf_rank_sum (map (aggregate w n) names)))) (map (aggregate w n) names)) =
   filter (\<lambda>s. score w n s = Min (score w n ` set names)) names"
  by (simp add: filter_map comp_def)

lemma argmin:
  fixes f :: "'a \<Rightarrow> int"
  assumes "finite A" "A \<noteq> {}"
  shows "{s \<in> A. f s = Min (f ` A)} = {s \<in> A. \<forall>t\<in>A. f s \<le> f t}"
proof -
  have "f s = Min (f ` A) \<longleftrightarrow> (\<forall>t\<in>A. f s \<le> f t)" if "s \<in> A" for s
  proof -
    have "Min (f ` A) \<le> f s" using assms(1) that by simp
    then have "f s = Min (f ` A) \<longleftrightarrow> f s \<le> Min (f ` A)" by auto
    then show ?thesis using assms by (simp add: Min_ge_iff)
  qed
  then show ?thesis by blast
qed

lemma py_round_upper: "of_int (py_round x) \<le> x + 1 / 2"
  using of_int_floor_le [of x] by (auto simp: py_round_def Let_def split: if_splits) linarith+

lemma share_majority:
  assumes "0 < n" "5000 < scaled_mean 10000 first n"
  shows "int n < 2 * first"
proof -
  have "(5001 :: rat) \<le> of_int (scaled_mean 10000 first n)" using assms(2) by simp
  also have "\<dots> \<le> of_int (first * 10000) / of_nat n + 1 / 2" unfolding scaled_mean_def by (rule py_round_upper)
  finally have "5000 * (of_nat n :: rat) < of_int (first * 10000)" using assms(1) by (simp add: field_simps)
  then have "of_int (5000 * int n) < (of_int (first * 10000) :: rat)" by simp
  then have "5000 * int n < first * 10000" by (simp only: of_int_less_iff)
  then show ?thesis by simp
qed

lemma first_places_exclusive:
  assumes "s \<noteq> t"
  shows "first_places s w + first_places t w \<le> int (length w)"
proof -
  let ?f = "\<lambda>name e. name \<in> set (bh_winners e) \<and> length (bh_winners e) = 1"
  have "length (filter (?f s) w) + length (filter (?f t) w) \<le> length w"
  proof (induction w)
    case (Cons e w)
    have "\<not> (?f s e \<and> ?f t e)" using assms by (auto simp: length_Suc_conv)
    with Cons show ?case by auto
  qed simp
  then show ?thesis by (simp add: first_places_def)
qed

lemma confidence_status_confident:
  "fst (confidence_status P n passed consensus best_share) = ''confident'' \<longleftrightarrow>
   bp_minimum_runs P \<le> n \<and> passed = n \<and> length consensus = 1 \<and> bp_minimum_share P \<le> best_share"
  by (auto simp: confidence_status_def)

lemma confidence_policy_bounds:
  assumes "mk_confidence_policy a b c = Inr P"
  shows "0 < bp_history_window P" "bp_history_window P \<le> 100" "0 < bp_minimum_runs P" "bp_minimum_runs P \<le> bp_history_window P"
    "5000 < bp_minimum_share P" "bp_minimum_share P \<le> 10000"
  using assms by (auto simp: mk_confidence_policy_def split: option.splits if_splits)

lemma confidence_over_facts:
  fixes P :: confidence_policy and w :: "history_entry list" and n :: nat
  assumes "names \<noteq> []" "distinct names"
  defines "R \<equiv> confidence_over P w (map (aggregate w n) names)"
  shows "set (bf_consensus_winners R) = {s \<in> set names. \<forall>t\<in>set names. score w n s \<le> score w n t}"
    and "distinct (bf_consensus_winners R)"
    and "bf_consensus_winners R = [s] \<Longrightarrow> bf_winner_share R = scaled_mean 10000 (first_places s w) (length w)"
    and "bf_status R = ''confident'' \<longleftrightarrow> bp_minimum_runs P \<le> length w \<and> (\<forall>e\<in>set w. bh_passed e) \<and>
      length (bf_consensus_winners R) = 1 \<and> bp_minimum_share P \<le> bf_winner_share R"
    and "bf_run_ids R = map bh_run_id w" and "set (map sf_strategy (bf_strategies R)) = set names"
proof -
  let ?A = "map (aggregate w n) names"
  have cons: "bf_consensus_winners R = filter (\<lambda>s. score w n s = Min (score w n ` set names)) names"
    unfolding R_def consensus_of [symmetric] by (simp add: confidence_over_def Let_def case_prod_beta)
  show "set (bf_consensus_winners R) = {s \<in> set names. \<forall>t\<in>set names. score w n s \<le> score w n t}"
    unfolding cons set_filter using assms(1) by (intro argmin) simp_all
  show "distinct (bf_consensus_winners R)" using assms(2) by (simp add: cons)
  show "bf_winner_share R = scaled_mean 10000 (first_places s w) (length w)" if "bf_consensus_winners R = [s]"
  proof -
    have s: "s \<in> set names" using that cons by (metis filter_is_subset list.set_intros(1) subsetD)
    have "bf_winner_share R = Max (set (map sf_first_place_share (filter (\<lambda>a. sf_strategy a \<in> set (bf_consensus_winners R)) ?A)))"
      unfolding R_def by (simp add: confidence_over_def Let_def case_prod_beta)
    also have "set (map sf_first_place_share (filter (\<lambda>a. sf_strategy a \<in> set (bf_consensus_winners R)) ?A)) =
        {scaled_mean 10000 (first_places s w) (length w)}"
      using s by (force simp: that)
    finally show ?thesis by simp
  qed
  have "bf_status R = fst (confidence_status P (length w) (length (filter bh_passed w)) (bf_consensus_winners R) (bf_winner_share R))"
    unfolding R_def by (simp add: confidence_over_def Let_def case_prod_beta)
  moreover have "length (filter bh_passed w) = length w \<longleftrightarrow> (\<forall>e\<in>set w. bh_passed e)"
    by (metis filter_True length_filter_less less_irrefl)
  ultimately show "bf_status R = ''confident'' \<longleftrightarrow> bp_minimum_runs P \<le> length w \<and> (\<forall>e\<in>set w. bh_passed e) \<and>
      length (bf_consensus_winners R) = 1 \<and> bp_minimum_share P \<le> bf_winner_share R"
    by (simp add: confidence_status_confident)
  show "bf_run_ids R = map bh_run_id w" "set (map sf_strategy (bf_strategies R)) = set names"
    unfolding R_def by (simp_all add: confidence_over_def Let_def case_prod_beta image_image)
qed

section \<open>Properties\<close>

text \<open>
  C38: the confidence over the newest runs of a history. The analysis returns exactly when there is a run and
  the runs of the window have different ids and the same benchmark, case, policy and strategies. The consensus are
  the strategies of least rank sum, where a run without a rank counts as one place behind the last; the status is
  confident exactly when there are enough runs, all passed, the consensus is unique and its share of first places
  reaches the policy. A confident winner came first alone in more than half of the runs, every other one in less.
\<close>

theorem confidence_exact:
  fixes P :: confidence_policy
  assumes "\<forall>e\<in>set es. run_ok e" "mk_confidence_policy a b c = Inr P"
  defines "w \<equiv> take (bp_history_window P) (sort_down run_key es)"
  defines "names \<equiv> map bk_strategy (bh_strategies (hd w))"
  shows "case analyze_runs P es of
      Inl e \<Rightarrow> es = [] \<or> \<not> comparable w
    | Inr R \<Rightarrow> es \<noteq> [] \<and> comparable w \<and> bf_run_ids R = map bh_run_id w \<and>
        set (bf_consensus_winners R) = {s \<in> set names. \<forall>t\<in>set names. score w (length names) s \<le> score w (length names) t} \<and>
        (bf_status R = ''confident'' \<longleftrightarrow> bp_minimum_runs P \<le> length w \<and> (\<forall>e\<in>set w. bh_passed e) \<and>
           (\<exists>s. bf_consensus_winners R = [s] \<and> bp_minimum_share P \<le> scaled_mean 10000 (first_places s w) (length w))) \<and>
        (bf_status R = ''confident'' \<longrightarrow> (\<exists>s. bf_consensus_winners R = [s] \<and> int (length w) < 2 * first_places s w \<and>
           (\<forall>t. t \<noteq> s \<longrightarrow> 2 * first_places t w < int (length w))))"
proof (cases "es = []")
  case True
  then show ?thesis by (simp add: analyze_runs_def)
next
  case False
  note P = confidence_policy_bounds [OF assms(2)]
  have w: "w \<noteq> []" using False P(1) set_sort_down(2) [of run_key es] by (auto simp: w_def simp del: set_sort_down)
  have "hd w \<in> set es" using hd_in_set [OF w] set_sort_down(1) [of run_key es] by (auto simp: w_def dest: in_set_takeD simp del: set_sort_down)
  then have names: "names \<noteq> []" "distinct names" using assms(1) run_ok_facts by (auto simp: names_def)
  note run = analyze_runs_window [OF False w [unfolded w_def], folded w_def]
  show ?thesis
  proof (cases "comparable w")
    case False
    with run(2) show ?thesis by auto
  next
    case True
    let ?R = "confidence_over P w (map (aggregate w (length names)) names)"
    note facts = confidence_over_facts [OF names, of P w "length names"]
    have R: "analyze_runs P es = Inr ?R" using run(1) True by (simp add: names_def Let_def)
    have status: "bf_status ?R = ''confident'' \<longleftrightarrow> bp_minimum_runs P \<le> length w \<and> (\<forall>e\<in>set w. bh_passed e) \<and>
        (\<exists>s. bf_consensus_winners ?R = [s] \<and> bp_minimum_share P \<le> scaled_mean 10000 (first_places s w) (length w))"
      unfolding facts(4) using facts(3) by (auto simp: length_Suc_conv)
    moreover have "\<exists>s. bf_consensus_winners ?R = [s] \<and> int (length w) < 2 * first_places s w \<and>
        (\<forall>t. t \<noteq> s \<longrightarrow> 2 * first_places t w < int (length w))" if "bf_status ?R = ''confident''"
    proof -
      from that status obtain s where s: "bf_consensus_winners ?R = [s]"
        "bp_minimum_share P \<le> scaled_mean 10000 (first_places s w) (length w)" by blast
      then have "int (length w) < 2 * first_places s w" using share_majority [of "length w"] w P(5) by simp
      moreover have "2 * first_places t w < int (length w)" if "t \<noteq> s" for t
        using first_places_exclusive [OF that, of w] calculation by simp
      ultimately show ?thesis using s(1) by blast
    qed
    ultimately show ?thesis using R True \<open>es \<noteq> []\<close> facts(1,5) by simp
  qed
qed

text \<open>Runs of the examples: \<open>a\<close> comes first, before \<open>b\<close>.\<close>

definition won_by_a :: "string \<Rightarrow> rat \<Rightarrow> history_entry" where
  "won_by_a i t = \<lparr>bh_run_id = i, bh_recorded_at = t, bh_benchmark = ''bench'', bh_case = ''case'', bh_passed = True,
     bh_policy_sha256 = replicate 64 CHR ''0'',
     bh_strategies = [\<lparr>bk_strategy = ''a'', bk_rank = Some 1, bk_elapsed_ms = 5\<rparr>,
       \<lparr>bk_strategy = ''b'', bk_rank = Some 2, bk_elapsed_ms = 7\<rparr>], bh_winners = [''a'']\<rparr>"

definition three_wins :: "history_entry list" where
  "three_wins = [won_by_a ''r1'' 1, won_by_a ''r2'' 2, won_by_a ''r3'' 3]"

definition standard_policy :: confidence_policy where
  "standard_policy = \<lparr>bp_history_window = 7, bp_minimum_runs = 3, bp_minimum_share = 6700\<rparr>"

text \<open>A codec that numbers the documents, and reports of two cases for the profiles.\<close>

definition tally_io :: json_io where
  "tally_io = \<lparr>ji_codec = tally_codec, ji_str = (\<lambda>v. []), ji_error = (\<lambda>s. [])\<rparr>"


lemma three_wins_ok: "\<forall>e\<in>set three_wins. run_ok e"
proof -
  have snapshots: "snapshot_ok \<lparr>bk_strategy = ''a'', bk_rank = Some 1, bk_elapsed_ms = 5\<rparr>"
    "snapshot_ok \<lparr>bk_strategy = ''b'', bk_rank = Some 2, bk_elapsed_ms = 7\<rparr>"
    by (simp_all add: snapshot_ok_def strip_fixed py_space_def)
  have "run_ok (won_by_a i t)" if "is_identifier i" for i t
  proof -
    have facts: "strip ''bench'' = ''bench''" "strip ''case'' = ''case''" "is_sha256 (replicate 64 CHR ''0'')" by code_simp+
    show ?thesis
      using snapshots that by (simp add: run_ok_def won_by_a_def mk_history_entry_def first_ranked_def facts)
  qed
  moreover have "is_identifier ''r1''" "is_identifier ''r2''" "is_identifier ''r3''" by code_simp+
  ultimately show ?thesis by (simp add: three_wins_def)
qed

lemma standard_policy_made: "mk_confidence_policy (PInt 7) (PInt 3) (PInt 6700) = Inr standard_policy"
  by (simp add: mk_confidence_policy_def standard_policy_def)

lemma three_wins_confident:
  "case analyze_runs standard_policy three_wins of Inr R \<Rightarrow> bf_status R = ''confident'' | Inl e \<Rightarrow> False"
  by code_simp

theorem confidence_exact_witness:
  "\<exists>R s. analyze_runs standard_policy three_wins = Inr R \<and> bf_status R = ''confident'' \<and> bf_consensus_winners R = [s] \<and>
     3 < 2 * first_places s (take 7 (sort_down run_key three_wins))"
proof -
  obtain R where R: "analyze_runs standard_policy three_wins = Inr R" "bf_status R = ''confident''"
    using three_wins_confident by (cases "analyze_runs standard_policy three_wins") simp_all
  have "length (take (bp_history_window standard_policy) (sort_down run_key three_wins)) = 3"
    by (simp add: standard_policy_def three_wins_def)
  with confidence_exact [OF three_wins_ok standard_policy_made] R show ?thesis
    by (auto simp: standard_policy_def)
qed

lemma confidence_policy_again:
  assumes "mk_confidence_policy a b c = Inr P"
  shows "confidence_policy_from (confidence_policy_dict P) = Inr P"
  using confidence_policy_bounds [OF assms]
  by (simp add: confidence_policy_from_def confidence_policy_dict_def only_keys_def dkeys_def dget_or_def mk_confidence_policy_def)

lemma strategy_confidence_round_trip: "strategy_confidence_from (PDict (strategy_confidence_dict a)) = Some a"
  by (simp add: strategy_confidence_from_def strategy_confidence_dict_def only_keys_def dkeys_def req_arg_def)

lemma confidence_round_trip:
  assumes "check_confidence R = Inr ()" "mk_confidence_policy a b c = Inr (bf_policy R)"
  shows "confidence_from (confidence_dict R) = Inr R"
proof -
  have "map_all strategy_confidence_from (map (\<lambda>a. PDict (strategy_confidence_dict a)) (bf_strategies R)) = Some (bf_strategies R)"
    by (rule map_all_Some) (rule strategy_confidence_round_trip)
  then show ?thesis
    using assms(1) confidence_policy_again [OF assms(2)]
    by (cases R) (simp add: confidence_from_def confidence_dict_def field_exc_def eq_num_def dget_or_def Let_def)
qed

lemma analyzed_checks:
  fixes P :: confidence_policy
  assumes "\<forall>e\<in>set es. run_ok e" "mk_confidence_policy a b c = Inr P" "analyze_runs P es = Inr R"
  shows "check_confidence R = Inr () \<and> bf_policy R = P"
proof -
  let ?w = "take (bp_history_window P) (sort_down run_key es)"
  have es: "es \<noteq> []" using assms(3) by (auto simp: analyze_runs_def)
  have w: "?w \<noteq> []" using es confidence_policy_bounds(1) [OF assms(2)] set_sort_down(2) [of run_key es]
    by (auto simp del: set_sort_down)
  let ?names = "map bk_strategy (bh_strategies (hd ?w))"
  have "hd ?w \<in> set es" using hd_in_set [OF w] set_sort_down(1) [of run_key es] by (auto dest: in_set_takeD simp del: set_sort_down)
  then have ok: "run_ok (hd ?w)" using assms(1) by blast
  then have names: "?names \<noteq> []" "distinct ?names" using run_ok_facts by auto
  have "comparable ?w" using analyze_runs_window(2) [OF es w] assms(3) by auto
  then have R: "R = confidence_over P ?w (map (aggregate ?w (length ?names)) ?names)"
    using analyze_runs_window(1) [OF es w] assms(3) by (simp add: Let_def)
  note facts = confidence_over_facts [OF names, of P ?w "length ?names", folded R]
  have strip: "strip (bf_benchmark R) \<noteq> []" "strip (bf_case R) \<noteq> []"
    using ok by (auto simp: R confidence_over_def Let_def case_prod_beta run_ok_def mk_history_entry_def split: if_splits)
  have strategies: "bf_strategies R = sort_key confidence_key (map (aggregate ?w (length ?names)) ?names)"
    and status: "bf_status R \<in> {''insufficient_history'', ''low_confidence'', ''confident''}"
    and passed: "bf_passed_run_count R = int (length (filter bh_passed ?w))" and policy: "bf_policy R = P"
    by (simp_all add: R confidence_over_def Let_def case_prod_beta confidence_status_def)
  have "distinct (map sf_strategy (bf_strategies R))"
    unfolding strategies distinct_map_sort_key using names(2) by (simp add: comp_def)
  moreover have "set (bf_consensus_winners R) \<subseteq> set (map sf_strategy (bf_strategies R))" using facts(1,6) by auto
  moreover have "map sf_strategy (bf_strategies R) \<noteq> []" using facts(6) names(1) by (metis list.set(1) set_empty)
  moreover have "0 \<le> bf_passed_run_count R" "bf_passed_run_count R \<le> int (length (bf_run_ids R))"
    unfolding passed facts(5) length_map by (simp, simp only: of_nat_le_iff length_filter_le)
  ultimately show ?thesis using strip status policy by (simp add: check_confidence_def Let_def)
qed

text \<open>
  A confidence report is read back from its file as it was written, for every history of valid runs.
\<close>

theorem confidence_survives_file:
  assumes "codec_ok (ji_codec IO)" "\<forall>e\<in>set es. run_ok e" "mk_confidence_policy a b c = Inr P" "analyze_runs P es = Inr R"
  shows "load_confidence IO path (write_confidence IO path R files) = Inr R"
proof -
  have "check_confidence R = Inr ()" "bf_policy R = P" using analyzed_checks [OF assms(2,3,4)] by simp_all
  then have "confidence_from (confidence_dict R) = Inr R" using assms(3) by (intro confidence_round_trip) simp_all
  then show ?thesis
    by (simp add: load_confidence_def write_confidence_def json_loads_def codec_loads_line [OF assms(1)])
qed

theorem confidence_survives_file_witness:
  "\<exists>R. analyze_runs standard_policy three_wins = Inr R \<and> bf_status R = ''confident'' \<and>
     load_confidence tally_io ''c.json'' (write_confidence tally_io ''c.json'' R []) = Inr R"
proof -
  obtain R where R: "analyze_runs standard_policy three_wins = Inr R" "bf_status R = ''confident''"
    using three_wins_confident by (cases "analyze_runs standard_policy three_wins") simp_all
  moreover have "codec_ok (ji_codec tally_io)" by (simp add: tally_io_def tally_codec_ok)
  ultimately show ?thesis using confidence_survives_file [OF _ three_wins_ok standard_policy_made R(1)] by blast
qed

section \<open>Roles over cases\<close>















end
