(* ===== verification/Plugin_Registry.thy ===== *)
theory Plugin_Registry
  imports Release_Gate Task_Models
begin

text \<open>
  The registry of generated capabilities (\<open>PersistentCapabilityRegistry\<close> of \<open>loop_engine/tasks/plugin_acquisition.py\<close>):
  descriptors of generated plugins in one JSON file, which counts a capability as available only while the
  files of its plugin lie inside the artifact root and have the registered hashes. Files of plugins are those of a
  tree; the registry's own file is one of a directory, and replacing it is one step. SHA-256 and the JSON codec are
  arguments. A row of the file whose fields do not have the declared types stands for the exception its first
  use raises.
\<close>

section \<open>Paths and files\<close>

record plugin_site =
  ps_links :: nat
  ps_cwd :: "string list"
  ps_sha256 :: "8 word list \<Rightarrow> 8 word list"
  ps_io :: json_io

abbreviation resolve_at :: "plugin_site \<Rightarrow> file_tree \<Rightarrow> string \<Rightarrow> py_exc + string list" where
  "resolve_at X t s \<equiv> resolve_path (ps_links X) t (ps_cwd X) s"

text \<open>\<open>str(path)\<close> of a resolved path.\<close>

abbreviation full_path :: "string list \<Rightarrow> string" where
  "full_path p \<equiv> path_str (''/'', p)"

text \<open>What \<open>stat\<close> finds, links followed; \<open>exists\<close>, \<open>is_file\<close> and \<open>is_dir\<close> are false on its errors.\<close>

definition stat_entry :: "plugin_site \<Rightarrow> file_tree \<Rightarrow> string list \<Rightarrow> fs_entry option" where
  "stat_entry X t p = (case resolve_parts True (ps_links X) t [] p of Inl e \<Rightarrow> None | Inr q \<Rightarrow> tree_at t q)"

text \<open>\<open>hashlib.sha256(path.read_bytes()).hexdigest()\<close> of a file.\<close>

definition entry_bytes :: "plugin_site \<Rightarrow> file_tree \<Rightarrow> string list \<Rightarrow> 8 word list" where
  "entry_bytes X t p = (case stat_entry X t p of Some (File_Entry b) \<Rightarrow> b | _ \<Rightarrow> [])"

definition entry_digest :: "plugin_site \<Rightarrow> file_tree \<Rightarrow> string list \<Rightarrow> string" where
  "entry_digest X t p = hexdigest (ps_sha256 X (entry_bytes X t p))"

section \<open>Descriptors\<close>

record generated_capability =
  gc_capability :: string
  gc_family :: string
  gc_plugin_id :: string
  gc_plugin_root :: string
  gc_manifest_path :: string
  gc_file_sha256 :: "(string \<times> string) list"

definition required_files :: "string list" where
  "required_files = [''README.md'', ''manifest.json'', ''plugin.py'']"

definition descriptor_inside_root :: "plugin_site \<Rightarrow> file_tree \<Rightarrow> string list \<Rightarrow> generated_capability \<Rightarrow> py_exc + bool" where
  "descriptor_inside_root X t artifact_root d =
     exc_bind (resolve_at X t (gc_plugin_root d)) (\<lambda>base.
     exc_bind (resolve_at X t (gc_manifest_path d)) (\<lambda>manifest.
     Inr (prefix artifact_root base \<and> prefix base manifest)))"

definition descriptor_is_current :: "plugin_site \<Rightarrow> file_tree \<Rightarrow> string list \<Rightarrow> generated_capability \<Rightarrow> py_exc + bool" where
  "descriptor_is_current X t artifact_root d =
     exc_bind (resolve_at X t (gc_plugin_root d)) (\<lambda>base.
     exc_bind (descriptor_inside_root X t artifact_root d) (\<lambda>inside.
       if \<not> inside then Inr False
       else if set (dkeys (gc_file_sha256 d)) \<noteq> set required_files then Inr False
       else if list_ex (\<lambda>(name, expected). \<not> is_file (stat_entry X t (base @ [name])) \<or>
           entry_digest X t (base @ [name]) \<noteq> expected) (gc_file_sha256 d) then Inr False
       else exc_bind (real_path (ps_links X) t [] (base @ [''manifest.json''])) (\<lambda>p.
         exc_bind (resolve_at X t (gc_manifest_path d)) (\<lambda>q. Inr (p = q)))))"

text \<open>Descriptors are equal when their fields are; dictionaries are equal whatever their order.\<close>

definition same_descriptor :: "generated_capability \<Rightarrow> generated_capability \<Rightarrow> bool" where
  "same_descriptor d e \<longleftrightarrow> gc_capability d = gc_capability e \<and> gc_family d = gc_family e \<and>
     gc_plugin_id d = gc_plugin_id e \<and> gc_plugin_root d = gc_plugin_root e \<and> gc_manifest_path d = gc_manifest_path e \<and>
     set (gc_file_sha256 d) = set (gc_file_sha256 e)"

section \<open>The registry\<close>

record capability_registry =
  kr_storage_path :: "string list"
  kr_artifact_root :: "string list"
  kr_built_in :: "string list"
  kr_generated :: "(string \<times> generated_capability) list"

definition current_capabilities :: "plugin_site \<Rightarrow> file_tree \<Rightarrow> capability_registry \<Rightarrow> py_exc + string list" where
  "current_capabilities X t r =
     exc_bind (map_exc (\<lambda>(capability, d). exc_bind (descriptor_is_current X t (kr_artifact_root r) d) (\<lambda>b. Inr (capability, b)))
       (kr_generated r)) (\<lambda>marked. Inr (map fst (filter snd marked)))"

definition resolve_capabilities ::
  "plugin_site \<Rightarrow> file_tree \<Rightarrow> capability_registry \<Rightarrow> task_node \<Rightarrow> py_exc + capability_resolution" where
  "resolve_capabilities X t r n = exc_bind (current_capabilities X t r) (\<lambda>current.
     let known = set (kr_built_in r @ current); required = remdups (nd_required_capabilities n)
     in Inr \<lparr>cr_available = sort (filter (\<lambda>c. c \<in> known) required),
          cr_missing = sort (filter (\<lambda>c. c \<notin> known) required)\<rparr>)"

definition get_capability ::
  "plugin_site \<Rightarrow> file_tree \<Rightarrow> capability_registry \<Rightarrow> string \<Rightarrow> py_exc + generated_capability option" where
  "get_capability X t r capability = (case dget (kr_generated r) capability of
      None \<Rightarrow> Inr None
    | Some d \<Rightarrow> exc_bind (descriptor_is_current X t (kr_artifact_root r) d) (\<lambda>b. Inr (if b then Some d else None)))"

definition descriptor_dict :: "generated_capability \<Rightarrow> pydict" where
  "descriptor_dict d = [(''capability'', PStr (gc_capability d)), (''family'', PStr (gc_family d)),
     (''plugin_id'', PStr (gc_plugin_id d)), (''plugin_root'', PStr (gc_plugin_root d)),
     (''manifest_path'', PStr (gc_manifest_path d)),
     (''file_sha256'', PDict (map (\<lambda>(k, v). (k, PStr v)) (gc_file_sha256 d)))]"

definition capabilities_payload :: "capability_registry \<Rightarrow> pyval" where
  "capabilities_payload r = PDict [(''schema_version'', PInt 1),
     (''generated'', PList (map (\<lambda>(k, d). PDict (descriptor_dict d)) (sort_key fst (kr_generated r))))]"

definition save_capabilities :: "json_codec \<Rightarrow> capability_registry \<Rightarrow> directory \<Rightarrow> directory" where
  "save_capabilities J r files =
     dset (full_path (kr_storage_path r)) (jc_dumps J (capabilities_payload r) @ [CHR 0x0A]) files"

definition as_texts :: "pyval \<Rightarrow> (string \<times> string) list option" where
  "as_texts v = Option.bind (as_dict v) (map_all (\<lambda>(k, x). map_option (Pair k) (as_str x)))"

text \<open>\<open>GeneratedCapability(**row)\<close>.\<close>

definition descriptor_from :: "pyval \<Rightarrow> generated_capability option" where
  "descriptor_from v = (case as_dict v of None \<Rightarrow> None | Some d \<Rightarrow>
     if \<not> only_keys [''capability'', ''family'', ''plugin_id'', ''plugin_root'', ''manifest_path'', ''file_sha256''] d then None
     else Option.bind (req_arg d ''capability'' as_str) (\<lambda>capability. Option.bind (req_arg d ''family'' as_str) (\<lambda>family.
       Option.bind (req_arg d ''plugin_id'' as_str) (\<lambda>plugin_id. Option.bind (req_arg d ''plugin_root'' as_str) (\<lambda>plugin_root.
       Option.bind (req_arg d ''manifest_path'' as_str) (\<lambda>manifest_path.
       Option.bind (req_arg d ''file_sha256'' as_texts) (\<lambda>file_sha256.
       Some \<lparr>gc_capability = capability, gc_family = family, gc_plugin_id = plugin_id, gc_plugin_root = plugin_root,
         gc_manifest_path = manifest_path, gc_file_sha256 = file_sha256\<rparr>)))))))"

fun load_rows ::
  "plugin_site \<Rightarrow> file_tree \<Rightarrow> string list \<Rightarrow> pyval list \<Rightarrow> (string \<times> generated_capability) list
   \<Rightarrow> py_exc + (string \<times> generated_capability) list"
where
  "load_rows X t artifact_root [] loaded = Inr loaded"
| "load_rows X t artifact_root (row # rows) loaded = (case descriptor_from row of
      None \<Rightarrow> Inl (malformed ''descriptor'')
    | Some d \<Rightarrow>
        if gc_capability d \<in> set (dkeys loaded) then Inl (ValueError ''duplicate capability in registry'')
        else exc_bind (descriptor_inside_root X t artifact_root d) (\<lambda>inside.
          if \<not> inside then Inl (ValueError ''capability descriptor escapes artifact_root'')
          else load_rows X t artifact_root rows (loaded @ [(gc_capability d, d)])))"

definition load_capabilities ::
  "plugin_site \<Rightarrow> file_tree \<Rightarrow> capability_registry \<Rightarrow> directory \<Rightarrow> py_exc + capability_registry" where
  "load_capabilities X t r files = (case dget files (full_path (kr_storage_path r)) of
      None \<Rightarrow> Inr r
    | Some s \<Rightarrow> exc_bind (json_loads (ps_io X) s) (\<lambda>v. case as_dict v of
        None \<Rightarrow> Inl (malformed ''capability registry'')
      | Some payload \<Rightarrow>
          if \<not> eq_num (dget_or PNone payload ''schema_version'') 1
            then Inl (ValueError ''unsupported capability registry schema_version'')
          else case dget payload ''generated'' of
            Some (PList rows) \<Rightarrow> exc_bind (load_rows X t (kr_artifact_root r) rows []) (\<lambda>loaded. Inr (r\<lparr>kr_generated := loaded\<rparr>))
          | _ \<Rightarrow> Inl (ValueError ''capability registry generated must be an array'')))"

text \<open>\<open>__init__\<close>.\<close>

definition open_capabilities ::
  "plugin_site \<Rightarrow> file_tree \<Rightarrow> directory \<Rightarrow> string \<Rightarrow> string \<Rightarrow> string list \<Rightarrow> py_exc + capability_registry" where
  "open_capabilities X t files storage_path artifact_root built_in =
     exc_bind (resolve_at X t storage_path) (\<lambda>storage. exc_bind (resolve_at X t artifact_root) (\<lambda>artifacts.
     load_capabilities X t \<lparr>kr_storage_path = storage, kr_artifact_root = artifacts, kr_built_in = remdups built_in,
       kr_generated = []\<rparr> files))"

definition register_capability ::
  "plugin_site \<Rightarrow> file_tree \<Rightarrow> generated_capability \<Rightarrow> capability_registry \<Rightarrow> directory
   \<Rightarrow> py_exc + capability_registry \<times> directory"
where
  "register_capability X t d r files = exc_bind (descriptor_inside_root X t (kr_artifact_root r) d) (\<lambda>inside.
     if \<not> inside then Inl (ValueError ''capability descriptor escapes artifact_root'')
     else if (case dget (kr_generated r) (gc_capability d) of None \<Rightarrow> False | Some e \<Rightarrow> \<not> same_descriptor e d)
       then Inl (ValueError (''capability already registered with another plugin: '' @ gc_capability d))
     else let r' = r\<lparr>kr_generated := dset (gc_capability d) d (kr_generated r)\<rparr>
       in Inr (r', save_capabilities (ji_codec (ps_io X)) r' files))"

section \<open>A registry is the one in its file\<close>

text \<open>Every key is the capability of its descriptor, which lies inside the artifact root.\<close>

definition capabilities_ok :: "plugin_site \<Rightarrow> file_tree \<Rightarrow> capability_registry \<Rightarrow> bool" where
  "capabilities_ok X t r \<longleftrightarrow> wf_dict (kr_generated r) \<and> (\<forall>(k, d)\<in>set (kr_generated r). gc_capability d = k \<and>
     wf_dict (gc_file_sha256 d) \<and> descriptor_inside_root X t (kr_artifact_root r) d = Inr True)"

definition sorted_capabilities :: "capability_registry \<Rightarrow> capability_registry" where
  "sorted_capabilities r = r\<lparr>kr_generated := sort_key fst (kr_generated r)\<rparr>"

lemma as_texts_dict [simp]: "as_texts (PDict (map (\<lambda>(k, v). (k, PStr v)) d)) = Some d"
  by (simp add: as_texts_def map_all_Some case_prod_beta)

lemma descriptor_round_trip [simp]: "descriptor_from (PDict (descriptor_dict d)) = Some d"
  by (simp add: descriptor_from_def descriptor_dict_def only_keys_def dkeys_def req_arg_def)

lemma load_rows_saved:
  assumes "\<forall>(k, d)\<in>set g. gc_capability d = k \<and> descriptor_inside_root X t base d = Inr True"
    "distinct (map fst (loaded @ g))"
  shows "load_rows X t base (map (\<lambda>(k, d). PDict (descriptor_dict d)) g) loaded = Inr (loaded @ g)"
  using assms
proof (induction g arbitrary: loaded)
  case (Cons x g)
  obtain k d where x: "x = (k, d)" by (cases x)
  from Cons.prems have "gc_capability d = k" "descriptor_inside_root X t base d = Inr True" "k \<notin> set (dkeys loaded)"
    by (auto simp: x dkeys_def)
  moreover have "load_rows X t base (map (\<lambda>(k, d). PDict (descriptor_dict d)) g) (loaded @ [(k, d)]) = Inr ((loaded @ [(k, d)]) @ g)"
    by (rule Cons.IH) (use Cons.prems x in auto)
  ultimately show ?case by (simp add: x)
qed simp

lemma load_saved_capabilities:
  assumes "codec_ok (ji_codec (ps_io X))" "capabilities_ok X t r" "kr_storage_path r0 = kr_storage_path r"
    "kr_artifact_root r0 = kr_artifact_root r"
  shows "load_capabilities X t r0 (save_capabilities (ji_codec (ps_io X)) r files) =
    Inr (r0\<lparr>kr_generated := sort_key fst (kr_generated r)\<rparr>)"
proof -
  have "load_rows X t (kr_artifact_root r) (map (\<lambda>(k, d). PDict (descriptor_dict d)) (sort_key fst (kr_generated r))) [] =
      Inr ([] @ sort_key fst (kr_generated r))"
    using assms(2) by (intro load_rows_saved) (auto simp: capabilities_ok_def wf_dict_def dkeys_def)
  then show ?thesis
    using assms(3,4) by (simp add: load_capabilities_def save_capabilities_def capabilities_payload_def json_loads_def
      codec_loads_line [OF assms(1)] eq_num_def dget_or_def)
qed

interpretation capabilities: saved_file "load_capabilities X t (r0\<lparr>kr_generated := []\<rparr>)"
  "save_capabilities (ji_codec (ps_io X))"
  "\<lambda>r. codec_ok (ji_codec (ps_io X)) \<and> capabilities_ok X t r \<and> r\<lparr>kr_generated := []\<rparr> = r0\<lparr>kr_generated := []\<rparr>"
  sorted_capabilities for X t r0
proof
  fix r files
  assume ok: "codec_ok (ji_codec (ps_io X)) \<and> capabilities_ok X t r \<and> r\<lparr>kr_generated := []\<rparr> = r0\<lparr>kr_generated := []\<rparr>"
  then have "kr_storage_path (r0\<lparr>kr_generated := []\<rparr>) = kr_storage_path r" "kr_artifact_root (r0\<lparr>kr_generated := []\<rparr>) = kr_artifact_root r"
    by (metis capability_registry.select_convs(1) capability_registry.surjective capability_registry.update_convs(4),
        metis capability_registry.select_convs(2) capability_registry.surjective capability_registry.update_convs(4))
  moreover have "r0\<lparr>kr_generated := sort_key fst (kr_generated r)\<rparr> = sorted_capabilities r"
    using ok by (cases r; cases r0) (simp add: sorted_capabilities_def)
  ultimately show "load_capabilities X t (r0\<lparr>kr_generated := []\<rparr>) (save_capabilities (ji_codec (ps_io X)) r files) = Inr (sorted_capabilities r)"
    using ok load_saved_capabilities [of X t r] by simp
next
  fix r
  assume ok: "codec_ok (ji_codec (ps_io X)) \<and> capabilities_ok X t r \<and> r\<lparr>kr_generated := []\<rparr> = r0\<lparr>kr_generated := []\<rparr>"
  then show "codec_ok (ji_codec (ps_io X)) \<and> capabilities_ok X t (sorted_capabilities r) \<and>
      sorted_capabilities r\<lparr>kr_generated := []\<rparr> = r0\<lparr>kr_generated := []\<rparr>"
    by (auto simp: capabilities_ok_def sorted_capabilities_def)
  show "sorted_capabilities (sorted_capabilities r) = sorted_capabilities r"
    by (simp add: sorted_capabilities_def sort_key_id_if_sorted)
qed

end
