(* ===== verification/Plugin_Paths.thy ===== *)
theory Plugin_Paths
  imports Plugin_Registry
begin

text \<open>
  Resolved paths: what resolving a path gives is written and read again without change, is free of links, and
  resolves to itself. The registry of capabilities and its clients rely on this when they turn paths into text and back.
\<close>

section \<open>Names\<close>

definition part_ok :: "string \<Rightarrow> bool" where
  "part_ok p \<longleftrightarrow> p \<noteq> [] \<and> p \<noteq> ''.'' \<and> CHR ''/'' \<notin> set p"

definition link_parts :: "fs_entry \<Rightarrow> string list" where
  "link_parts e = (case e of Link_Entry a ps \<Rightarrow> ps | _ \<Rightarrow> [])"

text \<open>The links of a tree hold parts of paths.\<close>

definition links_named :: "file_tree \<Rightarrow> bool" where
  "links_named t \<longleftrightarrow> (\<forall>(p, e)\<in>set t. list_all part_ok (link_parts e))"

lemma split_char_nonempty: "split_char c s \<noteq> []"
  by (cases s) (auto split: list.splits)

lemma split_char_part: "c \<notin> set p \<Longrightarrow> split_char c (p @ rest) = (p @ hd (split_char c rest)) # tl (split_char c rest)"
proof (induction p)
  case Nil
  then show ?case using split_char_nonempty [of c rest] by simp
next
  case (Cons x p)
  then show ?case by auto
qed

lemma split_char_parts: "c \<notin> set p \<Longrightarrow> split_char c p = [p]"
  using split_char_part [of c p "[]"] by simp

lemma split_char_join: "ps \<noteq> [] \<Longrightarrow> \<forall>p\<in>set ps. c \<notin> set p \<Longrightarrow> split_char c (str_join [c] ps) = ps"
proof (induction "[c]" ps rule: str_join.induct)
  case (2 x)
  then show ?case by (simp add: split_char_parts)
next
  case (3 x y xs)
  have "split_char c (c # str_join [c] (y # xs)) = [] # y # xs"
    using 3 by (simp del: str_join.simps)
  then show ?case using 3(3) split_char_part [of c x "c # str_join [c] (y # xs)"] by simp
qed simp

lemma full_path_parts: "list_all part_ok ps \<Longrightarrow> py_path_of (full_path ps) = (''/'', ps)"
proof (cases ps)
  case Nil
  have "py_path_of (full_path []) = (''/'', [])" by code_simp
  then show ?thesis using Nil by simp
next
  case (Cons p qs)
  assume ok: "list_all part_ok ps"
  have s: "full_path ps = CHR ''/'' # str_join [CHR ''/''] ps" by (simp add: path_str_def Cons)
  have split: "split_char CHR ''/'' (full_path ps) = [] # ps"
    using split_char_join [of ps "CHR ''/''"] ok Cons unfolding s by (simp add: list_all_iff part_ok_def)
  have keep: "filter (\<lambda>p. p \<noteq> [] \<and> p \<noteq> ''.'') ps = ps"
    using ok by (simp add: filter_id_conv list_all_iff part_ok_def)
  obtain x xs where p: "p = x # xs" "x \<noteq> CHR ''/''" using ok Cons by (cases p) (auto simp: part_ok_def)
  obtain r where "str_join [CHR ''/''] ps = x # r" by (cases qs) (simp_all add: Cons p(1))
  then have "path_anchor (full_path ps) = ''/''" unfolding s path_anchor_def using p(2) by simp
  then show ?thesis unfolding py_path_of_def using split keep by simp
qed

section \<open>Resolved paths\<close>

definition link_free :: "file_tree \<Rightarrow> string list \<Rightarrow> bool" where
  "link_free t p \<longleftrightarrow> (\<forall>i. 0 < i \<and> i \<le> length p \<longrightarrow> \<not> is_link (tree_at t (take i p)))"

definition settled :: "file_tree \<Rightarrow> string list \<Rightarrow> bool" where
  "settled t p \<longleftrightarrow> link_free t p \<and> list_all part_ok p \<and> ''..'' \<notin> set p"

lemma settled_Nil [simp]: "settled t []"
  by (simp add: settled_def link_free_def)

lemma settled_prefix: "settled t p \<Longrightarrow> prefix q p \<Longrightarrow> settled t q"
  by (auto simp: settled_def link_free_def prefix_def list_all_iff)

lemma settled_butlast: "settled t p \<Longrightarrow> settled t (butlast p)"
  using settled_prefix prefixeq_butlast by blast

lemma settled_snoc:
  assumes "settled t cur" "part_ok p" "p \<noteq> ''..''" "\<not> is_link (tree_at t (cur @ [p]))"
  shows "settled t (cur @ [p])"
proof -
  have "\<not> is_link (tree_at t (take i (cur @ [p])))" if "0 < i" "i \<le> length (cur @ [p])" for i
    using assms(1,4) that by (cases "i \<le> length cur") (auto simp: settled_def link_free_def le_Suc_eq)
  then show ?thesis using assms(1-3) by (auto simp: settled_def link_free_def)
qed

lemma real_path_settled:
  assumes "real_path n t cur ps = Inr q" "links_named t" "settled t cur" "list_all part_ok ps"
  shows "settled t q"
  using assms
proof (induction n t cur ps arbitrary: q rule: real_path.induct)
  case (2 n t cur p ps)
  show ?case
  proof (cases "p = ''..''")
    case True
    then show ?thesis using "2.IH"(1) "2.prems" settled_butlast by simp
  next
    case False
    show ?thesis
    proof (cases "is_link (tree_at t (cur @ [p]))")
      case True
      then obtain a target where e: "tree_at t (cur @ [p]) = Some (Link_Entry a target)" by (auto elim!: is_link.elims)
      then have "map_of t (cur @ [p]) = Some (Link_Entry a target)" by (simp add: tree_at_def)
      then have "list_all part_ok target" using "2.prems"(2) map_of_SomeD by (fastforce simp: links_named_def link_parts_def)
      then show ?thesis using "2.IH"(5) [OF False e] "2.prems" False e by (cases n) (auto split: if_splits)
    next
      case no: False
      then have "settled t (cur @ [p])" using settled_snoc "2.prems"(3,4) False by simp
      moreover have "real_path n t (cur @ [p]) ps = Inr q"
        using "2.prems"(1) no False by (auto split: option.splits fs_entry.splits)
      moreover note step = calculation
      show ?thesis
      proof (cases "tree_at t (cur @ [p])")
        case None
        then show ?thesis using "2.IH"(2) [OF False] step "2.prems"(2,4) by simp
      next
        case (Some e)
        then show ?thesis using "2.IH"(3,4) [OF False Some] step "2.prems"(2,4) no by (cases e) simp_all
      qed
    qed
  qed
qed simp

lemma real_path_fixed: "settled t (cur @ ps) \<Longrightarrow> real_path n t cur ps = Inr (cur @ ps)"
proof (induction ps arbitrary: cur)
  case (Cons p ps)
  have "settled t (cur @ [p])" using Cons.prems by (rule settled_prefix) simp
  then have p: "p \<noteq> ''..''" "\<not> is_link (tree_at t (cur @ [p]))" by (auto simp: settled_def link_free_def)
  have "real_path n t (cur @ [p]) ps = Inr ((cur @ [p]) @ ps)" using Cons by simp
  with p show ?case by (auto split: option.splits fs_entry.splits)
qed simp

text \<open>The text of a settled path resolves to the path.\<close>

lemma resolve_settled: "settled t p \<Longrightarrow> resolve_at X t (full_path p) = Inr p"
  by (simp add: resolve_path_def full_path_parts settled_def real_path_fixed [of t "[]" p, simplified settled_def] Let_def)

text \<open>Below a settled path, the text of a path resolves as the path does.\<close>

lemma resolve_below:
  "settled t p \<Longrightarrow> part_ok name \<Longrightarrow> resolve_at X t (full_path (p @ [name])) = real_path (ps_links X) t [] (p @ [name])"
  by (simp add: resolve_path_def full_path_parts settled_def Let_def)

lemma required_parts: "name \<in> set required_files \<Longrightarrow> part_ok name"
  by (auto simp: required_files_def part_ok_def)

end
