(* ===== verification/Plugin_Sandbox.thy ===== *)
theory Plugin_Sandbox
  imports Plugin_Registry
begin

text \<open>
  The operating-system sandbox of generated plugins (\<open>loop_engine/tasks/plugin_sandbox.py\<close>): mounts, the probe of
  the backend and the command line of bubblewrap. A launcher (\<open>PluginSandboxLauncher\<close>) is a record of two functions,
  and \<open>WslBubblewrapSandbox\<close> gives one.
\<close>

section \<open>Running a bounded command\<close>

record 'w plugin_host =
  uh_run :: "'w release_host"
  uh_site :: plugin_site
  uh_worker_path :: "string list"
  uh_compact :: "pydict \<Rightarrow> py_exc + string"
  uh_mkdir :: "string list \<Rightarrow> 'w \<Rightarrow> py_exc option \<times> 'w"

abbreviation tree_now :: "'w plugin_host \<Rightarrow> 'w process_world \<Rightarrow> file_tree" where
  "tree_now H s \<equiv> rh_tree (uh_run H) (pw_world s)"

text \<open>\<open>BoundedSubprocessTool(workspace_root, SubprocessSpec(...))({}, LoopState(...))\<close>.\<close>

definition run_bounded ::
  "'w plugin_host \<Rightarrow> string \<Rightarrow> subprocess_spec \<Rightarrow> string \<Rightarrow> string \<Rightarrow> 'w process_world
   \<Rightarrow> ((py_exc + pydict) \<times> 'w process_world) option"
where
  "run_bounded H workspace_root spec run_id goal s =
     (case exc_bind (mk_subprocess_spec spec) (\<lambda>S. resolve_at (uh_site H) (tree_now H s) workspace_root) of
        Inl e \<Rightarrow> Some (Inl e, s)
      | Inr base \<Rightarrow> call_bounded (uh_run H) base spec (bare_state run_id goal) s)"

section \<open>Mounts\<close>

record sandbox_mount =
  sm_host_path :: "string list"
  sm_sandbox_path :: string
  sm_writable :: bool

text \<open>\<open>target.parts[1]\<close> of an absolute path.\<close>

definition first_part :: "py_path \<Rightarrow> py_exc + string" where
  "first_part p = (case snd p of [] \<Rightarrow> Inl (PyExc ''IndexError'' ''tuple index out of range'') | x # xs \<Rightarrow> Inr x)"

definition mk_mount :: "plugin_site \<Rightarrow> file_tree \<Rightarrow> string \<Rightarrow> string \<Rightarrow> bool \<Rightarrow> py_exc + sandbox_mount" where
  "mk_mount X t host_path sandbox_path writable =
     exc_bind (resolve_at X t host_path) (\<lambda>host.
     if stat_entry X t host = None then Inl (ValueError (''sandbox mount host path is missing: '' @ full_path host))
     else let target = py_path_of sandbox_path in
       if fst target = [] \<or> ''..'' \<in> set (snd target)
         then Inl (ValueError ''sandbox mount path must be absolute and normalized'')
       else if target = (''/'', []) then Inl (ValueError ''sandbox mounts are restricted to /data or /output'')
       else exc_bind (first_part target) (\<lambda>top_name.
         if top_name \<notin> {''data'', ''output''} then Inl (ValueError ''sandbox mounts are restricted to /data or /output'')
         else if writable \<and> top_name \<noteq> ''output'' then Inl (ValueError ''writable sandbox mounts are restricted to /output'')
         else Inr \<lparr>sm_host_path = host, sm_sandbox_path = path_str target, sm_writable = writable\<rparr>))"

section \<open>The sandbox\<close>

record wsl_sandbox =
  ws_distribution :: string
  ws_mounts :: "sandbox_mount list"
  ws_wsl_executable :: string
  ws_bwrap_path :: string
  ws_python_path :: string
  ws_probe_timeout_seconds :: rat

definition absolute_linux_path :: "string \<Rightarrow> py_exc + string" where
  "absolute_linux_path s = (let p = py_path_of s in
     if fst p = [] \<or> ''..'' \<in> set (snd p) then Inl (ValueError ''sandbox executable path must be absolute'')
     else Inr (path_str p))"

definition mk_sandbox ::
  "string \<Rightarrow> sandbox_mount list \<Rightarrow> string \<Rightarrow> string \<Rightarrow> string \<Rightarrow> rat \<Rightarrow> py_exc + wsl_sandbox" where
  "mk_sandbox distribution mounts wsl_executable bwrap_path python_path probe_timeout_seconds =
     (if strip distribution = [] then Inl (ValueError ''WSL sandbox distribution is required'')
      else if probe_timeout_seconds \<le> 0 then Inl (ValueError ''sandbox probe timeout must be positive'')
      else if \<not> distinct (map sm_sandbox_path mounts) then Inl (ValueError ''sandbox mount targets must be unique'')
      else exc_bind (absolute_linux_path bwrap_path) (\<lambda>bwrap. exc_bind (absolute_linux_path python_path) (\<lambda>python.
        Inr \<lparr>ws_distribution = strip distribution, ws_mounts = mounts, ws_wsl_executable = wsl_executable,
          ws_bwrap_path = bwrap, ws_python_path = python, ws_probe_timeout_seconds = probe_timeout_seconds\<rparr>)))"

definition backend_name :: string where
  "backend_name = ''wsl_bubblewrap''"

definition probe_spec :: "wsl_sandbox \<Rightarrow> subprocess_spec" where
  "probe_spec B = default_subprocess_spec\<lparr>
     ss_argv := [ws_wsl_executable B, ''--distribution'', ws_distribution B, ''--exec'', ''/usr/bin/test'', ''-x'', ws_bwrap_path B],
     ss_timeout_seconds := ws_probe_timeout_seconds B, ss_max_output_bytes := 8 * 1024\<rparr>"

text \<open>The verdict on the process of the probe.\<close>

definition probe_passed :: "pydict \<Rightarrow> bool" where
  "probe_passed process \<longleftrightarrow> \<not> truthy (dget_or PNone process ''timed_out'') \<and>
     eq_num (dget_or PNone process ''exit_code'') 0 \<and>
     \<not> truthy (dget_or PNone process ''stdout_truncated'') \<and> \<not> truthy (dget_or PNone process ''stderr_truncated'')"

definition sandbox_probe ::
  "'w plugin_host \<Rightarrow> wsl_sandbox \<Rightarrow> string \<Rightarrow> string \<Rightarrow> 'w process_world \<Rightarrow> ((py_exc + bool) \<times> 'w process_world) option" where
  "sandbox_probe H B workspace_root run_id s =
     map_option (map_prod (\<lambda>out. exc_bind out (\<lambda>process. Inr (probe_passed process))) id)
       (run_bounded H workspace_root (probe_spec B) (''sandbox-probe-'' @ run_id) ''Probe WSL bubblewrap sandbox'' s)"

section \<open>The command line\<close>

text \<open>A Windows path with its drive, matched by \<open>^([A-Za-z]):[\\/](.*)$\<close>, where the dot matches no newline and
  \<open>$\<close> matches before a final one, too.\<close>

definition is_letter :: "char \<Rightarrow> bool" where
  "is_letter c = (let n = (of_char c :: nat) in (65 \<le> n \<and> n \<le> 90) \<or> (97 \<le> n \<and> n \<le> 122))"

definition lower_letter :: "char \<Rightarrow> char" where
  "lower_letter c = (let n = (of_char c :: nat) in if 65 \<le> n \<and> n \<le> 90 then char_of (n + 32) else c)"

definition drop_final_newline :: "string \<Rightarrow> string" where
  "drop_final_newline s = (if s \<noteq> [] \<and> last s = CHR 0x0A then butlast s else s)"

definition windows_drive :: "string \<Rightarrow> (char \<times> string) option" where
  "windows_drive s = (case s of
      drive # colon # sep # rest \<Rightarrow>
        if is_letter drive \<and> colon = CHR 0x3A \<and> (sep = CHR 0x5C \<or> sep = CHR 0x2F) \<and>
            CHR 0x0A \<notin> set (drop_final_newline rest)
          then Some (drive, drop_final_newline rest) else None
    | _ \<Rightarrow> None)"

definition to_wsl_path :: "string \<Rightarrow> py_exc + string" where
  "to_wsl_path s = (case windows_drive s of
      None \<Rightarrow> if prefix ''/'' s then Inr s else Inl (ValueError (''path cannot be translated to WSL: '' @ s))
    | Some (drive, remainder) \<Rightarrow>
        Inr (''/mnt/'' @ [lower_letter drive] @ ''/'' @ map (\<lambda>c. if c = CHR 0x5C then CHR 0x2F else c) remainder))"

definition sandbox_options :: "string list" where
  "sandbox_options = [''--die-with-parent'', ''--new-session'', ''--unshare-all'', ''--clearenv'',
     ''--ro-bind'', ''/usr'', ''/usr'', ''--ro-bind'', ''/lib'', ''/lib'', ''--ro-bind'', ''/lib64'', ''/lib64'',
     ''--proc'', ''/proc'', ''--dev'', ''/dev'', ''--tmpfs'', ''/tmp'',
     ''--dir'', ''/runtime'', ''--dir'', ''/data'', ''--dir'', ''/output'']"

definition mount_args :: "sandbox_mount \<Rightarrow> py_exc + string list" where
  "mount_args m = exc_bind (to_wsl_path (full_path (sm_host_path m))) (\<lambda>source.
     Inr [if sm_writable m then ''--bind'' else ''--ro-bind'', source, sm_sandbox_path m])"

definition worker_args :: "string \<Rightarrow> string \<Rightarrow> string \<Rightarrow> string list" where
  "worker_args plugin expected_sha256 payload_json =
     [''--plugin'', plugin, ''--expected-sha256'', expected_sha256, ''--payload-json'', payload_json]"

definition sandbox_environment :: "string list" where
  "sandbox_environment = [''--chdir'', ''/plugin'', ''--setenv'', ''HOME'', ''/tmp'', ''--setenv'', ''TMPDIR'', ''/tmp'',
     ''--setenv'', ''PYTHONDONTWRITEBYTECODE'', ''1'', ''--setenv'', ''PYTHONIOENCODING'', ''utf-8'']"

definition build_argv ::
  "plugin_site \<Rightarrow> wsl_sandbox \<Rightarrow> file_tree \<Rightarrow> string \<Rightarrow> string list \<Rightarrow> string \<Rightarrow> string \<Rightarrow> py_exc + string list" where
  "build_argv X B t plugin_root worker_path expected_sha256 payload_json =
     exc_bind (exc_bind (resolve_at X t plugin_root) (\<lambda>p. to_wsl_path (full_path p))) (\<lambda>plugin_source.
     exc_bind (exc_bind (resolve_at X t (full_path worker_path)) (\<lambda>p. to_wsl_path (full_path p))) (\<lambda>worker_source.
     exc_bind (map_exc mount_args (ws_mounts B)) (\<lambda>mounts.
     Inr ([ws_wsl_executable B, ''--distribution'', ws_distribution B, ''--exec'', ws_bwrap_path B] @ sandbox_options @
       [''--ro-bind'', plugin_source, ''/plugin'', ''--ro-bind'', worker_source, ''/runtime/plugin_worker.py''] @
       concat mounts @ sandbox_environment @
       [ws_python_path B, ''-I'', ''/runtime/plugin_worker.py''] @
       worker_args ''/plugin/plugin.py'' expected_sha256 payload_json))))"

section \<open>Launchers\<close>

record 'w sandbox_launcher =
  ul_backend_name :: string
  ul_probe :: "string \<Rightarrow> string \<Rightarrow> 'w process_world \<Rightarrow> ((py_exc + bool) \<times> 'w process_world) option"
  ul_build_argv :: "string \<Rightarrow> string list \<Rightarrow> string \<Rightarrow> string \<Rightarrow> 'w process_world \<Rightarrow> py_exc + string list"

definition bubblewrap_launcher :: "'w plugin_host \<Rightarrow> wsl_sandbox \<Rightarrow> 'w sandbox_launcher" where
  "bubblewrap_launcher H B = \<lparr>ul_backend_name = backend_name, ul_probe = sandbox_probe H B,
     ul_build_argv = (\<lambda>plugin_root worker_path expected_sha256 payload_json s.
       build_argv (uh_site H) B (tree_now H s) plugin_root worker_path expected_sha256 payload_json)\<rparr>"

section \<open>What is bound where\<close>

text \<open>
  A reading of bubblewrap's options, up to the program that is run: the arguments each option takes, and
  the binds among them.
\<close>

datatype sandbox_bind = Bind (bind_writable: bool) (bind_source: string) (bind_target: string)

fun binds_of :: "string list \<Rightarrow> sandbox_bind list" where
  "binds_of (opt # a # b # rest) =
     (if opt = ''--ro-bind'' then Bind False a b # binds_of rest
      else if opt = ''--bind'' then Bind True a b # binds_of rest
      else if opt = ''--setenv'' then binds_of rest
      else if opt \<in> {''--proc'', ''--dev'', ''--tmpfs'', ''--dir'', ''--chdir''} then binds_of (b # rest)
      else if prefix ''--'' opt then binds_of (a # b # rest)
      else [])"
| "binds_of _ = []"

definition system_binds :: "sandbox_bind list" where
  "system_binds = map (\<lambda>p. Bind False p p) [''/usr'', ''/lib'', ''/lib64'']"

definition mount_bind :: "sandbox_mount \<Rightarrow> sandbox_bind" where
  "mount_bind m = Bind (sm_writable m) (full_path (sm_host_path m)) (sm_sandbox_path m)"

end
