(* ===== verification/Plugin_Runtime.thy ===== *)
theory Plugin_Runtime
  imports Plugin_Sandbox
begin

text \<open>
  The invocation of generated plugins: policy and leaf executor (\<open>loop_engine/tasks/plugin_runtime.py\<close>), and the
  worker process (\<open>loop_engine/tasks/plugin_worker.py\<close>). The code of a plugin is an argument of the worker: what
  compiling and executing a source leaves under the name \<open>run\<close>, and what calling that returns.
\<close>

section \<open>The policy\<close>

record plugin_invocation =
  ui_payload :: pydict
  ui_required_output_fields :: "string list"
  ui_success_statuses :: "string list"
  ui_requires_os_sandbox :: bool

text \<open>The serialisation of a payload may raise; \<open>create\<close> reports TypeError and ValueError as one error.\<close>

definition mk_invocation ::
  "(pydict \<Rightarrow> py_exc + string) \<Rightarrow> pydict option \<Rightarrow> string list \<Rightarrow> string list \<Rightarrow> bool \<Rightarrow> py_exc + plugin_invocation" where
  "mk_invocation serialize payload required_output_fields success_statuses requires_os_sandbox =
     (let fields = map strip required_output_fields; statuses = map strip success_statuses;
          normalized = (case payload of None \<Rightarrow> [] | Some d \<Rightarrow> d)
      in if fields = [] \<or> [] \<in> set fields then Inl (ValueError ''required_output_fields must be non-empty'')
         else if statuses = [] \<or> [] \<in> set statuses then Inl (ValueError ''success_statuses must be non-empty'')
         else case serialize normalized of
           Inl e \<Rightarrow> Inl (if exc_type e \<in> {''TypeError'', ''ValueError''}
             then ValueError ''plugin payload must be JSON serializable'' else e)
         | Inr s \<Rightarrow> Inr \<lparr>ui_payload = normalized, ui_required_output_fields = fields, ui_success_statuses = statuses,
             ui_requires_os_sandbox = requires_os_sandbox\<rparr>)"

record 'w invocation_policy =
  vp_invocations :: "(string \<times> plugin_invocation) list"
  vp_python_executable :: string
  vp_timeout_seconds :: rat
  vp_max_output_bytes :: int
  vp_max_payload_bytes :: int
  vp_sandbox_launcher :: "'w sandbox_launcher option"

fun normalize_invocations ::
  "(pydict \<Rightarrow> py_exc + string) \<Rightarrow> int \<Rightarrow> (string \<times> plugin_invocation) list \<Rightarrow> (string \<times> plugin_invocation) list
   \<Rightarrow> py_exc + (string \<times> plugin_invocation) list"
where
  "normalize_invocations serialize limit [] acc = Inr acc"
| "normalize_invocations serialize limit ((capability, spec) # rest) acc =
     (if strip capability = [] then Inl (ValueError ''plugin invocation capability is required'')
      else exc_bind (serialize (ui_payload spec)) (\<lambda>s.
        if int (length (utf8 s)) > limit then Inl (ValueError (''plugin payload exceeds limit: '' @ strip capability))
        else normalize_invocations serialize limit rest (dset (strip capability) spec acc)))"

definition mk_invocation_policy ::
  "(pydict \<Rightarrow> py_exc + string) \<Rightarrow> (string \<times> plugin_invocation) list \<Rightarrow> string \<Rightarrow> rat \<Rightarrow> int \<Rightarrow> int
   \<Rightarrow> 'w sandbox_launcher option \<Rightarrow> py_exc + 'w invocation_policy"
where
  "mk_invocation_policy serialize invocations python_executable timeout_seconds max_output_bytes max_payload_bytes launcher =
     (if timeout_seconds \<le> 0 \<or> max_output_bytes \<le> 0 \<or> max_payload_bytes \<le> 0
        then Inl (ValueError ''plugin invocation bounds must be positive'')
      else if invocations = [] then Inl (ValueError ''plugin invocations must be non-empty'')
      else exc_bind (normalize_invocations serialize max_payload_bytes invocations []) (\<lambda>normalized.
        Inr \<lparr>vp_invocations = normalized, vp_python_executable = python_executable, vp_timeout_seconds = timeout_seconds,
          vp_max_output_bytes = max_output_bytes, vp_max_payload_bytes = max_payload_bytes, vp_sandbox_launcher = launcher\<rparr>))"

section \<open>Results\<close>

definition leaf_outcome :: "string \<Rightarrow> string \<Rightarrow> string option \<Rightarrow> pydict \<Rightarrow> leaf_result" where
  "leaf_outcome status summary error evidence = (plain_result status summary error)\<lparr>lr_evidence := evidence\<rparr>"

definition plugin_blocked :: "string \<Rightarrow> string list option \<Rightarrow> pydict \<Rightarrow> leaf_result" where
  "plugin_blocked error capabilities evidence = leaf_outcome ''blocked'' ''generated plugin invocation is blocked'' (Some error)
     (case capabilities of None \<Rightarrow> evidence | Some cs \<Rightarrow> dset ''required_capabilities'' (pstrs cs) evidence)"

definition plugin_failed :: "string \<Rightarrow> pydict \<Rightarrow> leaf_result" where
  "plugin_failed error evidence = leaf_outcome ''failed'' ''generated plugin invocation failed'' (Some error) evidence"

section \<open>Reading what the worker printed\<close>

text \<open>\<open>output.get("status") in success_statuses\<close>.\<close>

definition successful_output :: "plugin_invocation \<Rightarrow> pydict \<Rightarrow> bool" where
  "successful_output invocation output = (case dget_or PNone output ''status'' of
      PStr s \<Rightarrow> s \<in> set (ui_success_statuses invocation) | _ \<Rightarrow> False)"

definition plugin_summary :: "string \<Rightarrow> pydict \<Rightarrow> string" where
  "plugin_summary plugin_id output = (case dget_or PNone output ''summary'' of
      PStr s \<Rightarrow> if strip s \<noteq> [] then s else ''generated plugin '' @ plugin_id @ '' completed''
    | _ \<Rightarrow> ''generated plugin '' @ plugin_id @ '' completed'')"

definition interpret_output :: "json_io \<Rightarrow> string \<Rightarrow> plugin_invocation \<Rightarrow> pydict \<Rightarrow> pydict \<Rightarrow> leaf_result" where
  "interpret_output IO plugin_id invocation base output =
     (let missing = filter (\<lambda>f. f \<notin> set (dkeys output)) (ui_required_output_fields invocation);
          evidence = dset ''output'' (PDict output) base
      in if missing \<noteq> [] then plugin_failed (''generated_plugin_output_missing:'' @ str_join '','' missing) evidence
         else if \<not> successful_output invocation output
           then plugin_failed (''generated_plugin_unsuccessful_status:'' @ show_val IO (dget_or PNone output ''status'')) evidence
         else leaf_outcome ''completed'' (plugin_summary plugin_id output) None evidence)"

definition envelope_ok :: "pydict \<Rightarrow> pydict \<Rightarrow> bool" where
  "envelope_ok process envelope \<longleftrightarrow> eq_num (dget_or PNone process ''exit_code'') 0 \<and>
     dget_or PNone envelope ''status'' = PStr ''ok''"

definition interpret_envelope :: "json_io \<Rightarrow> string \<Rightarrow> plugin_invocation \<Rightarrow> pydict \<Rightarrow> pydict \<Rightarrow> pydict \<Rightarrow> leaf_result" where
  "interpret_envelope IO plugin_id invocation base process envelope =
     (if \<not> envelope_ok process envelope
        then let detail = take 1000 (show_val IO (dget_or (PStr []) envelope ''error'')) in
          plugin_failed (''generated_plugin_error:'' @ (if detail = [] then ''worker_failed'' else detail))
            (dset ''worker_error_type'' (dget_or PNone envelope ''error_type'') base)
      else case dget_or PNone envelope ''output'' of
        PDict output \<Rightarrow> interpret_output IO plugin_id invocation base output
      | _ \<Rightarrow> plugin_failed ''generated_plugin_output_not_object'' base)"

definition base_evidence :: "string \<Rightarrow> string \<Rightarrow> string \<Rightarrow> pydict \<Rightarrow> pydict" where
  "base_evidence capability plugin_id backend process = [(''capability'', PStr capability), (''plugin_id'', PStr plugin_id),
     (''duration_seconds'', dget_or PNone process ''duration_seconds''), (''sandbox_backend'', PStr backend)]"

definition interpret_plugin :: "json_io \<Rightarrow> string \<Rightarrow> string \<Rightarrow> plugin_invocation \<Rightarrow> string \<Rightarrow> pydict \<Rightarrow> py_exc + leaf_result" where
  "interpret_plugin IO capability plugin_id invocation backend process =
     (let base = base_evidence capability plugin_id backend process in
      if truthy (dget_or PNone process ''timed_out'') then Inr (plugin_blocked ''generated_plugin_timeout'' None base)
      else if truthy (dget_or PNone process ''stdout_truncated'') \<or> truthy (dget_or PNone process ''stderr_truncated'')
        then Inr (plugin_failed ''generated_plugin_output_truncated'' base)
      else case json_loads IO (show_val IO (dget_or (PStr []) process ''stdout'')) of
        Inl e \<Rightarrow> Inr (plugin_failed ''generated_plugin_worker_invalid_json'' base)
      | Inr (PDict envelope) \<Rightarrow> Inr (interpret_envelope IO plugin_id invocation base process envelope)
      | Inr _ \<Rightarrow> Inr (plugin_failed ''generated_plugin_worker_invalid_envelope'' base))"

section \<open>The executor\<close>

definition process_argv :: "'w plugin_host \<Rightarrow> 'w invocation_policy \<Rightarrow> string \<Rightarrow> string \<Rightarrow> string \<Rightarrow> string list" where
  "process_argv H P plugin expected_sha256 payload_json =
     [vp_python_executable P, ''-I'', full_path (uh_worker_path H)] @ worker_args plugin expected_sha256 payload_json"

text \<open>\<open>list(dict.fromkeys(xs))\<close>.\<close>

definition unique_keys :: "string list \<Rightarrow> string list" where
  "unique_keys xs = rev (remdups (rev xs))"

definition plugin_digest :: "generated_capability \<Rightarrow> py_exc + string" where
  "plugin_digest d = (case dget (gc_file_sha256 d) ''plugin.py'' of
      None \<Rightarrow> Inl (PyExc ''KeyError'' (repr_str ''plugin.py'')) | Some digest \<Rightarrow> Inr digest)"

text \<open>\<open>str(Path(plugin_root) / "plugin.py")\<close>.\<close>

definition plugin_file :: "generated_capability \<Rightarrow> string" where
  "plugin_file d = path_str (map_prod id (\<lambda>ps. ps @ [''plugin.py'']) (py_path_of (gc_plugin_root d)))"

text \<open>The argument vector and the backend of an invocation: a refusal, or what to launch.\<close>

definition plan_launch ::
  "'w plugin_host \<Rightarrow> 'w invocation_policy \<Rightarrow> plugin_invocation \<Rightarrow> generated_capability \<Rightarrow> string list \<Rightarrow> string \<Rightarrow> string
   \<Rightarrow> 'w process_world \<Rightarrow> ((py_exc + leaf_result + string list \<times> string) \<times> 'w process_world) option"
where
  "plan_launch H P invocation d capabilities run_id payload_json s =
     (if \<not> ui_requires_os_sandbox invocation
        then Some (exc_bind (plugin_digest d) (\<lambda>digest.
          Inr (Inr (process_argv H P (plugin_file d) digest payload_json, ''process_only''))), s)
      else case vp_sandbox_launcher P of
        None \<Rightarrow> Some (Inr (Inl (plugin_blocked ''generated_plugin_os_sandbox_not_configured'' (Some capabilities)
          [(''sandbox_backend'', PStr ''not_configured'')])), s)
      | Some L \<Rightarrow> and_then (ul_probe L (gc_plugin_root d) run_id s) (\<lambda>available s1.
          if \<not> available
            then Some (Inr (Inl (plugin_blocked (''generated_plugin_os_sandbox_unavailable:'' @ ul_backend_name L) (Some capabilities)
              [(''sandbox_backend'', PStr (ul_backend_name L))])), s1)
          else Some (exc_bind (plugin_digest d) (\<lambda>digest.
            exc_bind (ul_build_argv L (gc_plugin_root d) (uh_worker_path H) digest payload_json s1)
              (\<lambda>argv. Inr (Inr (argv, ul_backend_name L)))), s1)))"

definition plugin_spec :: "'w invocation_policy \<Rightarrow> string list \<Rightarrow> subprocess_spec" where
  "plugin_spec P argv = default_subprocess_spec\<lparr>ss_argv := argv, ss_timeout_seconds := vp_timeout_seconds P,
     ss_max_output_bytes := vp_max_output_bytes P,
     ss_environment := [(''PYTHONDONTWRITEBYTECODE'', ''1''), (''PYTHONIOENCODING'', ''utf-8''), (''PYTHONUTF8'', ''1'')]\<rparr>"

definition run_plugin ::
  "'w plugin_host \<Rightarrow> 'w invocation_policy \<Rightarrow> plugin_invocation \<Rightarrow> generated_capability \<Rightarrow> string \<Rightarrow> string \<Rightarrow> string list \<Rightarrow> string
   \<Rightarrow> 'w process_world \<Rightarrow> ((py_exc + leaf_result) \<times> 'w process_world) option"
where
  "run_plugin H P invocation d capability run_id argv backend s =
     map_option (map_prod (\<lambda>out. exc_bind out (interpret_plugin (ps_io (uh_site H)) capability (gc_plugin_id d) invocation backend)) id)
       (run_bounded H (gc_plugin_root d) (plugin_spec P argv) (''plugin-'' @ run_id) (''Invoke '' @ capability) s)"

definition plugin_execute ::
  "'w plugin_host \<Rightarrow> capability_registry \<Rightarrow> 'w invocation_policy \<Rightarrow> task_node \<Rightarrow> task_graph \<Rightarrow> 'w process_world
   \<Rightarrow> ((py_exc + leaf_result) \<times> 'w process_world) option"
where
  "plugin_execute H R P n g s =
     (let capabilities = unique_keys (nd_required_capabilities n); run_id = tg_id g @ ''-'' @ nd_id n in
      case capabilities of
        [capability] \<Rightarrow> (case dget (vp_invocations P) capability of
            None \<Rightarrow> Some (Inr (plugin_blocked (''generated_plugin_invocation_not_admitted:'' @ capability) (Some capabilities) []), s)
          | Some invocation \<Rightarrow> (case get_capability (uh_site H) (tree_now H s) R capability of
                Inl e \<Rightarrow> Some (Inl e, s)
              | Inr None \<Rightarrow>
                  Some (Inr (plugin_blocked (''generated_plugin_descriptor_unavailable:'' @ capability) (Some capabilities) []), s)
              | Inr (Some d) \<Rightarrow> (case uh_compact H (ui_payload invocation) of
                    Inl e \<Rightarrow> Some (Inl e, s)
                  | Inr payload_json \<Rightarrow> and_then (plan_launch H P invocation d capabilities run_id payload_json s) (\<lambda>planned s1.
                      case planned of
                        Inl refused \<Rightarrow> Some (Inr refused, s1)
                      | Inr (argv, backend) \<Rightarrow> run_plugin H P invocation d capability run_id argv backend s1))))
      | _ \<Rightarrow> Some (Inr (plugin_blocked ''generated_plugin_requires_exactly_one_capability'' (Some capabilities) []), s))"

section \<open>The worker\<close>

text \<open>A callable takes the payload and may raise; its output is any value. \<open>None\<close> is a \<open>run\<close> that is missing
  or not callable.\<close>

record 'w worker_host =
  wh_loads :: "string \<Rightarrow> py_exc + pyval"
  wh_dumps :: "pyval \<Rightarrow> py_exc + string"
  wh_sha256 :: "8 word list \<Rightarrow> 8 word list"
  wh_read :: "string \<Rightarrow> 'w \<Rightarrow> py_exc + 8 word list"
  wh_exec :: "8 word list \<Rightarrow> string \<Rightarrow> 'w \<Rightarrow> (py_exc + (pydict \<Rightarrow> 'w \<Rightarrow> (py_exc + pyval) \<times> 'w) option) \<times> 'w"

definition load_payload :: "'w worker_host \<Rightarrow> string \<Rightarrow> py_exc + pydict" where
  "load_payload E raw = exc_bind (wh_loads E raw) (\<lambda>v. case v of
      PDict d \<Rightarrow> Inr d | _ \<Rightarrow> Inl (ValueError ''plugin payload must be a JSON object''))"

text \<open>Executing the source and calling its entry point, both with the output streams of the process redirected.\<close>

definition call_entrypoint :: "'w worker_host \<Rightarrow> 8 word list \<Rightarrow> string \<Rightarrow> pydict \<Rightarrow> 'w \<Rightarrow> (py_exc + pyval) \<times> 'w" where
  "call_entrypoint E source path payload w = (case wh_exec E source path w of
      (Inl e, w1) \<Rightarrow> (Inl e, w1)
    | (Inr None, w1) \<Rightarrow> (Inl (ValueError ''plugin entrypoint run is missing''), w1)
    | (Inr (Some entrypoint), w1) \<Rightarrow> entrypoint payload w1)"

definition checked_output :: "'w worker_host \<Rightarrow> pyval \<Rightarrow> py_exc + pydict" where
  "checked_output E v = (case v of
      PDict d \<Rightarrow> exc_bind (wh_dumps E v) (\<lambda>_. Inr d)
    | _ \<Rightarrow> Inl (ValueError ''plugin output must be a JSON object''))"

definition worker_execute :: "'w worker_host \<Rightarrow> string \<Rightarrow> string \<Rightarrow> pydict \<Rightarrow> 'w \<Rightarrow> (py_exc + pydict) \<times> 'w" where
  "worker_execute E plugin expected_sha256 payload w = (case wh_read E plugin w of
      Inl e \<Rightarrow> (Inl e, w)
    | Inr source \<Rightarrow>
        if hexdigest (wh_sha256 E source) \<noteq> expected_sha256 then (Inl (ValueError ''plugin source hash mismatch''), w)
        else (case call_entrypoint E source plugin payload w of (out, w1) \<Rightarrow> (exc_bind out (checked_output E), w1)))"

definition one_line :: "string \<Rightarrow> string" where
  "one_line s = map (\<lambda>c. if c = CHR 0x0D \<or> c = CHR 0x0A then CHR '' '' else c) s"

definition error_envelope :: "py_exc \<Rightarrow> pydict" where
  "error_envelope e = [(''status'', PStr ''error''), (''error_type'', PStr (exc_type e)),
     (''error'', PStr (take 1000 (one_line (exc_msg e))))]"

text \<open>The exit code and the object that is printed, from the path resolved and the arguments parsed.\<close>

definition worker_main :: "'w worker_host \<Rightarrow> string \<Rightarrow> string \<Rightarrow> string \<Rightarrow> 'w \<Rightarrow> (int \<times> pydict) \<times> 'w" where
  "worker_main E plugin expected_sha256 payload_json w =
     (case (case load_payload E payload_json of
              Inl e \<Rightarrow> (Inl e, w) | Inr payload \<Rightarrow> worker_execute E plugin expected_sha256 payload w) of
        (Inl e, w1) \<Rightarrow> ((1, error_envelope e), w1)
      | (Inr output, w1) \<Rightarrow> ((0, [(''status'', PStr ''ok''), (''output'', PDict output)]), w1))"

end
