(* ===== verification/Plugin_Acquisition.thy ===== *)
theory Plugin_Acquisition
  imports Plugin_Sandbox
begin

text \<open>
  The acquisition of a missing capability from the plugin generator (\<open>PluginAcquisitionPolicy\<close> and
  \<open>PluginGeneratorAcquirer\<close> of \<open>loop_engine/tasks/plugin_acquisition.py\<close>): the generator runs as a bounded
  subprocess, what it says is checked against the policy and the file system, and the plugin is registered with the
  hashes of its files. Sets of paths are visited in the order of the list that gives them; two paths
  are the same file when they resolve to the same place (there are no hard links).
\<close>

section \<open>The policy\<close>

record acquisition_policy =
  ap_generator_root :: "string list"
  ap_output_root :: "string list"
  ap_capability_families :: "(string \<times> string) list"
  ap_python_executable :: string
  ap_constraints :: "string list"
  ap_timeout_seconds :: rat
  ap_max_output_bytes :: int

definition lower_or_digit :: "char \<Rightarrow> bool" where
  "lower_or_digit c = (let n = (of_char c :: nat) in (97 \<le> n \<and> n \<le> 122) \<or> (48 \<le> n \<and> n \<le> 57))"

text \<open>\<open>^[a-z][a-z0-9_.-]{0,63}$\<close> and \<open>^[a-z0-9][a-z0-9_-]{0,127}$\<close>, matched in full.\<close>

definition valid_name :: "string \<Rightarrow> bool" where
  "valid_name s = (case s of [] \<Rightarrow> False
     | c # cs \<Rightarrow> lower_or_digit c \<and> (of_char c :: nat) \<ge> 97 \<and> length cs \<le> 63 \<and>
         list_all (\<lambda>x. lower_or_digit x \<or> x \<in> {CHR ''_'', CHR ''.'', CHR ''-''}) cs)"

definition valid_plugin_id :: "string \<Rightarrow> bool" where
  "valid_plugin_id s = (case s of [] \<Rightarrow> False
     | c # cs \<Rightarrow> lower_or_digit c \<and> length cs \<le> 127 \<and> list_all (\<lambda>x. lower_or_digit x \<or> x \<in> {CHR ''_'', CHR ''-''}) cs)"

fun normalize_families :: "(string \<times> string) list \<Rightarrow> (string \<times> string) list \<Rightarrow> py_exc + (string \<times> string) list" where
  "normalize_families [] acc = Inr acc"
| "normalize_families ((capability, family) # rest) acc =
     (if \<not> valid_name (strip capability) then Inl (ValueError (''invalid capability name: '' @ capability))
      else if \<not> valid_name (strip family) then Inl (ValueError (''invalid plugin family: '' @ family))
      else normalize_families rest (dset (strip capability) (strip family) acc))"

definition mk_acquisition_policy ::
  "plugin_site \<Rightarrow> file_tree \<Rightarrow> string \<Rightarrow> string \<Rightarrow> (string \<times> string) list \<Rightarrow> string \<Rightarrow> string list \<Rightarrow> rat \<Rightarrow> int
   \<Rightarrow> py_exc + acquisition_policy"
where
  "mk_acquisition_policy X t generator_root output_root families python_executable constraints timeout_seconds max_output_bytes =
     exc_bind (resolve_at X t generator_root) (\<lambda>generator. exc_bind (resolve_at X t output_root) (\<lambda>output.
     if stat_entry X t generator \<noteq> Some Dir_Entry
       then Inl (ValueError ''plugin generator root must be an existing directory'')
     else if stat_entry X t (generator @ [''plugin_generator'']) \<noteq> Some Dir_Entry
       then Inl (ValueError ''plugin generator public package is missing'')
     else if timeout_seconds \<le> 0 \<or> max_output_bytes \<le> 0
       then Inl (ValueError ''plugin acquisition bounds must be positive'')
     else exc_bind (normalize_families families []) (\<lambda>normalized.
       if normalized = [] then Inl (ValueError ''capability_families must be non-empty'')
       else Inr \<lparr>ap_generator_root = generator, ap_output_root = output, ap_capability_families = normalized,
         ap_python_executable = python_executable, ap_constraints = constraints, ap_timeout_seconds = timeout_seconds,
         ap_max_output_bytes = max_output_bytes\<rparr>)))"

text \<open>\<open>PluginGeneratorAcquirer.__init__\<close>.\<close>

definition mk_acquirer :: "acquisition_policy \<Rightarrow> capability_registry \<Rightarrow> py_exc + unit" where
  "mk_acquirer P R = (if kr_artifact_root R \<noteq> ap_output_root P
     then Inl (ValueError ''capability registry artifact_root must match acquisition output_root'') else Inr ())"

section \<open>Files\<close>

definition same_file :: "plugin_site \<Rightarrow> file_tree \<Rightarrow> string list \<Rightarrow> string list \<Rightarrow> py_exc + bool" where
  "same_file X t a b = exc_bind (resolve_parts True (ps_links X) t [] a) (\<lambda>p.
     exc_bind (resolve_parts True (ps_links X) t [] b) (\<lambda>q. Inr (p = q)))"

definition inside_output_root :: "plugin_site \<Rightarrow> file_tree \<Rightarrow> string list \<Rightarrow> string list \<Rightarrow> py_exc + unit" where
  "inside_output_root X t output path =
     (if stat_entry X t path \<noteq> None \<and> list_ex (\<lambda>i. same_file X t (take i path) output = Inr True) [0..<Suc (length path)]
        then Inr ()
      else if prefix output path then Inr ()
      else Inl (ValueError (''generated path escapes output root: '' @ full_path path)))"

text \<open>\<open>any\<close> and \<open>all\<close> over tests that may raise.\<close>

fun any_exc :: "('a \<Rightarrow> py_exc + bool) \<Rightarrow> 'a list \<Rightarrow> py_exc + bool" where
  "any_exc f [] = Inr False"
| "any_exc f (x # xs) = exc_bind (f x) (\<lambda>b. if b then Inr True else any_exc f xs)"

fun all_exc :: "('a \<Rightarrow> py_exc + bool) \<Rightarrow> 'a list \<Rightarrow> py_exc + bool" where
  "all_exc f [] = Inr True"
| "all_exc f (x # xs) = exc_bind (f x) (\<lambda>b. if b then all_exc f xs else Inr False)"

definition expected_files :: "string list \<Rightarrow> string list list" where
  "expected_files base = map (\<lambda>name. base @ [name]) required_files"

definition written_as :: "plugin_site \<Rightarrow> file_tree \<Rightarrow> string list list \<Rightarrow> string list \<Rightarrow> py_exc + bool" where
  "written_as X t written expected = any_exc (\<lambda>p.
     if is_file (stat_entry X t p) then same_file X t p expected else Inr False) written"

section \<open>What the generator says\<close>

definition generator_payload :: "json_io \<Rightarrow> pydict \<Rightarrow> py_exc + pydict" where
  "generator_payload IO process =
     (if truthy (dget_or PNone process ''timed_out'') then Inl (RuntimeError ''plugin generator timed out'')
      else if truthy (dget_or PNone process ''stdout_truncated'') \<or> truthy (dget_or PNone process ''stderr_truncated'')
        then Inl (RuntimeError ''plugin generator output was truncated'')
      else if \<not> eq_num (dget_or PNone process ''exit_code'') 0
        then Inl (RuntimeError (''plugin generator exited with code '' @ show_val IO (dget_or PNone process ''exit_code'') @ '': '' @
          take 2000 (show_val IO (dget_or (PStr []) process ''stderr''))))
      else case json_loads IO (show_val IO (dget_or (PStr []) process ''stdout'')) of
        Inl e \<Rightarrow> Inl (ValueError ''plugin generator stdout is not valid JSON'')
      | Inr (PDict payload) \<Rightarrow>
          if dget_or PNone payload ''status'' \<noteq> PStr ''success'' then Inl (ValueError ''plugin generator did not return success'')
          else Inr payload
      | Inr _ \<Rightarrow> Inl (ValueError ''plugin generator did not return success''))"

text \<open>The root of the plugin that the payload names.\<close>

definition claimed_root :: "plugin_site \<Rightarrow> file_tree \<Rightarrow> acquisition_policy \<Rightarrow> string \<Rightarrow> pydict \<Rightarrow> py_exc + string \<times> string list" where
  "claimed_root X t P family payload = (case dget_or PNone payload ''plugin_id'' of
      PStr plugin_id \<Rightarrow>
        if \<not> valid_plugin_id plugin_id then Inl (ValueError ''plugin generator returned invalid plugin_id'')
        else if dget_or PNone payload ''family'' \<noteq> PStr family then Inl (ValueError ''generated plugin family does not match policy'')
        else exc_bind (resolve_at X t (show_val (ps_io X) (dget_or (PStr []) payload ''materialized_root''))) (\<lambda>materialized.
          exc_bind (if stat_entry X t materialized = Some Dir_Entry then same_file X t materialized (ap_output_root P) else Inr False) (\<lambda>matches.
          if \<not> matches then Inl (ValueError ''generated materialized_root does not match policy'')
          else exc_bind (real_path (ps_links X) t [] (ap_output_root P @ [plugin_id])) (\<lambda>plugin_root.
            exc_bind (inside_output_root X t (ap_output_root P) plugin_root) (\<lambda>_.
            if stat_entry X t plugin_root \<noteq> Some Dir_Entry then Inl (ValueError ''generated plugin root is missing'')
            else Inr (plugin_id, plugin_root)))))
    | _ \<Rightarrow> Inl (ValueError ''plugin generator returned invalid plugin_id''))"

definition check_written ::
  "plugin_site \<Rightarrow> file_tree \<Rightarrow> acquisition_policy \<Rightarrow> string list \<Rightarrow> pydict \<Rightarrow> py_exc + unit" where
  "check_written X t P plugin_root payload = (case dget_or PNone payload ''written_files'' of
      PList items \<Rightarrow>
        exc_bind (map_exc (\<lambda>item. resolve_at X t (show_val (ps_io X) item)) items) (\<lambda>resolved.
        let written = remdups resolved; expected = expected_files plugin_root in
        exc_bind (map_exc (inside_output_root X t (ap_output_root P)) written) (\<lambda>_.
        exc_bind (if length written \<noteq> length expected then Inr False else all_exc (written_as X t written) expected) (\<lambda>complete.
        if \<not> complete then Inl (ValueError ''generated plugin file set is incomplete or unexpected'')
        else if \<not> list_all (\<lambda>p. is_file (stat_entry X t p)) expected then Inl (ValueError ''generated plugin files are missing'')
        else Inr ())))
    | _ \<Rightarrow> Inl (ValueError ''generated written_files must be an array''))"

definition check_manifest ::
  "plugin_site \<Rightarrow> file_tree \<Rightarrow> string list \<Rightarrow> string \<Rightarrow> string \<Rightarrow> string \<Rightarrow> py_exc + unit" where
  "check_manifest X t manifest_path plugin_id family capability =
     (case utf8_decode (entry_bytes X t manifest_path) of
        None \<Rightarrow> Inl (PyExc ''UnicodeDecodeError'' [])
      | Some s \<Rightarrow> exc_bind (json_loads (ps_io X) s) (\<lambda>v. case v of
          PDict manifest \<Rightarrow>
            if dget_or PNone manifest ''plugin_id'' \<noteq> PStr plugin_id then Inl (ValueError ''manifest plugin_id mismatch'')
            else if dget_or PNone manifest ''plugin_family'' \<noteq> PStr family then Inl (ValueError ''manifest plugin_family mismatch'')
            else if dget_or PNone manifest ''entrypoint'' \<noteq> PStr ''plugin.py:run'' then Inl (ValueError ''manifest entrypoint mismatch'')
            else (case dget_or PNone manifest ''requested_capabilities'' of
                PList capabilities \<Rightarrow>
                  if PStr capability \<in> set capabilities then Inr ()
                  else Inl (ValueError ''manifest does not declare requested capability'')
              | _ \<Rightarrow> Inl (ValueError ''manifest does not declare requested capability''))
        | _ \<Rightarrow> Inl (malformed ''manifest'')))"

definition validate_result ::
  "plugin_site \<Rightarrow> file_tree \<Rightarrow> acquisition_policy \<Rightarrow> pydict \<Rightarrow> string \<Rightarrow> string \<Rightarrow> py_exc + generated_capability" where
  "validate_result X t P process capability family =
     exc_bind (generator_payload (ps_io X) process) (\<lambda>payload.
     exc_bind (claimed_root X t P family payload) (\<lambda>(plugin_id, plugin_root).
     exc_bind (check_written X t P plugin_root payload) (\<lambda>_.
     let manifest_path = plugin_root @ [''manifest.json''] in
     exc_bind (check_manifest X t manifest_path plugin_id family capability) (\<lambda>_.
       Inr \<lparr>gc_capability = capability, gc_family = family, gc_plugin_id = plugin_id, gc_plugin_root = full_path plugin_root,
         gc_manifest_path = full_path manifest_path,
         gc_file_sha256 = map (\<lambda>name. (name, entry_digest X t (plugin_root @ [name]))) required_files\<rparr>))))"

section \<open>Acquiring\<close>

definition generator_argv :: "acquisition_policy \<Rightarrow> string \<Rightarrow> string \<Rightarrow> string list" where
  "generator_argv P family capability = [ap_python_executable P, ''-m'', ''plugin_generator'', ''generate'',
     ''--family'', family, ''--capability'', capability, ''--output'', full_path (ap_output_root P)] @
     concat (map (\<lambda>c. [''--constraint'', c]) (ap_constraints P))"

definition generator_spec :: "acquisition_policy \<Rightarrow> string \<Rightarrow> string \<Rightarrow> subprocess_spec" where
  "generator_spec P family capability = default_subprocess_spec\<lparr>ss_argv := generator_argv P family capability,
     ss_timeout_seconds := ap_timeout_seconds P, ss_max_output_bytes := ap_max_output_bytes P,
     ss_environment := [(''PYTHONIOENCODING'', ''utf-8''), (''PYTHONUTF8'', ''1'')]\<rparr>"

definition admit_result ::
  "'w plugin_host \<Rightarrow> acquisition_policy \<Rightarrow> string \<Rightarrow> string \<Rightarrow> capability_registry \<Rightarrow> py_exc + pydict \<Rightarrow> 'w process_world
   \<Rightarrow> (py_exc + bool) \<times> capability_registry \<times> 'w process_world"
where
  "admit_result H P capability family R out s =
     (case exc_bind out (\<lambda>process. exc_bind (validate_result (uh_site H) (tree_now H s) P process capability family) (\<lambda>d.
         register_capability (uh_site H) (tree_now H s) d R (pw_files s))) of
        Inl e \<Rightarrow> (Inl e, R, s)
      | Inr (R', files) \<Rightarrow> (Inr True, R', s\<lparr>pw_files := files\<rparr>))"

definition acquire ::
  "'w plugin_host \<Rightarrow> acquisition_policy \<Rightarrow> string \<Rightarrow> task_node \<Rightarrow> task_graph \<Rightarrow> capability_registry \<Rightarrow> 'w process_world
   \<Rightarrow> ((py_exc + bool) \<times> capability_registry \<times> 'w process_world) option"
where
  "acquire H P capability n g R s = (case get_capability (uh_site H) (tree_now H s) R capability of
      Inl e \<Rightarrow> Some (Inl e, R, s)
    | Inr (Some d) \<Rightarrow> Some (Inr True, R, s)
    | Inr None \<Rightarrow> (case dget (ap_capability_families P) capability of
          None \<Rightarrow> Some (Inr False, R, s)
        | Some family \<Rightarrow> (case uh_mkdir H (ap_output_root P) (pw_world s) of
              (Some e, w) \<Rightarrow> Some (Inl e, R, s\<lparr>pw_world := w\<rparr>)
            | (None, w) \<Rightarrow> map_option (\<lambda>(out, s2). admit_result H P capability family R out s2)
                (run_bounded H (full_path (ap_generator_root P)) (generator_spec P family capability)
                  (''acquire-'' @ tg_id g @ ''-'' @ nd_id n) (''Acquire '' @ capability) (s\<lparr>pw_world := w\<rparr>)))))"

end
