(* ===== verification/Plugin_Properties.thy ===== *)
theory Plugin_Properties
  imports Plugin_Paths Plugin_Runtime Plugin_Acquisition Release_Properties
begin

text \<open>
  What the plugin subsystem guarantees about code that it did not write: what is registered, when a leaf may run it,
  what it can reach in the sandbox, and which source the worker executes.
\<close>

section \<open>Acquiring\<close>

lemma all_exc_Inr: "all_exc f xs = Inr True \<Longrightarrow> \<forall>x\<in>set xs. f x = Inr True"
  by (induction xs) (auto simp: exc_bind_Inr split: if_splits)

lemma current_digest:
  assumes "descriptor_is_current X t root_dir d = Inr True"
  shows "\<exists>base. resolve_at X t (gc_plugin_root d) = Inr base \<and> prefix root_dir base \<and> set (dkeys (gc_file_sha256 d)) = set required_files \<and>
    (\<forall>(name, digest)\<in>set (gc_file_sha256 d). is_file (stat_entry X t (base @ [name])) \<and> entry_digest X t (base @ [name]) = digest)"
  using assms
  by (auto simp: descriptor_is_current_def descriptor_inside_root_def exc_bind_Inr list_ex_iff split: if_splits)

lemma valid_plugin_part: "valid_plugin_id s \<Longrightarrow> part_ok s"
proof -
  assume ok: "valid_plugin_id s"
  then obtain c cs where s: "s = c # cs" "lower_or_digit c" "list_all (\<lambda>x. lower_or_digit x \<or> x \<in> {CHR ''_'', CHR ''-''}) cs"
    by (auto simp: valid_plugin_id_def split: list.splits)
  have "\<not> lower_or_digit (CHR ''/'')" "\<not> lower_or_digit (CHR ''.'')" by code_simp+
  then show "part_ok s" using s by (auto simp: part_ok_def list_all_iff)
qed

text \<open>An accepted result names a settled root and the files that are there.\<close>

lemma validated_result:
  assumes "validate_result X t P process capability family = Inr d" "links_named t" "list_all part_ok (ap_output_root P)"
  obtains base where "settled t base" "gc_capability d = capability" "gc_family d = family"
    "gc_plugin_root d = full_path base" "gc_manifest_path d = full_path (base @ [''manifest.json''])"
    "gc_file_sha256 d = map (\<lambda>name. (name, entry_digest X t (base @ [name]))) required_files"
    "\<forall>name\<in>set required_files. is_file (stat_entry X t (base @ [name]))"
proof -
  from assms(1) obtain payload plugin_id base where root: "claimed_root X t P family payload = Inr (plugin_id, base)"
    and files: "check_written X t P base payload = Inr ()"
    and d: "gc_capability d = capability" "gc_family d = family" "gc_plugin_root d = full_path base"
      "gc_manifest_path d = full_path (base @ [''manifest.json''])"
      "gc_file_sha256 d = map (\<lambda>name. (name, entry_digest X t (base @ [name]))) required_files"
    by (auto simp: validate_result_def exc_bind_Inr Let_def)
  from root have id: "valid_plugin_id plugin_id" and
    real: "real_path (ps_links X) t [] (ap_output_root P @ [plugin_id]) = Inr base"
    by (auto simp: claimed_root_def exc_bind_Inr split: pyval.splits if_splits)
  have "settled t base" using real_path_settled [OF real assms(2)] assms(3) valid_plugin_part [OF id] by simp
  moreover have "\<forall>name\<in>set required_files. is_file (stat_entry X t (base @ [name]))"
    using files by (auto simp: check_written_def exc_bind_Inr Let_def expected_files_def list_all_iff split: pyval.splits if_splits)
  ultimately show thesis using that d by blast
qed

text \<open>A result that can be registered is current from then on.\<close>

lemma validated_current:
  assumes "validate_result X t P process capability family = Inr d" "links_named t" "list_all part_ok (ap_output_root P)"
    "descriptor_inside_root X t artifacts d = Inr True"
  shows "descriptor_is_current X t artifacts d = Inr True"
proof -
  obtain base where base: "settled t base" and d: "gc_plugin_root d = full_path base"
    "gc_manifest_path d = full_path (base @ [''manifest.json''])"
    "gc_file_sha256 d = map (\<lambda>name. (name, entry_digest X t (base @ [name]))) required_files"
    "\<forall>name\<in>set required_files. is_file (stat_entry X t (base @ [name]))"
    by (rule validated_result [OF assms(1-3)])
  have root: "resolve_at X t (gc_plugin_root d) = Inr base" unfolding d(1) by (rule resolve_settled [OF base])
  have manifest: "resolve_at X t (gc_manifest_path d) = real_path (ps_links X) t [] (base @ [''manifest.json''])"
    unfolding d(2) by (rule resolve_below [OF base]) (rule required_parts, simp add: required_files_def)
  obtain m where m: "real_path (ps_links X) t [] (base @ [''manifest.json'']) = Inr m"
    using assms(4) manifest by (auto simp: descriptor_inside_root_def exc_bind_Inr)
  have keys: "set (dkeys (gc_file_sha256 d)) = set required_files" by (simp add: d(3) dkeys_def comp_def)
  have matches: "\<not> list_ex (\<lambda>(name, expected). \<not> is_file (stat_entry X t (base @ [name])) \<or>
      entry_digest X t (base @ [name]) \<noteq> expected) (gc_file_sha256 d)"
    using d(4) by (auto simp: d(3) list_ex_iff)
  show ?thesis
    unfolding descriptor_is_current_def root manifest assms(4) m
    using keys matches m by simp
qed

lemma admitted_result:
  assumes "admit_result H P capability family R out s = (Inr True, R', s')" "kr_artifact_root R = ap_output_root P"
    "links_named (tree_now H s)" "list_all part_ok (ap_output_root P)"
  shows "\<exists>d. get_capability (uh_site H) (tree_now H s) R' capability = Inr (Some d) \<and> gc_capability d = capability \<and> gc_family d = family \<and>
    R' = R\<lparr>kr_generated := dset capability d (kr_generated R)\<rparr> \<and>
    (\<forall>e. dget (kr_generated R) capability = Some e \<longrightarrow> same_descriptor e d) \<and>
    s' = s\<lparr>pw_files := save_capabilities (ji_codec (ps_io (uh_site H))) R' (pw_files s)\<rparr>"
proof -
  let ?X = "uh_site H" and ?t = "tree_now H s"
  from assms(1) obtain process d files where valid: "validate_result ?X ?t P process capability family = Inr d"
    and reg: "register_capability ?X ?t d R (pw_files s) = Inr (R', files)" and s': "s' = s\<lparr>pw_files := files\<rparr>"
    by (auto simp: admit_result_def exc_bind_Inr split: sum.splits)
  have names: "gc_capability d = capability" "gc_family d = family"
    by (rule validated_result [OF valid assms(3,4)], simp)+
  from reg have inside: "descriptor_inside_root ?X ?t (kr_artifact_root R) d = Inr True"
    and R': "R' = R\<lparr>kr_generated := dset capability d (kr_generated R)\<rparr>"
    and same: "\<forall>e. dget (kr_generated R) capability = Some e \<longrightarrow> same_descriptor e d"
    and files: "files = save_capabilities (ji_codec (ps_io ?X)) R' (pw_files s)"
    by (auto simp: register_capability_def exc_bind_Inr Let_def names split: if_splits)
  have "descriptor_is_current ?X ?t (kr_artifact_root R') d = Inr True"
    using validated_current [OF valid assms(3,4) inside] by (simp add: R')
  then have "get_capability ?X ?t R' capability = Inr (Some d)" by (simp add: get_capability_def R')
  then show ?thesis using names R' same files s' by blast
qed

text \<open>
  C24: acquiring a capability. A call that fails leaves the registry as it was; one that returns false found no
  current descriptor and no family for it, and changed nothing. When it returns true the capability is available: it was
  so before and nothing has changed, or the result of the generator has been registered for the family of the
  policy, as the only change, and written to the registry's file. A capability that was registered before but
  had become stale is accepted only with the same files.
\<close>

theorem acquire_admits:
  fixes H :: "'w plugin_host"
  assumes "acquire H P capability n g R s = Some (result, R', s')" "mk_acquirer P R = Inr ()"
    "list_all part_ok (ap_output_root P)" "links_named (tree_now H s')"
  defines "X \<equiv> uh_site H"
  shows "case result of
      Inl e \<Rightarrow> R' = R
    | Inr False \<Rightarrow> R' = R \<and> s' = s \<and> get_capability X (tree_now H s) R capability = Inr None \<and>
        dget (ap_capability_families P) capability = None
    | Inr True \<Rightarrow> \<exists>d. get_capability X (tree_now H s') R' capability = Inr (Some d) \<and>
        (R' = R \<and> s' = s \<or>
         (dget (ap_capability_families P) capability = Some (gc_family d) \<and> gc_capability d = capability \<and>
          R' = R\<lparr>kr_generated := dset capability d (kr_generated R)\<rparr> \<and>
          (\<forall>e. dget (kr_generated R) capability = Some e \<longrightarrow> same_descriptor e d) \<and>
          dget (pw_files s') (full_path (kr_storage_path R)) =
            Some (jc_dumps (ji_codec (ps_io X)) (capabilities_payload R') @ [CHR 0x0A])))"
proof (cases "get_capability X (tree_now H s) R capability")
  case (Inl e)
  then show ?thesis using assms(1) by (auto simp: acquire_def X_def)
next
  case (Inr found)
  show ?thesis
  proof (cases found)
    case (Some d)
    then show ?thesis using Inr assms(1) by (auto simp: acquire_def X_def)
  next
    case None
    show ?thesis
    proof (cases "dget (ap_capability_families P) capability")
      case no: None
      then show ?thesis using None Inr assms(1) by (auto simp: acquire_def X_def)
    next
      case (Some family)
      show ?thesis
      proof (cases "uh_mkdir H (ap_output_root P) (pw_world s)")
        case (Pair failure w)
        show ?thesis
        proof (cases failure)
          case (Some e)
          then show ?thesis using Pair \<open>dget (ap_capability_families P) capability = Some family\<close> None Inr assms(1)
            by (auto simp: acquire_def X_def)
        next
          case made: None
          obtain out s2 where run: "run_bounded H (full_path (ap_generator_root P)) (generator_spec P family capability)
              (''acquire-'' @ tg_id g @ ''-'' @ nd_id n) (''Acquire '' @ capability) (s\<lparr>pw_world := w\<rparr>) = Some (out, s2)"
            and admit: "admit_result H P capability family R out s2 = (result, R', s')"
            using made Pair Some None Inr assms(1) by (auto simp: acquire_def X_def)
          have world: "pw_world s' = pw_world s2" using admit by (auto simp: admit_result_def split: sum.splits)
          show ?thesis
          proof (cases result)
            case (Inl e)
            then show ?thesis using admit by (auto simp: admit_result_def split: sum.splits)
          next
            case (Inr b)
            then have b: "result = Inr True" using admit by (auto simp: admit_result_def split: sum.splits)
            have "kr_artifact_root R = ap_output_root P" using assms(2) by (simp add: mk_acquirer_def split: if_splits)
            from admitted_result [OF admit [unfolded b] this] assms(3,4) world obtain d where
              d: "get_capability X (tree_now H s') R' capability = Inr (Some d)" "gc_capability d = capability" "gc_family d = family"
                "R' = R\<lparr>kr_generated := dset capability d (kr_generated R)\<rparr>"
                "\<forall>e. dget (kr_generated R) capability = Some e \<longrightarrow> same_descriptor e d"
                "s' = s2\<lparr>pw_files := save_capabilities (ji_codec (ps_io X)) R' (pw_files s2)\<rparr>"
              unfolding X_def by auto
            then have "dget (pw_files s') (full_path (kr_storage_path R)) =
                Some (jc_dumps (ji_codec (ps_io X)) (capabilities_payload R') @ [CHR 0x0A])"
              by (simp add: save_capabilities_def)
            then show ?thesis using d Some b by auto
          qed
        qed
      qed
    qed
  qed
qed

text \<open>The example: a generator that writes the plugin \<open>/out/p\<close>, whose manifest reads as given.\<close>

definition plug_tree :: file_tree where
  "plug_tree = [([''g''], Dir_Entry), ([''out''], Dir_Entry), ([''out'', ''p''], Dir_Entry),
     ([''out'', ''p'', ''README.md''], File_Entry []), ([''out'', ''p'', ''manifest.json''], File_Entry (utf8 ''m'')),
     ([''out'', ''p'', ''plugin.py''], File_Entry (utf8 ''c''))]"

definition plug_manifest :: pydict where
  "plug_manifest = [(''plugin_id'', PStr ''p''), (''plugin_family'', PStr ''f''), (''entrypoint'', PStr ''plugin.py:run''),
     (''requested_capabilities'', pstrs [''cap''])]"

definition plug_io :: "pydict \<Rightarrow> json_io" where
  "plug_io payload = \<lparr>ji_codec = tally_codec\<lparr>jc_loads := (\<lambda>s. if s = ''ok'' then Some (PDict payload)
     else if s = ''m'' then Some (PDict plug_manifest) else jc_loads tally_codec s)\<rparr>, ji_str = (\<lambda>v. []), ji_error = (\<lambda>s. [])\<rparr>"

definition plug_host :: "pydict \<Rightarrow> unit plugin_host" where
  "plug_host payload = \<lparr>uh_run = (gate_host 0 (plug_io payload))\<lparr>rh_tree := (\<lambda>w. plug_tree)\<rparr>,
     uh_site = \<lparr>ps_links = 0, ps_cwd = [], ps_sha256 = (\<lambda>b. b), ps_io = plug_io payload\<rparr>, uh_worker_path = [''w.py''],
     uh_compact = (\<lambda>d. Inr ''{}''), uh_mkdir = (\<lambda>p w. (None, w))\<rparr>"

definition plug_policy :: acquisition_policy where
  "plug_policy = \<lparr>ap_generator_root = [''g''], ap_output_root = [''out''], ap_capability_families = [(''cap'', ''f'')],
     ap_python_executable = ''python'', ap_constraints = [''offline''], ap_timeout_seconds = 60, ap_max_output_bytes = 1000\<rparr>"

definition no_capabilities :: capability_registry where
  "no_capabilities = \<lparr>kr_storage_path = [''r.json''], kr_artifact_root = [''out''], kr_built_in = [], kr_generated = []\<rparr>"

definition plug_said :: pydict where
  "plug_said = [(''status'', PStr ''success''), (''plugin_id'', PStr ''p''), (''family'', PStr ''f''),
     (''materialized_root'', PStr ''/out''),
     (''written_files'', pstrs [''/out/p/README.md'', ''/out/p/manifest.json'', ''/out/p/plugin.py''])]"

definition plug_node :: task_node where
  "plug_node = (new_node ''n'' ''goal'')\<lparr>nd_required_capabilities := [''cap'']\<rparr>"

lemma plug_generated:
  "case run_bounded (plug_host plug_said) ''/g'' (generator_spec plug_policy ''f'' ''cap'') ''acquire-g-n'' ''Acquire cap'' gate_world of
     Some (Inr process, s2) \<Rightarrow> prompt_exit 0 process | _ \<Rightarrow> False"
  by code_simp

lemma plug_valid:
  assumes "prompt_exit 0 process"
  shows "\<exists>d. validate_result (uh_site (plug_host plug_said)) plug_tree plug_policy process ''cap'' ''f'' = Inr d \<and>
    descriptor_inside_root (uh_site (plug_host plug_said)) plug_tree [''out''] d = Inr True"
proof -
  have "generator_payload (plug_io plug_said) process = Inr plug_said"
    using assms by (simp add: generator_payload_def prompt_exit_def dget_or_def dget_def show_val_def json_loads_def plug_io_def eq_num_def plug_said_def)
  moreover have "claimed_root (uh_site (plug_host plug_said)) plug_tree plug_policy ''f'' plug_said = Inr (''p'', [''out'', ''p''])"
    "check_written (uh_site (plug_host plug_said)) plug_tree plug_policy [''out'', ''p''] plug_said = Inr ()"
    "check_manifest (uh_site (plug_host plug_said)) plug_tree [''out'', ''p'', ''manifest.json''] ''p'' ''f'' ''cap'' = Inr ()"
    by code_simp+
  moreover have "ps_io (uh_site (plug_host plug_said)) = plug_io plug_said" by (simp add: plug_host_def)
  moreover have "resolve_at (uh_site (plug_host plug_said)) plug_tree (full_path [''out'', ''p'']) = Inr [''out'', ''p'']"
    "resolve_at (uh_site (plug_host plug_said)) plug_tree (full_path [''out'', ''p'', ''manifest.json'']) = Inr [''out'', ''p'', ''manifest.json'']"
    by code_simp+
  ultimately show ?thesis by (simp add: validate_result_def descriptor_inside_root_def)
qed

definition plug_graph :: task_graph where
  "plug_graph = \<lparr>tg_id = ''g'', tg_root_id = ''n'', tg_nodes = [(''n'', plug_node)],
     tg_budget = \<lparr>tb_max_nodes = 8, tb_max_depth = 2, tb_max_leaf_executions = 4\<rparr>,
     tg_leaf_executions = 0, tg_events = [], tg_stop_reason = None\<rparr>"

lemma plug_acquired:
  "\<exists>R' s'. acquire (plug_host plug_said) plug_policy ''cap'' plug_node plug_graph no_capabilities gate_world = Some (Inr True, R', s')"
proof -
  let ?H = "plug_host plug_said"
  from case_launched [OF plug_generated] obtain process s2 where
    run: "run_bounded ?H ''/g'' (generator_spec plug_policy ''f'' ''cap'') ''acquire-g-n'' ''Acquire cap'' gate_world = Some (Inr process, s2)"
    and process: "prompt_exit 0 process" by blast
  from plug_valid [OF process] obtain d where
    d: "validate_result (uh_site ?H) plug_tree plug_policy process ''cap'' ''f'' = Inr d"
      "descriptor_inside_root (uh_site ?H) plug_tree [''out''] d = Inr True" by blast
  have parts: "rh_tree (uh_run ?H) w = plug_tree" "uh_mkdir ?H p w = (None, w)" for p w by (simp_all add: plug_host_def)
  have "register_capability (uh_site ?H) plug_tree d no_capabilities files =
      (let r = no_capabilities\<lparr>kr_generated := [(gc_capability d, d)]\<rparr>
       in Inr (r, save_capabilities (ji_codec (ps_io (uh_site ?H))) r files))" for files
    using d(2) by (simp add: register_capability_def no_capabilities_def Let_def dset_def)
  then have "\<exists>R' s'. admit_result ?H plug_policy ''cap'' ''f'' no_capabilities (Inr process) s2 = (Inr True, R', s')"
    using d(1) by (simp add: admit_result_def parts Let_def)
  moreover have "get_capability (uh_site ?H) plug_tree no_capabilities ''cap'' = Inr None"
    by (simp add: get_capability_def no_capabilities_def)
  moreover have "dget (ap_capability_families plug_policy) ''cap'' = Some ''f''" "full_path (ap_generator_root plug_policy) = ''/g''"
    "tg_id plug_graph = ''g''" "nd_id plug_node = ''n''" by code_simp+
  moreover have "run_bounded ?H ''/g'' (generator_spec plug_policy ''f'' ''cap'') ''acquire-g-n'' ''Acquire cap''
      (gate_world\<lparr>pw_world := ()\<rparr>) = Some (Inr process, s2)"
    using run by (simp add: gate_world_def)
  ultimately show ?thesis by (simp add: acquire_def parts)
qed

lemma plug_setting:
  "mk_acquirer plug_policy no_capabilities = Inr ()" "list_all part_ok (ap_output_root plug_policy)" "links_named plug_tree"
  by code_simp+

theorem acquire_admits_witness:
  "\<exists>R' s' d. acquire (plug_host plug_said) plug_policy ''cap'' plug_node plug_graph no_capabilities gate_world = Some (Inr True, R', s') \<and>
     get_capability (uh_site (plug_host plug_said)) plug_tree R' ''cap'' = Inr (Some d) \<and> gc_family d = ''f''"
proof -
  obtain R' s' where run: "acquire (plug_host plug_said) plug_policy ''cap'' plug_node plug_graph no_capabilities gate_world = Some (Inr True, R', s')"
    using plug_acquired by blast
  have tree: "tree_now (plug_host plug_said) s' = plug_tree" by (simp add: plug_host_def)
  have none: "get_capability X t no_capabilities ''cap'' = Inr None" for X t
    by (simp add: get_capability_def no_capabilities_def)
  have family: "dget (ap_capability_families plug_policy) ''cap'' = Some ''f''" by code_simp
  show ?thesis
    using acquire_admits [OF run plug_setting(1,2) plug_setting(3) [folded tree]] run none family unfolding tree by auto
qed

section \<open>Running a plugin\<close>

lemma unique_keys_single: "unique_keys xs = [c] \<Longrightarrow> set xs = {c}"
  by (metis unique_keys_def list.set(1) list.set(2) set_remdups set_rev)

text \<open>A process whose answer the executor accepts.\<close>

definition plugin_done :: "json_io \<Rightarrow> plugin_invocation \<Rightarrow> pydict \<Rightarrow> bool" where
  "plugin_done IO invocation process \<longleftrightarrow> \<not> truthy (dget_or PNone process ''timed_out'') \<and>
     \<not> truthy (dget_or PNone process ''stdout_truncated'') \<and> \<not> truthy (dget_or PNone process ''stderr_truncated'') \<and>
     (\<exists>envelope output. json_loads IO (show_val IO (dget_or (PStr []) process ''stdout'')) = Inr (PDict envelope) \<and>
        envelope_ok process envelope \<and> dget_or PNone envelope ''output'' = PDict output \<and>
        set (ui_required_output_fields invocation) \<subseteq> set (dkeys output) \<and> successful_output invocation output)"

lemma outcome_status [simp]:
  "lr_status (leaf_outcome status summary failure evidence) = status" "lr_status (plugin_failed error evidence) = ''failed''"
  "lr_status (plugin_blocked error capabilities evidence) = ''blocked''"
  by (simp_all add: leaf_outcome_def plain_result_def plugin_failed_def plugin_blocked_def)

lemma output_completed: "lr_status (interpret_output IO plugin_id invocation base output) =
    (if set (ui_required_output_fields invocation) \<subseteq> set (dkeys output) \<and> successful_output invocation output then ''completed'' else ''failed'')"
  by (auto simp: interpret_output_def Let_def filter_empty_conv)

lemma envelope_completed: "lr_status (interpret_envelope IO plugin_id invocation base process envelope) =
    (if envelope_ok process envelope \<and> (\<exists>output. dget_or PNone envelope ''output'' = PDict output \<and>
        set (ui_required_output_fields invocation) \<subseteq> set (dkeys output) \<and> successful_output invocation output)
     then ''completed'' else ''failed'')"
  by (cases "dget_or PNone envelope ''output''") (simp_all add: interpret_envelope_def output_completed Let_def)

lemma interpret_status:
  assumes "interpret_plugin IO capability plugin_id invocation backend process = Inr r"
  shows "lr_status r = (if truthy (dget_or PNone process ''timed_out'') then ''blocked''
     else if plugin_done IO invocation process then ''completed'' else ''failed'')"
proof -
  define silent where "silent \<longleftrightarrow> truthy (dget_or PNone process ''timed_out'')"
  define cut where "cut \<longleftrightarrow> truthy (dget_or PNone process ''stdout_truncated'') \<or> truthy (dget_or PNone process ''stderr_truncated'')"
  define answer where "answer = json_loads IO (show_val IO (dget_or (PStr []) process ''stdout''))"
  have r: "r = (if silent then plugin_blocked ''generated_plugin_timeout'' None (base_evidence capability plugin_id backend process)
      else if cut then plugin_failed ''generated_plugin_output_truncated'' (base_evidence capability plugin_id backend process)
      else case answer of
        Inl e \<Rightarrow> plugin_failed ''generated_plugin_worker_invalid_json'' (base_evidence capability plugin_id backend process)
      | Inr (PDict envelope) \<Rightarrow> interpret_envelope IO plugin_id invocation (base_evidence capability plugin_id backend process) process envelope
      | Inr _ \<Rightarrow> plugin_failed ''generated_plugin_worker_invalid_envelope'' (base_evidence capability plugin_id backend process))"
    using assms unfolding interpret_plugin_def Let_def silent_def cut_def answer_def
    by (auto split: sum.splits pyval.splits if_splits)
  have fin: "plugin_done IO invocation process \<longleftrightarrow> \<not> silent \<and> \<not> cut \<and> (\<exists>envelope output. answer = Inr (PDict envelope) \<and>
        envelope_ok process envelope \<and> dget_or PNone envelope ''output'' = PDict output \<and>
        set (ui_required_output_fields invocation) \<subseteq> set (dkeys output) \<and> successful_output invocation output)"
    unfolding plugin_done_def silent_def cut_def answer_def by blast
  show ?thesis
  proof (cases "silent \<or> cut")
    case True
    then show ?thesis unfolding r fin silent_def [symmetric] by auto
  next
    case False
    show ?thesis
    proof (cases "\<exists>envelope. answer = Inr (PDict envelope)")
      case True
      then obtain envelope where "answer = Inr (PDict envelope)" by blast
      then show ?thesis using False unfolding r fin silent_def [symmetric] by (simp add: envelope_completed)
    next
      case no: False
      then show ?thesis using False unfolding r fin silent_def [symmetric] by (auto split: sum.splits pyval.splits)
    qed
  qed
qed

lemma current_registered:
  assumes "get_capability X t R capability = Inr (Some d)"
  shows "\<exists>base. dget (kr_generated R) capability = Some d \<and> resolve_at X t (gc_plugin_root d) = Inr base \<and> prefix (kr_artifact_root R) base \<and>
    (\<forall>name\<in>set required_files. dget (gc_file_sha256 d) name = Some (entry_digest X t (base @ [name])))"
proof -
  have d: "dget (kr_generated R) capability = Some d" "descriptor_is_current X t (kr_artifact_root R) d = Inr True"
    using assms by (auto simp: get_capability_def exc_bind_Inr split: option.splits if_splits)
  from current_digest [OF d(2)] obtain base where base: "resolve_at X t (gc_plugin_root d) = Inr base" "prefix (kr_artifact_root R) base"
    "set (dkeys (gc_file_sha256 d)) = set required_files"
    "\<forall>(name, digest)\<in>set (gc_file_sha256 d). is_file (stat_entry X t (base @ [name])) \<and> entry_digest X t (base @ [name]) = digest" by blast
  have "dget (gc_file_sha256 d) name = Some (entry_digest X t (base @ [name]))" if "name \<in> set required_files" for name
  proof -
    have "name \<in> set (dkeys (gc_file_sha256 d))" using that base(3) by simp
    then obtain digest where digest: "dget (gc_file_sha256 d) name = Some digest"
      by (cases "dget (gc_file_sha256 d) name") (auto simp: dget_def dkeys_def map_of_eq_None_iff)
    then have "(name, digest) \<in> set (gc_file_sha256 d)" by (simp add: dget_def map_of_SomeD)
    then show ?thesis using base(4) digest by auto
  qed
  then show ?thesis using d(1) base(1,2) by blast
qed

text \<open>How a plugin is launched: in the sandbox when the policy asks for it, after a probe, and as a plain process otherwise.\<close>

definition launches ::
  "'w plugin_host \<Rightarrow> 'w invocation_policy \<Rightarrow> plugin_invocation \<Rightarrow> generated_capability \<Rightarrow> string \<Rightarrow> string \<Rightarrow> string
   \<Rightarrow> 'w process_world \<Rightarrow> string list \<Rightarrow> 'w process_world \<Rightarrow> bool"
where
  "launches H P invocation d run_id digest payload_json s argv s1 \<longleftrightarrow>
     (if ui_requires_os_sandbox invocation
        then \<exists>L. vp_sandbox_launcher P = Some L \<and> ul_probe L (gc_plugin_root d) run_id s = Some (Inr True, s1) \<and>
          ul_build_argv L (gc_plugin_root d) (uh_worker_path H) digest payload_json s1 = Inr argv
      else s1 = s \<and> argv = process_argv H P (plugin_file d) digest payload_json)"

lemma and_then_returns: "and_then x f = Some (Inr v, w) \<longleftrightarrow> (\<exists>a w1. x = Some (Inr a, w1) \<and> f a w1 = Some (Inr v, w))"
  by (auto simp: and_then_def split: option.splits sum.splits)

lemma plan_launch_cases:
  assumes "plan_launch H P invocation d capabilities run_id payload_json s = Some (Inr planned, s1)"
    "plugin_digest d = Inr digest"
  shows "case planned of Inl refused \<Rightarrow> lr_status refused = ''blocked''
    | Inr (argv, backend) \<Rightarrow> launches H P invocation d run_id digest payload_json s argv s1"
proof (cases "ui_requires_os_sandbox invocation")
  case False
  then show ?thesis using assms by (auto simp: plan_launch_def launches_def)
next
  case True
  show ?thesis
  proof (cases "vp_sandbox_launcher P")
    case None
    then show ?thesis using True assms by (auto simp: plan_launch_def)
  next
    case (Some L)
    then obtain available s2 where "ul_probe L (gc_plugin_root d) run_id s = Some (Inr available, s2)"
      "(if \<not> available
          then Some (Inr (Inl (plugin_blocked (''generated_plugin_os_sandbox_unavailable:'' @ ul_backend_name L) (Some capabilities)
              [(''sandbox_backend'', PStr (ul_backend_name L))])), s2)
          else Some (exc_bind (plugin_digest d) (\<lambda>digest.
            exc_bind (ul_build_argv L (gc_plugin_root d) (uh_worker_path H) digest payload_json s2)
              (\<lambda>argv. Inr (Inr (argv, ul_backend_name L)))), s2)) = Some (Inr planned, s1)"
      using True assms(1) unfolding plan_launch_def and_then_returns by (auto simp: and_then_returns)
    then show ?thesis using True Some assms(2) by (cases available) (auto simp: launches_def exc_bind_Inr)
  qed
qed

lemma plugin_execute_cases:
  fixes H :: "'w plugin_host"
  assumes "plugin_execute H R P n g s = Some (Inr r, s')"
  shows "(s' = s \<and> lr_status r = ''blocked'') \<or> (\<exists>capability invocation d payload_json planned s1.
     unique_keys (nd_required_capabilities n) = [capability] \<and> dget (vp_invocations P) capability = Some invocation \<and>
     get_capability (uh_site H) (tree_now H s) R capability = Inr (Some d) \<and> uh_compact H (ui_payload invocation) = Inr payload_json \<and>
     plan_launch H P invocation d [capability] (tg_id g @ ''-'' @ nd_id n) payload_json s = Some (Inr planned, s1) \<and>
     (case planned of Inl refused \<Rightarrow> Some (Inr refused, s1)
      | Inr (argv, backend) \<Rightarrow> run_plugin H P invocation d capability (tg_id g @ ''-'' @ nd_id n) argv backend s1) = Some (Inr r, s'))"
proof (cases "\<exists>c. unique_keys (nd_required_capabilities n) = [c]")
  case False
  then show ?thesis using assms by (auto simp: plugin_execute_def Let_def split: list.splits)
next
  case True
  define run_id where "run_id = tg_id g @ ''-'' @ nd_id n"
  from True obtain c where c: "unique_keys (nd_required_capabilities n) = [c]" by blast
  show ?thesis
  proof (cases "dget (vp_invocations P) c")
    case None
    then show ?thesis using assms c by (auto simp: plugin_execute_def Let_def)
  next
    case (Some invocation)
    show ?thesis
    proof (cases "\<exists>d. get_capability (uh_site H) (tree_now H s) R c = Inr (Some d)")
      case False
      then show ?thesis using assms c Some by (auto simp: plugin_execute_def Let_def split: sum.splits option.splits)
    next
      case True
      then obtain d where d: "get_capability (uh_site H) (tree_now H s) R c = Inr (Some d)" by blast
      then obtain payload_json where payload: "uh_compact H (ui_payload invocation) = Inr payload_json"
        using assms c Some by (cases "uh_compact H (ui_payload invocation)") (auto simp: plugin_execute_def Let_def)
      have "and_then (plan_launch H P invocation d [c] run_id payload_json s) (\<lambda>planned s1. case planned of
            Inl refused \<Rightarrow> Some (Inr refused, s1)
          | Inr (argv, backend) \<Rightarrow> run_plugin H P invocation d c run_id argv backend s1) = Some (Inr r, s')"
        using assms unfolding plugin_execute_def Let_def run_id_def c d by (simp add: Some d payload)
      then show ?thesis using c Some d payload unfolding and_then_returns run_id_def by blast
    qed
  qed
qed

text \<open>
  C22: a leaf runs a generated plugin. Whatever is launched, and whatever is not a refusal, belongs to the one
  capability that the leaf names, that the policy admits and that is registered, with a plugin inside the artifact root whose files
  have exactly the registered hashes. The process is the worker with the hash of the source, or, when the policy asks
  for it, what the sandbox launcher builds after a successful probe; the leaf completes exactly when the process answers
  in time, in full and with the fields and a status that the policy accepts.
\<close>

theorem plugin_leaf_gated:
  fixes H :: "'w plugin_host"
  assumes "plugin_execute H R P n g s = Some (Inr r, s')"
  defines "X \<equiv> uh_site H" and "t \<equiv> tree_now H s"
  shows "lr_status r \<in> {''completed'', ''failed'', ''blocked''} \<and>
    (s' \<noteq> s \<or> lr_status r \<noteq> ''blocked'' \<longrightarrow> (\<exists>capability invocation d base payload_json.
       set (nd_required_capabilities n) = {capability} \<and> dget (vp_invocations P) capability = Some invocation \<and>
       dget (kr_generated R) capability = Some d \<and> resolve_at X t (gc_plugin_root d) = Inr base \<and> prefix (kr_artifact_root R) base \<and>
       (\<forall>name\<in>set required_files. dget (gc_file_sha256 d) name = Some (entry_digest X t (base @ [name]))) \<and>
       uh_compact H (ui_payload invocation) = Inr payload_json \<and>
       (lr_status r \<noteq> ''blocked'' \<longrightarrow> (\<exists>argv s1 process.
          launches H P invocation d (tg_id g @ ''-'' @ nd_id n) (entry_digest X t (base @ [''plugin.py''])) payload_json s argv s1 \<and>
          run_bounded H (gc_plugin_root d) (plugin_spec P argv) (''plugin-'' @ tg_id g @ ''-'' @ nd_id n)
            (''Invoke '' @ capability) s1 = Some (Inr process, s') \<and>
          (lr_status r = ''completed'' \<longleftrightarrow> plugin_done (ps_io X) invocation process)))))"
proof -
  consider (refused) "s' = s" "lr_status r = ''blocked''"
    | (going) capability invocation d payload_json planned s1 where "unique_keys (nd_required_capabilities n) = [capability]"
        "dget (vp_invocations P) capability = Some invocation" "get_capability X t R capability = Inr (Some d)"
        "uh_compact H (ui_payload invocation) = Inr payload_json"
        "plan_launch H P invocation d [capability] (tg_id g @ ''-'' @ nd_id n) payload_json s = Some (Inr planned, s1)"
        "(case planned of Inl refused \<Rightarrow> Some (Inr refused, s1)
           | Inr (argv, backend) \<Rightarrow> run_plugin H P invocation d capability (tg_id g @ ''-'' @ nd_id n) argv backend s1) = Some (Inr r, s')"
    using plugin_execute_cases [OF assms(1)] unfolding X_def t_def by blast
  then show ?thesis
  proof cases
    case refused
    then show ?thesis by simp
  next
    case going
    from current_registered [OF going(3)] obtain base where base: "dget (kr_generated R) capability = Some d"
      "resolve_at X t (gc_plugin_root d) = Inr base" "prefix (kr_artifact_root R) base"
      "\<forall>name\<in>set required_files. dget (gc_file_sha256 d) name = Some (entry_digest X t (base @ [name]))" by blast
    have "plugin_digest d = Inr (entry_digest X t (base @ [''plugin.py'']))"
      using base(4) by (simp add: plugin_digest_def required_files_def)
    note planned = plan_launch_cases [OF going(5) this]
    have "lr_status r \<in> {''completed'', ''failed'', ''blocked''} \<and> (lr_status r \<noteq> ''blocked'' \<longrightarrow> (\<exists>argv s1 process.
          launches H P invocation d (tg_id g @ ''-'' @ nd_id n) (entry_digest X t (base @ [''plugin.py''])) payload_json s argv s1 \<and>
          run_bounded H (gc_plugin_root d) (plugin_spec P argv) (''plugin-'' @ tg_id g @ ''-'' @ nd_id n)
            (''Invoke '' @ capability) s1 = Some (Inr process, s') \<and>
          (lr_status r = ''completed'' \<longleftrightarrow> plugin_done (ps_io X) invocation process)))"
    proof (cases planned)
      case (Inl refused)
      then show ?thesis using planned going(6) by simp
    next
      case (Inr ab)
      obtain argv backend where ab: "ab = (argv, backend)" by (cases ab)
      with Inr going(6) obtain out where out: "run_bounded H (gc_plugin_root d) (plugin_spec P argv)
          (''plugin-'' @ tg_id g @ ''-'' @ nd_id n) (''Invoke '' @ capability) s1 = Some (out, s')"
        "exc_bind out (interpret_plugin (ps_io X) capability (gc_plugin_id d) invocation backend) = Inr r"
        by (auto simp: run_plugin_def X_def)
      then obtain process where process: "out = Inr process"
        "interpret_plugin (ps_io X) capability (gc_plugin_id d) invocation backend process = Inr r"
        by (auto simp: exc_bind_Inr)
      have "lr_status r \<in> {''completed'', ''failed'', ''blocked''}" unfolding interpret_status [OF process(2)] by simp
      moreover have "lr_status r = ''completed'' \<longleftrightarrow> plugin_done (ps_io X) invocation process"
        unfolding interpret_status [OF process(2)] by (simp add: plugin_done_def)
      moreover have "launches H P invocation d (tg_id g @ ''-'' @ nd_id n) (entry_digest X t (base @ [''plugin.py''])) payload_json s argv s1"
        using planned Inr ab by simp
      ultimately show ?thesis using out(1) process(1) by blast
    qed
    then show ?thesis using base going(2,4) unique_keys_single [OF going(1)] by blast
  qed
qed

text \<open>A plugin that is registered with the hashes of its files, and a policy that admits its capability.\<close>

definition plug_descriptor :: generated_capability where
  "plug_descriptor = \<lparr>gc_capability = ''cap'', gc_family = ''f'', gc_plugin_id = ''p'', gc_plugin_root = ''/out/p'',
     gc_manifest_path = ''/out/p/manifest.json'',
     gc_file_sha256 = [(''README.md'', []), (''manifest.json'', hexdigest (utf8 ''m'')), (''plugin.py'', hexdigest (utf8 ''c''))]\<rparr>"

definition plug_registry :: capability_registry where
  "plug_registry = no_capabilities\<lparr>kr_generated := [(''cap'', plug_descriptor)]\<rparr>"

definition plug_admitted :: "unit invocation_policy" where
  "plug_admitted = \<lparr>vp_invocations = [(''cap'', \<lparr>ui_payload = [], ui_required_output_fields = [''status''],
       ui_success_statuses = [''ok''], ui_requires_os_sandbox = False\<rparr>)], vp_python_executable = ''python'',
     vp_timeout_seconds = 30, vp_max_output_bytes = 1000, vp_max_payload_bytes = 100, vp_sandbox_launcher = None\<rparr>"

definition plug_answer :: pydict where
  "plug_answer = [(''status'', PStr ''ok''), (''output'', PDict [(''status'', PStr ''ok'')])]"

lemma plug_executed:
  "case plugin_execute (plug_host plug_answer) plug_registry plug_admitted plug_node plug_graph gate_world of
     Some (Inr r, s') \<Rightarrow> lr_status r = ''completed'' | _ \<Rightarrow> False"
  by code_simp

theorem plugin_leaf_gated_witness:
  "\<exists>r s' base. plugin_execute (plug_host plug_answer) plug_registry plug_admitted plug_node plug_graph gate_world = Some (Inr r, s') \<and>
     lr_status r = ''completed'' \<and> prefix [''out''] base \<and>
     dget (gc_file_sha256 plug_descriptor) ''plugin.py'' = Some (entry_digest (uh_site (plug_host plug_answer)) plug_tree (base @ [''plugin.py'']))"
proof -
  from case_launched [OF plug_executed] obtain r s' where
    run: "plugin_execute (plug_host plug_answer) plug_registry plug_admitted plug_node plug_graph gate_world = Some (Inr r, s')"
    and r: "lr_status r = ''completed''" by blast
  have parts: "tree_now (plug_host plug_answer) s = plug_tree" "kr_artifact_root plug_registry = [''out'']"
    "set (nd_required_capabilities plug_node) = {''cap''}" "dget (kr_generated plug_registry) ''cap'' = Some plug_descriptor"
    "''plugin.py'' \<in> set required_files" for s
    by (simp_all add: plug_host_def plug_registry_def no_capabilities_def plug_node_def required_files_def)
  from plugin_leaf_gated [OF run] r show ?thesis unfolding parts using run parts(3-5) by fastforce
qed

section \<open>The sandbox\<close>

lemma wsl_posix: "to_wsl_path (full_path p) = Inr (full_path p)"
proof -
  obtain r where r: "full_path p = CHR ''/'' # r" by (simp add: path_str_def)
  have "windows_drive (CHR ''/'' # r) = None"
  proof -
    have "\<not> is_letter (CHR ''/'')" by code_simp
    then show ?thesis by (auto simp: windows_drive_def split: list.splits)
  qed
  then show ?thesis unfolding r by (simp add: to_wsl_path_def)
qed

lemma mount_args_posix: "mount_args m = Inr [if sm_writable m then ''--bind'' else ''--ro-bind'', full_path (sm_host_path m), sm_sandbox_path m]"
  by (simp add: mount_args_def wsl_posix)

lemma map_exc_const: "(\<And>x. x \<in> set xs \<Longrightarrow> f x = Inr (g x)) \<Longrightarrow> map_exc f xs = Inr (map g xs)"
  by (induction xs) auto

text \<open>The options that follow the mounts, and the program, hold no bind.\<close>

lemma binds_of_mounts:
  "binds_of (concat (map (\<lambda>m. [if sm_writable m then ''--bind'' else ''--ro-bind'', full_path (sm_host_path m), sm_sandbox_path m]) ms) @ rest) =
   map mount_bind ms @ binds_of rest"
  by (induction ms) (simp_all add: mount_bind_def)

lemma binds_of_options: "binds_of (sandbox_options @ a # rest) = system_binds @ binds_of (a # rest)"
  by (simp add: sandbox_options_def system_binds_def)

lemma binds_of_program:
  assumes "\<not> prefix ''-'' a"
  shows "binds_of (a # b # c # rest) = []"
proof -
  have no: "a \<noteq> CHR ''-'' # x" for x using assms by auto
  have "\<not> prefix ''--'' a" using no by (cases a) auto
  then show ?thesis by (simp add: no)
qed

lemma binds_steps:
  "binds_of (''--ro-bind'' # a # b # rest) = Bind False a b # binds_of rest" "binds_of (''--setenv'' # a # b # rest) = binds_of rest"
  "binds_of (''--chdir'' # a # b # rest) = binds_of (b # rest)"
  by simp_all

lemma binds_of_environment: "binds_of (sandbox_environment @ a # b # c # rest) = binds_of (a # b # c # rest)"
  by (simp add: sandbox_environment_def binds_steps del: binds_of.simps)

lemma absolute_linux_path_start: "absolute_linux_path s = Inr p \<Longrightarrow> \<not> prefix ''-'' p"
  by (auto simp: absolute_linux_path_def path_str_def py_path_of_def path_anchor_def Let_def split: if_splits)

lemma mount_place:
  assumes "mk_mount X t host_path sandbox_path writable = Inr m"
  shows "snd (py_path_of sandbox_path) \<noteq> [] \<and> ''..'' \<notin> set (snd (py_path_of sandbox_path)) \<and> sm_sandbox_path m = path_str (py_path_of sandbox_path) \<and>
    hd (snd (py_path_of sandbox_path)) \<in> (if sm_writable m then {''output''} else {''data'', ''output''})"
  using assms
  by (auto simp: mk_mount_def exc_bind_Inr Let_def first_part_def split: if_splits list.splits)

definition mounted :: "plugin_site \<Rightarrow> sandbox_mount \<Rightarrow> bool" where
  "mounted X m \<longleftrightarrow> (\<exists>t host_path sandbox_path. mk_mount X t host_path sandbox_path (sm_writable m) = Inr m)"

text \<open>Where a bind of a sandbox may lead: no path below the top-level directory leaves it.\<close>

definition bound_below :: "string set \<Rightarrow> string \<Rightarrow> bool" where
  "bound_below tops target \<longleftrightarrow> (\<exists>anchor top_name rest. anchor \<in> {''/'', ''//''} \<and> target = path_str (anchor, top_name # rest) \<and>
     top_name \<in> tops \<and> ''..'' \<notin> set rest)"

lemma mounted_below:
  assumes "mounted X m"
  shows "bound_below (if sm_writable m then {''output''} else {''data'', ''output''}) (sm_sandbox_path m)"
proof -
  from assms obtain t host_path sandbox_path where m: "mk_mount X t host_path sandbox_path (sm_writable m) = Inr m"
    by (auto simp: mounted_def)
  have anchor: "fst (py_path_of sandbox_path) \<in> {''/'', ''//''}"
    using m by (auto simp: mk_mount_def exc_bind_Inr Let_def py_path_of_def path_anchor_def split: if_splits)
  obtain a top_name rest where p: "py_path_of sandbox_path = (a, top_name # rest)"
    using mount_place [OF m] by (cases "py_path_of sandbox_path"; cases "snd (py_path_of sandbox_path)") auto
  show ?thesis
    unfolding bound_below_def
    by (rule exI [of _ a], rule exI [of _ top_name], rule exI [of _ rest]) (use mount_place [OF m] anchor p in simp)
qed

text \<open>
  C25: what a plugin can reach in the sandbox. The command line of a sandbox whose mounts were accepted shows
  it the system directories, the plugin, the worker and the mounts, and nothing else; only mounts below \<open>/output\<close>
  are writable, all others lie below \<open>/data\<close> or \<open>/output\<close>; every namespace is unshared and the environment
  is cleared; and the program that runs is the worker, with the registered hash of the plugin.
\<close>

theorem sandbox_confines:
  assumes "mk_sandbox distribution mounts wsl_executable bwrap_path python_path timeout_seconds = Inr B"
    "\<forall>m\<in>set mounts. mounted X m"
    "build_argv X B t plugin_root worker_path digest payload_json = Inr argv"
  shows "\<exists>plugin_source worker_source options.
    argv = [wsl_executable, ''--distribution'', strip distribution, ''--exec'', ws_bwrap_path B] @ options @
      [ws_python_path B, ''-I'', ''/runtime/plugin_worker.py'', ''--plugin'', ''/plugin/plugin.py'', ''--expected-sha256'', digest,
       ''--payload-json'', payload_json] \<and>
    resolve_at X t plugin_root = Inr plugin_source \<and> resolve_at X t (full_path worker_path) = Inr worker_source \<and>
    {''--unshare-all'', ''--clearenv'', ''--die-with-parent'', ''--new-session''} \<subseteq> set options \<and>
    binds_of (drop 5 argv) = system_binds @
      [Bind False (full_path plugin_source) ''/plugin'', Bind False (full_path worker_source) ''/runtime/plugin_worker.py''] @
      map mount_bind mounts \<and>
    distinct (map sm_sandbox_path mounts) \<and>
    (\<forall>b\<in>set (map mount_bind mounts). bound_below (if bind_writable b then {''output''} else {''data'', ''output''}) (bind_target b))"
proof -
  from assms(1) have B: "ws_wsl_executable B = wsl_executable" "ws_distribution B = strip distribution" "ws_mounts B = mounts"
    "distinct (map sm_sandbox_path mounts)" "absolute_linux_path python_path = Inr (ws_python_path B)"
    by (auto simp: mk_sandbox_def exc_bind_Inr split: if_splits)
  let ?m = "\<lambda>m. [if sm_writable m then ''--bind'' else ''--ro-bind'', full_path (sm_host_path m), sm_sandbox_path m]"
  have mounts: "map_exc mount_args mounts = Inr (map ?m mounts)" by (rule map_exc_const) (rule mount_args_posix)
  from assms(3) obtain plugin_source worker_source where
    plugin: "resolve_at X t plugin_root = Inr plugin_source" and worker: "resolve_at X t (full_path worker_path) = Inr worker_source" and
    argv: "argv = [wsl_executable, ''--distribution'', strip distribution, ''--exec'', ws_bwrap_path B] @
      (sandbox_options @ [''--ro-bind'', full_path plugin_source, ''/plugin'', ''--ro-bind'', full_path worker_source, ''/runtime/plugin_worker.py''] @
       concat (map ?m mounts) @ sandbox_environment) @
      [ws_python_path B, ''-I'', ''/runtime/plugin_worker.py'', ''--plugin'', ''/plugin/plugin.py'', ''--expected-sha256'', digest,
       ''--payload-json'', payload_json]"
    by (auto simp: build_argv_def exc_bind_Inr wsl_posix B mounts worker_args_def)
  have "binds_of (drop 5 argv) = system_binds @
      [Bind False (full_path plugin_source) ''/plugin'', Bind False (full_path worker_source) ''/runtime/plugin_worker.py''] @
      map mount_bind mounts"
    using binds_of_program [OF absolute_linux_path_start [OF B(5)]]
    by (simp add: argv binds_of_options binds_of_mounts binds_of_environment binds_steps del: binds_of.simps)
  moreover have "{''--unshare-all'', ''--clearenv'', ''--die-with-parent'', ''--new-session''} \<subseteq> set sandbox_options"
    by (simp add: sandbox_options_def)
  moreover have "\<forall>b\<in>set (map mount_bind mounts). bound_below (if bind_writable b then {''output''} else {''data'', ''output''}) (bind_target b)"
    using mounted_below assms(2) by (fastforce simp: mount_bind_def)
  ultimately show ?thesis using plugin worker argv B(4)
    by (intro exI [of _ plugin_source] exI [of _ worker_source] exI [of _ "sandbox_options @ [''--ro-bind'', full_path plugin_source, ''/plugin'', ''--ro-bind'', full_path worker_source, ''/runtime/plugin_worker.py''] @
       concat (map ?m mounts) @ sandbox_environment"]) auto
qed

text \<open>A sandbox with the output directory of the example mounted.\<close>

definition plug_mount :: sandbox_mount where
  "plug_mount = \<lparr>sm_host_path = [''g''], sm_sandbox_path = ''/output'', sm_writable = True\<rparr>"

lemma plug_mounted: "mounted (uh_site (plug_host [])) plug_mount"
proof -
  have "mk_mount (uh_site (plug_host [])) plug_tree ''/g'' ''/output'' True = Inr plug_mount" by code_simp
  then show ?thesis by (auto simp: mounted_def plug_mount_def)
qed

lemma plug_sandbox:
  "case mk_sandbox ''Ubuntu'' [plug_mount] ''wsl.exe'' ''/usr/bin/bwrap'' ''/usr/bin/python3'' 10 of Inl e \<Rightarrow> False
   | Inr B \<Rightarrow> (case build_argv (uh_site (plug_host [])) B plug_tree ''/out/p'' [''w.py''] ''00'' ''{}'' of Inl e \<Rightarrow> False | Inr argv \<Rightarrow> True)"
  by code_simp

theorem sandbox_confines_witness:
  "\<exists>B argv. mk_sandbox ''Ubuntu'' [plug_mount] ''wsl.exe'' ''/usr/bin/bwrap'' ''/usr/bin/python3'' 10 = Inr B \<and>
     build_argv (uh_site (plug_host [])) B plug_tree ''/out/p'' [''w.py''] ''00'' ''{}'' = Inr argv \<and>
     mount_bind plug_mount \<in> set (binds_of (drop 5 argv)) \<and> bound_below {''output''} (bind_target (mount_bind plug_mount))"
proof -
  obtain B argv where run: "mk_sandbox ''Ubuntu'' [plug_mount] ''wsl.exe'' ''/usr/bin/bwrap'' ''/usr/bin/python3'' 10 = Inr B"
    "build_argv (uh_site (plug_host [])) B plug_tree ''/out/p'' [''w.py''] ''00'' ''{}'' = Inr argv"
    using plug_sandbox by (auto split: sum.splits)
  have "bind_writable (mount_bind plug_mount)" by (simp add: mount_bind_def plug_mount_def)
  then show ?thesis using sandbox_confines [OF run(1) _ run(2)] plug_mounted run by auto
qed

section \<open>The worker\<close>

text \<open>What the bounded subprocess reports of a worker that ended in time, with its output in full.\<close>

definition reports_worker :: "json_io \<Rightarrow> int \<times> pydict \<Rightarrow> pydict \<Rightarrow> bool" where
  "reports_worker IO answer process \<longleftrightarrow> dget process ''exit_code'' = Some (PInt (fst answer)) \<and>
     dget process ''timed_out'' = Some (PBool False) \<and> dget process ''stdout_truncated'' = Some (PBool False) \<and>
     dget process ''stderr_truncated'' = Some (PBool False) \<and>
     dget process ''stdout'' = Some (PStr (jc_dumps (ji_codec IO) (PDict (snd answer)) @ [CHR 0x0A]))"

definition worker_complaint :: "py_exc \<Rightarrow> string" where
  "worker_complaint e = (let detail = take 1000 (one_line (exc_msg e)) in if detail = [] then ''worker_failed'' else detail)"

lemma interpret_reported:
  assumes "codec_ok (ji_codec IO)" "reports_worker IO (code, printed) process"
  shows "interpret_plugin IO capability plugin_id invocation backend process =
    Inr (interpret_envelope IO plugin_id invocation (base_evidence capability plugin_id backend process) process printed)"
    "eq_num (dget_or PNone process ''exit_code'') i \<longleftrightarrow> code = i"
  using assms(2) codec_loads_line [OF assms(1)]
  by (simp_all add: reports_worker_def interpret_plugin_def dget_or_def dget_def show_val_def json_loads_def Let_def eq_num_def)

lemma reported_error:
  "lr_status (interpret_envelope IO plugin_id invocation base process (error_envelope e)) = ''failed'' \<and>
   lr_error (interpret_envelope IO plugin_id invocation base process (error_envelope e)) = Some (''generated_plugin_error:'' @ worker_complaint e)"
  by (simp add: interpret_envelope_def envelope_ok_def error_envelope_def dget_or_def Let_def show_val_def worker_complaint_def
      plugin_failed_def leaf_outcome_def plain_result_def)

lemma reported_output:
  assumes "eq_num (dget_or PNone process ''exit_code'') 0"
  shows "interpret_envelope IO plugin_id invocation base process [(''status'', PStr ''ok''), (''output'', PDict output)] =
    interpret_output IO plugin_id invocation base output"
  using assms by (simp add: interpret_envelope_def envelope_ok_def dget_or_def)

lemma output_evidence: "dget (lr_evidence (interpret_output IO plugin_id invocation base output)) ''output'' = Some (PDict output)"
  by (simp add: interpret_output_def Let_def plugin_failed_def leaf_outcome_def plain_result_def)

text \<open>
  C23: from the source of a plugin to the result of its leaf. The worker executes a source only when it has
  the expected hash and the payload is an object; otherwise nothing has happened and the leaf fails. A run that raises, or whose output
  is no JSON object, fails with the worker's message in one line; any other output is the evidence of the leaf, which
  completes exactly when the output has the fields and a status of the policy.
\<close>

theorem plugin_answer_exact:
  assumes "codec_ok (ji_codec IO)" "worker_main E plugin digest payload_json w = (answer, w')" "reports_worker IO answer process"
    "interpret_plugin IO capability plugin_id invocation backend process = Inr r"
  shows "(\<exists>source payload. wh_read E plugin w = Inr source \<and> hexdigest (wh_sha256 E source) = digest \<and>
      load_payload E payload_json = Inr payload \<and> w' = snd (call_entrypoint E source plugin payload w) \<and>
      (case exc_bind (fst (call_entrypoint E source plugin payload w)) (checked_output E) of
         Inl e \<Rightarrow> lr_status r = ''failed'' \<and> lr_error r = Some (''generated_plugin_error:'' @ worker_complaint e)
       | Inr output \<Rightarrow> dget (lr_evidence r) ''output'' = Some (PDict output) \<and>
           lr_status r = (if set (ui_required_output_fields invocation) \<subseteq> set (dkeys output) \<and> successful_output invocation output
             then ''completed'' else ''failed''))) \<or>
    (w' = w \<and> lr_status r = ''failed'' \<and> \<not> (\<exists>source payload. wh_read E plugin w = Inr source \<and>
       hexdigest (wh_sha256 E source) = digest \<and> load_payload E payload_json = Inr payload))"
proof -
  let ?base = "base_evidence capability plugin_id backend process"
  obtain code printed where answer: "answer = (code, printed)" by (cases answer)
  note reported = interpret_reported [OF assms(1) assms(3) [unfolded answer]]
  have r: "r = interpret_envelope IO plugin_id invocation ?base process printed" using assms(4) reported(1) by simp
  show ?thesis
  proof (cases "\<exists>source payload. wh_read E plugin w = Inr source \<and> hexdigest (wh_sha256 E source) = digest \<and> load_payload E payload_json = Inr payload")
    case False
    then obtain e where "printed = error_envelope e" "w' = w"
      using assms(2) by (auto simp: answer worker_main_def worker_execute_def split: sum.splits if_splits)
    then show ?thesis using False reported_error r by blast
  next
    case True
    then obtain source payload where source: "wh_read E plugin w = Inr source" "hexdigest (wh_sha256 E source) = digest"
      "load_payload E payload_json = Inr payload" by blast
    obtain out w1 where call: "call_entrypoint E source plugin payload w = (out, w1)" by fastforce
    have "case exc_bind out (checked_output E) of
         Inl e \<Rightarrow> lr_status r = ''failed'' \<and> lr_error r = Some (''generated_plugin_error:'' @ worker_complaint e)
       | Inr output \<Rightarrow> dget (lr_evidence r) ''output'' = Some (PDict output) \<and>
           lr_status r = (if set (ui_required_output_fields invocation) \<subseteq> set (dkeys output) \<and> successful_output invocation output
             then ''completed'' else ''failed'')" and w': "w' = w1"
      using assms(2) call source reported(2) unfolding answer r
      by (auto simp: worker_main_def worker_execute_def reported_error reported_output output_evidence output_completed split: sum.splits)
    then show ?thesis using source call by auto
  qed
qed

text \<open>A worker whose plugin is the source \<open>c\<close> and answers with a status, writing one more line to its world.\<close>

definition obliging_worker :: "nat worker_host" where
  "obliging_worker = \<lparr>wh_loads = (\<lambda>s. Inr (PDict [])), wh_dumps = (\<lambda>v. Inr []), wh_sha256 = (\<lambda>b. b),
     wh_read = (\<lambda>path w. Inr (utf8 ''c'')),
     wh_exec = (\<lambda>source path w. (Inr (Some (\<lambda>payload w. (Inr (PDict [(''status'', PStr ''ok'')]), Suc w))), w))\<rparr>"

definition accepts_ok :: plugin_invocation where
  "accepts_ok = \<lparr>ui_payload = [], ui_required_output_fields = [''status''], ui_success_statuses = [''ok''], ui_requires_os_sandbox = False\<rparr>"

definition worker_report :: "json_io \<Rightarrow> int \<times> pydict \<Rightarrow> pydict" where
  "worker_report IO answer = [(''exit_code'', PInt (fst answer)), (''timed_out'', PBool False), (''stdout_truncated'', PBool False),
     (''stderr_truncated'', PBool False), (''stdout'', PStr (jc_dumps (ji_codec IO) (PDict (snd answer)) @ [CHR 0x0A]))]"

theorem plugin_answer_exact_witness:
  "\<exists>answer r. worker_main obliging_worker ''p.py'' (hexdigest (utf8 ''c'')) ''{}'' 0 = (answer, 1) \<and>
     interpret_plugin (gate_io []) ''cap'' ''p'' accepts_ok ''process_only'' (worker_report (gate_io []) answer) = Inr r \<and>
     lr_status r = ''completed''"
proof -
  have codec: "codec_ok (ji_codec (gate_io []))" by (simp add: gate_parts reading_codec_ok)
  have main: "worker_main obliging_worker ''p.py'' (hexdigest (utf8 ''c'')) ''{}'' 0 =
      ((0, [(''status'', PStr ''ok''), (''output'', PDict [(''status'', PStr ''ok'')])]), 1)" by code_simp
  have reports: "reports_worker IO answer (worker_report IO answer)" for IO answer
    by (simp add: reports_worker_def worker_report_def)
  from interpret_reported(1) [OF codec reports] obtain r where
    r: "interpret_plugin (gate_io []) ''cap'' ''p'' accepts_ok ''process_only''
      (worker_report (gate_io []) (0, [(''status'', PStr ''ok''), (''output'', PDict [(''status'', PStr ''ok'')])])) = Inr r" by blast
  have call: "call_entrypoint obliging_worker (utf8 ''c'') ''p.py'' [] 0 = (Inr (PDict [(''status'', PStr ''ok'')]), 1)"
    "wh_read obliging_worker ''p.py'' 0 = Inr (utf8 ''c'')" "load_payload obliging_worker ''{}'' = Inr []"
    "checked_output obliging_worker (PDict [(''status'', PStr ''ok'')]) = Inr [(''status'', PStr ''ok'')]"
    "set (ui_required_output_fields accepts_ok) \<subseteq> set (dkeys [(''status'', PStr ''ok'')])" "successful_output accepts_ok [(''status'', PStr ''ok'')]"
    by (code_simp | simp add: obliging_worker_def)+
  show ?thesis using plugin_answer_exact [OF codec main reports r] main r call by auto
qed

end
