(* ===== verification/Command_Line.thy ===== *)
theory Command_Line
  imports Loop_Profiles Task_Adapters Release_Gate
begin

text \<open>
  What the command line does once its arguments are parsed (\<open>loop_engine/cli.py\<close>): each command builds one of the
  loops, or continues a checkpoint with an engine that is rebuilt from the metadata in it. Checkpoint stores, the patch
  file, the environment and the transport of the language model are arguments. \<open>parser.error\<close> is the exception \<open>SystemExit\<close>; the
  workspace is resolved before the other arguments of a builder are checked.
\<close>

section \<open>Arguments\<close>

record run_args =
  ra_workspace :: string
  ra_timeout :: rat
  ra_max_output_bytes :: int
  ra_checkpoints :: "string option"
  ra_resume :: "string option"
  ra_process_command :: "string list"

record llm_args =
  la_goal :: "string option"
  la_gateway_url :: string
  la_model :: string
  la_llm_timeout :: rat
  la_llm_max_tokens :: int
  la_api_key_env :: string
  la_max_iterations :: int
  la_max_actions :: int
  la_max_actions_per_plan :: int
  la_contract_repair_attempts :: int

datatype cli_command =
    Cli_Demo int "string option" "string option"
  | Cli_Check run_args
  | Cli_Repair run_args "string option"
  | Cli_LLM_Repair run_args llm_args

record 'w cli_host =
  co_loop :: "'w loop_host"
  co_cwd :: "string list"
  co_save :: "string \<Rightarrow> loop_state \<Rightarrow> 'w \<Rightarrow> 'w"
  co_load :: "string \<Rightarrow> string \<Rightarrow> 'w \<Rightarrow> py_exc + loop_state"
  co_read_json :: "string \<Rightarrow> file_tree \<Rightarrow> py_exc + pyval"
  co_getenv :: "string \<Rightarrow> string option"
  co_gateway :: "'w gateway"
  co_run_id :: string

definition parser_error :: "string \<Rightarrow> py_exc" where
  "parser_error message = PyExc ''SystemExit'' message"

text \<open>The words after \<open>--\<close>.\<close>

definition process_command :: "run_args \<Rightarrow> string list" where
  "process_command a = (case ra_process_command a of
      x # xs \<Rightarrow> if x = ''--'' then xs else x # xs | [] \<Rightarrow> [])"

text \<open>The host of a loop on a workspace, with the store that \<open>--checkpoints\<close> names.\<close>

definition host_for :: "'w cli_host \<Rightarrow> file_tree \<Rightarrow> string option \<Rightarrow> string \<Rightarrow> py_exc + 'w loop_host" where
  "host_for C t checkpoints path =
     exc_bind (resolve_path (wk_link_limit (lh_workspace (co_loop C))) t (co_cwd C) path) (\<lambda>base.
       Inr ((co_loop C)\<lparr>lh_root := base, lh_store := map_option (co_save C) checkpoints\<rparr>))"

section \<open>Reading metadata\<close>

text \<open>\<open>float(metadata.get(k, d))\<close>, \<open>int(metadata.get(k, d))\<close> and \<open>str(metadata.get(k, d))\<close>.\<close>

definition meta_float :: "pydict \<Rightarrow> string \<Rightarrow> rat \<Rightarrow> py_exc + rat" where
  "meta_float d k dflt = py_float (dget_or (pnum dflt) d k)"

definition meta_int :: "pydict \<Rightarrow> string \<Rightarrow> int \<Rightarrow> py_exc + int" where
  "meta_int d k dflt = py_int (dget_or (PInt dflt) d k)"

definition meta_str :: "'w loop_host \<Rightarrow> pydict \<Rightarrow> string \<Rightarrow> string \<Rightarrow> string" where
  "meta_str H d k dflt = py_str_of H (dget_or (PStr dflt) d k)"

definition patch_dicts :: "pyval \<Rightarrow> pydict list option" where
  "patch_dicts v = Option.bind (as_list v) (map_all as_dict)"

section \<open>Checks\<close>

definition resumed_check ::
  "'w cli_host \<Rightarrow> file_tree \<Rightarrow> run_args \<Rightarrow> pydict \<Rightarrow> py_exc + 'w site loop_engine \<times> loop_definition" where
  "resumed_check C t a metadata =
     exc_bind (field_exc metadata ''workspace_root'' as_str) (\<lambda>workspace_root.
     exc_bind (field_exc metadata ''command'' as_strs) (\<lambda>command.
     exc_bind (meta_float metadata ''subprocess_timeout_seconds'' (ra_timeout a)) (\<lambda>timeout.
     exc_bind (meta_int metadata ''max_output_bytes'' (ra_max_output_bytes a)) (\<lambda>max_output.
     exc_bind (host_for C t (ra_checkpoints a) workspace_root) (\<lambda>H.
       build_coding_check_loop H t command timeout max_output)))))"

definition new_check :: "'w cli_host \<Rightarrow> file_tree \<Rightarrow> run_args \<Rightarrow> py_exc + 'w site loop_engine \<times> loop_definition" where
  "new_check C t a = exc_bind (host_for C t (ra_checkpoints a) (ra_workspace a)) (\<lambda>H.
     build_coding_check_loop H t (process_command a) (ra_timeout a) (ra_max_output_bytes a))"

section \<open>Scripted repairs\<close>

definition resumed_repair ::
  "'w cli_host \<Rightarrow> file_tree \<Rightarrow> run_args \<Rightarrow> pydict \<Rightarrow> py_exc + 'w site loop_engine \<times> loop_definition" where
  "resumed_repair C t a metadata =
     (if dget_or PNone metadata ''profile'' \<noteq> PStr ''scripted_repair''
        then Inl (parser_error ''checkpoint does not contain a scripted repair profile'')
      else
     exc_bind (field_exc metadata ''workspace_root'' as_str) (\<lambda>workspace_root.
     exc_bind (field_exc metadata ''patches'' patch_dicts) (\<lambda>patches.
     exc_bind (field_exc metadata ''command'' as_strs) (\<lambda>command.
     exc_bind (meta_float metadata ''subprocess_timeout_seconds'' (ra_timeout a)) (\<lambda>timeout.
     exc_bind (meta_int metadata ''max_output_bytes'' (ra_max_output_bytes a)) (\<lambda>max_output.
     exc_bind (host_for C t (ra_checkpoints a) workspace_root) (\<lambda>H.
       build_scripted_repair_loop H t patches command timeout max_output)))))))"

text \<open>The patches of a file: one object, or an array of objects.\<close>

definition patches_of :: "pyval \<Rightarrow> py_exc + pydict list" where
  "patches_of payload = (case map_all as_dict (case payload of PList xs \<Rightarrow> xs | v \<Rightarrow> [v]) of
      None \<Rightarrow> Inl (parser_error ''patch file must contain a JSON object or array of objects'') | Some ps \<Rightarrow> Inr ps)"

definition new_repair ::
  "'w cli_host \<Rightarrow> file_tree \<Rightarrow> run_args \<Rightarrow> string option \<Rightarrow> py_exc + 'w site loop_engine \<times> loop_definition" where
  "new_repair C t a patch_file = (case patch_file of
      None \<Rightarrow> Inl (parser_error ''repair requires --patch-file'')
    | Some path \<Rightarrow>
        if process_command a = [] then Inl (parser_error ''repair requires a verification command after --'')
        else exc_bind (exc_bind (co_read_json C path t) patches_of) (\<lambda>patches.
          exc_bind (host_for C t (ra_checkpoints a) (ra_workspace a)) (\<lambda>H.
          build_scripted_repair_loop H t patches (process_command a) (ra_timeout a) (ra_max_output_bytes a))))"

section \<open>Repairs planned by a language model\<close>

definition gateway_client ::
  "'w cli_host \<Rightarrow> string \<Rightarrow> string \<Rightarrow> rat \<Rightarrow> int \<Rightarrow> string \<Rightarrow> py_exc + 'w llm_client" where
  "gateway_client C url model timeout max_tokens api_key_env =
     exc_bind (mk_gateway ((co_gateway C)\<lparr>gw_model := model, gw_timeout_seconds := timeout, gw_api_key := co_getenv C api_key_env,
       gw_max_tokens := max_tokens\<rparr>) url) (\<lambda>G. Inr (complete_json G))"

definition resumed_client :: "'w cli_host \<Rightarrow> llm_args \<Rightarrow> pydict \<Rightarrow> py_exc + 'w llm_client" where
  "resumed_client C b llm =
     (let H = co_loop C in
      exc_bind (meta_float llm ''timeout_seconds'' (la_llm_timeout b)) (\<lambda>timeout.
      exc_bind (meta_int llm ''max_tokens'' (la_llm_max_tokens b)) (\<lambda>max_tokens.
        gateway_client C (meta_str H llm ''gateway_url'' (la_gateway_url b)) (meta_str H llm ''model'' (la_model b))
          timeout max_tokens (meta_str H llm ''api_key_env'' (la_api_key_env b)))))"

definition resumed_llm_repair ::
  "'w cli_host \<Rightarrow> file_tree \<Rightarrow> run_args \<Rightarrow> llm_args \<Rightarrow> pydict \<Rightarrow> py_exc + 'w site loop_engine \<times> loop_definition" where
  "resumed_llm_repair C t a b metadata =
     (if dget_or PNone metadata ''profile'' \<noteq> PStr ''llm_repair''
        then Inl (parser_error ''checkpoint does not contain an LLM repair profile'')
      else case as_dict (dget_or (PDict []) metadata ''llm'') of
        None \<Rightarrow> Inl (malformed ''llm'')
      | Some llm \<Rightarrow>
     exc_bind (resumed_client C b llm) (\<lambda>client.
     exc_bind (field_exc metadata ''workspace_root'' as_str) (\<lambda>workspace_root.
     exc_bind (field_exc metadata ''goal'' (\<lambda>v. Some (py_str_of (co_loop C) v))) (\<lambda>goal.
     exc_bind (field_exc metadata ''command'' as_strs) (\<lambda>command.
     exc_bind (meta_int metadata ''max_iterations'' (la_max_iterations b)) (\<lambda>max_iterations.
     exc_bind (meta_int metadata ''max_actions'' (la_max_actions b)) (\<lambda>max_actions.
     exc_bind (meta_int metadata ''max_actions_per_plan'' (la_max_actions_per_plan b)) (\<lambda>per_plan.
     exc_bind (meta_int metadata ''contract_repair_attempts'' (la_contract_repair_attempts b)) (\<lambda>repairs.
     exc_bind (meta_float metadata ''subprocess_timeout_seconds'' (ra_timeout a)) (\<lambda>timeout.
     exc_bind (meta_int metadata ''max_output_bytes'' (ra_max_output_bytes a)) (\<lambda>max_output.
     exc_bind (host_for C t (ra_checkpoints a) workspace_root) (\<lambda>H.
       build_llm_repair_loop H t goal client command
         \<lparr>ll_max_iterations = max_iterations, ll_max_actions = max_actions, ll_max_actions_per_plan = per_plan,
          ll_contract_repair_attempts = repairs, ll_metadata = llm\<rparr> timeout max_output))))))))))))"

definition llm_settings :: "llm_args \<Rightarrow> pydict" where
  "llm_settings b = [(''gateway_url'', PStr (la_gateway_url b)), (''model'', PStr (la_model b)),
     (''timeout_seconds'', pnum (la_llm_timeout b)), (''max_tokens'', PInt (la_llm_max_tokens b)),
     (''api_key_env'', PStr (la_api_key_env b))]"

definition args_limits :: "llm_args \<Rightarrow> llm_limits" where
  "args_limits b = \<lparr>ll_max_iterations = la_max_iterations b, ll_max_actions = la_max_actions b,
     ll_max_actions_per_plan = la_max_actions_per_plan b, ll_contract_repair_attempts = la_contract_repair_attempts b,
     ll_metadata = llm_settings b\<rparr>"

definition args_client :: "'w cli_host \<Rightarrow> llm_args \<Rightarrow> py_exc + 'w llm_client" where
  "args_client C b = gateway_client C (la_gateway_url b) (la_model b) (la_llm_timeout b) (la_llm_max_tokens b) (la_api_key_env b)"

definition new_llm_repair ::
  "'w cli_host \<Rightarrow> file_tree \<Rightarrow> run_args \<Rightarrow> llm_args \<Rightarrow> py_exc + 'w site loop_engine \<times> loop_definition" where
  "new_llm_repair C t a b =
     (if \<not> str_truthy (la_goal b) then Inl (parser_error ''llm-repair requires --goal'')
      else if process_command a = [] then Inl (parser_error ''llm-repair requires a verification command after --'')
      else exc_bind (args_client C b) (\<lambda>client. exc_bind (host_for C t (ra_checkpoints a) (ra_workspace a)) (\<lambda>H.
        build_llm_repair_loop H t (the (la_goal b)) client (process_command a) (args_limits b) (ra_timeout a) (ra_max_output_bytes a))))"

section \<open>Running a command\<close>

text \<open>The counter demo, on the clocks of the host.\<close>

definition demo_engine :: "'w cli_host \<Rightarrow> string option \<Rightarrow> 'w site loop_engine" where
  "demo_engine C checkpoints = (let H = co_loop C in
     counter_engine (on_world (lh_utc_now H)) (on_world (lh_now H)) (on_world (lh_perf_counter H)) (lh_fromisoformat H)
       (lh_digest H) (map_option (\<lambda>root_dir s w. w\<lparr>st_world := co_save C root_dir s (st_world w)\<rparr>) checkpoints))"

definition continue_loop ::
  "'w site loop_engine \<Rightarrow> loop_state \<Rightarrow> 'w site \<Rightarrow> ((py_exc + loop_state) \<times> 'w site) option" where
  "continue_loop E loaded w = map_option (\<lambda>(s, w'). (Inr s, w')) (resume E (loaded, w))"

definition start_loop ::
  "'w cli_host \<Rightarrow> 'w site loop_engine \<Rightarrow> loop_definition \<Rightarrow> 'w site \<Rightarrow> ((py_exc + loop_state) \<times> 'w site) option" where
  "start_loop C E d w = (case run_engine E d (co_run_id C) w of
      Inl e \<Rightarrow> Some (Inl e, w) | Inr r \<Rightarrow> map_option (\<lambda>(s, w'). (Inr s, w')) r)"

text \<open>\<open>--resume\<close> needs \<open>--checkpoints\<close>; what is loaded is given to the rebuilt engine.\<close>

definition resume_with ::
  "'w cli_host \<Rightarrow> string option \<Rightarrow> string \<Rightarrow> (loop_state \<Rightarrow> py_exc + 'w site loop_engine) \<Rightarrow> 'w site
   \<Rightarrow> ((py_exc + loop_state) \<times> 'w site) option"
where
  "resume_with C checkpoints run_id engine w = (case checkpoints of
      None \<Rightarrow> Some (Inl (parser_error ''--resume requires --checkpoints''), w)
    | Some root_dir \<Rightarrow> (case exc_bind (co_load C root_dir run_id (st_world w)) (\<lambda>s. exc_bind (engine s) (\<lambda>E. Inr (s, E))) of
          Inl e \<Rightarrow> Some (Inl e, w)
        | Inr (s, E) \<Rightarrow> continue_loop E s w))"

definition loop_metadata :: "loop_state \<Rightarrow> pydict" where
  "loop_metadata s = ld_metadata (ls_definition s)"

definition run_built ::
  "'w cli_host \<Rightarrow> py_exc + 'w site loop_engine \<times> loop_definition \<Rightarrow> 'w site \<Rightarrow> ((py_exc + loop_state) \<times> 'w site) option" where
  "run_built C built w = (case built of Inl e \<Rightarrow> Some (Inl e, w) | Inr (E, d) \<Rightarrow> start_loop C E d w)"

abbreviation engine_only :: "py_exc + 'w site loop_engine \<times> loop_definition \<Rightarrow> py_exc + 'w site loop_engine" where
  "engine_only built \<equiv> exc_bind built (\<lambda>Ed. Inr (fst Ed))"

fun cli_run :: "'w cli_host \<Rightarrow> cli_command \<Rightarrow> 'w site \<Rightarrow> ((py_exc + loop_state) \<times> 'w site) option" where
  "cli_run C (Cli_Demo target checkpoints run_id) w =
     (if str_truthy run_id then resume_with C checkpoints (the run_id) (\<lambda>s. Inr (demo_engine C checkpoints)) w
      else start_loop C (demo_engine C checkpoints) (counter_definition (max 1 target)) w)"
| "cli_run C (Cli_Check a) w =
     (if str_truthy (ra_resume a) then resume_with C (ra_checkpoints a) (the (ra_resume a))
          (\<lambda>s. engine_only (resumed_check C (st_tree w) a (loop_metadata s))) w
      else if process_command a = [] then Some (Inl (parser_error ''check requires a process command after --''), w)
      else run_built C (new_check C (st_tree w) a) w)"
| "cli_run C (Cli_Repair a patch_file) w =
     (if str_truthy (ra_resume a) then resume_with C (ra_checkpoints a) (the (ra_resume a))
          (\<lambda>s. engine_only (resumed_repair C (st_tree w) a (loop_metadata s))) w
      else run_built C (new_repair C (st_tree w) a patch_file) w)"
| "cli_run C (Cli_LLM_Repair a b) w =
     (if str_truthy (ra_resume a) then resume_with C (ra_checkpoints a) (the (ra_resume a))
          (\<lambda>s. engine_only (resumed_llm_repair C (st_tree w) a b (loop_metadata s))) w
      else run_built C (new_llm_repair C (st_tree w) a b) w)"

definition exit_code :: "loop_state \<Rightarrow> int" where
  "exit_code s = (if ls_status s = LS_COMPLETED then 0 else 1)"

text \<open>The task demo: a new graph, or a saved one.\<close>

definition cli_task_demo ::
  "'w scheduler \<Rightarrow> (string \<Rightarrow> string \<Rightarrow> 'w \<Rightarrow> py_exc + task_graph) \<Rightarrow> string option \<Rightarrow> string option \<Rightarrow> 'w
   \<Rightarrow> ((py_exc + task_graph) \<times> 'w) option"
where
  "cli_task_demo S load graphs graph_id w =
     (case exc_bind demo_graph (\<lambda>g. if str_truthy graph_id then (case graphs of
              None \<Rightarrow> Inl (parser_error ''--resume requires --graphs'') | Some root_dir \<Rightarrow> load root_dir (the graph_id) w)
            else Inr g) of
        Inl e \<Rightarrow> Some (Inl e, w)
      | Inr g \<Rightarrow> (case run_scheduler S (g, w) of
            Inl e \<Rightarrow> Some (Inl e, w) | Inr r \<Rightarrow> map_option (\<lambda>(g', w'). (Inr g', w')) r))"

end
