(* ===== verification/Command_Properties.thy ===== *)
theory Command_Properties
  imports Command_Line Plugin_Paths
begin

text \<open>
  Resuming from the command line: the engine that is rebuilt from the metadata of a checkpoint is the engine of the run that
  wrote it, whatever limits, command and model the new command line gives.
\<close>

section \<open>The same tools on another tree\<close>

definition workspace_at :: "file_tree \<Rightarrow> 'w loop_host \<Rightarrow> bool" where
  "workspace_at t H \<longleftrightarrow> settled t (lh_root H) \<and> tree_at t (lh_root H) = Some Dir_Entry"

lemma dot_path: "py_path_of ''.'' = ([], [])"
  by code_simp

lemma command_tool_at:
  assumes "workspace_at t H"
  shows "command_tool H t command timeout max_output =
    exc_bind (mk_subprocess_spec (default_subprocess_spec\<lparr>ss_argv := command, ss_timeout_seconds := timeout,
         ss_max_output_bytes := max_output\<rparr>)) (\<lambda>spec.
      Inr (lh_subprocess H \<lparr>bt_workspace_root = lh_root H, bt_spec = spec, bt_cwd = lh_root H\<rparr>))"
proof -
  have "real_path n t [] (lh_root H) = Inr (lh_root H)" for n
    using real_path_fixed [of t "[]" "lh_root H"] assms by (simp add: workspace_at_def)
  moreover have "ss_cwd spec = ''.''" if "mk_subprocess_spec (default_subprocess_spec\<lparr>ss_argv := command, ss_timeout_seconds := timeout,
         ss_max_output_bytes := max_output\<rparr>) = Inr spec" for spec
    using that by (auto simp: mk_subprocess_spec_def default_subprocess_spec_def split: if_splits)
  ultimately show ?thesis
    using assms
    by (cases "mk_subprocess_spec (default_subprocess_spec\<lparr>ss_argv := command, ss_timeout_seconds := timeout, ss_max_output_bytes := max_output\<rparr>)")
      (simp_all add: command_tool_def mk_subprocess_tool_def resolve_cwd_def dot_path Let_def workspace_at_def)
qed

lemma default_workspace_at:
  "workspace_at t H \<Longrightarrow> default_workspace H t = Inr ((lh_workspace H)\<lparr>wk_root := lh_root H, wk_max_read_bytes := 256 * 1024,
     wk_max_list_entries := 500, wk_max_search_matches := 200\<rparr>)"
  by (simp add: default_workspace_def open_workspace_def workspace_at_def)

lemma repair_tools_at: "workspace_at t H \<Longrightarrow> workspace_at t' H \<Longrightarrow> repair_tools H t = repair_tools H t'"
  by (simp add: fun_eq_iff repair_tools_def default_workspace_at command_tool_at)

text \<open>The builders give the same loop wherever the workspace is a directory.\<close>

lemma builders_at:
  assumes "workspace_at t H" "workspace_at t' H"
  shows "build_coding_check_loop H t = build_coding_check_loop H t'"
    "build_scripted_repair_loop H t = build_scripted_repair_loop H t'"
    "build_llm_repair_loop H t = build_llm_repair_loop H t'"
  using repair_tools_at [OF assms]
  by (simp_all add: fun_eq_iff build_coding_check_loop_def build_scripted_repair_loop_def build_llm_repair_loop_def
      command_tool_at [OF assms(1)] command_tool_at [OF assms(2)])

section \<open>Metadata\<close>

lemma meta_reads [simp]:
  "dget_or v d k = pnum x \<Longrightarrow> py_float (dget_or v d k) = Inr x" "dget_or v d k = PInt i \<Longrightarrow> py_int (dget_or v d k) = Inr i"
  by (simp_all add: py_float_def)

lemma patch_dicts_list [simp]: "patch_dicts (PList (map PDict ds)) = Some ds"
  by (simp add: patch_dicts_def map_all_Some)

lemma check_metadata:
  "build_coding_check_loop H t command timeout max_output = Inr (E, D) \<Longrightarrow> D = check_definition H command timeout max_output"
  by (auto simp: build_coding_check_loop_def exc_bind_Inr)

lemma repair_metadata:
  "build_scripted_repair_loop H t patches command timeout max_output = Inr (E, D) \<Longrightarrow>
   D = scripted_definition H patches command timeout max_output"
  by (auto simp: build_scripted_repair_loop_def exc_bind_Inr split: if_splits)

lemma llm_metadata:
  "build_llm_repair_loop H t goal client command limits timeout max_output = Inr (E, D) \<Longrightarrow>
   D = llm_repair_definition H goal command limits timeout max_output"
  by (auto simp: build_llm_repair_loop_def exc_bind_Inr split: if_splits)

text \<open>The host of a loop is found again from the text of its root.\<close>

lemma host_again:
  assumes "host_for C t checkpoints path = Inr H" "workspace_at t' H"
  shows "host_for C t' checkpoints (full_path (lh_root H)) = Inr H"
proof -
  from assms(1) have H: "H = (co_loop C)\<lparr>lh_root := lh_root H, lh_store := map_option (co_save C) checkpoints\<rparr>"
    by (auto simp: host_for_def exc_bind_Inr)
  have "resolve_path n t' cwd (full_path (lh_root H)) = Inr (lh_root H)" for n cwd
    using assms(2) resolve_settled [of t' "lh_root H" "\<lparr>ps_links = n, ps_cwd = cwd, ps_sha256 = undefined, ps_io = undefined\<rparr>"]
    by (simp add: workspace_at_def)
  then show ?thesis using H by (simp add: host_for_def)
qed

lemma resumed_check_same:
  assumes "new_check C t a = Inr (E, D)" "host_for C t (ra_checkpoints a) (ra_workspace a) = Inr H"
    "workspace_at t H" "workspace_at t' H" "ra_checkpoints a' = ra_checkpoints a"
  shows "resumed_check C t' a' (ld_metadata D) = Inr (E, D)"
proof -
  have built: "build_coding_check_loop H t (process_command a) (ra_timeout a) (ra_max_output_bytes a) = Inr (E, D)"
    using assms(1,2) by (simp add: new_check_def)
  note D = check_metadata [OF built]
  show ?thesis
    using host_again [OF assms(2,4)] built builders_at(1) [OF assms(3,4)] assms(5)
    by (simp add: resumed_check_def D check_definition_def field_exc_def meta_float_def meta_int_def dget_or_def py_float_def)
qed

lemma resumed_repair_same:
  assumes "new_repair C t a patch_file = Inr (E, D)" "host_for C t (ra_checkpoints a) (ra_workspace a) = Inr H"
    "workspace_at t H" "workspace_at t' H" "ra_checkpoints a' = ra_checkpoints a"
  shows "resumed_repair C t' a' (ld_metadata D) = Inr (E, D)"
proof -
  from assms(1,2) obtain patches where
    built: "build_scripted_repair_loop H t patches (process_command a) (ra_timeout a) (ra_max_output_bytes a) = Inr (E, D)"
    by (auto simp: new_repair_def exc_bind_Inr split: option.splits if_splits)
  note D = repair_metadata [OF built]
  show ?thesis
    using host_again [OF assms(2,4)] built builders_at(2) [OF assms(3,4)] assms(5)
    by (simp add: resumed_repair_def D scripted_definition_def field_exc_def meta_float_def meta_int_def dget_or_def py_float_def)
qed

text \<open>The settings that a run saves rebuild its client.\<close>

lemma resumed_client_same: "resumed_client C b' (llm_settings b) = args_client C b"
  by (simp add: resumed_client_def llm_settings_def args_client_def meta_float_def meta_int_def meta_str_def dget_or_def
      py_float_def py_str_of_def Let_def)

lemma resumed_llm_same:
  assumes "new_llm_repair C t a b = Inr (E, D)" "host_for C t (ra_checkpoints a) (ra_workspace a) = Inr H"
    "workspace_at t H" "workspace_at t' H" "ra_checkpoints a' = ra_checkpoints a"
  shows "resumed_llm_repair C t' a' b' (ld_metadata D) = Inr (E, D)"
proof -
  from assms(1,2) obtain client where client: "args_client C b = Inr client"
    and built: "build_llm_repair_loop H t (the (la_goal b)) client (process_command a) (args_limits b)
        (ra_timeout a) (ra_max_output_bytes a) = Inr (E, D)"
    by (auto simp: new_llm_repair_def exc_bind_Inr split: if_splits)
  note D = llm_metadata [OF built]
  have limits: "\<lparr>ll_max_iterations = la_max_iterations b, ll_max_actions = la_max_actions b,
      ll_max_actions_per_plan = la_max_actions_per_plan b, ll_contract_repair_attempts = la_contract_repair_attempts b,
      ll_metadata = llm_settings b\<rparr> = args_limits b"
    by (simp add: args_limits_def)
  show ?thesis
    using host_again [OF assms(2,4)] built builders_at(3) [OF assms(3,4)] assms(5) client
    by (simp add: resumed_llm_repair_def D llm_repair_definition_def field_exc_def meta_float_def meta_int_def dget_or_def
        py_float_def py_str_of_def resumed_client_same limits [symmetric] args_limits_def)
qed

section \<open>Continued commands\<close>

text \<open>
  The second command line asks for the checkpoint of the first in the same store, which holds a state of its run; its
  workspace is a directory at both times.
\<close>

definition resumes ::
  "'w cli_host \<Rightarrow> run_args \<Rightarrow> 'w site \<Rightarrow> loop_definition \<Rightarrow> run_args \<Rightarrow> loop_state \<Rightarrow> 'w site \<Rightarrow> bool"
where
  "resumes C a w D a' s w' \<longleftrightarrow>
     (\<exists>H. host_for C (st_tree w) (ra_checkpoints a) (ra_workspace a) = Inr H \<and>
        workspace_at (st_tree w) H \<and> workspace_at (st_tree w') H) \<and>
     ra_checkpoints a' = ra_checkpoints a \<and> str_truthy (ra_resume a') \<and> ls_definition s = D \<and>
     (\<exists>root_dir. ra_checkpoints a = Some root_dir \<and> co_load C root_dir (the (ra_resume a')) (st_world w') = Inr s)"

text \<open>A resumed command continues the saved state with the engine of the command that started the run.\<close>

theorem check_resumes:
  assumes "new_check C (st_tree w) a = Inr (E, D)" "resumes C a w D a' s w'"
  shows "cli_run C (Cli_Check a') w' = continue_loop E s w'"
  using assms resumed_check_same [OF assms(1)] by (auto simp: resumes_def resume_with_def loop_metadata_def)

theorem repair_resumes:
  assumes "new_repair C (st_tree w) a patch_file = Inr (E, D)" "resumes C a w D a' s w'"
  shows "cli_run C (Cli_Repair a' patch_file') w' = continue_loop E s w'"
  using assms resumed_repair_same [OF assms(1)] by (auto simp: resumes_def resume_with_def loop_metadata_def)

theorem llm_repair_resumes:
  assumes "new_llm_repair C (st_tree w) a b = Inr (E, D)" "resumes C a w D a' s w'"
  shows "cli_run C (Cli_LLM_Repair a' b') w' = continue_loop E s w'"
  using assms resumed_llm_same [OF assms(1)] by (auto simp: resumes_def resume_with_def loop_metadata_def)

text \<open>
  A repair is not continued from the checkpoint of another profile, but \<open>check\<close> continues the checkpoint of a repair, with
  the engine that runs the check command alone.
\<close>

theorem profiles_kept_apart:
  assumes "dget_or PNone metadata ''profile'' \<noteq> PStr ''scripted_repair''"
  shows "resumed_repair C t a metadata = Inl (parser_error ''checkpoint does not contain a scripted repair profile'')"
  using assms by (simp add: resumed_repair_def)

theorem check_takes_repairs:
  assumes "new_repair C t a patch_file = Inr (E, D)" "host_for C t (ra_checkpoints a) (ra_workspace a) = Inr H"
    "workspace_at t H" "ra_checkpoints a' = ra_checkpoints a"
  shows "resumed_check C t a' (ld_metadata D) =
    build_coding_check_loop H t (process_command a) (ra_timeout a) (ra_max_output_bytes a)"
proof -
  from assms(1,2) obtain patches where
    built: "build_scripted_repair_loop H t patches (process_command a) (ra_timeout a) (ra_max_output_bytes a) = Inr (E, D)"
    by (auto simp: new_repair_def exc_bind_Inr split: option.splits if_splits)
  show ?thesis
    using host_again [OF assms(2,3)] assms(4)
    by (simp add: resumed_check_def repair_metadata [OF built] scripted_definition_def field_exc_def meta_float_def
        meta_int_def dget_or_def py_float_def)
qed

end
