(* ===== verification/Spec2Isabelle.thy ===== *)
theory Spec2Isabelle
  imports Loop_Properties Checkpoint_Properties Task_Board Lease_Properties Service_Properties Decision_Properties
    Workspace_Properties Subprocess_Properties Leaf_Properties Release_Properties Benchmark_Properties Plugin_Properties
    Command_Properties
begin

text \<open>
  A verification development for the loop engine and the atomic task runtime of
  \<open>src/loop_engine/\<close>.

  THE PROGRAM. A loop engine (\<open>engine.py\<close>) runs planner, executor, verifier and judge in turn over
  one \<open>LoopState\<close> until the judge completes, a budget is used up or the run stagnates, and writes a
  checkpoint after every phase. A task scheduler (\<open>tasks/scheduler.py\<close>) decomposes a goal into a graph of
  tasks, executes the leaves in batches that do not conflict on their resources, retries failed
  leaves under a bounded authority, blocks what depends on failed work and completes parents bottom-up. A
  leaf may itself be a run of the loop engine (\<open>tasks/adapters.py\<close>, \<open>tasks/coding_leaf.py\<close>). Around them are
  the adapters that touch the world: file tools of one workspace, a supervised subprocess with its
  registry and reaper, language-model planner, evidence verifier and decomposer, a lease manager
  shared by processes through a JSON registry and a lock directory, checkpoint and report stores. Profiles
  (\<open>profiles/\<close>) put engines together from these parts. Missing capabilities are acquired from a plugin generator
  and run by a worker process, in an operating-system sandbox where the policy asks for it. A release gate runs tests and
  smoke tests as supervised processes; histories of releases and of benchmark runs are analysed for regressions and for
  confidence in a strategy.

  THEORIES AND SOURCES.
  \<^item> \<open>Py_Prelude\<close>: exceptions as a datatype and results \<open>py_exc + 'a\<close>, dictionaries as association lists
    in insertion order, \<open>strip\<close>, \<open>sorted\<close>, decimal printing, SHA-256 as words where the code truncates it, and
    the lemmas about them. \<open>Py_Text\<close>: \<open>split\<close>, \<open>partition\<close>, \<open>replace\<close>, \<open>count\<close>, \<open>splitlines\<close>, POSIX paths. \<open>Json_Files\<close>: JSON values, one
    file of a directory with atomic replacement, and the locale \<open>saved_file\<close>.
  \<^item> \<open>Loop_Models\<close> (\<open>models.py\<close>, \<open>events.py\<close>, \<open>policies.py\<close>), \<open>Loop_Engine\<close> (\<open>engine.py\<close>), \<open>Loop_Provenance\<close>,
    \<open>Loop_Resumption\<close> and \<open>Steady_Runs\<close> (lemmas on whole runs: where results come from, which actions a resumed run
    executes), \<open>Loop_Adapters\<close> (\<open>adapters/tools.py\<close>, \<open>adapters/scripted.py\<close>,
    \<open>demo.py\<close>), \<open>Checkpoint_Store\<close> (\<open>checkpoint.py\<close>), \<open>Loop_Properties\<close>, \<open>Checkpoint_Properties\<close>.
  \<^item> \<open>Task_Models\<close> (\<open>tasks/models.py\<close>, \<open>tasks/events.py\<close>), \<open>Task_Decomposition\<close> (\<open>decomposition_graph.py\<close>), \<open>Task_Retry\<close> (\<open>retry.py\<close>),
    \<open>Task_Parallel\<close> (\<open>parallel.py\<close>), \<open>Task_Leases\<close> (\<open>tasks/resource_leases.py\<close>), \<open>Task_Scheduler\<close> (\<open>scheduler.py\<close>,
    \<open>scheduler_propagation.py\<close>, \<open>scheduler_retry.py\<close>), \<open>Task_Steps\<close> (the legal changes of a graph), \<open>Task_Refinement\<close>
    (every scheduler operation is a sequence of them), \<open>Task_Board\<close> (a more abstract specification),
    \<open>Task_Persistence\<close> (\<open>persistence.py\<close>), \<open>Task_Adapters\<close> (\<open>tasks/adapters.py\<close>, \<open>tasks/demo.py\<close>), \<open>Retry_Telemetry\<close>,
    \<open>Task_Properties\<close>.
  \<^item> \<open>Task_Integration\<close> (\<open>integration*.py\<close>), \<open>Decomposition_Validation\<close> and \<open>LLM_Decomposer\<close> (\<open>llm_decomposition_validation.py\<close>,
    \<open>llm_decomposer.py\<close>), \<open>Strategy_Metrics\<close>, \<open>Task_Replay\<close>, \<open>Strategy_Judge\<close> (the files of the same names),
    \<open>Decision_Properties\<close>.
  \<^item> \<open>Directory_Lock\<close>, \<open>Lease_Registry\<close>, \<open>Lease_Manager\<close> (\<open>adapters/directory_lock.py\<close>, \<open>resource_lease_registry.py\<close>,
    \<open>resource_leases.py\<close>), \<open>Lease_Properties\<close>.
  \<^item> \<open>Process_Registry\<close>, \<open>Service_Reports\<close>, \<open>Reaper_Service\<close>, \<open>Bounded_Subprocess\<close> (\<open>adapters/process_registry.py\<close>,
    \<open>service_reports.py\<close>, \<open>process_reaper_service.py\<close>, \<open>subprocesses.py\<close>), \<open>Process_Properties\<close>,
    \<open>Service_Properties\<close>, \<open>Subprocess_Properties\<close>.
  \<^item> \<open>Workspace_Files\<close> (\<open>adapters/filesystem.py\<close>), \<open>Workspace_Properties\<close>; \<open>LLM_Client\<close> (\<open>adapters/llm_http.py\<close>),
    \<open>LLM_Planner\<close> (\<open>llm_planner.py\<close>), \<open>Evidence_Verifier\<close> (\<open>evidence_verifier.py\<close>); \<open>Loop_Profiles\<close> (\<open>profiles/\<close>),
    \<open>Coding_Leaf\<close> (\<open>tasks/coding_leaf.py\<close>), \<open>Profile_Examples\<close>, \<open>Profile_Properties\<close>, \<open>Leaf_Properties\<close>.
  \<^item> \<open>Snapshot_Store\<close> (what the two histories share, with the locale \<open>snapshots\<close>), \<open>Release_Gate\<close> (\<open>release_gate.py\<close>,
    \<open>sandbox_release_gate.py\<close>), \<open>Release_History\<close> (\<open>release_history.py\<close>, the body of \<open>tools/release_trends.py\<close>),
    \<open>Release_Properties\<close>; \<open>Benchmark_History\<close> (\<open>benchmarks/models.py\<close>, \<open>history_models.py\<close>, \<open>history_store.py\<close>,
    \<open>history.py\<close>, the body of \<open>tools/benchmark_confidence.py\<close>), \<open>Cross_Case\<close> (\<open>benchmarks/cross_case*.py\<close>, the body of
    \<open>tools/cross_case_profile.py\<close>), \<open>Benchmark_Properties\<close>.
  \<^item> \<open>Plugin_Registry\<close> and \<open>Plugin_Acquisition\<close> (\<open>tasks/plugin_acquisition.py\<close>), \<open>Plugin_Sandbox\<close>
    (\<open>tasks/plugin_sandbox.py\<close>), \<open>Plugin_Runtime\<close> (\<open>tasks/plugin_runtime.py\<close>, \<open>tasks/plugin_worker.py\<close>), \<open>Plugin_Paths\<close>
    (resolved paths as text and back), \<open>Plugin_Properties\<close>.
  \<^item> \<open>Command_Line\<close> (\<open>cli.py\<close> after its arguments are parsed), \<open>Command_Properties\<close>: a resumed command continues the saved
    state with the engine of the command that started the run.

  HOW THE CODE IS READ. A dataclass is a record, an enum a datatype, a dictionary an association
  list in insertion order. A function that can raise returns \<open>py_exc + 'a\<close>: \<open>Inl\<close> with the exception
  class and the message where the code sets one. Ports (\<open>ports.py\<close>, \<open>tasks/ports.py\<close>) are fields of the
  records \<open>loop_engine\<close> and \<open>scheduler\<close>: functions that read the state they are given and return a result or
  an exception and a new outside world, whose type is a parameter. So a theorem about the engine or the
  scheduler holds for every planner, executor, judge, clock and store of that shape; the
  profiles instantiate the parameters with the modelled adapters. Contracts between components are locales
  (\<open>saved_file\<close> and those beside the operations they describe), each interpreted on the model's own definitions.
  Python's \<open>int\<close> is \<open>int\<close> (or \<open>nat\<close> for a counter that starts at zero and only grows), \<open>float\<close> is an exact
  rational, text is a list of characters with code points below 256.

  WHAT THE LEMMAS SHOW.
  \<^item> Engine: it returns within its budgets; COMPLETED is the judge's decision on the last
    verification; every checkpoint resumes without losing or repeating a recorded action: the resumed run executes exactly
    the actions of the interrupted plan that have no result yet; what is on disk
    is what was returned; stagnation and events are as documented.
  \<^item> Scheduler: it refines \<open>Task_Steps\<close> and \<open>Task_Board\<close>; from this come the order of dependencies, the
    meaning of a completed root and the budgets of nodes, depth, executions and retries. The cycle check is
    exact, batches are free of conflicts, a retry is granted exactly under the stated condition, saved graphs
    resume.
  \<^item> Leases, processes, services: exclusion, rising fencing tokens, ownership, the exact effect of
    reaping, the life of a record, the registry on disk equal to the one in memory, bounded runs of the
    service and of a supervised call.
  \<^item> Untrusted decisions: what a language model can bring about. A plan passes the planner's checks, which
    are stated exactly; an accepted decomposition meets the contract; an evidence run changes nothing; a repair run and a
    coding leaf change only unprotected places of the workspace, in a tree where no link stands at the name of a patch's
    temporary and with a check command that keeps to the same places; a completed repair carried out its last plan
    without an error.
  \<^item> Generated code: a plugin runs only for an admitted capability, with the registered hashes, and in the sandbox
    reaches only what its mounts show; the worker executes no other source, and what it prints is understood as it was meant;
    acquiring a capability makes it available or leaves the registry as it was.
  \<^item> Releases and benchmarks: the verdict of the gate is exactly that of its processes; reports read back from their
    files; snapshots are never overwritten and are listed newest first; a regression, a confident winner and a
    confident profile mean what their reports say.
  \<^item> Limits of these guarantees, each proved on a concrete run: a path with \<open>..\<close> behind a link, a link planted under
    the name of a patch's temporary, a patch after the last check, a recorded decision that cannot be loaded, an executable with a blank in its name, two processes that reclaim the same
    stale lock, a capability set the leaf executor does not expect, a blocked release in a history.

  TERMINATION AND FUEL. \<open>run_loop\<close> of the engine, \<open>sched_loop\<close>, the waiting loops of lock, subprocess and service
  are partial functions into \<open>option\<close>; that they return is a theorem each time. The engine and the scheduler
  return because every turn uses a budget or reaches a terminal status; waiting returns under the
  hypothesis that the clock passes the deadline. Fuel occurs where a structure bounds the loop: the depth-first
  search visits a node once, so the number of nodes and edges is enough; the chain of ancestors has at most
  as many elements as the graph; resolving a path follows at most as many links as the operating system
  allows (a parameter, \<open>wk_link_limit\<close>), and then reports a loop as it does; a service run has at most \<open>max_cycles\<close> cycles.

  WHAT IS ASSUMED. A port reads the state it is given and does not change it in place. The store ports of engine
  and scheduler do not raise (the file stores themselves are modelled with their exceptions). The thread pool is
  linearised in submission order; the two drain threads of a subprocess are given by
  whether they start and the chunks they read; an interrupt reaches a supervised call only while it waits for its process.
  Checkpoints and task graphs are written to their temporary file and moved, and so are patched files; the other stores
  are modelled as one replacement of their file. The operations of a registry under its lock are single steps, and \<open>os.replace\<close> is atomic. The JSON
  codec, SHA-256, the canonical serialisation, regular expressions, decoding of undecodable bytes,
  \<open>urlopen\<close> and the operating system's processes are arguments; where a theorem relies on
  one of them (parsing what was serialised gives it back) this is a named hypothesis, with a witness that instantiates it.
  A value of a wrong shape in a file raises \<open>TypeError ''malformed ...''\<close> where Python raises some
  TypeError, KeyError or AttributeError. Paths hold no NUL character, and only the POSIX branches are modelled.

  The code of a plugin is what compiling and executing its source leaves under the name \<open>run\<close>; plugin files and mounts are
  read from the tree at the time of the call, the registry's own file is one of the directory, and there are no hard links.
  Writing a report, a snapshot or the registry of capabilities does not fail.

  NOT MODELLED. The Protocol classes have no code. The Windows branches of \<open>subprocesses.py\<close> call kernel32. The worker's
  redirection of the output streams and all argument parsers are left out. The benchmark cases (\<open>benchmarks/consolidation.py\<close>,
  \<open>multiprocess_contention.py\<close>, \<open>project_audit.py\<close>, \<open>resource_recovery.py\<close>, \<open>retryable_side_effect.py\<close> and their
  workspaces), the printing of \<open>cli.py\<close>, the remaining \<open>tools/\<close>, \<open>examples/\<close> and \<open>tests/\<close> are drivers: they set up temporary
  directories, threads and processes around the modelled components, measure wall-clock time and print.
\<close>

end
